(* ===== verification/Pbz_Base.thy ===== *)
theory Pbz_Base
  imports Main "HOL-Library.Word"
begin

unbundle bit_operations_syntax

text \<open>
  Prelude of the development: the machine types of the Zig sources (Zig fixes the width of
  every integer, and a \<open>usize\<close> index of a slice is a \<open>nat\<close>), stores into a caller's
  buffer that fail when out of range, the arithmetic reading of the bit operations the
  wire codec uses, and decimal digits. A value of a signed Zig type \<open>i32\<close> or \<open>i64\<close> is kept as the word with
  the same bits (so \<open>@bitCast\<close> is the identity) and read with \<open>sint\<close>.
\<close>

section \<open>Types\<close>

type_synonym byte = "8 word"
type_synonym u32 = "32 word"
type_synonym i32 = "32 word"
type_synonym u64 = "64 word"
type_synonym i64 = "64 word"
type_synonym bytes = "byte list"
type_synonym field_number = "29 word"

text \<open>The largest \<open>usize\<close> of the 64-bit targets.\<close>

definition usize_max :: nat where
  "usize_max = 2 ^ 64 - 1"

text \<open>
  The range of a signed and of an unsigned integer of \<open>w\<close> bits, where the code computes with
  an integer whose overflow is a panic and the model with \<open>int\<close>.
\<close>

definition fits :: "nat \<Rightarrow> int \<Rightarrow> bool" where
  "fits w n \<longleftrightarrow> - (2 ^ (w - 1)) \<le> n \<and> n < 2 ^ (w - 1)"

definition fits_unsigned :: "nat \<Rightarrow> int \<Rightarrow> bool" where
  "fits_unsigned w n \<longleftrightarrow> 0 \<le> n \<and> n < 2 ^ w"

named_theorems word_nat \<comment> \<open>bit operations of the codec read as arithmetic on \<open>nat\<close>\<close>

section \<open>Stores into a buffer\<close>

text \<open>
  \<open>buffer[i] = b\<close>: an index past the end is a safety panic in Zig, here \<open>None\<close>.
\<close>

definition put :: "'a list \<Rightarrow> nat \<Rightarrow> 'a \<Rightarrow> 'a list option" where
  "put buf i b = (if i < length buf then Some (buf[i := b]) else None)"

lemma put_length: "put buf i b = Some buf' \<Longrightarrow> length buf' = length buf"
  by (auto simp: put_def split: if_splits)

lemma put_append [simp]:
  "length pre = i \<Longrightarrow> rest \<noteq> [] \<Longrightarrow> put (pre @ rest) i b = Some (pre @ b # tl rest)"
  by (cases rest) (auto simp: put_def)

section \<open>Operations on a state\<close>

text \<open>
  A method with a mutable \<open>self\<close> and an error union: \<open>None\<close> is a safety panic, otherwise
  the result is the error or the value together with the state the method leaves, also
  when it fails. \<open>tryIn m f\<close> is Zig's \<open>const x = try m; f(x)\<close>, and \<open>deferring\<close> runs a
  \<open>defer\<close>red method on the way out, whether its scope ends with an error or not.
\<close>

type_synonym ('s, 'e, 'a) op = "'s \<Rightarrow> (('e + 'a) \<times> 's) option"

definition return :: "'a \<Rightarrow> ('s, 'e, 'a) op" where
  "return x = (\<lambda>s. Some (Inr x, s))"

definition throw :: "'e \<Rightarrow> ('s, 'e, 'a) op" where
  "throw e = (\<lambda>s. Some (Inl e, s))"

definition tryIn :: "('s, 'e, 'a) op \<Rightarrow> ('a \<Rightarrow> ('s, 'e, 'b) op) \<Rightarrow> ('s, 'e, 'b) op" where
  "tryIn m f = (\<lambda>s. case m s of
       None \<Rightarrow> None
     | Some (Inl e, s') \<Rightarrow> Some (Inl e, s')
     | Some (Inr x, s') \<Rightarrow> f x s')"

definition deferring :: "('s, 'e, 'b) op \<Rightarrow> ('s, 'e, 'a) op \<Rightarrow> ('s, 'e, 'a) op" where
  "deferring cleanup m = (\<lambda>s. case m s of
       None \<Rightarrow> None
     | Some (r, s') \<Rightarrow> (case cleanup s' of None \<Rightarrow> None | Some (_, s'') \<Rightarrow> Some (r, s'')))"

definition guardOk :: "bool \<Rightarrow> 'e \<Rightarrow> ('s, 'e, unit) op" where
  "guardOk b e = (if b then return () else throw e)"

definition liftSum :: "'e + 'a \<Rightarrow> ('s, 'e, 'a) op" where
  "liftSum r = (\<lambda>s. Some (r, s))"

lemma return_apply [simp]: "return x s = Some (Inr x, s)"
  by (simp add: return_def)

lemma throw_apply [simp]: "throw e s = Some (Inl e, s)"
  by (simp add: throw_def)

lemma liftSum_apply [simp]: "liftSum r s = Some (r, s)"
  by (simp add: liftSum_def)

lemma tryIn_Some:
  "tryIn m f s = Some (r, t) \<longleftrightarrow>
     (\<exists>e. m s = Some (Inl e, t) \<and> r = Inl e) \<or> (\<exists>x s'. m s = Some (Inr x, s') \<and> f x s' = Some (r, t))"
  by (auto simp: tryIn_def split: option.splits sum.splits)

lemma tryIn_Inr: "m s = Some (Inr x, s') \<Longrightarrow> tryIn m f s = f x s'"
  by (simp add: tryIn_def)

lemma tryIn_Inl: "m s = Some (Inl e, s') \<Longrightarrow> tryIn m f s = Some (Inl e, s')"
  by (simp add: tryIn_def)

lemma tryIn_return [simp]: "tryIn (return x) f = f x"
  by (simp add: tryIn_def)

lemma tryIn_assoc: "tryIn (tryIn m f) g = tryIn m (\<lambda>x. tryIn (f x) g)"
  by (auto simp: tryIn_def fun_eq_iff split: option.splits sum.splits)

lemma tryIn_total:
  "m s \<noteq> None \<Longrightarrow> (\<And>x s'. m s = Some (Inr x, s') \<Longrightarrow> f x s' \<noteq> None) \<Longrightarrow> tryIn m f s \<noteq> None"
  by (auto simp: tryIn_def split: option.splits sum.splits)

lemma tryIn_cong_at:
  assumes "m self = m' self" "\<And>x s. m self = Some (Inr x, s) \<Longrightarrow> f x s = f' x s"
  shows "tryIn m f self = tryIn m' f' self"
  using assms by (auto simp: tryIn_def split: option.splits sum.splits)

text \<open>\<open>m'\<close> answers whatever \<open>m\<close> answers.\<close>

definition op_le :: "('s, 'e, 'a) op \<Rightarrow> ('s, 'e, 'a) op \<Rightarrow> bool" where
  "op_le m m' \<longleftrightarrow> (\<forall>s x. m s = Some x \<longrightarrow> m' s = Some x)"

lemma op_leD: "op_le m m' \<Longrightarrow> m s = Some x \<Longrightarrow> m' s = Some x"
  unfolding op_le_def by blast

named_theorems op_mono \<comment> \<open>composition is monotone in \<open>op_le\<close>\<close>

lemma op_le_refl [op_mono]: "op_le m m"
  by (simp add: op_le_def)

lemma op_le_panic [op_mono]: "op_le (\<lambda>_. None) m"
  by (simp add: op_le_def)

lemma op_le_tryIn [op_mono]: "op_le m m' \<Longrightarrow> (\<And>x. op_le (f x) (f' x)) \<Longrightarrow> op_le (tryIn m f) (tryIn m' f')"
  by (auto simp: op_le_def tryIn_def split: option.splits sum.splits)

lemma op_le_deferring [op_mono]: "op_le m m' \<Longrightarrow> op_le (deferring c m) (deferring c m')"
  by (fastforce simp: op_le_def deferring_def split: option.splits)

lemma op_le_if [op_mono]: "op_le m m' \<Longrightarrow> op_le n n' \<Longrightarrow> op_le (if b then m else n) (if b then m' else n')"
  by simp

lemma op_le_option [op_mono]:
  "op_le m m' \<Longrightarrow> (\<And>x. op_le (f x) (f' x)) \<Longrightarrow> op_le (case y of None \<Rightarrow> m | Some x \<Rightarrow> f x) (case y of None \<Rightarrow> m' | Some x \<Rightarrow> f' x)"
  by (cases y) auto

section \<open>Bit operations as arithmetic\<close>

lemma unat_and_127 [word_nat]: "unat ((b :: byte) AND 0x7F) = unat b mod 128"
proof -
  have "b AND 0x7F = take_bit 7 b"
    by (simp only: take_bit_eq_mask mask_eq_exp_minus_1) simp
  then have "unat (b AND 0x7F) = take_bit 7 (unat b)"
    by (simp only: unsigned_take_bit_eq)
  then show ?thesis
    by (simp only: take_bit_eq_mod) simp
qed

lemma or_disjoint_nat: "x < 2 ^ s \<Longrightarrow> x OR (y * 2 ^ s) = x + y * 2 ^ s" for x y :: nat
proof -
  assume "x < 2 ^ s"
  then have x: "take_bit s x = x" by (rule take_bit_nat_eq_self)
  have "\<not> bit x n \<or> \<not> bit (push_bit s y) n" for n
    using x by (metis bit_push_bit_iff bit_take_bit_iff not_le)
  then have "x + push_bit s y = x OR push_bit s y"
    by (intro disjunctive_add_eq_or) (auto simp: bit_eq_iff bit_and_iff)
  then show ?thesis by (simp add: push_bit_eq_mult)
qed

lemma unat_or_shift [word_nat]:
  fixes r :: "'a::len word" and b :: byte
  assumes "unat r < 2 ^ s" and "(unat b mod 128) * 2 ^ s < 2 ^ LENGTH('a)"
    and "7 \<le> LENGTH('a)"
  shows "unat (r OR push_bit s (ucast (b AND 0x7F))) = unat r + (unat b mod 128) * 2 ^ s"
proof -
  have "(128::nat) \<le> 2 ^ LENGTH('a)"
    using power_increasing [OF assms(3), of "2::nat"] by simp
  then have c: "unat (ucast (b AND 0x7F) :: 'a word) = unat b mod 128"
    by (simp add: unsigned_ucast_eq take_bit_eq_mod unat_and_127 order_less_le_trans [of _ 128])
  have "unat (push_bit s (ucast (b AND 0x7F) :: 'a word)) = (unat b mod 128) * 2 ^ s"
    using assms(2)
    by (simp only: unsigned_push_bit_eq c) (simp only: push_bit_eq_mult take_bit_eq_mod mod_less)
  then show ?thesis
    using assms(1) by (simp only: unsigned_or_eq or_disjoint_nat)
qed

lemma unat_low_byte [word_nat]:
  "unat v < 128 \<Longrightarrow> unat (ucast (v :: 'a::len word) :: byte) = unat v"
  by (simp add: unsigned_ucast_eq take_bit_eq_mod)

lemma or_128_nat: "take_bit 8 (n OR 128) = n mod 128 + 128" for n :: nat
proof -
  have "take_bit 8 (n OR 128) = take_bit 8 n OR take_bit 8 128"
    by (rule take_bit_or)
  also have "\<dots> = take_bit 7 n OR 1 * 2 ^ 7"
  proof (rule bit_eqI)
    fix k
    have "bit (128::nat) k \<longleftrightarrow> k = 7"
      using bit_exp_iff [of 7 k, where ?'a = nat] by simp
    then show "bit (take_bit 8 n OR take_bit 8 128) k = bit (take_bit 7 n OR 1 * 2 ^ 7) k"
      by (cases "k < 7"; cases "k = 7") (auto simp: bit_or_iff bit_take_bit_iff)
  qed
  also have "\<dots> = take_bit 7 n + 1 * 2 ^ 7"
    by (rule or_disjoint_nat) (rule take_bit_nat_less_exp)
  finally show ?thesis
    by (simp add: take_bit_eq_mod)
qed

lemma unat_or_128 [word_nat]:
  fixes v :: "'a::len word"
  assumes "8 \<le> LENGTH('a)"
  shows "unat (ucast (v OR 0x80) :: byte) = unat v mod 128 + 128"
proof -
  have "(256::nat) \<le> 2 ^ LENGTH('a)"
    using power_increasing [OF assms, of "2::nat"] by simp
  then have "unat (128 :: 'a word) = 128"
    by (simp add: unat_numeral take_bit_eq_mod order_less_le_trans [of _ 256])
  then have "unat (v OR 0x80) = unat v OR 128"
    by (simp only: unsigned_or_eq)
  then have "unat (ucast (v OR 0x80) :: byte) = take_bit 8 (unat v OR 128)"
    by (simp only: unsigned_ucast_eq) simp
  then show ?thesis
    by (simp only: or_128_nat)
qed

lemma unat_drop_bit_div [word_nat]: "unat (drop_bit n w) = unat w div 2 ^ n" for w :: "'a::len word"
  by (subst unat_drop_bit_eq) (rule drop_bit_eq_div)

lemma word_eq_of_nat: "unat w = n \<Longrightarrow> w = of_nat n" for w :: "'a::len word"
  by auto

lemma unat_byte_of_nat [simp]: "n < 256 \<Longrightarrow> unat (of_nat n :: byte) = n"
  by (simp add: unat_of_nat)

lemma unat_bound: "unat w < 2 ^ LENGTH('a)" for w :: "'a::len word"
  by simp

lemma unat_ucast_byte [word_nat]:
  "8 \<le> LENGTH('a) \<Longrightarrow> unat (ucast b :: 'a::len word) = unat b" for b :: byte
proof -
  assume "8 \<le> LENGTH('a)"
  then have "unat b < 2 ^ LENGTH('a)"
    using unat_bound [of b] power_increasing [of 8 "LENGTH('a)" "2::nat"] by simp
  then show ?thesis by (simp add: unsigned_ucast_eq take_bit_eq_mod)
qed

lemma byte_less_128: "b < 0x80 \<longleftrightarrow> unat b < 128" for b :: byte
  by (simp add: word_less_nat_alt)

section \<open>Decimal digits\<close>

fun decimal :: "nat \<Rightarrow> string" where
  "decimal n = (if n < 10 then [char_of (48 + n)] else decimal (n div 10) @ [char_of (48 + n mod 10)])"

declare decimal.simps [simp del]

text \<open>Reading decimal digits back.\<close>

definition undecimal :: "string \<Rightarrow> nat" where
  "undecimal s = foldl (\<lambda>a c. a * 10 + (of_char c - 48)) 0 s"

lemma undecimal_snoc: "undecimal (s @ [c]) = undecimal s * 10 + (of_char c - 48)"
  by (simp add: undecimal_def)

lemma undecimal_decimal: "undecimal (decimal n) = n"
proof (induction n rule: decimal.induct)
  case (1 n)
  show ?case
  proof (cases "n < 10")
    case True
    then show ?thesis by (subst decimal.simps) (simp add: undecimal_def)
  next
    case False
    then show ?thesis
      using 1 by (subst decimal.simps) (simp add: undecimal_snoc)
  qed
qed

lemma undecimal_zeros: "undecimal (replicate k (CHR ''0'') @ s) = undecimal s"
  by (induction k) (auto simp: undecimal_def)

lemma length_decimal: "n < 10 ^ k \<Longrightarrow> 0 < k \<Longrightarrow> length (decimal n) \<le> k"
proof (induction n arbitrary: k rule: decimal.induct)
  case (1 n)
  show ?case
  proof (cases "n < 10")
    case False
    then obtain j where j: "k = Suc j" "0 < j" using "1.prems" by (cases k; cases "k - 1") auto
    then have "n div 10 < 10 ^ j" using "1.prems" by (simp add: less_mult_imp_div_less mult.commute)
    then have "length (decimal (n div 10)) \<le> j" using "1.IH" False j(2) by blast
    then show ?thesis using False j(1) by (subst decimal.simps) simp
  qed (use "1.prems" in \<open>subst decimal.simps, simp\<close>)
qed

lemma word_of_unat: "of_nat (unat w) = w" for w :: "'a::len word"
  by simp

end
