(* ===== verification/Wire_Types.thy ===== *)
theory Wire_Types
  imports Pbz_Base
begin

unbundle bit_operations_syntax

text \<open>
  The leaf definitions of \<open>src/wire.zig\<close>: the error set, wire types and tags, the
  zig-zag mapping of signed integers, the size of an encoded varint and the chunked
  lexicographic comparison of byte strings.
\<close>

section \<open>Errors, wire types and tags\<close>

datatype wire_error =
    TruncatedInput
  | MalformedVarint
  | InvalidFieldNumber
  | InvalidWireType
  | UnsupportedWireType
  | RecursionLimitExceeded
  | Overflow

datatype wire_type = Varint | Fixed64 | LengthDelimited | StartGroup | EndGroup | Fixed32

fun intFromEnum :: "wire_type \<Rightarrow> nat" where
  "intFromEnum Varint = 0"
| "intFromEnum Fixed64 = 1"
| "intFromEnum LengthDelimited = 2"
| "intFromEnum StartGroup = 3"
| "intFromEnum EndGroup = 4"
| "intFromEnum Fixed32 = 5"

definition wireType_fromInt :: "3 word \<Rightarrow> wire_error + wire_type" where
  "wireType_fromInt value =
     (if value = 0 then Inr Varint
      else if value = 1 then Inr Fixed64
      else if value = 2 then Inr LengthDelimited
      else if value = 3 then Inr StartGroup
      else if value = 4 then Inr EndGroup
      else if value = 5 then Inr Fixed32
      else Inl InvalidWireType)"

record tag =
  number :: field_number
  tag_type :: wire_type

definition tag_encode :: "tag \<Rightarrow> wire_error + u64" where
  "tag_encode t =
     (if number t = 0 then Inl InvalidFieldNumber
      else Inr (push_bit 3 (ucast (number t)) OR of_nat (intFromEnum (tag_type t))))"

definition tag_decode :: "u64 \<Rightarrow> wire_error + tag" where
  "tag_decode value =
     (let num = drop_bit 3 value in
      if num = 0 \<or> num > of_nat (2 ^ 29 - 1) then Inl InvalidFieldNumber
      else (case wireType_fromInt (ucast (value AND 7)) of
              Inl e \<Rightarrow> Inl e
            | Inr wt \<Rightarrow> Inr \<lparr>number = ucast num, tag_type = wt\<rparr>))"

section \<open>Zig-zag\<close>

definition zigZagEncode32 :: "i32 \<Rightarrow> u32" where
  "zigZagEncode32 value = push_bit 1 value XOR signed_drop_bit 31 value"

definition zigZagDecode32 :: "u32 \<Rightarrow> i32" where
  "zigZagDecode32 value =
     (let half = drop_bit 1 value; sign = - (value AND 1) in half XOR sign)"

definition zigZagEncode64 :: "i64 \<Rightarrow> u64" where
  "zigZagEncode64 value = push_bit 1 value XOR signed_drop_bit 63 value"

definition zigZagDecode64 :: "u64 \<Rightarrow> i64" where
  "zigZagDecode64 value =
     (let half = drop_bit 1 value; sign = - (value AND 1) in half XOR sign)"

section \<open>Varint sizes\<close>

text \<open>The builtin \<open>@clz\<close>: leading zeros of a 64-bit value.\<close>

fun bit_length :: "nat \<Rightarrow> nat" where
  "bit_length n = (if n = 0 then 0 else Suc (bit_length (n div 2)))"

declare bit_length.simps [simp del]

definition clz64 :: "u64 \<Rightarrow> nat" where
  "clz64 v = 64 - bit_length (unat v)"

definition encodedVarintSize :: "u64 \<Rightarrow> nat" where
  "encodedVarintSize value =
     (if value < push_bit 7 1 then 1
      else if value < push_bit 14 1 then 2
      else if value < push_bit 21 1 then 3
      else ((64 - clz64 value) + 6) div 7)"

definition tagSize :: "field_number \<Rightarrow> wire_type \<Rightarrow> wire_error + nat" where
  "tagSize num wt =
     (case tag_encode \<lparr>number = num, tag_type = wt\<rparr> of
        Inl e \<Rightarrow> Inl e
      | Inr raw \<Rightarrow> Inr (encodedVarintSize raw))"

section \<open>Chunked byte comparison\<close>

text \<open>The standard library's \<open>std.mem.readInt(u64, chunk, .big)\<close> on a chunk of eight bytes.\<close>

definition readInt_big :: "bytes \<Rightarrow> u64" where
  "readInt_big chunk = foldl (\<lambda>acc b. push_bit 8 acc OR ucast b) 0 chunk"

text \<open>The tail loop of \<open>bytesLessThan\<close>, one byte at a time.\<close>

function bytesLessThan_tail :: "bytes \<Rightarrow> bytes \<Rightarrow> nat \<Rightarrow> nat \<Rightarrow> bool" where
  "bytesLessThan_tail lhs rhs common_len i =
     (if i < common_len
      then (if lhs ! i \<noteq> rhs ! i then lhs ! i < rhs ! i
            else bytesLessThan_tail lhs rhs common_len (i + 1))
      else length lhs < length rhs)"
  by pat_completeness auto
termination
  by (relation "measure (\<lambda>(lhs, rhs, c, i). c - i)") auto

text \<open>The chunk loop: eight bytes at a time while at least eight are left.\<close>

function bytesLessThan_chunks :: "bytes \<Rightarrow> bytes \<Rightarrow> nat \<Rightarrow> nat \<Rightarrow> bool" where
  "bytesLessThan_chunks lhs rhs common_len i =
     (if common_len - i \<ge> 8
      then (let lhs_word = readInt_big (take 8 (drop i lhs));
                rhs_word = readInt_big (take 8 (drop i rhs))
            in if lhs_word \<noteq> rhs_word then lhs_word < rhs_word
               else bytesLessThan_chunks lhs rhs common_len (i + 8))
      else bytesLessThan_tail lhs rhs common_len i)"
  by pat_completeness auto
termination
  by (relation "measure (\<lambda>(lhs, rhs, c, i). c - i)") auto

declare bytesLessThan_tail.simps [simp del] bytesLessThan_chunks.simps [simp del]

definition bytesLessThan :: "bytes \<Rightarrow> bytes \<Rightarrow> bool" where
  "bytesLessThan lhs rhs = bytesLessThan_chunks lhs rhs (min (length lhs) (length rhs)) 0"

text \<open>The standard library's \<open>std.mem.lessThan(u8, lhs, rhs)\<close>.\<close>

fun mem_lessThan :: "bytes \<Rightarrow> bytes \<Rightarrow> bool" where
  "mem_lessThan _ [] = False"
| "mem_lessThan [] (_ # _) = True"
| "mem_lessThan (x # xs) (y # ys) = (if x = y then mem_lessThan xs ys else x < y)"

section \<open>Tags: encoding and decoding are mutually inverse\<close>

lemma div_mod_8_iff: "v mod 8 = w \<and> v div 8 = n \<longleftrightarrow> v = n * 8 + w" if "w < 8" for v w n :: nat
  using that div_mult_mod_eq [of v 8] by auto

lemma intFromEnum_less: "intFromEnum wt < 6"
  by (cases wt) auto

lemma intFromEnum_inject: "intFromEnum a = intFromEnum b \<longleftrightarrow> a = b"
  by (cases a; cases b) auto

lemma wireType_fromInt_intFromEnum:
  "wireType_fromInt (of_nat (intFromEnum wt)) = Inr wt"
  by (cases wt) (auto simp: wireType_fromInt_def)

lemma u3_cases:
  fixes v :: "3 word"
  obtains "v = 0" | "v = 1" | "v = 2" | "v = 3" | "v = 4" | "v = 5" | "v = 6" | "v = 7"
proof -
  have "unat v < 8" using unat_bound [of v] by simp
  then have "unat v = 0 \<or> unat v = 1 \<or> unat v = 2 \<or> unat v = 3 \<or>
      unat v = 4 \<or> unat v = 5 \<or> unat v = 6 \<or> unat v = 7" by arith
  then have "v = 0 \<or> v = 1 \<or> v = 2 \<or> v = 3 \<or> v = 4 \<or> v = 5 \<or> v = 6 \<or> v = 7"
    by (simp add: word_unat_eq_iff)
  with that show thesis by blast
qed

lemma wireType_fromInt_Inr: "wireType_fromInt v = Inr wt \<longleftrightarrow> unat v = intFromEnum wt"
  by (rule u3_cases [of v]; cases wt) (auto simp: wireType_fromInt_def)

lemma wireType_fromInt_Inl: "wireType_fromInt v = Inl e \<longleftrightarrow> e = InvalidWireType \<and> 6 \<le> unat v"
  by (rule u3_cases [of v]) (auto simp: wireType_fromInt_def)

lemma unat_tag_raw:
  "unat (push_bit 3 (ucast (n :: field_number)) OR of_nat (intFromEnum wt) :: u64) = unat n * 8 + intFromEnum wt"
proof -
  have n: "unat n < 2 ^ 29" using unat_bound [of n] by simp
  have "unat (ucast n :: u64) = unat n"
    using n by (simp add: unsigned_ucast_eq take_bit_eq_mod)
  then have p: "unat (push_bit 3 (ucast n :: u64)) = unat n * 2 ^ 3"
    using n by (simp only: unsigned_push_bit_eq) (simp add: push_bit_eq_mult take_bit_eq_mod)
  have w: "unat (of_nat (intFromEnum wt) :: u64) = intFromEnum wt"
    using intFromEnum_less [of wt] by (simp add: unat_of_nat)
  have "unat (push_bit 3 (ucast n) OR of_nat (intFromEnum wt) :: u64) = intFromEnum wt OR unat n * 2 ^ 3"
    by (simp only: unsigned_or_eq p w or.commute)
  also have "\<dots> = intFromEnum wt + unat n * 2 ^ 3"
    using intFromEnum_less [of wt] by (intro or_disjoint_nat) simp
  finally show ?thesis by simp
qed

lemma tag_encode_Inr:
  "tag_encode t = Inr raw \<longleftrightarrow> number t \<noteq> 0 \<and> unat raw = unat (number t) * 8 + intFromEnum (tag_type t)"
  by (auto simp: tag_encode_def unat_tag_raw word_unat_eq_iff  split: if_splits)

lemma unat_field_bits: "unat (ucast (v AND 7) :: 3 word) = unat (v :: u64) mod 8"
proof -
  have "v AND 7 = take_bit 3 v"
    by (simp only: take_bit_eq_mask mask_eq_exp_minus_1) simp
  then have "unat (v AND 7) = take_bit 3 (unat v)"
    by (simp only: unsigned_take_bit_eq)
  then show ?thesis
    by (simp add: unsigned_ucast_eq take_bit_eq_mod)
qed

lemma tag_decode_Inr:
  "tag_decode value = Inr t \<longleftrightarrow> number t \<noteq> 0 \<and> unat value = unat (number t) * 8 + intFromEnum (tag_type t)"
proof -
  have d: "unat (drop_bit 3 value) = unat value div 8"
    by (simp add: unat_drop_bit_div)
  have n: "unat (number t) < 2 ^ 29" using unat_bound [of "number t"] by simp
  have z: "drop_bit 3 value = 0 \<longleftrightarrow> unat value div 8 = 0"
    by (simp only: d [symmetric] unat_0_iff)
  have g: "drop_bit 3 value > 536870911 \<longleftrightarrow> unat value div 8 > 536870911"
    by (simp add: word_less_nat_alt d)
  have c: "ucast (drop_bit 3 value) = number t \<longleftrightarrow> unat value div 8 = unat (number t)"
    if "unat value div 8 < 2 ^ 29"
  proof -
    have "unat (ucast (drop_bit 3 value) :: field_number) = unat value div 8"
      using that by (simp only: unsigned_ucast_eq d) (simp add: take_bit_eq_mod)
    then show ?thesis by (metis word_unat_eq_iff)
  qed
  show ?thesis
  proof (cases "unat value div 8 = 0 \<or> unat value div 8 > 536870911")
    case True
    then have "tag_decode value = Inl InvalidFieldNumber"
      by (auto simp: tag_decode_def z g Let_def)
    moreover have "\<not> (number t \<noteq> 0 \<and> unat value = unat (number t) * 8 + intFromEnum (tag_type t))"
      using True n intFromEnum_less [of "tag_type t"] by (auto simp: unat_0_iff)
    ultimately show ?thesis by simp
  next
    case False
    then have "tag_decode value = Inr t \<longleftrightarrow>
        wireType_fromInt (ucast (value AND 7)) = Inr (tag_type t) \<and> ucast (drop_bit 3 value) = number t"
      by (auto simp: tag_decode_def z g Let_def split: sum.splits)
    also have "\<dots> \<longleftrightarrow> unat value mod 8 = intFromEnum (tag_type t) \<and> unat value div 8 = unat (number t)"
      using False c by (simp add: wireType_fromInt_Inr unat_field_bits)
    also have "\<dots> \<longleftrightarrow> unat value = unat (number t) * 8 + intFromEnum (tag_type t)"
      using intFromEnum_less [of "tag_type t"] by (intro div_mod_8_iff) simp
    also have "\<dots> \<longleftrightarrow> number t \<noteq> 0 \<and> unat value = unat (number t) * 8 + intFromEnum (tag_type t)"
      using False intFromEnum_less [of "tag_type t"] by (auto simp: unat_0_iff [symmetric])
    finally show ?thesis .
  qed
qed

section \<open>Zig-zag is a bijection with the documented arithmetic\<close>

lemma bit_sign_fill:
  "n < LENGTH('a) \<Longrightarrow> bit (signed_drop_bit (LENGTH('a) - 1) v) n \<longleftrightarrow> bit v (LENGTH('a) - 1)"
  for v :: "'a::len word"
  by (cases "n = 0") (auto simp: bit_signed_drop_bit_iff)

lemma bit_zig:
  fixes v :: "'a::len word"
  assumes "n < LENGTH('a)"
  shows "bit (push_bit 1 v XOR signed_drop_bit (LENGTH('a) - 1) v) n \<longleftrightarrow>
    (1 \<le> n \<and> bit v (n - 1)) \<noteq> bit v (LENGTH('a) - 1)"
proof -
  show ?thesis
    using assms bit_sign_fill [OF assms, of v] unfolding bit_xor_iff bit_push_bit_iff
    by (auto dest: bit_imp_le_length)
qed

lemma bit_zag:
  fixes v :: "'a::len word"
  assumes "n < LENGTH('a)"
  shows "bit (drop_bit 1 v XOR - (v AND 1)) n \<longleftrightarrow> bit v (n + 1) \<noteq> bit v 0"
proof -
  have "- (v AND 1) = (if bit v 0 then - 1 else 0)"
    by (simp add: and_one_eq bit_0 odd_iff_mod_2_eq_one)
  then show ?thesis
    using assms by (simp add: bit_xor_iff bit_drop_bit_eq add.commute)
qed

lemma zig_zag:
  fixes v :: "'a::len word"
  assumes that: "e = push_bit 1 v XOR signed_drop_bit (LENGTH('a) - 1) v"
  shows "drop_bit 1 e XOR - (e AND 1) = v"
proof (rule bit_word_eqI)
  fix n assume n: "n < LENGTH('a)"
  have e0: "bit e 0 \<longleftrightarrow> bit v (LENGTH('a) - 1)"
    unfolding that by (subst bit_zig) auto
  show "bit (drop_bit 1 e XOR - (e AND 1)) n \<longleftrightarrow> bit v n"
  proof (cases "n + 1 < LENGTH('a)")
    case True
    then have "bit e (n + 1) \<longleftrightarrow> bit v n \<noteq> bit v (LENGTH('a) - 1)"
      unfolding that by (subst bit_zig) auto
    then show ?thesis using n e0 by (subst bit_zag) auto
  next
    case False
    then have "\<not> bit e (n + 1)" "n = LENGTH('a) - 1"
      using n bit_imp_le_length [of e "n + 1"] by auto
    then show ?thesis using n e0 by (subst bit_zag) auto
  qed
qed

lemma zag_zig:
  fixes e :: "'a::len word"
  assumes that: "v = drop_bit 1 e XOR - (e AND 1)"
  shows "push_bit 1 v XOR signed_drop_bit (LENGTH('a) - 1) v = e"
proof (rule bit_word_eqI)
  fix n assume n: "n < LENGTH('a)"
  have "\<not> bit e LENGTH('a)" using bit_imp_le_length [of e "LENGTH('a)"] by auto
  then have top: "bit v (LENGTH('a) - 1) \<longleftrightarrow> bit e 0"
    unfolding that by (subst bit_zag) auto
  show "bit (push_bit 1 v XOR signed_drop_bit (LENGTH('a) - 1) v) n \<longleftrightarrow> bit e n"
  proof (cases n)
    case 0
    then show ?thesis using n top by (subst bit_zig) auto
  next
    case (Suc m)
    then have "bit v m \<longleftrightarrow> bit e n \<noteq> bit e 0"
      using n unfolding that by (subst bit_zag) auto
    then show ?thesis using n top Suc by (subst bit_zig) auto
  qed
qed

lemma zigZagDecode32_encode: "zigZagDecode32 (zigZagEncode32 v) = v"
  using zig_zag [of "zigZagEncode32 v" v] by (simp add: zigZagEncode32_def zigZagDecode32_def Let_def)

lemma zigZagEncode32_decode: "zigZagEncode32 (zigZagDecode32 v) = v"
  using zag_zig [of "zigZagDecode32 v" v] by (simp add: zigZagEncode32_def zigZagDecode32_def Let_def)

lemma zigZagDecode64_encode: "zigZagDecode64 (zigZagEncode64 v) = v"
  using zig_zag [of "zigZagEncode64 v" v] by (simp add: zigZagEncode64_def zigZagDecode64_def Let_def)

lemma zigZagEncode64_decode: "zigZagEncode64 (zigZagDecode64 v) = v"
  using zag_zig [of "zigZagDecode64 v" v] by (simp add: zigZagEncode64_def zigZagDecode64_def Let_def)


lemma sint_unat:
  "sint v = int (unat v) - (if bit v (LENGTH('a) - 1) then 2 ^ LENGTH('a) else 0)" for v :: "'a::len word"
  unfolding sint_uint signed_take_bit_eq_take_bit_minus
  by (simp add: bit_unsigned_iff take_bit_eq_mod)


lemma sint_bounds:
  "- (2 ^ (LENGTH('a) - 1)) \<le> sint v" "sint v < 2 ^ (LENGTH('a) - 1)" for v :: "'a::len word"
  using sint_greater_eq [of v] sint_less [of v] by auto

lemma unat_not_word: "unat (NOT x) = 2 ^ LENGTH('a) - 1 - unat x" for x :: "'a::len word"
proof -
  have "NOT x = - 1 - x" by (simp add: not_eq_complement)
  moreover have "x \<le> - 1" by simp
  ultimately show ?thesis by (simp add: unat_sub unsigned_minus_1_eq_mask mask_eq_exp_minus_1)
qed

lemma int_unat_not: "int (unat (NOT x)) = 2 ^ LENGTH('a) - 1 - int (unat x)" for x :: "'a::len word"
proof -
  have "Suc (unat x) \<le> 2 ^ LENGTH('a)" by (simp only: Suc_le_eq unat_bound)
  then show ?thesis unfolding unat_not_word by (simp only: of_nat_diff diff_diff_left) simp
qed

lemma unat_zig:
  fixes v :: "'a::len word"
  shows "int (unat (push_bit 1 v XOR signed_drop_bit (LENGTH('a) - 1) v)) =
    (if 0 \<le> sint v then 2 * sint v else - 2 * sint v - 1)"
proof -
  let ?L = "LENGTH('a)" and ?p = "push_bit 1 v"
  have L: "(2::int) ^ ?L = 2 * 2 ^ (?L - 1)" by (simp flip: power_Suc)
  have p: "int (unat ?p) = (2 * int (unat v)) mod 2 ^ ?L"
    by (simp add: uint_word_ariths mod_mult_right_eq mult.commute)
  show ?thesis
  proof (cases "bit v (?L - 1)")
    case True
    then have "signed_drop_bit (?L - 1) v = - 1"
      by (intro bit_word_eqI) (simp add: bit_sign_fill del: One_nat_def)
    then have e: "?p XOR signed_drop_bit (?L - 1) v = NOT ?p" by simp
    have s: "sint v = int (unat v) - 2 ^ ?L" using True by (simp add: sint_unat)
    moreover have "int (unat v) < 2 ^ ?L" by simp
    ultimately have "0 \<le> 2 * int (unat v) - 2 ^ ?L" "2 * int (unat v) - 2 ^ ?L < 2 ^ ?L"
      using sint_bounds [of v] L by linarith+
    then have "int (unat ?p) = 2 * int (unat v) - 2 ^ ?L"
      unfolding p by (metis minus_mod_self2 mod_pos_pos_trivial)
    moreover have "\<not> 0 \<le> sint v" using True bit_last_iff [of v] by simp
    ultimately show ?thesis
      using s by (simp only: e int_unat_not if_False) (simp add: algebra_simps)
  next
    case False
    then have "signed_drop_bit (?L - 1) v = 0"
      by (intro bit_word_eqI) (simp add: bit_sign_fill del: One_nat_def)
    then have e: "?p XOR signed_drop_bit (?L - 1) v = ?p" by simp
    have s: "sint v = int (unat v)" using False by (simp add: sint_unat)
    then have "int (unat ?p) = 2 * int (unat v)"
      using sint_bounds [of v] L unfolding p by simp
    then show ?thesis using s e by simp
  qed
qed

section \<open>The chunked comparison is the lexicographic order\<close>

lemma bytesLessThan_tail_eq:
  "i \<le> c \<Longrightarrow> c = min (length l) (length r) \<Longrightarrow>
   bytesLessThan_tail l r c i = mem_lessThan (drop i l) (drop i r)"
proof (induction l r c i rule: bytesLessThan_tail.induct)
  case (1 l r c i)
  show ?case
  proof (cases "i < c")
    case True
    then have "drop i l = l ! i # drop (Suc i) l" "drop i r = r ! i # drop (Suc i) r"
      using "1.prems" by (auto simp: Cons_nth_drop_Suc)
    then show ?thesis
      using True "1.IH" "1.prems" by (subst bytesLessThan_tail.simps) simp
  next
    case False
    then have "drop i l = [] \<or> drop i r = []" "i = c"
      using "1.prems" by auto
    then show ?thesis
      using False "1.prems"
      by (subst bytesLessThan_tail.simps, cases "drop i l"; cases "drop i r")
        (auto dest: arg_cong [where f = length])
  qed
qed

fun be_val :: "bytes \<Rightarrow> nat" where
  "be_val [] = 0"
| "be_val (b # bs) = unat b * 256 ^ length bs + be_val bs"

lemma be_val_less: "be_val bs < 256 ^ length bs"
proof (induction bs)
  case (Cons b bs)
  have "unat b * 256 ^ length bs + be_val bs < (unat b + 1) * 256 ^ length bs"
    using Cons by simp
  also have "\<dots> \<le> 256 * 256 ^ length bs"
    using unat_bound [of b] by (intro mult_right_mono) auto
  finally show ?case by simp
qed simp

lemma readInt_big_step:
  "unat (acc :: u64) < 2 ^ 56 \<Longrightarrow> unat (push_bit 8 acc OR ucast (b :: byte)) = unat acc * 256 + unat b"
proof -
  assume a: "unat acc < 2 ^ 56"
  have "unat (push_bit 8 acc) = unat acc * 2 ^ 8"
    using a by (simp only: unsigned_push_bit_eq) (simp add: push_bit_eq_mult take_bit_eq_mod)
  moreover have "unat (ucast b :: u64) = unat b"
    using unat_bound [of b] by (simp add: unsigned_ucast_eq take_bit_eq_mod)
  ultimately have "unat (push_bit 8 acc OR ucast b) = unat b OR unat acc * 2 ^ 8"
    by (simp only: unsigned_or_eq or.commute)
  also have "\<dots> = unat b + unat acc * 2 ^ 8"
    using unat_bound [of b] by (intro or_disjoint_nat) simp
  finally show ?thesis by simp
qed

lemma readInt_big_foldl:
  "k + length bs \<le> 8 \<Longrightarrow> unat acc < 256 ^ k \<Longrightarrow>
   unat (foldl (\<lambda>acc b. push_bit 8 acc OR ucast b) (acc :: u64) bs) = unat acc * 256 ^ length bs + be_val bs"
proof (induction bs arbitrary: acc k)
  case (Cons b bs)
  have "(256::nat) ^ k \<le> 256 ^ 7" using Cons.prems by (intro power_increasing) auto
  then have s: "unat (push_bit 8 acc OR ucast b) = unat acc * 256 + unat b"
    using Cons.prems by (intro readInt_big_step) simp
  have "unat (push_bit 8 acc OR ucast b) < 256 ^ Suc k"
    using Cons.prems unat_bound [of b] by (simp add: s)
  then show ?case
    using Cons.IH [of "Suc k"] Cons.prems by (simp add: s algebra_simps)
qed simp

lemma unat_readInt_big: "length bs = 8 \<Longrightarrow> unat (readInt_big bs) = be_val bs"
  using readInt_big_foldl [of 0 bs 0] by (simp add: readInt_big_def)

lemma be_val_order:
  "length a = length b \<Longrightarrow> (be_val a = be_val b \<longleftrightarrow> a = b) \<and> (be_val a < be_val b \<longleftrightarrow> mem_lessThan a b)"
proof (induction a b rule: list_induct2)
  case (Cons x xs y ys)
  have lt: "be_val (p # ps) < be_val (q # qs)" if "p < q" "length ps = length qs" for p q :: byte and ps qs
  proof -
    have "(unat p + 1) * 256 ^ length ps \<le> unat q * 256 ^ length ps"
      using that by (intro mult_right_mono) (auto simp: word_less_nat_alt)
    then show ?thesis using be_val_less [of ps] that by simp
  qed
  consider "x < y" | "y < x" | "x = y" by force
  then show ?case
    using Cons lt [of x y xs ys] lt [of y x ys xs] by cases auto
qed simp

lemma mem_lessThan_append:
  "length a = length b \<Longrightarrow> mem_lessThan (a @ c) (b @ d) = (if a = b then mem_lessThan c d else mem_lessThan a b)"
  by (induction a b rule: list_induct2) auto

lemma bytesLessThan_chunks_eq:
  "i \<le> c \<Longrightarrow> c = min (length l) (length r) \<Longrightarrow>
   bytesLessThan_chunks l r c i = mem_lessThan (drop i l) (drop i r)"
proof (induction l r c i rule: bytesLessThan_chunks.induct)
  case (1 l r c i)
  show ?case
  proof (cases "c - i \<ge> 8")
    case True
    let ?a = "take 8 (drop i l)" and ?b = "take 8 (drop i r)"
    have len: "length ?a = 8" "length ?b = 8" using True "1.prems" by auto
    have l: "drop i l = ?a @ drop (i + 8) l" "drop i r = ?b @ drop (i + 8) r"
      by (metis append_take_drop_id drop_drop add.commute)+
    have "mem_lessThan (drop i l) (drop i r) =
        (if ?a = ?b then mem_lessThan (drop (i + 8) l) (drop (i + 8) r) else mem_lessThan ?a ?b)"
      using len by (subst l(1), subst l(2)) (simp only: mem_lessThan_append)
    moreover have "bytesLessThan_chunks l r c (i + 8) = mem_lessThan (drop (i + 8) l) (drop (i + 8) r)"
      if "?a = ?b"
    proof -
      have "i + 8 \<le> c" using True by simp
      then show ?thesis
        using that "1.IH" [OF True refl refl] "1.prems"(2) by simp
    qed
    ultimately show ?thesis
      using True "1.prems" len be_val_order [of ?a ?b]
      by (subst bytesLessThan_chunks.simps)
        (auto simp: Let_def word_less_nat_alt word_unat_eq_iff unat_readInt_big)
  next
    case False
    then show ?thesis
      using "1.prems" by (subst bytesLessThan_chunks.simps) (simp add: bytesLessThan_tail_eq)
  qed
qed

lemma bytesLessThan_eq: "bytesLessThan lhs rhs = mem_lessThan lhs rhs"
  by (simp add: bytesLessThan_def bytesLessThan_chunks_eq)

lemma mem_lessThan_irrefl [simp]: "\<not> mem_lessThan a a"
  by (induction a) auto

lemma mem_lessThan_trans: "mem_lessThan a b \<Longrightarrow> mem_lessThan b c \<Longrightarrow> mem_lessThan a c"
proof (induction a b arbitrary: c rule: mem_lessThan.induct)
  case (3 x xs y ys)
  then show ?case by (cases c) (auto split: if_splits dest: less_trans)
qed (auto elim: mem_lessThan.elims)

lemma mem_lessThan_linear: "a \<noteq> b \<Longrightarrow> mem_lessThan a b \<or> mem_lessThan b a"
proof (induction a b rule: mem_lessThan.induct)
  case (3 x xs y ys)
  then show ?case by (cases "x = y") auto
qed (auto simp: neq_Nil_conv)

section \<open>Properties\<close>

text \<open>
  \<open>Tag.decode\<close> inverts \<open>Tag.encode\<close> exactly: a 64-bit value decodes to a tag if and
  only if it is what that tag encodes to, so decoding is injective and every other value
  is rejected.
\<close>

theorem tag_decode_iff_encode: "tag_decode raw = Inr t \<longleftrightarrow> tag_encode t = Inr raw"
  by (simp add: tag_decode_Inr tag_encode_Inr)

text \<open>
  The zig-zag mappings of both widths are bijections, and the 64-bit encoding is the
  arithmetic one: 0, -1, 1, -2, ... become 0, 1, 2, 3, ...
\<close>

theorem zigZag_bijection:
  "zigZagDecode32 (zigZagEncode32 a) = a \<and> zigZagEncode32 (zigZagDecode32 b) = b \<and>
   zigZagDecode64 (zigZagEncode64 v) = v \<and> zigZagEncode64 (zigZagDecode64 w) = w \<and>
   int (unat (zigZagEncode64 v)) = (if 0 \<le> sint v then 2 * sint v else - 2 * sint v - 1)"
proof -
  have "int (unat (zigZagEncode64 v)) = (if 0 \<le> sint v then 2 * sint v else - 2 * sint v - 1)"
    using unat_zig [of v] unfolding zigZagEncode64_def by simp
  then show ?thesis
    by (simp only: zigZagDecode32_encode zigZagEncode32_decode zigZagDecode64_encode zigZagEncode64_decode)
qed

text \<open>
  The chunked comparison \<open>bytesLessThan\<close>, which compares eight bytes at a time as
  big-endian words, is the lexicographic order on byte strings, a proper prefix first.
\<close>

theorem bytesLessThan_lexicographic: "bytesLessThan lhs rhs \<longleftrightarrow> (lhs, rhs) \<in> lexord {(x, y). x < y}"
  unfolding bytesLessThan_eq by (induction lhs rhs rule: mem_lessThan.induct) auto

end
