(* ===== verification/Wire_Varint.thy ===== *)
theory Wire_Varint
  imports Wire_Types
begin

unbundle bit_operations_syntax

text \<open>
  The varint codec of \<open>src/wire.zig\<close>: the unrolled writers into a caller's buffer, the
  unrolled 64-bit reader and the 32-bit fast readers. A reader returns its result and the
  index it leaves in \<open>index_ptr\<close>, also when it fails; a store past the end of a buffer
  (a safety panic) is \<open>None\<close>. The reference codec \<open>varint_enc\<close> and \<open>varint_parse\<close> on
  natural numbers is the specification all of them are compared with.
\<close>

section \<open>Writers\<close>

text \<open>
  \<open>writeVarintToBuffer\<close> is a ladder of nine equal rungs (offsets 0 to 8) and a last
  store at offset 9, its 32-bit version one of four rungs and a store at offset 4; the
  model walks the list of offsets and ends with the last one.
\<close>

fun writeVarint_rungs :: "nat list \<Rightarrow> nat \<Rightarrow> bytes \<Rightarrow> 'a::len word \<Rightarrow> (bytes \<times> nat) option" where
  "writeVarint_rungs [] final buffer v =
     (case put buffer final (ucast v) of None \<Rightarrow> None | Some buffer' \<Rightarrow> Some (buffer', final + 1))"
| "writeVarint_rungs (i # is) final buffer v =
     (if v < 0x80
      then (case put buffer i (ucast v) of None \<Rightarrow> None | Some buffer' \<Rightarrow> Some (buffer', i + 1))
      else (case put buffer i (ucast (v OR 0x80)) of
              None \<Rightarrow> None
            | Some buffer' \<Rightarrow> writeVarint_rungs is final buffer' (drop_bit 7 v)))"

definition writeVarintToBuffer :: "bytes \<Rightarrow> u64 \<Rightarrow> (bytes \<times> nat) option" where
  "writeVarintToBuffer buffer value = writeVarint_rungs [0, 1, 2, 3, 4, 5, 6, 7, 8] 9 buffer value"

definition writeUInt32VarintToBuffer :: "bytes \<Rightarrow> u32 \<Rightarrow> (bytes \<times> nat) option" where
  "writeUInt32VarintToBuffer buffer value = writeVarint_rungs [0, 1, 2, 3] 4 buffer value"

text \<open>A callee that writes into the tail slice \<open>buffer[start..]\<close> of a buffer.\<close>

definition write_tail ::
    "(bytes \<Rightarrow> (bytes \<times> nat) option) \<Rightarrow> bytes \<Rightarrow> nat \<Rightarrow> (bytes \<times> nat) option" where
  "write_tail f buffer start =
     (if start > length buffer then None
      else (case f (drop start buffer) of
              None \<Rightarrow> None
            | Some (sub, n) \<Rightarrow> Some (take start buffer @ sub, start + n)))"

definition writeVarintToSlice :: "bytes \<Rightarrow> nat \<Rightarrow> u64 \<Rightarrow> (bytes \<times> nat) option" where
  "writeVarintToSlice buffer index value =
     write_tail (\<lambda>sub. writeVarintToBuffer sub value) buffer index"

definition writeUInt32VarintToSlice :: "bytes \<Rightarrow> nat \<Rightarrow> u32 \<Rightarrow> (bytes \<times> nat) option" where
  "writeUInt32VarintToSlice buffer index value =
     write_tail (\<lambda>sub. writeUInt32VarintToBuffer sub value) buffer index"

text \<open>\<open>@intCast\<close> to a byte panics on a value that does not fit.\<close>

definition intCast_u8 :: "u64 \<Rightarrow> byte option" where
  "intCast_u8 v = (if v < 0x100 then Some (ucast v) else None)"

definition writeDirectScalarVarintToSlice :: "bytes \<Rightarrow> nat \<Rightarrow> u64 \<Rightarrow> (bytes \<times> nat) option" where
  "writeDirectScalarVarintToSlice buffer index value =
     (let start = index in
      if value < 0x80
      then Option.bind (intCast_u8 value) (\<lambda>b.
           Option.bind (put buffer start b) (\<lambda>buffer.
           Some (buffer, start + 1)))
      else if value < 0x4000
      then Option.bind (intCast_u8 ((value AND 0x7F) OR 0x80)) (\<lambda>b0.
           Option.bind (put buffer start b0) (\<lambda>buffer.
           Option.bind (intCast_u8 (drop_bit 7 value)) (\<lambda>b1.
           Option.bind (put buffer (start + 1) b1) (\<lambda>buffer.
           Some (buffer, start + 2)))))
      else write_tail (\<lambda>sub. writeVarintToBuffer sub value) buffer start)"

text \<open>
  The ten-byte form of a negative value: nine stores with the continuation bit into the
  slice \<open>out = buffer[start..][0..10]\<close>, then the last one.
\<close>

fun negative_rungs :: "nat list \<Rightarrow> bytes \<Rightarrow> u64 \<Rightarrow> (bytes \<times> u64) option" where
  "negative_rungs [] out v = Some (out, v)"
| "negative_rungs (i # is) out v =
     Option.bind (put out i (ucast (v OR 0x80))) (\<lambda>out. negative_rungs is out (drop_bit 7 v))"

definition writeNegativeInt64VarintToSlice :: "bytes \<Rightarrow> nat \<Rightarrow> i64 \<Rightarrow> (bytes \<times> nat) option" where
  "writeNegativeInt64VarintToSlice buffer index value =
     (if \<not> sint value < 0 then None
      else let start = index in
      if length buffer < start + 10 then None
      else let out = take 10 (drop start buffer) in
      Option.bind (negative_rungs [0, 1, 2, 3, 4, 5, 6, 7, 8] out value) (\<lambda>(out, v).
      Option.bind (put out 9 (ucast v)) (\<lambda>out.
      Some (take start buffer @ out @ drop (start + 10) buffer, start + 10))))"

section \<open>Little-endian integers\<close>

text \<open>\<open>std.mem.writeInt(T, _, value, .little)\<close> and \<open>std.mem.readInt(T, raw, .little)\<close>.\<close>

definition le_bytes :: "nat \<Rightarrow> 'a::len word \<Rightarrow> bytes" where
  "le_bytes n v = map (\<lambda>i. ucast (drop_bit (8 * i) v)) [0..<n]"

fun le_word :: "bytes \<Rightarrow> 'a::len word" where
  "le_word [] = 0"
| "le_word (b # bs) = ucast b OR push_bit 8 (le_word bs)"

text \<open>\<open>@sizeOf(T)\<close> of a fixed-width integer type.\<close>

definition sizeOf :: "'a::len word itself \<Rightarrow> nat" where
  "sizeOf _ = LENGTH('a) div 8"

definition writeRawLittleToSlice :: "bytes \<Rightarrow> nat \<Rightarrow> 'a::len word \<Rightarrow> (bytes \<times> nat) option" where
  "writeRawLittleToSlice buffer index value =
     (let start = index; n = sizeOf TYPE('a word) in
      if length buffer < start + n then None
      else Some (take start buffer @ le_bytes n value @ drop (start + n) buffer, start + n))"

definition readRawLittleAt :: "bytes \<Rightarrow> nat \<Rightarrow> (wire_error + 'a::len word) \<times> nat" where
  "readRawLittleAt input index_ptr =
     (let start = index_ptr; n = sizeOf TYPE('a word) in
      if start > length input \<or> length input - start < n then (Inl TruncatedInput, index_ptr)
      else (Inr (le_word (take n (drop start input))), start + n))"

section \<open>The 64-bit reader\<close>

text \<open>
  The part of \<open>readVarintAt\<close> after its first two bytes: the \<open>inline for\<close> over the
  shifts, then the tenth byte, which may only be 0 or 1.
\<close>

fun readVarint_shifts :: "nat list \<Rightarrow> bytes \<Rightarrow> nat \<Rightarrow> u64 \<Rightarrow> (wire_error + u64) \<times> nat" where
  "readVarint_shifts [] input index result =
     (if index \<ge> length input then (Inl TruncatedInput, index)
      else let byte = input ! index; index = index + 1;
               result = result OR push_bit 63 (ucast (byte AND 0x7F)) in
      if byte < 0x80
      then (if byte > 1 then (Inl MalformedVarint, index) else (Inr result, index))
      else (Inl MalformedVarint, index))"
| "readVarint_shifts (shift # shifts) input index result =
     (if index \<ge> length input then (Inl TruncatedInput, index)
      else let byte = input ! index; index = index + 1;
               result = result OR push_bit shift (ucast (byte AND 0x7F)) in
      if byte < 0x80 then (Inr result, index)
      else readVarint_shifts shifts input index result)"

definition readVarintAt :: "bytes \<Rightarrow> nat \<Rightarrow> (wire_error + u64) \<times> nat" where
  "readVarintAt input index_ptr =
     (let index = index_ptr in
      if index \<ge> length input then (Inl TruncatedInput, index_ptr)
      else let byte = input ! index; index = index + 1; result = ucast (byte AND 0x7F) in
      if byte < 0x80 then (Inr result, index)
      else if index \<ge> length input then (Inl TruncatedInput, index)
      else let byte = input ! index; index = index + 1;
               result = result OR push_bit 7 (ucast (byte AND 0x7F)) in
      if byte < 0x80 then (Inr result, index)
      else readVarint_shifts [14, 21, 28, 35, 42, 49, 56] input index result)"

section \<open>The fast readers\<close>

definition readBoolAt :: "bytes \<Rightarrow> nat \<Rightarrow> (wire_error + bool) \<times> nat" where
  "readBoolAt input index_ptr =
     (let start = index_ptr in
      if start \<ge> length input then (Inl TruncatedInput, index_ptr)
      else let first = input ! start in
      if first < 0x80 then (Inr (first \<noteq> 0), start + 1)
      else (case readVarintAt input index_ptr of
              (Inl e, i) \<Rightarrow> (Inl e, i)
            | (Inr v, i) \<Rightarrow> (Inr (v \<noteq> 0), i)))"

definition readUInt32At :: "bytes \<Rightarrow> nat \<Rightarrow> (wire_error + u32) \<times> nat" where
  "readUInt32At input index_ptr =
     (let start = index_ptr; index = start in
      if index \<ge> length input then (Inl TruncatedInput, index_ptr)
      else let first = input ! index; index = index + 1; raw = ucast (first AND 0x7F) in
      if first < 0x80 then (Inr raw, index)
      else if index \<ge> length input then (Inl TruncatedInput, index)
      else let second = input ! index; index = index + 1;
               raw = raw OR push_bit 7 (ucast (second AND 0x7F)) in
      if second < 0x80 then (Inr raw, index)
      else if index \<ge> length input then (Inl TruncatedInput, index)
      else let third = input ! index; index = index + 1;
               raw = raw OR push_bit 14 (ucast (third AND 0x7F)) in
      if third < 0x80 then (Inr raw, index)
      else if index \<ge> length input then (Inl TruncatedInput, index)
      else let fourth = input ! index; index = index + 1;
               raw = raw OR push_bit 21 (ucast (fourth AND 0x7F)) in
      if fourth < 0x80 then (Inr raw, index)
      else if index \<ge> length input then (Inl TruncatedInput, index)
      else let fifth = input ! index; index = index + 1;
               raw = raw OR push_bit 28 (ucast (fifth AND 0x0F)) in
      if fifth < 0x80 then (Inr raw, index)
      else (case readVarintAt input start of
              (Inl e, i) \<Rightarrow> (Inl e, i)
            | (Inr v, i) \<Rightarrow> (Inr (ucast v), i)))"

text \<open>
  \<open>readInt32At\<close> and \<open>readSInt32At\<close> share their first two bytes; \<open>finish\<close> is the
  conversion of a raw \<open>u32\<close> (\<open>@intCast\<close> of a 14-bit value, or zig-zag).
\<close>

definition readTwoByteHot ::
    "(u32 \<Rightarrow> i32) \<Rightarrow> (u64 \<Rightarrow> i32) \<Rightarrow> bytes \<Rightarrow> nat \<Rightarrow> (wire_error + i32) \<times> nat" where
  "readTwoByteHot finish finish_wide input index_ptr =
     (let start = index_ptr; index = start in
      if index \<ge> length input then (Inl TruncatedInput, index_ptr)
      else let first = input ! index; index = index + 1; raw = ucast (first AND 0x7F) in
      if first < 0x80 then (Inr (finish raw), index)
      else if index \<ge> length input then (Inl TruncatedInput, index)
      else let second = input ! index; index = index + 1;
               raw = raw OR push_bit 7 (ucast (second AND 0x7F)) in
      if second < 0x80 then (Inr (finish raw), index)
      else (case readVarintAt input start of
              (Inl e, i) \<Rightarrow> (Inl e, i)
            | (Inr v, i) \<Rightarrow> (Inr (finish_wide v), i)))"

definition readInt32At :: "bytes \<Rightarrow> nat \<Rightarrow> (wire_error + i32) \<times> nat" where
  "readInt32At = readTwoByteHot (\<lambda>raw. raw) (\<lambda>value. ucast value)"

definition readSInt32At :: "bytes \<Rightarrow> nat \<Rightarrow> (wire_error + i32) \<times> nat" where
  "readSInt32At = readTwoByteHot zigZagDecode32 (\<lambda>value. zigZagDecode32 (ucast value))"

fun varint_enc :: "nat \<Rightarrow> bytes" where
  "varint_enc n = (if n < 128 then [of_nat n] else of_nat (n mod 128 + 128) # varint_enc (n div 128))"
declare varint_enc.simps [simp del]

fun varint_parse :: "nat \<Rightarrow> bytes \<Rightarrow> (wire_error + nat) \<times> nat" where
  "varint_parse k [] = (Inl TruncatedInput, 0)"
| "varint_parse k (b # bs) =
     (if unat b < 128
      then (if k = 9 \<and> unat b > 1 then (Inl MalformedVarint, 1) else (Inr (unat b), 1))
      else if k = 9 then (Inl MalformedVarint, 1)
      else (case varint_parse (k + 1) bs of
              (Inl e, n) \<Rightarrow> (Inl e, n + 1)
            | (Inr v, n) \<Rightarrow> (Inr (unat b mod 128 + 128 * v), n + 1)))"

lemma varint_parse_bound:
  "varint_parse k bs = (Inr v, n) \<Longrightarrow> k \<le> 9 \<Longrightarrow> v < 2 ^ (64 - 7 * k)"
proof (induction k bs arbitrary: v n rule: varint_parse.induct)
  case (2 k b bs)
  show ?case
  proof (cases "unat b < 128")
    case True
    then have v: "v = unat b" and k: "k = 9 \<longrightarrow> unat b \<le> 1" using "2.prems" by (auto split: if_splits)
    show ?thesis
    proof (cases "k = 9")
      case False
      then have "(2::nat) ^ 7 \<le> 2 ^ (64 - 7 * k)" using "2.prems" by (intro power_increasing) auto
      then show ?thesis using True v by simp
    qed (use v k in simp)
  next
    case False
    then obtain v' n' where r: "varint_parse (k + 1) bs = (Inr v', n')" "k \<noteq> 9"
        and v: "v = unat b mod 128 + 128 * v'"
      using "2.prems" by (auto split: if_splits prod.splits sum.splits)
    then have "v' < 2 ^ (64 - 7 * (k + 1))" using "2.IH" [OF False] "2.prems" by simp
    then have "v < 128 * 2 ^ (64 - 7 * (k + 1))"
      unfolding v using mod_less_divisor [of 128 "unat b"] by linarith
    also have "\<dots> = 2 ^ (7 + (64 - 7 * (k + 1)))" by (simp add: power_add)
    also have "\<dots> = 2 ^ (64 - 7 * k)" using r "2.prems" by simp
    finally show ?thesis .
  qed
qed simp

lemma varint_parse_progress: "varint_parse k bs = (r, n) \<Longrightarrow> n \<le> length bs"
  by (induction k bs arbitrary: r n rule: varint_parse.induct) (auto split: if_splits prod.splits sum.splits)

lemma varint_parse_used: "varint_parse k bs = (Inr v, n) \<Longrightarrow> 1 \<le> n \<and> n \<le> 10 - k" if "k \<le> 9"
  using that by (induction k bs arbitrary: v n rule: varint_parse.induct) (fastforce split: if_splits prod.splits sum.splits)+

text \<open>result carried by the code at byte k\<close>
definition varint_result :: "nat \<Rightarrow> nat \<Rightarrow> nat \<Rightarrow> (wire_error + nat) \<times> nat \<Rightarrow> (wire_error + u64) \<times> nat" where
  "varint_result k index p r =
     (case r of (Inl e, n) \<Rightarrow> (Inl e, index + n)
      | (Inr v, n) \<Rightarrow> (Inr (of_nat (p + v * 2 ^ (7 * k))), index + n))"

lemma or_step:
  assumes "unat result < 2 ^ (7 * k)" and "k \<le> 8 \<or> k = 9 \<and> unat b \<le> 1"
  shows "unat (result OR push_bit (7 * k) (ucast ((b :: byte) AND 0x7F)) :: u64) =
    unat result + (unat b mod 128) * 2 ^ (7 * k)"
proof (rule unat_or_shift)
  show "unat b mod 128 * 2 ^ (7 * k) < 2 ^ LENGTH(64)"
  proof (cases "k = 9")
    case True
    then have "unat b mod 128 \<le> 1" using assms(2) by auto
    then have "unat b mod 128 * 2 ^ (7 * k) \<le> 1 * 2 ^ 63" using True by (intro mult_mono) auto
    then show ?thesis by simp
  next
    case False
    then have "(2::nat) ^ (7 * k) \<le> 2 ^ 56" using assms by (intro power_increasing) auto
    then have "unat b mod 128 * 2 ^ (7 * k) \<le> 127 * 2 ^ 56"
      using mod_less_divisor [of 128 "unat b"] by (intro mult_mono) linarith+
    then show ?thesis by simp
  qed
qed (use assms in auto)

lemma readVarint_shifts_eq:
  "k \<le> 9 \<Longrightarrow> unat result < 2 ^ (7 * k) \<Longrightarrow>
   readVarint_shifts (map ((*) 7) [k..<9]) input index result =
   varint_result k index (unat result) (varint_parse k (drop index input))"
proof (induction "9 - k" arbitrary: k index result)
  case 0
  then have k: "k = 9" by simp
  show ?case
  proof (cases "index < length input")
    case True
    let ?b = "input ! index"
    have d: "drop index input = ?b # drop (Suc index) input" using True by (rule Cons_nth_drop_Suc [symmetric])
    show ?thesis
    proof (cases "unat ?b \<le> 1")
      case b: True
      have "unat (result OR push_bit 63 (ucast (?b AND 0x7F)) :: u64) = unat result + unat ?b * 2 ^ 63"
        using or_step [of result 9 ?b] b "0.prems" k by simp
      then have "result OR push_bit 63 (ucast (?b AND 0x7F)) = of_nat (unat result + unat ?b * 2 ^ 63)"
        by (rule word_eq_of_nat)
      then show ?thesis using True k b
        by (simp add: d varint_result_def byte_less_128 word_less_nat_alt Let_def)
    next
      case False
      then show ?thesis using True k by (auto simp: d varint_result_def byte_less_128 word_less_nat_alt Let_def)
    qed
  qed (simp add: k varint_result_def)
next
  case (Suc m)
  then have k: "k < 9" "m = 9 - Suc k" by auto
  then have sh: "map ((*) 7) [k..<9] = 7 * k # map ((*) 7) [Suc k..<9]" by (simp add: upt_conv_Cons)
  show ?case
  proof (cases "index < length input")
    case True
    let ?b = "input ! index"
    let ?r = "result OR push_bit (7 * k) (ucast (?b AND 0x7F)) :: u64"
    have d: "drop index input = ?b # drop (Suc index) input" using True by (rule Cons_nth_drop_Suc [symmetric])
    have r: "unat ?r = unat result + (unat ?b mod 128) * 2 ^ (7 * k)"
      using k Suc.prems by (intro or_step) auto
    have rb: "unat ?r < 2 ^ (7 * Suc k)"
    proof -
      have "unat ?r < 2 ^ (7 * k) + 127 * 2 ^ (7 * k)"
        unfolding r using Suc.prems mod_less_divisor [of 128 "unat ?b"]
        by (intro add_less_le_mono mult_right_mono) auto
      then show ?thesis by (simp add: power_add)
    qed
    have IH: "readVarint_shifts (map ((*) 7) [Suc k..<9]) input (Suc index) ?r =
        varint_result (Suc k) (Suc index) (unat ?r) (varint_parse (Suc k) (drop (Suc index) input))"
      using k rb by (intro Suc.hyps(1)) auto
    show ?thesis
    proof (cases "unat ?b < 128")
      case b: True
      then have "?r = of_nat (unat result + unat ?b * 2 ^ (7 * k))" using r by (intro word_eq_of_nat) simp
      then show ?thesis using True k b
        by (simp add: sh d varint_result_def byte_less_128 Let_def)
    next
      case False
      then show ?thesis using True k IH r
        by (auto simp add: sh d varint_result_def byte_less_128 Let_def algebra_simps power_add split: prod.splits sum.splits)
    qed
  qed (simp add: sh varint_result_def)
qed

lemma ucast_low7: "unat (ucast ((b :: byte) AND 0x7F) :: u64) = unat b mod 128"
  using or_step [of 0 0 b] by simp

lemma readVarintAt_refines:
  "readVarintAt input i =
     (case varint_parse 0 (drop i input) of
        (Inl e, n) \<Rightarrow> (Inl e, i + n)
      | (Inr v, n) \<Rightarrow> (Inr (of_nat v), i + n))"
proof (cases "i < length input")
  case False
  then show ?thesis by (simp add: readVarintAt_def)
next
  case True
  let ?b0 = "input ! i"
  let ?r0 = "ucast (?b0 AND 0x7F) :: u64"
  have d: "drop i input = ?b0 # drop (Suc i) input" using True by (rule Cons_nth_drop_Suc [symmetric])
  have r0: "unat ?r0 = unat ?b0 mod 128" by (rule ucast_low7)
  show ?thesis
  proof (cases "unat ?b0 < 128")
    case b: True
    then have "?r0 = of_nat (unat ?b0)" using r0 by (intro word_eq_of_nat) simp
    then show ?thesis using True b by (simp add: readVarintAt_def Let_def byte_less_128 d)
  next
    case b: False
    show ?thesis
    proof (cases "Suc i < length input")
      case False
      then show ?thesis using True b by (simp add: readVarintAt_def Let_def byte_less_128 d)
    next
      case i1: True
      let ?b1 = "input ! Suc i"
      let ?r1 = "?r0 OR push_bit 7 (ucast (?b1 AND 0x7F))"
      have d1: "drop (Suc i) input = ?b1 # drop (Suc (Suc i)) input" using i1 by (rule Cons_nth_drop_Suc [symmetric])
      have r1: "unat ?r1 = unat ?b0 mod 128 + (unat ?b1 mod 128) * 128"
        using or_step [of ?r0 1 ?b1] r0 mod_less_divisor [of 128 "unat ?b0"] by simp
      show ?thesis
      proof (cases "unat ?b1 < 128")
        case b1: True
        then have "?r1 = of_nat (unat ?b0 mod 128 + unat ?b1 * 128)" using r1 by (intro word_eq_of_nat) simp
        then show ?thesis using True i1 b b1
          by (simp add: readVarintAt_def Let_def byte_less_128 d d1 mult.commute)
      next
        case b1: False
        have "unat ?b0 mod 128 + (unat ?b1 mod 128) * 128 < 2 ^ 14"
          using mod_less_divisor [of 128 "unat ?b0"] mod_less_divisor [of 128 "unat ?b1"] by simp
        then have "readVarint_shifts (map ((*) 7) [2..<9]) input (Suc (Suc i)) ?r1 =
            varint_result 2 (Suc (Suc i)) (unat ?r1) (varint_parse 2 (drop (Suc (Suc i)) input))"
          by (intro readVarint_shifts_eq) (simp_all add: r1)
        moreover have "map ((*) 7) [2..<9] = [14, 21, 28, 35, 42, 49, 56]" by (simp add: upt_rec)
        ultimately show ?thesis using True i1 b b1 r1
          by (auto simp add: readVarintAt_def Let_def byte_less_128 d d1 varint_result_def numeral_2_eq_2 algebra_simps
              split: prod.splits sum.splits)
      qed
    qed
  qed
qed

lemma varint_enc_not_Nil [simp]: "varint_enc n \<noteq> []"
  by (subst varint_enc.simps) simp

lemma varint_parse_enc:
  "k \<le> 9 \<Longrightarrow> n < 2 ^ (64 - 7 * k) \<Longrightarrow>
   varint_parse k (varint_enc n @ rest) = (Inr n, length (varint_enc n))"
proof (induction n arbitrary: k rule: varint_enc.induct)
  case (1 n)
  show ?case
  proof (cases "n < 128")
    case True
    moreover have "k = 9 \<Longrightarrow> n \<le> 1" using "1.prems" by simp
    ultimately show ?thesis by (subst (1 2) varint_enc.simps) auto
  next
    case False
    have k: "k \<noteq> 9"
    proof
      assume "k = 9"
      with "1.prems" False show False by simp
    qed
    have "(2::nat) ^ (64 - 7 * k) = 2 ^ (7 + (64 - 7 * (k + 1)))" using k "1.prems" by simp
    then have "n < 128 * 2 ^ (64 - 7 * (k + 1))" using "1.prems" by (simp add: power_add)
    then have "n div 128 < 2 ^ (64 - 7 * (k + 1))" by (simp add: less_mult_imp_div_less mult.commute)
    then have IH: "varint_parse (k + 1) (varint_enc (n div 128) @ rest) = (Inr (n div 128), length (varint_enc (n div 128)))"
      using k False "1.prems" by (intro "1.IH") auto
    have b: "unat (of_nat (n mod 128 + 128) :: byte) = n mod 128 + 128"
      using mod_less_divisor [of 128 n] by (intro unat_byte_of_nat) linarith
    have e: "varint_enc n = of_nat (n mod 128 + 128) # varint_enc (n div 128)"
      using False by (subst varint_enc.simps) simp
    show ?thesis unfolding e using IH k b by (simp del: of_nat_add)
  qed
qed

corollary readVarintAt_enc:
  "n < 2 ^ 64 \<Longrightarrow> readVarintAt (pre @ varint_enc n @ rest) (length pre) =
    (Inr (of_nat n), length pre + length (varint_enc n))"
  by (simp add: readVarintAt_refines varint_parse_enc)

lemma length_varint_enc_le: "n < 2 ^ (7 * k) \<Longrightarrow> 0 < k \<Longrightarrow> length (varint_enc n) \<le> k"
proof (induction n arbitrary: k rule: varint_enc.induct)
  case (1 n)
  show ?case
  proof (cases "n < 128")
    case True
    then show ?thesis using "1.prems" by (subst varint_enc.simps) simp
  next
    case False
    then obtain j where k: "k = Suc j" "0 < j" using "1.prems" by (cases k; cases "k - 1") auto
    then have "n div 128 < 2 ^ (7 * j)" using "1.prems" by (simp add: less_mult_imp_div_less mult.commute power_add)
    then have "length (varint_enc (n div 128)) \<le> j" using "1.IH" False k by blast
    then show ?thesis using False k by (subst varint_enc.simps) simp
  qed
qed

lemma bit_length_div128: "128 \<le> n \<Longrightarrow> bit_length n = 7 + bit_length (n div 128)"
proof -
  assume n: "128 \<le> n"
  have s: "bit_length m = Suc (bit_length (m div 2))" if "0 < m" for m
    using that by (subst bit_length.simps) simp
  have p: "0 < n" "0 < n div 2" "0 < n div 4" "0 < n div 8" "0 < n div 16" "0 < n div 32" "0 < n div 64"
    using n by (auto simp: div_greater_zero_iff)
  show ?thesis using p by (simp add: s [of n] s [of "n div 2"] s [of "n div 4"] s [of "n div 8"] s [of "n div 16"]
    s [of "n div 32"] s [of "n div 64"] flip: div_mult2_eq)
qed

lemma bit_length_less: "n < 2 ^ k \<Longrightarrow> bit_length n \<le> k"
proof (induction n arbitrary: k rule: bit_length.induct)
  case (1 n)
  show ?case
  proof (cases "n = 0")
    case False
    then obtain j where k: "k = Suc j" using "1.prems" by (cases k) auto
    then have "bit_length (n div 2) \<le> j" using "1" False by simp
    then show ?thesis using False k by (subst bit_length.simps) simp
  qed (simp add: bit_length.simps)
qed

lemma bit_length_pos: "0 < n \<Longrightarrow> 0 < bit_length n"
  by (subst bit_length.simps) simp

lemma length_varint_enc: "length (varint_enc n) = max 1 ((bit_length n + 6) div 7)"
proof (induction n rule: varint_enc.induct)
  case (1 n)
  show ?case
  proof (cases "n < 128")
    case True
    then have "bit_length n \<le> 7" using bit_length_less [of n 7] by simp
    then show ?thesis using True by (subst varint_enc.simps) simp
  next
    case False
    have "1 \<le> (bit_length (n div 128) + 6) div 7"
      using False bit_length_pos [of "n div 128"] by (simp add: div_greater_zero_iff)
    then show ?thesis
      using False "1.IH" by (subst varint_enc.simps) (simp add: bit_length_div128)
  qed
qed

lemma encodedVarintSize_eq: "encodedVarintSize v = length (varint_enc (unat v))"
proof -
  have two: "length (varint_enc n) = 1 + length (varint_enc (n div 128))" if "128 \<le> n" for n
    using that by (subst varint_enc.simps) simp
  have one: "length (varint_enc n) = 1" if "n < 128" for n
    using that by (subst varint_enc.simps) simp
  consider "unat v < 2 ^ 7" | "2 ^ 7 \<le> unat v" "unat v < 2 ^ 14" | "2 ^ 14 \<le> unat v" "unat v < 2 ^ 21"
    | "2 ^ 21 \<le> unat v" by linarith
  then show ?thesis
  proof cases
    case 4
    have b: "bit_length (unat v) \<le> 64" using bit_length_less [of "unat v" 64] unat_bound [of v] by simp
    have "0 < bit_length (unat v)" using 4 by (intro bit_length_pos) simp
    then have "1 \<le> (bit_length (unat v) + 6) div 7" by simp
    then show ?thesis using 4 b
      by (simp add: encodedVarintSize_def clz64_def word_less_nat_alt length_varint_enc)
  qed (simp_all add: encodedVarintSize_def word_less_nat_alt one two less_mult_imp_div_less)
qed

lemma encodedVarintSize_bounds: "1 \<le> encodedVarintSize v" "encodedVarintSize v \<le> 10"
proof -
  show "1 \<le> encodedVarintSize v"
    by (simp add: encodedVarintSize_eq Suc_le_eq)
  have "unat v < 2 ^ (7 * 10)" using unat_bound [of v] by simp
  then show "encodedVarintSize v \<le> 10"
    unfolding encodedVarintSize_eq by (intro length_varint_enc_le) auto
qed

lemma writeVarint_rungs_eq:
  fixes v :: "'a::len word"
  assumes L: "8 \<le> LENGTH('a)"
  shows "k \<le> m \<Longrightarrow> length pre = k \<Longrightarrow> unat v < 2 ^ (7 * (Suc m - k)) \<Longrightarrow>
   writeVarint_rungs [k..<m] m (pre @ rest) v =
     (let e = varint_enc (unat v) in
      if length rest < length e then None
      else Some (pre @ e @ drop (length e) rest, k + length e))"
proof (induction "m - k" arbitrary: k pre rest v)
  case 0
  then have k: "k = m" and v: "unat v < 128" by auto
  then have e: "varint_enc (unat v) = [ucast v]"
    using unat_low_byte [OF v] by (subst varint_enc.simps) (auto intro: word_eq_of_nat [symmetric])
  show ?case using 0 k e by (cases rest) (auto simp: Let_def put_def)
next
  case (Suc j)
  then have km: "k < m" and up: "[k..<m] = k # [Suc k..<m]" by (auto simp: upt_conv_Cons)
  have lt: "v < 0x80 \<longleftrightarrow> unat v < 128"
  proof -
    have "(256::nat) \<le> 2 ^ LENGTH('a)" using power_increasing [OF L, of "2::nat"] by simp
    then have "unat (128 :: 'a word) = 128"
      by (simp add: unat_numeral take_bit_eq_mod order_less_le_trans [of _ 256])
    then show ?thesis by (simp add: word_less_nat_alt)
  qed
  show ?case
  proof (cases "unat v < 128")
    case True
    then have e: "varint_enc (unat v) = [ucast v]"
      using unat_low_byte [OF True] by (subst varint_enc.simps) (auto intro: word_eq_of_nat [symmetric])
    show ?thesis using True Suc.prems by (cases rest) (auto simp: up lt e Let_def put_def)
  next
    case False
    let ?b = "ucast (v OR 0x80) :: byte"
    have e: "varint_enc (unat v) = ?b # varint_enc (unat (drop_bit 7 v))"
      using False word_eq_of_nat [OF unat_or_128 [OF L, of v]]
      by (subst varint_enc.simps) (simp add: unat_drop_bit_div)
    have "unat (drop_bit 7 v) < 2 ^ (7 * (Suc m - Suc k))"
    proof -
      have "(2::nat) ^ (7 * (Suc m - k)) = 2 ^ (7 * (Suc m - Suc k)) * 128"
        using km by (simp add: Suc_diff_le power_add)
      then show ?thesis using Suc.prems(3) by (simp add: unat_drop_bit_div less_mult_imp_div_less)
    qed
    then have IH: "writeVarint_rungs [Suc k..<m] m (pre' @ rest') (drop_bit 7 v) =
     (let e = varint_enc (unat (drop_bit 7 v)) in
      if length rest' < length e then None
      else Some (pre' @ e @ drop (length e) rest', Suc k + length e))" if "length pre' = Suc k" for pre' rest'
      using that km Suc.hyps(2) by (intro Suc.hyps(1)) auto
    show ?thesis
    proof (cases rest)
      case Nil
      then show ?thesis using Suc.prems False by (simp add: up lt e put_def)
    next
      case (Cons r rest')
      have "writeVarint_rungs [k..<m] m (pre @ rest) v =
          writeVarint_rungs [Suc k..<m] m ((pre @ [?b]) @ rest') (drop_bit 7 v)"
        using Suc.prems(2) False Cons by (simp add: up lt)
      then show ?thesis using IH [of "pre @ [?b]" rest'] Suc.prems(2) Cons
        by (simp add: e Let_def)
    qed
  qed
qed

lemma writeVarintToBuffer_eq:
  "writeVarintToBuffer buffer value =
     (let e = varint_enc (unat value) in
      if length buffer < length e then None else Some (e @ drop (length e) buffer, length e))"
proof -
  have "unat value < 2 ^ (7 * (Suc 9 - 0))" using unat_bound [of "value"] by simp
  then have "writeVarint_rungs [0..<9] 9 ([] @ buffer) value =
     (let e = varint_enc (unat value) in
      if length buffer < length e then None else Some ([] @ e @ drop (length e) buffer, 0 + length e))"
    by (intro writeVarint_rungs_eq) auto
  moreover have "[0..<9] = [0, 1, 2, 3, 4, 5, 6, 7, 8]" by (simp add: upt_rec)
  ultimately show ?thesis by (simp add: writeVarintToBuffer_def Let_def del: writeVarint_rungs.simps)
qed

lemma writeUInt32VarintToBuffer_eq:
  "writeUInt32VarintToBuffer buffer value =
     (let e = varint_enc (unat value) in
      if length buffer < length e then None else Some (e @ drop (length e) buffer, length e))"
proof -
  have "unat value < 2 ^ (7 * (Suc 4 - 0))" using unat_bound [of "value"] by simp
  then have "writeVarint_rungs [0..<4] 4 ([] @ buffer) value =
     (let e = varint_enc (unat value) in
      if length buffer < length e then None else Some ([] @ e @ drop (length e) buffer, 0 + length e))"
    by (intro writeVarint_rungs_eq) auto
  moreover have "[0..<4] = [0, 1, 2, 3]" by (simp add: upt_rec)
  ultimately show ?thesis by (simp add: writeUInt32VarintToBuffer_def Let_def del: writeVarint_rungs.simps)
qed

lemma ucast_of_nat_u32: "(ucast (of_nat n :: u64) :: u32) = of_nat n"
proof (rule word_eq_of_nat [THEN trans])
  show "unat (ucast (of_nat n :: u64) :: u32) = n mod 2 ^ 32"
    by (simp add: unsigned_ucast_eq unat_of_nat take_bit_eq_mod mod_mod_cancel)
  show "of_nat (n mod 2 ^ 32) = (of_nat n :: u32)"
    by (rule word_eq_of_nat [THEN trans, symmetric]) (auto simp: unat_of_nat)
qed

lemma readVarintAt_result: "readVarintAt input i = varint_result 0 i 0 (varint_parse 0 (drop i input))"
  by (simp add: readVarintAt_refines varint_result_def split: prod.splits sum.splits)

lemma varint_result_Inl [simp]: "varint_result k index p (Inl e, n) = (Inl e, index + n)"
  by (simp add: varint_result_def)

lemma ucast_ucast_byte [simp]: "(ucast (ucast (b :: byte) :: u64) :: u32) = ucast b"
  using ucast_of_nat_u32 [of "unat b"] by simp

lemma varint_result_end:
  "index < length input \<Longrightarrow> unat (input ! index) < 128 \<Longrightarrow> k < 9 \<Longrightarrow>
   varint_result k index p (varint_parse k (drop index input)) =
     (Inr (of_nat (p + unat (input ! index) * 2 ^ (7 * k))), Suc index)"
  by (simp add: varint_result_def Cons_nth_drop_Suc [symmetric])

lemma varint_result_step:
  "index < length input \<Longrightarrow> \<not> unat (input ! index) < 128 \<Longrightarrow> k < 9 \<Longrightarrow>
   varint_result k index p (varint_parse k (drop index input)) =
     varint_result (Suc k) (Suc index) (p + (unat (input ! index) mod 128) * 2 ^ (7 * k))
       (varint_parse (Suc k) (drop (Suc index) input))"
  by (auto simp: varint_result_def Cons_nth_drop_Suc [symmetric] power_add algebra_simps split: prod.splits sum.splits)

lemma varint_result_eof:
  "\<not> index < length input \<Longrightarrow>
   varint_result k index p (varint_parse k (drop index input)) = (Inl TruncatedInput, index)"
  by (simp add: varint_result_def)

lemmas varint_result_steps = varint_result_end varint_result_step varint_result_eof

lemma or_step32:
  assumes "p < 2 ^ s" and "s \<le> 21"
  shows "of_nat p OR push_bit s (ucast ((b :: byte) AND 0x7F)) = (of_nat (p + (unat b mod 128) * 2 ^ s) :: u32)"
proof (rule word_eq_of_nat)
  have "(2::nat) ^ s \<le> 2 ^ 21" using assms by (intro power_increasing) auto
  then have "p < 2 ^ 32" and b: "unat b mod 128 * 2 ^ s \<le> 127 * 2 ^ 21"
    using assms mod_less_divisor [of 128 "unat b"] by (simp, intro mult_mono) linarith+
  then have p: "unat (of_nat p :: u32) = p" by (simp add: unat_of_nat)
  have "unat (of_nat p OR push_bit s (ucast (b AND 0x7F)) :: u32) = unat (of_nat p :: u32) + unat b mod 128 * 2 ^ s"
    using assms b by (intro unat_or_shift) (simp_all add: p)
  then show "unat (of_nat p OR push_bit s (ucast (b AND 0x7F)) :: u32) = p + unat b mod 128 * 2 ^ s"
    by (simp add: p)
qed

lemma unat_and_15: "unat ((b :: byte) AND 0x0F) = unat b mod 16"
proof -
  have "b AND 0x0F = take_bit 4 b"
    by (simp only: take_bit_eq_mask mask_eq_exp_minus_1) simp
  then have "unat (b AND 0x0F) = take_bit 4 (unat b)"
    by (simp only: unsigned_take_bit_eq)
  then show ?thesis
    by (simp only: take_bit_eq_mod) simp
qed

lemma or_fifth:
  assumes "p < 2 ^ 28"
  shows "of_nat p OR push_bit 28 (ucast ((b :: byte) AND 0x0F)) = (of_nat (p + unat b * 2 ^ 28) :: u32)"
proof -
  have b: "unat (ucast (b AND 0x0F) :: u32) = unat b mod 16"
    by (simp add: unsigned_ucast_eq unat_and_15 take_bit_eq_mod order_less_le_trans [of _ 16])
  have "unat (push_bit 28 (ucast (b AND 0x0F) :: u32)) = unat b mod 16 * 2 ^ 28"
    by (simp only: unsigned_push_bit_eq b) (simp add: push_bit_eq_mult take_bit_eq_mod)
  then have "unat (of_nat p OR push_bit 28 (ucast (b AND 0x0F)) :: u32) = p OR unat b mod 16 * 2 ^ 28"
    using assms by (simp only: unsigned_or_eq) (simp add: unat_of_nat)
  also have "\<dots> = p + unat b mod 16 * 2 ^ 28"
    using assms by (rule or_disjoint_nat)
  finally have "of_nat p OR push_bit 28 (ucast (b AND 0x0F)) = (of_nat (p + unat b mod 16 * 2 ^ 28) :: u32)"
    by (rule word_eq_of_nat)
  also have "\<dots> = of_nat (p + unat b * 2 ^ 28)"
  proof -
    have "unat b * 2 ^ 28 = (unat b mod 16 + 16 * (unat b div 16)) * 2 ^ 28" by simp
    also have "\<dots> = unat b mod 16 * 2 ^ 28 + (unat b div 16) * 2 ^ 32"
      by (simp only: distrib_right) simp
    finally have "p + unat b * 2 ^ 28 = (p + unat b mod 16 * 2 ^ 28) + (unat b div 16) * 2 ^ 32"
      by linarith
    then show ?thesis by (simp only: word_of_nat_eq_iff take_bit_eq_mod) simp
  qed
  finally show ?thesis .
qed

lemma low7_u32: "(ucast ((b :: byte) AND 0x7F) :: u32) = of_nat (unat b mod 128)"
  using or_step32 [of 0 0 b] by simp

definition to_u32 :: "(wire_error + u64) \<times> nat \<Rightarrow> (wire_error + u32) \<times> nat" where
  "to_u32 r = (case r of (Inl e, j) \<Rightarrow> (Inl e, j) | (Inr v, j) \<Rightarrow> (Inr (ucast v), j))"

text \<open>The unrolled 32-bit reader as a walk over the shifts of its four equal rungs.\<close>

fun u32_rungs :: "nat list \<Rightarrow> bytes \<Rightarrow> nat \<Rightarrow> nat \<Rightarrow> u32 \<Rightarrow> (wire_error + u32) \<times> nat" where
  "u32_rungs [] input start index raw =
     (if index \<ge> length input then (Inl TruncatedInput, index)
      else if input ! index < 0x80
      then (Inr (raw OR push_bit 28 (ucast (input ! index AND 0x0F))), index + 1)
      else to_u32 (readVarintAt input start))"
| "u32_rungs (s # ss) input start index raw =
     (if index \<ge> length input then (Inl TruncatedInput, index)
      else if input ! index < 0x80
      then (Inr (raw OR push_bit s (ucast (input ! index AND 0x7F))), index + 1)
      else u32_rungs ss input start (index + 1) (raw OR push_bit s (ucast (input ! index AND 0x7F))))"

lemma readUInt32At_rungs: "readUInt32At input i = u32_rungs [0, 7, 14, 21] input i i 0"
  by (simp add: readUInt32At_def to_u32_def Let_def)

lemma u32_rungs_eq:
  "k \<le> 4 \<Longrightarrow> p < 2 ^ (7 * k) \<Longrightarrow>
   readVarintAt input start = varint_result k index p (varint_parse k (drop index input)) \<Longrightarrow>
   u32_rungs (map ((*) 7) [k..<4]) input start index (of_nat p) = to_u32 (readVarintAt input start)"
proof (induction "4 - k" arbitrary: k index p)
  case 0
  then have k: "k = 4" by simp
  show ?case
    using 0 by (cases "index < length input"; cases "unat (input ! index) < 128")
      (simp_all add: k varint_result_end varint_result_eof to_u32_def byte_less_128 or_fifth ucast_of_nat_u32
        del: of_nat_add of_nat_mult)
next
  case (Suc m)
  then have k: "k < 4" and up: "[k..<4] = k # [Suc k..<4]" by (auto simp: upt_conv_Cons)
  let ?b = "input ! index"
  have or: "of_nat p OR push_bit (7 * k) (ucast (?b AND 0x7F)) =
      (of_nat (p + (unat ?b mod 128) * 2 ^ (7 * k)) :: u32)"
    using Suc.prems k by (intro or_step32) auto
  show ?case
  proof (cases "index < length input \<and> \<not> unat ?b < 128")
    case True
    have "p + (unat ?b mod 128) * 2 ^ (7 * k) < 2 ^ (7 * k) + 127 * 2 ^ (7 * k)"
      using Suc.prems mod_less_divisor [of 128 "unat ?b"]
      by (intro add_less_le_mono mult_right_mono) auto
    then have "u32_rungs (map ((*) 7) [Suc k..<4]) input start (Suc index)
        (of_nat (p + (unat ?b mod 128) * 2 ^ (7 * k))) = to_u32 (readVarintAt input start)"
      using Suc.hyps(2) Suc.prems True k
      by (intro Suc.hyps(1)) (simp_all add: power_add varint_result_step)
    then show ?thesis using True by (simp add: up or byte_less_128 del: of_nat_add of_nat_mult)
  next
    case False
    then show ?thesis using Suc.prems k or
      by (cases "index < length input")
        (simp_all add: up varint_result_end varint_result_eof to_u32_def byte_less_128 ucast_of_nat_u32
          del: of_nat_add of_nat_mult)
  qed
qed

lemma readUInt32At_eq: "readUInt32At input i = to_u32 (readVarintAt input i)"
proof -
  have "map ((*) 7) [0..<4] = [0, 7, 14, 21]" by (simp add: upt_rec)
  then show ?thesis
    using u32_rungs_eq [of 0 0 input i i] by (simp add: readUInt32At_rungs readVarintAt_result del: u32_rungs.simps)
qed

lemma readTwoByteHot_eq:
  assumes "\<And>v. finish_wide v = finish (ucast v)"
  shows "readTwoByteHot finish finish_wide input i =
    (case readVarintAt input i of (Inl e, j) \<Rightarrow> (Inl e, j) | (Inr v, j) \<Rightarrow> (Inr (finish_wide v), j))"
proof -
  let ?b = "\<lambda>k. unat (input ! (i + k))"
  have p: "?b 0 mod 128 < 2 ^ 7" using mod_less_divisor [of 128 "?b 0"] by simp
  have or: "ucast (input ! i AND 0x7F) OR push_bit 7 (ucast (input ! Suc i AND 0x7F)) =
     (of_nat (?b 0 mod 128 + ?b 1 mod 128 * 2 ^ 7) :: u32)"
    using or_step32 [OF p, of "input ! Suc i"] by (simp add: low7_u32)
  consider "\<not> i < length input" | "i < length input" "?b 0 < 128"
    | "i < length input" "\<not> ?b 0 < 128" "\<not> Suc i < length input"
    | "Suc i < length input" "\<not> ?b 0 < 128" "?b 1 < 128"
    | "Suc i < length input" "\<not> ?b 0 < 128" "\<not> ?b 1 < 128" by linarith
  then show ?thesis
  proof cases
    case 4
    have "readVarintAt input i = (Inr (of_nat (?b 0 mod 128 + ?b 1 * 2 ^ 7)), Suc (Suc i))"
      using 4 by (simp add: readVarintAt_result varint_result_step varint_result_end del: of_nat_add of_nat_mult)
    then show ?thesis using 4 or assms
      by (simp add: readTwoByteHot_def Let_def byte_less_128 ucast_of_nat_u32 del: of_nat_add of_nat_mult)
  qed (simp_all add: readTwoByteHot_def Let_def byte_less_128 readVarintAt_result varint_result_step
      varint_result_end varint_result_eof low7_u32 ucast_of_nat_u32 assms)
qed

lemma readBoolAt_eq:
  "readBoolAt input i =
    (case readVarintAt input i of (Inl e, j) \<Rightarrow> (Inl e, j) | (Inr v, j) \<Rightarrow> (Inr (v \<noteq> 0), j))"
proof (cases "i < length input \<and> unat (input ! i) < 128")
  case True
  have "input ! i \<noteq> 0 \<longleftrightarrow> (ucast (input ! i) :: u64) \<noteq> 0"
    by (simp add: word_unat_eq_iff unat_ucast_byte)
  then show ?thesis
    using True by (simp add: readBoolAt_def readVarintAt_result varint_result_end byte_less_128 Let_def)
next
  case False
  then show ?thesis
    by (auto simp: readBoolAt_def readVarintAt_result varint_result_eof byte_less_128 Let_def)
qed

lemma readInt32At_eq:
  "readInt32At input i =
    (case readVarintAt input i of (Inl e, j) \<Rightarrow> (Inl e, j) | (Inr v, j) \<Rightarrow> (Inr (ucast v), j))"
  unfolding readInt32At_def by (rule readTwoByteHot_eq) simp

lemma readSInt32At_eq:
  "readSInt32At input i =
    (case readVarintAt input i of
       (Inl e, j) \<Rightarrow> (Inl e, j) | (Inr v, j) \<Rightarrow> (Inr (zigZagDecode32 (ucast v)), j))"
  unfolding readSInt32At_def by (rule readTwoByteHot_eq) simp

subsection \<open>Writers into a slice\<close>

definition store_at :: "bytes \<Rightarrow> nat \<Rightarrow> bytes \<Rightarrow> (bytes \<times> nat) option" where
  "store_at buffer index e =
     (if length buffer < index + length e then None
      else Some (take index buffer @ e @ drop (index + length e) buffer, index + length e))"

lemma write_tail_store:
  assumes "\<And>sub. f sub = (if length sub < length e then None else Some (e @ drop (length e) sub, length e))"
  shows "write_tail f buffer index = store_at buffer index e"
  using assms by (auto simp: write_tail_def store_at_def add.commute)

lemma writeVarintToSlice_eq:
  "writeVarintToSlice buffer index value = store_at buffer index (varint_enc (unat value))"
  unfolding writeVarintToSlice_def
  by (rule write_tail_store) (simp add: writeVarintToBuffer_eq Let_def)

lemma writeUInt32VarintToSlice_eq:
  "writeUInt32VarintToSlice buffer index value = store_at buffer index (varint_enc (unat value))"
  unfolding writeUInt32VarintToSlice_def
  by (rule write_tail_store) (simp add: writeUInt32VarintToBuffer_eq Let_def)

lemma store_at_1: "store_at buffer i [a] = Option.bind (put buffer i a) (\<lambda>buffer. Some (buffer, i + 1))"
  by (auto simp: store_at_def put_def upd_conv_take_nth_drop)

lemma store_at_2:
  "store_at buffer i [a, b] =
     Option.bind (put buffer i a) (\<lambda>buffer. Option.bind (put buffer (i + 1) b) (\<lambda>buffer. Some (buffer, i + 2)))"
  by (auto simp: store_at_def put_def upd_conv_take_nth_drop nth_append  take_Suc_conv_app_nth)

lemma writeDirectScalarVarintToSlice_eq:
  "writeDirectScalarVarintToSlice buffer index value = store_at buffer index (varint_enc (unat value))"
proof -
  consider "unat value < 128" | "128 \<le> unat value" "unat value < 16384" | "16384 \<le> unat value" by linarith
  then show ?thesis
  proof cases
    case 1
    then have "varint_enc (unat value) = [ucast value]"
      using unat_low_byte [OF 1] by (subst varint_enc.simps) (auto intro: word_eq_of_nat [symmetric])
    then show ?thesis using 1
      by (simp add: writeDirectScalarVarintToSlice_def intCast_u8_def word_less_nat_alt store_at_1)
  next
    case 2
    have l: "value AND 0x7F = take_bit 7 value"
      by (simp only: take_bit_eq_mask mask_eq_exp_minus_1) simp
    have m: "unat ((value AND 0x7F) OR 0x80) = unat value mod 128 + 128"
    proof -
      have "unat ((value AND 0x7F) OR 0x80) = take_bit 7 (unat value) OR 1 * 2 ^ 7"
        by (simp only: l unsigned_or_eq unsigned_take_bit_eq) simp
      also have "\<dots> = take_bit 7 (unat value) + 1 * 2 ^ 7"
        by (rule or_disjoint_nat) (rule take_bit_nat_less_exp)
      finally show ?thesis by (simp add: take_bit_eq_mod)
    qed
    have b0: "ucast ((value AND 0x7F) OR 0x80) = (of_nat (unat value mod 128 + 128) :: byte)"
      using m mod_less_divisor [of 128 "unat value"]
      by (intro word_eq_of_nat) (simp add: unsigned_ucast_eq take_bit_eq_mod del: unsigned_or_eq)
    have b1: "ucast (drop_bit 7 value) = (of_nat (unat value div 128) :: byte)"
      using 2 unat_low_byte [of "drop_bit 7 value"] by (intro word_eq_of_nat) (simp add: unat_drop_bit_div less_mult_imp_div_less)
    have e: "varint_enc (unat value) =
        [ucast ((value AND 0x7F) OR 0x80), ucast (drop_bit 7 value)]"
      using 2 unfolding b0 b1 by (subst varint_enc.simps, subst varint_enc.simps) (simp add: less_mult_imp_div_less)
    have "intCast_u8 ((value AND 0x7F) OR 0x80) = Some (ucast ((value AND 0x7F) OR 0x80))"
      using m mod_less_divisor [of 128 "unat value"] by (simp only: intCast_u8_def word_less_nat_alt) simp
    moreover have "intCast_u8 (drop_bit 7 value) = Some (ucast (drop_bit 7 value))"
      using 2 by (simp add: intCast_u8_def word_less_nat_alt unat_drop_bit_div less_mult_imp_div_less)
    ultimately show ?thesis using 2
      unfolding e store_at_2 by (simp add: writeDirectScalarVarintToSlice_def word_less_nat_alt)
  next
    case 3
    then show ?thesis
      using writeVarintToSlice_eq [of buffer index "value"]
      by (simp add: writeDirectScalarVarintToSlice_def word_less_nat_alt writeVarintToSlice_def)
  qed
qed

lemma negative_rungs_eq:
  "k \<le> 9 \<Longrightarrow> 2 ^ (63 - 7 * k) \<le> unat v \<Longrightarrow>
   Option.bind (negative_rungs [k..<9] out v) (\<lambda>(out, v).
     Option.bind (put out 9 (ucast v)) (\<lambda>out. Some (out, 10))) = writeVarint_rungs [k..<9] 9 out v"
proof (induction "9 - k" arbitrary: k out v)
  case 0
  then show ?case by (simp split: option.splits)
next
  case (Suc m)
  then have k: "k < 9" and up: "[k..<9] = k # [Suc k..<9]" by (auto simp: upt_conv_Cons)
  have e: "(2::nat) ^ (63 - 7 * k) = 2 ^ (63 - 7 * Suc k) * 128"
  proof -
    have "63 - 7 * k = (63 - 7 * Suc k) + 7" using k by simp
    then show ?thesis by (simp only: power_add) simp
  qed
  have "1 * 128 \<le> (2 :: nat) ^ (63 - 7 * Suc k) * 128" by (rule mult_right_mono) simp_all
  then have "128 \<le> unat v" using Suc.prems(2) unfolding e by linarith
  moreover have "2 ^ (63 - 7 * Suc k) \<le> unat (drop_bit 7 v)"
    using Suc.prems(2) e by (simp add: unat_drop_bit_div less_eq_div_iff_mult_less_eq)
  ultimately show ?case
    using Suc.hyps(1) [of "Suc k" "drop_bit 7 v"] Suc.hyps(2) k
    by (auto simp: up word_less_nat_alt split: option.splits)
qed

lemma length_varint_enc_gt: "2 ^ (7 * k) \<le> n \<Longrightarrow> k < length (varint_enc n)"
proof (induction n arbitrary: k rule: varint_enc.induct)
  case (1 n)
  show ?case
  proof (cases k)
    case (Suc j)
    then have n: "2 ^ (7 * j) * 128 \<le> n" using "1.prems" by (simp add: power_add mult.commute)
    moreover have "(1::nat) \<le> 2 ^ (7 * j)" by simp
    ultimately have "\<not> n < 128" by linarith
    moreover have "2 ^ (7 * j) \<le> n div 128" using n by (simp add: less_eq_div_iff_mult_less_eq)
    ultimately have "j < length (varint_enc (n div 128))" by (intro "1.IH")
    then show ?thesis using \<open>\<not> n < 128\<close> Suc by (subst varint_enc.simps) simp
  qed simp
qed

lemma writeNegativeInt64VarintToSlice_eq:
  assumes "sint v < 0"
  shows "writeNegativeInt64VarintToSlice buffer index v = store_at buffer index (varint_enc (unat v))"
proof -
  let ?e = "varint_enc (unat v)"
  have "bit v 63" using assms bit_last_iff [of v] by simp
  then have "sint v = int (unat v) - 2 ^ 64" using sint_unat [of v] by simp
  then have "int (2 ^ 63) \<le> int (unat v)" using sint_bounds(1) [of v] by (simp del: uint_nat)
  then have v: "2 ^ 63 \<le> unat v" by (simp only: of_nat_le_iff)
  have len: "length ?e = 10"
    using length_varint_enc_gt [of 9 "unat v"] v encodedVarintSize_bounds(2) [of v]
    by (simp add: encodedVarintSize_eq)
  have rungs: "Option.bind (negative_rungs [0, 1, 2, 3, 4, 5, 6, 7, 8] out v) (\<lambda>(out, v).
      Option.bind (put out 9 (ucast v)) (\<lambda>out. Some (out, 10))) = Some (?e, 10 :: nat)"
    if "length out = 10" for out :: bytes
  proof -
    have l9: "[0, 1, 2, 3, 4, 5, 6, 7, 8] = [0..<9 :: nat]" by (simp add: upt_rec)
    have w: "writeVarint_rungs [0..<9] 9 out v = Some (?e, 10)"
      using that writeVarintToBuffer_eq [of out v, unfolded writeVarintToBuffer_def l9] by (simp add: len)
    have "2 ^ (63 - 7 * 0) \<le> unat v" using v by simp
    from negative_rungs_eq [OF _ this, of out] w show ?thesis unfolding l9 by (simp only: le0)
  qed
  have frame: "Option.bind r (\<lambda>(out, v). Option.bind (put out 9 (ucast v)) (\<lambda>out. Some (f out, m))) = Some (f o', m)"
    if "Option.bind r (\<lambda>(out, v). Option.bind (put out 9 (ucast v)) (\<lambda>out. Some (out, 10))) = Some (o', 10 :: nat)"
    for r :: "(bytes \<times> u64) option" and f :: "bytes \<Rightarrow> bytes" and m :: nat and o'
    using that by (cases r) (auto split: Option.bind_splits)
  show ?thesis
  proof (cases "length buffer < index + 10")
    case False
    then have "length (take 10 (drop index buffer)) = 10" by simp
    note frame [OF rungs [OF this], of "\<lambda>out. take index buffer @ out @ drop (index + 10) buffer" "index + 10"]
    then show ?thesis using False assms
      by (simp only: writeNegativeInt64VarintToSlice_def store_at_def len Let_def if_False if_True not_True_eq_False)
  qed (simp add: writeNegativeInt64VarintToSlice_def store_at_def len)
qed

section \<open>Little-endian integers: both directions\<close>

lemma length_le_bytes [simp]: "length (le_bytes n v) = n"
  by (simp add: le_bytes_def)

lemma bit_le_word:
  "bit (le_word bs :: 'a::len word) k \<longleftrightarrow>
     k < LENGTH('a) \<and> k div 8 < length bs \<and> bit (bs ! (k div 8)) (k mod 8)"
proof (induction bs arbitrary: k)
  case (Cons b bs)
  show ?case
  proof (cases "k < 8")
    case True
    then show ?thesis
      by (auto simp: bit_or_iff bit_ucast_iff bit_push_bit_iff)
  next
    case False
    then have "k div 8 = Suc ((k - 8) div 8)" "k mod 8 = (k - 8) mod 8"
      by (auto simp: le_div_geq le_mod_geq)
    moreover have "\<not> bit b k"
      using False bit_imp_le_length [of b k] by auto
    ultimately show ?thesis
      using False Cons.IH [of "k - 8"] by (auto simp: bit_or_iff bit_ucast_iff bit_push_bit_iff)
  qed
qed simp

lemma bit_le_bytes:
  "i < n \<Longrightarrow> j < 8 \<Longrightarrow> bit (le_bytes n v ! i) j \<longleftrightarrow> 8 * i + j < LENGTH('a) \<and> bit (v :: 'a::len word) (8 * i + j)"
  by (auto simp: le_bytes_def bit_ucast_iff bit_drop_bit_eq dest: bit_imp_le_length)

lemma le_word_le_bytes: "LENGTH('a) \<le> 8 * n \<Longrightarrow> le_word (le_bytes n v) = (v :: 'a::len word)"
proof (rule bit_word_eqI)
  fix k
  assume "LENGTH('a) \<le> 8 * n" "k < LENGTH('a)"
  then have "k div 8 < n" by (simp add: less_mult_imp_div_less mult.commute)
  then show "bit (le_word (le_bytes n v) :: 'a word) k \<longleftrightarrow> bit v k"
    using \<open>k < LENGTH('a)\<close> bit_le_bytes [of "k div 8" n "k mod 8" v]
    by (simp add: bit_le_word)
qed

lemma le_bytes_le_word: "8 * length bs \<le> LENGTH('a) \<Longrightarrow> le_bytes (length bs) (le_word bs :: 'a::len word) = bs"
proof (rule nth_equalityI)
  fix i
  assume a: "8 * length bs \<le> LENGTH('a)" "i < length (le_bytes (length bs) (le_word bs :: 'a word))"
  show "le_bytes (length bs) (le_word bs :: 'a word) ! i = bs ! i"
    using a by (intro bit_word_eqI) (auto simp: bit_le_bytes bit_le_word)
qed simp

lemma writeRawLittleToSlice_eq:
  "writeRawLittleToSlice buffer index v = store_at buffer index (le_bytes (sizeOf TYPE('a word)) (v :: 'a::len word))"
  by (auto simp: writeRawLittleToSlice_def store_at_def Let_def)

lemma readRawLittleAt_at:
  assumes "8 dvd LENGTH('a)"
  shows "readRawLittleAt (pre @ le_bytes (sizeOf TYPE('a word)) (v :: 'a::len word) @ rest) (length pre) =
    (Inr v, length pre + sizeOf TYPE('a word))"
  using assms by (simp add: readRawLittleAt_def Let_def le_word_le_bytes sizeOf_def)

section \<open>Properties\<close>

text \<open>
  The unrolled 64-bit writer stores the canonical varint of its value, in exactly
  \<open>encodedVarintSize\<close> bytes, at the front of the buffer, leaves the rest of the buffer
  alone, and panics only on a buffer that is too short for it.
\<close>

theorem writeVarintToBuffer_canonical:
  "writeVarintToBuffer buffer v =
     (if length buffer < encodedVarintSize v then None
      else Some (varint_enc (unat v) @ drop (encodedVarintSize v) buffer, encodedVarintSize v))"
  by (simp add: writeVarintToBuffer_eq encodedVarintSize_eq Let_def)

text \<open>
  Every specialised slice writer (one- and two-byte hot path, 32-bit, and the ten-byte
  form of a negative value) stores what the general one stores, for the values it takes.
\<close>

theorem varint_slice_writers_agree:
  assumes "sint neg < 0"
  shows "writeDirectScalarVarintToSlice buffer i v = writeVarintToSlice buffer i v \<and>
    writeUInt32VarintToSlice buffer i u = writeVarintToSlice buffer i (ucast u) \<and>
    writeNegativeInt64VarintToSlice buffer i neg = writeVarintToSlice buffer i neg"
proof -
  have "unat (ucast u :: u64) = unat u"
    using unat_bound [of u] by (simp add: unsigned_ucast_eq take_bit_eq_mod)
  then show ?thesis
    using assms by (simp add: writeDirectScalarVarintToSlice_eq writeVarintToSlice_eq
        writeUInt32VarintToSlice_eq writeNegativeInt64VarintToSlice_eq)
qed

theorem varint_slice_writers_agree_witness:
  "writeDirectScalarVarintToSlice [9, 9, 9] 1 300 = writeVarintToSlice [9, 9, 9] 1 300 \<and>
   writeUInt32VarintToSlice [9, 9, 9] 1 5 = writeVarintToSlice [9, 9, 9] 1 (ucast (5 :: u32)) \<and>
   writeNegativeInt64VarintToSlice [9, 9, 9] 1 (- 1) = writeVarintToSlice [9, 9, 9] 1 (- 1)"
  by (rule varint_slice_writers_agree) simp

text \<open>
  C6: the unrolled 64-bit reader is the reference parser: the same value, the same error
  and the same final index, on every input and at every start index.
\<close>

theorem readVarintAt_refines_parser:
  "readVarintAt bs i =
     (case varint_parse 0 (drop i bs) of
        (Inl e, n) \<Rightarrow> (Inl e, i + n)
      | (Inr v, n) \<Rightarrow> (Inr (of_nat v), i + n))"
  by (rule readVarintAt_refines)

text \<open>
  C7: reading back what \<open>writeVarintToSlice\<close> stored, anywhere in a buffer, gives the value
  and stops right behind it.
\<close>

theorem varint_write_read_roundtrip:
  assumes "writeVarintToSlice buffer i v = Some (buffer', j)"
  shows "readVarintAt buffer' i = (Inr v, j) \<and> j = i + encodedVarintSize v \<and> length buffer' = length buffer"
  using assms readVarintAt_enc [of "unat v" "take i buffer" "drop j buffer"] unat_bound [of v]
  by (auto simp: writeVarintToSlice_eq store_at_def encodedVarintSize_eq split: if_splits)

theorem varint_write_read_roundtrip_witness:
  "readVarintAt [9, 0xAC, 0x02, 9] 1 = (Inr 300, 3) \<and> 3 = 1 + encodedVarintSize 300 \<and>
   length [9, 0xAC, 0x02, 9 :: byte] = length [9, 9, 9, 9 :: byte]"
  by (rule varint_write_read_roundtrip [of "[9, 9, 9, 9]" 1 300])
    (simp add: writeVarintToSlice_def write_tail_def writeVarintToBuffer_def put_def)

text \<open>
  The fast readers for \<open>uint32\<close>, \<open>bool\<close>, \<open>int32\<close> and \<open>sint32\<close> agree with reading the
  64-bit varint and converting it: same value, same error, same final index.
\<close>

theorem fast_readers_agree:
  "readUInt32At bs i = map_prod (map_sum id ucast) id (readVarintAt bs i) \<and>
   readBoolAt bs i = map_prod (map_sum id (\<lambda>v. v \<noteq> 0)) id (readVarintAt bs i) \<and>
   readInt32At bs i = map_prod (map_sum id ucast) id (readVarintAt bs i) \<and>
   readSInt32At bs i = map_prod (map_sum id (\<lambda>v. zigZagDecode32 (ucast v))) id (readVarintAt bs i)"
  by (auto simp: readUInt32At_eq readBoolAt_eq readInt32At_eq readSInt32At_eq to_u32_def
      split: prod.splits sum.splits)

end
