(* ===== verification/Wire_Reader.thy ===== *)
theory Wire_Reader
  imports Wire_Varint
begin

unbundle bit_operations_syntax

text \<open>
  The cursor \<open>Reader\<close> of \<open>src/wire.zig\<close>: a slice, the index of the next byte, the start
  of the last tag and the recursion budget. A subtraction below zero and a failed
  assertion are panics (\<open>None\<close>); the invariant \<open>reader_ok\<close> excludes both.
\<close>

section \<open>State and cursor operations\<close>

record reader =
  input :: bytes
  index :: nat
  last_tag_start :: nat
  recursion_depth :: u32
  recursion_limit :: u32

type_synonym 'a reading = "(reader, wire_error, 'a) op"

definition reader_init :: "bytes \<Rightarrow> reader" where
  "reader_init bs = \<lparr>input = bs, index = 0, last_tag_start = 0, recursion_depth = 0, recursion_limit = 100\<rparr>"

definition eof :: "reader \<Rightarrow> bool" where
  "eof self = (index self \<ge> length (input self))"

definition remaining :: "reader \<Rightarrow> bytes option" where
  "remaining self = (if index self \<le> length (input self) then Some (drop (index self) (input self)) else None)"

definition position :: "reader \<Rightarrow> nat" where
  "position self = index self"

definition lastTagStart :: "reader \<Rightarrow> nat" where
  "lastTagStart self = last_tag_start self"

definition nested :: "reader \<Rightarrow> bytes \<Rightarrow> wire_error + reader" where
  "nested self bs =
     (if recursion_depth self \<ge> recursion_limit self then Inl RecursionLimitExceeded
      else Inr \<lparr>input = bs, index = 0, last_tag_start = 0,
                recursion_depth = recursion_depth self + 1, recursion_limit = recursion_limit self\<rparr>)"

definition enterRecursion :: "unit reading" where
  "enterRecursion = (\<lambda>self.
     if recursion_depth self \<ge> recursion_limit self then Some (Inl RecursionLimitExceeded, self)
     else Some (Inr (), self\<lparr>recursion_depth := recursion_depth self + 1\<rparr>))"

definition leaveRecursion :: "unit reading" where
  "leaveRecursion = (\<lambda>self.
     if recursion_depth self = 0 then None
     else Some (Inr (), self\<lparr>recursion_depth := recursion_depth self - 1\<rparr>))"

text \<open>\<open>self.input.len - self.index\<close>, a panic when it would wrap.\<close>

definition available :: "reader \<Rightarrow> nat option" where
  "available self = (if index self \<le> length (input self) then Some (length (input self) - index self) else None)"

definition checkedAvailable :: "nat \<Rightarrow> nat reading" where
  "checkedAvailable n = (\<lambda>self. case available self of
       None \<Rightarrow> None
     | Some m \<Rightarrow> if m < n then Some (Inl TruncatedInput, self) else Some (Inr n, self))"

definition advance :: "nat \<Rightarrow> unit reading" where
  "advance n = (\<lambda>self. Some (Inr (), self\<lparr>index := index self + n\<rparr>))"

section \<open>Scalars\<close>

definition readByte :: "byte reading" where
  "readByte = (\<lambda>self.
     if index self \<ge> length (input self) then Some (Inl TruncatedInput, self)
     else Some (Inr (input self ! index self), self\<lparr>index := index self + 1\<rparr>))"

definition readVarint :: "u64 reading" where
  "readVarint = (\<lambda>self. let (r, i) = readVarintAt (input self) (index self) in Some (r, self\<lparr>index := i\<rparr>))"

definition readUInt32 :: "u32 reading" where
  "readUInt32 = tryIn readVarint (\<lambda>v. return (ucast v))"

definition readUInt64 :: "u64 reading" where
  "readUInt64 = readVarint"

definition readInt32 :: "i32 reading" where
  "readInt32 = tryIn readVarint (\<lambda>value. return (ucast value))"

definition readInt64 :: "i64 reading" where
  "readInt64 = readVarint"

definition readSInt32 :: "i32 reading" where
  "readSInt32 = tryIn readVarint (\<lambda>v. return (zigZagDecode32 (ucast v)))"

definition readSInt64 :: "i64 reading" where
  "readSInt64 = tryIn readUInt64 (\<lambda>v. return (zigZagDecode64 v))"

definition readBool :: "bool reading" where
  "readBool = tryIn readVarint (\<lambda>v. return (v \<noteq> 0))"

definition readRawLittle :: "'a::len word reading" where
  "readRawLittle = (let n = sizeOf TYPE('a word) in
     tryIn (checkedAvailable n) (\<lambda>_ self.
       let start = index self in
       Some (Inr (le_word (take n (drop start (input self)))), self\<lparr>index := start + n\<rparr>)))"

definition readFixed32 :: "u32 reading" where
  "readFixed32 = readRawLittle"

definition readSFixed32 :: "i32 reading" where
  "readSFixed32 = readFixed32"

definition readFixed64 :: "u64 reading" where
  "readFixed64 = readRawLittle"

definition readSFixed64 :: "i64 reading" where
  "readSFixed64 = readFixed64"

text \<open>A float is kept as the word of its IEEE bits, so its \<open>@bitCast\<close> is the identity.\<close>

definition readFloat :: "u32 reading" where
  "readFloat = readFixed32"

definition readDouble :: "u64 reading" where
  "readDouble = readFixed64"

section \<open>Tags, length-delimited values, skipping\<close>

definition nextTag :: "tag option reading" where
  "nextTag = (\<lambda>self.
     if eof self then Some (Inr None, self)
     else let tag_start = index self in
     tryIn readVarint (\<lambda>raw self.
       if index self - tag_start > 5 then Some (Inl MalformedVarint, self)
       else (case tag_decode raw of
               Inl e \<Rightarrow> Some (Inl e, self)
             | Inr t \<Rightarrow> Some (Inr (Some t), self))) (self\<lparr>last_tag_start := tag_start\<rparr>))"

definition expectWireType :: "tag \<Rightarrow> wire_type \<Rightarrow> wire_error + unit" where
  "expectWireType t expected = (if tag_type t \<noteq> expected then Inl InvalidWireType else Inr ())"

definition readLength :: "nat reading" where
  "readLength = (\<lambda>self.
     let first_len_byte = input self ! index self in
     if first_len_byte < 0x80 then Some (Inr (unat first_len_byte), self\<lparr>index := index self + 1\<rparr>)
     else tryIn readVarint (\<lambda>len64.
       if unat len64 > usize_max then throw Overflow else return (unat len64)) self)"

definition readBytes :: "bytes reading" where
  "readBytes = (\<lambda>self.
     if index self \<ge> length (input self) then Some (Inl TruncatedInput, self)
     else tryIn readLength (\<lambda>n.
       tryIn (checkedAvailable n) (\<lambda>_ self.
         let start = index self in
         Some (Inr (take n (drop start (input self))), self\<lparr>index := start + n\<rparr>))) self)"

text \<open>
  \<open>skipValue\<close> and \<open>skipGroup\<close> call each other, and the latter loops. Fuel bounds the
  depth of calls (iterations of the loop included); the two definitions without fuel
  below start with more than a reader of this length can use, which the equations
  \<open>skipValue_eq\<close> and \<open>skipGroupLoop_eq\<close> show.
\<close>

fun skipValueF :: "nat \<Rightarrow> tag \<Rightarrow> unit reading"
and skipGroupF :: "nat \<Rightarrow> field_number \<Rightarrow> unit reading"
and skipLoopF :: "nat \<Rightarrow> field_number \<Rightarrow> unit reading" where
  "skipValueF fuel t = (case tag_type t of
       Varint \<Rightarrow> tryIn readVarint (\<lambda>_. return ())
     | Fixed64 \<Rightarrow> tryIn (checkedAvailable 8) advance
     | LengthDelimited \<Rightarrow> tryIn readBytes (\<lambda>_. return ())
     | Fixed32 \<Rightarrow> tryIn (checkedAvailable 4) advance
     | StartGroup \<Rightarrow> (case fuel of 0 \<Rightarrow> (\<lambda>_. None) | Suc fuel' \<Rightarrow> skipGroupF fuel' (number t))
     | EndGroup \<Rightarrow> throw UnsupportedWireType)"
| "skipGroupF fuel num = tryIn enterRecursion (\<lambda>_. deferring leaveRecursion (skipLoopF fuel num))"
| "skipLoopF fuel num = (case fuel of 0 \<Rightarrow> (\<lambda>_. None) | Suc fuel' \<Rightarrow>
     tryIn nextTag (\<lambda>t. case t of
         None \<Rightarrow> throw TruncatedInput
       | Some t \<Rightarrow>
           if tag_type t = EndGroup
           then (if number t \<noteq> num then throw InvalidFieldNumber else return ())
           else tryIn (skipValueF fuel' t) (\<lambda>_. skipLoopF fuel' num)))"

declare skipValueF.simps [simp del] skipGroupF.simps [simp del] skipLoopF.simps [simp del]

definition skip_fuel :: "reader \<Rightarrow> nat" where
  "skip_fuel self = 2 * (length (input self) - index self) + 2"

definition skipValue :: "tag \<Rightarrow> unit reading" where
  "skipValue t = (\<lambda>self. skipValueF (skip_fuel self) t self)"

definition skipGroup :: "field_number \<Rightarrow> unit reading" where
  "skipGroup num = (\<lambda>self. skipGroupF (skip_fuel self) num self)"

definition skipLoop :: "field_number \<Rightarrow> unit reading" where
  "skipLoop num = (\<lambda>self. skipLoopF (skip_fuel self) num self)"

text \<open>The loop of \<open>readGroupBytes\<close>; \<open>start\<close> is where the group's contents begin.\<close>

fun groupLoopF :: "nat \<Rightarrow> nat \<Rightarrow> field_number \<Rightarrow> bytes reading" where
  "groupLoopF 0 start num = (\<lambda>_. None)"
| "groupLoopF (Suc fuel) start num =
     tryIn nextTag (\<lambda>t. case t of
         None \<Rightarrow> throw TruncatedInput
       | Some t \<Rightarrow>
           if tag_type t = EndGroup
           then (if number t \<noteq> num then throw InvalidFieldNumber
                 else tryIn (liftSum (tagSize (number t) (tag_type t))) (\<lambda>n self.
                   if n > index self then None
                   else let stop = index self - n in
                   if start > stop then None
                   else Some (Inr (take (stop - start) (drop start (input self))), self)))
           else tryIn (skipValue t) (\<lambda>_. groupLoopF fuel start num))"

definition readGroupBytes :: "field_number \<Rightarrow> bytes reading" where
  "readGroupBytes num = tryIn enterRecursion (\<lambda>_. deferring leaveRecursion (\<lambda>self.
     groupLoopF (skip_fuel self) (index self) num self))"


section \<open>The cursor invariant\<close>

definition reader_ok :: "reader \<Rightarrow> bool" where
  "reader_ok self \<longleftrightarrow> index self \<le> length (input self) \<and> last_tag_start self \<le> index self
     \<and> recursion_depth self \<le> recursion_limit self"

text \<open>What every reading step may do: the input and the budget stay, the cursor only moves forward.\<close>

definition reader_step :: "reader \<Rightarrow> reader \<Rightarrow> bool" where
  "reader_step self self' \<longleftrightarrow> input self' = input self \<and> index self \<le> index self'
     \<and> recursion_limit self' = recursion_limit self \<and> recursion_depth self' = recursion_depth self"

definition reads_ok :: "(reader, 'e, 'a) op \<Rightarrow> bool" where
  "reads_ok m \<longleftrightarrow> (\<forall>self. reader_ok self \<longrightarrow>
     (case m self of None \<Rightarrow> False | Some (_, self') \<Rightarrow> reader_ok self' \<and> reader_step self self'))"

lemma reader_ok_init: "reader_ok (reader_init bs)"
  by (simp add: reader_ok_def reader_init_def)

lemma reader_step_refl [simp]: "reader_step self self"
  by (simp add: reader_step_def)

lemma reader_step_trans: "reader_step a b \<Longrightarrow> reader_step b c \<Longrightarrow> reader_step a c"
  by (auto simp: reader_step_def)

lemma reads_okD:
  assumes "reads_ok m" "reader_ok self"
  obtains r self' where "m self = Some (r, self')" "reader_ok self'" "reader_step self self'"
  using assms by (fastforce simp: reads_ok_def split: option.splits)

lemma reads_okD2:
  assumes "reads_ok m" "reader_ok self" "m self = Some (r, self')"
  shows "reader_ok self'" "reader_step self self'"
  using assms by (fastforce simp: reads_ok_def)+

lemma reads_ok_ex:
  "reads_ok m \<Longrightarrow> reader_ok self \<Longrightarrow> \<exists>r self'. m self = Some (r, self') \<and> reader_ok self' \<and> reader_step self self'"
  by (elim reads_okD) auto

lemma reads_okI:
  assumes "\<And>self. reader_ok self \<Longrightarrow> \<exists>r self'. m self = Some (r, self') \<and> reader_ok self' \<and> reader_step self self'"
  shows "reads_ok m"
  using assms by (force simp: reads_ok_def)

named_theorems reading \<comment> \<open>the readers keep \<open>reader_ok\<close>\<close>

lemma reads_ok_return [reading]: "reads_ok (return x)"
  by (simp add: reads_ok_def)

lemma reads_ok_throw [reading]: "reads_ok (throw e)"
  by (simp add: reads_ok_def)

lemma reads_ok_liftSum [reading]: "reads_ok (liftSum r)"
  by (simp add: reads_ok_def)

lemma reads_ok_tryIn [reading]:
  assumes "reads_ok m" "\<And>x. reads_ok (f x)"
  shows "reads_ok (tryIn m f)"
proof (rule reads_okI)
  fix self
  assume ok: "reader_ok self"
  obtain r s where m: "m self = Some (r, s)" "reader_ok s" "reader_step self s"
    using reads_okD [OF assms(1) ok] .
  show "\<exists>r self'. tryIn m f self = Some (r, self') \<and> reader_ok self' \<and> reader_step self self'"
  proof (cases r)
    case (Inr x)
    obtain r' s' where "f x s = Some (r', s')" "reader_ok s'" "reader_step s s'"
      using reads_okD [OF assms(2) m(2)] .
    then show ?thesis using m Inr reader_step_trans [OF m(3)] by (simp add: tryIn_Inr)
  qed (use m in \<open>auto simp: tryIn_def\<close>)
qed

lemma reads_ok_if [reading]: "reads_ok m \<Longrightarrow> reads_ok m' \<Longrightarrow> reads_ok (if b then m else m')"
  by simp

lemma reads_ok_readByte [reading]: "reads_ok readByte"
  by (rule reads_okI) (auto simp: readByte_def reader_ok_def reader_step_def)

lemma readVarintAt_step:
  assumes "i \<le> length bs" "readVarintAt bs i = (r, j)"
  shows "i \<le> j" "j \<le> length bs" "\<And>v. r = Inr v \<Longrightarrow> i < j \<and> j \<le> i + 10"
proof -
  obtain p n where p: "varint_parse 0 (drop i bs) = (p, n)" by fastforce
  have "n \<le> length bs - i" using varint_parse_progress [OF p] by simp
  moreover have "j = i + n" using assms(2) p by (auto simp: readVarintAt_refines split: sum.splits)
  moreover have "1 \<le> n \<and> n \<le> 10" if "r = Inr v" for v
    using that assms(2) p varint_parse_used [of 0 "drop i bs"]
    by (auto simp: readVarintAt_refines split: sum.splits)
  ultimately show "i \<le> j" "j \<le> length bs" "\<And>v. r = Inr v \<Longrightarrow> i < j \<and> j \<le> i + 10"
    using assms(1) by auto
qed

lemma reads_ok_readVarint [reading]: "reads_ok readVarint"
proof (rule reads_okI)
  fix self
  assume ok: "reader_ok self"
  obtain r j where "readVarintAt (input self) (index self) = (r, j)" by fastforce
  then show "\<exists>r self'. readVarint self = Some (r, self') \<and> reader_ok self' \<and> reader_step self self'"
    using ok readVarintAt_step [of "index self" "input self" r j]
    by (auto simp: readVarint_def reader_ok_def reader_step_def)
qed

lemma reads_ok_checkedAvailable_then:
  assumes "\<And>m self. reader_ok self \<Longrightarrow> n \<le> length (input self) - index self \<Longrightarrow>
      \<exists>r self'. f n self = Some (r, self') \<and> reader_ok self' \<and> reader_step self self'"
  shows "reads_ok (tryIn (checkedAvailable n) f)"
  by (rule reads_okI)
    (use assms in \<open>auto simp: tryIn_def checkedAvailable_def available_def reader_ok_def not_less\<close>)

lemma reads_ok_advance [reading]: "reads_ok (tryIn (checkedAvailable n) advance)"
  by (rule reads_ok_checkedAvailable_then) (auto simp: advance_def reader_ok_def reader_step_def)

lemma reads_ok_take [reading]:
  "reads_ok (tryIn (checkedAvailable n) (\<lambda>_ self.
     let start = index self in Some (Inr (g start self), self\<lparr>index := start + n\<rparr>)))"
  by (rule reads_ok_checkedAvailable_then) (auto simp: Let_def reader_ok_def reader_step_def)

lemma reads_ok_scalars [reading]:
  "reads_ok readUInt32" "reads_ok readUInt64" "reads_ok readInt32" "reads_ok readInt64"
  "reads_ok readSInt32" "reads_ok readSInt64" "reads_ok readBool"
  unfolding readUInt32_def readUInt64_def readInt32_def readInt64_def readSInt32_def readSInt64_def readBool_def
  by (intro reading)+

lemma reads_ok_readRawLittle [reading]: "reads_ok (readRawLittle :: 'a::len word reading)"
  unfolding readRawLittle_def by (simp only: Let_def [of "sizeOf _"]) (rule reads_ok_take)

lemma reads_ok_fixed [reading]:
  "reads_ok readFixed32" "reads_ok readSFixed32" "reads_ok readFixed64" "reads_ok readSFixed64"
  "reads_ok readFloat" "reads_ok readDouble"
  unfolding readFixed32_def readSFixed32_def readFixed64_def readSFixed64_def readFloat_def readDouble_def
  by (intro reading)+

lemma reads_ok_readBytes [reading]: "reads_ok readBytes"
proof (rule reads_okI)
  fix self
  assume ok: "reader_ok self"
  show "\<exists>r self'. readBytes self = Some (r, self') \<and> reader_ok self' \<and> reader_step self self'"
  proof (cases "index self < length (input self)")
    case True
    have "\<exists>r self'. readLength self = Some (r, self') \<and> reader_ok self' \<and> reader_step self self'"
    proof (cases "input self ! index self < 0x80")
      case False
      have "reads_ok (tryIn readVarint (\<lambda>len64. if unat len64 > usize_max then throw Overflow else return (unat len64)))"
        by (intro reading)
      from reads_ok_ex [OF this ok] show ?thesis using False by (auto simp: readLength_def Let_def)
    qed (use True ok in \<open>auto simp: readLength_def reader_ok_def reader_step_def\<close>)
    then obtain r s where l: "readLength self = Some (r, s)" "reader_ok s" "reader_step self s" by blast
    show ?thesis
    proof (cases r)
      case (Inr n)
      from reads_ok_ex [OF reads_ok_take l(2), of n "\<lambda>start self. take n (drop start (input self))"] l Inr True
      show ?thesis using reader_step_trans [OF l(3)]
        by (auto simp: readBytes_def tryIn_Inr Let_def)
    qed (use l True in \<open>auto simp: readBytes_def tryIn_def\<close>)
  qed (use ok in \<open>auto simp: readBytes_def\<close>)
qed

lemma reads_ok_nextTag [reading]: "reads_ok nextTag"
proof (rule reads_okI)
  fix self
  assume ok: "reader_ok self"
  then have ok': "reader_ok (self\<lparr>last_tag_start := index self\<rparr>)" by (simp add: reader_ok_def)
  obtain r s where v: "readVarint (self\<lparr>last_tag_start := index self\<rparr>) = Some (r, s)"
    "reader_ok s" "reader_step (self\<lparr>last_tag_start := index self\<rparr>) s"
    using reads_okD [OF reads_ok_readVarint ok'] .
  then have st: "reader_step self s" by (simp add: reader_step_def)
  show "\<exists>r self'. nextTag self = Some (r, self') \<and> reader_ok self' \<and> reader_step self self'"
    using ok v(1,2) st
    by (cases r; cases "tag_decode (projr r)") (auto simp: nextTag_def Let_def tryIn_def)
qed

section \<open>Skipping always returns\<close>

definition returns_ok :: "(('e + 'a) \<times> reader) option \<Rightarrow> reader \<Rightarrow> bool" where
  "returns_ok x self \<longleftrightarrow> (\<exists>r self'. x = Some (r, self') \<and> reader_ok self' \<and> reader_step self self')"

lemma returns_ok_reads: "reads_ok m \<Longrightarrow> reader_ok self \<Longrightarrow> returns_ok (m self) self"
  unfolding returns_ok_def by (rule reads_ok_ex)

lemma returns_ok_tryIn:
  assumes "returns_ok (m self) self"
    and "\<And>x s. m self = Some (Inr x, s) \<Longrightarrow> reader_ok s \<Longrightarrow> reader_step self s \<Longrightarrow> returns_ok (f x s) s"
  shows "returns_ok (tryIn m f self) self"
proof -
  obtain r s where m: "m self = Some (r, s)" "reader_ok s" "reader_step self s"
    using assms(1) by (auto simp: returns_ok_def)
  show ?thesis
  proof (cases r)
    case (Inr x)
    then show ?thesis using m assms(2) [of x s] reader_step_trans [OF m(3)] by (auto simp: tryIn_def returns_ok_def)
  qed (use m in \<open>auto simp: tryIn_def returns_ok_def\<close>)
qed

text \<open>A method run one recursion level deeper, the level given back on the way out.\<close>

lemma enter_leave:
  assumes "reader_ok self"
    and "\<And>s. reader_ok s \<Longrightarrow> s = self\<lparr>recursion_depth := recursion_depth self + 1\<rparr> \<Longrightarrow>
      recursion_depth self < recursion_limit self \<Longrightarrow> returns_ok (m s) s"
  shows "returns_ok (tryIn enterRecursion (\<lambda>_. deferring leaveRecursion m) self) self"
proof (cases "recursion_depth self < recursion_limit self")
  case True
  let ?s = "self\<lparr>recursion_depth := recursion_depth self + 1\<rparr>"
  have d: "unat (recursion_depth self + 1) = unat (recursion_depth self) + 1"
    using True unat_bound [of "recursion_limit self"]
    by (simp add: word_less_nat_alt unat_word_ariths)
  then have "recursion_depth self + 1 \<le> recursion_limit self"
    using True by (simp add: word_le_nat_alt word_less_nat_alt)
  then have ok: "reader_ok ?s" using assms(1) by (simp add: reader_ok_def)
  obtain r s' where m: "m ?s = Some (r, s')" "reader_ok s'" "reader_step ?s s'"
    using assms(2) [OF ok refl True] by (auto simp: returns_ok_def)
  have "recursion_depth s' = recursion_depth self + 1" using m(3) by (simp add: reader_step_def)
  moreover have "recursion_depth self + 1 \<noteq> 0" using d by (metis Suc_eq_plus1 nat.distinct(1) unat_0)
  ultimately show ?thesis using True m assms(1)
    by (auto simp: enterRecursion_def deferring_def leaveRecursion_def tryIn_def returns_ok_def
        reader_ok_def reader_step_def not_le)
qed (use assms(1) in \<open>auto simp: enterRecursion_def tryIn_def returns_ok_def\<close>)

definition rest_length :: "reader \<Rightarrow> nat" where
  "rest_length self = length (input self) - index self"

lemma nextTag_progress:
  assumes "reader_ok self" "nextTag self = Some (Inr (Some t), s)"
  shows "rest_length s < rest_length self" "last_tag_start s = index self" "index self < index s" "index s \<le> index self + 5"
proof -
  obtain r j where v: "readVarintAt (input self) (index self) = (r, j)" by fastforce
  have "\<exists>v. r = Inr v" "s = self\<lparr>last_tag_start := index self, index := j\<rparr>" "\<not> eof self" "j - index self \<le> 5"
    using assms(2) v
    by (auto simp: nextTag_def readVarint_def Let_def tryIn_def split: if_splits sum.splits)
  then show "rest_length s < rest_length self" "last_tag_start s = index self" "index self < index s" "index s \<le> index self + 5"
    using assms(1) readVarintAt_step [OF _ v]
    by (auto simp: reader_ok_def rest_length_def eof_def)
qed

lemma skipValueF_ok:
  assumes "reader_ok self"
    and "\<And>fuel' s. fuel = Suc fuel' \<Longrightarrow> reader_ok s \<Longrightarrow> rest_length s = rest_length self \<Longrightarrow> returns_ok (skipLoopF fuel' (number t) s) s"
    and "tag_type t = StartGroup \<Longrightarrow> 0 < fuel"
  shows "returns_ok (skipValueF fuel t self) self"
proof (cases "tag_type t")
  case StartGroup
  then obtain fuel' where "fuel = Suc fuel'" using assms(3) by (cases fuel) auto
  moreover have "returns_ok (skipGroupF fuel' (number t) self) self"
    using assms(1) unfolding skipGroupF.simps
    by (rule enter_leave) (rule assms(2); simp add: \<open>fuel = Suc fuel'\<close> rest_length_def)
  ultimately show ?thesis using StartGroup by (subst skipValueF.simps) simp
qed (use assms(1) in \<open>auto intro!: returns_ok_reads reading simp: skipValueF.simps simp del: throw_apply return_apply\<close>)

lemma skipLoopF_ok:
  "reader_ok self \<Longrightarrow> 2 * rest_length self + 1 \<le> fuel \<Longrightarrow> returns_ok (skipLoopF fuel num self) self"
proof (induction fuel arbitrary: self num rule: less_induct)
  case (less fuel)
  then obtain fuel' where f: "fuel = Suc fuel'" by (cases fuel) auto
  have "returns_ok (tryIn nextTag (\<lambda>t. case t of
         None \<Rightarrow> throw TruncatedInput
       | Some t \<Rightarrow>
           if tag_type t = EndGroup
           then (if number t \<noteq> num then throw InvalidFieldNumber else return ())
           else tryIn (skipValueF fuel' t) (\<lambda>_. skipLoopF fuel' num)) self) self"
  proof (rule returns_ok_tryIn, goal_cases)
    case 1
    then show ?case using less.prems(1) by (intro returns_ok_reads reading)
  next
    case (2 x s)
    have triv: "returns_ok (Some (r, s)) s" for r :: "wire_error + unit"
      using 2(2) by (auto simp: returns_ok_def)
    show ?case
    proof (cases x)
      case (Some t)
      have lt: "rest_length s < rest_length self" using nextTag_progress(1) less.prems(1) 2(1) Some by simp
      have v: "returns_ok (skipValueF fuel' t s) s"
      proof (rule skipValueF_ok [OF 2(2)], goal_cases)
        case (1 fuel'' s')
        then show ?case using lt less.prems(2) f by (intro less.IH) auto
      qed (use lt less.prems(2) f in auto)
      have "returns_ok (tryIn (skipValueF fuel' t) (\<lambda>_. skipLoopF fuel' num) s) s"
      proof (rule returns_ok_tryIn [of "skipValueF fuel' t", OF v], goal_cases)
        case (1 u s')
        then have "rest_length s' \<le> rest_length s" by (auto simp: reader_step_def rest_length_def)
        then show ?case using lt less.prems(2) f 1(2) by (intro less.IH) auto
      qed
      then show ?thesis using Some triv by simp
    qed (use triv in simp)
  qed
  then show ?case using f by (subst skipLoopF.simps) simp
qed

lemma skipLoopF_Suc:
  "skipLoopF (Suc fuel) num = tryIn nextTag (\<lambda>t. case t of
         None \<Rightarrow> throw TruncatedInput
       | Some t \<Rightarrow>
           if tag_type t = EndGroup
           then (if number t \<noteq> num then throw InvalidFieldNumber else return ())
           else tryIn (skipValueF fuel t) (\<lambda>_. skipLoopF fuel num))"
  by (subst skipLoopF.simps) simp

lemma skipF_mono_all:
  "(\<forall>t. op_le (skipValueF fuel t) (skipValueF (Suc fuel) t)) \<and>
   (\<forall>num. op_le (skipGroupF fuel num) (skipGroupF (Suc fuel) num)) \<and>
   (\<forall>num. op_le (skipLoopF fuel num) (skipLoopF (Suc fuel) num))"
proof (induction fuel)
  case 0
  have l: "op_le (skipLoopF 0 num) (skipLoopF (Suc 0) num)" for num
    by (subst skipLoopF.simps) (simp add: op_mono del: skipLoopF.simps)
  have "op_le (skipGroupF 0 num) (skipGroupF (Suc 0) num)" for num
    unfolding skipGroupF.simps by (intro op_mono l)
  moreover have "op_le (skipValueF 0 t) (skipValueF (Suc 0) t)" for t
    by (cases "tag_type t") (simp_all add: op_mono skipValueF.simps del: skipLoopF.simps skipGroupF.simps)
  ultimately show ?case using l by blast
next
  case (Suc fuel)
  then have v: "op_le (skipValueF (Suc fuel) t) (skipValueF (Suc (Suc fuel)) t)" for t
    by (cases "tag_type t") (simp_all add: op_mono skipValueF.simps del: skipLoopF.simps skipGroupF.simps)
  have l: "op_le (skipLoopF (Suc fuel) num) (skipLoopF (Suc (Suc fuel)) num)" for num
    using Suc by (subst skipLoopF_Suc, subst skipLoopF_Suc) (intro op_mono; blast)
  have "op_le (skipGroupF (Suc fuel) num) (skipGroupF (Suc (Suc fuel)) num)" for num
    unfolding skipGroupF.simps by (intro op_mono l)
  with v l show ?case by blast
qed

lemmas skipF_mono = skipF_mono_all [THEN conjunct1, rule_format] skipF_mono_all [THEN conjunct2, THEN conjunct1, rule_format]
  skipF_mono_all [THEN conjunct2, THEN conjunct2, rule_format]

lemma skipF_mono_le:
  assumes "fuel \<le> fuel'"
  shows "skipValueF fuel t self = Some x \<Longrightarrow> skipValueF fuel' t self = Some x"
    and "skipLoopF fuel num self = Some x \<Longrightarrow> skipLoopF fuel' num self = Some x"
    and "skipGroupF fuel num self = Some x \<Longrightarrow> skipGroupF fuel' num self = Some x"
  using assms by (induction rule: dec_induct) (auto dest: op_leD [OF skipF_mono(1)] op_leD [OF skipF_mono(2)] op_leD [OF skipF_mono(3)] simp del: skipValueF.simps skipLoopF.simps skipGroupF.simps)

section \<open>The equations of the code, without fuel\<close>

lemma skip_fuel_rest: "skip_fuel self = 2 * rest_length self + 2"
  by (simp add: skip_fuel_def rest_length_def)

lemma skipLoopF_fuel: "reader_ok self \<Longrightarrow> 2 * rest_length self + 1 \<le> fuel \<Longrightarrow> skipLoopF fuel num self = skipLoop num self"
  using skipLoopF_ok [of self fuel num] skipLoopF_ok [of self "skip_fuel self" num]
    skipF_mono_le(2) [of fuel "max fuel (skip_fuel self)" num self] skipF_mono_le(2) [of "skip_fuel self" "max fuel (skip_fuel self)" num self]
  unfolding skipLoop_def returns_ok_def skip_fuel_rest
  by (metis le_add1 max.cobounded1 max.cobounded2 nat_add_left_cancel_le one_le_numeral)

lemma skipValueF_returns: "reader_ok self \<Longrightarrow> 2 * rest_length self + 2 \<le> fuel \<Longrightarrow> returns_ok (skipValueF fuel t self) self"
  by (rule skipValueF_ok) (auto intro: skipLoopF_ok)

lemma skipValueF_fuel: "reader_ok self \<Longrightarrow> 2 * rest_length self + 2 \<le> fuel \<Longrightarrow> skipValueF fuel t self = skipValue t self"
  using skipValueF_returns [of self fuel t] skipValueF_returns [of self "skip_fuel self" t]
    skipF_mono_le(1) [of fuel "max fuel (skip_fuel self)" t self] skipF_mono_le(1) [of "skip_fuel self" "max fuel (skip_fuel self)" t self]
  unfolding skipValue_def returns_ok_def skip_fuel_rest
  by (metis le_refl max.cobounded1 max.cobounded2)

lemma skipLoop_returns: "reader_ok self \<Longrightarrow> returns_ok (skipLoop num self) self"
  unfolding skipLoop_def by (rule skipLoopF_ok) (auto simp: skip_fuel_rest)

lemma skipValue_returns: "reader_ok self \<Longrightarrow> returns_ok (skipValue t self) self"
  unfolding skipValue_def by (rule skipValueF_returns) (auto simp: skip_fuel_rest)

lemma reads_ok_skip [reading]: "reads_ok (skipValue t)" "reads_ok (skipLoop num)"
  by (rule reads_okI, use skipValue_returns in \<open>simp add: returns_ok_def\<close>)
    (rule reads_okI, use skipLoop_returns in \<open>simp add: returns_ok_def\<close>)

lemma skipGroup_eq:
  assumes "reader_ok self"
  shows "skipGroup num self = tryIn enterRecursion (\<lambda>_. deferring leaveRecursion (skipLoop num)) self"
  unfolding skipGroup_def skipGroupF.simps
proof (rule tryIn_cong_at)
  fix s x
  assume "enterRecursion self = Some (Inr x, s)"
  then have "rest_length s = rest_length self" "skip_fuel s = skip_fuel self"
    by (auto simp: enterRecursion_def rest_length_def skip_fuel_def split: if_splits)
  then show "deferring leaveRecursion (skipLoopF (skip_fuel self) num) s = deferring leaveRecursion (skipLoop num) s"
    by (simp add: deferring_def skipLoop_def)
qed simp

lemma skipValue_eq:
  assumes "reader_ok self"
  shows "skipValue t self = (case tag_type t of
       Varint \<Rightarrow> tryIn readVarint (\<lambda>_. return ())
     | Fixed64 \<Rightarrow> tryIn (checkedAvailable 8) advance
     | LengthDelimited \<Rightarrow> tryIn readBytes (\<lambda>_. return ())
     | Fixed32 \<Rightarrow> tryIn (checkedAvailable 4) advance
     | StartGroup \<Rightarrow> skipGroup (number t)
     | EndGroup \<Rightarrow> throw UnsupportedWireType) self"
proof (cases "tag_type t")
  case StartGroup
  have "skipValueF (Suc (skip_fuel self)) t self = skipValue t self"
    using assms by (intro skipValueF_fuel) (auto simp: skip_fuel_rest)
  then show ?thesis
    using StartGroup by (simp add: skipGroup_def skipValueF.simps del: skipGroupF.simps)
qed (simp_all add: skipValue_def skipValueF.simps)

lemma skipLoop_eq:
  assumes "reader_ok self"
  shows "skipLoop num self = tryIn nextTag (\<lambda>t. case t of
         None \<Rightarrow> throw TruncatedInput
       | Some t \<Rightarrow>
           if tag_type t = EndGroup
           then (if number t \<noteq> num then throw InvalidFieldNumber else return ())
           else tryIn (skipValue t) (\<lambda>_. skipLoop num)) self"
proof -
  have "skipLoop num self = skipLoopF (Suc (skip_fuel self)) num self"
    using assms by (intro skipLoopF_fuel [symmetric]) (auto simp: skip_fuel_rest)
  also have "\<dots> = tryIn nextTag (\<lambda>t. case t of
         None \<Rightarrow> throw TruncatedInput
       | Some t \<Rightarrow>
           if tag_type t = EndGroup
           then (if number t \<noteq> num then throw InvalidFieldNumber else return ())
           else tryIn (skipValue t) (\<lambda>_. skipLoop num)) self"
    unfolding skipLoopF_Suc
  proof (rule tryIn_cong_at, simp, goal_cases)
    case (1 x s)
    have s: "reader_ok s" "reader_step self s"
      using reads_okD2 [OF reads_ok_nextTag assms 1] .
    then have r: "rest_length s \<le> rest_length self" by (auto simp: reader_step_def rest_length_def)
    have "tryIn (skipValueF (skip_fuel self) t) (\<lambda>_. skipLoopF (skip_fuel self) num) s
        = tryIn (skipValue t) (\<lambda>_. skipLoop num) s" for t
    proof (rule tryIn_cong_at, goal_cases)
      case 1
      show ?case using s r by (intro skipValueF_fuel) (auto simp: skip_fuel_rest)
    next
      case (2 u s')
      then have "skipValue t s = Some (Inr u, s')"
        using skipValueF_fuel [OF s(1), of "skip_fuel self" t] r by (simp add: skip_fuel_rest)
      from reads_okD2 [OF reads_ok_skip(1) s(1) this] r have "reader_ok s'" "rest_length s' \<le> rest_length self"
        by (auto simp: reader_step_def rest_length_def)
      then show ?case by (intro skipLoopF_fuel) (auto simp: skip_fuel_rest)
    qed
    then show ?case by (auto split: option.splits)
  qed
  finally show ?thesis .
qed

lemma reads_ok_skipGroup [reading]: "reads_ok (skipGroup num)"
proof (rule reads_okI)
  fix self assume ok: "reader_ok self"
  have "returns_ok (tryIn enterRecursion (\<lambda>_. deferring leaveRecursion (skipLoop num)) self) self"
    using ok by (rule enter_leave) (rule skipLoop_returns)
  then show "\<exists>r self'. skipGroup num self = Some (r, self') \<and> reader_ok self' \<and> reader_step self self'"
    by (simp add: skipGroup_eq ok returns_ok_def)
qed

section \<open>What a successful read consumes\<close>

definition rest_of :: "reader \<Rightarrow> bytes" where
  "rest_of self = drop (index self) (input self)"

lemma rest_of_at: "reader_ok self \<Longrightarrow> rest_of self = bs @ rest \<Longrightarrow> reader_ok (self\<lparr>index := index self + length bs\<rparr>)"
  by (auto simp: rest_of_def reader_ok_def dest: arg_cong [of _ _ length])

lemma rest_of_advance [simp]:
  "rest_of self = bs @ rest \<Longrightarrow> rest_of (self\<lparr>index := index self + length bs\<rparr>) = rest"
  by (simp add: rest_of_def add.commute flip: drop_drop)

lemma rest_of_more [simp]:
  "rest_of (self\<lparr>last_tag_start := n\<rparr>) = rest_of self" "rest_of (self\<lparr>recursion_depth := d\<rparr>) = rest_of self"
  "rest_of (self\<lparr>index := i, last_tag_start := n\<rparr>) = rest_of (self\<lparr>index := i\<rparr>)"
  by (simp_all add: rest_of_def)

lemma varint_parse_append:
  "varint_parse k bs = (Inr v, n) \<Longrightarrow> varint_parse k (bs @ rest) = (Inr v, n)"
  by (induction k bs arbitrary: v n rule: varint_parse.induct) (auto split: if_splits prod.splits sum.splits)

lemma varint_parse_take:
  "varint_parse k bs = (Inr v, n) \<Longrightarrow> varint_parse k (take n bs) = (Inr v, n)"
proof (induction k bs arbitrary: v n rule: varint_parse.induct)
  case (2 k b bs)
  then show ?case by (cases n) (auto split: if_splits prod.splits sum.splits)
qed simp

lemma varint_parse_min: "varint_parse k bs = (Inr v, n) \<Longrightarrow> length (varint_enc v) \<le> n"
proof (induction k bs arbitrary: v n rule: varint_parse.induct)
  case (2 k b bs)
  show ?case
  proof (cases "unat b < 128")
    case True
    then have "v = unat b" "n = 1" using "2.prems" by (auto split: if_splits)
    then show ?thesis using True by (subst varint_enc.simps) simp
  next
    case False
    then obtain w m where w: "k \<noteq> 9" "varint_parse (k + 1) bs = (Inr w, m)"
      "v = unat b mod 128 + 128 * w" "n = m + 1"
      using "2.prems" by (auto split: if_splits prod.splits sum.splits)
    then have "length (varint_enc w) \<le> m" using "2.IH" False by blast
    moreover have "v div 128 = w" using w(3) by simp
    ultimately show ?thesis using w(4) by (subst varint_enc.simps) auto
  qed
qed simp

text \<open>\<open>varint_bytes bs v\<close>: the bytes \<open>bs\<close> are one varint, of value \<open>v\<close>, minimal or not.\<close>

definition varint_bytes :: "bytes \<Rightarrow> nat \<Rightarrow> bool" where
  "varint_bytes bs v \<longleftrightarrow> varint_parse 0 bs = (Inr v, length bs)"

lemma varint_bytes_enc: "n < 2 ^ 64 \<Longrightarrow> varint_bytes (varint_enc n) n"
  using varint_parse_enc [of 0 n "[]"] by (simp add: varint_bytes_def)

lemma readVarint_iff:
  assumes "reader_ok self"
  shows "readVarint self = Some (Inr v, s) \<longleftrightarrow>
    (\<exists>bs rest. rest_of self = bs @ rest \<and> varint_bytes bs (unat v) \<and> s = self\<lparr>index := index self + length bs\<rparr>)"
    (is "?l \<longleftrightarrow> ?r")
proof
  assume ?l
  then obtain w n where w: "varint_parse 0 (rest_of self) = (Inr w, n)" "v = of_nat w"
    "s = self\<lparr>index := index self + n\<rparr>"
    by (auto simp: readVarint_def readVarintAt_refines rest_of_def split: prod.splits sum.splits)
  have "w < 2 ^ 64" using varint_parse_bound [OF w(1)] by simp
  then have "unat v = w" using w(2) by (simp add: unat_of_nat)
  moreover have "n \<le> length (rest_of self)" using varint_parse_progress [OF w(1)] .
  ultimately show ?r
    using w varint_parse_take [OF w(1)]
    by (intro exI [of _ "take n (rest_of self)"] exI [of _ "drop n (rest_of self)"]) (simp add: varint_bytes_def)
next
  assume ?r
  then obtain bs rest where r: "rest_of self = bs @ rest" "varint_parse 0 bs = (Inr (unat v), length bs)"
    "s = self\<lparr>index := index self + length bs\<rparr>"
    unfolding varint_bytes_def by blast
  then have "varint_parse 0 (drop (index self) (input self)) = (Inr (unat v), length bs)"
    using varint_parse_append [OF r(2)] by (simp add: rest_of_def)
  then show ?l using r(3) by (simp add: readVarint_def readVarintAt_refines)
qed

text \<open>\<open>tag_bytes bs t\<close>: the bytes \<open>bs\<close>, at most five of them, are the varint of a valid tag.\<close>

definition tag_bytes :: "bytes \<Rightarrow> tag \<Rightarrow> bool" where
  "tag_bytes bs t \<longleftrightarrow> length bs \<le> 5 \<and> number t \<noteq> 0 \<and> varint_bytes bs (unat (number t) * 8 + intFromEnum (tag_type t))"

lemma varint_bytes_unat: "varint_bytes bs v \<Longrightarrow> unat (of_nat v :: u64) = v"
  using varint_parse_bound [of 0 bs v "length bs"] by (simp add: varint_bytes_def unat_of_nat)

lemma varint_bytes_not_Nil: "varint_bytes bs v \<Longrightarrow> bs \<noteq> []"
  by (auto simp: varint_bytes_def)

lemma nextTag_iff:
  assumes "reader_ok self"
  shows "nextTag self = Some (Inr (Some t), s) \<longleftrightarrow>
    (\<exists>bs rest. rest_of self = bs @ rest \<and> tag_bytes bs t \<and>
       s = self\<lparr>index := index self + length bs, last_tag_start := index self\<rparr>)" (is "?l \<longleftrightarrow> ?r")
proof -
  let ?self = "self\<lparr>last_tag_start := index self\<rparr>"
  have ok: "reader_ok ?self" using assms by (simp add: reader_ok_def)
  note v = readVarint_iff [OF ok]
  show ?thesis
  proof
    assume ?l
    then obtain raw where "readVarint ?self = Some (Inr raw, s)" "index s - index self \<le> 5" "tag_decode raw = Inr t"
      by (auto simp: nextTag_def Let_def tryIn_Some split: if_splits sum.splits)
    then show ?r by (auto simp: v tag_bytes_def tag_decode_Inr)
  next
    assume ?r
    then obtain bs rest where r: "rest_of self = bs @ rest" "tag_bytes bs t"
      "s = self\<lparr>index := index self + length bs, last_tag_start := index self\<rparr>" by blast
    let ?v = "unat (number t) * 8 + intFromEnum (tag_type t)"
    have vb: "varint_bytes bs ?v" using r(2) by (simp add: tag_bytes_def)
    then have "readVarint ?self = Some (Inr (of_nat ?v), s)"
      using r by (auto simp: v varint_bytes_unat simp del: of_nat_add of_nat_mult)
    moreover have "tag_decode (of_nat ?v) = Inr t"
      using r(2) varint_bytes_unat [OF vb] by (simp add: tag_bytes_def tag_decode_Inr del: of_nat_add of_nat_mult)
    moreover have "\<not> eof self"
      using r(1) varint_bytes_not_Nil [OF vb] by (auto simp: eof_def rest_of_def)
    ultimately show ?l
      using r by (simp add: nextTag_def Let_def tryIn_Inr tag_bytes_def del: of_nat_add of_nat_mult)
  qed
qed

lemma nextTag_None:
  assumes "reader_ok self"
  shows "nextTag self = Some (Inr None, s) \<longleftrightarrow> rest_of self = [] \<and> s = self"
  by (auto simp: nextTag_def rest_of_def eof_def Let_def tryIn_Some split: if_splits sum.splits)

text \<open>A length-delimited value: the varint of its length, then as many bytes.\<close>

definition delimited_bytes :: "bytes \<Rightarrow> bytes \<Rightarrow> bool" where
  "delimited_bytes bs payload \<longleftrightarrow> (\<exists>l. bs = l @ payload \<and> varint_bytes l (length payload))"

lemma readLength_varint:
  assumes "reader_ok self" "index self < length (input self)"
  shows "readLength self = Some (Inr n, s) \<longleftrightarrow>
    (\<exists>bs rest. rest_of self = bs @ rest \<and> varint_bytes bs n \<and> s = self\<lparr>index := index self + length bs\<rparr>)"
proof -
  have v: "readLength self = Some (Inr n, s) \<longleftrightarrow> (\<exists>v. readVarint self = Some (Inr v, s) \<and> n = unat v)"
  proof (cases "input self ! index self < 0x80")
    case True
    obtain c where c: "rest_of self = input self ! index self # c"
      using assms(2) by (metis Cons_nth_drop_Suc rest_of_def)
    have "unat (input self ! index self) < 128" using True by (simp add: byte_less_128)
    then have "readVarint self = Some (Inr (ucast (input self ! index self)), self\<lparr>index := index self + 1\<rparr>)"
      using c by (simp add: readVarint_def readVarintAt_refines rest_of_def)
    moreover have "unat (ucast (input self ! index self) :: u64) = unat (input self ! index self)"
      by (rule unat_ucast_byte) simp
    ultimately show ?thesis using True by (auto simp: readLength_def)
  next
    case False
    have "\<not> unat (v :: u64) > usize_max" for v
      using unat_bound [of v] by (simp add: usize_max_def)
    then show ?thesis using False by (auto simp: readLength_def Let_def tryIn_Some)
  qed
  show ?thesis
    unfolding v readVarint_iff [OF assms(1)]
    by (metis varint_bytes_unat)
qed

lemma readBytes_iff:
  assumes "reader_ok self"
  shows "readBytes self = Some (Inr payload, s) \<longleftrightarrow>
    (\<exists>bs rest. rest_of self = bs @ rest \<and> delimited_bytes bs payload \<and> s = self\<lparr>index := index self + length bs\<rparr>)"
    (is "?l \<longleftrightarrow> ?r")
proof
  assume ?l
  then have i: "index self < length (input self)" by (auto simp: readBytes_def split: if_splits)
  from \<open>?l\<close> i obtain n s' where l: "readLength self = Some (Inr n, s')"
    and c: "tryIn (checkedAvailable n) (\<lambda>_ self. let start = index self in
         Some (Inr (take n (drop start (input self))), self\<lparr>index := start + n\<rparr>)) s' = Some (Inr payload, s)"
    by (auto simp: readBytes_def tryIn_Some)
  obtain bs rest where b: "rest_of self = bs @ rest" "varint_bytes bs n" "s' = self\<lparr>index := index self + length bs\<rparr>"
    using l readLength_varint [OF assms i] by blast
  have r: "rest_of s' = rest" using b by simp
  have "n \<le> length rest" "payload = take n rest" "s = s'\<lparr>index := index s' + n\<rparr>"
    using c r by (auto simp: tryIn_def checkedAvailable_def available_def rest_of_def split: if_splits)
  then show ?r
    using b by (intro exI [of _ "bs @ payload"] exI [of _ "drop n rest"]) (auto simp: delimited_bytes_def)
next
  assume ?r
  then obtain l rest where b: "rest_of self = l @ payload @ rest" "varint_bytes l (length payload)"
    "s = self\<lparr>index := index self + length (l @ payload)\<rparr>"
    by (auto simp: delimited_bytes_def)
  have i: "index self < length (input self)"
    using b(1) varint_bytes_not_Nil [OF b(2)] by (cases "index self < length (input self)") (auto simp: rest_of_def)
  let ?s = "self\<lparr>index := index self + length l\<rparr>"
  have "readLength self = Some (Inr (length payload), ?s)"
    using readLength_varint [OF assms i] b by blast
  moreover have "rest_of ?s = payload @ rest" using b(1) by simp
  moreover have "reader_ok ?s" using rest_of_at [OF assms b(1)] .
  ultimately show ?l
    using i b(3) by (auto simp: readBytes_def tryIn_Inr tryIn_def checkedAvailable_def available_def rest_of_def reader_ok_def
        dest: arg_cong [of _ _ length])
qed

lemma checkedAvailable_advance_iff:
  assumes "reader_ok self"
  shows "tryIn (checkedAvailable n) advance self = Some (Inr u, s) \<longleftrightarrow>
    (\<exists>bs rest. rest_of self = bs @ rest \<and> length bs = n \<and> s = self\<lparr>index := index self + length bs\<rparr>)"
    (is "?l \<longleftrightarrow> ?r")
proof
  assume ?l
  then have "n \<le> length (rest_of self)" "s = self\<lparr>index := index self + n\<rparr>"
    using assms by (auto simp: tryIn_def checkedAvailable_def available_def advance_def rest_of_def reader_ok_def split: if_splits)
  then show ?r by (intro exI [of _ "take n (rest_of self)"] exI [of _ "drop n (rest_of self)"]) simp
qed (use assms in \<open>auto simp: tryIn_def checkedAvailable_def available_def advance_def rest_of_def reader_ok_def dest!: arg_cong [of _ _ length]\<close>)

section \<open>The grammar of skipped values\<close>

text \<open>
  \<open>value_bytes d t bs\<close>: \<open>bs\<close> is one value for the tag \<open>t\<close> in which groups nest at most \<open>d\<close>
  deep, and \<open>group_bytes d num bs\<close>: \<open>bs\<close> is a sequence of fields followed by the end tag
  of group \<open>num\<close>.
\<close>

inductive value_bytes :: "nat \<Rightarrow> tag \<Rightarrow> bytes \<Rightarrow> bool"
  and group_bytes :: "nat \<Rightarrow> field_number \<Rightarrow> bytes \<Rightarrow> bool" where
  varint: "tag_type t = Varint \<Longrightarrow> varint_bytes bs v \<Longrightarrow> value_bytes d t bs"
| fixed64: "tag_type t = Fixed64 \<Longrightarrow> length bs = 8 \<Longrightarrow> value_bytes d t bs"
| delimited: "tag_type t = LengthDelimited \<Longrightarrow> delimited_bytes bs payload \<Longrightarrow> value_bytes d t bs"
| fixed32: "tag_type t = Fixed32 \<Longrightarrow> length bs = 4 \<Longrightarrow> value_bytes d t bs"
| group: "tag_type t = StartGroup \<Longrightarrow> group_bytes d (number t) bs \<Longrightarrow> value_bytes (Suc d) t bs"
| endgroup: "tag_bytes bs t \<Longrightarrow> tag_type t = EndGroup \<Longrightarrow> number t = num \<Longrightarrow> group_bytes d num bs"
| field: "tag_bytes tb t \<Longrightarrow> tag_type t \<noteq> EndGroup \<Longrightarrow> value_bytes d t vb \<Longrightarrow> group_bytes d num gb \<Longrightarrow>
    group_bytes d num (tb @ vb @ gb)"

inductive_simps value_bytes_cases: "value_bytes d t bs"
inductive_cases group_bytesE: "group_bytes d num bs"

definition depth_left :: "reader \<Rightarrow> nat" where
  "depth_left self = unat (recursion_limit self) - unat (recursion_depth self)"

text \<open>\<open>skips m self bs\<close>: \<open>m\<close> succeeds on \<open>self\<close> and has then consumed exactly \<open>bs\<close>.\<close>

definition skips :: "unit reading \<Rightarrow> reader \<Rightarrow> bytes \<Rightarrow> bool" where
  "skips m self bs \<longleftrightarrow> (\<exists>rest s. rest_of self = bs @ rest \<and> m self = Some (Inr (), s) \<and> index s = index self + length bs)"

lemma nextTag_at:
  assumes "reader_ok self" "rest_of self = tb @ rest" "tag_bytes tb t"
  obtains s where "nextTag self = Some (Inr (Some t), s)" "reader_ok s" "rest_of s = rest" "depth_left s = depth_left self"
    "input s = input self"
proof
  let ?s = "self\<lparr>index := index self + length tb, last_tag_start := index self\<rparr>"
  show "nextTag self = Some (Inr (Some t), ?s)" using assms nextTag_iff by blast
  show "reader_ok ?s" using assms(1) arg_cong [OF assms(2), of length] by (auto simp: reader_ok_def rest_of_def)
  show "rest_of ?s = rest" "depth_left ?s = depth_left self" "input ?s = input self"
    using assms(2) by (simp_all add: depth_left_def)
qed

lemma skips_state:
  assumes "reads_ok m" "reader_ok self" "m self = Some (Inr (), s)" "rest_of self = bs @ rest" "index s = index self + length bs"
  shows "reader_ok s" "rest_of s = rest" "depth_left s = depth_left self" "input s = input self"
  using reads_okD2 [OF assms(1-3)] assms(4,5)
  by (auto simp: reader_step_def depth_left_def rest_of_def add.commute simp flip: drop_drop)

lemma skips_exists:
  assumes "reads_ok m" "reader_ok self" "m self = Some (Inr (), s)"
  obtains bs rest where "rest_of self = bs @ rest" "index s = index self + length bs" "rest_of s = rest"
proof
  have st: "reader_ok s" "reader_step self s" using reads_okD2 [OF assms(1-3)] .
  let ?n = "index s - index self"
  show "rest_of self = take ?n (rest_of self) @ drop ?n (rest_of self)" by simp
  show "index s = index self + length (take ?n (rest_of self))" "rest_of s = drop ?n (rest_of self)"
    using st by (auto simp: reader_ok_def reader_step_def rest_of_def)
qed

lemma append_same_length: "xs @ ys = xs' @ ys' \<Longrightarrow> length xs = length xs' \<Longrightarrow> xs = xs'"
  by (rule conjunct1 [OF append_eq_append_conv [THEN iffD1]]) auto

text \<open>Soundness: what was skipped is in the grammar.\<close>

lemma skipValue_sound:
  assumes loop: "\<And>s num bs. reader_ok s \<Longrightarrow> rest_length s = rest_length self \<Longrightarrow> skips (skipLoop num) s bs \<Longrightarrow>
      group_bytes (depth_left s) num bs"
    and ok: "reader_ok self" and sk: "skips (skipValue t) self bs"
  shows "value_bytes (depth_left self) t bs"
proof -
  obtain rest s where s: "rest_of self = bs @ rest" "skipValue t self = Some (Inr (), s)" "index s = index self + length bs"
    using sk by (auto simp: skips_def)
  have eq: "bs = bs'" if "rest_of self = bs' @ rest'" "s = self\<lparr>index := index self + length bs'\<rparr>" for bs' rest'
    using s(1,3) that by (intro append_same_length [of bs rest bs' rest']) auto
  show ?thesis
  proof (cases "tag_type t")
    case Varint
    then show ?thesis using s(2) eq
      by (auto simp: skipValue_eq [OF ok] tryIn_Some readVarint_iff [OF ok] intro!: value_bytes_group_bytes.varint)
  next
    case Fixed64
    then have "tryIn (checkedAvailable 8) advance self = Some (Inr (), s)" using s(2) by (simp add: skipValue_eq [OF ok])
    then show ?thesis using Fixed64 eq
      by (auto simp: checkedAvailable_advance_iff [OF ok] intro!: value_bytes_group_bytes.fixed64)
  next
    case Fixed32
    then have "tryIn (checkedAvailable 4) advance self = Some (Inr (), s)" using s(2) by (simp add: skipValue_eq [OF ok])
    then show ?thesis using Fixed32 eq
      by (auto simp: checkedAvailable_advance_iff [OF ok] intro!: value_bytes_group_bytes.fixed32)
  next
    case LengthDelimited
    then show ?thesis using s(2) eq
      by (auto simp: skipValue_eq [OF ok] tryIn_Some readBytes_iff [OF ok] intro!: value_bytes_group_bytes.delimited)
  next
    case StartGroup
    let ?e = "self\<lparr>recursion_depth := recursion_depth self + 1\<rparr>"
    have g: "tryIn enterRecursion (\<lambda>_. deferring leaveRecursion (skipLoop (number t))) self = Some (Inr (), s)"
      using StartGroup s(2) by (simp add: skipValue_eq [OF ok] skipGroup_eq [OF ok])
    then have lt: "recursion_depth self < recursion_limit self"
      by (auto simp: enterRecursion_def tryIn_def not_le split: if_splits)
    then have d: "unat (recursion_depth self + 1) = unat (recursion_depth self) + 1"
      using unat_bound [of "recursion_limit self"] by (simp add: word_less_nat_alt unat_word_ariths)
    then have ok': "reader_ok ?e" and dl: "depth_left self = Suc (depth_left ?e)"
      using lt ok by (auto simp: reader_ok_def depth_left_def word_le_nat_alt word_less_nat_alt)
    obtain s' where s': "skipLoop (number t) ?e = Some (Inr (), s')" "index s' = index s"
      using g lt by (auto simp: enterRecursion_def tryIn_def deferring_def leaveRecursion_def split: if_splits option.splits)
    have "skips (skipLoop (number t)) ?e bs"
      using s s' by (auto simp: skips_def rest_of_def)
    then have "group_bytes (depth_left ?e) (number t) bs"
      using ok' by (intro loop) (auto simp: rest_length_def)
    then show ?thesis unfolding dl using StartGroup by (rule value_bytes_group_bytes.group [rotated])
  next
    case EndGroup
    then show ?thesis using s(2) by (simp add: skipValue_eq [OF ok])
  qed
qed

lemma skipLoop_sound:
  "reader_ok self \<Longrightarrow> skips (skipLoop num) self bs \<Longrightarrow> group_bytes (depth_left self) num bs"
proof (induction "rest_length self" arbitrary: self num bs rule: less_induct)
  case less
  obtain rest s where s: "rest_of self = bs @ rest" "skipLoop num self = Some (Inr (), s)" "index s = index self + length bs"
    using less.prems(2) by (auto simp: skips_def)
  obtain t s1 where t: "nextTag self = Some (Inr (Some t), s1)" and
    br: "(if tag_type t = EndGroup then (if number t \<noteq> num then throw InvalidFieldNumber else return ())
           else tryIn (skipValue t) (\<lambda>_. skipLoop num)) s1 = Some (Inr (), s)"
    using s(2) by (auto simp: skipLoop_eq [OF less.prems(1)] tryIn_Some split: option.splits)
  obtain tb r1 where tb: "rest_of self = tb @ r1" "tag_bytes tb t"
    "s1 = self\<lparr>index := index self + length tb, last_tag_start := index self\<rparr>"
    using t nextTag_iff [OF less.prems(1)] by blast
  have ok1: "reader_ok s1" and st1: "reader_step self s1"
    using reads_okD2 [OF reads_ok_nextTag less.prems(1) t] .
  have r1: "rest_of s1 = r1" using tb by simp
  have lt: "rest_length s1 < rest_length self" by (rule nextTag_progress [OF less.prems(1) t])
  have dl: "depth_left s1 = depth_left self" using st1 by (simp add: depth_left_def reader_step_def)
  show ?case
  proof (cases "tag_type t = EndGroup")
    case True
    then have "number t = num" "s = s1" using br by (auto split: if_splits)
    moreover have "bs = tb" using s(1,3) tb \<open>s = s1\<close> by (intro append_same_length [of bs rest tb r1]) auto
    ultimately show ?thesis using True tb(2) by (auto intro: value_bytes_group_bytes.endgroup)
  next
    case False
    then obtain s2 where s2: "skipValue t s1 = Some (Inr (), s2)" "skipLoop num s2 = Some (Inr (), s)"
      using br by (auto simp: tryIn_Some)
    have ok2: "reader_ok s2" and st2: "reader_step s1 s2" using reads_okD2 [OF reads_ok_skip(1) ok1 s2(1)] .
    obtain vb r2 where vb: "rest_of s1 = vb @ r2" "index s2 = index s1 + length vb" "rest_of s2 = r2"
      using skips_exists [OF reads_ok_skip(1) ok1 s2(1)] .
    obtain gb r3 where gb: "rest_of s2 = gb @ r3" "index s = index s2 + length gb" "rest_of s = r3"
      using skips_exists [OF reads_ok_skip(2) ok2 s2(2)] .
    have "value_bytes (depth_left s1) t vb"
      by (rule skipValue_sound [OF _ ok1]) (use less.hyps lt s2(1) vb in \<open>auto simp: skips_def\<close>)
    moreover have "rest_length s2 \<le> rest_length s1" using st2 by (auto simp: reader_step_def rest_length_def)
    then have "group_bytes (depth_left s2) num gb"
      using less.hyps [OF _ ok2, of num gb] lt s2(2) gb by (auto simp: skips_def)
    moreover have "depth_left s2 = depth_left s1" using st2 by (simp add: depth_left_def reader_step_def)
    moreover have "bs = tb @ vb @ gb"
      using s(1,3) tb vb gb r1 by (intro append_same_length [of bs rest "tb @ vb @ gb" r3]) auto
    ultimately show ?thesis
      using False tb(2) dl by (auto intro: value_bytes_group_bytes.field)
  qed
qed

text \<open>Completeness: whatever is in the grammar is skipped.\<close>

lemma skip_complete:
  "value_bytes d t bs \<Longrightarrow> (\<And>self rest. reader_ok self \<Longrightarrow> d \<le> depth_left self \<Longrightarrow> rest_of self = bs @ rest \<Longrightarrow> skips (skipValue t) self bs)"
  "group_bytes d num bs \<Longrightarrow> (\<And>self rest. reader_ok self \<Longrightarrow> d \<le> depth_left self \<Longrightarrow> rest_of self = bs @ rest \<Longrightarrow> skips (skipLoop num) self bs)"
proof (induction rule: value_bytes_group_bytes.inducts)
  case (varint t bs v d)
  let ?s = "self\<lparr>index := index self + length bs\<rparr>"
  have "readVarint self = Some (Inr (of_nat v), ?s)"
    using varint varint_bytes_unat [of bs v] by (auto simp: readVarint_iff)
  then show ?case using varint by (auto simp: skips_def skipValue_eq tryIn_Inr)
next
  case (fixed64 t bs d)
  have "tryIn (checkedAvailable 8) advance self = Some (Inr (), self\<lparr>index := index self + length bs\<rparr>)"
    using fixed64 by (auto simp: checkedAvailable_advance_iff)
  then show ?case using fixed64 by (auto simp: skips_def skipValue_eq)
next
  case (fixed32 t bs d)
  have "tryIn (checkedAvailable 4) advance self = Some (Inr (), self\<lparr>index := index self + length bs\<rparr>)"
    using fixed32 by (auto simp: checkedAvailable_advance_iff)
  then show ?case using fixed32 by (auto simp: skips_def skipValue_eq)
next
  case (delimited t bs payload d)
  have "readBytes self = Some (Inr payload, self\<lparr>index := index self + length bs\<rparr>)"
    using delimited by (auto simp: readBytes_iff)
  then show ?case using delimited by (auto simp: skips_def skipValue_eq tryIn_Inr)
next
  case (group t d bs)
  let ?e = "self\<lparr>recursion_depth := recursion_depth self + 1\<rparr>"
  have lt: "recursion_depth self < recursion_limit self" using group.prems(2) by (auto simp: depth_left_def word_less_nat_alt)
  then have dd: "unat (recursion_depth self + 1) = unat (recursion_depth self) + 1"
    using unat_bound [of "recursion_limit self"] by (simp add: word_less_nat_alt unat_word_ariths)
  then have ok': "reader_ok ?e" and dl: "d \<le> depth_left ?e"
    using lt group.prems by (auto simp: reader_ok_def depth_left_def word_le_nat_alt word_less_nat_alt)
  obtain s where s: "skipLoop (number t) ?e = Some (Inr (), s)" "index s = index self + length bs"
    using group.IH [OF ok' dl, of rest] group.prems(3) by (auto simp: skips_def)
  have "recursion_depth s = recursion_depth self + 1"
    using reads_okD2 [OF reads_ok_skip(2) ok' s(1)] by (simp add: reader_step_def)
  moreover have "recursion_depth self + 1 \<noteq> 0" using dd by (metis Suc_eq_plus1 nat.distinct(1) unat_0)
  ultimately have "skipGroup (number t) self = Some (Inr (), s\<lparr>recursion_depth := recursion_depth s - 1\<rparr>)"
    using s lt group.prems(1) by (auto simp: skipGroup_eq enterRecursion_def tryIn_def deferring_def leaveRecursion_def not_le)
  then show ?case using group s by (auto simp: skips_def skipValue_eq)
next
  case (endgroup bs t num d)
  have "nextTag self = Some (Inr (Some t), self\<lparr>index := index self + length bs, last_tag_start := index self\<rparr>)"
    using endgroup by (auto simp: nextTag_iff)
  then show ?case using endgroup by (auto simp: skips_def skipLoop_eq tryIn_Inr)
next
  case (field tb t d vb num gb)
  let ?s = "self\<lparr>index := index self + length tb, last_tag_start := index self\<rparr>"
  have t: "nextTag self = Some (Inr (Some t), ?s)" using field by (auto simp: nextTag_iff)
  have ok1: "reader_ok ?s" and st1: "reader_step self ?s" using reads_okD2 [OF reads_ok_nextTag field.prems(1) t] .
  have r1: "rest_of ?s = vb @ gb @ rest" using field.prems(3) by simp
  have "skips (skipValue t) ?s vb"
    using field.IH(1) [OF ok1 _ r1] field.prems(2) by (simp add: depth_left_def)
  then obtain s2 where s2: "skipValue t ?s = Some (Inr (), s2)" "index s2 = index ?s + length vb" by (auto simp: skips_def)
  note st2 = skips_state [OF reads_ok_skip(1) ok1 s2(1) r1 s2(2)]
  have "skips (skipLoop num) s2 gb"
    using field.IH(2) [OF st2(1) _ st2(2)] field.prems(2) st2(3) by (simp add: depth_left_def)
  then obtain s3 where "skipLoop num s2 = Some (Inr (), s3)" "index s3 = index s2 + length gb" by (auto simp: skips_def)
  then show ?case
    using field t s2 by (auto simp: skips_def skipLoop_eq [OF field.prems(1)] tryIn_Inr [of nextTag, OF t] tryIn_Inr [of "skipValue t", OF s2(1)])
qed

text \<open>The two directions together: \<open>skipValue\<close> decides the grammar.\<close>

lemma group_bytes_depth:
  "value_bytes d t bs \<Longrightarrow> d \<le> d' \<Longrightarrow> value_bytes d' t bs"
  "group_bytes d num bs \<Longrightarrow> d \<le> d' \<Longrightarrow> group_bytes d' num bs"
proof (induction arbitrary: d' and d' rule: value_bytes_group_bytes.inducts)
  case (group t d bs)
  then show ?case by (cases d') (auto intro: value_bytes_group_bytes.intros)
qed (auto intro: value_bytes_group_bytes.intros)

lemma skips_iff_value_bytes:
  assumes "reader_ok self"
  shows "skips (skipValue t) self bs \<longleftrightarrow> value_bytes (depth_left self) t bs \<and> (\<exists>rest. rest_of self = bs @ rest)"
  using assms skipValue_sound [OF skipLoop_sound] skip_complete(1) [of "depth_left self" t bs self]
  by (auto simp: skips_def)

section \<open>Group contents\<close>

lemma tag_bytes_enc:
  assumes "number t \<noteq> 0"
  shows "tag_bytes (varint_enc (unat (number t) * 8 + intFromEnum (tag_type t))) t"
proof -
  let ?v = "unat (number t) * 8 + intFromEnum (tag_type t)"
  have v: "?v < 2 ^ 32"
    using unat_bound [of "number t"] intFromEnum_less [of "tag_type t"] by simp
  then have "length (varint_enc ?v) \<le> 5" by (intro length_varint_enc_le) auto
  moreover have "varint_bytes (varint_enc ?v) ?v" using v by (intro varint_bytes_enc) simp
  ultimately show ?thesis using assms by (simp add: tag_bytes_def)
qed

lemma tagSize_canonical:
  assumes "number t \<noteq> 0"
  shows "tagSize (number t) (tag_type t) = Inr (length (varint_enc (unat (number t) * 8 + intFromEnum (tag_type t))))"
  using assms by (simp add: tagSize_def tag_encode_def encodedVarintSize_eq unat_tag_raw)

lemma groupLoop_returns:
  "reader_ok self \<Longrightarrow> start \<le> index self \<Longrightarrow> rest_length self < fuel \<Longrightarrow> returns_ok (groupLoopF fuel start num self) self"
proof (induction fuel arbitrary: self)
  case (Suc fuel)
  show ?case unfolding groupLoopF.simps
  proof (rule returns_ok_tryIn, goal_cases)
    case 1
    then show ?case using Suc.prems(1) by (intro returns_ok_reads reading)
  next
    case (2 x s)
    have triv: "returns_ok (Some (r, s)) s" for r :: "wire_error + bytes"
      using 2(2) by (auto simp: returns_ok_def)
    show ?case
    proof (cases x)
      case (Some t)
      then have t: "nextTag self = Some (Inr (Some t), s)" using 2(1) by simp
      show ?thesis
      proof (cases "tag_type t = EndGroup")
        case True
        obtain bs rest where b: "rest_of self = bs @ rest" "tag_bytes bs t" "index s = index self + length bs"
          using t [unfolded nextTag_iff [OF Suc.prems(1)]] by auto
        then have "number t \<noteq> 0" "length (varint_enc (unat (number t) * 8 + intFromEnum (tag_type t))) \<le> length bs"
          by (auto simp: tag_bytes_def varint_bytes_def dest: varint_parse_min)
        then show ?thesis
          using True Some triv tagSize_canonical [of t] b(3) Suc.prems(2) by (auto simp: tryIn_def Let_def)
      next
        case False
        have lt: "rest_length s < rest_length self" by (rule nextTag_progress [OF Suc.prems(1) t])
        have "returns_ok (tryIn (skipValue t) (\<lambda>_. groupLoopF fuel start num) s) s"
        proof (rule returns_ok_tryIn [of "skipValue t", OF skipValue_returns [OF 2(2)]], goal_cases)
          case (1 u s')
          then have "rest_length s' \<le> rest_length s" "index self \<le> index s'"
            using 2(3) by (auto simp: reader_step_def rest_length_def)
          then show ?case using lt Suc.prems 1(2) by (intro Suc.IH) auto
        qed
        then show ?thesis using Some False by simp
      qed
    qed (use triv in simp)
  qed
qed simp

lemma reads_ok_readGroupBytes [reading]: "reads_ok (readGroupBytes num)"
proof (rule reads_okI)
  fix self assume ok: "reader_ok self"
  have "returns_ok (readGroupBytes num self) self"
    unfolding readGroupBytes_def
    by (rule enter_leave [OF ok], rule groupLoop_returns) (auto simp: skip_fuel_rest)
  then show "\<exists>r self'. readGroupBytes num self = Some (r, self') \<and> reader_ok self' \<and> reader_step self self'"
    by (simp add: returns_ok_def)
qed

text \<open>
  The contents returned are the fields before the end tag, followed by the surplus bytes
  of the end tag, if it was encoded in more bytes than its canonical form has.
\<close>

inductive fields_bytes :: "nat \<Rightarrow> bytes \<Rightarrow> bool" where
  none: "fields_bytes d []"
| more: "tag_bytes tb t \<Longrightarrow> tag_type t \<noteq> EndGroup \<Longrightarrow> value_bytes d t vb \<Longrightarrow> fields_bytes d gb \<Longrightarrow> fields_bytes d (tb @ vb @ gb)"

lemma groupLoop_contents:
  "fields_bytes d bs \<Longrightarrow> reader_ok self \<Longrightarrow> d \<le> depth_left self \<Longrightarrow> rest_of self = bs @ tb @ rest \<Longrightarrow>
   tag_bytes tb \<lparr>number = num, tag_type = EndGroup\<rparr> \<Longrightarrow> start \<le> index self \<Longrightarrow> rest_length self < fuel \<Longrightarrow>
   \<exists>s. groupLoopF fuel start num self = Some (Inr (take (index self - start + length bs + length tb - 
      length (varint_enc (unat num * 8 + 4))) (drop start (input self))), s) \<and> index s = index self + length bs + length tb"
proof (induction arbitrary: self fuel rule: fields_bytes.induct)
  case (none d)
  obtain fuel' where f: "fuel = Suc fuel'" using none.prems by (cases fuel) auto
  let ?t = "\<lparr>number = num, tag_type = EndGroup\<rparr>"
  let ?s = "self\<lparr>index := index self + length tb, last_tag_start := index self\<rparr>"
  have t: "nextTag self = Some (Inr (Some ?t), ?s)" using none.prems by (auto simp: nextTag_iff)
  have "num \<noteq> 0" "length (varint_enc (unat num * 8 + 4)) \<le> length tb"
    using none.prems(4) by (auto simp: tag_bytes_def varint_bytes_def dest: varint_parse_min)
  then show ?case
    using none.prems(5) tagSize_canonical [of ?t] f
    by (simp add: t tryIn_def Let_def) (simp add: add.commute)
next
  case (more tb' t d vb gb)
  obtain fuel' where f: "fuel = Suc fuel'" using more.prems by (cases fuel) auto
  let ?s = "self\<lparr>index := index self + length tb', last_tag_start := index self\<rparr>"
  have t: "nextTag self = Some (Inr (Some t), ?s)" using more by (auto simp: nextTag_iff)
  have ok1: "reader_ok ?s" using reads_okD2 [OF reads_ok_nextTag more.prems(1) t] by simp
  have lt: "rest_length ?s < rest_length self" by (rule nextTag_progress [OF more.prems(1) t])
  have r1: "rest_of ?s = vb @ gb @ tb @ rest" using more.prems(3) by simp
  have "skips (skipValue t) ?s vb"
    using skip_complete(1) [OF more.hyps(3) ok1 _ r1] more.prems(2) by (simp add: depth_left_def)
  then obtain s2 where s2: "skipValue t ?s = Some (Inr (), s2)" "index s2 = index ?s + length vb" by (auto simp: skips_def)
  note st2 = skips_state [OF reads_ok_skip(1) ok1 s2(1) r1 s2(2)]
  have "rest_length s2 < fuel'" "start \<le> index s2"
    using more.prems(5,6) lt f s2(2) st2(4) by (auto simp: rest_length_def)
  moreover have "d \<le> depth_left s2" using more.prems(2) st2(3) by (simp add: depth_left_def)
  ultimately obtain s where "groupLoopF fuel' start num s2 = Some (Inr (take (index s2 - start + length gb + length tb - 
      length (varint_enc (unat num * 8 + 4))) (drop start (input s2))), s)" "index s = index s2 + length gb + length tb"
    using more.IH [OF st2(1) _ st2(2) more.prems(4), of fuel'] by blast
  moreover have "index s2 - start = index self - start + length tb' + length vb"
    using s2(2) more.prems(5) by simp
  ultimately show ?case
    using f more.hyps(2) s2 st2(4)
    by (simp add: tryIn_Inr [of nextTag, OF t] tryIn_Inr [of "skipValue t", OF s2(1)] add.assoc)
qed

lemma readGroupBytes_at:
  assumes "reader_ok self" and "fields_bytes d bs" and "d < depth_left self"
    and "tag_bytes tb \<lparr>number = num, tag_type = EndGroup\<rparr>" and "rest_of self = bs @ tb @ rest"
  shows "\<exists>s. readGroupBytes num self =
      Some (Inr (bs @ take (length tb - length (varint_enc (unat num * 8 + 4))) tb), s) \<and>
    index s = index self + length bs + length tb"
proof -
  let ?e = "self\<lparr>recursion_depth := recursion_depth self + 1\<rparr>"
  let ?n = "length (varint_enc (unat num * 8 + 4))"
  have lt: "recursion_depth self < recursion_limit self"
    using assms(3) by (auto simp: depth_left_def word_less_nat_alt)
  then have dd: "unat (recursion_depth self + 1) = unat (recursion_depth self) + 1"
    using unat_bound [of "recursion_limit self"] by (simp add: word_less_nat_alt unat_word_ariths)
  then have ok: "reader_ok ?e" and dl: "d \<le> depth_left ?e"
    using lt assms(1,3) by (auto simp: reader_ok_def depth_left_def word_le_nat_alt word_less_nat_alt)
  obtain s where s: "groupLoopF (skip_fuel ?e) (index ?e) num ?e =
      Some (Inr (take (length bs + length tb - ?n) (rest_of self)), s)" "index s = index self + length bs + length tb"
    using groupLoop_contents [OF assms(2) ok dl _ assms(4), of rest "index ?e" "skip_fuel ?e"] assms(5)
    by (auto simp: skip_fuel_rest rest_of_def)
  have "returns_ok (groupLoopF (skip_fuel ?e) (index ?e) num ?e) ?e"
    using ok by (intro groupLoop_returns) (auto simp: skip_fuel_rest)
  then have "recursion_depth s = recursion_depth self + 1"
    using s(1) by (auto simp: returns_ok_def reader_step_def)
  moreover have "recursion_depth self + 1 \<noteq> 0" using dd by (metis Suc_eq_plus1 nat.distinct(1) unat_0)
  moreover have "?n \<le> length tb"
    using assms(4) by (auto simp: tag_bytes_def varint_bytes_def dest: varint_parse_min)
  then have "take (length bs + length tb - ?n) (rest_of self) = bs @ take (length tb - ?n) tb"
    using assms(5) by simp
  ultimately show ?thesis
    using s lt by (auto simp: readGroupBytes_def enterRecursion_def tryIn_def deferring_def leaveRecursion_def not_le)
qed

text \<open>Definitions a concrete reader evaluates by.\<close>

lemmas reference_eval = rest_of_def reader_init_def tag_bytes_def varint_bytes_def depth_left_def

section \<open>Properties\<close>

text \<open>
  C36: no reading method ever panics: from a reader in order, each of them, skipping and
  group reading included, returns a value or an error and leaves a reader in order, over
  the same input, not before where it was, with its recursion budget given back.
\<close>

theorem reader_methods_ok:
  "reader_ok (reader_init bs) \<and>
   reads_ok readByte \<and> reads_ok readVarint \<and> reads_ok readUInt32 \<and> reads_ok readInt32 \<and> reads_ok readSInt32 \<and>
   reads_ok readSInt64 \<and> reads_ok readBool \<and> reads_ok readFixed32 \<and> reads_ok readFixed64 \<and> reads_ok readBytes \<and>
   reads_ok nextTag \<and> reads_ok (skipValue t) \<and> reads_ok (skipGroup num) \<and> reads_ok (readGroupBytes num)"
  by (intro conjI reading reader_ok_init)

text \<open>
  \<open>nextTag\<close> yields a tag exactly when the remaining input starts with a varint of at
  most five bytes that decodes to it, and records where that tag starts.
\<close>

theorem nextTag_accepts:
  assumes "reader_ok self"
  shows "nextTag self = Some (Inr (Some t), s) \<longleftrightarrow>
    (\<exists>bs rest. rest_of self = bs @ rest \<and> tag_bytes bs t \<and>
       s = self\<lparr>index := index self + length bs, last_tag_start := index self\<rparr>)"
  using assms by (rule nextTag_iff)

theorem nextTag_accepts_witness:
  "nextTag (reader_init [0x08, 0x2A]) =
     Some (Inr (Some \<lparr>number = 1, tag_type = Varint\<rparr>), reader_init [0x08, 0x2A] \<lparr>index := 1\<rparr>)"
  by (subst nextTag_accepts [OF reader_ok_init])
    (rule exI [of _ "[0x08]"], rule exI [of _ "[0x2A]"], simp add: reader_init_def rest_of_def tag_bytes_def varint_bytes_def)

text \<open>
  C1: \<open>skipValue\<close> decides the grammar of wire values: it succeeds and consumes \<open>bs\<close>
  exactly when the remaining input starts with \<open>bs\<close> and \<open>bs\<close> is a value for the tag whose
  groups nest no deeper than the recursion budget that is left.
\<close>

theorem skipValue_decides_grammar:
  assumes "reader_ok self"
  shows "skips (skipValue t) self bs \<longleftrightarrow> value_bytes (depth_left self) t bs \<and> (\<exists>rest. rest_of self = bs @ rest)"
  using assms by (rule skips_iff_value_bytes)

theorem skipValue_decides_grammar_witness:
  "skips (skipValue \<lparr>number = 1, tag_type = StartGroup\<rparr>) (reader_init [0x10, 0x96, 0x01, 0x0C, 0xFF]) [0x10, 0x96, 0x01, 0x0C]"
proof (rule skipValue_decides_grammar [OF reader_ok_init, THEN iffD2], intro conjI)
  have "value_bytes 99 \<lparr>number = 2, tag_type = Varint\<rparr> [0x96, 0x01]"
    by (auto intro: value_bytes_group_bytes.varint simp: varint_bytes_def)
  moreover have "group_bytes 99 1 [0x0C]"
    by (rule value_bytes_group_bytes.endgroup [of _ "\<lparr>number = 1, tag_type = EndGroup\<rparr>"]) (auto simp: reference_eval)
  ultimately have "group_bytes 99 1 ([0x10] @ [0x96, 0x01] @ [0x0C])"
    by (intro value_bytes_group_bytes.field [of _ "\<lparr>number = 2, tag_type = Varint\<rparr>"]) (auto simp: reference_eval)
  then show "value_bytes (depth_left (reader_init [0x10, 0x96, 0x01, 0x0C, 0xFF])) \<lparr>number = 1, tag_type = StartGroup\<rparr> [0x10, 0x96, 0x01, 0x0C]"
    by (subst value_bytes_cases) (simp add: reference_eval)
qed (simp add: reference_eval)

text \<open>
  C40: on a group whose fields are \<open>bs\<close>, nested no deeper than the limit allows and closed by an
  end tag \<open>tb\<close> of its number, in any encoding that \<open>nextTag\<close> accepts, \<open>readGroupBytes\<close> stops behind the
  end tag and returns \<open>bs\<close> followed by as many bytes of the end tag as that tag is longer than
  its canonical form: exactly the contents if the tag is canonical, and stray bytes of the
  tag if it is over-long.
\<close>

theorem readGroupBytes_contents:
  assumes "reader_ok self" and "fields_bytes d bs" and "d < depth_left self"
    and "tag_bytes tb \<lparr>number = num, tag_type = EndGroup\<rparr>" and "rest_of self = bs @ tb @ rest"
  shows "\<exists>s. readGroupBytes num self =
      Some (Inr (bs @ take (length tb - length (varint_enc (unat num * 8 + 4))) tb), s) \<and>
    index s = index self + length bs + length tb"
  using assms by (rule readGroupBytes_at)

theorem readGroupBytes_contents_witness:
  "\<exists>s. readGroupBytes 1 (reader_init [0x8C, 0x00]) = Some (Inr [0x8C], s) \<and> index s = Suc (Suc 0)"
  using readGroupBytes_contents [OF reader_ok_init fields_bytes.none, of 0 "[0x8C, 0x00]" "[0x8C, 0x00]" 1 "[]"]
  by (simp add: reference_eval varint_enc.simps)

end
