(* ===== verification/Wire_Writer.thy ===== *)
theory Wire_Writer
  imports Wire_Reader "HOL-Library.Sublist"
begin

unbundle bit_operations_syntax

text \<open>
  The growable output buffer \<open>Writer\<close> of \<open>src/wire.zig\<close>: the memory of its \<open>ArrayList\<close>, of
  which the first \<open>items_len\<close> bytes are the output, and the allocator it grows with. The
  allocator answers its k-th request for n bytes with a refusal or with the surplus it
  grants, so a proof for all writers covers every sequence of failures. An assertion of
  the list (a reservation that was not made) is a panic, \<open>None\<close>.
\<close>

section \<open>The list of bytes\<close>

record alloc =
  decide :: "nat \<Rightarrow> nat \<Rightarrow> nat option"
  requests :: nat

record writer =
  allocator :: alloc
  memory :: bytes
  items_len :: nat

datatype write_error = OutOfMemory | WireError wire_error

type_synonym 'a writing = "(writer, write_error, 'a) op"

definition writer_init :: "alloc \<Rightarrow> writer" where
  "writer_init al = \<lparr>allocator = al, memory = [], items_len = 0\<rparr>"

definition initBuffer :: "alloc \<Rightarrow> bytes \<Rightarrow> writer" where
  "initBuffer al buffer = \<lparr>allocator = al, memory = buffer, items_len = 0\<rparr>"

definition clearRetainingCapacity :: "writer \<Rightarrow> writer" where
  "clearRetainingCapacity self = self\<lparr>items_len := 0\<rparr>"

definition writer_slice :: "writer \<Rightarrow> bytes" where
  "writer_slice self = take (items_len self) (memory self)"

definition request :: "nat \<Rightarrow> alloc \<Rightarrow> nat option \<times> alloc" where
  "request n al = (decide al (requests al) n, al\<lparr>requests := requests al + 1\<rparr>)"

text \<open>New memory holds the filler 0xAA until it is written.\<close>

definition ensureUnusedCapacity :: "nat \<Rightarrow> unit writing" where
  "ensureUnusedCapacity additional = (\<lambda>self.
     if usize_max < items_len self + additional then Some (Inl OutOfMemory, self)
     else if items_len self + additional \<le> length (memory self) then Some (Inr (), self)
     else (case request (items_len self + additional) (allocator self) of
         (None, al) \<Rightarrow> Some (Inl OutOfMemory, self\<lparr>allocator := al\<rparr>)
       | (Some surplus, al) \<Rightarrow>
           Some (Inr (), self\<lparr>allocator := al, memory := writer_slice self @ replicate (additional + surplus) 0xAA\<rparr>)))"

text \<open>
  \<open>addManyAsSliceAssumeCapacity\<close> followed by a callee that fills the slice it returns.
\<close>

definition addManyFilled :: "nat \<Rightarrow> (bytes \<Rightarrow> (bytes \<times> nat) option) \<Rightarrow> unit writing" where
  "addManyFilled n fill = (\<lambda>self.
     if length (memory self) < items_len self + n then None
     else (case fill (take n (drop (items_len self) (memory self))) of
         None \<Rightarrow> None
       | Some (out, _) \<Rightarrow>
           Some (Inr (), self\<lparr>memory := take (items_len self) (memory self) @ out @ drop (items_len self + n) (memory self),
                             items_len := items_len self + n\<rparr>)))"

text \<open>An empty list is freed without a request; otherwise the memory is asked to shrink or to move.\<close>

definition toOwnedSlice :: "bytes writing" where
  "toOwnedSlice = (\<lambda>self.
     if items_len self = 0 then Some (Inr [], self\<lparr>memory := []\<rparr>)
     else case request (items_len self) (allocator self) of
       (None, al) \<Rightarrow> Some (Inl OutOfMemory, self\<lparr>allocator := al\<rparr>)
     | (Some _, al) \<Rightarrow> Some (Inr (writer_slice self), self\<lparr>allocator := al, memory := [], items_len := 0\<rparr>))"

definition appendByteAssumeCapacity :: "byte \<Rightarrow> unit writing" where
  "appendByteAssumeCapacity b = addManyFilled 1 (\<lambda>out. Some ([b], 1))"

definition appendByte :: "byte \<Rightarrow> unit writing" where
  "appendByte b = tryIn (ensureUnusedCapacity 1) (\<lambda>_. appendByteAssumeCapacity b)"

definition appendSliceAssumeCapacity :: "bytes \<Rightarrow> unit writing" where
  "appendSliceAssumeCapacity data = addManyFilled (length data) (\<lambda>out. Some (data, length data))"

definition appendSlice :: "bytes \<Rightarrow> unit writing" where
  "appendSlice data = tryIn (ensureUnusedCapacity (length data)) (\<lambda>_. appendSliceAssumeCapacity data)"

section \<open>Varints and tags\<close>

definition writeVarintAssumeCapacity :: "u64 \<Rightarrow> unit writing" where
  "writeVarintAssumeCapacity v = addManyFilled (encodedVarintSize v) (\<lambda>out. writeVarintToBuffer out v)"

definition writeVarint :: "u64 \<Rightarrow> unit writing" where
  "writeVarint v = tryIn (ensureUnusedCapacity (encodedVarintSize v)) (\<lambda>_. writeVarintAssumeCapacity v)"

definition panic :: "'a writing" where
  "panic = (\<lambda>_. None)"

definition intCast_then :: "u64 \<Rightarrow> (byte \<Rightarrow> unit writing) \<Rightarrow> unit writing" where
  "intCast_then v f = (case intCast_u8 v of None \<Rightarrow> panic | Some b \<Rightarrow> f b)"

definition liftWire :: "wire_error + 'a \<Rightarrow> 'a writing" where
  "liftWire r = (case r of Inl e \<Rightarrow> throw (WireError e) | Inr x \<Rightarrow> return x)"

definition writeTag :: "field_number \<Rightarrow> wire_type \<Rightarrow> unit writing" where
  "writeTag num wt = tryIn (liftWire (tag_encode \<lparr>number = num, tag_type = wt\<rparr>)) (\<lambda>raw.
     if raw < 0x80 then intCast_then raw appendByte else writeVarint raw)"

definition writeTagAssumeCapacity :: "field_number \<Rightarrow> wire_type \<Rightarrow> unit writing" where
  "writeTagAssumeCapacity num wt =
     (let raw = push_bit 3 (ucast num) OR of_nat (intFromEnum wt) in
      if raw < 0x80 then intCast_then raw appendByteAssumeCapacity else writeVarintAssumeCapacity raw)"

section \<open>Scalar fields\<close>

definition writeUInt32 :: "field_number \<Rightarrow> u32 \<Rightarrow> unit writing" where
  "writeUInt32 num v = tryIn (writeTag num Varint) (\<lambda>_. writeVarint (ucast v))"

definition writeUInt32AssumeCapacity :: "field_number \<Rightarrow> u32 \<Rightarrow> unit writing" where
  "writeUInt32AssumeCapacity num v = tryIn (writeTagAssumeCapacity num Varint) (\<lambda>_. writeVarintAssumeCapacity (ucast v))"

definition writeUInt64 :: "field_number \<Rightarrow> u64 \<Rightarrow> unit writing" where
  "writeUInt64 num v = tryIn (writeTag num Varint) (\<lambda>_. writeVarint v)"

definition writeUInt64AssumeCapacity :: "field_number \<Rightarrow> u64 \<Rightarrow> unit writing" where
  "writeUInt64AssumeCapacity num v = tryIn (writeTagAssumeCapacity num Varint) (\<lambda>_. writeVarintAssumeCapacity v)"

text \<open>\<open>@as(i64, value)\<close> extends the sign.\<close>

definition writeInt32 :: "field_number \<Rightarrow> i32 \<Rightarrow> unit writing" where
  "writeInt32 num v = tryIn (writeTag num Varint) (\<lambda>_. writeVarint (scast v))"

definition writeInt32AssumeCapacity :: "field_number \<Rightarrow> i32 \<Rightarrow> unit writing" where
  "writeInt32AssumeCapacity num v = tryIn (writeTagAssumeCapacity num Varint) (\<lambda>_. writeVarintAssumeCapacity (scast v))"

definition writeInt64 :: "field_number \<Rightarrow> i64 \<Rightarrow> unit writing" where
  "writeInt64 num v = tryIn (writeTag num Varint) (\<lambda>_. writeVarint v)"

definition writeInt64AssumeCapacity :: "field_number \<Rightarrow> i64 \<Rightarrow> unit writing" where
  "writeInt64AssumeCapacity num v = tryIn (writeTagAssumeCapacity num Varint) (\<lambda>_. writeVarintAssumeCapacity v)"

definition writeSInt32 :: "field_number \<Rightarrow> i32 \<Rightarrow> unit writing" where
  "writeSInt32 num v = tryIn (writeTag num Varint) (\<lambda>_. writeVarint (ucast (zigZagEncode32 v)))"

definition writeSInt32AssumeCapacity :: "field_number \<Rightarrow> i32 \<Rightarrow> unit writing" where
  "writeSInt32AssumeCapacity num v =
     tryIn (writeTagAssumeCapacity num Varint) (\<lambda>_. writeVarintAssumeCapacity (ucast (zigZagEncode32 v)))"

definition writeSInt64 :: "field_number \<Rightarrow> i64 \<Rightarrow> unit writing" where
  "writeSInt64 num v = tryIn (writeTag num Varint) (\<lambda>_. writeVarint (zigZagEncode64 v))"

definition writeSInt64AssumeCapacity :: "field_number \<Rightarrow> i64 \<Rightarrow> unit writing" where
  "writeSInt64AssumeCapacity num v =
     tryIn (writeTagAssumeCapacity num Varint) (\<lambda>_. writeVarintAssumeCapacity (zigZagEncode64 v))"

definition writeBool :: "field_number \<Rightarrow> bool \<Rightarrow> unit writing" where
  "writeBool num v = tryIn (writeTag num Varint) (\<lambda>_. appendByte (if v then 1 else 0))"

definition writeBoolAssumeCapacity :: "field_number \<Rightarrow> bool \<Rightarrow> unit writing" where
  "writeBoolAssumeCapacity num v =
     tryIn (writeTagAssumeCapacity num Varint) (\<lambda>_. appendByteAssumeCapacity (if v then 1 else 0))"

definition writeRawLittleAssumeCapacity :: "'a::len word \<Rightarrow> unit writing" where
  "writeRawLittleAssumeCapacity v = (let n = sizeOf TYPE('a word) in addManyFilled n (\<lambda>out. Some (le_bytes n v, n)))"

definition writeRawLittle :: "'a::len word \<Rightarrow> unit writing" where
  "writeRawLittle v = tryIn (ensureUnusedCapacity (sizeOf TYPE('a word))) (\<lambda>_. writeRawLittleAssumeCapacity v)"

definition writeFixed32 :: "field_number \<Rightarrow> u32 \<Rightarrow> unit writing" where
  "writeFixed32 num v = tryIn (writeTag num Fixed32) (\<lambda>_. writeRawLittle v)"

definition writeFixed32AssumeCapacity :: "field_number \<Rightarrow> u32 \<Rightarrow> unit writing" where
  "writeFixed32AssumeCapacity num v = tryIn (writeTagAssumeCapacity num Fixed32) (\<lambda>_. writeRawLittleAssumeCapacity v)"

definition writeSFixed32 :: "field_number \<Rightarrow> i32 \<Rightarrow> unit writing" where
  "writeSFixed32 num v = writeFixed32 num v"

definition writeSFixed32AssumeCapacity :: "field_number \<Rightarrow> i32 \<Rightarrow> unit writing" where
  "writeSFixed32AssumeCapacity num v = writeFixed32AssumeCapacity num v"

definition writeFixed64 :: "field_number \<Rightarrow> u64 \<Rightarrow> unit writing" where
  "writeFixed64 num v = tryIn (writeTag num Fixed64) (\<lambda>_. writeRawLittle v)"

definition writeFixed64AssumeCapacity :: "field_number \<Rightarrow> u64 \<Rightarrow> unit writing" where
  "writeFixed64AssumeCapacity num v = tryIn (writeTagAssumeCapacity num Fixed64) (\<lambda>_. writeRawLittleAssumeCapacity v)"

definition writeSFixed64 :: "field_number \<Rightarrow> i64 \<Rightarrow> unit writing" where
  "writeSFixed64 num v = writeFixed64 num v"

definition writeSFixed64AssumeCapacity :: "field_number \<Rightarrow> i64 \<Rightarrow> unit writing" where
  "writeSFixed64AssumeCapacity num v = writeFixed64AssumeCapacity num v"

text \<open>A float is the word of its IEEE bits.\<close>

definition writeFloat :: "field_number \<Rightarrow> u32 \<Rightarrow> unit writing" where
  "writeFloat num v = writeFixed32 num v"

definition writeFloatAssumeCapacity :: "field_number \<Rightarrow> u32 \<Rightarrow> unit writing" where
  "writeFloatAssumeCapacity num v = writeFixed32AssumeCapacity num v"

definition writeDouble :: "field_number \<Rightarrow> u64 \<Rightarrow> unit writing" where
  "writeDouble num v = writeFixed64 num v"

definition writeDoubleAssumeCapacity :: "field_number \<Rightarrow> u64 \<Rightarrow> unit writing" where
  "writeDoubleAssumeCapacity num v = writeFixed64AssumeCapacity num v"

section \<open>Length-delimited fields\<close>

definition writeBytes :: "field_number \<Rightarrow> bytes \<Rightarrow> unit writing" where
  "writeBytes num data = tryIn (writeTag num LengthDelimited) (\<lambda>_.
     tryIn (if length data < 0x80 then intCast_then (of_nat (length data)) appendByte
            else writeVarint (of_nat (length data))) (\<lambda>_.
     appendSlice data))"

definition writeBytesAssumeCapacity :: "field_number \<Rightarrow> bytes \<Rightarrow> unit writing" where
  "writeBytesAssumeCapacity num data = tryIn (writeTagAssumeCapacity num LengthDelimited) (\<lambda>_.
     tryIn (if length data < 0x80 then intCast_then (of_nat (length data)) appendByteAssumeCapacity
            else writeVarintAssumeCapacity (of_nat (length data))) (\<lambda>_.
     appendSliceAssumeCapacity data))"

definition writeString :: "field_number \<Rightarrow> bytes \<Rightarrow> unit writing" where
  "writeString num data = writeBytes num data"

definition writeStringAssumeCapacity :: "field_number \<Rightarrow> bytes \<Rightarrow> unit writing" where
  "writeStringAssumeCapacity num data = writeBytesAssumeCapacity num data"

definition writeMessage :: "field_number \<Rightarrow> bytes \<Rightarrow> unit writing" where
  "writeMessage num encoded_message = writeBytes num encoded_message"

definition writeMessageAssumeCapacity :: "field_number \<Rightarrow> bytes \<Rightarrow> unit writing" where
  "writeMessageAssumeCapacity num encoded_message = writeBytesAssumeCapacity num encoded_message"

fun writeVarints :: "u64 list \<Rightarrow> unit writing" where
  "writeVarints [] = return ()"
| "writeVarints (v # vs) = tryIn (writeVarint v) (\<lambda>_. writeVarints vs)"

text \<open>
  A local writer over the same allocator; its \<open>defer\<close>red \<open>deinit\<close> frees its memory.
\<close>

definition writePackedVarints :: "field_number \<Rightarrow> u64 list \<Rightarrow> unit writing" where
  "writePackedVarints num vs = (\<lambda>self.
     case writeVarints vs (writer_init (allocator self)) of
       None \<Rightarrow> None
     | Some (Inl e, packed_writer) \<Rightarrow> Some (Inl e, self\<lparr>allocator := allocator packed_writer\<rparr>)
     | Some (Inr _, packed_writer) \<Rightarrow>
         writeBytes num (writer_slice packed_writer) (self\<lparr>allocator := allocator packed_writer\<rparr>))"

section \<open>What is written: the abstract view\<close>

text \<open>
  \<open>stores bs\<close> is the abstract store of \<open>bs\<close> behind the output without growing, a panic when
  the memory is too short; \<open>grows_by bs\<close> reserves the space for it first. Every operation
  without growth is one store, whatever calls it is composed of.
\<close>

definition writer_ok :: "writer \<Rightarrow> bool" where
  "writer_ok self \<longleftrightarrow> items_len self \<le> length (memory self)"

definition stores :: "bytes \<Rightarrow> unit writing" where
  "stores bs = (\<lambda>self.
     if length (memory self) < items_len self + length bs then None
     else Some (Inr (), self\<lparr>memory := writer_slice self @ bs @ drop (items_len self + length bs) (memory self),
                            items_len := items_len self + length bs\<rparr>))"

named_theorems stored \<comment> \<open>operations without growth as one store\<close>

lemma tryIn_stores [stored]: "tryIn (stores xs) (\<lambda>_. stores ys) = stores (xs @ ys)"
proof
  fix self
  show "tryIn (stores xs) (\<lambda>_. stores ys) self = stores (xs @ ys) self"
  proof (cases "length (memory self) < items_len self + length xs")
    case False
    then have "min (length (memory self)) (items_len self) = items_len self" by simp
    then show ?thesis using False by (simp add: tryIn_def stores_def writer_slice_def ac_simps)
  qed (simp add: tryIn_def stores_def)
qed

lemma addManyFilled_stores:
  assumes "length bs = n" "\<And>out. length out = n \<Longrightarrow> \<exists>k. fill out = Some (bs, k)"
  shows "addManyFilled n fill = stores bs"
proof
  fix self
  show "addManyFilled n fill self = stores bs self"
  proof (cases "length (memory self) < items_len self + n")
    case False
    then have "length (take n (drop (items_len self) (memory self))) = n" by simp
    with assms(2) obtain k where "fill (take n (drop (items_len self) (memory self))) = Some (bs, k)" by blast
    then show ?thesis using False assms(1) by (simp add: addManyFilled_def stores_def writer_slice_def)
  qed (simp add: addManyFilled_def stores_def assms(1))
qed

lemma appendByteAssumeCapacity_stores [stored]: "appendByteAssumeCapacity b = stores [b]"
  unfolding appendByteAssumeCapacity_def by (rule addManyFilled_stores) auto

lemma appendSliceAssumeCapacity_stores [stored]: "appendSliceAssumeCapacity data = stores data"
  unfolding appendSliceAssumeCapacity_def by (rule addManyFilled_stores) auto

lemma writeVarintAssumeCapacity_stores [stored]: "writeVarintAssumeCapacity v = stores (varint_enc (unat v))"
  unfolding writeVarintAssumeCapacity_def
  by (rule addManyFilled_stores) (auto simp: encodedVarintSize_eq writeVarintToBuffer_eq Let_def)

lemma writeRawLittleAssumeCapacity_stores [stored]:
  "writeRawLittleAssumeCapacity v = stores (le_bytes (sizeOf TYPE('a word)) (v :: 'a::len word))"
  unfolding writeRawLittleAssumeCapacity_def Let_def by (rule addManyFilled_stores) auto

text \<open>The tag of a field and the varint of a small value, which the code stores as one byte.\<close>

definition tag_enc :: "field_number \<Rightarrow> wire_type \<Rightarrow> bytes" where
  "tag_enc num wt = varint_enc (unat num * 8 + intFromEnum wt)"

lemma varint_enc_small: "n < 128 \<Longrightarrow> varint_enc n = [of_nat n]"
  by (subst varint_enc.simps) simp

lemma intCast_then_small:
  assumes "unat v < 128"
  shows "intCast_then v f = f (of_nat (unat v))"
proof -
  have "v < 0x100" using assms by (simp add: word_less_nat_alt)
  moreover have "(ucast v :: byte) = of_nat (unat v)"
    by (rule word_eq_of_nat) (rule unat_low_byte [OF assms])
  ultimately show ?thesis by (simp add: intCast_then_def intCast_u8_def)
qed

lemma u64_less_128: "v < 0x80 \<longleftrightarrow> unat v < 128" for v :: u64
  by (simp add: word_less_nat_alt)

lemma small_or_varint_stores [stored]:
  "(if v < 0x80 then intCast_then v appendByteAssumeCapacity else writeVarintAssumeCapacity v) = stores (varint_enc (unat v))"
  by (simp add: u64_less_128 intCast_then_small varint_enc_small stored)

lemma writeTagAssumeCapacity_stores [stored]: "writeTagAssumeCapacity num wt = stores (tag_enc num wt)"
  by (simp only: writeTagAssumeCapacity_def Let_def small_or_varint_stores unat_tag_raw tag_enc_def)

section \<open>Operations that grow\<close>

text \<open>
  \<open>appends m bs\<close>: from every writer, \<open>m\<close> does not panic; it either appends \<open>bs\<close> to the
  output, or the allocator has refused and the output has grown by a prefix of \<open>bs\<close>.
\<close>

definition appends :: "unit writing \<Rightarrow> bytes \<Rightarrow> bool" where
  "appends m bs \<longleftrightarrow> (\<forall>self. writer_ok self \<longrightarrow> (\<exists>r self'. m self = Some (r, self') \<and> writer_ok self' \<and>
     (case r of Inr _ \<Rightarrow> writer_slice self' = writer_slice self @ bs
              | Inl e \<Rightarrow> e = OutOfMemory \<and> (\<exists>p. prefix p bs \<and> writer_slice self' = writer_slice self @ p))))"

lemma appendsE:
  assumes "appends m bs" "writer_ok self"
  obtains (ok) self' where "m self = Some (Inr (), self')" "writer_ok self'" "writer_slice self' = writer_slice self @ bs"
  | (oom) self' p where "m self = Some (Inl OutOfMemory, self')" "writer_ok self'" "prefix p bs" "writer_slice self' = writer_slice self @ p"
proof -
  obtain r s where "m self = Some (r, s)" "writer_ok s"
    "case r of Inr _ \<Rightarrow> writer_slice s = writer_slice self @ bs
     | Inl e \<Rightarrow> e = OutOfMemory \<and> (\<exists>p. prefix p bs \<and> writer_slice s = writer_slice self @ p)"
    using assms unfolding appends_def by blast
  then show ?thesis by (cases r) (auto intro: that)
qed

named_theorems appending \<comment> \<open>operations that grow append their bytes\<close>

lemma appends_tryIn [appending]:
  assumes "appends m xs" "appends n ys"
  shows "appends (tryIn m (\<lambda>_. n)) (xs @ ys)"
  unfolding appends_def
proof (intro allI impI)
  fix self :: writer
  let ?goal = "\<exists>r self'. tryIn m (\<lambda>_. n) self = Some (r, self') \<and> writer_ok self' \<and>
     (case r of Inr _ \<Rightarrow> writer_slice self' = writer_slice self @ xs @ ys
              | Inl e \<Rightarrow> e = OutOfMemory \<and> (\<exists>p. prefix p (xs @ ys) \<and> writer_slice self' = writer_slice self @ p))"
  assume "writer_ok self"
  from assms(1) this show ?goal
  proof (cases rule: appendsE)
    case (ok s)
    from assms(2) ok(2) show ?thesis
    proof (cases rule: appendsE)
      case (oom s' p)
      then show ?thesis using ok by (auto simp: tryIn_def intro!: exI [of _ "xs @ p"])
    qed (use ok in \<open>auto simp: tryIn_def\<close>)
  qed (auto simp: tryIn_def intro: prefix_prefix)
qed

lemma appends_grow [appending]:
  assumes "n = length bs"
  shows "appends (tryIn (ensureUnusedCapacity n) (\<lambda>_. stores bs)) bs"
  unfolding appends_def
proof (intro allI impI)
  fix self :: writer
  let ?need = "items_len self + length bs"
  let ?m = "tryIn (ensureUnusedCapacity n) (\<lambda>_. stores bs)"
  assume ok: "writer_ok self"
  consider "usize_max < ?need" | "?need \<le> usize_max" "?need \<le> length (memory self)"
    | "?need \<le> usize_max" "length (memory self) < ?need" by linarith
  then show "\<exists>r self'. ?m self = Some (r, self') \<and> writer_ok self' \<and>
     (case r of Inr _ \<Rightarrow> writer_slice self' = writer_slice self @ bs
              | Inl e \<Rightarrow> e = OutOfMemory \<and> (\<exists>p. prefix p bs \<and> writer_slice self' = writer_slice self @ p))"
  proof cases
    case 3
    then show ?thesis
      using ok assms by (cases "decide (allocator self) (requests (allocator self)) ?need")
        (simp_all add: tryIn_def ensureUnusedCapacity_def request_def stores_def writer_ok_def writer_slice_def)
  qed (use ok assms in \<open>simp_all add: tryIn_def ensureUnusedCapacity_def stores_def writer_ok_def writer_slice_def\<close>)
qed


lemma appendByte_appends [appending]: "appends (appendByte b) [b]"
  unfolding appendByte_def stored by (rule appends_grow) simp

lemma appendSlice_appends [appending]: "appends (appendSlice data) data"
  unfolding appendSlice_def stored by (rule appends_grow) simp

lemma writeVarint_appends [appending]: "appends (writeVarint v) (varint_enc (unat v))"
  unfolding writeVarint_def stored by (rule appends_grow) (simp add: encodedVarintSize_eq)

lemma writeRawLittle_appends [appending]: "appends (writeRawLittle v) (le_bytes (sizeOf TYPE('a word)) (v :: 'a::len word))"
  unfolding writeRawLittle_def stored by (rule appends_grow) simp

lemma small_or_varint_appends [appending]:
  "appends (if v < 0x80 then intCast_then v appendByte else writeVarint v) (varint_enc (unat v))"
  by (auto simp: u64_less_128 intCast_then_small varint_enc_small intro: appending)

lemma writeTag_appends [appending]:
  assumes "num \<noteq> 0"
  shows "appends (writeTag num wt) (tag_enc num wt)"
proof -
  let ?raw = "push_bit 3 (ucast num) OR of_nat (intFromEnum wt) :: u64"
  have "writeTag num wt = (if ?raw < 0x80 then intCast_then ?raw appendByte else writeVarint ?raw)"
    using assms by (simp add: writeTag_def tag_encode_def liftWire_def)
  then show ?thesis by (simp only: tag_enc_def small_or_varint_appends flip: unat_tag_raw)
qed

lemma writeTag_zero: "writeTag 0 wt = throw (WireError InvalidFieldNumber)"
  by (rule ext) (simp add: writeTag_def tag_encode_def liftWire_def tryIn_def)

lemma tagSize_enc: "num \<noteq> 0 \<Longrightarrow> tagSize num wt = Inr (length (tag_enc num wt))"
  using tagSize_canonical [of "\<lparr>number = num, tag_type = wt\<rparr>"] by (simp add: tag_enc_def)

section \<open>The interface of a field codec\<close>

text \<open>
  What a client does with one kind of field: write a list of fields, and read fields until
  the input ends, checking the wire type of each.
\<close>

fun write_fields :: "(field_number \<Rightarrow> 'v \<Rightarrow> unit writing) \<Rightarrow> (field_number \<times> 'v) list \<Rightarrow> unit writing" where
  "write_fields w [] = return ()"
| "write_fields w ((num, v) # fs) = tryIn (w num v) (\<lambda>_. write_fields w fs)"

fun read_fields :: "wire_type \<Rightarrow> 'v reading \<Rightarrow> nat \<Rightarrow> (field_number \<times> 'v) list reading" where
  "read_fields wt rd 0 = (\<lambda>_. None)"
| "read_fields wt rd (Suc fuel) = tryIn nextTag (\<lambda>t. case t of
       None \<Rightarrow> return []
     | Some t \<Rightarrow> tryIn (liftSum (expectWireType t wt)) (\<lambda>_.
         tryIn rd (\<lambda>v. tryIn (read_fields wt rd fuel) (\<lambda>fs. return ((number t, v) # fs)))))"

definition fields_enc :: "wire_type \<Rightarrow> ('v \<Rightarrow> bytes) \<Rightarrow> (field_number \<times> 'v) list \<Rightarrow> bytes" where
  "fields_enc wt enc fs = concat (map (\<lambda>(num, v). tag_enc num wt @ enc v) fs)"

lemma appends_return: "appends (return ()) []"
  by (simp add: appends_def)

lemma nextTag_enc:
  assumes "reader_ok r" "num \<noteq> 0" "rest_of r = tag_enc num wt @ rest"
  shows "nextTag r = Some (Inr (Some \<lparr>number = num, tag_type = wt\<rparr>),
           r\<lparr>index := index r + length (tag_enc num wt), last_tag_start := index r\<rparr>)"
  using assms tag_bytes_enc [of "\<lparr>number = num, tag_type = wt\<rparr>"]
  by (subst nextTag_iff [OF assms(1)]) (auto simp: tag_enc_def)

text \<open>
  \<open>capacity_agree w w_cap valid\<close>: where the growing writer succeeds, the one without growth
  panics exactly when the memory could not hold the output, and otherwise has the same
  output without asking the allocator.
\<close>

definition capacity_agree ::
    "(field_number \<Rightarrow> 'v \<Rightarrow> unit writing) \<Rightarrow> (field_number \<Rightarrow> 'v \<Rightarrow> unit writing) \<Rightarrow> ('v \<Rightarrow> bool) \<Rightarrow> bool" where
  "capacity_agree w w_cap valid \<longleftrightarrow> (\<forall>num v self s.
     num \<noteq> 0 \<and> valid v \<and> writer_ok self \<and> w num v self = Some (Inr (), s) \<longrightarrow>
     (if length (memory self) < length (writer_slice s) then w_cap num v self = None
      else \<exists>s'. w_cap num v self = Some (Inr (), s') \<and> writer_slice s' = writer_slice s \<and> allocator s' = allocator self))"

text \<open>
  A kind of field: its wire type, its writer, its writer without growth, its reader and the
  bytes of its values. The writer appends the tag and the bytes, the writer without growth
  stores them at once, and the reader takes exactly these bytes back to the value.
\<close>

locale field_codec =
  fixes wire :: wire_type
    and writes :: "field_number \<Rightarrow> 'v \<Rightarrow> unit writing"
    and writes_cap :: "field_number \<Rightarrow> 'v \<Rightarrow> unit writing"
    and reads :: "'v reading"
    and enc :: "'v \<Rightarrow> bytes"
    and valid :: "'v \<Rightarrow> bool"
  assumes writes_appends: "num \<noteq> 0 \<Longrightarrow> valid v \<Longrightarrow> appends (writes num v) (tag_enc num wire @ enc v)"
    and writes_zero: "writes 0 v self = Some (Inl (WireError InvalidFieldNumber), self)"
    and writes_cap_stores: "valid v \<Longrightarrow> writes_cap num v = stores (tag_enc num wire @ enc v)"
    and reads_back: "valid v \<Longrightarrow> reader_ok r \<Longrightarrow> rest_of r = enc v @ rest \<Longrightarrow>
      reads r = Some (Inr v, r\<lparr>index := index r + length (enc v)\<rparr>)"
    and is_value: "valid v \<Longrightarrow> value_bytes d \<lparr>number = num, tag_type = wire\<rparr> (enc v)"

begin

lemma write_fields_appends:
  assumes "\<forall>(num, v) \<in> set fs. num \<noteq> 0 \<and> valid v"
  shows "appends (write_fields writes fs) (fields_enc wire enc fs)"
  using assms
proof (induction fs)
  case (Cons f fs)
  obtain num v where f: "f = (num, v)" by fastforce
  have "appends (tryIn (writes num v) (\<lambda>_. write_fields writes fs)) ((tag_enc num wire @ enc v) @ fields_enc wire enc fs)"
    using Cons f by (intro appends_tryIn writes_appends) auto
  then show ?case by (simp add: f fields_enc_def)
qed (simp add: fields_enc_def appends_return)

lemma read_fields_enc:
  assumes "\<forall>(num, v) \<in> set fs. num \<noteq> 0 \<and> valid v" "reader_ok r" "rest_of r = fields_enc wire enc fs"
  shows "\<exists>r'. read_fields wire reads (Suc (length fs)) r = Some (Inr fs, r') \<and> eof r'"
  using assms
proof (induction fs arbitrary: r)
  case Nil
  then have "nextTag r = Some (Inr None, r)" by (simp add: nextTag_None fields_enc_def)
  then show ?case using Nil by (auto simp: tryIn_def eof_def rest_of_def fields_enc_def)
next
  case (Cons f fs)
  obtain num v where f: "f = (num, v)" by fastforce
  let ?tag = "tag_enc num wire"
  have rest: "rest_of r = ?tag @ enc v @ fields_enc wire enc fs"
    using Cons.prems(3) by (simp add: f fields_enc_def)
  let ?r1 = "r\<lparr>index := index r + length ?tag, last_tag_start := index r\<rparr>"
  let ?r2 = "?r1\<lparr>index := index ?r1 + length (enc v)\<rparr>"
  have tag: "nextTag r = Some (Inr (Some \<lparr>number = num, tag_type = wire\<rparr>), ?r1)"
    by (rule nextTag_enc [OF Cons.prems(2) _ rest]) (use Cons.prems f in auto)
  have r1: "reader_ok ?r1" "rest_of ?r1 = enc v @ fields_enc wire enc fs"
    using reads_okD2(1) [OF reads_ok_nextTag Cons.prems(2) tag] rest_of_advance [OF rest] by simp_all
  have v: "reads ?r1 = Some (Inr v, ?r2)"
    using Cons.prems f r1 by (intro reads_back) auto
  have "reader_ok ?r2" "rest_of ?r2 = fields_enc wire enc fs"
    using rest_of_at [OF r1] rest_of_advance [OF r1(2)] by blast+
  then obtain r' where "read_fields wire reads (Suc (length fs)) ?r2 = Some (Inr fs, r')" "eof r'"
    using Cons.IH [of ?r2] Cons.prems(1) by auto
  with tag v show ?case
    by (simp only: f length_Cons read_fields.simps(2)) (simp add: tryIn_def expectWireType_def del: read_fields.simps)
qed

text \<open>Fields written by any writer are read back from its output, in their order.\<close>

lemma fields_roundtrip:
  assumes "\<forall>(num, v) \<in> set fs. num \<noteq> 0 \<and> valid v" "writer_ok w" "writer_slice w = []"
    "write_fields writes fs w = Some (Inr (), w')"
  shows "\<exists>r'. read_fields wire reads (Suc (length fs)) (reader_init (writer_slice w')) = Some (Inr fs, r') \<and> eof r'"
proof (rule read_fields_enc [OF assms(1) reader_ok_init])
  show "rest_of (reader_init (writer_slice w')) = fields_enc wire enc fs"
    using write_fields_appends [OF assms(1)] assms(2-4) by (auto simp: rest_of_def reader_init_def elim!: appendsE)
qed

text \<open>The writer without growth panics for want of room, and otherwise has the output of the growing writer.\<close>

lemma capacity_agrees:
  assumes "num \<noteq> 0" "valid v" "writer_ok w"
  shows "if length (memory w) < items_len w + length (tag_enc num wire @ enc v) then writes_cap num v w = None
    else \<exists>w'. writes_cap num v w = Some (Inr (), w') \<and> writer_slice w' = writer_slice w @ tag_enc num wire @ enc v
      \<and> length (memory w') = length (memory w) \<and> allocator w' = allocator w"
  using assms by (auto simp: writes_cap_stores stores_def writer_slice_def writer_ok_def min_def)

lemma capacity_agree: "capacity_agree writes writes_cap valid"
  unfolding capacity_agree_def
proof (intro allI impI, elim conjE)
  fix num v self s
  assume a: "num \<noteq> 0" "valid v" "writer_ok self" "writes num v self = Some (Inr (), s)"
  have s: "writer_slice s = writer_slice self @ tag_enc num wire @ enc v"
    using writes_appends [OF a(1,2)] a(3,4) by (auto elim!: appendsE)
  moreover have "length (writer_slice self) = items_len self"
    using a(3) by (simp add: writer_slice_def writer_ok_def)
  ultimately have "length (writer_slice s) = items_len self + length (tag_enc num wire @ enc v)" by simp
  with capacity_agrees [OF a(1-3)] s show "if length (memory self) < length (writer_slice s) then writes_cap num v self = None
      else \<exists>s'. writes_cap num v self = Some (Inr (), s') \<and> writer_slice s' = writer_slice s \<and> allocator s' = allocator self"
    by (auto split: if_splits)
qed

text \<open>A reader that does not know the field skips exactly its value.\<close>

lemma skips_value:
  assumes "valid v" "reader_ok r" "rest_of r = enc v @ rest"
  shows "skips (skipValue \<lparr>number = num, tag_type = wire\<rparr>) r (enc v)"
  using assms is_value by (auto simp: skips_iff_value_bytes)

end

section \<open>The codecs of the Writer and the Reader\<close>

lemma reads_varint:
  assumes "reader_ok r" "rest_of r = varint_enc (unat v) @ rest"
  shows "readVarint r = Some (Inr v, r\<lparr>index := index r + length (varint_enc (unat v))\<rparr>)"
  using assms(2) varint_bytes_enc [of "unat v"] unat_bound [of v]
  by (subst readVarint_iff [OF assms(1)]) (intro exI conjI, assumption, simp_all)

lemma reads_raw_little:
  assumes "8 dvd LENGTH('a)" "reader_ok r" "rest_of r = le_bytes (sizeOf TYPE('a word)) (v :: 'a::len word) @ rest"
  shows "readRawLittle r = Some (Inr v, r\<lparr>index := index r + length (le_bytes (sizeOf TYPE('a word)) v)\<rparr>)"
proof -
  let ?n = "sizeOf TYPE('a word)"
  have d: "drop (index r) (input r) = le_bytes ?n v @ rest" using assms(3) by (simp add: rest_of_def)
  then have "?n \<le> length (input r) - index r" by (metis length_append length_drop length_le_bytes le_add1)
  then show ?thesis
    using assms(1,2) d by (simp add: readRawLittle_def Let_def tryIn_def checkedAvailable_def available_def reader_ok_def
        le_word_le_bytes sizeOf_def)
qed

lemma varint_value: "value_bytes d \<lparr>number = num, tag_type = Varint\<rparr> (varint_enc (unat (v :: u64)))"
  using unat_bound [of v] by (auto intro!: value_bytes_group_bytes.varint varint_bytes_enc)

lemma ucast_scast_i32: "(ucast (scast (v :: i32) :: u64) :: i32) = v"
  by (rule bit_word_eqI) (auto simp: bit_ucast_iff bit_signed_iff)

lemma ucast_ucast_u32: "(ucast (ucast (v :: u32) :: u64) :: u32) = v"
  by (rule bit_word_eqI) (auto simp: bit_ucast_iff)

named_theorems codec_defs \<comment> \<open>the field writers and readers\<close>

lemmas [codec_defs] = writeUInt32_def writeUInt64_def writeInt32_def writeInt64_def writeSInt32_def writeSInt64_def
  writeBool_def writeFixed32_def writeFixed64_def writeUInt32AssumeCapacity_def writeUInt64AssumeCapacity_def
  writeInt32AssumeCapacity_def writeInt64AssumeCapacity_def writeSInt32AssumeCapacity_def writeSInt64AssumeCapacity_def
  writeBoolAssumeCapacity_def writeFixed32AssumeCapacity_def writeFixed64AssumeCapacity_def
  readUInt32_def readUInt64_def readInt32_def readInt64_def readSInt32_def readSInt64_def readBool_def
  readFixed32_def readFixed64_def

lemma tryIn_apply:
  "tryIn m f s = (case m s of None \<Rightarrow> None | Some (Inl e, s') \<Rightarrow> Some (Inl e, s') | Some (Inr x, s') \<Rightarrow> f x s')"
  by (simp add: tryIn_def)

lemmas codec_simps = codec_defs stored writeTag_zero tryIn_apply reads_varint varint_value

interpretation uint32: field_codec Varint writeUInt32 writeUInt32AssumeCapacity readUInt32 "\<lambda>v. varint_enc (unat (ucast v :: u64))" "\<lambda>_. True"
  by unfold_locales (auto simp: codec_simps ucast_ucast_u32 intro: appending)

interpretation uint64: field_codec Varint writeUInt64 writeUInt64AssumeCapacity readUInt64 "\<lambda>v. varint_enc (unat v)" "\<lambda>_. True"
  by unfold_locales (auto simp: codec_simps intro: appending)

interpretation int32: field_codec Varint writeInt32 writeInt32AssumeCapacity readInt32 "\<lambda>v. varint_enc (unat (scast v :: u64))" "\<lambda>_. True"
  by unfold_locales (auto simp: codec_simps ucast_scast_i32 intro: appending)

interpretation int64: field_codec Varint writeInt64 writeInt64AssumeCapacity readInt64 "\<lambda>v. varint_enc (unat v)" "\<lambda>_. True"
  by unfold_locales (auto simp: codec_simps intro: appending)

interpretation sint32: field_codec Varint writeSInt32 writeSInt32AssumeCapacity readSInt32
    "\<lambda>v. varint_enc (unat (ucast (zigZagEncode32 v) :: u64))" "\<lambda>_. True"
  by unfold_locales (auto simp: codec_simps ucast_ucast_u32 zigZagDecode32_encode intro: appending)

interpretation sint64: field_codec Varint writeSInt64 writeSInt64AssumeCapacity readSInt64 "\<lambda>v. varint_enc (unat (zigZagEncode64 v))" "\<lambda>_. True"
  by unfold_locales (auto simp: codec_simps zigZagDecode64_encode intro: appending)

interpretation fixed32: field_codec Fixed32 writeFixed32 writeFixed32AssumeCapacity readFixed32 "\<lambda>v. le_bytes 4 v" "\<lambda>_. True"
  by unfold_locales
    (auto simp: codec_simps sizeOf_def intro: appending writeRawLittle_appends [where 'a = 32, unfolded sizeOf_def, simplified]
      value_bytes_group_bytes.fixed32 reads_raw_little [where 'a = 32, unfolded sizeOf_def, simplified])

interpretation fixed64: field_codec Fixed64 writeFixed64 writeFixed64AssumeCapacity readFixed64 "\<lambda>v. le_bytes 8 v" "\<lambda>_. True"
  by unfold_locales
    (auto simp: codec_simps sizeOf_def intro: appending writeRawLittle_appends [where 'a = 64, unfolded sizeOf_def, simplified]
      value_bytes_group_bytes.fixed64 reads_raw_little [where 'a = 64, unfolded sizeOf_def, simplified])

lemmas [codec_defs] = writeSFixed32_def writeSFixed64_def writeFloat_def writeDouble_def writeSFixed32AssumeCapacity_def
  writeSFixed64AssumeCapacity_def writeFloatAssumeCapacity_def writeDoubleAssumeCapacity_def
  readSFixed32_def readSFixed64_def readFloat_def readDouble_def

interpretation sfixed32: field_codec Fixed32 writeSFixed32 writeSFixed32AssumeCapacity readSFixed32 "\<lambda>v. le_bytes 4 v" "\<lambda>_. True"
  using fixed32.field_codec_axioms by (simp add: field_codec_def codec_defs)

interpretation sfixed64: field_codec Fixed64 writeSFixed64 writeSFixed64AssumeCapacity readSFixed64 "\<lambda>v. le_bytes 8 v" "\<lambda>_. True"
  using fixed64.field_codec_axioms by (simp add: field_codec_def codec_defs)

interpretation float: field_codec Fixed32 writeFloat writeFloatAssumeCapacity readFloat "\<lambda>v. le_bytes 4 v" "\<lambda>_. True"
  using fixed32.field_codec_axioms by (simp add: field_codec_def codec_defs)

interpretation double: field_codec Fixed64 writeDouble writeDoubleAssumeCapacity readDouble "\<lambda>v. le_bytes 8 v" "\<lambda>_. True"
  using fixed64.field_codec_axioms by (simp add: field_codec_def codec_defs)

definition bool_enc :: "bool \<Rightarrow> bytes" where
  "bool_enc v = [if v then 1 else 0]"

lemma bool_enc_varint: "bool_enc v = varint_enc (unat (if v then 1 else 0 :: u64))"
  by (simp add: bool_enc_def varint_enc_small)

interpretation bool: field_codec Varint writeBool writeBoolAssumeCapacity readBool bool_enc "\<lambda>_. True"
proof (unfold_locales, goal_cases)
  case (1 num v)
  then show ?case by (auto simp: writeBool_def bool_enc_def intro: appending)
next
  case (2 v self)
  then show ?case by (simp add: codec_simps)
next
  case (3 v num)
  then show ?case by (auto simp: writeBoolAssumeCapacity_def stored bool_enc_def)
next
  case (4 v r rest)
  then show ?case using reads_varint [of r "if v then 1 else 0" rest]
    by (auto simp: readBool_def bool_enc_varint tryIn_apply split: if_splits)
next
  case (5 v d num)
  then show ?case by (simp only: bool_enc_varint varint_value)
qed

text \<open>A length-delimited value: the varint of its length and its bytes.\<close>

definition delimited_enc :: "bytes \<Rightarrow> bytes" where
  "delimited_enc data = varint_enc (length data) @ data"

definition fits_usize :: "bytes \<Rightarrow> bool" where
  "fits_usize data \<longleftrightarrow> length data \<le> usize_max"

lemma unat_length: "fits_usize data \<Longrightarrow> unat (of_nat (length data) :: u64) = length data"
  by (simp add: fits_usize_def usize_max_def unat_of_nat)

lemma length_less_128: "fits_usize data \<Longrightarrow> length data < 0x80 \<longleftrightarrow> (of_nat (length data) :: u64) < 0x80"
  by (simp add: u64_less_128 unat_length)

lemma delimited_bytes_enc: "fits_usize data \<Longrightarrow> delimited_bytes (delimited_enc data) data"
  by (auto simp: delimited_bytes_def delimited_enc_def fits_usize_def usize_max_def intro!: varint_bytes_enc)

interpretation bytes: field_codec LengthDelimited writeBytes writeBytesAssumeCapacity readBytes delimited_enc fits_usize
proof (unfold_locales, goal_cases)
  case (1 num v)
  have "appends (writeBytes num v) (tag_enc num LengthDelimited @ varint_enc (unat (of_nat (length v) :: u64)) @ v)"
    unfolding writeBytes_def length_less_128 [OF 1(2)] by (intro appending 1)
  then show ?case by (simp add: unat_length [OF 1(2)] delimited_enc_def)
next
  case (2 v self)
  then show ?case by (simp add: writeBytes_def writeTag_zero tryIn_apply)
next
  case (3 v num)
  then show ?case
    by (simp add: writeBytesAssumeCapacity_def length_less_128 stored unat_length delimited_enc_def)
next
  case (4 v r rest)
  then show ?case by (subst readBytes_iff [OF 4(2)]) (use delimited_bytes_enc in blast)
next
  case (5 v d num)
  then show ?case by (auto intro: value_bytes_group_bytes.delimited delimited_bytes_enc)
qed

interpretation string: field_codec LengthDelimited writeString writeStringAssumeCapacity readBytes delimited_enc fits_usize
  using bytes.field_codec_axioms by (simp add: field_codec_def writeString_def writeStringAssumeCapacity_def)

interpretation submessage: field_codec LengthDelimited writeMessage writeMessageAssumeCapacity readBytes delimited_enc fits_usize
  using bytes.field_codec_axioms by (simp add: field_codec_def writeMessage_def writeMessageAssumeCapacity_def)

section \<open>Packed varints\<close>

definition varints_enc :: "u64 list \<Rightarrow> bytes" where
  "varints_enc vs = concat (map (\<lambda>v. varint_enc (unat v)) vs)"

lemma writeVarints_appends: "appends (writeVarints vs) (varints_enc vs)"
proof (induction vs)
  case (Cons v vs)
  have "appends (tryIn (writeVarint v) (\<lambda>_. writeVarints vs)) (varint_enc (unat v) @ varints_enc vs)"
    by (intro appending Cons)
  then show ?case by (simp add: varints_enc_def)
qed (simp add: varints_enc_def appends_def)

lemma writePackedVarints_appends:
  assumes "num \<noteq> 0" "fits_usize (varints_enc vs)"
  shows "appends (writePackedVarints num vs) (tag_enc num LengthDelimited @ delimited_enc (varints_enc vs))"
  unfolding appends_def
proof (intro allI impI)
  fix self :: writer
  let ?goal = "\<lambda>m. \<exists>r self'. m = Some (r, self') \<and> writer_ok self' \<and>
     (case r of Inr _ \<Rightarrow> writer_slice self' = writer_slice self @ tag_enc num LengthDelimited @ delimited_enc (varints_enc vs)
              | Inl e \<Rightarrow> e = OutOfMemory \<and> (\<exists>p. prefix p (tag_enc num LengthDelimited @ delimited_enc (varints_enc vs))
                  \<and> writer_slice self' = writer_slice self @ p))"
  assume ok: "writer_ok self"
  have "writer_ok (writer_init (allocator self))" by (simp add: writer_ok_def writer_init_def)
  with writeVarints_appends [of vs] show "?goal (writePackedVarints num vs self)"
  proof (cases rule: appendsE)
    case (ok pw)
    let ?self = "self\<lparr>allocator := allocator pw\<rparr>"
    have "writer_slice pw = varints_enc vs" using ok(3) by (simp add: writer_slice_def writer_init_def)
    then have call: "writePackedVarints num vs self = writeBytes num (varints_enc vs) ?self"
      using ok(1) by (simp add: writePackedVarints_def)
    have self: "writer_ok ?self" "writer_slice ?self = writer_slice self"
      using \<open>writer_ok self\<close> by (simp_all add: writer_ok_def writer_slice_def)
    show ?thesis
      using bytes.writes_appends [OF assms, unfolded appends_def, rule_format, OF self(1)] unfolding call self(2) .
  next
    case (oom pw p)
    then show ?thesis using \<open>writer_ok self\<close>
      by (auto simp: writePackedVarints_def writer_ok_def writer_slice_def intro!: exI [of _ "[]"])
  qed
qed

section \<open>Properties\<close>

text \<open>
  \<open>fields_read_back wt w r valid\<close>: whatever fields of a kind are written, into an empty writer and
  with any allocator, the reader gives them back in order and ends at the end of the output.
\<close>

definition fields_read_back ::
    "wire_type \<Rightarrow> (field_number \<Rightarrow> 'v \<Rightarrow> unit writing) \<Rightarrow> 'v reading \<Rightarrow> ('v \<Rightarrow> bool) \<Rightarrow> bool" where
  "fields_read_back wt w r valid \<longleftrightarrow> (\<forall>fs al self.
     (\<forall>(num, v) \<in> set fs. num \<noteq> 0 \<and> valid v) \<and> write_fields w fs (writer_init al) = Some (Inr (), self) \<longrightarrow>
     (\<exists>rest. read_fields wt r (Suc (length fs)) (reader_init (writer_slice self)) = Some (Inr fs, rest) \<and> eof rest))"

lemma empty_writer: "writer_ok (writer_init al)" "writer_slice (writer_init al) = []"
  by (simp_all add: writer_ok_def writer_slice_def writer_init_def)

text \<open>
  C8: every field writer of \<open>Writer\<close> and the reader of its type invert each other, for all
  thirteen scalar types and for length-delimited fields: a sequence of fields is read back
  with its numbers and its values, up to the end of the output.
\<close>

theorem writer_reader_roundtrip:
  "fields_read_back Varint writeUInt32 readUInt32 (\<lambda>_. True) \<and> fields_read_back Varint writeUInt64 readUInt64 (\<lambda>_. True) \<and>
   fields_read_back Varint writeInt32 readInt32 (\<lambda>_. True) \<and> fields_read_back Varint writeInt64 readInt64 (\<lambda>_. True) \<and>
   fields_read_back Varint writeSInt32 readSInt32 (\<lambda>_. True) \<and> fields_read_back Varint writeSInt64 readSInt64 (\<lambda>_. True) \<and>
   fields_read_back Varint writeBool readBool (\<lambda>_. True) \<and>
   fields_read_back Fixed32 writeFixed32 readFixed32 (\<lambda>_. True) \<and> fields_read_back Fixed64 writeFixed64 readFixed64 (\<lambda>_. True) \<and>
   fields_read_back Fixed32 writeSFixed32 readSFixed32 (\<lambda>_. True) \<and> fields_read_back Fixed64 writeSFixed64 readSFixed64 (\<lambda>_. True) \<and>
   fields_read_back Fixed32 writeFloat readFloat (\<lambda>_. True) \<and> fields_read_back Fixed64 writeDouble readDouble (\<lambda>_. True) \<and>
   fields_read_back LengthDelimited writeBytes readBytes fits_usize"
  unfolding fields_read_back_def
  by (intro conjI allI impI; elim conjE;
      (rule uint32.fields_roundtrip uint64.fields_roundtrip int32.fields_roundtrip int64.fields_roundtrip sint32.fields_roundtrip
         sint64.fields_roundtrip bool.fields_roundtrip fixed32.fields_roundtrip fixed64.fields_roundtrip sfixed32.fields_roundtrip
         sfixed64.fields_roundtrip float.fields_roundtrip double.fields_roundtrip bytes.fields_roundtrip);
      (assumption | rule empty_writer))

text \<open>
  C9: the writers without growth write what the growing ones write: the same output in
  the memory that is there, and a panic when a reservation was too small for it.
\<close>

theorem capacity_writers_agree:
  "capacity_agree writeUInt32 writeUInt32AssumeCapacity (\<lambda>_. True) \<and> capacity_agree writeUInt64 writeUInt64AssumeCapacity (\<lambda>_. True) \<and>
   capacity_agree writeInt32 writeInt32AssumeCapacity (\<lambda>_. True) \<and> capacity_agree writeInt64 writeInt64AssumeCapacity (\<lambda>_. True) \<and>
   capacity_agree writeSInt32 writeSInt32AssumeCapacity (\<lambda>_. True) \<and> capacity_agree writeSInt64 writeSInt64AssumeCapacity (\<lambda>_. True) \<and>
   capacity_agree writeBool writeBoolAssumeCapacity (\<lambda>_. True) \<and>
   capacity_agree writeFixed32 writeFixed32AssumeCapacity (\<lambda>_. True) \<and> capacity_agree writeFixed64 writeFixed64AssumeCapacity (\<lambda>_. True) \<and>
   capacity_agree writeSFixed32 writeSFixed32AssumeCapacity (\<lambda>_. True) \<and> capacity_agree writeSFixed64 writeSFixed64AssumeCapacity (\<lambda>_. True) \<and>
   capacity_agree writeFloat writeFloatAssumeCapacity (\<lambda>_. True) \<and> capacity_agree writeDouble writeDoubleAssumeCapacity (\<lambda>_. True) \<and>
   capacity_agree writeBytes writeBytesAssumeCapacity fits_usize \<and> capacity_agree writeString writeStringAssumeCapacity fits_usize \<and>
   capacity_agree writeMessage writeMessageAssumeCapacity fits_usize"
  by (intro conjI uint32.capacity_agree uint64.capacity_agree int32.capacity_agree int64.capacity_agree sint32.capacity_agree
      sint64.capacity_agree bool.capacity_agree fixed32.capacity_agree fixed64.capacity_agree sfixed32.capacity_agree
      sfixed64.capacity_agree float.capacity_agree double.capacity_agree bytes.capacity_agree string.capacity_agree
      submessage.capacity_agree)

text \<open>
  \<open>writePackedVarints\<close> never panics: it appends one length-delimited field with the
  canonical varints of the values, in their order, or reports that the allocator refused
  and leaves a prefix of that field.
\<close>

theorem writePackedVarints_field:
  assumes "num \<noteq> 0" "fits_usize (varints_enc vs)"
  shows "appends (writePackedVarints num vs)
    (varint_enc (unat num * 8 + 2) @ varint_enc (length (varints_enc vs)) @ varints_enc vs)"
  using writePackedVarints_appends [OF assms] by (simp add: tag_enc_def delimited_enc_def)

lemma varint_enc_300: "varint_enc 300 = [0xAC, 2]"
  by (simp add: varint_enc.simps [of 300] varint_enc.simps [of 2])

theorem writePackedVarints_field_witness: "appends (writePackedVarints 1 [3, 300]) [0x0A, 3, 3, 0xAC, 2]"
  using writePackedVarints_field [of 1 "[3, 300]"]
  by (simp add: varints_enc_def fits_usize_def usize_max_def varint_enc_small varint_enc_300)

text \<open>
  A writer given field number 0 fails before it writes anything, but its twin without
  growth stores a tag that no reader accepts.
\<close>

theorem zero_field_number:
  "writeTag 0 wt self = Some (Inl (WireError InvalidFieldNumber), self) \<and>
   writeTagAssumeCapacity 0 wt = stores [of_nat (intFromEnum wt)] \<and>
   nextTag (reader_init [of_nat (intFromEnum wt)]) = Some (Inl InvalidFieldNumber, reader_init [of_nat (intFromEnum wt)] \<lparr>index := 1\<rparr>)"
proof (intro conjI)
  show "writeTagAssumeCapacity 0 wt = stores [of_nat (intFromEnum wt)]"
    using intFromEnum_less [of wt] by (simp add: stored tag_enc_def varint_enc_small)
  show "nextTag (reader_init [of_nat (intFromEnum wt)]) = Some (Inl InvalidFieldNumber, reader_init [of_nat (intFromEnum wt)] \<lparr>index := 1\<rparr>)"
    by (cases wt) (simp_all add: nextTag_def eof_def reader_init_def tryIn_def readVarint_def readVarintAt_refines tag_decode_def)
qed (simp add: writeTag_zero)

end
