(* ===== verification/Wire_Raw.thy ===== *)
theory Wire_Raw
  imports Wire_Writer "HOL-Library.Multiset"
begin

unbundle bit_operations_syntax

text \<open>
  The raw unknown fields of \<open>src/wire.zig\<close>: lists of encoded fields that a message keeps
  as it read them. A slice the code allocates is a list, an allocation asks the allocator
  once and may be refused, freeing memory is not modelled. \<open>catch unreachable\<close> and a failed
  assertion are panics, \<open>None\<close>.
\<close>

section \<open>The number of a raw field\<close>

definition rawFieldNumber :: "bytes \<Rightarrow> wire_error + field_number" where
  "rawFieldNumber raw_field = (case readVarintAt raw_field 0 of
       (Inl e, _) \<Rightarrow> Inl e
     | (Inr raw_tag, used) \<Rightarrow>
         if used > 5 then Inl MalformedVarint
         else (case tag_decode raw_tag of Inl e \<Rightarrow> Inl e | Inr t \<Rightarrow> Inr (number t)))"

fun rawFieldCount_loop :: "nat \<Rightarrow> bytes list \<Rightarrow> field_number \<Rightarrow> wire_error + nat" where
  "rawFieldCount_loop cnt [] num = Inr cnt"
| "rawFieldCount_loop cnt (raw # raws) num =
     (if raw = [] then rawFieldCount_loop cnt raws num
      else (case rawFieldNumber raw of
              Inl e \<Rightarrow> Inl e
            | Inr n \<Rightarrow> rawFieldCount_loop (if n = num then cnt + 1 else cnt) raws num))"

definition rawFieldCountByNumber :: "bytes list \<Rightarrow> field_number \<Rightarrow> wire_error + nat" where
  "rawFieldCountByNumber raws num = rawFieldCount_loop 0 raws num"

type_synonym 'a allocating = "(alloc, write_error, 'a) op"

text \<open>
  \<open>allocator.alloc(T, n)\<close>: an empty slice asks for nothing, one that does not fit in the
  address space is refused without asking.
\<close>

definition allocSlice :: "nat \<Rightarrow> nat \<Rightarrow> unit allocating" where
  "allocSlice elem_size n = (\<lambda>al.
     if elem_size * n = 0 then Some (Inr (), al)
     else if usize_max < elem_size * n then Some (Inl OutOfMemory, al)
     else (case request (elem_size * n) al of
         (None, al') \<Rightarrow> Some (Inl OutOfMemory, al')
       | (Some _, al') \<Rightarrow> Some (Inr (), al')))"

definition liftField :: "wire_error + 'a \<Rightarrow> 'a allocating" where
  "liftField r = (case r of Inl e \<Rightarrow> throw (WireError e) | Inr x \<Rightarrow> return x)"

fun decodeNumbers :: "bytes list \<Rightarrow> wire_error + field_number list" where
  "decodeNumbers [] = Inr []"
| "decodeNumbers (raw # raws) = (case (if raw = [] then Inr 0 else rawFieldNumber raw) of
       Inl e \<Rightarrow> Inl e
     | Inr n \<Rightarrow> (case decodeNumbers raws of Inl e \<Rightarrow> Inl e | Inr ns \<Rightarrow> Inr (n # ns)))"

definition rawFieldNumbersAlloc :: "bytes list \<Rightarrow> field_number list allocating" where
  "rawFieldNumbersAlloc raws =
     (if raws = [] then return []
      else tryIn (allocSlice 4 (length raws)) (\<lambda>_. liftField (decodeNumbers raws)))"

definition rawFieldNumberCount :: "field_number list \<Rightarrow> field_number \<Rightarrow> nat" where
  "rawFieldNumberCount numbers num = foldl (\<lambda>cnt candidate. if candidate = num then cnt + 1 else cnt) 0 numbers"

section \<open>Runs of equal numbers\<close>

record RawFieldNumberRun =
  run_number :: field_number
  run_count :: nat

text \<open>
  The loop that both passes over the sorted numbers share: from one index to the end of
  its run of equal numbers.
\<close>

function runEnd :: "field_number list \<Rightarrow> field_number \<Rightarrow> nat \<Rightarrow> nat" where
  "runEnd numbers num next =
     (if next < length numbers \<and> numbers ! next = num then runEnd numbers num (next + 1) else next)"
  by pat_completeness auto
termination by (relation "measure (\<lambda>(numbers, num, next). length numbers - next)") auto

declare runEnd.simps [simp del]

lemma runEnd_ge: "next \<le> runEnd numbers num next"
  by (induction numbers num "next" rule: runEnd.induct) (subst runEnd.simps, auto)

function countRuns :: "field_number list \<Rightarrow> nat \<Rightarrow> nat \<Rightarrow> nat" where
  "countRuns numbers run_total start =
     (if start < length numbers
      then countRuns numbers (if numbers ! start \<noteq> 0 then run_total + 1 else run_total)
             (runEnd numbers (numbers ! start) (start + 1))
      else run_total)"
  by pat_completeness auto
termination
  by (relation "measure (\<lambda>(numbers, run_total, start). length numbers - start)")
    (auto intro!: diff_less_mono2 less_le_trans [OF _ runEnd_ge])

declare countRuns.simps [simp del]

text \<open>The second pass stores the runs one after another into the slice of \<open>run_count\<close> entries.\<close>

function fillRuns :: "field_number list \<Rightarrow> nat \<Rightarrow> RawFieldNumberRun list \<Rightarrow> RawFieldNumberRun list" where
  "fillRuns numbers start stored_runs =
     (if start < length numbers
      then (let num = numbers ! start; next = runEnd numbers num (start + 1) in
            fillRuns numbers next
              (if num \<noteq> 0 then stored_runs @ [\<lparr>run_number = num, run_count = next - start\<rparr>] else stored_runs))
      else stored_runs)"
  by pat_completeness auto
termination
  by (relation "measure (\<lambda>(numbers, start, stored_runs). length numbers - start)")
    (auto intro!: diff_less_mono2 less_le_trans [OF _ runEnd_ge])

declare fillRuns.simps [simp del]

definition rawFieldNumberRunsFromSortedNumbersAlloc :: "field_number list \<Rightarrow> RawFieldNumberRun list allocating" where
  "rawFieldNumberRunsFromSortedNumbersAlloc numbers =
     (let run_total = countRuns numbers 0 0 in
      if run_total = 0 then return []
      else tryIn (allocSlice 16 run_total) (\<lambda>_.
        let stored_runs = fillRuns numbers 0 [] in
        if length stored_runs \<noteq> run_total then (\<lambda>_. None) else return stored_runs))"

text \<open>\<open>std.mem.sort\<close> with \<open>std.sort.asc\<close> on numbers.\<close>

definition rawFieldNumberRunsFromNumbersInPlaceAlloc :: "field_number list \<Rightarrow> RawFieldNumberRun list allocating" where
  "rawFieldNumberRunsFromNumbersInPlaceAlloc numbers =
     (if numbers = [] then return [] else rawFieldNumberRunsFromSortedNumbersAlloc (sort numbers))"

definition rawFieldNumberRunsFromNumbersAlloc :: "field_number list \<Rightarrow> RawFieldNumberRun list allocating" where
  "rawFieldNumberRunsFromNumbersAlloc numbers =
     (if numbers = [] then return []
      else tryIn (allocSlice 4 (length numbers)) (\<lambda>_. rawFieldNumberRunsFromNumbersInPlaceAlloc numbers))"

definition rawFieldNumberRunsAlloc :: "bytes list \<Rightarrow> RawFieldNumberRun list allocating" where
  "rawFieldNumberRunsAlloc raws =
     (if raws = [] then return []
      else tryIn (rawFieldNumbersAlloc raws) rawFieldNumberRunsFromNumbersInPlaceAlloc)"

function runCount_search :: "RawFieldNumberRun list \<Rightarrow> field_number \<Rightarrow> nat \<Rightarrow> nat \<Rightarrow> nat" where
  "runCount_search number_runs num low high =
     (if low < high
      then (let mid = low + (high - low) div 2; candidate = run_number (number_runs ! mid) in
            if candidate < num then runCount_search number_runs num (mid + 1) high
            else if candidate > num then runCount_search number_runs num low mid
            else run_count (number_runs ! mid))
      else 0)"
  by pat_completeness auto
termination by (relation "measure (\<lambda>(number_runs, num, low, high). high - low)") (auto simp: Let_def)

declare runCount_search.simps [simp del]

definition rawFieldNumberRunCount :: "RawFieldNumberRun list \<Rightarrow> field_number \<Rightarrow> nat" where
  "rawFieldNumberRunCount number_runs num = runCount_search number_runs num 0 (length number_runs)"

section \<open>The matcher of validated fields\<close>

record RawFieldNumberMatcher =
  wanted :: field_number
  low_start :: byte
  canonical_tag :: bytes
  canonical_tag_len :: nat

definition matcher_init :: "field_number \<Rightarrow> RawFieldNumberMatcher option" where
  "matcher_init num =
     (let tag_base = push_bit 3 (ucast num) :: u64 in
      Option.bind (writeVarintToBuffer (replicate 5 0xAA) tag_base) (\<lambda>(tag_buffer, tag_len).
      Option.bind (intCast_u8 (tag_base AND 0x7F)) (\<lambda>low.
      Some \<lparr>wanted = num, low_start = low, canonical_tag = tag_buffer, canonical_tag_len = tag_len\<rparr>)))"

definition firstByteMayMatch :: "RawFieldNumberMatcher \<Rightarrow> byte \<Rightarrow> bool" where
  "firstByteMayMatch self first =
     (let low = first AND 0x7F in
      if low < low_start self \<or> low > low_start self + 5 then False
      else wanted self < 16 \<or> first \<ge> 0x80)"

definition startsWithCanonicalNumberTag :: "RawFieldNumberMatcher \<Rightarrow> bytes \<Rightarrow> bool" where
  "startsWithCanonicalNumberTag self raw =
     (let n = canonical_tag_len self; same = (\<lambda>i. raw ! i = canonical_tag self ! i) in
      if length raw < n then False
      else if n = 1 then raw ! 0 < 0x80
      else if raw ! 0 < 0x80 then False
      else list_all same [1..<n])"

text \<open>\<open>rawFieldNumber(raw) catch unreachable\<close>: a panic on a field that does not decode.\<close>

definition matches :: "RawFieldNumberMatcher \<Rightarrow> bytes \<Rightarrow> bool option" where
  "matches self raw =
     (if raw = [] \<or> wanted self = 0 then Some False
      else if \<not> firstByteMayMatch self (raw ! 0) then Some False
      else if startsWithCanonicalNumberTag self raw then Some True
      else (case rawFieldNumber raw of Inl _ \<Rightarrow> None | Inr n \<Rightarrow> Some (n = wanted self)))"

fun countMatching :: "nat \<Rightarrow> bytes list \<Rightarrow> RawFieldNumberMatcher \<Rightarrow> nat option" where
  "countMatching cnt [] matcher = Some cnt"
| "countMatching cnt (raw # raws) matcher = (case matches matcher raw of
       None \<Rightarrow> None
     | Some b \<Rightarrow> countMatching (if b then cnt + 1 else cnt) raws matcher)"

definition rawFieldCountByNumberWithMatcher :: "bytes list \<Rightarrow> RawFieldNumberMatcher \<Rightarrow> nat option" where
  "rawFieldCountByNumberWithMatcher raws matcher = countMatching 0 raws matcher"

definition rawFieldCountByNumberAssumeValid :: "bytes list \<Rightarrow> field_number \<Rightarrow> nat option" where
  "rawFieldCountByNumberAssumeValid raws num =
     Option.bind (matcher_init num) (\<lambda>matcher. rawFieldCountByNumberWithMatcher raws matcher)"

fun anyMatching :: "bytes list \<Rightarrow> RawFieldNumberMatcher \<Rightarrow> bool option" where
  "anyMatching [] matcher = Some False"
| "anyMatching (raw # raws) matcher = (case matches matcher raw of
       None \<Rightarrow> None
     | Some b \<Rightarrow> if b then Some True else anyMatching raws matcher)"

definition rawFieldHasNumberAssumeValid :: "bytes list \<Rightarrow> field_number \<Rightarrow> bool option" where
  "rawFieldHasNumberAssumeValid raws num = Option.bind (matcher_init num) (\<lambda>matcher. anyMatching raws matcher)"

section \<open>Slices of fields\<close>

fun matchedFields :: "bytes list \<Rightarrow> field_number \<Rightarrow> wire_error + bytes list" where
  "matchedFields [] num = Inr []"
| "matchedFields (raw # raws) num =
     (if raw = [] then matchedFields raws num
      else (case rawFieldNumber raw of
              Inl e \<Rightarrow> Inl e
            | Inr n \<Rightarrow> (case matchedFields raws num of
                  Inl e \<Rightarrow> Inl e
                | Inr ms \<Rightarrow> Inr (if n = num then raw # ms else ms))))"

definition assertThat :: "bool \<Rightarrow> ('s, 'e, unit) op" where
  "assertThat b = (if b then return () else (\<lambda>_. None))"

definition rawFieldsByNumberAlloc :: "bytes list \<Rightarrow> field_number \<Rightarrow> bytes list allocating" where
  "rawFieldsByNumberAlloc raws num = tryIn (liftField (rawFieldCountByNumber raws num)) (\<lambda>cnt.
     if cnt = 0 then return []
     else tryIn (allocSlice 16 cnt) (\<lambda>_.
          tryIn (liftField (matchedFields raws num)) (\<lambda>matched.
          tryIn (assertThat (length matched = cnt)) (\<lambda>_.
          return matched))))"

fun filterMatching :: "bytes list \<Rightarrow> RawFieldNumberMatcher \<Rightarrow> bytes list option" where
  "filterMatching [] matcher = Some []"
| "filterMatching (raw # raws) matcher = (case matches matcher raw of
       None \<Rightarrow> None
     | Some b \<Rightarrow> map_option (\<lambda>ms. if b then raw # ms else ms) (filterMatching raws matcher))"

definition orPanic :: "'a option \<Rightarrow> ('s, 'e, 'a) op" where
  "orPanic r = (case r of None \<Rightarrow> (\<lambda>_. None) | Some x \<Rightarrow> return x)"

definition rawFieldsByNumberAllocAssumeValid :: "bytes list \<Rightarrow> field_number \<Rightarrow> bytes list allocating" where
  "rawFieldsByNumberAllocAssumeValid raws num =
     tryIn (orPanic (matcher_init num)) (\<lambda>matcher.
     tryIn (orPanic (rawFieldCountByNumberWithMatcher raws matcher)) (\<lambda>cnt.
     if cnt = 0 then return []
     else tryIn (allocSlice 16 cnt) (\<lambda>_.
          tryIn (orPanic (filterMatching raws matcher)) (\<lambda>matched.
          tryIn (assertThat (length matched = cnt)) (\<lambda>_.
          return matched)))))"

text \<open>One copy of each field; a refusal on the way frees the copies and fails.\<close>

fun dupeFields :: "bytes list \<Rightarrow> bytes list allocating" where
  "dupeFields [] = return []"
| "dupeFields (raw # raws) =
     tryIn (allocSlice 1 (length raw)) (\<lambda>_. tryIn (dupeFields raws) (\<lambda>copies. return (raw # copies)))"

definition cloneRawFields :: "bytes list \<Rightarrow> bytes list allocating" where
  "cloneRawFields raws =
     (if raws = [] then return []
      else tryIn (allocSlice 16 (length raws)) (\<lambda>_. dupeFields raws))"

section \<open>Validation and the unknown fields of a message\<close>

definition validateRawField :: "bytes \<Rightarrow> (wire_error + unit) option" where
  "validateRawField raw =
     map_option fst (tryIn nextTag (\<lambda>t. case t of
         None \<Rightarrow> throw InvalidWireType
       | Some t \<Rightarrow> tryIn (skipValue t) (\<lambda>_ self.
           Some (if \<not> eof self then Inl InvalidWireType else Inr (), self))) (reader_init raw))"

fun validateAll :: "bytes list \<Rightarrow> (wire_error + unit) option" where
  "validateAll [] = Some (Inr ())"
| "validateAll (raw # raws) = (case validateRawField raw of
       None \<Rightarrow> None
     | Some (Inl e) \<Rightarrow> Some (Inl e)
     | Some (Inr _) \<Rightarrow> validateAll raws)"

text \<open>The field \<open>fields: *[]const []const u8\<close> of a message, with the allocator.\<close>

record field_store =
  store_alloc :: alloc
  store_fields :: "bytes list"

type_synonym 'a storing = "(field_store, write_error, 'a) op"

definition onAlloc :: "'a allocating \<Rightarrow> 'a storing" where
  "onAlloc m = (\<lambda>st. case m (store_alloc st) of
       None \<Rightarrow> None
     | Some (r, al) \<Rightarrow> Some (r, st\<lparr>store_alloc := al\<rparr>))"

definition appendRawFieldsCloneUnchecked :: "bytes list \<Rightarrow> unit storing" where
  "appendRawFieldsCloneUnchecked raws = (\<lambda>st.
     let old = store_fields st in
     tryIn (onAlloc (allocSlice 16 (length old + length raws))) (\<lambda>_.
     tryIn (onAlloc (dupeFields raws)) (\<lambda>copies st.
     Some (Inr (), st\<lparr>store_fields := old @ copies\<rparr>))) st)"

definition appendRawFieldsClone :: "bytes list \<Rightarrow> unit storing" where
  "appendRawFieldsClone raws =
     (if raws = [] then return ()
      else (case validateAll raws of
              None \<Rightarrow> (\<lambda>_. None)
            | Some (Inl e) \<Rightarrow> throw (WireError e)
            | Some (Inr _) \<Rightarrow> appendRawFieldsCloneUnchecked raws))"

definition appendRawFieldClone :: "bytes \<Rightarrow> unit storing" where
  "appendRawFieldClone raw = appendRawFieldsClone [raw]"

definition clearRawFields :: "unit storing" where
  "clearRawFields = (\<lambda>st. Some (Inr (), st\<lparr>store_fields := []\<rparr>))"

fun countKept :: "nat \<Rightarrow> nat \<Rightarrow> bytes list \<Rightarrow> field_number \<Rightarrow> wire_error + nat \<times> nat" where
  "countKept keep remove [] num = Inr (keep, remove)"
| "countKept keep remove (raw # raws) num =
     (if raw = [] then countKept keep (remove + 1) raws num
      else (case rawFieldNumber raw of
              Inl e \<Rightarrow> Inl e
            | Inr n \<Rightarrow> if n = num then countKept keep (remove + 1) raws num else countKept (keep + 1) remove raws num))"

fun keptFields :: "bytes list \<Rightarrow> field_number \<Rightarrow> bytes list option" where
  "keptFields [] num = Some []"
| "keptFields (raw # raws) num =
     (if raw = [] then keptFields raws num
      else (case rawFieldNumber raw of
              Inl _ \<Rightarrow> None
            | Inr n \<Rightarrow> if n = num then keptFields raws num else map_option (Cons raw) (keptFields raws num)))"

definition clearRawFieldsByNumber :: "field_number \<Rightarrow> unit storing" where
  "clearRawFieldsByNumber num = (\<lambda>st. case countKept 0 0 (store_fields st) num of
       Inl e \<Rightarrow> Some (Inl (WireError e), st)
     | Inr (keep, remove) \<Rightarrow>
         if remove = 0 then Some (Inr (), st)
         else tryIn (if keep \<noteq> 0 then onAlloc (allocSlice 16 keep) else return ()) (\<lambda>_.
              tryIn (orPanic (keptFields (store_fields st) num)) (\<lambda>kept.
              tryIn (assertThat (length kept = keep)) (\<lambda>_ st.
              Some (Inr (), st\<lparr>store_fields := kept\<rparr>)))) st)"

section \<open>Raw fields while decoding\<close>

record raw_list =
  entries :: "bytes list"
  list_capacity :: nat

record decoding =
  dec_alloc :: alloc
  dec_list :: raw_list
  dec_reader :: reader

type_synonym 'a decodes = "(decoding, write_error, 'a) op"

definition allocDec :: "'a allocating \<Rightarrow> 'a decodes" where
  "allocDec m = (\<lambda>st. case m (dec_alloc st) of
       None \<Rightarrow> None
     | Some (r, al) \<Rightarrow> Some (r, st\<lparr>dec_alloc := al\<rparr>))"

text \<open>Growth of the list of slices to hold \<open>n\<close> of them, with whatever surplus is granted.\<close>

definition ensureListCapacity :: "nat \<Rightarrow> unit decodes" where
  "ensureListCapacity n = (\<lambda>st.
     if n \<le> list_capacity (dec_list st) then Some (Inr (), st)
     else if usize_max < 16 * n then Some (Inl OutOfMemory, st)
     else (case request (16 * n) (dec_alloc st) of
         (None, al) \<Rightarrow> Some (Inl OutOfMemory, st\<lparr>dec_alloc := al\<rparr>)
       | (Some surplus, al) \<Rightarrow>
           Some (Inr (), st\<lparr>dec_alloc := al, dec_list := (dec_list st)\<lparr>list_capacity := n + surplus div 16\<rparr>\<rparr>)))"

definition appendOwnedRawField :: "bytes \<Rightarrow> unit decodes" where
  "appendOwnedRawField raw = (\<lambda>st.
     tryIn (ensureListCapacity (length (entries (dec_list st)) + 1)) (\<lambda>_ st.
     Some (Inr (), st\<lparr>dec_list := (dec_list st)\<lparr>entries := entries (dec_list st) @ [raw]\<rparr>\<rparr>)) st)"

definition appendConsumedRawField :: "nat \<Rightarrow> unit decodes" where
  "appendConsumedRawField raw_start = (\<lambda>st.
     let raw_end = position (dec_reader st); data = input (dec_reader st) in
     if raw_start > raw_end \<or> raw_end > length data then Some (Inl (WireError InvalidWireType), st)
     else tryIn (if list_capacity (dec_list st) = 0
                 then (let raw_len = raw_end - raw_start;
                           remaining_bytes = length data - raw_start;
                           average_field_len = max raw_len 1;
                           estimated_fields = max 4 (min 512 (remaining_bytes div average_field_len))
                       in ensureListCapacity estimated_fields)
                 else return ()) (\<lambda>_.
          let raw = take (raw_end - raw_start) (drop raw_start data) in
          tryIn (allocDec (allocSlice 1 (length raw))) (\<lambda>_.
          appendOwnedRawField raw)) st)"

definition appendSkippedRawField :: "nat \<Rightarrow> tag \<Rightarrow> unit decodes" where
  "appendSkippedRawField raw_start t = (\<lambda>st. case skipValue t (dec_reader st) of
       None \<Rightarrow> None
     | Some (Inl e, self) \<Rightarrow> Some (Inl (WireError e), st\<lparr>dec_reader := self\<rparr>)
     | Some (Inr _, self) \<Rightarrow> appendConsumedRawField raw_start (st\<lparr>dec_reader := self\<rparr>))"

definition appendRawVarintPayload :: "field_number \<Rightarrow> bytes \<Rightarrow> unit decodes" where
  "appendRawVarintPayload num payload = (case tag_encode \<lparr>number = num, tag_type = Varint\<rparr> of
       Inl e \<Rightarrow> throw (WireError e)
     | Inr raw_tag \<Rightarrow>
         (let tag_len = encodedVarintSize raw_tag in
          tryIn (allocDec (allocSlice 1 (tag_len + length payload))) (\<lambda>_.
          tryIn (orPanic (writeVarintToBuffer (replicate tag_len 0xAA) raw_tag)) (\<lambda>(tag_buffer, written).
          tryIn (assertThat (written = tag_len)) (\<lambda>_.
          appendOwnedRawField (tag_buffer @ payload))))))"

definition rawFieldListToOwnedSlice :: "bytes list decodes" where
  "rawFieldListToOwnedSlice = (\<lambda>st.
     if entries (dec_list st) = [] then Some (Inr [], st\<lparr>dec_list := \<lparr>entries = [], list_capacity = 0\<rparr>\<rparr>)
     else tryIn (allocDec (allocSlice 16 (length (entries (dec_list st))))) (\<lambda>_ st.
       Some (Inr (entries (dec_list st)), st\<lparr>dec_list := \<lparr>entries = [], list_capacity = 0\<rparr>\<rparr>)) st)"

definition fieldRawSlice :: "bytes \<Rightarrow> nat \<Rightarrow> reader \<Rightarrow> bytes option" where
  "fieldRawSlice data start reader_after_value =
     (if start \<le> index reader_after_value \<and> index reader_after_value \<le> length data
      then Some (take (index reader_after_value - start) (drop start data)) else None)"

section \<open>Deterministic output\<close>

definition rawFieldFirstTag :: "bytes \<Rightarrow> tag option" where
  "rawFieldFirstTag raw = (case readVarintAt raw 0 of
       (Inl _, _) \<Rightarrow> None
     | (Inr raw_tag, used) \<Rightarrow>
         if used > 5 then None
         else (case tag_decode raw_tag of Inl _ \<Rightarrow> None | Inr t \<Rightarrow> Some t))"

definition rawFieldLess :: "bytes \<Rightarrow> bytes \<Rightarrow> bool" where
  "rawFieldLess raw_a raw_b = (case (rawFieldFirstTag raw_a, rawFieldFirstTag raw_b) of
       (Some tag_a, Some tag_b) \<Rightarrow>
         if number tag_a \<noteq> number tag_b then number tag_a < number tag_b
         else if tag_type tag_a \<noteq> tag_type tag_b then intFromEnum (tag_type tag_a) < intFromEnum (tag_type tag_b)
         else mem_lessThan raw_a raw_b
     | _ \<Rightarrow> mem_lessThan raw_a raw_b)"

definition deterministicRawFieldIndexLessThan :: "bytes list \<Rightarrow> nat \<Rightarrow> nat \<Rightarrow> bool" where
  "deterministicRawFieldIndexLessThan raws a b = rawFieldLess (raws ! a) (raws ! b)"

text \<open>
  \<open>std.mem.sort\<close> is a stable sort: for a strict weak order all stable sorts agree, and the
  model is the insertion sort. For a comparison that is no such order the arrangement that
  \<open>std.mem.sort\<close> returns is another one, and no theorem speaks of it.
\<close>

fun insert_by :: "('a \<Rightarrow> 'a \<Rightarrow> bool) \<Rightarrow> 'a \<Rightarrow> 'a list \<Rightarrow> 'a list" where
  "insert_by lt x [] = [x]"
| "insert_by lt x (y # ys) = (if lt x y then x # y # ys else y # insert_by lt x ys)"

definition sort_by :: "('a \<Rightarrow> 'a \<Rightarrow> bool) \<Rightarrow> 'a list \<Rightarrow> 'a list" where
  "sort_by lt xs = foldl (\<lambda>sorted_part x. insert_by lt x sorted_part) [] xs"

definition deterministicRawFieldIndexes :: "bytes list \<Rightarrow> nat list allocating" where
  "deterministicRawFieldIndexes raws =
     tryIn (allocSlice 8 (length raws)) (\<lambda>_.
     return (sort_by (deterministicRawFieldIndexLessThan raws) [0..<length raws]))"

fun eachIndex :: "(bytes \<Rightarrow> unit writing) \<Rightarrow> bytes list \<Rightarrow> nat list \<Rightarrow> unit writing" where
  "eachIndex append_op raws [] = return ()"
| "eachIndex append_op raws (i # is) = tryIn (append_op (raws ! i)) (\<lambda>_. eachIndex append_op raws is)"

text \<open>The scratch allocator is an argument of its own, next to the writer.\<close>

definition writeDeterministic :: "(bytes \<Rightarrow> unit writing) \<Rightarrow> bytes list \<Rightarrow> alloc \<Rightarrow> unit writing" where
  "writeDeterministic append_op raws al =
     (if raws = [] then return ()
      else if length raws = 1 then append_op (raws ! 0)
      else (case deterministicRawFieldIndexes raws al of
              None \<Rightarrow> (\<lambda>_. None)
            | Some (Inl e, _) \<Rightarrow> throw e
            | Some (Inr indexes, _) \<Rightarrow> eachIndex append_op raws indexes))"

definition writeRawFieldsDeterministic :: "bytes list \<Rightarrow> alloc \<Rightarrow> unit writing" where
  "writeRawFieldsDeterministic raws al = writeDeterministic appendSlice raws al"

definition writeRawFieldsDeterministicAssumeCapacity :: "bytes list \<Rightarrow> alloc \<Rightarrow> unit writing" where
  "writeRawFieldsDeterministicAssumeCapacity raws al = writeDeterministic appendSliceAssumeCapacity raws al"

section \<open>Decoding the first tag\<close>

lemma rawFieldFirstTag_iff: "rawFieldFirstTag raw = Some t \<longleftrightarrow> (\<exists>bs rest. raw = bs @ rest \<and> tag_bytes bs t)"
proof -
  have "rawFieldFirstTag raw = Some t \<longleftrightarrow> (\<exists>s. nextTag (reader_init raw) = Some (Inr (Some t), s))"
  proof (cases "raw = []")
    case True
    then show ?thesis
      by (simp add: rawFieldFirstTag_def nextTag_def eof_def reader_init_def readVarintAt_refines)
  next
    case False
    then show ?thesis
      by (auto simp: rawFieldFirstTag_def nextTag_def eof_def reader_init_def tryIn_def readVarint_def
          split: prod.splits sum.splits)
  qed
  also have "\<dots> \<longleftrightarrow> (\<exists>bs rest. raw = bs @ rest \<and> tag_bytes bs t)"
    by (simp add: nextTag_iff [OF reader_ok_init]) (simp add: rest_of_def reader_init_def)
  finally show ?thesis .
qed

lemma rawFieldNumber_iff: "rawFieldNumber raw = Inr n \<longleftrightarrow> (\<exists>t. rawFieldFirstTag raw = Some t \<and> number t = n)"
  by (auto simp: rawFieldNumber_def rawFieldFirstTag_def split: prod.splits sum.splits)

section \<open>Validation\<close>

text \<open>\<open>field_bytes t raw\<close>: \<open>raw\<close> is one field, a tag and its value, and nothing else.\<close>

definition field_bytes :: "tag \<Rightarrow> bytes \<Rightarrow> bool" where
  "field_bytes t raw \<longleftrightarrow> (\<exists>tb vb. raw = tb @ vb \<and> tag_bytes tb t \<and> value_bytes 100 t vb)"

lemma validateRawField_result: "\<exists>r. validateRawField raw = Some r"
proof -
  let ?m = "tryIn nextTag (\<lambda>t. case t of None \<Rightarrow> throw InvalidWireType
       | Some t \<Rightarrow> tryIn (skipValue t) (\<lambda>_ self. Some (if \<not> eof self then Inl InvalidWireType else Inr (), self)))"
  have "reads_ok (\<lambda>self. Some (if \<not> eof self then Inl InvalidWireType else Inr (), self))"
    by (rule reads_okI) auto
  then have "reads_ok ?m" by (auto intro!: reading split: option.splits)
  then obtain r s where "?m (reader_init raw) = Some (r, s)"
    using reads_ok_ex [OF _ reader_ok_init] by blast
  then show ?thesis by (simp add: validateRawField_def)
qed

lemma validateRawField_iff: "validateRawField raw = Some (Inr ()) \<longleftrightarrow> (\<exists>t. field_bytes t raw)"
proof
  assume "validateRawField raw = Some (Inr ())"
  then obtain t s s' where t: "nextTag (reader_init raw) = Some (Inr (Some t), s)"
    and v: "skipValue t s = Some (Inr (), s')" and e: "eof s'"
    by (auto simp: validateRawField_def tryIn_def split: option.splits sum.splits if_splits)
  obtain tb rest where tb: "raw = tb @ rest" "tag_bytes tb t"
    "s = (reader_init raw)\<lparr>index := length tb, last_tag_start := 0\<rparr>"
    using nextTag_iff [OF reader_ok_init, THEN iffD1, OF t] by (auto simp: rest_of_def reader_init_def)
  have s: "reader_ok s" "rest_of s = rest" "depth_left s = 100"
    using tb by (auto simp: reader_ok_def rest_of_def reader_init_def depth_left_def)
  obtain vb rest' where vb: "rest = vb @ rest'" "index s' = index s + length vb" "rest_of s' = rest'"
    using skips_exists [OF reads_ok_skip(1) s(1) v] s(2) by metis
  have "value_bytes 100 t vb"
    using skips_iff_value_bytes [OF s(1), of t vb] v vb s by (auto simp: skips_def)
  moreover have "rest' = []" using e vb(3) by (simp add: eof_def rest_of_def)
  ultimately show "\<exists>t. field_bytes t raw" using tb vb by (auto simp: field_bytes_def)
next
  assume "\<exists>t. field_bytes t raw"
  then obtain t tb vb where f: "raw = tb @ vb" "tag_bytes tb t" "value_bytes 100 t vb"
    by (auto simp: field_bytes_def)
  let ?s = "(reader_init raw)\<lparr>index := length tb, last_tag_start := 0\<rparr>"
  have t: "nextTag (reader_init raw) = Some (Inr (Some t), ?s)"
    using f by (subst nextTag_iff [OF reader_ok_init]) (auto simp: rest_of_def reader_init_def)
  have s: "reader_ok ?s" "rest_of ?s = vb" "depth_left ?s = 100"
    using f by (auto simp: reader_ok_def rest_of_def reader_init_def depth_left_def)
  then have "skips (skipValue t) ?s vb"
    using skips_iff_value_bytes [OF s(1), of t vb] f by simp
  then obtain s' where v: "skipValue t ?s = Some (Inr (), s')" "index s' = index ?s + length vb"
    by (auto simp: skips_def)
  have "eof s'" using reads_okD2(2) [OF reads_ok_skip(1) s(1) v(1)] v(2) f(1)
    by (simp add: eof_def reader_step_def reader_init_def)
  then show "validateRawField raw = Some (Inr ())"
    using t v by (simp add: validateRawField_def tryIn_def)
qed

lemma validateAll_iff: "validateAll raws = Some (Inr ()) \<longleftrightarrow> (\<forall>raw \<in> set raws. \<exists>t. field_bytes t raw)"
proof (induction raws)
  case (Cons raw raws)
  obtain r where r: "validateRawField raw = Some r" using validateRawField_result by blast
  show ?case
  proof (cases r)
    case (Inr u)
    then show ?thesis using Cons r validateRawField_iff [of raw] by simp
  next
    case (Inl e)
    then have "\<nexists>t. field_bytes t raw" using r validateRawField_iff [of raw] by simp
    then show ?thesis using r Inl by simp
  qed
qed simp

lemma validateAll_result: "\<exists>r. validateAll raws = Some r"
proof (induction raws)
  case (Cons raw raws)
  obtain r where "validateRawField raw = Some r" using validateRawField_result by blast
  then show ?case using Cons by (cases r) auto
qed simp

section \<open>Appending is all or nothing\<close>

lemma allocSlice_cases: "\<exists>r al'. allocSlice n m al = Some (r, al') \<and> (r = Inr () \<or> r = Inl OutOfMemory)"
  by (auto simp: allocSlice_def request_def split: option.splits)

lemma dupeFields_cases: "\<exists>r al'. dupeFields raws al = Some (r, al') \<and> (r = Inr raws \<or> r = Inl OutOfMemory)"
proof (induction raws arbitrary: al)
  case (Cons raw raws)
  obtain r al' where a: "allocSlice 1 (length raw) al = Some (r, al')" "r = Inr () \<or> r = Inl OutOfMemory"
    using allocSlice_cases by blast
  obtain r2 al2 where "dupeFields raws al' = Some (r2, al2)" "r2 = Inr raws \<or> r2 = Inl OutOfMemory"
    using Cons by blast
  with a show ?case by (auto simp: tryIn_def)
qed simp

lemma appendRawFieldsCloneUnchecked_cases:
  "\<exists>r st'. appendRawFieldsCloneUnchecked raws st = Some (r, st') \<and>
     (r = Inr () \<and> store_fields st' = store_fields st @ raws \<or> r = Inl OutOfMemory \<and> store_fields st' = store_fields st)"
proof -
  obtain r al where a: "allocSlice 16 (length (store_fields st) + length raws) (store_alloc st) = Some (r, al)"
    "r = Inr () \<or> r = Inl OutOfMemory"
    using allocSlice_cases by blast
  obtain r2 al2 where "dupeFields raws al = Some (r2, al2)" "r2 = Inr raws \<or> r2 = Inl OutOfMemory"
    using dupeFields_cases by blast
  with a show ?thesis by (auto simp: appendRawFieldsCloneUnchecked_def onAlloc_def tryIn_def Let_def)
qed

lemma appendRawFieldsClone_cases:
  "\<exists>r st'. appendRawFieldsClone raws st = Some (r, st') \<and>
     (case r of Inr _ \<Rightarrow> (\<forall>raw \<in> set raws. \<exists>t. field_bytes t raw) \<and> store_fields st' = store_fields st @ raws
              | Inl e \<Rightarrow> store_fields st' = store_fields st)"
proof -
  obtain v where v: "validateAll raws = Some v" using validateAll_result by blast
  show ?thesis
  proof (cases v)
    case (Inr u)
    then have "\<forall>raw \<in> set raws. \<exists>t. field_bytes t raw" using v validateAll_iff by simp
    then show ?thesis
      using v Inr appendRawFieldsCloneUnchecked_cases [of raws st] by (auto simp: appendRawFieldsClone_def)
  next
    case (Inl e)
    then show ?thesis using v by (auto simp: appendRawFieldsClone_def)
  qed
qed

section \<open>Removing a number\<close>

text \<open>The fields of other numbers; empty entries belong to none.\<close>

definition others :: "bytes list \<Rightarrow> field_number \<Rightarrow> bytes list" where
  "others raws num = filter (\<lambda>raw. raw \<noteq> [] \<and> rawFieldNumber raw \<noteq> Inr num) raws"

lemma others_simps [simp]:
  "others [] num = []"
  "others (raw # raws) num =
     (if raw \<noteq> [] \<and> rawFieldNumber raw \<noteq> Inr num then raw # others raws num else others raws num)"
  by (simp_all add: others_def)

lemma filter_all_length: "length (filter P xs) = length xs \<Longrightarrow> filter P xs = xs"
  by (metis filter_id_conv length_filter_less less_irrefl)

lemma countKept_eq:
  "countKept keep remove raws num = Inr (k, r) \<Longrightarrow>
     keptFields raws num = Some (others raws num) \<and> k = keep + length (others raws num) \<and>
     r + length (others raws num) = remove + length raws"
proof (induction raws arbitrary: keep remove)
  case (Cons raw raws)
  show ?case
  proof (cases "raw = []")
    case True
    then show ?thesis using Cons.prems Cons.IH [of keep "remove + 1"] by simp
  next
    case False
    then obtain n where n: "rawFieldNumber raw = Inr n" using Cons.prems by (auto split: sum.splits)
    show ?thesis
    proof (cases "n = num")
      case True
      then show ?thesis using Cons.prems Cons.IH [of keep "remove + 1"] n False by simp
    next
      case other: False
      then show ?thesis using Cons.prems Cons.IH [of "keep + 1" remove] n False by simp
    qed
  qed
qed simp

lemma clearRawFieldsByNumber_cases:
  "\<exists>r st'. clearRawFieldsByNumber num st = Some (r, st') \<and>
     (case r of Inr _ \<Rightarrow> store_fields st' = others (store_fields st) num
              | Inl e \<Rightarrow> store_fields st' = store_fields st)"
proof (cases "countKept 0 0 (store_fields st) num")
  case (Inl e)
  then show ?thesis by (simp add: clearRawFieldsByNumber_def)
next
  case (Inr kr)
  obtain k r where kr: "kr = (k, r)" by fastforce
  have kept: "keptFields (store_fields st) num = Some (others (store_fields st) num)"
    "k = length (others (store_fields st) num)" "r + k = length (store_fields st)"
    using countKept_eq [of 0 0 "store_fields st" num k r] Inr kr by auto
  show ?thesis
  proof (cases "r = 0")
    case True
    then have "others (store_fields st) num = store_fields st"
      using kept by (simp add: others_def filter_all_length)
    then show ?thesis using Inr kr True by (simp add: clearRawFieldsByNumber_def)
  next
    case False
    obtain a al where a: "allocSlice 16 k (store_alloc st) = Some (a, al)" "a = Inr () \<or> a = Inl OutOfMemory"
      using allocSlice_cases by blast
    show ?thesis
    proof (cases "k = 0")
      case True
      then show ?thesis using Inr kr False kept
        by (simp add: clearRawFieldsByNumber_def tryIn_def orPanic_def assertThat_def)
    next
      case k: False
      then show ?thesis using a(2) Inr kr False kept a(1)
        by (elim disjE) (simp_all add: clearRawFieldsByNumber_def onAlloc_def tryIn_def orPanic_def assertThat_def)
    qed
  qed
qed

section \<open>The matcher agrees with decoding\<close>

definition tagged :: "bytes \<Rightarrow> bool" where
  "tagged raw \<longleftrightarrow> (\<exists>t. rawFieldFirstTag raw = Some t)"

lemma field_bytes_tagged: "field_bytes t raw \<Longrightarrow> tagged raw"
  by (auto simp: field_bytes_def tagged_def rawFieldFirstTag_iff)

lemma tagged_not_Nil: "tagged raw \<Longrightarrow> raw \<noteq> []"
  by (auto simp: tagged_def rawFieldFirstTag_iff tag_bytes_def dest: varint_bytes_not_Nil)

text \<open>The first byte of a tag, and what the bytes after it are worth.\<close>

lemma varint_parse_first:
  assumes "varint_parse 0 (b # bs) = (Inr v, length bs + 1)"
  shows "unat b mod 128 = v mod 128" "unat b < 128 \<Longrightarrow> unat b = v"
    "128 \<le> unat b \<Longrightarrow> varint_parse 1 bs = (Inr (v div 128), length bs)"
  using assms by (auto split: if_splits prod.splits sum.splits)

lemma tag_bytes_first:
  assumes "tag_bytes bs t"
  obtains b bs' where "bs = b # bs'"
    "unat b mod 128 = (unat (number t) * 8 + intFromEnum (tag_type t)) mod 128"
    "unat b < 128 \<Longrightarrow> unat b = unat (number t) * 8 + intFromEnum (tag_type t)"
    "128 \<le> unat b \<Longrightarrow> varint_parse 1 bs' = (Inr ((unat (number t) * 8 + intFromEnum (tag_type t)) div 128), length bs')"
proof -
  from assms obtain b bs' where "bs = b # bs'" and v: "varint_parse 0 (b # bs') =
      (Inr (unat (number t) * 8 + intFromEnum (tag_type t)), length bs' + 1)"
    by (cases bs) (auto simp: tag_bytes_def varint_bytes_def)
  then show thesis using that varint_parse_first [OF v] by blast
qed

definition matcher_for :: "field_number \<Rightarrow> RawFieldNumberMatcher \<Rightarrow> bool" where
  "matcher_for num m \<longleftrightarrow> wanted m = num \<and> unat (low_start m) = unat num * 8 mod 128 \<and>
     canonical_tag_len m = length (varint_enc (unat num * 8)) \<and>
     take (canonical_tag_len m) (canonical_tag m) = varint_enc (unat num * 8)"

lemma unat_tag_base: "unat (push_bit 3 (ucast (num :: field_number)) :: u64) = unat num * 8"
  using unat_tag_raw [of num Varint] by simp

lemma unat_and_low7: "unat ((v :: u64) AND 0x7F) = unat v mod 128"
proof -
  have "v AND 0x7F = take_bit 7 v"
    by (simp only: take_bit_eq_mask mask_eq_exp_minus_1) simp
  then have "unat (v AND 0x7F) = take_bit 7 (unat v)"
    by (simp only: unsigned_take_bit_eq)
  then show ?thesis by (simp only: take_bit_eq_mod) simp
qed

lemma matcher_init_for: "\<exists>m. matcher_init num = Some m \<and> matcher_for num m"
proof -
  let ?base = "push_bit 3 (ucast num) :: u64"
  have n: "unat num * 8 < 2 ^ (7 * 5)" using unat_bound [of num] by simp
  then have len: "length (varint_enc (unat num * 8)) \<le> 5" using length_varint_enc_le [OF n] by simp
  have low: "unat (?base AND 0x7F) = unat num * 8 mod 128"
    by (simp only: unat_and_low7 unat_tag_base)
  have "intCast_u8 (?base AND 0x7F) = Some (ucast (?base AND 0x7F))"
    using low mod_less_divisor [of 128 "unat num * 8"] by (simp only: intCast_u8_def word_less_nat_alt) simp
  moreover have "unat (ucast (?base AND 0x7F) :: byte) = unat num * 8 mod 128"
    using low mod_less_divisor [of 128 "unat num * 8"] by (simp only: unsigned_ucast_eq) (simp add: take_bit_eq_mod)
  moreover have "writeVarintToBuffer (replicate 5 0xAA) ?base =
      Some (varint_enc (unat num * 8) @ drop (length (varint_enc (unat num * 8))) (replicate 5 0xAA),
            length (varint_enc (unat num * 8)))"
    using len by (simp only: writeVarintToBuffer_eq unat_tag_base Let_def length_replicate) simp
  ultimately show ?thesis by (simp add: matcher_init_def Let_def matcher_for_def)
qed

lemma low_bits_mult: "n * 8 mod 128 = n mod 16 * 8" for n :: nat
  using mod_mult_mult2 [of n 8 16] by simp

lemma low_bits_range: "(n * 8 + w) mod 128 = n * 8 mod 128 + w" if "w < 6" for n w :: nat
proof -
  have "n mod 16 < 16" by simp
  then have "n * 8 mod 128 + w < 128" using that low_bits_mult [of n] by linarith
  then show ?thesis using mod_add_left_eq [of "n * 8" 128 w] by simp
qed

lemma low_bits_number:
  fixes v n :: nat
  assumes "v div 128 = n * 8 div 128" "n * 8 mod 128 \<le> v mod 128" "v mod 128 \<le> n * 8 mod 128 + 5"
  shows "v div 8 = n"
proof -
  have "n * 8 \<le> v" "v \<le> n * 8 + 5"
    using div_mult_mod_eq [of v 128] div_mult_mod_eq [of "n * 8" 128] assms by linarith+
  then show ?thesis by (intro div_nat_eqI) simp_all
qed

text \<open>A field of the number passes the test of its first byte.\<close>

lemma unat_plus_5: "unat (b :: byte) = n * 8 mod 128 \<Longrightarrow> unat (b + 5) = n * 8 mod 128 + 5"
  using mod_less_divisor [of 128 "n * 8"] by (simp add: unat_word_ariths)

lemma firstByteMayMatch_eq:
  assumes "matcher_for num m"
  shows "firstByteMayMatch m b \<longleftrightarrow> unat num * 8 mod 128 \<le> unat b mod 128 \<and>
    unat b mod 128 \<le> unat num * 8 mod 128 + 5 \<and> (unat num < 16 \<or> 128 \<le> unat b)"
proof -
  have "unat (low_start m) = unat num * 8 mod 128" "wanted m = num"
    using assms by (simp_all add: matcher_for_def)
  then show ?thesis
    using unat_plus_5 [of "low_start m" "unat num"]
    by (simp add: firstByteMayMatch_def Let_def word_less_nat_alt word_le_nat_alt unat_and_127 not_less)
qed

lemma canonical_tag_number:
  assumes m: "matcher_for num m" and raw: "raw = bs @ rest" and v: "v = unat (number t) * 8 + intFromEnum (tag_type t)"
    and b: "bs = b # bs'" "unat b mod 128 = v mod 128" "unat b < 128 \<Longrightarrow> unat b = v"
      "128 \<le> unat b \<Longrightarrow> varint_parse 1 bs' = (Inr (v div 128), length bs')"
    and f: "firstByteMayMatch m b" and c: "startsWithCanonicalNumberTag m raw"
  shows "number t = num"
proof -
  let ?n = "unat num * 8" and ?k = "canonical_tag_len m"
  have k: "?k = length (varint_enc ?n)" "take ?k (canonical_tag m) = varint_enc ?n"
    using m unfolding matcher_for_def by blast+
  have range: "?n mod 128 \<le> v mod 128" "v mod 128 \<le> ?n mod 128 + 5"
    using f b(2) by (simp_all add: firstByteMayMatch_eq [OF m])
  have "v div 128 = ?n div 128"
  proof (cases "?n < 128")
    case True
    then have "varint_enc ?n = [of_nat ?n]" by (rule varint_enc_small)
    then have "unat b < 128"
      using c raw b(1) k by (simp add: startsWithCanonicalNumberTag_def Let_def word_less_nat_alt)
    then show ?thesis using b(3) True by simp
  next
    case False
    then have enc: "varint_enc ?n = of_nat (?n mod 128 + 128) # varint_enc (?n div 128)"
      by (subst varint_enc.simps) simp
    then have k1: "?k \<noteq> 1" using k by (cases "varint_enc (?n div 128)") auto
    then have big: "128 \<le> unat b" and len: "?k \<le> length raw" and same: "\<forall>i \<in> {1..<?k}. raw ! i = canonical_tag m ! i"
      using c raw b(1)
      by (auto simp: startsWithCanonicalNumberTag_def Let_def word_less_nat_alt list_all_iff split: if_splits)
    have "take (length (varint_enc (?n div 128))) (bs' @ rest) = varint_enc (?n div 128)"
    proof (rule nth_equalityI)
      show "length (take (length (varint_enc (?n div 128))) (bs' @ rest)) = length (varint_enc (?n div 128))"
        using len k enc raw b(1) by simp
      fix i assume i: "i < length (take (length (varint_enc (?n div 128))) (bs' @ rest))"
      then have "Suc i \<in> {1..<?k}" using k(1) enc by simp
      then have "raw ! Suc i = varint_enc ?n ! Suc i" using same k by (metis atLeastLessThan_iff nth_take)
      then show "take (length (varint_enc (?n div 128))) (bs' @ rest) ! i = varint_enc (?n div 128) ! i"
        using i enc raw b(1) by (simp del: take_append)
    qed
    then have split: "bs' @ rest = varint_enc (?n div 128) @ drop (length (varint_enc (?n div 128))) (bs' @ rest)"
      by (metis append_take_drop_id)
    have "?n div 128 < 2 ^ (64 - 7 * 1)" using unat_bound [of num] by simp
    then have "varint_parse 1 (bs' @ rest) = (Inr (?n div 128), length (varint_enc (?n div 128)))"
      using varint_parse_enc [of 1 "?n div 128"] split by (metis one_le_numeral)
    moreover have "varint_parse 1 (bs' @ rest) = (Inr (v div 128), length bs')"
      using varint_parse_append [OF b(4) [OF big]] .
    ultimately show ?thesis by simp
  qed
  then have "v div 8 = unat num" using low_bits_number range by blast
  moreover have "v div 8 = unat (number t)" using v intFromEnum_less [of "tag_type t"] by simp
  ultimately show ?thesis by (simp add: word_unat_eq_iff)
qed

lemma matches_eq:
  assumes m: "matcher_for num m" and raw: "tagged raw"
  shows "matches m raw = Some (rawFieldNumber raw = Inr num)"
proof -
  obtain t where first_tag: "rawFieldFirstTag raw = Some t" using raw by (auto simp: tagged_def)
  then obtain bs rest where t: "raw = bs @ rest" "tag_bytes bs t" by (auto simp: rawFieldFirstTag_iff)
  let ?v = "unat (number t) * 8 + intFromEnum (tag_type t)"
  have num: "rawFieldNumber raw = Inr (number t)" "number t \<noteq> 0"
    using first_tag t by (auto simp: rawFieldNumber_iff tag_bytes_def)
  have w: "wanted m = num" using m by (simp add: matcher_for_def)
  obtain b bs' where b: "bs = b # bs'" "unat b mod 128 = ?v mod 128" "unat b < 128 \<Longrightarrow> unat b = ?v"
    "128 \<le> unat b \<Longrightarrow> varint_parse 1 bs' = (Inr (?v div 128), length bs')"
    by (rule tag_bytes_first [OF t(2)]) blast
  have first: "firstByteMayMatch m b" if "number t = num"
  proof -
    have "?v mod 128 = unat num * 8 mod 128 + intFromEnum (tag_type t)"
      using that by (simp add: low_bits_range intFromEnum_less)
    moreover have "unat num < 16 \<or> 128 \<le> unat b" using b(3) that by fastforce
    ultimately show ?thesis
      using b(2) intFromEnum_less [of "tag_type t"] by (simp add: firstByteMayMatch_eq [OF m])
  qed
  have canonical: "number t = num" if f: "firstByteMayMatch m b" and c: "startsWithCanonicalNumberTag m raw"
    using canonical_tag_number [OF m t(1) refl b f c] .
  have "raw ! 0 = b" "raw \<noteq> []" using t(1) b(1) by simp_all
  then show ?thesis
    using num w first canonical by (auto simp: matches_def)
qed

section \<open>Counting\<close>

definition of_number :: "field_number \<Rightarrow> bytes list \<Rightarrow> bytes list" where
  "of_number num raws = filter (\<lambda>raw. rawFieldNumber raw = Inr num) raws"

lemma of_number_simps [simp]:
  "of_number num [] = []"
  "of_number num (raw # raws) = (if rawFieldNumber raw = Inr num then raw # of_number num raws else of_number num raws)"
  by (simp_all add: of_number_def)

lemma tagged_number: "tagged raw \<Longrightarrow> \<exists>n. rawFieldNumber raw = Inr n \<and> n \<noteq> 0"
  by (auto simp: tagged_def rawFieldNumber_iff rawFieldFirstTag_iff tag_bytes_def)

lemma taggedD: "tagged raw \<Longrightarrow> raw \<noteq> [] \<and> (\<exists>n. rawFieldNumber raw = Inr n \<and> n \<noteq> 0)"
  using tagged_number tagged_not_Nil by blast

named_theorems counted \<comment> \<open>the operations on stored fields, as filters\<close>

lemma rawFieldCount_loop_eq:
  "\<forall>raw \<in> set raws. tagged raw \<Longrightarrow> rawFieldCount_loop cnt raws num = Inr (cnt + length (of_number num raws))"
  by (induction raws arbitrary: cnt) (auto dest!: taggedD)

lemma rawFieldCountByNumber_eq [counted]:
  "\<forall>raw \<in> set raws. tagged raw \<Longrightarrow> rawFieldCountByNumber raws num = Inr (length (of_number num raws))"
  by (simp add: rawFieldCountByNumber_def rawFieldCount_loop_eq)

lemma matchedFields_eq [counted]:
  "\<forall>raw \<in> set raws. tagged raw \<Longrightarrow> matchedFields raws num = Inr (of_number num raws)"
  by (induction raws) (auto dest!: taggedD)

lemma countMatching_eq:
  "matcher_for num m \<Longrightarrow> \<forall>raw \<in> set raws. tagged raw \<Longrightarrow>
     countMatching cnt raws m = Some (cnt + length (of_number num raws))"
  by (induction raws arbitrary: cnt) (simp_all add: matches_eq)

lemma filterMatching_eq [counted]:
  "matcher_for num m \<Longrightarrow> \<forall>raw \<in> set raws. tagged raw \<Longrightarrow> filterMatching raws m = Some (of_number num raws)"
  by (induction raws) (simp_all add: matches_eq)

lemma anyMatching_eq [counted]:
  "matcher_for num m \<Longrightarrow> \<forall>raw \<in> set raws. tagged raw \<Longrightarrow> anyMatching raws m = Some (of_number num raws \<noteq> [])"
  by (induction raws) (simp_all add: matches_eq)

lemma rawFieldCountByNumberWithMatcher_eq [counted]:
  "matcher_for num m \<Longrightarrow> \<forall>raw \<in> set raws. tagged raw \<Longrightarrow>
     rawFieldCountByNumberWithMatcher raws m = Some (length (of_number num raws))"
  by (simp add: rawFieldCountByNumberWithMatcher_def countMatching_eq)

lemma assume_valid_eq [counted]:
  assumes "\<forall>raw \<in> set raws. tagged raw"
  shows "rawFieldCountByNumberAssumeValid raws num = Some (length (of_number num raws))"
    "rawFieldHasNumberAssumeValid raws num = Some (of_number num raws \<noteq> [])"
  using matcher_init_for [of num] assms
  by (auto simp: rawFieldCountByNumberAssumeValid_def rawFieldHasNumberAssumeValid_def counted)

lemma rawFieldsByNumber_eq:
  assumes "\<forall>raw \<in> set raws. tagged raw"
  shows "rawFieldsByNumberAllocAssumeValid raws num = rawFieldsByNumberAlloc raws num"
proof -
  obtain m where m: "matcher_init num = Some m" "matcher_for num m" using matcher_init_for by blast
  show ?thesis
    using assms m(2)
    by (simp add: fun_eq_iff rawFieldsByNumberAllocAssumeValid_def rawFieldsByNumberAlloc_def m(1) orPanic_def
        liftField_def counted tryIn_apply)
qed

section \<open>The sidecar of runs\<close>

lemma decodeNumbers_eq:
  "\<forall>raw \<in> set raws. tagged raw \<Longrightarrow>
     \<exists>ns. decodeNumbers raws = Inr ns \<and> length ns = length raws \<and> 0 \<notin> set ns \<and>
       (\<forall>num. count_list ns num = length (of_number num raws))"
proof (induction raws)
  case (Cons raw raws)
  from Cons obtain ns where ns: "decodeNumbers raws = Inr ns" "length ns = length raws" "0 \<notin> set ns"
    "\<forall>num. count_list ns num = length (of_number num raws)"
    by auto
  obtain n where "rawFieldNumber raw = Inr n" "n \<noteq> 0" "raw \<noteq> []"
    using Cons.prems taggedD [of raw] by auto
  with ns show ?case by simp
qed simp

lemma rawFieldNumberCount_eq: "rawFieldNumberCount numbers num = count_list numbers num"
proof -
  have "foldl (\<lambda>cnt candidate. if candidate = num then cnt + 1 else cnt) k numbers = k + count_list numbers num" for k
    by (induction numbers arbitrary: k) simp_all
  then show ?thesis by (simp add: rawFieldNumberCount_def)
qed

text \<open>The runs of a list: its numbers in order, each with the length of its run.\<close>

function runs :: "field_number list \<Rightarrow> RawFieldNumberRun list" where
  "runs [] = []"
| "runs (n # ns) =
     (if n \<noteq> 0 then [\<lparr>run_number = n, run_count = 1 + length (takeWhile (\<lambda>k. k = n) ns)\<rparr>] else []) @
     runs (dropWhile (\<lambda>k. k = n) ns)"
  by pat_completeness auto
termination by (relation "measure length") (auto intro: le_imp_less_Suc length_dropWhile_le)

lemma runEnd_eq: "next \<le> length numbers \<Longrightarrow> runEnd numbers num next = next + length (takeWhile (\<lambda>k. k = num) (drop next numbers))"
proof (induction numbers num "next" rule: runEnd.induct)
  case (1 numbers num "next")
  show ?case
  proof (cases "next < length numbers")
    case True
    then have "drop next numbers = numbers ! next # drop (Suc next) numbers" by (simp add: Cons_nth_drop_Suc)
    then show ?thesis using 1 True by (subst runEnd.simps) simp
  next
    case False
    then show ?thesis using 1 by (subst runEnd.simps) simp
  qed
qed

lemma run_step:
  assumes "start < length numbers"
  shows "runEnd numbers (numbers ! start) (start + 1) \<le> length numbers"
    "runEnd numbers (numbers ! start) (start + 1) - start = 1 + length (takeWhile (\<lambda>k. k = numbers ! start) (drop (start + 1) numbers))"
    "drop (runEnd numbers (numbers ! start) (start + 1)) numbers = dropWhile (\<lambda>k. k = numbers ! start) (drop (start + 1) numbers)"
    "drop start numbers = numbers ! start # drop (start + 1) numbers"
proof -
  let ?P = "\<lambda>k. k = numbers ! start" and ?rest = "drop (start + 1) numbers"
  have e: "runEnd numbers (numbers ! start) (start + 1) = start + 1 + length (takeWhile ?P ?rest)"
    using assms by (simp add: runEnd_eq)
  then show "runEnd numbers (numbers ! start) (start + 1) \<le> length numbers"
    using length_takeWhile_le [of ?P ?rest] assms by simp
  show "runEnd numbers (numbers ! start) (start + 1) - start = 1 + length (takeWhile ?P ?rest)"
    using e by simp
  show "drop (runEnd numbers (numbers ! start) (start + 1)) numbers = dropWhile ?P ?rest"
    unfolding e by (simp add: dropWhile_eq_drop add.commute)
  show "drop start numbers = numbers ! start # ?rest" using assms by (simp add: Cons_nth_drop_Suc)
qed

lemma fillRuns_eq: "start \<le> length numbers \<Longrightarrow> fillRuns numbers start acc = acc @ runs (drop start numbers)"
proof (induction numbers start acc rule: fillRuns.induct)
  case (1 numbers start acc)
  show ?case
  proof (cases "start < length numbers")
    case True
    note r = run_step [OF True]
    note ih = 1(1) [OF True refl refl r(1)]
    show ?thesis
      unfolding fillRuns.simps [of numbers start acc] Let_def if_P [OF True] ih
      unfolding r(2,3,4) runs.simps by simp
  next
    case False
    then show ?thesis by (subst fillRuns.simps) simp
  qed
qed

lemma countRuns_eq: "start \<le> length numbers \<Longrightarrow> countRuns numbers run_total start = run_total + length (runs (drop start numbers))"
proof (induction numbers run_total start rule: countRuns.induct)
  case (1 numbers run_total start)
  show ?case
  proof (cases "start < length numbers")
    case True
    note r = run_step [OF True]
    note ih = 1(1) [OF True r(1)]
    show ?thesis
      unfolding countRuns.simps [of numbers run_total start] if_P [OF True] ih r(3,4) runs.simps by simp
  next
    case False
    then show ?thesis by (subst countRuns.simps) simp
  qed
qed

lemma sorted_run:
  assumes "sorted (n # ns)"
  shows "length (takeWhile (\<lambda>k. k = n) ns) = count_list ns n" "dropWhile (\<lambda>k. k = n) ns = filter (\<lambda>k. k \<noteq> n) ns"
proof -
  have "takeWhile (\<lambda>k. k = n) ns = filter (\<lambda>k. k = n) ns \<and> dropWhile (\<lambda>k. k = n) ns = filter (\<lambda>k. k \<noteq> n) ns"
    using assms
  proof (induction ns)
    case (Cons k ns)
    have "\<forall>j \<in> set ns. n < j" if "k \<noteq> n" using Cons.prems that by fastforce
    then have "k \<noteq> n \<Longrightarrow> filter (\<lambda>j. j = n) ns = [] \<and> filter (\<lambda>j. j \<noteq> n) ns = ns"
      by (auto simp: filter_empty_conv filter_id_conv)
    then show ?case using Cons by simp
  qed simp
  moreover have "length (filter (\<lambda>k. k = n) ns) = count_list ns n" by (induction ns) simp_all
  ultimately show "length (takeWhile (\<lambda>k. k = n) ns) = count_list ns n" "dropWhile (\<lambda>k. k = n) ns = filter (\<lambda>k. k \<noteq> n) ns"
    by simp_all
qed

lemma count_list_filter: "count_list (filter P xs) n = (if P n then count_list xs n else 0)"
  by (induction xs) auto

lemma runs_sorted:
  "sorted numbers \<Longrightarrow>
     sorted_wrt (\<lambda>r r'. run_number r < run_number r') (runs numbers) \<and>
     set (runs numbers) = (\<lambda>n. \<lparr>run_number = n, run_count = count_list numbers n\<rparr>) ` (set numbers - {0})"
proof (induction numbers rule: runs.induct)
  case (2 n ns)
  note run = sorted_run [OF 2(2)]
  let ?f = "\<lambda>n. \<lparr>run_number = n, run_count = count_list (filter (\<lambda>k. k \<noteq> n) ns) n\<rparr>"
  have ih: "sorted_wrt (\<lambda>r r'. run_number r < run_number r') (runs (filter (\<lambda>k. k \<noteq> n) ns))"
    "set (runs (filter (\<lambda>k. k \<noteq> n) ns)) =
       (\<lambda>k. \<lparr>run_number = k, run_count = count_list (filter (\<lambda>k. k \<noteq> n) ns) k\<rparr>) ` (set (filter (\<lambda>k. k \<noteq> n) ns) - {0})"
    using 2 run(2) sorted_wrt_filter by auto
  have "n < k" if "k \<in> set ns" "k \<noteq> n" for k using 2(2) that by (simp add: order.order_iff_strict) blast
  then show ?case
    using ih by (auto simp: run count_list_filter image_iff)
qed simp

text \<open>Binary search in runs with increasing numbers.\<close>

lemma runCount_search_hit:
  "sorted_wrt (\<lambda>r r'. run_number r < run_number r') rs \<Longrightarrow> high \<le> length rs \<Longrightarrow> low \<le> i \<Longrightarrow> i < high \<Longrightarrow>
     runCount_search rs (run_number (rs ! i)) low high = run_count (rs ! i)"
proof (induction rs "run_number (rs ! i)" low high rule: runCount_search.induct)
  case (1 rs low high)
  let ?mid = "low + (high - low) div 2"
  have mono: "a < b \<Longrightarrow> b < length rs \<Longrightarrow> run_number (rs ! a) < run_number (rs ! b)" for a b
    using 1(3) by (simp add: sorted_wrt_iff_nth_less)
  have mid: "low \<le> ?mid" "?mid < high" using 1(5,6) by linarith+
  consider "?mid < i" | "i < ?mid" | "i = ?mid" by linarith
  then show ?case
  proof cases
    case 1
    then have "run_number (rs ! ?mid) < run_number (rs ! i)" using mono 1 "1.prems" by simp
    then show ?thesis using "1.hyps"(1) [OF _ refl refl] "1.prems" mid 1 by (subst runCount_search.simps) (simp add: Let_def)
  next
    case 2
    then have "run_number (rs ! i) < run_number (rs ! ?mid)" using mono mid "1.prems" by simp
    then show ?thesis using "1.hyps"(2) [OF _ refl refl] "1.prems" mid 2 less_not_sym [of "run_number (rs ! i)"]
      by (subst runCount_search.simps) (simp add: Let_def)
  next
    case 3
    then show ?thesis using mid by (subst runCount_search.simps) (simp add: Let_def)
  qed
qed

lemma runCount_search_miss:
  "high \<le> length rs \<Longrightarrow> \<forall>r \<in> set rs. run_number r \<noteq> num \<Longrightarrow> runCount_search rs num low high = 0"
proof (induction rs num low high rule: runCount_search.induct)
  case (1 rs num low high)
  let ?mid = "low + (high - low) div 2"
  show ?case
  proof (cases "low < high")
    case True
    then have mid: "?mid < length rs" using 1(3) by linarith
    then have "run_number (rs ! ?mid) \<noteq> num" using 1(4) by simp
    then show ?thesis
      using 1(1) [OF True refl refl] 1(2) [OF True refl refl] 1(3,4) mid
      by (subst runCount_search.simps) (auto simp: Let_def)
  qed (subst runCount_search.simps, simp)
qed

lemma rawFieldNumberRunCount_runs:
  assumes "sorted numbers"
  shows "rawFieldNumberRunCount (runs numbers) num = (if num = 0 then 0 else count_list numbers num)"
proof (cases "num \<noteq> 0 \<and> num \<in> set numbers")
  case True
  then have "\<lparr>run_number = num, run_count = count_list numbers num\<rparr> \<in> set (runs numbers)"
    using runs_sorted [OF assms] by auto
  then obtain i where "i < length (runs numbers)" "runs numbers ! i = \<lparr>run_number = num, run_count = count_list numbers num\<rparr>"
    by (metis in_set_conv_nth)
  then show ?thesis
    using True runCount_search_hit [of "runs numbers" "length (runs numbers)" 0 i] runs_sorted [OF assms]
    by (simp add: rawFieldNumberRunCount_def)
next
  case False
  then have "\<forall>r \<in> set (runs numbers). run_number r \<noteq> num" using runs_sorted [OF assms] by auto
  then show ?thesis
    using False runCount_search_miss [of "length (runs numbers)" "runs numbers" num 0]
    by (auto simp: rawFieldNumberRunCount_def)
qed

lemma count_list_sort: "count_list (sort xs) n = count_list xs n"
  by (metis count_mset mset_sort)

lemma runs_of_sorted_cases:
  "\<exists>r al'. rawFieldNumberRunsFromSortedNumbersAlloc numbers al = Some (r, al') \<and>
     (r = Inr (runs numbers) \<or> r = Inl OutOfMemory)"
proof -
  obtain a al' where a: "allocSlice 16 (length (runs numbers)) al = Some (a, al')" "a = Inr () \<or> a = Inl OutOfMemory"
    using allocSlice_cases by blast
  then show ?thesis
    by (auto simp: rawFieldNumberRunsFromSortedNumbersAlloc_def countRuns_eq fillRuns_eq Let_def tryIn_apply)
qed

lemma runs_in_place_cases:
  "\<exists>r al'. rawFieldNumberRunsFromNumbersInPlaceAlloc numbers al = Some (r, al') \<and>
     (r = Inr (runs (sort numbers)) \<or> r = Inl OutOfMemory)"
  using runs_of_sorted_cases [of "sort numbers" al]
  by (auto simp: rawFieldNumberRunsFromNumbersInPlaceAlloc_def)

lemma rawFieldNumbersAlloc_cases:
  assumes "\<forall>raw \<in> set raws. tagged raw"
  shows "\<exists>r al'. rawFieldNumbersAlloc raws al = Some (r, al') \<and>
     (r = Inl OutOfMemory \<or> (\<exists>ns. r = Inr ns \<and> 0 \<notin> set ns \<and> (\<forall>num. count_list ns num = length (of_number num raws))))"
proof -
  obtain ns where "decodeNumbers raws = Inr ns" "0 \<notin> set ns" "\<forall>num. count_list ns num = length (of_number num raws)"
    using decodeNumbers_eq [OF assms] by blast
  moreover obtain a al' where "allocSlice 4 (length raws) al = Some (a, al')" "a = Inr () \<or> a = Inl OutOfMemory"
    using allocSlice_cases by blast
  ultimately show ?thesis by (auto simp: rawFieldNumbersAlloc_def tryIn_apply liftField_def)
qed

lemma rawFieldNumberRunsAlloc_cases:
  assumes "\<forall>raw \<in> set raws. tagged raw"
  shows "\<exists>r al'. rawFieldNumberRunsAlloc raws al = Some (r, al') \<and>
     (r = Inl OutOfMemory \<or> (\<exists>rs. r = Inr rs \<and> (\<forall>num. rawFieldNumberRunCount rs num = length (of_number num raws))))"
proof -
  obtain r al' where n: "rawFieldNumbersAlloc raws al = Some (r, al')"
    "r = Inl OutOfMemory \<or> (\<exists>ns. r = Inr ns \<and> 0 \<notin> set ns \<and> (\<forall>num. count_list ns num = length (of_number num raws)))"
    using rawFieldNumbersAlloc_cases [OF assms] by blast
  show ?thesis
  proof (cases r)
    case (Inl e)
    then show ?thesis using n by (auto simp: rawFieldNumberRunsAlloc_def tryIn_apply rawFieldNumberRunCount_def runCount_search.simps)
  next
    case (Inr ns)
    then have ns: "0 \<notin> set ns" "\<forall>num. count_list ns num = length (of_number num raws)" using n(2) by auto
    have "rawFieldNumberRunCount (runs (sort ns)) num = length (of_number num raws)" for num
      using ns by (cases "num = 0") (auto simp: rawFieldNumberRunCount_runs count_list_sort simp flip: ns(2))
    then show ?thesis
      using n(1) Inr runs_in_place_cases [of ns al']
      by (auto simp: rawFieldNumberRunsAlloc_def tryIn_apply rawFieldNumberRunCount_def runCount_search.simps)
  qed
qed

section \<open>The deterministic order\<close>

lemma mset_insert_by [simp]: "mset (insert_by lt x ys) = add_mset x (mset ys)"
  by (induction ys) simp_all

lemma set_insert_by [simp]: "set (insert_by lt x ys) = insert x (set ys)"
  by (induction ys) auto

lemma mset_sort_by [simp]: "mset (sort_by lt xs) = mset xs"
proof -
  have "mset (foldl (\<lambda>s x. insert_by lt x s) ys xs) = mset ys + mset xs" for ys
    by (induction xs arbitrary: ys) simp_all
  then show ?thesis by (simp add: sort_by_def)
qed

lemma set_sort_by [simp]: "set (sort_by lt xs) = set xs"
  by (metis mset_sort_by set_mset_mset)

lemma map_insert_by: "map f (insert_by (\<lambda>a b. lt (f a) (f b)) x ys) = insert_by lt (f x) (map f ys)"
  by (induction ys) simp_all

lemma map_sort_by: "map f (sort_by (\<lambda>a b. lt (f a) (f b)) xs) = sort_by lt (map f xs)"
proof -
  have "map f (foldl (\<lambda>s x. insert_by (\<lambda>a b. lt (f a) (f b)) x s) ys xs) =
      foldl (\<lambda>s x. insert_by lt x s) (map f ys) (map f xs)" for ys
    by (induction xs arbitrary: ys) (simp_all add: map_insert_by)
  then show ?thesis by (simp add: sort_by_def)
qed

text \<open>A strict linear order on the elements that are \<open>good\<close>: sorting them has one result.\<close>

locale field_order =
  fixes less_than :: "'a \<Rightarrow> 'a \<Rightarrow> bool" and good :: "'a \<Rightarrow> bool"
  assumes irrefl: "\<not> less_than a a"
    and trans: "good a \<Longrightarrow> good b \<Longrightarrow> good c \<Longrightarrow> less_than a b \<Longrightarrow> less_than b c \<Longrightarrow> less_than a c"
    and linear: "good a \<Longrightarrow> good b \<Longrightarrow> a \<noteq> b \<Longrightarrow> less_than a b \<or> less_than b a"
begin

abbreviation ordered :: "'a list \<Rightarrow> bool" where
  "ordered \<equiv> sorted_wrt (\<lambda>a b. \<not> less_than b a)"

lemma not_less_trans:
  "good a \<Longrightarrow> good b \<Longrightarrow> good c \<Longrightarrow> \<not> less_than b a \<Longrightarrow> \<not> less_than c b \<Longrightarrow> \<not> less_than c a"
  by (metis linear trans)

lemma ordered_insert:
  "good x \<Longrightarrow> \<forall>y \<in> set ys. good y \<Longrightarrow> ordered ys \<Longrightarrow> ordered (insert_by less_than x ys)"
proof (induction ys)
  case (Cons y ys)
  show ?case
  proof (cases "less_than x y")
    case True
    then have "\<not> less_than y x" using Cons.prems irrefl trans by (metis list.set_intros(1))
    moreover have "\<not> less_than z x" if "z \<in> set ys" for z
      using Cons.prems that \<open>\<not> less_than y x\<close> not_less_trans [of x y z] by simp
    ultimately show ?thesis using True Cons.prems by simp
  next
    case False
    then show ?thesis using Cons by simp
  qed
qed simp

lemma ordered_sort: "\<forall>x \<in> set xs. good x \<Longrightarrow> ordered (sort_by less_than xs)"
proof -
  have "\<forall>x \<in> set xs \<union> set ys. good x \<Longrightarrow> ordered ys \<Longrightarrow> ordered (foldl (\<lambda>s x. insert_by less_than x s) ys xs)" for ys
    by (induction xs arbitrary: ys) (simp_all add: ordered_insert)
  from this [of "[]"] show "\<forall>x \<in> set xs. good x \<Longrightarrow> ?thesis" by (simp add: sort_by_def)
qed

lemma ordered_unique:
  "\<forall>x \<in> set xs. good x \<Longrightarrow> ordered xs \<Longrightarrow> ordered ys \<Longrightarrow> mset xs = mset ys \<Longrightarrow> xs = ys"
proof (induction xs arbitrary: ys)
  case (Cons x xs)
  then obtain y ys' where ys: "ys = y # ys'" by (cases ys) auto
  have good: "\<forall>z \<in> set ys. good z" using Cons.prems by (metis set_mset_mset)
  have "x = y"
  proof (rule ccontr)
    assume ne: "x \<noteq> y"
    have "y \<in> set xs" "x \<in> set ys'" using Cons.prems(4) ys ne by (metis set_mset_mset list.set_intros(1) set_ConsD)+
    then have "\<not> less_than y x" "\<not> less_than x y" using Cons.prems(2,3) ys by auto
    then show False using linear [of x y] Cons.prems(1) good ys ne by simp
  qed
  then show ?case using Cons ys by simp
qed simp

lemma sort_permutation:
  "\<forall>x \<in> set xs. good x \<Longrightarrow> mset xs = mset ys \<Longrightarrow> sort_by less_than xs = sort_by less_than ys"
  by (rule ordered_unique) (simp_all add: ordered_sort mset_sort_by set_sort_by flip: set_mset_mset)

end

text \<open>Without a valid tag the order of the fields is the one of their bytes.\<close>

interpretation byte_order: field_order mem_lessThan "\<lambda>_. True"
  by unfold_locales (auto intro: mem_lessThan_trans dest: mem_lessThan_linear)

text \<open>The wire types in the order of their codes.\<close>

instantiation wire_type :: linorder
begin

definition less_eq_wire_type :: "wire_type \<Rightarrow> wire_type \<Rightarrow> bool" where
  "less_eq_wire_type a b \<longleftrightarrow> intFromEnum a \<le> intFromEnum b"

definition less_wire_type :: "wire_type \<Rightarrow> wire_type \<Rightarrow> bool" where
  "less_wire_type a b \<longleftrightarrow> intFromEnum a < intFromEnum b"

instance
  by standard (auto simp: less_eq_wire_type_def less_wire_type_def intFromEnum_inject)

end

lemma rawFieldLess_tagged:
  "rawFieldFirstTag a = Some t \<Longrightarrow> rawFieldFirstTag b = Some u \<Longrightarrow>
     rawFieldLess a b \<longleftrightarrow> number t < number u \<or>
       number t = number u \<and> (tag_type t < tag_type u \<or> tag_type t = tag_type u \<and> mem_lessThan a b)"
  by (auto simp: rawFieldLess_def less_wire_type_def)

text \<open>On fields with a tag it is the order of number, wire type and bytes.\<close>

interpretation raw_order: field_order rawFieldLess tagged
proof
  fix a b c
  show "\<not> rawFieldLess a a" by (auto simp: rawFieldLess_def split: option.splits)
  show "rawFieldLess a c" if "tagged a" "tagged b" "tagged c" "rawFieldLess a b" "rawFieldLess b c"
    using that unfolding tagged_def
    by (elim exE) (auto simp: rawFieldLess_tagged intro: byte_order.trans)
  show "rawFieldLess a b \<or> rawFieldLess b a" if "tagged a" "tagged b" "a \<noteq> b"
    using that byte_order.linear [of a b] unfolding tagged_def
    by (elim exE) (auto simp: rawFieldLess_tagged)
qed

section \<open>Writing in the deterministic order\<close>

lemma appends_throw [appending]: "appends (throw OutOfMemory) bs"
  by (auto simp: appends_def)

lemma eachIndex_appends:
  "(\<And>raw. appends (f raw) raw) \<Longrightarrow> appends (eachIndex f raws is) (concat (map ((!) raws) is))"
  by (induction "is") (auto intro: appending appends_return)

lemma sorted_indexes:
  "map ((!) raws) (sort_by (deterministicRawFieldIndexLessThan raws) [0..<length raws]) = sort_by rawFieldLess raws"
  using map_sort_by [of "(!) raws" rawFieldLess "[0..<length raws]"]
  by (simp add: map_nth flip: deterministicRawFieldIndexLessThan_def)

lemma sort_by_short: "length raws = 1 \<Longrightarrow> concat (sort_by lt raws) = raws ! 0"
  by (cases raws) (simp_all add: sort_by_def)

lemma deterministicRawFieldIndexes_cases:
  obtains (ok) al' where "deterministicRawFieldIndexes raws al =
      Some (Inr (sort_by (deterministicRawFieldIndexLessThan raws) [0..<length raws]), al')"
  | (oom) al' where "deterministicRawFieldIndexes raws al = Some (Inl OutOfMemory, al')"
  using allocSlice_cases [of 8 "length raws" al] by (auto simp: deterministicRawFieldIndexes_def tryIn_apply)

lemma writeRawFieldsDeterministic_appends:
  "appends (writeRawFieldsDeterministic raws al) (concat (sort_by rawFieldLess raws))"
proof (cases "length raws \<le> 1")
  case True
  then consider "raws = []" | "length raws = 1" by (cases raws) auto
  then show ?thesis
    by cases (auto simp: writeRawFieldsDeterministic_def writeDeterministic_def sort_by_short
        sort_by_def [of _ "[]"] intro: appending appends_return)
next
  case False
  then have "raws \<noteq> []" "length raws \<noteq> 1" by auto
  then show ?thesis
    using eachIndex_appends [OF appendSlice_appends, of raws "sort_by (deterministicRawFieldIndexLessThan raws) [0..<length raws]"]
    by (cases rule: deterministicRawFieldIndexes_cases [of raws al])
      (simp_all add: writeRawFieldsDeterministic_def writeDeterministic_def sorted_indexes appends_throw)
qed

section \<open>Fields kept while decoding\<close>

lemma ensureListCapacity_cases:
  "\<exists>r st'. ensureListCapacity n st = Some (r, st') \<and> dec_reader st' = dec_reader st \<and>
     entries (dec_list st') = entries (dec_list st) \<and> (r = Inr () \<or> r = Inl OutOfMemory)"
  by (auto simp: ensureListCapacity_def request_def split: option.splits)

lemma appendOwnedRawField_cases:
  "\<exists>r st'. appendOwnedRawField raw st = Some (r, st') \<and> dec_reader st' = dec_reader st \<and>
     (r = Inr () \<and> entries (dec_list st') = entries (dec_list st) @ [raw] \<or>
      r = Inl OutOfMemory \<and> entries (dec_list st') = entries (dec_list st))"
proof -
  obtain r s where "ensureListCapacity (length (entries (dec_list st)) + 1) st = Some (r, s)" "dec_reader s = dec_reader st"
    "entries (dec_list s) = entries (dec_list st)" "r = Inr () \<or> r = Inl OutOfMemory"
    using ensureListCapacity_cases by blast
  then show ?thesis by (auto simp: appendOwnedRawField_def tryIn_apply)
qed

lemma allocDec_cases:
  "\<exists>r al. allocDec (allocSlice n m) st = Some (r, st\<lparr>dec_alloc := al\<rparr>) \<and> (r = Inr () \<or> r = Inl OutOfMemory)"
  using allocSlice_cases [of n m "dec_alloc st"] by (auto simp: allocDec_def)

lemma appendConsumedRawField_cases:
  assumes "reader_ok (dec_reader st)" "raw_start \<le> index (dec_reader st)"
  shows "\<exists>r st'. appendConsumedRawField raw_start st = Some (r, st') \<and> dec_reader st' = dec_reader st \<and>
     (r = Inr () \<and> entries (dec_list st') = entries (dec_list st) @
        [take (index (dec_reader st) - raw_start) (drop raw_start (input (dec_reader st)))] \<or>
      r = Inl OutOfMemory \<and> entries (dec_list st') = entries (dec_list st))"
proof -
  let ?raw = "take (index (dec_reader st) - raw_start) (drop raw_start (input (dec_reader st)))"
  let ?store = "tryIn (allocDec (allocSlice 1 (length ?raw))) (\<lambda>_. appendOwnedRawField ?raw)"
  have store: "\<exists>r st'. ?store s = Some (r, st') \<and> dec_reader st' = dec_reader s \<and>
     (r = Inr () \<and> entries (dec_list st') = entries (dec_list s) @ [?raw] \<or>
      r = Inl OutOfMemory \<and> entries (dec_list st') = entries (dec_list s))" for s
  proof -
    obtain r al where "allocDec (allocSlice 1 (length ?raw)) s = Some (r, s\<lparr>dec_alloc := al\<rparr>)" "r = Inr () \<or> r = Inl OutOfMemory"
      using allocDec_cases by blast
    then show ?thesis using appendOwnedRawField_cases [of ?raw "s\<lparr>dec_alloc := al\<rparr>"] by (auto simp: tryIn_apply)
  qed
  have in_range: "\<not> (raw_start > index (dec_reader st) \<or> index (dec_reader st) > length (input (dec_reader st)))"
    using assms by (simp add: reader_ok_def)
  define n where "n = max 4 (min 512 ((length (input (dec_reader st)) - raw_start) div max (index (dec_reader st) - raw_start) 1))"
  obtain r s where "(if list_capacity (dec_list st) = 0 then ensureListCapacity n else return ()) st = Some (r, s)"
    "dec_reader s = dec_reader st" "entries (dec_list s) = entries (dec_list st)" "r = Inr () \<or> r = Inl OutOfMemory"
    using ensureListCapacity_cases [of n st] by (cases "list_capacity (dec_list st) = 0") auto
  moreover have "appendConsumedRawField raw_start st =
      tryIn (if list_capacity (dec_list st) = 0 then ensureListCapacity n else return ()) (\<lambda>_. ?store) st"
    using in_range unfolding appendConsumedRawField_def Let_def position_def n_def by (simp only: if_False)
  ultimately show ?thesis using store [of s] by (auto simp: tryIn_apply)
qed

section \<open>Properties\<close>

text \<open>
  C10: validation of a raw field always returns, and accepts exactly the byte strings that
  are one tag and one value of the grammar, with nothing before, between or after.
\<close>

theorem validateRawField_decides:
  "(\<exists>r. validateRawField raw = Some r) \<and>
   (validateRawField raw = Some (Inr ()) \<longleftrightarrow> (\<exists>t. field_bytes t raw))"
  using validateRawField_result validateRawField_iff by blast

text \<open>
  C11: appending clones is all or nothing: when it succeeds every appended field is one
  field of the grammar and all of them are stored behind the old ones; on any error,
  refused allocations included, the stored fields are the old ones.
\<close>

theorem appendRawFieldsClone_all_or_nothing:
  "\<exists>r st'. appendRawFieldsClone raws st = Some (r, st') \<and>
     (case r of Inr _ \<Rightarrow> list_all (\<lambda>raw. \<exists>t. field_bytes t raw) raws \<and> store_fields st' = store_fields st @ raws
              | Inl e \<Rightarrow> store_fields st' = store_fields st)"
  unfolding list_all_iff by (rule appendRawFieldsClone_cases)

text \<open>
  Removing a number never panics: it keeps the fields of the other numbers, in their
  order, and drops empty entries, or it fails and changes nothing.
\<close>

theorem clearRawFieldsByNumber_keeps_others:
  "\<exists>r st'. clearRawFieldsByNumber num st = Some (r, st') \<and>
     (case r of Inr _ \<Rightarrow> store_fields st' = filter (\<lambda>raw. raw \<noteq> [] \<and> rawFieldNumber raw \<noteq> Inr num) (store_fields st)
              | Inl e \<Rightarrow> store_fields st' = store_fields st)"
  using clearRawFieldsByNumber_cases unfolding others_def .

text \<open>
  C12: on stored fields that validation accepted, the byte-pattern matcher, the full
  decoding, the list of numbers and the binary search in the sorted runs all count the same
  fields, for every number and whatever the allocator refuses.
\<close>

theorem raw_field_counts_agree:
  assumes "\<forall>raw \<in> set raws. validateRawField raw = Some (Inr ())"
  shows "rawFieldCountByNumber raws num = Inr (length (of_number num raws)) \<and>
    rawFieldCountByNumberAssumeValid raws num = Some (length (of_number num raws)) \<and>
    rawFieldHasNumberAssumeValid raws num = Some (of_number num raws \<noteq> []) \<and>
    rawFieldsByNumberAllocAssumeValid raws num = rawFieldsByNumberAlloc raws num \<and>
    (\<exists>r al'. rawFieldNumbersAlloc raws al = Some (r, al') \<and>
      (case r of Inl e \<Rightarrow> e = OutOfMemory | Inr ns \<Rightarrow> rawFieldNumberCount ns num = length (of_number num raws))) \<and>
    (\<exists>r al'. rawFieldNumberRunsAlloc raws al = Some (r, al') \<and>
      (case r of Inl e \<Rightarrow> e = OutOfMemory | Inr rs \<Rightarrow> rawFieldNumberRunCount rs num = length (of_number num raws)))"
proof -
  have t: "\<forall>raw \<in> set raws. tagged raw"
    using assms validateRawField_iff field_bytes_tagged by blast
  have "\<exists>r al'. rawFieldNumbersAlloc raws al = Some (r, al') \<and>
      (case r of Inl e \<Rightarrow> e = OutOfMemory | Inr ns \<Rightarrow> rawFieldNumberCount ns num = length (of_number num raws))"
    using rawFieldNumbersAlloc_cases [OF t, of al] by (force simp: rawFieldNumberCount_eq)
  moreover have "\<exists>r al'. rawFieldNumberRunsAlloc raws al = Some (r, al') \<and>
      (case r of Inl e \<Rightarrow> e = OutOfMemory | Inr rs \<Rightarrow> rawFieldNumberRunCount rs num = length (of_number num raws))"
    using rawFieldNumberRunsAlloc_cases [OF t, of al] by force
  ultimately show ?thesis
    by (intro conjI rawFieldCountByNumber_eq assume_valid_eq rawFieldsByNumber_eq t)
qed

text \<open>
  Two fields of number 20 and one of number 3, the last with a tag in three bytes where one
  would do.
\<close>

definition three_fields :: "bytes list" where
  "three_fields = [[0xA0, 1, 5], [0x98, 0x80, 0, 7], [0xA0, 1, 6]]"

lemma three_fields_tags:
  "tag_bytes [0xA0, 1] \<lparr>number = 20, tag_type = Varint\<rparr>" "tag_bytes [0x98, 0x80, 0] \<lparr>number = 3, tag_type = Varint\<rparr>"
  by (simp_all add: tag_bytes_def varint_bytes_def)

lemma varint_field_bytes:
  assumes "tag_bytes tb \<lparr>number = n, tag_type = Varint\<rparr>" "unat b < 128"
  shows "field_bytes \<lparr>number = n, tag_type = Varint\<rparr> (tb @ [b])"
proof -
  have "value_bytes 100 \<lparr>number = n, tag_type = Varint\<rparr> [b]"
    using assms(2) by (auto intro!: value_bytes_group_bytes.varint simp: varint_bytes_def)
  then show ?thesis using assms(1) unfolding field_bytes_def by blast
qed

lemma three_fields_valid: "\<forall>raw \<in> set three_fields. validateRawField raw = Some (Inr ())"
proof -
  have "field_bytes \<lparr>number = 20, tag_type = Varint\<rparr> [0xA0, 1, 5]"
    "field_bytes \<lparr>number = 3, tag_type = Varint\<rparr> [0x98, 0x80, 0, 7]"
    "field_bytes \<lparr>number = 20, tag_type = Varint\<rparr> [0xA0, 1, 6]"
    using varint_field_bytes [OF three_fields_tags(1), of 5] varint_field_bytes [OF three_fields_tags(2), of 7]
      varint_field_bytes [OF three_fields_tags(1), of 6] by simp_all
  then have "validateRawField [0xA0, 1, 5] = Some (Inr ())" "validateRawField [0x98, 0x80, 0, 7] = Some (Inr ())"
    "validateRawField [0xA0, 1, 6] = Some (Inr ())"
    unfolding validateRawField_iff by blast+
  then show ?thesis by (simp add: three_fields_def)
qed

lemma tag_bytes_number: "tag_bytes tb t \<Longrightarrow> rawFieldNumber (tb @ rest) = Inr (number t)"
  by (auto simp: rawFieldNumber_iff rawFieldFirstTag_iff)

lemma three_fields_numbers:
  "rawFieldNumber [0xA0, 1, 5] = Inr 20" "rawFieldNumber [0x98, 0x80, 0, 7] = Inr 3" "rawFieldNumber [0xA0, 1, 6] = Inr 20"
  using tag_bytes_number [OF three_fields_tags(1), of "[5]"] tag_bytes_number [OF three_fields_tags(1), of "[6]"]
    tag_bytes_number [OF three_fields_tags(2), of "[7]"]
  by simp_all

theorem raw_field_counts_agree_witness:
  "rawFieldCountByNumber three_fields 20 = Inr 2 \<and> rawFieldCountByNumberAssumeValid three_fields 3 = Some 1 \<and>
   rawFieldHasNumberAssumeValid three_fields 4 = Some False"
proof -
  have "of_number 20 three_fields = [[0xA0, 1, 5], [0xA0, 1, 6]]" "of_number 3 three_fields = [[0x98, 0x80, 0, 7]]"
    "of_number 4 three_fields = []"
    by (simp_all add: three_fields_def three_fields_numbers)
  then show ?thesis
    using raw_field_counts_agree [OF three_fields_valid, of 20] raw_field_counts_agree [OF three_fields_valid, of 3]
      raw_field_counts_agree [OF three_fields_valid, of 4]
    by simp
qed

text \<open>
  C13: the deterministic output of unknown fields depends only on which fields there are:
  writing any arrangement of them, from any writer, appends the same bytes, a permutation
  of the fields ordered by number, wire type and bytes.
\<close>

theorem deterministic_output_unique:
  assumes "\<forall>raw \<in> set raws. validateRawField raw = Some (Inr ())"
  shows "\<exists>fields. mset fields = mset raws \<and> sorted_wrt (\<lambda>a b. \<not> rawFieldLess b a) fields \<and>
    (\<forall>raws' \<in> {raws'. mset raws' = mset raws}. \<forall>al.
       appends (writeRawFieldsDeterministic raws' al) (concat fields))"
proof (intro exI [of _ "sort_by rawFieldLess raws"] conjI ballI allI)
  have t: "\<forall>raw \<in> set raws. tagged raw"
    using assms validateRawField_iff field_bytes_tagged by blast
  then show "sorted_wrt (\<lambda>a b. \<not> rawFieldLess b a) (sort_by rawFieldLess raws)"
    by (rule raw_order.ordered_sort)
  fix raws' al
  assume "raws' \<in> {raws'. mset raws' = mset raws}"
  then have "sort_by rawFieldLess raws = sort_by rawFieldLess raws'"
    using raw_order.sort_permutation [OF t, of raws'] by simp
  then show "appends (writeRawFieldsDeterministic raws' al) (concat (sort_by rawFieldLess raws))"
    using writeRawFieldsDeterministic_appends [of raws' al] by simp
qed simp

theorem deterministic_output_unique_witness:
  "\<exists>out. \<forall>al. appends (writeRawFieldsDeterministic [[0xA0, 1, 6], [0x98, 0x80, 0, 7], [0xA0, 1, 5]] al) out \<and>
     appends (writeRawFieldsDeterministic [[0xA0, 1, 5], [0xA0, 1, 6], [0x98, 0x80, 0, 7]] al) out"
proof -
  obtain fields where "\<forall>raws' \<in> {raws'. mset raws' = mset three_fields}. \<forall>al.
      appends (writeRawFieldsDeterministic raws' al) (concat fields)"
    using deterministic_output_unique [OF three_fields_valid] by blast
  then show ?thesis by (intro exI [of _ "concat fields"]) (simp add: three_fields_def add_mset_commute)
qed

text \<open>
  C39: with fields that have no valid tag the comparison is not an order: a field without one that is
  between the bytes of two fields whose numbers are in the other order closes a circle, so that
  no list that contains such three fields is in order, however it is arranged.
\<close>

theorem raw_field_order_cycle:
  assumes "rawFieldFirstTag a = Some t" "rawFieldFirstTag b = Some u" "number t < number u"
    and "rawFieldFirstTag c = None" "mem_lessThan b c" "mem_lessThan c a"
  shows "rawFieldLess a b \<and> rawFieldLess b c \<and> rawFieldLess c a \<and>
    (\<forall>raws. {a, b, c} \<subseteq> set raws \<longrightarrow>
      \<not> sorted_wrt (\<lambda>i j. \<not> deterministicRawFieldIndexLessThan raws j i) [0..<length raws])"
proof -
  have less: "rawFieldLess a b" "rawFieldLess b c" "rawFieldLess c a"
    using assms by (auto simp: rawFieldLess_def)
  have "\<not> sorted_wrt (\<lambda>i j. \<not> deterministicRawFieldIndexLessThan raws j i) [0..<length raws]" if sub: "{a, b, c} \<subseteq> set raws" for raws
  proof
    assume sorted: "sorted_wrt (\<lambda>i j. \<not> deterministicRawFieldIndexLessThan raws j i) [0..<length raws]"
    have before: "i < j" if "i < length raws" "j < length raws" "rawFieldLess (raws ! i) (raws ! j)" for i j
    proof -
      have "\<not> j < i" using sorted that by (auto simp: sorted_wrt_iff_nth_less deterministicRawFieldIndexLessThan_def)
      moreover have "i \<noteq> j" using that(3) raw_order.irrefl by auto
      ultimately show ?thesis by simp
    qed
    obtain i j k where "i < length raws" "raws ! i = a" "j < length raws" "raws ! j = b" "k < length raws" "raws ! k = c"
      using sub by (auto simp: in_set_conv_nth)
    then show False using before [of i j] before [of j k] before [of k i] less by simp
  qed
  then show ?thesis using less by blast
qed

theorem raw_field_order_cycle_witness:
  "\<not> sorted_wrt (\<lambda>i j. \<not> deterministicRawFieldIndexLessThan [[0x17], [0x88, 0, 1], [0x10, 1]] j i) [0, 1, 2]"
proof -
  have "rawFieldFirstTag [0x88, 0, 1] = Some \<lparr>number = 1, tag_type = Varint\<rparr>"
    "rawFieldFirstTag [0x10, 1] = Some \<lparr>number = 2, tag_type = Varint\<rparr>" "rawFieldFirstTag [0x17] = None"
    by (simp_all add: rawFieldFirstTag_def readVarintAt_refines tag_decode_def wireType_fromInt_def)
  note cycle = raw_field_order_cycle [OF this(1,2) _ this(3)]
  have "\<not> sorted_wrt (\<lambda>i j. \<not> deterministicRawFieldIndexLessThan [[0x17], [0x88, 0, 1], [0x10, 1]] j i)
      [0..<length [[0x17], [0x88, 0, 1], [0x10, 1 :: byte]]]"
    by (rule cycle [THEN conjunct2, THEN conjunct2, THEN conjunct2, rule_format]) simp_all
  then show ?thesis by (simp add: upt_rec numeral_2_eq_2)
qed

text \<open>
  A field that is skipped as unknown is stored as its exact bytes, tag included: the
  bytes stored and the rest of the input are the input before the tag, and they are one
  field for the tag that was read. On an error the stored fields are the old ones.
\<close>

theorem appendSkippedRawField_exact:
  assumes "reader_ok self" "nextTag self = Some (Inr (Some t), dec_reader st)"
  shows "\<exists>r st'. appendSkippedRawField (index self) t st = Some (r, st') \<and>
    (case r of
       Inr _ \<Rightarrow> (\<exists>tb vb. entries (dec_list st') = entries (dec_list st) @ [tb @ vb] \<and>
          rest_of self = tb @ vb @ rest_of (dec_reader st') \<and> tag_bytes tb t \<and> value_bytes (depth_left self) t vb)
     | Inl e \<Rightarrow> entries (dec_list st') = entries (dec_list st))"
proof -
  obtain tb rest where tb: "rest_of self = tb @ rest" "tag_bytes tb t"
    "dec_reader st = self\<lparr>index := index self + length tb, last_tag_start := index self\<rparr>"
    using assms nextTag_iff by blast
  have "length (rest_of self) = length tb + length rest" using tb by simp
  then have ok: "reader_ok (dec_reader st)" using assms(1) tb(3) by (auto simp: reader_ok_def rest_of_def)
  have rest: "rest_of (dec_reader st) = rest" "depth_left (dec_reader st) = depth_left self"
    "input (dec_reader st) = input self"
    using tb by (simp_all add: depth_left_def)
  obtain v s where v: "skipValue t (dec_reader st) = Some (v, s)" "reader_ok s" "reader_step (dec_reader st) s"
    using reads_ok_ex [OF reads_ok_skip(1) ok] by blast
  show ?thesis
  proof (cases v)
    case (Inl e)
    then show ?thesis using v by (simp add: appendSkippedRawField_def)
  next
    case (Inr u)
    then have skip: "skipValue t (dec_reader st) = Some (Inr (), s)" using v by simp
    obtain vb rest' where vb: "rest = vb @ rest'" "index s = index (dec_reader st) + length vb" "rest_of s = rest'"
      using skips_exists [OF reads_ok_skip(1) ok skip] rest(1) by metis
    have val: "value_bytes (depth_left self) t vb"
      using skips_iff_value_bytes [OF ok, of t vb] skip vb rest by (auto simp: skips_def)
    have raw: "take (index s - index self) (drop (index self) (input s)) = tb @ vb"
      using v(3) vb(1,2) tb rest by (simp add: reader_step_def rest_of_def)
    have "index self \<le> index s" using vb(2) tb(3) by simp
    then obtain r st' where stored_raw: "appendConsumedRawField (index self) (st\<lparr>dec_reader := s\<rparr>) = Some (r, st')"
      "dec_reader st' = s"
      and r: "r = Inr () \<and> entries (dec_list st') = entries (dec_list st) @ [tb @ vb] \<or>
       r = Inl OutOfMemory \<and> entries (dec_list st') = entries (dec_list st)"
      using appendConsumedRawField_cases [of "st\<lparr>dec_reader := s\<rparr>" "index self"] v(2) raw by auto
    moreover have "rest_of self = tb @ vb @ rest_of s" using tb(1) vb(1,3) by simp
    moreover have "appendSkippedRawField (index self) t st = Some (r, st')"
      using skip stored_raw by (simp add: appendSkippedRawField_def)
    ultimately show ?thesis using tb(2) val
      by (elim disjE) (intro exI [of _ r] exI [of _ st'] conjI, assumption, simp, intro exI [of _ tb] exI [of _ vb], simp, simp)
  qed
qed

theorem appendSkippedRawField_exact_witness:
  "\<forall>al. \<exists>r st'. appendSkippedRawField 0 \<lparr>number = 1, tag_type = Varint\<rparr>
      \<lparr>dec_alloc = al, dec_list = \<lparr>entries = [], list_capacity = 0\<rparr>,
       dec_reader = reader_init [0x08, 0x96, 1, 0x10] \<lparr>index := 1\<rparr>\<rparr> = Some (r, st') \<and>
    (case r of Inr _ \<Rightarrow> (\<exists>raw. entries (dec_list st') = [raw]) | Inl e \<Rightarrow> entries (dec_list st') = [])"
proof
  fix al
  let ?st = "\<lparr>dec_alloc = al, dec_list = \<lparr>entries = [], list_capacity = 0\<rparr>,
       dec_reader = reader_init [0x08, 0x96, 1, 0x10] \<lparr>index := 1\<rparr>\<rparr>"
  have "nextTag (reader_init [0x08, 0x96, 1, 0x10]) = Some (Inr (Some \<lparr>number = 1, tag_type = Varint\<rparr>), dec_reader ?st)"
    by (subst nextTag_iff [OF reader_ok_init]) (rule exI [of _ "[0x08]"], simp add: reference_eval)
  from appendSkippedRawField_exact [OF reader_ok_init this]
  show "\<exists>r st'. appendSkippedRawField 0 \<lparr>number = 1, tag_type = Varint\<rparr> ?st = Some (r, st') \<and>
    (case r of Inr _ \<Rightarrow> (\<exists>raw. entries (dec_list st') = [raw]) | Inl e \<Rightarrow> entries (dec_list st') = [])"
    by (auto simp: reader_init_def split: sum.splits) fastforce+
qed

end
