(* ===== verification/Wire_Packed.thy ===== *)
theory Wire_Packed
  imports Wire_Raw
begin

unbundle bit_operations_syntax

text \<open>
  The packed repeated fields of \<open>src/wire.zig\<close>: decoding a packed payload into an
  \<open>ArrayList(T)\<close>, and its inverse for fixed-width elements. A list is its elements and the
  number of elements its memory holds; appending beyond that is a panic, \<open>None\<close>. Values of
  type \<open>f32\<close> and \<open>f64\<close> are their bits.
\<close>

section \<open>Lists that grow\<close>

record 'a array_list =
  elements :: "'a list"
  room :: nat

record 'a filling =
  fill_alloc :: alloc
  fill_list :: "'a array_list"

type_synonym 'a fills = "('a filling, write_error, unit) op"

type_synonym 'a reader_at = "bytes \<Rightarrow> nat \<Rightarrow> (wire_error + 'a) \<times> nat"

definition list_ok :: "'a filling \<Rightarrow> bool" where
  "list_ok st \<longleftrightarrow> length (elements (fill_list st)) \<le> room (fill_list st)"

definition appendAssumeCapacity :: "'a \<Rightarrow> 'a filling \<Rightarrow> 'a filling option" where
  "appendAssumeCapacity v st =
     (if length (elements (fill_list st)) < room (fill_list st)
      then Some (st\<lparr>fill_list := (fill_list st)\<lparr>elements := elements (fill_list st) @ [v]\<rparr>\<rparr>) else None)"

definition inAlloc :: "unit allocating \<Rightarrow> 'a fills" where
  "inAlloc m = (\<lambda>st. case m (fill_alloc st) of
       None \<Rightarrow> None
     | Some (r, al) \<Rightarrow> Some (r, st\<lparr>fill_alloc := al\<rparr>))"

text \<open>Room for \<open>n\<close> elements in all; the surplus is what the growth policy adds, none when precise.\<close>

definition growTo :: "bool \<Rightarrow> nat \<Rightarrow> nat \<Rightarrow> 'a fills" where
  "growTo precise elem_size n = (\<lambda>st.
     if n \<le> room (fill_list st) then Some (Inr (), st)
     else if usize_max < elem_size * n then Some (Inl OutOfMemory, st)
     else (case request (elem_size * n) (fill_alloc st) of
         (None, al) \<Rightarrow> Some (Inl OutOfMemory, st\<lparr>fill_alloc := al\<rparr>)
       | (Some surplus, al) \<Rightarrow>
           Some (Inr (), st\<lparr>fill_alloc := al,
             fill_list := (fill_list st)\<lparr>room := n + (if precise then 0 else surplus div elem_size)\<rparr>\<rparr>)))"

definition ensureUnused :: "nat \<Rightarrow> nat \<Rightarrow> 'a fills" where
  "ensureUnused elem_size n = (\<lambda>st. growTo False elem_size (length (elements (fill_list st)) + n) st)"

section \<open>Packed varints\<close>

partial_function (option) countLoop :: "bytes \<Rightarrow> nat \<Rightarrow> nat \<Rightarrow> (wire_error + nat) option" where
  "countLoop payload i cnt =
     (if i < length payload
      then (case readVarintAt payload i of
              (Inl e, _) \<Rightarrow> Some (Inl e)
            | (Inr _, j) \<Rightarrow> countLoop payload j (cnt + 1))
      else Some (Inr cnt))"

definition countPackedVarints :: "bytes \<Rightarrow> (wire_error + nat) option" where
  "countPackedVarints payload = countLoop payload 0 0"

text \<open>\<open>for (out) |*value| value.* = try read(payload, &index)\<close> over a slice of \<open>n\<close> elements.\<close>

fun readMany :: "'a reader_at \<Rightarrow> bytes \<Rightarrow> nat \<Rightarrow> nat \<Rightarrow> wire_error + 'a list" where
  "readMany readAt payload 0 i = Inr []"
| "readMany readAt payload (Suc n) i = (case readAt payload i of
       (Inl e, _) \<Rightarrow> Inl e
     | (Inr v, j) \<Rightarrow> (case readMany readAt payload n j of Inl e \<Rightarrow> Inl e | Inr vs \<Rightarrow> Inr (v # vs)))"

text \<open>\<open>while (index < payload.len) list.appendAssumeCapacity(try read(payload, &index))\<close>.\<close>

partial_function (option) appendLoop ::
    "'a reader_at \<Rightarrow> bytes \<Rightarrow> nat \<Rightarrow> 'a filling \<Rightarrow> ((write_error + unit) \<times> 'a filling) option" where
  "appendLoop readAt payload i st =
     (if i < length payload
      then (case readAt payload i of
              (Inl e, _) \<Rightarrow> Some (Inl (WireError e), st)
            | (Inr v, j) \<Rightarrow> Option.bind (appendAssumeCapacity v st) (\<lambda>st. appendLoop readAt payload j st))
      else Some (Inr (), st))"

definition liftCount :: "(wire_error + nat) option \<Rightarrow> ('a filling, write_error, nat) op" where
  "liftCount r = (case r of None \<Rightarrow> (\<lambda>_. None) | Some (Inl e) \<Rightarrow> throw (WireError e) | Some (Inr n) \<Rightarrow> return n)"

text \<open>A list without memory is replaced by a slice of the exact size, filled first.\<close>

definition replaceEmpty :: "nat \<Rightarrow> 'a reader_at \<Rightarrow> bytes \<Rightarrow> 'a fills" where
  "replaceEmpty elem_size readAt payload = tryIn (liftCount (countPackedVarints payload)) (\<lambda>cnt.
     tryIn (inAlloc (allocSlice elem_size cnt)) (\<lambda>_ st.
     case readMany readAt payload cnt 0 of
       Inl e \<Rightarrow> Some (Inl (WireError e), st)
     | Inr out \<Rightarrow> Some (Inr (), st\<lparr>fill_list := \<lparr>elements = out, room = cnt\<rparr>\<rparr>)))"

definition appendToList :: "nat \<Rightarrow> 'a reader_at \<Rightarrow> bytes \<Rightarrow> 'a fills" where
  "appendToList elem_size readAt payload = (\<lambda>st.
     tryIn (liftCount (if room (fill_list st) \<noteq> 0 \<and> room (fill_list st) - length (elements (fill_list st)) < length payload
                       then countPackedVarints payload else Some (Inr (length payload)))) (\<lambda>required.
     tryIn (ensureUnused elem_size required) (\<lambda>_.
     appendLoop readAt payload 0)) st)"

definition appendPackedVarints :: "nat \<Rightarrow> 'a reader_at \<Rightarrow> bytes \<Rightarrow> 'a fills" where
  "appendPackedVarints elem_size readAt payload = (\<lambda>st.
     if payload = [] then Some (Inr (), st)
     else if elements (fill_list st) = [] \<and> room (fill_list st) = 0 then replaceEmpty elem_size readAt payload st
     else appendToList elem_size readAt payload st)"

definition converted :: "(u64 \<Rightarrow> 'a) \<Rightarrow> 'a reader_at" where
  "converted f payload i = (case readVarintAt payload i of
       (Inl e, j) \<Rightarrow> (Inl e, j)
     | (Inr v, j) \<Rightarrow> (Inr (f v), j))"

definition appendPackedInt32 :: "bytes \<Rightarrow> i32 fills" where
  "appendPackedInt32 payload = appendToList 4 readInt32At payload"

definition appendPackedInt64 :: "bytes \<Rightarrow> i64 fills" where
  "appendPackedInt64 payload = appendPackedVarints 8 (converted (\<lambda>v. v)) payload"

definition appendPackedUInt32 :: "bytes \<Rightarrow> u32 fills" where
  "appendPackedUInt32 payload = appendPackedVarints 4 (converted ucast) payload"

definition appendPackedUInt64 :: "bytes \<Rightarrow> u64 fills" where
  "appendPackedUInt64 payload = appendPackedVarints 8 readVarintAt payload"

definition appendPackedSInt32 :: "bytes \<Rightarrow> i32 fills" where
  "appendPackedSInt32 payload = appendPackedVarints 4 (converted (\<lambda>v. zigZagDecode32 (ucast v))) payload"

definition appendPackedSInt64 :: "bytes \<Rightarrow> i64 fills" where
  "appendPackedSInt64 payload = appendPackedVarints 8 (converted zigZagDecode64) payload"

section \<open>Packed booleans\<close>

text \<open>
  The vector width is the target's, \<open>None\<close> when it has none; the scan takes whole vectors
  first and then the bytes that are left.
\<close>

function allSingleByte_chunks :: "nat \<Rightarrow> bytes \<Rightarrow> nat \<Rightarrow> bool \<times> nat" where
  "allSingleByte_chunks vector_len payload i =
     (if 0 < vector_len \<and> i + vector_len \<le> length payload
      then (if list_ex (\<lambda>b. b \<ge> 0x80) (take vector_len (drop i payload)) then (False, i)
            else allSingleByte_chunks vector_len payload (i + vector_len))
      else (True, i))"
  by pat_completeness auto
termination by (relation "measure (\<lambda>(vector_len, payload, i). length payload - i)") auto

declare allSingleByte_chunks.simps [simp del]

definition packedVarintPayloadAllSingleByte :: "nat option \<Rightarrow> bytes \<Rightarrow> bool" where
  "packedVarintPayloadAllSingleByte suggested payload =
     (let vector_len = (case suggested of None \<Rightarrow> 0 | Some n \<Rightarrow> n) in
      if vector_len \<ge> 8
      then (case allSingleByte_chunks vector_len payload 0 of
              (False, _) \<Rightarrow> False
            | (True, i) \<Rightarrow> \<not> list_ex (\<lambda>b. b \<ge> 0x80) (drop i payload))
      else \<not> list_ex (\<lambda>b. b \<ge> 0x80) payload)"

definition packedEnumAllSingleByte :: "nat option \<Rightarrow> bytes \<Rightarrow> bool" where
  "packedEnumAllSingleByte suggested payload = packedVarintPayloadAllSingleByte suggested payload"

definition addMany :: "'a list \<Rightarrow> 'a fills" where
  "addMany vs = (\<lambda>st.
     if room (fill_list st) < length (elements (fill_list st)) + length vs then None
     else Some (Inr (), st\<lparr>fill_list := (fill_list st)\<lparr>elements := elements (fill_list st) @ vs\<rparr>\<rparr>))"

definition appendPackedBool :: "nat option \<Rightarrow> bytes \<Rightarrow> bool fills" where
  "appendPackedBool suggested payload = (\<lambda>st.
     if payload = [] then Some (Inr (), st)
     else if packedVarintPayloadAllSingleByte suggested payload
     then tryIn (ensureUnused 1 (length payload)) (\<lambda>_. addMany (map (\<lambda>byte. byte \<noteq> 0) payload)) st
     else if elements (fill_list st) = [] \<and> room (fill_list st) = 0
     then replaceEmpty 1 (converted (\<lambda>v. v \<noteq> 0)) payload st
     else tryIn (ensureUnused 1 (length payload)) (\<lambda>_. appendLoop (converted (\<lambda>v. v \<noteq> 0)) payload 0) st)"

section \<open>Packed fixed-width values\<close>

fun words_of :: "nat \<Rightarrow> bytes \<Rightarrow> nat \<Rightarrow> ('a::len word) list" where
  "words_of width payload 0 = []"
| "words_of width payload (Suc cnt) = le_word (take width payload) # words_of width (drop width payload) cnt"

text \<open>\<open>@memcpy\<close> on a little-endian target, \<open>readFixedWidthPayload\<close> on a big-endian one.\<close>

definition readFixedWidthPayload :: "nat \<Rightarrow> bytes \<Rightarrow> ('a::len word) list" where
  "readFixedWidthPayload cnt payload =
     (let width = sizeOf TYPE('a word) in map (\<lambda>k. le_word (take width (drop (k * width) payload))) [0..<cnt])"

definition appendPackedFixedWidth :: "bool \<Rightarrow> bytes \<Rightarrow> ('a::len word) fills" where
  "appendPackedFixedWidth little payload = (\<lambda>st.
     let width = sizeOf TYPE('a word);
         cnt = length payload div width;
         out = (if little then words_of width payload cnt else readFixedWidthPayload cnt payload)
     in if length payload mod width \<noteq> 0 then Some (Inl (WireError InvalidWireType), st)
     else if cnt = 0 then Some (Inr (), st)
     else if elements (fill_list st) = [] \<and> room (fill_list st) = 0
     then tryIn (inAlloc (allocSlice width cnt)) (\<lambda>_ st. Some (Inr (), st\<lparr>fill_list := \<lparr>elements = out, room = cnt\<rparr>\<rparr>)) st
     else tryIn (growTo True width (length (elements (fill_list st)) + cnt)) (\<lambda>_. addMany out) st)"

definition appendPackedFixed32 :: "bool \<Rightarrow> bytes \<Rightarrow> u32 fills" where
  "appendPackedFixed32 little payload = appendPackedFixedWidth little payload"

definition appendPackedFixed64 :: "bool \<Rightarrow> bytes \<Rightarrow> u64 fills" where
  "appendPackedFixed64 little payload = appendPackedFixedWidth little payload"

definition appendPackedSFixed32 :: "bool \<Rightarrow> bytes \<Rightarrow> i32 fills" where
  "appendPackedSFixed32 little payload = appendPackedFixedWidth little payload"

definition appendPackedSFixed64 :: "bool \<Rightarrow> bytes \<Rightarrow> i64 fills" where
  "appendPackedSFixed64 little payload = appendPackedFixedWidth little payload"

definition appendPackedFloat :: "bool \<Rightarrow> bytes \<Rightarrow> u32 fills" where
  "appendPackedFloat little payload = appendPackedFixedWidth little payload"

definition appendPackedDouble :: "bool \<Rightarrow> bytes \<Rightarrow> u64 fills" where
  "appendPackedDouble little payload = appendPackedFixedWidth little payload"

text \<open>\<open>std.mem.sliceAsBytes\<close> of fixed-width values on a little-endian target.\<close>

definition sliceAsBytes :: "('a::len word) list \<Rightarrow> bytes" where
  "sliceAsBytes vs = concat (map (\<lambda>v. le_bytes (sizeOf TYPE('a word)) v) vs)"

fun writeEach :: "('a \<Rightarrow> unit writing) \<Rightarrow> 'a list \<Rightarrow> unit writing" where
  "writeEach f [] = return ()"
| "writeEach f (v # vs) = tryIn (f v) (\<lambda>_. writeEach f vs)"

definition writePackedFixedWidthPayload :: "bool \<Rightarrow> ('a::len word) list \<Rightarrow> unit writing" where
  "writePackedFixedWidthPayload little vs =
     (if little then appendSlice (sliceAsBytes vs) else writeEach writeRawLittle vs)"

definition writePackedFixedWidthPayloadAssumeCapacity :: "bool \<Rightarrow> ('a::len word) list \<Rightarrow> unit writing" where
  "writePackedFixedWidthPayloadAssumeCapacity little vs =
     (if little then appendSliceAssumeCapacity (sliceAsBytes vs) else writeEach writeRawLittleAssumeCapacity vs)"

definition writePackedFixed32Payload :: "bool \<Rightarrow> u32 list \<Rightarrow> unit writing" where
  "writePackedFixed32Payload little vs = writePackedFixedWidthPayload little vs"

definition writePackedFixed32PayloadAssumeCapacity :: "bool \<Rightarrow> u32 list \<Rightarrow> unit writing" where
  "writePackedFixed32PayloadAssumeCapacity little vs = writePackedFixedWidthPayloadAssumeCapacity little vs"

section \<open>What a packed payload says\<close>

lemma parse_used: "(Inr v, n) = varint_parse 0 bs \<Longrightarrow> 0 < n"
  using varint_parse_used [of 0 bs v n] by simp

text \<open>The values in front of the first error, and that error.\<close>

function decode_varints :: "bytes \<Rightarrow> u64 list \<times> wire_error option" where
  "decode_varints bs =
     (if bs = [] then ([], None)
      else (case varint_parse 0 bs of
              (Inl e, _) \<Rightarrow> ([], Some e)
            | (Inr v, n) \<Rightarrow> (case decode_varints (drop n bs) of (vs, e) \<Rightarrow> (of_nat v # vs, e))))"
  by pat_completeness auto
termination by (relation "measure length") (auto dest!: parse_used)

declare decode_varints.simps [simp del]

definition decoded :: "(u64 \<Rightarrow> 'a) \<Rightarrow> bytes \<Rightarrow> 'a list \<times> wire_error option" where
  "decoded f bs = (map f (fst (decode_varints bs)), snd (decode_varints bs))"

lemma decode_varints_Nil [simp]: "decode_varints [] = ([], None)"
  by (simp add: decode_varints.simps)

lemma decode_varints_error: "bs \<noteq> [] \<Longrightarrow> varint_parse 0 bs = (Inl e, n) \<Longrightarrow> decode_varints bs = ([], Some e)"
  by (simp add: decode_varints.simps [of bs])

lemma decode_varints_step:
  "bs \<noteq> [] \<Longrightarrow> varint_parse 0 bs = (Inr v, n) \<Longrightarrow>
     decode_varints bs = (of_nat v # fst (decode_varints (drop n bs)), snd (decode_varints (drop n bs)))"
  by (simp add: decode_varints.simps [of bs] split: prod.splits)

text \<open>Induction over a payload from an index on, one varint at a time.\<close>

lemma payload_induct [consumes 1, case_names done_at error step]:
  assumes "i \<le> length payload"
    and "P (length payload)"
    and "\<And>i e n. i < length payload \<Longrightarrow> varint_parse 0 (drop i payload) = (Inl e, n) \<Longrightarrow> P i"
    and "\<And>i v n. i < length payload \<Longrightarrow> varint_parse 0 (drop i payload) = (Inr v, n) \<Longrightarrow> 1 \<le> n \<Longrightarrow>
      i + n \<le> length payload \<Longrightarrow> P (i + n) \<Longrightarrow> P i"
  shows "P i"
  using assms(1)
proof (induction "length payload - i" arbitrary: i rule: less_induct)
  case less
  show ?case
  proof (cases "i < length payload")
    case True
    obtain r n where r: "varint_parse 0 (drop i payload) = (r, n)" by fastforce
    show ?thesis
    proof (cases r)
      case (Inr v)
      then have n: "1 \<le> n" "n \<le> length (drop i payload)"
        using r varint_parse_used [of 0 "drop i payload" v n] varint_parse_progress [OF r] by auto
      then have "P (i + n)" using less.hyps [of "i + n"] less.prems True by simp
      then show ?thesis using assms(4) [of i v n] True r Inr n by simp
    qed (use assms(3) True r in blast)
  qed (use assms(2) less.prems in simp)
qed

lemma decoded_at:
  "i < length payload \<Longrightarrow> varint_parse 0 (drop i payload) = (Inr v, n) \<Longrightarrow>
     decode_varints (drop i payload) =
       (of_nat v # fst (decode_varints (drop (i + n) payload)), snd (decode_varints (drop (i + n) payload)))"
  by (simp add: decode_varints_step add.commute)

lemma length_decoded: "i \<le> length payload \<Longrightarrow> length (fst (decode_varints (drop i payload))) \<le> length payload - i"
  by (induction i rule: payload_induct) (auto simp: decoded_at decode_varints_error)

definition outcome :: "wire_error option \<Rightarrow> 'a \<Rightarrow> wire_error + 'a" where
  "outcome err x = (case err of None \<Rightarrow> Inr x | Some e \<Rightarrow> Inl e)"

lemma outcome_simps [simp]: "outcome None x = Inr x" "outcome (Some e) x = Inl e"
  by (simp_all add: outcome_def)

lemma countLoop_eq:
  "i \<le> length payload \<Longrightarrow> countLoop payload i k =
     Some (outcome (snd (decode_varints (drop i payload))) (k + length (fst (decode_varints (drop i payload)))))"
proof (induction i arbitrary: k rule: payload_induct)
  case (step i v n)
  then show ?case
    by (subst countLoop.simps) (simp add: readVarintAt_refines decoded_at)
qed (subst countLoop.simps, simp add: readVarintAt_refines decode_varints_error)+

lemma countPackedVarints_eq:
  "countPackedVarints payload = Some (outcome (snd (decode_varints payload)) (length (fst (decode_varints payload))))"
  by (simp add: countPackedVarints_def countLoop_eq)

section \<open>The interface of a packed reader\<close>

text \<open>
  A reader of one element is the general varint reader followed by a conversion; what the
  list operations do with any such reader is proved once.
\<close>

locale packed_reader =
  fixes readAt :: "'a reader_at" and conv :: "u64 \<Rightarrow> 'a"
  assumes reads: "readAt payload i = converted conv payload i"
begin

lemma readAt_cases:
  "varint_parse 0 (drop i payload) = (Inl e, n) \<Longrightarrow> readAt payload i = (Inl e, i + n)"
  "varint_parse 0 (drop i payload) = (Inr v, n) \<Longrightarrow> readAt payload i = (Inr (conv (of_nat v)), i + n)"
  by (simp_all add: reads converted_def readVarintAt_refines)

lemma appendLoop_eq:
  "i \<le> length payload \<Longrightarrow> length (elements (fill_list st)) + length (fst (decode_varints (drop i payload))) \<le> room (fill_list st) \<Longrightarrow>
     appendLoop readAt payload i st =
       Some (case snd (decode_varints (drop i payload)) of None \<Rightarrow> Inr () | Some e \<Rightarrow> Inl (WireError e),
         st\<lparr>fill_list := (fill_list st)\<lparr>elements := elements (fill_list st) @ map conv (fst (decode_varints (drop i payload)))\<rparr>\<rparr>)"
proof (induction i arbitrary: st rule: payload_induct)
  case (step i v n)
  let ?st = "st\<lparr>fill_list := (fill_list st)\<lparr>elements := elements (fill_list st) @ [conv (of_nat v)]\<rparr>\<rparr>"
  have "appendLoop readAt payload i st = appendLoop readAt payload (i + n) ?st"
    using step by (subst appendLoop.simps) (simp add: readAt_cases(2) decoded_at appendAssumeCapacity_def)
  then show ?case using step.IH [of ?st] step by (simp add: decoded_at)
qed (subst appendLoop.simps, simp add: readAt_cases(1) decode_varints_error)+

lemma readMany_eq:
  "i \<le> length payload \<Longrightarrow> readMany readAt payload (length (fst (decode_varints (drop i payload)))) i =
     Inr (map conv (fst (decode_varints (drop i payload))))"
  by (induction i rule: payload_induct) (simp_all add: readAt_cases(2) decoded_at decode_varints_error)

end

section \<open>What appending does to a list\<close>

text \<open>
  \<open>filled (vs, err) st r st'\<close>: success means that the payload has no error and \<open>vs\<close> has been
  appended; a refusal of the allocator leaves the elements alone; an error of the payload
  leaves them alone or behind them the values in front of the error. \<open>fills_with m (vs, err)\<close>:
  this is what \<open>m\<close> does to every list in order, without a panic.
\<close>

definition filled :: "'a list \<times> wire_error option \<Rightarrow> 'a filling \<Rightarrow> write_error + unit \<Rightarrow> 'a filling \<Rightarrow> bool" where
  "filled payload_values st r st' \<longleftrightarrow> list_ok st' \<and>
     (case r of
        Inr _ \<Rightarrow> snd payload_values = None \<and> elements (fill_list st') = elements (fill_list st) @ fst payload_values
      | Inl OutOfMemory \<Rightarrow> elements (fill_list st') = elements (fill_list st)
      | Inl (WireError e) \<Rightarrow> snd payload_values = Some e \<and>
          (elements (fill_list st') = elements (fill_list st) \<or>
           elements (fill_list st') = elements (fill_list st) @ fst payload_values))"

lemma filled_simps [simp]:
  "filled p st (Inr ()) st' \<longleftrightarrow> list_ok st' \<and> snd p = None \<and> elements (fill_list st') = elements (fill_list st) @ fst p"
  "filled p st (Inl OutOfMemory) st' \<longleftrightarrow> list_ok st' \<and> elements (fill_list st') = elements (fill_list st)"
  "filled p st (Inl (WireError e)) st' \<longleftrightarrow> list_ok st' \<and> snd p = Some e \<and>
     (elements (fill_list st') = elements (fill_list st) \<or> elements (fill_list st') = elements (fill_list st) @ fst p)"
  by (simp_all add: filled_def)

definition fills_with :: "'a fills \<Rightarrow> 'a list \<times> wire_error option \<Rightarrow> bool" where
  "fills_with m payload_values \<longleftrightarrow>
     (\<forall>st. list_ok st \<longrightarrow> (\<exists>r st'. m st = Some (r, st') \<and> filled payload_values st r st'))"

lemma inAlloc_cases:
  "\<exists>r al. inAlloc (allocSlice n m) st = Some (r, st\<lparr>fill_alloc := al\<rparr>) \<and> (r = Inr () \<or> r = Inl OutOfMemory)"
  using allocSlice_cases [of n m "fill_alloc st"] by (auto simp: inAlloc_def)

lemma growTo_cases:
  "\<exists>r st'. growTo precise elem_size n st = Some (r, st') \<and> elements (fill_list st') = elements (fill_list st) \<and>
     room (fill_list st) \<le> room (fill_list st') \<and> (r = Inr () \<and> n \<le> room (fill_list st') \<or> r = Inl OutOfMemory)"
  by (auto simp: growTo_def request_def split: option.splits)

lemma grow_addMany:
  assumes "list_ok st"
  shows "\<exists>r st'. tryIn (growTo precise elem_size (length (elements (fill_list st)) + length vs)) (\<lambda>_. addMany vs) st = Some (r, st') \<and>
    filled (vs, None) st r st'"
proof -
  obtain r s where "growTo precise elem_size (length (elements (fill_list st)) + length vs) st = Some (r, s)"
    "elements (fill_list s) = elements (fill_list st)" "room (fill_list st) \<le> room (fill_list s)"
    "r = Inr () \<and> length (elements (fill_list st)) + length vs \<le> room (fill_list s) \<or> r = Inl OutOfMemory"
    using growTo_cases by blast
  with assms show ?thesis by (auto simp: tryIn_apply addMany_def list_ok_def)
qed

context packed_reader
begin

lemma replaceEmpty_filled:
  assumes "elements (fill_list st) = []" "list_ok st"
  shows "\<exists>r st'. replaceEmpty elem_size readAt payload st = Some (r, st') \<and> filled (decoded conv payload) st r st'"
proof (cases "snd (decode_varints payload)")
  case None
  obtain r al where "inAlloc (allocSlice elem_size (length (fst (decode_varints payload)))) st = Some (r, st\<lparr>fill_alloc := al\<rparr>)"
    "r = Inr () \<or> r = Inl OutOfMemory"
    using inAlloc_cases by blast
  then show ?thesis
    using None assms readMany_eq [of 0 payload]
    by (auto simp: replaceEmpty_def countPackedVarints_eq liftCount_def tryIn_apply decoded_def list_ok_def)
next
  case (Some e)
  then show ?thesis
    using assms by (simp add: replaceEmpty_def countPackedVarints_eq liftCount_def tryIn_apply decoded_def)
qed

lemma append_with_room:
  assumes "list_ok st" "length (fst (decode_varints payload)) \<le> n"
  shows "\<exists>r st'. tryIn (ensureUnused elem_size n) (\<lambda>_. appendLoop readAt payload 0) st = Some (r, st') \<and>
    filled (decoded conv payload) st r st'"
proof -
  obtain r s where g: "ensureUnused elem_size n st = Some (r, s)"
    "elements (fill_list s) = elements (fill_list st)" "room (fill_list st) \<le> room (fill_list s)"
    "r = Inr () \<and> length (elements (fill_list st)) + n \<le> room (fill_list s) \<or> r = Inl OutOfMemory"
    using growTo_cases unfolding ensureUnused_def by blast
  from g(4) show ?thesis
  proof
    assume r: "r = Inr () \<and> length (elements (fill_list st)) + n \<le> room (fill_list s)"
    then have "appendLoop readAt payload 0 s =
       Some (case snd (decode_varints payload) of None \<Rightarrow> Inr () | Some e \<Rightarrow> Inl (WireError e),
         s\<lparr>fill_list := (fill_list s)\<lparr>elements := elements (fill_list s) @ map conv (fst (decode_varints payload))\<rparr>\<rparr>)"
      using appendLoop_eq [of 0 payload s] assms(2) g(2) by simp
    then show ?thesis
      using r g(1,2) assms(2)
      by (cases "snd (decode_varints payload)") (simp_all add: tryIn_apply decoded_def list_ok_def)
  next
    assume "r = Inl OutOfMemory"
    then show ?thesis using g(1,2,3) assms(1) by (simp add: tryIn_apply list_ok_def)
  qed
qed

lemma appendToList_filled:
  assumes ok: "list_ok st"
  shows "\<exists>r st'. appendToList elem_size readAt payload st = Some (r, st') \<and> filled (decoded conv payload) st r st'"
proof -
  let ?counts = "room (fill_list st) \<noteq> 0 \<and> room (fill_list st) - length (elements (fill_list st)) < length payload"
  show ?thesis
  proof (cases "?counts \<and> snd (decode_varints payload) \<noteq> None")
    case True
    then show ?thesis using ok
      by (auto simp: appendToList_def countPackedVarints_eq liftCount_def tryIn_apply decoded_def)
  next
    case False
    define n where "n = (if ?counts then length (fst (decode_varints payload)) else length payload)"
    have "length (fst (decode_varints payload)) \<le> n" using length_decoded [of 0 payload] by (simp add: n_def)
    moreover have "appendToList elem_size readAt payload st = tryIn (ensureUnused elem_size n) (\<lambda>_. appendLoop readAt payload 0) st"
      using False by (auto simp: appendToList_def countPackedVarints_eq liftCount_def tryIn_apply n_def)
    ultimately show ?thesis using append_with_room [OF ok, of payload n elem_size] by auto
  qed
qed

lemma appendToList_fills: "fills_with (appendToList elem_size readAt payload) (decoded conv payload)"
  unfolding fills_with_def using appendToList_filled by blast

lemma appendPackedVarints_fills: "fills_with (appendPackedVarints elem_size readAt payload) (decoded conv payload)"
  unfolding fills_with_def
proof (intro allI impI)
  fix st :: "'a filling"
  assume ok: "list_ok st"
  show "\<exists>r st'. appendPackedVarints elem_size readAt payload st = Some (r, st') \<and> filled (decoded conv payload) st r st'"
  proof (cases "payload = []")
    case True
    then show ?thesis using ok by (simp add: appendPackedVarints_def decoded_def)
  next
    case False
    then show ?thesis
      using ok replaceEmpty_filled [of st elem_size payload] appendToList_filled [OF ok, of elem_size payload]
      by (simp add: appendPackedVarints_def)
  qed
qed

end

interpretation plain: packed_reader readVarintAt "\<lambda>v. v"
  by unfold_locales (simp add: converted_def split: prod.splits sum.splits)

interpretation conversion: packed_reader "converted f" f for f
  by unfold_locales simp

interpretation hot: packed_reader readInt32At ucast
  by unfold_locales (simp add: readInt32At_eq to_u32_def converted_def split: prod.splits sum.splits)

section \<open>Booleans\<close>

lemma allSingleByte_chunks_eq:
  "allSingleByte_chunks vector_len payload i = (b, j) \<Longrightarrow>
     (if b then i \<le> j \<and> (\<forall>x \<in> set (drop j payload). x < 0x80) = (\<forall>x \<in> set (drop i payload). x < 0x80)
      else \<not> (\<forall>x \<in> set (drop i payload). x < 0x80))"
proof (induction vector_len payload i arbitrary: b j rule: allSingleByte_chunks.induct)
  case (1 vector_len payload i)
  have split: "set (drop i payload) = set (take vector_len (drop i payload)) \<union> set (drop (i + vector_len) payload)"
    by (metis add.commute append_take_drop_id drop_drop set_append)
  show ?case
  proof (cases "0 < vector_len \<and> i + vector_len \<le> length payload")
    case True
    show ?thesis
    proof (cases "list_ex (\<lambda>b. b \<ge> 0x80) (take vector_len (drop i payload))")
      case bad: True
      then have "b = False" using 1(2) True by (subst (asm) allSingleByte_chunks.simps) simp
      moreover have "\<exists>x \<in> set (drop i payload). \<not> x < 0x80" using bad split by (auto simp: list_ex_iff not_less)
      ultimately show ?thesis by auto
    next
      case False
      then have "allSingleByte_chunks vector_len payload (i + vector_len) = (b, j)"
        using 1(2) True by (subst (asm) allSingleByte_chunks.simps) simp
      then show ?thesis using 1(1) [OF True False] split False by (auto simp: list_ex_iff not_le split: if_splits)
    qed
  next
    case False
    then have "b = True" "j = i" using 1(2) by (subst (asm) allSingleByte_chunks.simps; auto)+
    then show ?thesis by simp
  qed
qed

lemma allSingleByte_eq: "packedVarintPayloadAllSingleByte suggested payload \<longleftrightarrow> (\<forall>x \<in> set payload. x < 0x80)"
proof -
  obtain b j where c: "allSingleByte_chunks (case suggested of None \<Rightarrow> 0 | Some n \<Rightarrow> n) payload 0 = (b, j)" by fastforce
  from allSingleByte_chunks_eq [OF c] c show ?thesis
    by (auto simp: packedVarintPayloadAllSingleByte_def list_ex_iff not_le Let_def split: bool.splits)
qed

lemma decode_single_bytes: "\<forall>x \<in> set payload. x < 0x80 \<Longrightarrow> decode_varints payload = (map ucast payload, None)"
proof (induction payload)
  case (Cons x payload)
  then have x: "unat x < 128" by (simp add: word_less_nat_alt)
  then have "varint_parse 0 (x # payload) = (Inr (unat x), 1)" by simp
  then show ?case using Cons x by (subst decode_varints_step) (auto simp: of_nat_unat)
qed simp

lemma ucast_byte_0: "(ucast (b :: byte) :: u64) = 0 \<longleftrightarrow> b = 0"
proof -
  have "unat (ucast b :: u64) = unat b" by (simp add: unat_ucast_byte)
  then show ?thesis by (simp flip: unat_0_iff)
qed

lemma appendPackedBool_fills: "fills_with (appendPackedBool suggested payload) (decoded (\<lambda>v. v \<noteq> 0) payload)"
  unfolding fills_with_def
proof (intro allI impI)
  fix st :: "bool filling"
  assume ok: "list_ok st"
  show "\<exists>r st'. appendPackedBool suggested payload st = Some (r, st') \<and> filled (decoded (\<lambda>v. v \<noteq> 0) payload) st r st'"
  proof (cases "payload = [] \<or> \<not> packedVarintPayloadAllSingleByte suggested payload")
    case True
    then show ?thesis
      using ok conversion.replaceEmpty_filled [of st 1 "\<lambda>v. v \<noteq> 0" payload]
        conversion.append_with_room [OF ok, of payload "length payload" 1 "\<lambda>v. v \<noteq> 0"] length_decoded [of 0 payload]
      by (auto simp: appendPackedBool_def decoded_def)
  next
    case False
    then have "decoded (\<lambda>v. v \<noteq> 0) payload = (map (\<lambda>byte. byte \<noteq> 0) payload, None)"
      by (simp add: allSingleByte_eq decoded_def decode_single_bytes comp_def ucast_byte_0)
    then show ?thesis
      using False grow_addMany [OF ok, of False 1 "map (\<lambda>byte. byte \<noteq> 0) payload"]
      by (simp add: appendPackedBool_def ensureUnused_def tryIn_apply)
  qed
qed

section \<open>Fixed-width values\<close>

lemma words_of_length [simp]: "length (words_of width payload cnt) = cnt"
  by (induction width payload cnt rule: words_of.induct) simp_all

lemma words_of_nth: "i < cnt \<Longrightarrow> words_of width payload cnt ! i = le_word (take width (drop (i * width) payload))"
proof (induction width payload cnt arbitrary: i rule: words_of.induct)
  case (2 width payload cnt)
  then show ?case by (cases i) (simp_all add: add.commute)
qed simp

lemma readFixedWidthPayload_eq:
  "readFixedWidthPayload cnt payload = (words_of (sizeOf TYPE('a word)) payload cnt :: 'a::len word list)"
  by (rule nth_equalityI) (simp_all add: readFixedWidthPayload_def Let_def words_of_nth)

definition words_decoded :: "bytes \<Rightarrow> ('a::len word) list \<times> wire_error option" where
  "words_decoded payload =
     (let width = sizeOf TYPE('a word) in
      if length payload mod width \<noteq> 0 then ([], Some InvalidWireType)
      else (words_of width payload (length payload div width), None))"

lemma appendPackedFixedWidth_fills:
  "fills_with (appendPackedFixedWidth little payload :: ('a::len word) fills) (words_decoded payload)"
  unfolding fills_with_def
proof (intro allI impI)
  fix st :: "('a word) filling"
  assume ok: "list_ok st"
  define width where "width = sizeOf TYPE('a word)"
  define cnt where "cnt = length payload div width"
  note defs = appendPackedFixedWidth_def words_decoded_def readFixedWidthPayload_eq
  show "\<exists>r st'. appendPackedFixedWidth little payload st = Some (r, st') \<and> filled (words_decoded payload) st r st'"
  proof (cases "length payload mod width \<noteq> 0 \<or> cnt = 0")
    case True
    then show ?thesis using ok by (auto simp: defs Let_def simp flip: width_def) (auto simp: cnt_def)
  next
    case False
    show ?thesis
    proof (cases "elements (fill_list st) = [] \<and> room (fill_list st) = 0")
      case True
      obtain r al where "inAlloc (allocSlice width cnt) st = Some (r, st\<lparr>fill_alloc := al\<rparr>)" "r = Inr () \<or> r = Inl OutOfMemory"
        using inAlloc_cases by blast
      then show ?thesis
        using True False ok by (auto simp: defs Let_def tryIn_apply list_ok_def simp flip: width_def cnt_def)
    next
      case other: False
      then show ?thesis
        using False ok grow_addMany [OF ok, of True width "words_of width payload cnt"]
        by (auto simp: defs Let_def simp flip: width_def cnt_def)
    qed
  qed
qed

lemma length_sliceAsBytes: "length (sliceAsBytes vs) = length vs * sizeOf TYPE('a word)" for vs :: "('a::len word) list"
  by (induction vs) (simp_all add: sliceAsBytes_def)

lemma words_of_slice:
  fixes vs :: "('a::len word) list"
  assumes "LENGTH('a) \<le> 8 * sizeOf TYPE('a word)"
  shows "words_of (sizeOf TYPE('a word)) (sliceAsBytes vs) (length vs) = vs"
  by (induction vs) (simp_all add: sliceAsBytes_def le_word_le_bytes assms)

lemma words_decoded_slice:
  fixes vs :: "('a::len word) list"
  assumes "LENGTH('a) \<le> 8 * sizeOf TYPE('a word)"
  shows "words_decoded (sliceAsBytes vs) = (vs, None)"
proof -
  have "0 < sizeOf TYPE('a word)" using assms len_gt_0 [where 'a='a] by (cases "sizeOf TYPE('a word)") auto
  then show ?thesis using words_of_slice [OF assms, of vs] by (simp add: words_decoded_def Let_def length_sliceAsBytes)
qed

lemma writeEach_appends: "(\<And>v. appends (f v) (enc v)) \<Longrightarrow> appends (writeEach f vs) (concat (map enc vs))"
  by (induction vs) (auto intro: appending appends_return)

lemma writePackedFixedWidthPayload_appends: "appends (writePackedFixedWidthPayload little vs) (sliceAsBytes vs)"
  for vs :: "('a::len word) list"
  using writeEach_appends [of writeRawLittle "le_bytes (sizeOf TYPE('a word))" vs] appendSlice_appends [of "sliceAsBytes vs"]
  by (simp add: writePackedFixedWidthPayload_def sliceAsBytes_def writeRawLittle_appends)

lemma decode_varints_enc: "decode_varints (varints_enc vs) = (vs, None)"
proof (induction vs)
  case (Cons v vs)
  have "varint_parse 0 (varints_enc (v # vs)) = (Inr (unat v), length (varint_enc (unat v)))"
    using varint_parse_enc [of 0 "unat v" "varints_enc vs"] unat_bound [of v] by (simp add: varints_enc_def)
  then show ?case using Cons by (subst decode_varints_step) (auto simp: varints_enc_def)
qed (simp add: varints_enc_def)

lemma decoded_enc: "(\<And>v. f (g v) = v) \<Longrightarrow> decoded f (varints_enc (map g vs)) = (vs, None)"
  by (simp add: decoded_def decode_varints_enc comp_def)

lemma packed_fills:
  "fills_with (appendPackedInt32 payload) (decoded ucast payload)"
  "fills_with (appendPackedInt64 payload) (decoded (\<lambda>v. v) payload)"
  "fills_with (appendPackedUInt32 payload) (decoded ucast payload)"
  "fills_with (appendPackedUInt64 payload) (decoded (\<lambda>v. v) payload)"
  "fills_with (appendPackedSInt32 payload) (decoded (\<lambda>v. zigZagDecode32 (ucast v)) payload)"
  "fills_with (appendPackedSInt64 payload) (decoded zigZagDecode64 payload)"
  "fills_with (appendPackedBool suggested payload) (decoded (\<lambda>v. v \<noteq> 0) payload)"
  "fills_with (appendPackedFixed32 little payload) (words_decoded payload)"
  "fills_with (appendPackedFixed64 little payload) (words_decoded payload)"
  "fills_with (appendPackedSFixed32 little payload) (words_decoded payload)"
  "fills_with (appendPackedSFixed64 little payload) (words_decoded payload)"
  "fills_with (appendPackedFloat little payload) (words_decoded payload)"
  "fills_with (appendPackedDouble little payload) (words_decoded payload)"
  unfolding appendPackedInt32_def appendPackedInt64_def appendPackedUInt32_def appendPackedUInt64_def
    appendPackedSInt32_def appendPackedSInt64_def appendPackedFixed32_def appendPackedFixed64_def
    appendPackedSFixed32_def appendPackedSFixed64_def appendPackedFloat_def appendPackedDouble_def
  by (rule hot.appendToList_fills plain.appendPackedVarints_fills conversion.appendPackedVarints_fills
      appendPackedBool_fills appendPackedFixedWidth_fills)+

lemma fills_with_eq: "fills_with m p \<Longrightarrow> p = q \<Longrightarrow> fills_with m q"
  by simp

section \<open>Packed fields written and read\<close>

text \<open>
  \<open>packed_varints conv write_one read num vs\<close>: the writer of one element writes \<open>conv v\<close> as a varint behind
  its tag; \<open>writePackedVarints\<close> on the values so converted appends one length-delimited field of
  the same number, and the reader of the packed field takes the values back out of its payload.
\<close>

definition packed_varints ::
    "('a \<Rightarrow> u64) \<Rightarrow> (field_number \<Rightarrow> 'a \<Rightarrow> unit writing) \<Rightarrow> (bytes \<Rightarrow> 'a fills) \<Rightarrow> field_number \<Rightarrow> 'a list \<Rightarrow> bool" where
  "packed_varints conv write_one read num vs \<longleftrightarrow>
     (\<forall>v. appends (write_one num v) (tag_enc num Varint @ varint_enc (unat (conv v)))) \<and>
     (\<exists>payload. appends (writePackedVarints num (map conv vs)) (tag_enc num LengthDelimited @ delimited_enc payload) \<and>
        fills_with (read payload) (vs, None))"

definition packed_words :: "(bool \<Rightarrow> bytes \<Rightarrow> ('a::len word) fills) \<Rightarrow> 'a word list \<Rightarrow> bool" where
  "packed_words read vs \<longleftrightarrow> (\<forall>little little'. \<exists>payload.
     appends (writePackedFixedWidthPayload little vs) payload \<and> fills_with (read little' payload) (vs, None))"

lemma varints_enc_fits: "length vs \<le> usize_max div 10 \<Longrightarrow> fits_usize (varints_enc vs)"
proof -
  assume len: "length vs \<le> usize_max div 10"
  have "length (varint_enc (unat v)) \<le> 10" for v :: u64
    using length_varint_enc_le [of "unat v" 10] unat_bound [of v] by simp
  then have "length (varints_enc vs) \<le> 10 * length vs"
    by (induction vs) (auto simp: varints_enc_def intro: order_trans [OF add_mono])
  then show ?thesis using len by (simp add: fits_usize_def)
qed

lemma packed_varintsI:
  assumes "num \<noteq> 0" "length vs \<le> usize_max div 10"
    and "\<And>v. appends (write_one num v) (tag_enc num Varint @ varint_enc (unat (conv v)))"
    and "\<And>payload. fills_with (read payload) (decoded restore payload)" "\<And>v. restore (conv v) = v"
  shows "packed_varints conv write_one read num vs"
proof -
  have "fits_usize (varints_enc (map conv vs))" using assms(2) by (intro varints_enc_fits) simp
  moreover have "fills_with (read (varints_enc (map conv vs))) (vs, None)"
    by (rule fills_with_eq [OF assms(4)]) (simp add: decoded_enc assms(5))
  ultimately show ?thesis using writePackedVarints_appends [OF assms(1)] assms(3) unfolding packed_varints_def by blast
qed

lemma varint_writers:
  assumes "num \<noteq> 0"
  shows "appends (writeUInt32 num a) (tag_enc num Varint @ varint_enc (unat (ucast a :: u64)))"
    "appends (writeUInt64 num b) (tag_enc num Varint @ varint_enc (unat b))"
    "appends (writeInt32 num c) (tag_enc num Varint @ varint_enc (unat (scast c :: u64)))"
    "appends (writeInt64 num b) (tag_enc num Varint @ varint_enc (unat b))"
    "appends (writeSInt32 num c) (tag_enc num Varint @ varint_enc (unat (ucast (zigZagEncode32 c) :: u64)))"
    "appends (writeSInt64 num b) (tag_enc num Varint @ varint_enc (unat (zigZagEncode64 b)))"
    "appends (writeBool num d) (tag_enc num Varint @ varint_enc (unat (if d then 1 else 0 :: u64)))"
  unfolding writeUInt32_def writeUInt64_def writeInt32_def writeInt64_def writeSInt32_def writeSInt64_def
  using bool.writes_appends [OF assms, of d] by (auto simp: bool_enc_varint intro!: appending assms)

lemma packed_wordsI:
  fixes read :: "bool \<Rightarrow> bytes \<Rightarrow> ('a::len word) fills"
  assumes "\<And>little payload. fills_with (read little payload) (words_decoded payload)" "LENGTH('a) \<le> 8 * sizeOf TYPE('a word)"
  shows "packed_words read vs"
  unfolding packed_words_def
  using writePackedFixedWidthPayload_appends fills_with_eq [OF assms(1) words_decoded_slice [OF assms(2)]] by blast

section \<open>Properties\<close>

text \<open>
  C14: decoding a packed payload behind a list never panics, whatever the list, the
  allocator, the target's vector width and byte order: it appends exactly the values of the
  payload, in order, or reports the payload's first error or a refused allocation, and then
  at most the values in front of that error have been added.
\<close>

theorem packed_payload_appended:
  "fills_with (appendPackedInt32 payload) (decoded ucast payload) \<and>
   fills_with (appendPackedInt64 payload) (decoded (\<lambda>v. v) payload) \<and>
   fills_with (appendPackedUInt32 payload) (decoded ucast payload) \<and>
   fills_with (appendPackedUInt64 payload) (decoded (\<lambda>v. v) payload) \<and>
   fills_with (appendPackedSInt32 payload) (decoded (\<lambda>v. zigZagDecode32 (ucast v)) payload) \<and>
   fills_with (appendPackedSInt64 payload) (decoded zigZagDecode64 payload) \<and>
   fills_with (appendPackedBool suggested payload) (decoded (\<lambda>v. v \<noteq> 0) payload) \<and>
   fills_with (appendPackedFixed32 little payload) (words_decoded payload) \<and>
   fills_with (appendPackedFixed64 little payload) (words_decoded payload) \<and>
   fills_with (appendPackedSFixed32 little payload) (words_decoded payload) \<and>
   fills_with (appendPackedSFixed64 little payload) (words_decoded payload) \<and>
   fills_with (appendPackedFloat little payload) (words_decoded payload) \<and>
   fills_with (appendPackedDouble little payload) (words_decoded payload)"
  by (intro conjI packed_fills)

text \<open>
  C15: what the packed writers write is read back. For each of the seven varint types, with the
  conversion to \<open>u64\<close> by which the writer of one field of the type writes its value (sign
  extension, zig-zag, 0 or 1): \<open>writePackedVarints\<close> on the converted values appends one
  length-delimited field, and the packed reader of the type fills a list with the values from
  its payload. For the six fixed-width types, the payload is written on a target of
  either byte order and read on one of either. The lists are at most a tenth as long as a
  slice can be, so that the payload is a slice.
\<close>

theorem packed_roundtrip:
  assumes "num \<noteq> 0" "length vs32 \<le> usize_max div 10" "length vs64 \<le> usize_max div 10" "length bools \<le> usize_max div 10"
  shows "packed_varints ucast writeUInt32 appendPackedUInt32 num vs32 \<and>
    packed_varints (\<lambda>v. v) writeUInt64 appendPackedUInt64 num vs64 \<and>
    packed_varints scast writeInt32 appendPackedInt32 num vs32 \<and>
    packed_varints (\<lambda>v. v) writeInt64 appendPackedInt64 num vs64 \<and>
    packed_varints (\<lambda>v. ucast (zigZagEncode32 v)) writeSInt32 appendPackedSInt32 num vs32 \<and>
    packed_varints zigZagEncode64 writeSInt64 appendPackedSInt64 num vs64 \<and>
    packed_varints (\<lambda>b. if b then 1 else 0) writeBool (appendPackedBool suggested) num bools \<and>
    packed_words appendPackedFixed32 vs32 \<and> packed_words appendPackedSFixed32 vs32 \<and> packed_words appendPackedFloat vs32 \<and>
    packed_words appendPackedFixed64 vs64 \<and> packed_words appendPackedSFixed64 vs64 \<and> packed_words appendPackedDouble vs64"
proof (intro conjI)
  note varints = varint_writers [OF assms(1)] ucast_ucast_u32 ucast_scast_i32 zigZagDecode32_encode zigZagDecode64_encode
  show "packed_varints ucast writeUInt32 appendPackedUInt32 num vs32"
    by (rule packed_varintsI [where restore = ucast, OF assms(1,2)]) (simp_all add: varints packed_fills)
  show "packed_varints (\<lambda>v. v) writeUInt64 appendPackedUInt64 num vs64"
    by (rule packed_varintsI [where restore = "\<lambda>v. v", OF assms(1,3)]) (simp_all add: varints packed_fills)
  show "packed_varints scast writeInt32 appendPackedInt32 num vs32"
    by (rule packed_varintsI [where restore = ucast, OF assms(1,2)]) (simp_all add: varints packed_fills)
  show "packed_varints (\<lambda>v. v) writeInt64 appendPackedInt64 num vs64"
    by (rule packed_varintsI [where restore = "\<lambda>v. v", OF assms(1,3)]) (simp_all add: varints packed_fills)
  show "packed_varints (\<lambda>v. ucast (zigZagEncode32 v)) writeSInt32 appendPackedSInt32 num vs32"
    by (rule packed_varintsI [where restore = "\<lambda>v. zigZagDecode32 (ucast v)", OF assms(1,2)]) (simp_all add: varints packed_fills)
  show "packed_varints zigZagEncode64 writeSInt64 appendPackedSInt64 num vs64"
    by (rule packed_varintsI [where restore = zigZagDecode64, OF assms(1,3)]) (simp_all add: varints packed_fills)
  show "packed_varints (\<lambda>b. if b then 1 else 0) writeBool (appendPackedBool suggested) num bools"
    by (rule packed_varintsI [where restore = "\<lambda>v. v \<noteq> 0", OF assms(1,4)]) (simp_all only: varints packed_fills, simp)
qed (rule packed_wordsI; simp add: packed_fills sizeOf_def)+

theorem packed_roundtrip_witness:
  "\<exists>payload. appends (writePackedVarints 4 [1, 0xFFFFFFFF]) (tag_enc 4 LengthDelimited @ delimited_enc payload) \<and>
     fills_with (appendPackedSInt32 payload) ([- 1, - 2147483648], None)"
  using packed_roundtrip [of 4 "[- 1, - 2147483648]" "[]" "[]"]
  by (simp add: packed_varints_def usize_max_def zigZagEncode32_def)

end
