(* ===== verification/Wire_Views.thy ===== *)
theory Wire_Views
  imports Wire_Packed
begin

unbundle bit_operations_syntax

text \<open>
  Borrowed views of \<open>src/wire.zig\<close>: field headers built beside a payload that is not copied,
  the first field of a number looked up in an encoded message, and the iterators that walk
  over all occurrences of a repeated varint field, packed or not, without allocating.
\<close>

section \<open>Header and payload\<close>

record BorrowedFieldSlices =
  header :: bytes
  slice_payload :: bytes

definition lengthDelimitedFieldSlicesAssumeValidTag :: "bytes \<Rightarrow> u64 \<Rightarrow> bytes \<Rightarrow> BorrowedFieldSlices option" where
  "lengthDelimitedFieldSlicesAssumeValidTag buf raw_tag payload =
     Option.bind (writeVarintToBuffer buf raw_tag) (\<lambda>(buf, n).
     Option.bind (write_tail (\<lambda>sub. writeVarintToBuffer sub (of_nat (length payload))) buf n) (\<lambda>(buf, header_len).
     Some \<lparr>header = take header_len buf, slice_payload = payload\<rparr>))"

definition lengthDelimitedFieldSlices :: "bytes \<Rightarrow> field_number \<Rightarrow> bytes \<Rightarrow> (wire_error + BorrowedFieldSlices) option" where
  "lengthDelimitedFieldSlices buf num payload = (case tag_encode \<lparr>number = num, tag_type = LengthDelimited\<rparr> of
       Inl e \<Rightarrow> Some (Inl e)
     | Inr raw_tag \<Rightarrow> map_option Inr (lengthDelimitedFieldSlicesAssumeValidTag buf raw_tag payload))"

definition lengthDelimitedFieldSlicesAssumeValid :: "bytes \<Rightarrow> field_number \<Rightarrow> bytes \<Rightarrow> BorrowedFieldSlices option" where
  "lengthDelimitedFieldSlicesAssumeValid buf num payload =
     lengthDelimitedFieldSlicesAssumeValidTag buf (push_bit 3 (ucast num) OR of_nat (intFromEnum LengthDelimited)) payload"

definition packedFixedWidthFieldSlices ::
    "bool \<Rightarrow> bytes \<Rightarrow> field_number \<Rightarrow> ('a::len word) list \<Rightarrow> (wire_error + BorrowedFieldSlices) option" where
  "packedFixedWidthFieldSlices little buf num vs =
     (if \<not> little then Some (Inl UnsupportedWireType)
      else (case tag_encode \<lparr>number = num, tag_type = LengthDelimited\<rparr> of
              Inl e \<Rightarrow> Some (Inl e)
            | Inr raw_tag \<Rightarrow>
                let payload = sliceAsBytes vs in
                Option.bind (writeVarintToBuffer buf raw_tag) (\<lambda>(buf, n).
                Option.bind (write_tail (\<lambda>sub. writeVarintToBuffer sub (of_nat (length payload))) buf n) (\<lambda>(buf, header_len).
                Some (Inr \<lparr>header = take header_len buf, slice_payload = payload\<rparr>)))))"

definition packedFixed32FieldSlices :: "bool \<Rightarrow> bytes \<Rightarrow> field_number \<Rightarrow> u32 list \<Rightarrow> (wire_error + BorrowedFieldSlices) option" where
  "packedFixed32FieldSlices little buf num vs = packedFixedWidthFieldSlices little buf num vs"

text \<open>A \<open>bool\<close> occupies one byte, 0 or 1.\<close>

definition packedBoolFieldSlices :: "bytes \<Rightarrow> field_number \<Rightarrow> bool list \<Rightarrow> (wire_error + BorrowedFieldSlices) option" where
  "packedBoolFieldSlices buf num vs = lengthDelimitedFieldSlices buf num (map (\<lambda>b. if b then 1 else 0) vs)"

section \<open>The first field of a number\<close>

text \<open>
  The loop that all lookups share: fields of other numbers are skipped, and the first field
  of the number is handed to \<open>found\<close> with the reader behind its tag.
\<close>

partial_function (option) findField ::
    "(tag \<Rightarrow> 'a reading) \<Rightarrow> field_number \<Rightarrow> reader \<Rightarrow> ((wire_error + 'a option) \<times> reader) option" where
  "findField found num self = (case nextTag self of
       None \<Rightarrow> None
     | Some (Inl e, self) \<Rightarrow> Some (Inl e, self)
     | Some (Inr None, self) \<Rightarrow> Some (Inr None, self)
     | Some (Inr (Some t), self) \<Rightarrow>
         if number t = num
         then (case found t self of
                 None \<Rightarrow> None
               | Some (Inl e, self) \<Rightarrow> Some (Inl e, self)
               | Some (Inr x, self) \<Rightarrow> Some (Inr (Some x), self))
         else (case skipValue t self of
                 None \<Rightarrow> None
               | Some (Inl e, self) \<Rightarrow> Some (Inl e, self)
               | Some (Inr _, self) \<Rightarrow> findField found num self))"

definition packedFixedWidthView :: "bool \<Rightarrow> bytes \<Rightarrow> wire_error + ('a::len word) list" where
  "packedFixedWidthView little payload =
     (let width = sizeOf TYPE('a word) in
      if length payload mod width \<noteq> 0 then Inl InvalidWireType
      else if \<not> little then Inl UnsupportedWireType
      else Inr (words_of width payload (length payload div width)))"

definition packedFixedWidthFieldView :: "bool \<Rightarrow> bytes \<Rightarrow> field_number \<Rightarrow> (wire_error + ('a::len word) list option) option" where
  "packedFixedWidthFieldView little bs num = map_option fst (findField (\<lambda>t.
       if tag_type t \<noteq> LengthDelimited then throw InvalidWireType
       else tryIn readBytes (\<lambda>payload. liftSum (packedFixedWidthView little payload))) num (reader_init bs))"

definition packedFixed32View :: "bool \<Rightarrow> bytes \<Rightarrow> wire_error + u32 list" where
  "packedFixed32View little payload = packedFixedWidthView little payload"

definition packedFixed32FieldView :: "bool \<Rightarrow> bytes \<Rightarrow> field_number \<Rightarrow> (wire_error + u32 list option) option" where
  "packedFixed32FieldView little bs num = packedFixedWidthFieldView little bs num"

definition bytesFieldView :: "bytes \<Rightarrow> field_number \<Rightarrow> (wire_error + bytes option) option" where
  "bytesFieldView bs num = map_option fst (findField (\<lambda>t.
       if tag_type t \<noteq> LengthDelimited then throw InvalidWireType else readBytes) num (reader_init bs))"

section \<open>Iterators over repeated varints\<close>

text \<open>The six iterator structs have the same fields and differ in the conversion of \<open>next\<close>.\<close>

record PackedIterator =
  payload :: bytes
  at_index :: nat
  remaining_fields :: bytes
  field_num :: field_number

record PackedVarintSegment =
  seg_payload :: bytes
  seg_remaining :: bytes

definition orOutOfBounds :: "'a option \<Rightarrow> 'a reading" where
  "orOutOfBounds r = (case r of None \<Rightarrow> (\<lambda>_. None) | Some x \<Rightarrow> return x)"

definition segmentPayload :: "bytes \<Rightarrow> tag \<Rightarrow> bytes reading" where
  "segmentPayload bs t = (case tag_type t of
       LengthDelimited \<Rightarrow> readBytes
     | Varint \<Rightarrow> (\<lambda>self.
         let start = position self in
         tryIn readVarint (\<lambda>_ self. Some (Inr (take (position self - start) (drop start bs)), self)) self)
     | _ \<Rightarrow> throw InvalidWireType)"

definition segmentFound :: "bytes \<Rightarrow> tag \<Rightarrow> PackedVarintSegment reading" where
  "segmentFound bs t = tryIn (segmentPayload bs t) (\<lambda>p self.
     tryIn (orOutOfBounds (remaining self)) (\<lambda>rest. return \<lparr>seg_payload = p, seg_remaining = rest\<rparr>) self)"

definition nextPackedVarintSegment :: "bytes \<Rightarrow> field_number \<Rightarrow> (wire_error + PackedVarintSegment option) option" where
  "nextPackedVarintSegment bs num = map_option fst (findField (segmentFound bs) num (reader_init bs))"

type_synonym 'a nexting = "PackedIterator \<Rightarrow> ((wire_error + 'a option) \<times> PackedIterator) option"

partial_function (option) nextPackedVarint :: "PackedIterator \<Rightarrow> ((wire_error + u64 option) \<times> PackedIterator) option" where
  "nextPackedVarint self =
     (if at_index self < length (payload self)
      then (case readVarintAt (payload self) (at_index self) of
              (Inl e, j) \<Rightarrow> Some (Inl e, self\<lparr>at_index := j\<rparr>)
            | (Inr v, j) \<Rightarrow> Some (Inr (Some v), self\<lparr>at_index := j\<rparr>))
      else if field_num self = 0 then Some (Inr None, self)
      else (case nextPackedVarintSegment (remaining_fields self) (field_num self) of
              None \<Rightarrow> None
            | Some (Inl e) \<Rightarrow> Some (Inl e, self)
            | Some (Inr None) \<Rightarrow> Some (Inr None, self)
            | Some (Inr (Some segment)) \<Rightarrow> nextPackedVarint (self\<lparr>payload := seg_payload segment, at_index := 0,
                remaining_fields := seg_remaining segment\<rparr>)))"

definition hotVarint :: "bytes \<Rightarrow> nat \<Rightarrow> (wire_error + u32) \<times> nat" where
  "hotVarint p start =
     (let i = start; first = p ! i; i = i + 1; raw = ucast (first AND 0x7F) in
      if first < 0x80 then (Inr raw, i)
      else if i \<ge> length p then (Inl TruncatedInput, i)
      else let second = p ! i; i = i + 1; raw = raw OR push_bit 7 (ucast (second AND 0x7F)) in
      if second < 0x80 then (Inr raw, i)
      else (case readVarintAt p start of (Inl e, j) \<Rightarrow> (Inl e, j) | (Inr v, j) \<Rightarrow> (Inr (ucast v), j)))"

partial_function (option) nextPackedVarint32Hot :: "PackedIterator \<Rightarrow> ((wire_error + u32 option) \<times> PackedIterator) option" where
  "nextPackedVarint32Hot self =
     (if at_index self < length (payload self)
      then (case hotVarint (payload self) (at_index self) of
              (Inl e, j) \<Rightarrow> Some (Inl e, self\<lparr>at_index := j\<rparr>)
            | (Inr v, j) \<Rightarrow> Some (Inr (Some v), self\<lparr>at_index := j\<rparr>))
      else if field_num self = 0 then Some (Inr None, self)
      else (case nextPackedVarintSegment (remaining_fields self) (field_num self) of
              None \<Rightarrow> None
            | Some (Inl e) \<Rightarrow> Some (Inl e, self)
            | Some (Inr None) \<Rightarrow> Some (Inr None, self)
            | Some (Inr (Some segment)) \<Rightarrow> nextPackedVarint32Hot (self\<lparr>payload := seg_payload segment, at_index := 0,
                remaining_fields := seg_remaining segment\<rparr>)))"

definition mapNext :: "('a \<Rightarrow> 'b) \<Rightarrow> 'a nexting \<Rightarrow> 'b nexting" where
  "mapNext f m = (\<lambda>self. case m self of
       None \<Rightarrow> None
     | Some (Inl e, self) \<Rightarrow> Some (Inl e, self)
     | Some (Inr v, self) \<Rightarrow> Some (Inr (map_option f v), self))"

definition PackedUInt64_next :: "u64 nexting" where
  "PackedUInt64_next self = nextPackedVarint self"

definition PackedInt32_next :: "i32 nexting" where
  "PackedInt32_next self = nextPackedVarint32Hot self"

definition PackedUInt32_next :: "u32 nexting" where
  "PackedUInt32_next self = mapNext ucast nextPackedVarint self"

definition PackedInt64_next :: "i64 nexting" where
  "PackedInt64_next self = mapNext (\<lambda>v. v) nextPackedVarint self"

definition PackedSInt32_next :: "i32 nexting" where
  "PackedSInt32_next self = mapNext zigZagDecode32 nextPackedVarint32Hot self"

definition PackedSInt64_next :: "i64 nexting" where
  "PackedSInt64_next self = mapNext zigZagDecode64 nextPackedVarint self"

definition packedFieldIterator :: "bytes \<Rightarrow> field_number \<Rightarrow> (wire_error + PackedIterator option) option" where
  "packedFieldIterator bs num = (case nextPackedVarintSegment bs num of
       None \<Rightarrow> None
     | Some (Inl e) \<Rightarrow> Some (Inl e)
     | Some (Inr None) \<Rightarrow> Some (Inr None)
     | Some (Inr (Some segment)) \<Rightarrow> Some (Inr (Some \<lparr>payload = seg_payload segment, at_index = 0,
         remaining_fields = seg_remaining segment, field_num = num\<rparr>)))"

section \<open>Lookups always return\<close>

lemma findField_step:
  "nextTag self = Some (Inr (Some t), s) \<Longrightarrow> number t \<noteq> num \<Longrightarrow> skipValue t s = Some (Inr (), s') \<Longrightarrow>
     findField found num self = findField found num s'"
  by (subst findField.simps) simp

lemma findField_returns:
  assumes "\<And>t. reads_ok (found t)" "\<And>t s x s'. reader_ok s \<Longrightarrow> found t s = Some (Inr x, s') \<Longrightarrow> Q x s'" "reader_ok self"
  shows "\<exists>r s. findField found num self = Some (r, s) \<and> reader_ok s \<and> input s = input self \<and> index self \<le> index s \<and>
    (case r of Inr (Some x) \<Rightarrow> index self < index s \<and> Q x s | _ \<Rightarrow> True)"
  using assms(3)
proof (induction "rest_length self" arbitrary: self rule: less_induct)
  case less
  obtain r s where t: "nextTag self = Some (r, s)" "reader_ok s" "reader_step self s"
    using reads_ok_ex [OF reads_ok_nextTag less.prems] by blast
  then have s: "input s = input self" "index self \<le> index s" by (simp_all add: reader_step_def)
  consider (err) e where "r = Inl e" | (no) "r = Inr None" | (tag) t where "r = Inr (Some t)"
    by (metis sum.exhaust option.exhaust)
  then show ?case
  proof cases
    case (tag tg)
    note progress = nextTag_progress [OF less.prems, of tg s]
    show ?thesis
    proof (cases "number tg = num")
      case True
      obtain r2 s2 where "found tg s = Some (r2, s2)" "reader_ok s2" "reader_step s s2"
        using reads_ok_ex [OF assms(1) t(2)] by blast
      then show ?thesis
        using t tag True s progress assms(2) [of s tg] by (cases r2) (subst findField.simps, auto simp: reader_step_def)+
    next
      case False
      obtain r2 s2 where k: "skipValue tg s = Some (r2, s2)" "reader_ok s2" "reader_step s s2"
        using reads_ok_ex [OF reads_ok_skip(1) t(2)] by blast
      show ?thesis
      proof (cases r2)
        case (Inl e)
        then show ?thesis using t tag False s k by (subst findField.simps) (auto simp: reader_step_def)
      next
        case (Inr u)
        then have eq: "findField found num self = findField found num s2"
          using t(1) tag False k(1) by (intro findField_step) auto
        have "rest_length s2 < rest_length self" "index self < index s2" "input s2 = input self"
          using progress t(1) tag k(3) s by (auto simp: reader_step_def rest_length_def)
        then show ?thesis
          using less.hyps [of s2] k(2) unfolding eq by (fastforce split: sum.splits option.splits)
      qed
    qed
  qed (use t s in \<open>subst findField.simps, simp\<close>)+
qed

lemma reads_ok_segmentPayload: "reads_ok (segmentPayload bs t)"
proof (cases "tag_type t = Varint")
  case True
  show ?thesis
  proof (rule reads_okI)
    fix self assume "reader_ok self"
    then obtain r s where "readVarint self = Some (r, s)" "reader_ok s" "reader_step self s"
      using reads_ok_ex [OF reads_ok_readVarint] by blast
    then show "\<exists>r self'. segmentPayload bs t self = Some (r, self') \<and> reader_ok self' \<and> reader_step self self'"
      using True by (cases r) (simp_all add: segmentPayload_def Let_def tryIn_apply)
  qed
next
  case False
  then show ?thesis
    by (cases "tag_type t") (simp_all add: segmentPayload_def reads_ok_readBytes reads_ok_throw)
qed

lemma segmentFound_ok: "reads_ok (segmentFound bs t)"
proof (rule reads_okI)
  fix self assume "reader_ok self"
  then obtain r s where "segmentPayload bs t self = Some (r, s)" "reader_ok s" "reader_step self s"
    using reads_ok_ex [OF reads_ok_segmentPayload] by blast
  then show "\<exists>r self'. segmentFound bs t self = Some (r, self') \<and> reader_ok self' \<and> reader_step self self'"
    by (cases r) (simp_all add: segmentFound_def tryIn_apply remaining_def orOutOfBounds_def reader_ok_def)
qed

lemma segmentFound_remaining:
  "segmentFound bs t s = Some (Inr x, s') \<Longrightarrow> seg_remaining x = drop (index s') (input s')"
  by (auto simp: segmentFound_def tryIn_def remaining_def orOutOfBounds_def split: option.splits sum.splits if_splits)

lemma segment_returns:
  "\<exists>r. nextPackedVarintSegment bs num = Some r \<and>
     (case r of Inr (Some segment) \<Rightarrow> length (seg_remaining segment) < length bs | _ \<Rightarrow> True)"
proof -
  have "\<exists>r s. findField (segmentFound bs) num (reader_init bs) = Some (r, s) \<and> reader_ok s \<and>
      input s = input (reader_init bs) \<and> index (reader_init bs) \<le> index s \<and>
      (case r of Inr (Some x) \<Rightarrow> index (reader_init bs) < index s \<and> seg_remaining x = drop (index s) (input s) | _ \<Rightarrow> True)"
    by (rule findField_returns) (auto intro: segmentFound_ok reader_ok_init dest: segmentFound_remaining)
  moreover have init: "input (reader_init bs) = bs" "index (reader_init bs) = 0" by (simp_all add: reader_init_def)
  ultimately obtain r s where "findField (segmentFound bs) num (reader_init bs) = Some (r, s)" "reader_ok s" "input s = bs"
    "case r of Inr (Some x) \<Rightarrow> 0 < index s \<and> seg_remaining x = drop (index s) (input s) | _ \<Rightarrow> True"
    unfolding init by blast
  then show ?thesis
    by (auto simp: nextPackedVarintSegment_def reader_ok_def split: sum.splits option.splits)
qed

text \<open>An iterator step either reads from its segment or goes on with a shorter rest.\<close>

lemma iterator_induct [case_names iter]:
  assumes "\<And>it. (\<And>segment. at_index it \<ge> length (payload it) \<Longrightarrow> field_num it \<noteq> 0 \<Longrightarrow>
      nextPackedVarintSegment (remaining_fields it) (field_num it) = Some (Inr (Some segment)) \<Longrightarrow>
      P (it\<lparr>payload := seg_payload segment, at_index := 0, remaining_fields := seg_remaining segment\<rparr>)) \<Longrightarrow> P it"
  shows "P it"
proof (induction "length (remaining_fields it)" arbitrary: it rule: less_induct)
  case less
  show ?case
  proof (rule assms)
    fix segment
    assume "nextPackedVarintSegment (remaining_fields it) (field_num it) = Some (Inr (Some segment))"
    then have "length (seg_remaining segment) < length (remaining_fields it)"
      using segment_returns [of "remaining_fields it" "field_num it"] by auto
    then show "P (it\<lparr>payload := seg_payload segment, at_index := 0, remaining_fields := seg_remaining segment\<rparr>)"
      by (intro less.hyps) simp
  qed
qed

lemma hotVarint_eq:
  assumes "i < length p"
  shows "hotVarint p i = converted ucast p i"
proof -
  have "hotVarint p i = readInt32At p i"
    using assms unfolding hotVarint_def readInt32At_def readTwoByteHot_def Let_def by simp
  then show ?thesis by (simp add: readInt32At_eq converted_def)
qed

lemma nextPackedVarint_returns: "\<exists>r it'. nextPackedVarint it = Some (r, it')"
proof (induction it rule: iterator_induct)
  case (iter it)
  obtain r where "nextPackedVarintSegment (remaining_fields it) (field_num it) = Some r" using segment_returns by blast
  then show ?case
    using iter by (subst nextPackedVarint.simps) (auto split: prod.splits sum.splits option.splits)
qed

lemma nextPackedVarint32Hot_eq: "nextPackedVarint32Hot it = mapNext ucast nextPackedVarint it"
proof (induction it rule: iterator_induct)
  case (iter it)
  obtain r where r: "nextPackedVarintSegment (remaining_fields it) (field_num it) = Some r" using segment_returns by blast
  show ?case
  proof (cases "at_index it < length (payload it)")
    case True
    then show ?thesis
      by (subst nextPackedVarint32Hot.simps, unfold mapNext_def, subst nextPackedVarint.simps)
        (simp add: hotVarint_eq converted_def split: prod.splits sum.splits)
  next
    case False
    then show ?thesis
      using iter r
      by (subst nextPackedVarint32Hot.simps, unfold mapNext_def, subst nextPackedVarint.simps)
        (auto split: sum.splits option.splits)
  qed
qed

section \<open>What an iterator yields\<close>

text \<open>
  \<open>field_values num bs vs\<close>: the bytes are a message, and the fields of \<open>num\<close> in it, each one
  varint or a packed payload of varints, hold the values \<open>vs\<close> in this order.
\<close>

inductive field_values :: "field_number \<Rightarrow> bytes \<Rightarrow> u64 list \<Rightarrow> bool" for num where
  none: "field_values num [] []"
| other: "tag_bytes tb t \<Longrightarrow> number t \<noteq> num \<Longrightarrow> value_bytes 100 t vb \<Longrightarrow> field_values num rest vs \<Longrightarrow>
    field_values num (tb @ vb @ rest) vs"
| packed: "tag_bytes tb \<lparr>number = num, tag_type = LengthDelimited\<rparr> \<Longrightarrow> delimited_bytes db p \<Longrightarrow>
    decode_varints p = (us, None) \<Longrightarrow> field_values num rest vs \<Longrightarrow> field_values num (tb @ db @ rest) (us @ vs)"
| single: "tag_bytes tb \<lparr>number = num, tag_type = Varint\<rparr> \<Longrightarrow> varint_bytes vb v \<Longrightarrow> field_values num rest vs \<Longrightarrow>
    field_values num (tb @ vb @ rest) (of_nat v # vs)"

inductive drains :: "'a nexting \<Rightarrow> PackedIterator \<Rightarrow> 'a list \<Rightarrow> bool" for next_op where
  drained: "next_op it = Some (Inr None, it') \<Longrightarrow> drains next_op it []"
| drain: "next_op it = Some (Inr (Some v), it') \<Longrightarrow> drains next_op it' vs \<Longrightarrow> drains next_op it (v # vs)"

inductive_cases drainsE: "drains next_op it vs"

lemma drains_same: "drains next_op it vs \<Longrightarrow> next_op it' = next_op it \<Longrightarrow> drains next_op it' vs"
  by (erule drainsE) (auto intro: drains.intros)

lemma drains_mapNext: "drains m it vs \<Longrightarrow> drains (mapNext f m) it (map f vs)"
proof (induction rule: drains.induct)
  case (drained it it')
  then show ?case by (auto intro: drains.drained simp: mapNext_def)
next
  case (drain it v it' vs)
  then have "mapNext f m it = Some (Inr (Some (f v)), it')" by (simp add: mapNext_def)
  then show ?case using drain by (auto intro: drains.drain)
qed

lemma remaining_rest_of: "reader_ok s \<Longrightarrow> remaining s = Some (rest_of s)"
  by (simp add: remaining_def reader_ok_def rest_of_def)

lemma segmentFound_packed:
  assumes "reader_ok s" "rest_of s = db @ rest" "delimited_bytes db p" "tag_type t = LengthDelimited"
  shows "\<exists>s'. segmentFound bs t s = Some (Inr \<lparr>seg_payload = p, seg_remaining = rest\<rparr>, s')"
proof -
  let ?s = "s\<lparr>index := index s + length db\<rparr>"
  have "readBytes s = Some (Inr p, ?s)" using readBytes_iff assms(1-3) by blast
  moreover have "reader_ok ?s" using reads_okD2(1) [OF reads_ok_readBytes assms(1) calculation] .
  ultimately show ?thesis
    using assms(2,4) by (simp add: segmentFound_def segmentPayload_def tryIn_apply remaining_rest_of orOutOfBounds_def)
qed

lemma segmentFound_single:
  assumes "reader_ok s" "rest_of s = vb @ rest" "varint_bytes vb v" "tag_type t = Varint"
  shows "\<exists>s'. segmentFound (input s) t s = Some (Inr \<lparr>seg_payload = vb, seg_remaining = rest\<rparr>, s')"
proof -
  let ?s = "s\<lparr>index := index s + length vb\<rparr>"
  have v: "readVarint s = Some (Inr (of_nat v), ?s)"
    using readVarint_iff [OF assms(1), of "of_nat v" ?s] assms(2,3) varint_bytes_unat by auto
  moreover have "reader_ok ?s" using reads_okD2(1) [OF reads_ok_readVarint assms(1) v] .
  moreover have "take (length vb) (drop (index s) (input s)) = vb" using assms(2) by (simp add: rest_of_def)
  ultimately show ?thesis
    using assms(2,4)
    by (simp add: segmentFound_def segmentPayload_def position_def Let_def tryIn_apply remaining_rest_of orOutOfBounds_def)
qed

definition segment_of :: "field_number \<Rightarrow> u64 list \<Rightarrow> wire_error + PackedVarintSegment option \<Rightarrow> bool" where
  "segment_of num vs r \<longleftrightarrow> (case r of
       Inl _ \<Rightarrow> False
     | Inr None \<Rightarrow> vs = []
     | Inr (Some segment) \<Rightarrow> (\<exists>us vs'. decode_varints (seg_payload segment) = (us, None) \<and>
         field_values num (seg_remaining segment) vs' \<and> vs = us @ vs'))"

lemma findField_values:
  "field_values num bs vs \<Longrightarrow> reader_ok self \<Longrightarrow> rest_of self = bs \<Longrightarrow> depth_left self = 100 \<Longrightarrow>
     \<exists>r s. findField (segmentFound (input self)) num self = Some (r, s) \<and> segment_of num vs r"
proof (induction arbitrary: self rule: field_values.induct)
  case none
  then have "nextTag self = Some (Inr None, self)" using nextTag_None by blast
  then show ?case by (subst findField.simps) (simp add: segment_of_def)
next
  case (other tb t vb rest vs)
  obtain s where s: "nextTag self = Some (Inr (Some t), s)" "reader_ok s" "rest_of s = vb @ rest"
    "depth_left s = depth_left self" "input s = input self"
    by (rule nextTag_at [OF other.prems(1,2) other.hyps(1)])
  then have "skips (skipValue t) s vb"
    using skips_iff_value_bytes [OF s(2), of t vb] other by auto
  then obtain s' where k: "skipValue t s = Some (Inr (), s')" "index s' = index s + length vb"
    by (auto simp: skips_def)
  have "findField (segmentFound (input self)) num self = findField (segmentFound (input self)) num s'"
    by (rule findField_step [OF s(1) other.hyps(2) k(1)])
  then show ?case
    using other.IH [of s'] skips_state [OF reads_ok_skip(1) s(2) k(1) s(3) k(2)] s other.prems(3) by simp
next
  case (packed tb db p us rest vs)
  obtain s where s: "nextTag self = Some (Inr (Some \<lparr>number = num, tag_type = LengthDelimited\<rparr>), s)" "reader_ok s"
    "rest_of s = db @ rest"
    by (rule nextTag_at [OF packed.prems(1,2) packed.hyps(1)])
  then obtain s' where "segmentFound (input self) \<lparr>number = num, tag_type = LengthDelimited\<rparr> s =
      Some (Inr \<lparr>seg_payload = p, seg_remaining = rest\<rparr>, s')"
    using segmentFound_packed [OF s(2,3) packed.hyps(2), of "\<lparr>number = num, tag_type = LengthDelimited\<rparr>" "input self"]
    by auto
  then show ?case using s packed by (subst findField.simps) (auto simp: segment_of_def)
next
  case (single tb vb v rest vs)
  obtain s where s: "nextTag self = Some (Inr (Some \<lparr>number = num, tag_type = Varint\<rparr>), s)" "reader_ok s"
    "rest_of s = vb @ rest" "input s = input self"
    by (rule nextTag_at [OF single.prems(1,2) single.hyps(1)])
  then obtain s' where f: "segmentFound (input self) \<lparr>number = num, tag_type = Varint\<rparr> s =
      Some (Inr \<lparr>seg_payload = vb, seg_remaining = rest\<rparr>, s')"
    using segmentFound_single [OF s(2,3) single.hyps(2), of "\<lparr>number = num, tag_type = Varint\<rparr>"] by auto
  have "decode_varints vb = ([of_nat v], None)"
    using single.hyps(2) varint_bytes_not_Nil [OF single.hyps(2)] unfolding varint_bytes_def
    by (subst decode_varints_step) auto
  then show ?case using s f single by (subst findField.simps) (auto simp: segment_of_def)
qed

lemma segment_values:
  assumes "field_values num bs vs"
  shows "\<exists>r. nextPackedVarintSegment bs num = Some r \<and> segment_of num vs r"
proof -
  have "depth_left (reader_init bs) = 100" "rest_of (reader_init bs) = bs" "input (reader_init bs) = bs"
    by (simp_all add: reference_eval)
  then show ?thesis
    using findField_values [OF assms reader_ok_init] by (force simp: nextPackedVarintSegment_def)
qed

lemma drain_segments:
  "field_values num rest vs \<Longrightarrow> num \<noteq> 0 \<Longrightarrow> i \<le> length p \<Longrightarrow> decode_varints (drop i p) = (us, None) \<Longrightarrow>
     drains nextPackedVarint \<lparr>payload = p, at_index = i, remaining_fields = rest, field_num = num\<rparr> (us @ vs)"
proof (induction "length rest" arbitrary: rest vs i p us rule: less_induct)
  case less
  from less.prems(3,4) show ?case
  proof (induction i arbitrary: us rule: payload_induct)
    case done_at
    let ?it = "\<lparr>payload = p, at_index = length p, remaining_fields = rest, field_num = num\<rparr>"
    obtain r where r: "nextPackedVarintSegment rest num = Some r" "segment_of num vs r"
      using segment_values [OF less.prems(1)] by blast
    show ?case
    proof (cases "\<exists>segment. r = Inr (Some segment)")
      case True
      then obtain segment us' vs' where seg: "r = Inr (Some segment)" "decode_varints (seg_payload segment) = (us', None)"
        "field_values num (seg_remaining segment) vs'" "vs = us' @ vs'"
        using r(2) by (auto simp: segment_of_def)
      let ?next = "\<lparr>payload = seg_payload segment, at_index = 0, remaining_fields = seg_remaining segment, field_num = num\<rparr>"
      have "length (seg_remaining segment) < length rest" using segment_returns [of rest num] r(1) seg(1) by auto
      then have "drains nextPackedVarint ?next (us' @ vs')"
        using less.hyps [of "seg_remaining segment" vs' 0 "seg_payload segment" us'] seg less.prems(2) by simp
      moreover have "nextPackedVarint ?it = nextPackedVarint ?next"
        using r(1) seg(1) less.prems(2) by (subst nextPackedVarint.simps) simp
      ultimately show ?thesis using drains_same done_at seg(4) by fastforce
    next
      case False
      then have "r = Inr None" "vs = []" using r(2) by (auto simp: segment_of_def split: sum.splits option.splits)
      then have "nextPackedVarint ?it = Some (Inr None, ?it)"
        using r(1) less.prems(2) by (subst nextPackedVarint.simps) simp
      then show ?thesis using done_at \<open>vs = []\<close> by (auto intro: drains.drained)
    qed
  next
    case (error i e n)
    then show ?case by (simp add: decode_varints_error)
  next
    case (step i v n)
    let ?it = "\<lambda>i. \<lparr>payload = p, at_index = i, remaining_fields = rest, field_num = num\<rparr>"
    from step.prems step.hyps obtain us' where us: "us = of_nat v # us'" "decode_varints (drop (i + n) p) = (us', None)"
      by (auto simp: decoded_at prod_eq_iff)
    have "nextPackedVarint (?it i) = Some (Inr (Some (of_nat v)), ?it (i + n))"
      using step by (subst nextPackedVarint.simps) (simp add: readVarintAt_refines)
    then show ?case using step.IH [OF us(2)] us(1) by (auto intro: drains.drain)
  qed
qed

section \<open>Field slices\<close>

lemma slices_AssumeValidTag:
  assumes "fits_usize p" "length buf = 20"
  shows "\<exists>s. lengthDelimitedFieldSlicesAssumeValidTag buf raw p = Some s \<and>
    header s = varint_enc (unat raw) @ varint_enc (length p) \<and> slice_payload s = p"
proof -
  let ?a = "varint_enc (unat raw)" and ?b = "varint_enc (length p)"
  have len: "length ?a \<le> 10" "length ?b \<le> 10"
    using encodedVarintSize_bounds [of raw] encodedVarintSize_bounds [of "of_nat (length p)"]
    by (simp_all add: encodedVarintSize_eq unat_length [OF assms(1)])
  then have "writeVarintToBuffer buf raw = Some (?a @ drop (length ?a) buf, length ?a)"
    using assms(2) by (simp add: writeVarintToBuffer_eq Let_def)
  moreover have "writeVarintToBuffer (drop (length ?a) buf) (of_nat (length p)) =
      Some (?b @ drop (length ?b) (drop (length ?a) buf), length ?b)"
    using assms(2) len by (simp add: writeVarintToBuffer_eq Let_def unat_length [OF assms(1)])
  ultimately show ?thesis
    using assms(2) len by (simp add: lengthDelimitedFieldSlicesAssumeValidTag_def write_tail_def)
qed

lemma packedFixedWidthFieldSlices_eq:
  "packedFixedWidthFieldSlices little buf num vs =
     (if \<not> little then Some (Inl UnsupportedWireType) else lengthDelimitedFieldSlices buf num (sliceAsBytes vs))"
  by (auto simp: packedFixedWidthFieldSlices_def lengthDelimitedFieldSlices_def lengthDelimitedFieldSlicesAssumeValidTag_def
      Let_def split: sum.splits Option.bind_splits)

text \<open>\<open>describes s num p\<close>: the two slices are the field that the writer would append.\<close>

definition describes :: "BorrowedFieldSlices \<Rightarrow> field_number \<Rightarrow> bytes \<Rightarrow> bool" where
  "describes s num p \<longleftrightarrow> slice_payload s = p \<and> header s @ slice_payload s = tag_enc num LengthDelimited @ delimited_enc p"

lemma lengthDelimitedFieldSlices_describes:
  assumes "num \<noteq> 0" "fits_usize p" "length buf = 20"
  shows "\<exists>s. lengthDelimitedFieldSlices buf num p = Some (Inr s) \<and> describes s num p"
    and "\<exists>s. lengthDelimitedFieldSlicesAssumeValid buf num p = Some s \<and> describes s num p"
proof -
  let ?raw = "push_bit 3 (ucast num) OR of_nat (intFromEnum LengthDelimited) :: u64"
  obtain s where s: "lengthDelimitedFieldSlicesAssumeValidTag buf ?raw p = Some s"
    "header s = varint_enc (unat ?raw) @ varint_enc (length p)" "slice_payload s = p"
    using slices_AssumeValidTag [OF assms(2,3)] by blast
  then have d: "describes s num p" by (simp only: unat_tag_raw) (simp add: describes_def tag_enc_def delimited_enc_def)
  have "tag_encode \<lparr>number = num, tag_type = LengthDelimited\<rparr> = Inr ?raw"
    using assms(1) by (simp add: tag_encode_Inr unat_tag_raw del: intFromEnum.simps)
  then show "\<exists>s. lengthDelimitedFieldSlices buf num p = Some (Inr s) \<and> describes s num p"
    using s(1) d by (simp add: lengthDelimitedFieldSlices_def del: intFromEnum.simps)
  show "\<exists>s. lengthDelimitedFieldSlicesAssumeValid buf num p = Some s \<and> describes s num p"
    using s(1) d by (simp add: lengthDelimitedFieldSlicesAssumeValid_def del: intFromEnum.simps)
qed

lemma views_return: "(\<And>t. reads_ok (found t)) \<Longrightarrow> \<exists>r. map_option fst (findField found num (reader_init bs)) = Some r"
  using findField_returns [of found "\<lambda>_ _. True" "reader_init bs" num] reader_ok_init by fastforce

lemma mapNext_returns:
  assumes "\<And>it. \<exists>r it'. m it = Some (r, it')"
  shows "\<exists>r it'. mapNext f m it = Some (r, it')"
proof -
  obtain r it' where "m it = Some (r, it')" using assms by blast
  then show ?thesis by (cases r) (simp_all add: mapNext_def)
qed

section \<open>Properties\<close>

text \<open>
  C34: on a message in which the fields of a number are varints or packed payloads of
  varints, the iterators yield all their values, over all occurrences, packed or not, in the
  order of the message and with the conversion of their type, and then stop.
\<close>

theorem iterators_yield_values:
  assumes "field_values num bs vs" "num \<noteq> 0"
  shows "\<exists>r. packedFieldIterator bs num = Some (Inr r) \<and> (case r of
       None \<Rightarrow> vs = []
     | Some it \<Rightarrow> drains PackedUInt64_next it vs \<and> drains PackedInt64_next it vs \<and>
         drains PackedUInt32_next it (map ucast vs) \<and> drains PackedInt32_next it (map ucast vs) \<and>
         drains PackedSInt32_next it (map (\<lambda>v. zigZagDecode32 (ucast v)) vs) \<and>
         drains PackedSInt64_next it (map zigZagDecode64 vs))"
proof -
  obtain r where r: "nextPackedVarintSegment bs num = Some r" "segment_of num vs r"
    using segment_values [OF assms(1)] by blast
  show ?thesis
  proof (cases "r = Inr None")
    case False
    then obtain segment us vs' where seg: "r = Inr (Some segment)" "decode_varints (seg_payload segment) = (us, None)"
      "field_values num (seg_remaining segment) vs'" "vs = us @ vs'"
      using r(2) by (auto simp: segment_of_def split: sum.splits option.splits)
    let ?it = "\<lparr>payload = seg_payload segment, at_index = 0, remaining_fields = seg_remaining segment, field_num = num\<rparr>"
    have d: "drains nextPackedVarint ?it vs"
      using drain_segments [OF seg(3) assms(2), of 0 "seg_payload segment" us] seg(2,4) by simp
    have hot: "nextPackedVarint32Hot = mapNext ucast nextPackedVarint"
      using nextPackedVarint32Hot_eq by (rule ext)
    have "drains nextPackedVarint32Hot ?it (map ucast vs)" unfolding hot using d by (rule drains_mapNext)
    moreover from drains_mapNext [OF this, of zigZagDecode32] have "drains PackedSInt32_next ?it (map (\<lambda>v. zigZagDecode32 (ucast v)) vs)"
      by (simp add: PackedSInt32_next_def [abs_def] comp_def)
    ultimately show ?thesis
      using r(1) seg(1) d drains_mapNext [OF d, of ucast] drains_mapNext [OF d, of zigZagDecode64] drains_mapNext [OF d, of "\<lambda>v. v"]
      by (simp add: packedFieldIterator_def PackedUInt64_next_def [abs_def] PackedInt64_next_def [abs_def]
          PackedUInt32_next_def [abs_def] PackedInt32_next_def [abs_def] PackedSInt64_next_def [abs_def])
  qed (use r in \<open>simp add: packedFieldIterator_def segment_of_def\<close>)
qed

lemma three_value_message: "field_values 1 [0x08, 5, 0x10, 7, 0x0A, 2, 1, 2] [5, 1, 2]"
proof -
  have "field_values 1 ([0x0A] @ [2, 1, 2] @ []) ([1, 2] @ [])"
    by (intro field_values.packed [of _ _ _ "[1, 2]"] field_values.none)
      (auto simp: reference_eval delimited_bytes_def decode_single_bytes intro!: exI [of _ "[2]"])
  then have "field_values 1 ([0x10] @ [7] @ [0x0A, 2, 1, 2]) [1, 2]"
    by (intro field_values.other [of _ "\<lparr>number = 2, tag_type = Varint\<rparr>"])
      (auto simp: reference_eval intro!: value_bytes_group_bytes.varint)
  then have "field_values 1 ([0x08] @ [5] @ [0x10, 7, 0x0A, 2, 1, 2]) (of_nat 5 # [1, 2])"
    by (intro field_values.single) (auto simp: reference_eval)
  then show ?thesis by simp
qed

theorem iterators_yield_values_witness:
  "\<exists>it. packedFieldIterator [0x08, 5, 0x10, 7, 0x0A, 2, 1, 2] 1 = Some (Inr (Some it)) \<and>
     drains PackedUInt64_next it [5, 1, 2] \<and> drains PackedSInt64_next it [zigZagDecode64 5, zigZagDecode64 1, zigZagDecode64 2]"
proof -
  obtain r where "packedFieldIterator [0x08, 5, 0x10, 7, 0x0A, 2, 1, 2] 1 = Some (Inr r)"
    "case r of None \<Rightarrow> [5, 1, 2] = ([] :: u64 list) | Some it \<Rightarrow> drains PackedUInt64_next it [5, 1, 2] \<and>
       drains PackedSInt64_next it (map zigZagDecode64 [5, 1, 2])"
    using iterators_yield_values [OF three_value_message] by (auto split: option.splits)
  then show ?thesis by (cases r) auto
qed

text \<open>
  C35: every lookup and every step of an iterator returns, with a value or an error, on any
  bytes and in any state, however malformed: the loop over segments ends because the rest
  of the message becomes shorter.
\<close>

theorem views_and_iterators_return:
  "(\<exists>r it'. PackedUInt64_next it = Some (r, it')) \<and> (\<exists>r it'. PackedInt64_next it = Some (r, it')) \<and>
   (\<exists>r it'. PackedUInt32_next it = Some (r, it')) \<and> (\<exists>r it'. PackedInt32_next it = Some (r, it')) \<and>
   (\<exists>r it'. PackedSInt32_next it = Some (r, it')) \<and> (\<exists>r it'. PackedSInt64_next it = Some (r, it')) \<and>
   (\<exists>r. packedFieldIterator bs num = Some r) \<and> (\<exists>r. bytesFieldView bs num = Some r) \<and>
   (\<exists>r. packedFixed32FieldView little bs num = Some r)"
proof -
  have hot: "\<exists>r it'. nextPackedVarint32Hot it = Some (r, it')" for it
    unfolding nextPackedVarint32Hot_eq by (rule mapNext_returns) (rule nextPackedVarint_returns)
  have "\<exists>r. packedFieldIterator bs num = Some r"
  proof -
    obtain r where "nextPackedVarintSegment bs num = Some r" using segment_returns by blast
    then show ?thesis by (auto simp: packedFieldIterator_def split: sum.splits option.splits)
  qed
  moreover have "\<exists>r. bytesFieldView bs num = Some r"
    unfolding bytesFieldView_def by (rule views_return) (auto intro: reading)
  moreover have "\<exists>r. packedFixed32FieldView little bs num = Some r"
    unfolding packedFixed32FieldView_def packedFixedWidthFieldView_def
    by (rule views_return) (auto intro!: reading)
  ultimately show ?thesis
    unfolding PackedUInt64_next_def PackedInt64_next_def PackedUInt32_next_def PackedInt32_next_def PackedSInt32_next_def
      PackedSInt64_next_def
    by (intro conjI mapNext_returns nextPackedVarint_returns hot)
qed

text \<open>
  The header and the payload that the slice functions return are together the field
  that the writer would append, for every header buffer; a zero number is refused, and
  fixed-width values are refused on a big-endian target.
\<close>

theorem field_slices_are_fields:
  assumes "num \<noteq> 0" "fits_usize p" "length buf = 20"
  shows "(\<exists>s. lengthDelimitedFieldSlices buf num p = Some (Inr s) \<and> describes s num p) \<and>
    (\<exists>s. lengthDelimitedFieldSlicesAssumeValid buf num p = Some s \<and> describes s num p) \<and>
    appends (writeBytes num p) (tag_enc num LengthDelimited @ delimited_enc p) \<and>
    lengthDelimitedFieldSlices buf 0 p = Some (Inl InvalidFieldNumber) \<and>
    packedFixedWidthFieldSlices little buf num vs =
      (if little then lengthDelimitedFieldSlices buf num (sliceAsBytes vs) else Some (Inl UnsupportedWireType))"
proof -
  have "appends (writeBytes num p) (tag_enc num LengthDelimited @ delimited_enc p)"
    using assms(1,2) by (rule bytes.writes_appends)
  then show ?thesis
    using lengthDelimitedFieldSlices_describes [OF assms] packedFixedWidthFieldSlices_eq [of little buf num vs]
    by (simp add: lengthDelimitedFieldSlices_def [of buf 0] tag_encode_def)
qed

theorem field_slices_are_fields_witness:
  "\<exists>s. lengthDelimitedFieldSlices (replicate 20 0xAA) 1 [7, 8] = Some (Inr s) \<and> header s @ slice_payload s = [0x0A, 2, 7, 8]"
  using field_slices_are_fields [of 1 "[7, 8]" "replicate 20 0xAA"]
  by (auto simp: describes_def tag_enc_def delimited_enc_def varint_enc_small fits_usize_def usize_max_def)

end
