(* ===== verification/Cpp_Messages.thy ===== *)
theory Cpp_Messages
  imports Complex_Main Pbz_Base "HOL-Library.AList"
begin

text \<open>
  The messages the C++ baseline \<open>bench/cpp_protobuf/main.cc\<close> builds: a record for every
  message of \<open>examples/proto/person.proto\<close> and a datatype for the well-known types it
  uses. A proto3 scalar without presence is its value, with presence an \<open>option\<close>, a
  \<open>oneof\<close> a datatype with an unset case, a repeated field a list. A map field is an
  association list in insertion order, because only that order (not the contents)
  decides in which order a map is serialised when serialisation is not deterministic.
  A \<open>std::string\<close> is a \<open>string\<close> of 8-bit characters.
\<close>

section \<open>Floating-point values\<close>

text \<open>
  The values of \<open>float\<close> and \<open>double\<close> variables: every literal of the program is exactly
  representable, so a finite value is the rational it denotes.
\<close>

datatype cpp_float = Finite rat | NaN | PosInf | NegInf

section \<open>The messages of the demo schema\<close>

record unknown_field =
  uf_number :: int
  uf_varint :: u64

record person =
  person_id :: i32
  person_name :: string
  scores :: "i32 list"
  counts :: "(string \<times> i32) list"
  unknown_fields :: "unknown_field list"

definition default_person :: person where
  "default_person = \<lparr>person_id = 0, person_name = [], scores = [], counts = [], unknown_fields = []\<rparr>"

text \<open>The enum is open: any number may be stored.\<close>

type_synonym bench_kind = i32

definition BENCH_KIND_UNKNOWN :: bench_kind where "BENCH_KIND_UNKNOWN = 0"
definition BENCH_KIND_ALPHA :: bench_kind where "BENCH_KIND_ALPHA = 1"
definition BENCH_KIND_BETA :: bench_kind where "BENCH_KIND_BETA = 2"

record scalar_mix =
  active :: bool
  count :: u32
  total :: u64
  delta :: i32
  big_delta :: i64
  checksum :: u32
  token :: u64
  signed_fixed :: i32
  signed_big_fixed :: i64
  ratio :: cpp_float
  score :: cpp_float
  kind :: bench_kind
  flags :: "bool list"
  ids :: "u64 list"

definition default_scalar_mix :: scalar_mix where
  "default_scalar_mix = \<lparr>active = False, count = 0, total = 0, delta = 0, big_delta = 0, checksum = 0,
     token = 0, signed_fixed = 0, signed_big_fixed = 0, ratio = Finite 0, score = Finite 0, kind = 0,
     flags = [], ids = []\<rparr>"

record text_bytes =
  title :: string
  text_payload :: string
  tags :: "string list"
  text_chunks :: "string list"

definition default_text_bytes :: text_bytes where
  "default_text_bytes = \<lparr>title = [], text_payload = [], tags = [], text_chunks = []\<rparr>"

record large_bytes =
  large_payload :: string
  large_chunks :: "string list"

definition default_large_bytes :: large_bytes where
  "default_large_bytes = \<lparr>large_payload = [], large_chunks = []\<rparr>"

record presence_child =
  child_id :: i32
  child_label :: string

definition default_presence_child :: presence_child where
  "default_presence_child = \<lparr>child_id = 0, child_label = []\<rparr>"

datatype pick = PickNotSet | PickName string | PickToken string | PickNested presence_child | PickCode i64

record presence_mix =
  opt_count :: "i32 option"
  opt_note :: "string option"
  opt_raw :: "string option"
  opt_child :: "presence_child option"
  pick :: pick

definition default_presence_mix :: presence_mix where
  "default_presence_mix = \<lparr>opt_count = None, opt_note = None, opt_raw = None, opt_child = None, pick = PickNotSet\<rparr>"

text \<open>A getter of a field with presence returns the default when it is not set.\<close>

definition nested_of :: "pick \<Rightarrow> presence_child" where
  "nested_of p = (case p of PickNested c \<Rightarrow> c | _ \<Rightarrow> default_presence_child)"

definition has_nested :: "pick \<Rightarrow> bool" where
  "has_nested p = (case p of PickNested _ \<Rightarrow> True | _ \<Rightarrow> False)"

record audit =
  actor :: string
  at_unix :: i64

definition default_audit :: audit where
  "default_audit = \<lparr>actor = [], at_unix = 0\<rparr>"

datatype subject = SubjectNotSet | UserName string | OrganizationId string | AuditSubject audit

record complex_msg =
  complex_id :: i32
  complex_audit :: "audit option"
  history :: "audit list"
  audits :: "(string \<times> audit) list"
  subject :: subject

definition default_complex :: complex_msg where
  "default_complex = \<lparr>complex_id = 0, complex_audit = None, history = [], audits = [], subject = SubjectNotSet\<rparr>"

definition audit_subject_of :: "subject \<Rightarrow> audit" where
  "audit_subject_of s = (case s of AuditSubject a \<Rightarrow> a | _ \<Rightarrow> default_audit)"

definition has_audit_subject :: "subject \<Rightarrow> bool" where
  "has_audit_subject s = (case s of AuditSubject _ \<Rightarrow> True | _ \<Rightarrow> False)"

section \<open>Well-known types\<close>

record seconds_nanos =
  secs :: i64
  nanos :: i32

text \<open>\<open>Value\<close>, with \<open>Struct\<close> a map from names to values and \<open>ListValue\<close> a list of them.\<close>

datatype wkt_value =
    KindNotSet
  | NullValue
  | NumberValue cpp_float
  | StringKind string
  | BoolKind bool
  | StructKind "(string \<times> wkt_value) list"
  | ListKind "wkt_value list"

type_synonym wkt_struct = "(string \<times> wkt_value) list"

record any_msg =
  type_url :: string
  any_value :: string

datatype message =
    Person person
  | ScalarMix scalar_mix
  | TextBytes text_bytes
  | LargeBytes large_bytes
  | PresenceMix presence_mix
  | Complex complex_msg
  | Packed "i32 list"
  | FixedPacked "u32 list"
  | Fixed64Packed "u64 list"
  | SFixedPacked "i32 list"
  | SFixed64Packed "i64 list"
  | FloatPacked "cpp_float list"
  | DoublePacked "cpp_float list"
  | UInt64Packed "u64 list"
  | UInt32Packed "u32 list"
  | Int64Packed "i64 list"
  | SInt32Packed "i32 list"
  | SInt64Packed "i64 list"
  | BoolPacked "bool list"
  | EnumPacked "bench_kind list"
  | LargeMap "(string \<times> i32) list"
  | Any any_msg
  | Duration seconds_nanos
  | Timestamp seconds_nanos
  | FieldMask "string list"
  | Empty
  | Struct wkt_struct
  | Value wkt_value
  | ListValue "wkt_value list"
  | DoubleValue cpp_float
  | FloatValue cpp_float
  | Int64Value i64
  | UInt64Value u64
  | Int32Value i32
  | UInt32Value u32
  | BoolValue bool
  | StringValue string
  | BytesValue string

text \<open>The default instance of every type, which is also how the model names a type.\<close>

definition zero_time :: seconds_nanos where
  "zero_time = \<lparr>secs = 0, nanos = 0\<rparr>"

fun cleared :: "message \<Rightarrow> message" where
  "cleared (Person _) = Person default_person"
| "cleared (ScalarMix _) = ScalarMix default_scalar_mix"
| "cleared (TextBytes _) = TextBytes default_text_bytes"
| "cleared (LargeBytes _) = LargeBytes default_large_bytes"
| "cleared (PresenceMix _) = PresenceMix default_presence_mix"
| "cleared (Complex _) = Complex default_complex"
| "cleared (Packed _) = Packed []"
| "cleared (FixedPacked _) = FixedPacked []"
| "cleared (Fixed64Packed _) = Fixed64Packed []"
| "cleared (SFixedPacked _) = SFixedPacked []"
| "cleared (SFixed64Packed _) = SFixed64Packed []"
| "cleared (FloatPacked _) = FloatPacked []"
| "cleared (DoublePacked _) = DoublePacked []"
| "cleared (UInt64Packed _) = UInt64Packed []"
| "cleared (UInt32Packed _) = UInt32Packed []"
| "cleared (Int64Packed _) = Int64Packed []"
| "cleared (SInt32Packed _) = SInt32Packed []"
| "cleared (SInt64Packed _) = SInt64Packed []"
| "cleared (BoolPacked _) = BoolPacked []"
| "cleared (EnumPacked _) = EnumPacked []"
| "cleared (LargeMap _) = LargeMap []"
| "cleared (Any _) = Any \<lparr>type_url = [], any_value = []\<rparr>"
| "cleared (Duration _) = Duration zero_time"
| "cleared (Timestamp _) = Timestamp zero_time"
| "cleared (FieldMask _) = FieldMask []"
| "cleared Empty = Empty"
| "cleared (Struct _) = Struct []"
| "cleared (Value _) = Value KindNotSet"
| "cleared (ListValue _) = ListValue []"
| "cleared (DoubleValue _) = DoubleValue (Finite 0)"
| "cleared (FloatValue _) = FloatValue (Finite 0)"
| "cleared (Int64Value _) = Int64Value 0"
| "cleared (UInt64Value _) = UInt64Value 0"
| "cleared (Int32Value _) = Int32Value 0"
| "cleared (UInt32Value _) = UInt32Value 0"
| "cleared (BoolValue _) = BoolValue False"
| "cleared (StringValue _) = StringValue []"
| "cleared (BytesValue _) = BytesValue []"

text \<open>The full name of the message type, as it ends an \<open>Any\<close>'s type URL.\<close>

fun full_name :: "message \<Rightarrow> string" where
  "full_name (Person _) = ''demo.Person''"
| "full_name (ScalarMix _) = ''demo.ScalarMix''"
| "full_name (TextBytes _) = ''demo.TextBytes''"
| "full_name (LargeBytes _) = ''demo.LargeBytes''"
| "full_name (PresenceMix _) = ''demo.PresenceMix''"
| "full_name (Complex _) = ''demo.Complex''"
| "full_name (Packed _) = ''demo.Packed''"
| "full_name (FixedPacked _) = ''demo.FixedPacked''"
| "full_name (Fixed64Packed _) = ''demo.Fixed64Packed''"
| "full_name (SFixedPacked _) = ''demo.SFixedPacked''"
| "full_name (SFixed64Packed _) = ''demo.SFixed64Packed''"
| "full_name (FloatPacked _) = ''demo.FloatPacked''"
| "full_name (DoublePacked _) = ''demo.DoublePacked''"
| "full_name (UInt64Packed _) = ''demo.UInt64Packed''"
| "full_name (UInt32Packed _) = ''demo.UInt32Packed''"
| "full_name (Int64Packed _) = ''demo.Int64Packed''"
| "full_name (SInt32Packed _) = ''demo.SInt32Packed''"
| "full_name (SInt64Packed _) = ''demo.SInt64Packed''"
| "full_name (BoolPacked _) = ''demo.BoolPacked''"
| "full_name (EnumPacked _) = ''demo.EnumPacked''"
| "full_name (LargeMap _) = ''demo.LargeMap''"
| "full_name (Any _) = ''google.protobuf.Any''"
| "full_name (Duration _) = ''google.protobuf.Duration''"
| "full_name (Timestamp _) = ''google.protobuf.Timestamp''"
| "full_name (FieldMask _) = ''google.protobuf.FieldMask''"
| "full_name Empty = ''google.protobuf.Empty''"
| "full_name (Struct _) = ''google.protobuf.Struct''"
| "full_name (Value _) = ''google.protobuf.Value''"
| "full_name (ListValue _) = ''google.protobuf.ListValue''"
| "full_name (DoubleValue _) = ''google.protobuf.DoubleValue''"
| "full_name (FloatValue _) = ''google.protobuf.FloatValue''"
| "full_name (Int64Value _) = ''google.protobuf.Int64Value''"
| "full_name (UInt64Value _) = ''google.protobuf.UInt64Value''"
| "full_name (Int32Value _) = ''google.protobuf.Int32Value''"
| "full_name (UInt32Value _) = ''google.protobuf.UInt32Value''"
| "full_name (BoolValue _) = ''google.protobuf.BoolValue''"
| "full_name (StringValue _) = ''google.protobuf.StringValue''"
| "full_name (BytesValue _) = ''google.protobuf.BytesValue''"

lemma cleared_idem [simp]: "cleared (cleared m) = cleared m"
  by (cases m) auto

lemma full_name_cleared [simp]: "full_name (cleared m) = full_name m"
  by (cases m) auto

end
