(* ===== verification/Cpp_Bench.thy ===== *)
theory Cpp_Bench
  imports Cpp_Messages
begin

text \<open>
  The measuring harness of \<open>bench/cpp_protobuf/main.cc\<close>: the protobuf library it calls (a
  parameter), the program state, \<open>RunTimed\<close>, \<open>BenchResult::Print\<close>, and the bodies of the
  measured lambdas. \<open>std::abort\<close> is the error \<open>Abort\<close>; a panic (\<open>None\<close>) does not occur.
\<close>

section \<open>The protobuf library\<close>

record json_print_options =
  always_print_primitive_fields :: bool
  preserve_proto_field_names :: bool
  always_print_enums_as_ints :: bool

definition default_print_options :: json_print_options where
  "default_print_options = \<lparr>always_print_primitive_fields = False, preserve_proto_field_names = False,
     always_print_enums_as_ints = False\<rparr>"

record json_parse_options =
  ignore_unknown_fields :: bool

definition default_parse_options :: json_parse_options where
  "default_parse_options = \<lparr>ignore_unknown_fields = False\<rparr>"

text \<open>
  The functions of the C++ protobuf library and the steady clock. A parsing function gets
  the message it parses into; its result is \<open>None\<close> where the library reports failure.
  \<open>clock_now n\<close> is the reading of the \<open>n\<close>-th call of \<open>Clock::now\<close>, in nanoseconds.
\<close>

record protobuf =
  SerializeToString :: "message \<Rightarrow> string"
  SerializeDeterministic :: "message \<Rightarrow> string"
  ParseFromString :: "string \<Rightarrow> message \<Rightarrow> message option"
  MessageToJsonString :: "json_print_options \<Rightarrow> message \<Rightarrow> string option"
  JsonStringToMessage :: "json_parse_options \<Rightarrow> string \<Rightarrow> message \<Rightarrow> message option"
  PrintToString :: "message \<Rightarrow> string option"
  TextParseFromString :: "string \<Rightarrow> message \<Rightarrow> message option"
  clock_now :: "nat \<Rightarrow> int"

text \<open>\<open>Any::PackFrom\<close>: the type's URL and the serialised message.\<close>

definition PackFrom :: "protobuf \<Rightarrow> message \<Rightarrow> message" where
  "PackFrom L m = Any \<lparr>type_url = ''type.googleapis.com/'' @ full_name m, any_value = SerializeToString L m\<rparr>"

section \<open>Output and state of the program\<close>

record BenchResult =
  bench_name :: string
  iterations :: int
  samples :: int
  elapsed :: int
  bytes_per_iter :: nat

text \<open>
  What is streamed to \<open>std::cout\<close>. A rate is a double computed from a numerator and a
  denominator; the item keeps both, the rounding and formatting of the quotient are not
  modelled.
\<close>

datatype out_item = Str string | Num int | Rate int int

datatype abort = Abort

record world =
  clock_calls :: nat
  cout :: "out_item list"

type_synonym 'a prog = "(world, abort, 'a) op"

definition stream :: "out_item list \<Rightarrow> unit prog" where
  "stream items = (\<lambda>w. Some (Inr (), w\<lparr>cout := cout w @ items\<rparr>))"

definition now :: "protobuf \<Rightarrow> int prog" where
  "now L = (\<lambda>w. Some (Inr (clock_now L (clock_calls w)), w\<lparr>clock_calls := clock_calls w + 1\<rparr>))"

text \<open>
  \<open>ns_per_iter\<close>, \<open>ops_per_sec\<close> and \<open>mib_per_sec\<close> with their factors of a billion and of
  1024 * 1024.
\<close>

definition Print :: "BenchResult \<Rightarrow> unit prog" where
  "Print r = stream
     [Str (bench_name r), Str '': best of '', Num (samples r), Str '' x '', Num (iterations r),
      Str '' iters, '', Num (int (bytes_per_iter r)), Str '' bytes/iter, '',
      Rate (elapsed r) (iterations r), Str '' ns/op, '',
      Rate (iterations r * 1000000000) (elapsed r), Str '' ops/s, '',
      Rate (int (bytes_per_iter r) * iterations r * 1000000000) (elapsed r * (1024 * 1024)),
      Str '' MiB/s'', Str [CHR 0x0A]]"

section \<open>Timing\<close>

definition kBenchmarkSamples :: int where "kBenchmarkSamples = 3"

text \<open>\<open>std::chrono::nanoseconds::max()\<close>.\<close>

definition nanoseconds_max :: int where "nanoseconds_max = 2 ^ 63 - 1"

text \<open>The loop \<open>for (int i = 0; i < n; ++i) f();\<close>.\<close>

fun repeat_calls :: "nat \<Rightarrow> ('s, 'e, unit) op \<Rightarrow> ('s, 'e, unit) op" where
  "repeat_calls 0 f = return ()"
| "repeat_calls (Suc n) f = tryIn f (\<lambda>_. repeat_calls n f)"

text \<open>
  The measured lambda works on the variables it captures, the timer on the program state.
\<close>

definition on_fst :: "('c, 'e, 'a) op \<Rightarrow> ('c \<times> 'w, 'e, 'a) op" where
  "on_fst m = (\<lambda>(c, w). case m c of None \<Rightarrow> None | Some (r, c') \<Rightarrow> Some (r, (c', w)))"

definition on_snd :: "('w, 'e, 'a) op \<Rightarrow> ('c \<times> 'w, 'e, 'a) op" where
  "on_snd m = (\<lambda>(c, w). case m w of None \<Rightarrow> None | Some (r, w') \<Rightarrow> Some (r, (c, w')))"

fun take_samples :: "protobuf \<Rightarrow> nat \<Rightarrow> nat \<Rightarrow> int \<Rightarrow> ('c, abort, unit) op \<Rightarrow> ('c \<times> world, abort, int) op" where
  "take_samples L 0 iters best f = return best"
| "take_samples L (Suc sample) iters best f =
     tryIn (on_snd (now L)) (\<lambda>start.
     tryIn (on_fst (repeat_calls iters f)) (\<lambda>_.
     tryIn (on_snd (now L)) (\<lambda>stop.
     take_samples L sample iters (min best (stop - start)) f)))"

definition RunTimed ::
    "protobuf \<Rightarrow> string \<Rightarrow> int \<Rightarrow> nat \<Rightarrow> ('c, abort, unit) op \<Rightarrow> ('c \<times> world, abort, BenchResult) op" where
  "RunTimed L name iters bytes f =
     (let warmup_iterations = max 1 (min (iters div 10) 1000) in
      tryIn (on_fst (repeat_calls (nat warmup_iterations) f)) (\<lambda>_.
      tryIn (take_samples L (nat kBenchmarkSamples) (nat iters) nanoseconds_max f) (\<lambda>best.
      return \<lparr>bench_name = name, iterations = iters, samples = kBenchmarkSamples,
              elapsed = best, bytes_per_iter = bytes\<rparr>)))"

section \<open>The measured lambdas\<close>

text \<open>
  The variables a lambda captures by reference and writes: a string buffer and a message.
  \<open>asm volatile\<close> hands a value to the optimiser barrier; \<open>seen\<close> is the last one.
\<close>

datatype observed = Nothing | SeenString string | SeenMessage message | SeenInt int

record captured =
  buffer :: string
  target :: message
  seen :: observed

type_synonym body = "(captured, abort, unit) op"

definition captured_default :: captured where
  "captured_default = \<lparr>buffer = [], target = Empty, seen = Nothing\<rparr>"

text \<open>\<open>std::string s; s.reserve(n)\<close>, \<open>s.resize(n)\<close> and a default-constructed message.\<close>

definition with_reserved :: captured where
  "with_reserved = captured_default"

definition with_resized :: "nat \<Rightarrow> captured" where
  "with_resized n = captured_default\<lparr>buffer := replicate n (CHR 0x00)\<rparr>"

definition with_target :: "message \<Rightarrow> captured" where
  "with_target m = captured_default\<lparr>target := cleared m\<rparr>"

text \<open>
  A status that is not ok, or a result that is false, aborts: \<open>orAbort r f\<close> continues
  with the value of \<open>r\<close>.
\<close>

definition orAbort :: "'a option \<Rightarrow> ('a \<Rightarrow> ('s, abort, 'b) op) \<Rightarrow> ('s, abort, 'b) op" where
  "orAbort r f = (case r of None \<Rightarrow> throw Abort | Some x \<Rightarrow> f x)"

definition abortIf :: "bool \<Rightarrow> ('s, abort, unit) op" where
  "abortIf b = (if b then throw Abort else return ())"

definition observe :: "observed \<Rightarrow> body" where
  "observe v = (\<lambda>c. Some (Inr (), c\<lparr>seen := v\<rparr>))"

definition set_buffer :: "string \<Rightarrow> body" where
  "set_buffer s = (\<lambda>c. Some (Inr (), c\<lparr>buffer := s\<rparr>))"

definition set_target :: "message \<Rightarrow> body" where
  "set_target m = (\<lambda>c. Some (Inr (), c\<lparr>target := m\<rparr>))"

definition with_captured :: "(captured \<Rightarrow> body) \<Rightarrow> body" where
  "with_captured f = (\<lambda>c. f c c)"

text \<open>\<open>std::string out; out.reserve(n); m.SerializeToString(&out);\<close>\<close>

definition encode_fresh :: "protobuf \<Rightarrow> message \<Rightarrow> body" where
  "encode_fresh L m = observe (SeenString (SerializeToString L m))"

text \<open>\<open>s.clear(); m.SerializeToString(&s);\<close>\<close>

definition encode_reuse :: "protobuf \<Rightarrow> message \<Rightarrow> body" where
  "encode_reuse L m =
     tryIn (set_buffer []) (\<lambda>_.
     tryIn (set_buffer (SerializeToString L m)) (\<lambda>_.
     with_captured (\<lambda>c. observe (SeenString (buffer c)))))"

text \<open>
  \<open>m.SerializeToArray(s.data(), s.size())\<close> fails when the encoding does not fit, and
  otherwise overwrites the front of the array.
\<close>

definition encode_array :: "protobuf \<Rightarrow> message \<Rightarrow> body" where
  "encode_array L m = with_captured (\<lambda>c.
     let out = SerializeToString L m in
     tryIn (abortIf (length (buffer c) < length out)) (\<lambda>_.
     tryIn (set_buffer (out @ drop (length out) (buffer c))) (\<lambda>_.
     with_captured (\<lambda>c. observe (SeenString (buffer c))))))"

text \<open>
  The deterministic encoder writes through a stream over the array; the stream has an
  error when the array is too short.
\<close>

definition encode_deterministic :: "protobuf \<Rightarrow> message \<Rightarrow> body" where
  "encode_deterministic L m = with_captured (\<lambda>c.
     let out = SerializeDeterministic L m; n = length (buffer c) in
     tryIn (set_buffer (take n out @ drop (length out) (buffer c))) (\<lambda>_.
     tryIn (abortIf (n < length out)) (\<lambda>_.
     with_captured (\<lambda>c. observe (SeenString (buffer c))))))"

text \<open>\<open>T decoded; if (!decoded.ParseFromString(bytes)) abort();\<close>, \<open>m\<close> naming the type \<open>T\<close>.\<close>

definition decode_fresh :: "protobuf \<Rightarrow> message \<Rightarrow> string \<Rightarrow> body" where
  "decode_fresh L m bytes = orAbort (ParseFromString L bytes (cleared m)) (\<lambda>d. observe (SeenMessage d))"

definition decode_reuse :: "protobuf \<Rightarrow> string \<Rightarrow> body" where
  "decode_reuse L bytes =
     tryIn (with_captured (\<lambda>c. set_target (cleared (target c)))) (\<lambda>_.
     with_captured (\<lambda>c. orAbort (ParseFromString L bytes (target c)) (\<lambda>d.
     tryIn (set_target d) (\<lambda>_.
     with_captured (\<lambda>c. observe (SeenMessage (target c)))))))"

definition json_stringify :: "protobuf \<Rightarrow> json_print_options \<Rightarrow> message \<Rightarrow> body" where
  "json_stringify L opts m = orAbort (MessageToJsonString L opts m) (\<lambda>out. observe (SeenString out))"

definition json_stringify_reuse :: "protobuf \<Rightarrow> message \<Rightarrow> body" where
  "json_stringify_reuse L m =
     tryIn (set_buffer []) (\<lambda>_.
     orAbort (MessageToJsonString L default_print_options m) (\<lambda>out.
     tryIn (set_buffer out) (\<lambda>_.
     with_captured (\<lambda>c. observe (SeenString (buffer c))))))"

definition json_parse :: "protobuf \<Rightarrow> json_parse_options \<Rightarrow> message \<Rightarrow> string \<Rightarrow> body" where
  "json_parse L opts m json =
     orAbort (JsonStringToMessage L opts json (cleared m)) (\<lambda>d. observe (SeenMessage d))"

definition json_parse_reuse :: "protobuf \<Rightarrow> string \<Rightarrow> body" where
  "json_parse_reuse L json =
     tryIn (with_captured (\<lambda>c. set_target (cleared (target c)))) (\<lambda>_.
     with_captured (\<lambda>c. orAbort (JsonStringToMessage L default_parse_options json (target c)) (\<lambda>d.
     tryIn (set_target d) (\<lambda>_.
     with_captured (\<lambda>c. observe (SeenMessage (target c)))))))"

definition text_format :: "protobuf \<Rightarrow> message \<Rightarrow> body" where
  "text_format L m = orAbort (PrintToString L m) (\<lambda>out. observe (SeenString out))"

definition text_format_reuse :: "protobuf \<Rightarrow> message \<Rightarrow> body" where
  "text_format_reuse L m =
     tryIn (set_buffer []) (\<lambda>_.
     orAbort (PrintToString L m) (\<lambda>out.
     tryIn (set_buffer out) (\<lambda>_.
     with_captured (\<lambda>c. observe (SeenString (buffer c))))))"

definition text_parse :: "protobuf \<Rightarrow> message \<Rightarrow> string \<Rightarrow> body" where
  "text_parse L m text = orAbort (TextParseFromString L text (cleared m)) (\<lambda>d. observe (SeenMessage d))"

definition text_parse_reuse :: "protobuf \<Rightarrow> string \<Rightarrow> body" where
  "text_parse_reuse L text =
     tryIn (with_captured (\<lambda>c. set_target (cleared (target c)))) (\<lambda>_.
     with_captured (\<lambda>c. orAbort (TextParseFromString L text (target c)) (\<lambda>d.
     tryIn (set_target d) (\<lambda>_.
     with_captured (\<lambda>c. observe (SeenMessage (target c)))))))"

section \<open>Running and printing one benchmark\<close>

definition timed :: "protobuf \<Rightarrow> string \<Rightarrow> int \<Rightarrow> nat \<Rightarrow> captured \<Rightarrow> body \<Rightarrow> unit prog" where
  "timed L name iters bytes c f = (\<lambda>w.
     case tryIn (RunTimed L name iters bytes f) (\<lambda>r. on_snd (Print r)) (c, w) of
       None \<Rightarrow> None
     | Some (r, (_, w')) \<Rightarrow> Some (r, w'))"

definition JsonStringFor :: "protobuf \<Rightarrow> message \<Rightarrow> ('s, abort, string) op" where
  "JsonStringFor L m = orAbort (MessageToJsonString L default_print_options m) return"

definition RunWktJsonBenchPair :: "protobuf \<Rightarrow> string \<Rightarrow> message \<Rightarrow> string \<Rightarrow> int \<Rightarrow> unit prog" where
  "RunWktJsonBenchPair L type_name m json iters =
     (let stringify_name = ''c++ protobuf '' @ type_name @ '' JSON stringify'' in
      tryIn (timed L stringify_name iters (length json) captured_default
        (json_stringify L default_print_options m)) (\<lambda>_.
      let parse_name = ''c++ protobuf '' @ type_name @ '' JSON parse'' in
      timed L parse_name iters (length json) captured_default
        (json_parse L default_parse_options m json)))"

definition RunWktJsonParseOnly :: "protobuf \<Rightarrow> message \<Rightarrow> string \<Rightarrow> string \<Rightarrow> int \<Rightarrow> unit prog" where
  "RunWktJsonParseOnly L m type_name json iters =
     (let parse_name = ''c++ protobuf '' @ type_name @ '' JSON parse'' in
      timed L parse_name iters (length json) captured_default
        (json_parse L default_parse_options m json))"

text \<open>A sequence of statements.\<close>

fun sequence :: "('s, 'e, unit) op list \<Rightarrow> ('s, 'e, unit) op" where
  "sequence [] = return ()"
| "sequence (m # ms) = tryIn m (\<lambda>_. sequence ms)"

section \<open>Repetition\<close>

lemma times_add: "repeat_calls (m + n) f = tryIn (repeat_calls m f) (\<lambda>_. repeat_calls n f)"
  by (induction m) (simp_all add: tryIn_assoc del: return_apply)

lemma on_fst_apply: "on_fst m (c, w) = (case m c of None \<Rightarrow> None | Some (r, c') \<Rightarrow> Some (r, (c', w)))"
  by (simp add: on_fst_def)

lemma on_snd_now [simp]:
  "on_snd (now L) (c, w) = Some (Inr (clock_now L (clock_calls w)), (c, w\<lparr>clock_calls := clock_calls w + 1\<rparr>))"
  by (simp add: on_snd_def now_def)

lemma times_prefix:
  assumes "repeat_calls (m + n) f c = Some (Inr (), c')"
  obtains d where "repeat_calls m f c = Some (Inr (), d)" "repeat_calls n f d = Some (Inr (), c')"
  using assms by (auto simp: times_add tryIn_Some)

text \<open>How many times \<open>RunTimed\<close> calls the lambda.\<close>

definition warmup_calls :: "int \<Rightarrow> nat" where
  "warmup_calls iters = nat (max 1 (min (iters div 10) 1000))"

definition total_calls :: "int \<Rightarrow> nat" where
  "total_calls iters = warmup_calls iters + 3 * nat iters"

text \<open>The best of the three samples, the clock having been read \<open>n\<close> times before.\<close>

definition best_of :: "protobuf \<Rightarrow> nat \<Rightarrow> int" where
  "best_of L n = min (min (min nanoseconds_max (clock_now L (n + 1) - clock_now L n))
     (clock_now L (n + 3) - clock_now L (n + 2))) (clock_now L (n + 5) - clock_now L (n + 4))"

lemma take_samples_step:
  assumes "repeat_calls n f c = Some (Inr (), c')"
  shows "take_samples L (Suc k) n best f (c, w) =
    take_samples L k n (min best (clock_now L (clock_calls w + 1) - clock_now L (clock_calls w))) f
      (c', w\<lparr>clock_calls := clock_calls w + 2\<rparr>)"
  using assms by (simp add: tryIn_def on_fst_apply)

lemma RunTimed_result:
  assumes "repeat_calls (total_calls iters) f c = Some (Inr (), c')"
  shows "RunTimed L name iters bytes f (c, w) =
    Some (Inr \<lparr>bench_name = name, iterations = iters, samples = 3,
               elapsed = best_of L (clock_calls w), bytes_per_iter = bytes\<rparr>,
          (c', w\<lparr>clock_calls := clock_calls w + 6\<rparr>))"
proof -
  have "total_calls iters = warmup_calls iters + (nat iters + (nat iters + nat iters))"
    by (simp add: total_calls_def)
  note assms [unfolded this times_add tryIn_Some]
  then obtain c0 c1 c2 where c: "repeat_calls (warmup_calls iters) f c = Some (Inr (), c0)"
    "repeat_calls (nat iters) f c0 = Some (Inr (), c1)" "repeat_calls (nat iters) f c1 = Some (Inr (), c2)"
    "repeat_calls (nat iters) f c2 = Some (Inr (), c')"
    by auto
  have three: "3 = Suc (Suc (Suc 0))" by simp
  have s: "take_samples L 3 (nat iters) nanoseconds_max f (c0, w) =
      Some (Inr (best_of L (clock_calls w)), (c', w\<lparr>clock_calls := clock_calls w + 6\<rparr>))"
    unfolding three take_samples_step [OF c(2)] take_samples_step [OF c(3)] take_samples_step [OF c(4)]
    by (simp add: best_of_def eval_nat_numeral)
  show ?thesis
    using c(1) s by (simp add: RunTimed_def Let_def warmup_calls_def [symmetric] kBenchmarkSamples_def tryIn_def on_fst_apply)
qed

lemma times_error_split:
  assumes "repeat_calls (m + n) f c = Some (Inl e, c')"
  shows "repeat_calls m f c = Some (Inl e, c') \<or> (\<exists>d. repeat_calls m f c = Some (Inr (), d) \<and> repeat_calls n f d = Some (Inl e, c'))"
  using assms by (auto simp: times_add tryIn_Some)

lemma take_samples_error:
  "repeat_calls (k * n) f c = Some (Inl e, c') \<Longrightarrow>
   \<exists>w'. take_samples L k n best f (c, w) = Some (Inl e, (c', w')) \<and> cout w' = cout w"
proof (induction k arbitrary: c best w)
  case (Suc k)
  have "repeat_calls (n + k * n) f c = Some (Inl e, c')" using Suc.prems by simp
  then consider "repeat_calls n f c = Some (Inl e, c')" |
    d where "repeat_calls n f c = Some (Inr (), d)" "repeat_calls (k * n) f d = Some (Inl e, c')"
    using times_error_split [OF \<open>repeat_calls (n + k * n) f c = Some (Inl e, c')\<close>] by blast
  then show ?case
  proof cases
    case 1
    then show ?thesis by (simp add: tryIn_def on_fst_apply)
  next
    case 2
    let ?w = "w\<lparr>clock_calls := clock_calls w + 2\<rparr>"
    let ?b = "min best (clock_now L (clock_calls w + 1) - clock_now L (clock_calls w))"
    obtain w' where "take_samples L k n ?b f (d, ?w) = Some (Inl e, (c', w'))" "cout w' = cout ?w"
      using Suc.IH [OF 2(2)] by blast
    then show ?thesis unfolding take_samples_step [OF 2(1)] by simp
  qed
qed simp

lemma RunTimed_error:
  assumes "repeat_calls (total_calls iters) f c = Some (Inl e, c')"
  shows "\<exists>w'. RunTimed L name iters bytes f (c, w) = Some (Inl e, (c', w')) \<and> cout w' = cout w"
proof -
  consider "repeat_calls (warmup_calls iters) f c = Some (Inl e, c')" |
    d where "repeat_calls (warmup_calls iters) f c = Some (Inr (), d)" "repeat_calls (3 * nat iters) f d = Some (Inl e, c')"
    using times_error_split [OF assms [unfolded total_calls_def]] by blast
  then show ?thesis
  proof cases
    case 1
    then show ?thesis by (simp add: RunTimed_def Let_def warmup_calls_def [symmetric] tryIn_def on_fst_apply)
  next
    case 2
    from take_samples_error [OF 2(2), of L nanoseconds_max w] 2(1) show ?thesis
      by (auto simp: RunTimed_def Let_def warmup_calls_def [symmetric] kBenchmarkSamples_def tryIn_def on_fst_apply)
  qed
qed

section \<open>Lambdas that settle\<close>

text \<open>
  \<open>settles f c v\<close>: from the captured variables \<open>c\<close> the lambda does not abort, reaches a
  state in which another run changes nothing, and shows \<open>v\<close> to the barrier.
\<close>

definition settles :: "body \<Rightarrow> captured \<Rightarrow> observed \<Rightarrow> bool" where
  "settles f c v \<longleftrightarrow> (\<exists>d. f c = Some (Inr (), d) \<and> f d = Some (Inr (), d) \<and> seen d = v)"

lemma times_settled: "f d = Some (Inr (), d) \<Longrightarrow> repeat_calls n f d = Some (Inr (), d)"
  by (induction n) (auto simp: tryIn_Inr)

lemma times_settles:
  assumes "settles f c v" "0 < n"
  shows "\<exists>d. repeat_calls n f c = Some (Inr (), d) \<and> seen d = v"
proof -
  obtain d where d: "f c = Some (Inr (), d)" "f d = Some (Inr (), d)" "seen d = v"
    using assms(1) by (auto simp: settles_def)
  obtain m where "n = Suc m" using assms(2) by (cases n) auto
  then show ?thesis using d times_settled [of f d m] by (auto simp: tryIn_Inr)
qed

lemma total_calls_pos: "0 < total_calls iters"
  by (simp add: total_calls_def warmup_calls_def max_def)

named_theorems body_defs \<comment> \<open>the vocabulary the measured lambdas are written in\<close>

lemmas [body_defs] = tryIn_def orAbort_def abortIf_def observe_def set_buffer_def set_target_def with_captured_def
  settles_def Let_def

lemma encode_fresh_settles: "settles (encode_fresh L m) c (SeenString (SerializeToString L m))"
  by (simp add: body_defs encode_fresh_def)

lemma encode_reuse_settles: "settles (encode_reuse L m) c (SeenString (SerializeToString L m))"
  by (simp add: body_defs encode_reuse_def)

lemma encode_array_settles:
  "length (buffer c) = length (SerializeToString L m) \<Longrightarrow>
   settles (encode_array L m) c (SeenString (SerializeToString L m))"
  by (simp add: body_defs encode_array_def)

lemma encode_array_aborts:
  "length (buffer c) < length (SerializeToString L m) \<Longrightarrow> encode_array L m c = Some (Inl Abort, c)"
  by (simp add: body_defs encode_array_def)

lemma encode_deterministic_settles:
  "length (buffer c) = length (SerializeDeterministic L m) \<Longrightarrow>
   settles (encode_deterministic L m) c (SeenString (SerializeDeterministic L m))"
  by (simp add: body_defs encode_deterministic_def)

lemma decode_fresh_settles:
  "ParseFromString L bytes (cleared m) = Some d \<Longrightarrow> settles (decode_fresh L m bytes) c (SeenMessage d)"
  by (simp add: body_defs decode_fresh_def)

lemma decode_reuse_settles:
  "ParseFromString L bytes (cleared (target c)) = Some d \<Longrightarrow> cleared d = cleared (target c) \<Longrightarrow>
   settles (decode_reuse L bytes) c (SeenMessage d)"
  by (simp add: body_defs decode_reuse_def)

lemma json_stringify_settles:
  "MessageToJsonString L opts m = Some out \<Longrightarrow> settles (json_stringify L opts m) c (SeenString out)"
  by (simp add: body_defs json_stringify_def)

lemma json_stringify_reuse_settles:
  "MessageToJsonString L default_print_options m = Some out \<Longrightarrow> settles (json_stringify_reuse L m) c (SeenString out)"
  by (simp add: body_defs json_stringify_reuse_def)

lemma json_parse_settles:
  "JsonStringToMessage L opts json (cleared m) = Some d \<Longrightarrow> settles (json_parse L opts m json) c (SeenMessage d)"
  by (simp add: body_defs json_parse_def)

lemma json_parse_reuse_settles:
  "JsonStringToMessage L default_parse_options json (cleared (target c)) = Some d \<Longrightarrow> cleared d = cleared (target c) \<Longrightarrow>
   settles (json_parse_reuse L json) c (SeenMessage d)"
  by (simp add: body_defs json_parse_reuse_def)

lemma text_format_settles: "PrintToString L m = Some out \<Longrightarrow> settles (text_format L m) c (SeenString out)"
  by (simp add: body_defs text_format_def)

lemma text_format_reuse_settles:
  "PrintToString L m = Some out \<Longrightarrow> settles (text_format_reuse L m) c (SeenString out)"
  by (simp add: body_defs text_format_reuse_def)

lemma text_parse_settles:
  "TextParseFromString L t (cleared m) = Some d \<Longrightarrow> settles (text_parse L m t) c (SeenMessage d)"
  by (simp add: body_defs text_parse_def)

lemma text_parse_reuse_settles:
  "TextParseFromString L t (cleared (target c)) = Some d \<Longrightarrow> cleared d = cleared (target c) \<Longrightarrow>
   settles (text_parse_reuse L t) c (SeenMessage d)"
  by (simp add: body_defs text_parse_reuse_def)

section \<open>What a run of benchmarks prints\<close>

definition result_items :: "BenchResult \<Rightarrow> out_item list" where
  "result_items r =
     [Str (bench_name r), Str '': best of '', Num (samples r), Str '' x '', Num (iterations r),
      Str '' iters, '', Num (int (bytes_per_iter r)), Str '' bytes/iter, '',
      Rate (elapsed r) (iterations r), Str '' ns/op, '',
      Rate (iterations r * 1000000000) (elapsed r), Str '' ops/s, '',
      Rate (int (bytes_per_iter r) * iterations r * 1000000000) (elapsed r * (1024 * 1024)),
      Str '' MiB/s'', Str [CHR 0x0A]]"

lemma Print_items: "Print r = stream (result_items r)"
  by (simp add: Print_def result_items_def)

text \<open>A benchmark's line: its name, its iterations and its bytes per iteration.\<close>

type_synonym line = "string \<times> int \<times> nat"

fun results :: "protobuf \<Rightarrow> nat \<Rightarrow> line list \<Rightarrow> BenchResult list" where
  "results L n [] = []"
| "results L n ((name, iters, bytes) # ls) =
     \<lparr>bench_name = name, iterations = iters, samples = 3, elapsed = best_of L n, bytes_per_iter = bytes\<rparr>
     # results L (n + 6) ls"

lemma results_append: "results L n (xs @ ys) = results L n xs @ results L (n + 6 * length xs) ys"
  by (induction L n xs rule: results.induct) (auto simp: algebra_simps)

text \<open>
  \<open>runs L m ls\<close>: the program part \<open>m\<close> runs to its end and prints one result line after
  another, those of \<open>ls\<close> in this order, each timed with six readings of the clock.
\<close>

definition runs :: "protobuf \<Rightarrow> unit prog \<Rightarrow> line list \<Rightarrow> bool" where
  "runs L m ls \<longleftrightarrow> (\<forall>w. m w = Some (Inr (),
     w\<lparr>clock_calls := clock_calls w + 6 * length ls,
       cout := cout w @ concat (map result_items (results L (clock_calls w) ls))\<rparr>))"

named_theorems running \<comment> \<open>composition of program parts that run\<close>

lemma runs_timed:
  assumes "settles f c v"
  shows "runs L (timed L name iters bytes c f) [(name, iters, bytes)]"
proof -
  obtain d where "repeat_calls (total_calls iters) f c = Some (Inr (), d)"
    using times_settles [OF assms total_calls_pos] by blast
  from RunTimed_result [OF this] show ?thesis
    by (simp add: runs_def timed_def tryIn_def on_snd_def Print_items stream_def)
qed

lemma runs_skip: "runs L (return ()) []"
  unfolding runs_def by simp

lemma runs_then: "runs L m ls \<Longrightarrow> runs L m' ls' \<Longrightarrow> runs L (tryIn m (\<lambda>_. m')) (ls @ ls')"
  by (simp add: runs_def tryIn_def results_append algebra_simps)

lemma runs_sequence_Nil [running]: "runs L (sequence []) []"
  by (simp add: runs_skip)

lemma runs_sequence_Cons [running]: "runs L m ls \<Longrightarrow> runs L (sequence ms) ls' \<Longrightarrow> runs L (sequence (m # ms)) (ls @ ls')"
  by (simp add: runs_then)

lemma runs_sequence:
  "list_all2 (runs L) ms lss \<Longrightarrow> runs L (sequence ms) (concat lss)"
  by (induction rule: list_all2_induct) (simp_all add: runs_skip runs_then del: return_apply)

section \<open>Properties\<close>

text \<open>
  C3: \<open>RunTimed\<close> calls its lambda \<open>max 1 (min (n / 10) 1000)\<close> times to warm up and then
  three times \<open>n\<close> times, reads the clock six times, and reports the smallest of the three
  differences: if the lambda survives all those calls, that is the result, and the
  variables it captures are as those calls leave them.
\<close>

theorem RunTimed_protocol:
  assumes "repeat_calls (nat (max 1 (min (n div 10) 1000)) + 3 * nat n) f c = Some (Inr (), c')"
  shows "RunTimed L name n bytes f (c, w) =
    (let k = clock_calls w;
         sample = (\<lambda>i. clock_now L (k + 2 * i + 1) - clock_now L (k + 2 * i)) in
     Some (Inr \<lparr>bench_name = name, iterations = n, samples = 3,
                elapsed = min nanoseconds_max (min (sample 0) (min (sample 1) (sample 2))), bytes_per_iter = bytes\<rparr>,
           (c', w\<lparr>clock_calls := k + 6\<rparr>)))"
  using RunTimed_result [of n f c c' L name bytes w] assms
  by (simp add: total_calls_def warmup_calls_def best_of_def Let_def min.assoc eval_nat_numeral)

lemma repeat_count: "repeat_calls n (\<lambda>c. Some (Inr (), Suc c)) c = Some (Inr (), c + n)"
  by (induction n arbitrary: c) (auto simp: tryIn_Inr)

theorem RunTimed_protocol_witness:
  "\<forall>L w. map_option (fst \<circ> snd) (RunTimed L ''counter'' 20000 0 (\<lambda>c. Some (Inr (), Suc c)) (0, w)) = Some 61000"
  by (intro allI, subst RunTimed_protocol [where c' = 61000]) (simp_all add: repeat_count Let_def)

text \<open>
  If the lambda aborts in one of those calls, \<open>RunTimed\<close> aborts there, and nothing has
  been printed.
\<close>

theorem RunTimed_aborts:
  assumes "repeat_calls (nat (max 1 (min (n div 10) 1000)) + 3 * nat n) f c = Some (Inl e, c')"
  shows "\<exists>w'. RunTimed L name n bytes f (c, w) = Some (Inl e, (c', w')) \<and> cout w' = cout w"
  using RunTimed_error [of n f c e c'] assms by (simp add: total_calls_def warmup_calls_def)

theorem RunTimed_aborts_witness:
  "\<forall>L w. \<exists>w'. RunTimed L ''failing'' 20000 0 (\<lambda>c. if c = 2 then Some (Inl Abort, c) else Some (Inr (), Suc c)) (0 :: nat, w)
     = Some (Inl Abort, (2, w')) \<and> cout w' = cout w"
proof (intro allI, rule RunTimed_aborts)
  have "nat (max 1 (min (20000 div 10) 1000)) + 3 * nat 20000 = Suc (Suc (Suc 60997))" by simp
  then show "repeat_calls (nat (max 1 (min (20000 div 10) 1000)) + 3 * nat 20000)
      (\<lambda>c. if c = 2 then Some (Inl Abort, c) else Some (Inr (), Suc c)) (0 :: nat) = Some (Inl Abort, 2)"
    by (simp only: repeat_calls.simps) (simp add: tryIn_def)
qed

text \<open>
  The ways to encode a message all show the barrier the same bytes, from the first
  call on and however often they are repeated: into a fresh string, into a reused string,
  and into an array that was resized to the size of the encoding; into a shorter array the
  benchmark aborts.
\<close>

theorem encode_variants_agree:
  "settles (encode_fresh L m) with_reserved (SeenString (SerializeToString L m)) \<and>
   settles (encode_reuse L m) with_reserved (SeenString (SerializeToString L m)) \<and>
   settles (encode_array L m) (with_resized (length (SerializeToString L m))) (SeenString (SerializeToString L m)) \<and>
   settles (encode_deterministic L m) (with_resized (length (SerializeDeterministic L m))) (SeenString (SerializeDeterministic L m)) \<and>
   fst (the (encode_array L m (with_resized n))) = (if n < length (SerializeToString L m) then Inl Abort else Inr ())"
proof (intro conjI)
  show "fst (the (encode_array L m (with_resized n))) = (if n < length (SerializeToString L m) then Inl Abort else Inr ())"
    by (simp add: with_resized_def encode_array_def body_defs)
qed (auto intro: encode_fresh_settles encode_reuse_settles encode_array_settles encode_deterministic_settles simp: with_resized_def)

text \<open>
  Decoding into a reused, cleared message shows the barrier the same message as
  decoding into a fresh one, for the binary, JSON and text formats, when the library keeps
  the type of the message it parses into.
\<close>

theorem decode_reuse_agrees:
  assumes "ParseFromString L b (cleared m) = Some d" and "cleared d = cleared m"
    and "JsonStringToMessage L default_parse_options j (cleared m) = Some d"
    and "TextParseFromString L t (cleared m) = Some d"
  shows "settles (decode_fresh L m b) captured_default (SeenMessage d) \<and> settles (decode_reuse L b) (with_target m) (SeenMessage d) \<and>
    settles (json_parse L default_parse_options m j) captured_default (SeenMessage d) \<and>
    settles (json_parse_reuse L j) (with_target m) (SeenMessage d) \<and>
    settles (text_parse L m t) captured_default (SeenMessage d) \<and> settles (text_parse_reuse L t) (with_target m) (SeenMessage d)"
  using assms
  by (simp add: with_target_def decode_fresh_settles decode_reuse_settles json_parse_settles json_parse_reuse_settles
      text_parse_settles text_parse_reuse_settles)

text \<open>A library over booleans, for witnesses: a \<open>BoolValue\<close> is one character in every format.\<close>

definition bool_library :: protobuf where
  "bool_library =
     (let enc = (\<lambda>m. if m = BoolValue True then ''1'' else ''0'');
          dec = (\<lambda>s m. if s = ''1'' then Some (BoolValue True) else if s = ''0'' then Some (BoolValue False) else None) in
      \<lparr>SerializeToString = enc, SerializeDeterministic = enc, ParseFromString = dec,
       MessageToJsonString = (\<lambda>_ m. Some (enc m)), JsonStringToMessage = (\<lambda>_. dec),
       PrintToString = (\<lambda>m. Some (enc m)), TextParseFromString = dec, clock_now = int\<rparr>)"

theorem decode_reuse_agrees_witness:
  "settles (decode_reuse bool_library ''1'') (with_target (BoolValue False)) (SeenMessage (BoolValue True))"
  using decode_reuse_agrees [of bool_library "''1''" "BoolValue False" "BoolValue True" "''1''" "''1''"]
  by (simp add: bool_library_def Let_def)

end
