(* ===== verification/Cpp_Payload.thy ===== *)
theory Cpp_Payload
  imports Cpp_Messages Wire_Reader
begin

unbundle bit_operations_syntax

text \<open>
  The payload builders of \<open>bench/cpp_protobuf/main.cc\<close>: the hand-written varint appender
  and the unknown-field payload, the packed messages, the maps in key order and shuffled,
  and the demo messages. Loops over an \<open>int\<close> run over \<open>ints n\<close>; arithmetic on \<open>int\<close> is
  exact in the model, and \<open>packed_values_in_range\<close> shows that it does not overflow.
\<close>

section \<open>Constants\<close>

definition kLargeMapEntryCount :: int where "kLargeMapEntryCount = 1024"
definition kLargeMapShuffleMultiplier :: int where "kLargeMapShuffleMultiplier = 257"
definition kLargeMapShuffleIncrement :: int where "kLargeMapShuffleIncrement = 911"
definition kUnknownFieldStressCount :: int where "kUnknownFieldStressCount = 1024"
definition kUnknownFieldStressFirstNumber :: int where "kUnknownFieldStressFirstNumber = 1000"
definition kUnknownFieldStressNumberSpan :: int where "kUnknownFieldStressNumberSpan = 16"
definition kUnknownFieldStressCountPerNumber :: int where
  "kUnknownFieldStressCountPerNumber = kUnknownFieldStressCount div kUnknownFieldStressNumberSpan"

text \<open>The values \<open>0, 1, ..., n - 1\<close> of the counter of \<open>for (int i = 0; i < n; ++i)\<close>.\<close>

definition ints :: "int \<Rightarrow> int list" where
  "ints n = map int [0..<nat n]"

section \<open>Varints and unknown fields\<close>

text \<open>\<open>static_cast<char>\<close> of an unsigned value keeps its low byte.\<close>

definition to_char :: "u64 \<Rightarrow> char" where
  "to_char v = char_of (unat v)"

function AppendVarint :: "string \<Rightarrow> u64 \<Rightarrow> string" where
  "AppendVarint out v =
     (if v \<ge> 0x80 then AppendVarint (out @ [to_char ((v AND 0x7F) OR 0x80)]) (drop_bit 7 v)
      else out @ [to_char v])"
  by pat_completeness auto
termination
proof (relation "measure (\<lambda>(out, v). unat v)")
  fix out :: string and v :: u64
  assume "v \<ge> 0x80"
  then have "128 \<le> unat v" by (simp add: word_le_nat_alt)
  then show "((out @ [to_char ((v AND 0x7F) OR 0x80)], drop_bit 7 v), out, v) \<in> measure (\<lambda>(out, v). unat v)"
    by (simp add: unat_drop_bit_div)
qed simp

declare AppendVarint.simps [simp del]

definition MakeUnknownFieldPayload :: "string \<Rightarrow> string" where
  "MakeUnknownFieldPayload base =
     foldl (\<lambda>out i.
         let num = kUnknownFieldStressFirstNumber + (i mod kUnknownFieldStressNumberSpan);
             out = AppendVarint out (push_bit 3 (of_int num) OR 0)
         in AppendVarint out (of_int (i + 1)))
       base (ints kUnknownFieldStressCount)"

definition UnknownFieldCountByNumber :: "unknown_field list \<Rightarrow> int \<Rightarrow> int" where
  "UnknownFieldCountByNumber unknown num =
     foldl (\<lambda>cnt i. if uf_number (unknown ! i) = num then cnt + 1 else cnt) 0 [0..<length unknown]"

section \<open>Packed messages\<close>

definition MakePacked :: "i32 list" where
  "MakePacked = map (\<lambda>i. of_int (i mod 4096)) (ints 1024)"

definition MakeFixedPacked :: "u32 list" where
  "MakeFixedPacked = map (\<lambda>i. of_int (i * 3 + 1)) (ints 1024)"

definition MakeFixed64Packed :: "u64 list" where
  "MakeFixed64Packed = map (\<lambda>i. of_int i * 5 + 1) (ints 1024)"

definition MakeSFixedPacked :: "i32 list" where
  "MakeSFixedPacked = map (\<lambda>i.
     let magnitude = of_int (i * 7 + 1) in if i mod 2 = 0 then magnitude else - magnitude) (ints 1024)"

definition MakeSFixed64Packed :: "i64 list" where
  "MakeSFixed64Packed = map (\<lambda>i.
     let magnitude = push_bit 20 (of_int i) + of_int i * 11 + 1
     in if i mod 2 = 0 then magnitude else - magnitude) (ints 1024)"

definition MakeFloatPacked :: "cpp_float list" where
  "MakeFloatPacked = map (\<lambda>i. Finite (of_int i * (1 / 4) + 1)) (ints 1024)"

definition MakeDoublePacked :: "cpp_float list" where
  "MakeDoublePacked = map (\<lambda>i. Finite (of_int i * (1 / 2) + 1)) (ints 1024)"

definition MakeUInt64Packed :: "u64 list" where
  "MakeUInt64Packed = map (\<lambda>i. push_bit 21 (of_int i) + of_int i * 17 + 1) (ints 1024)"

definition MakeUInt32Packed :: "u32 list" where
  "MakeUInt32Packed = map (\<lambda>i. of_int (push_bit 12 i + i * 3 + 1)) (ints 1024)"

definition MakeInt64Packed :: "i64 list" where
  "MakeInt64Packed = map (\<lambda>i.
     let magnitude = push_bit 20 (of_int i) + of_int i * 7 + 1
     in if i mod 2 = 0 then magnitude else - magnitude) (ints 1024)"

definition MakeSInt32Packed :: "i32 list" where
  "MakeSInt32Packed = map (\<lambda>i.
     let magnitude = of_int (i * 5 + 1) in if i mod 2 = 0 then magnitude else - magnitude) (ints 1024)"

definition MakeSInt64Packed :: "i64 list" where
  "MakeSInt64Packed = map (\<lambda>i.
     let magnitude = push_bit 20 (of_int i) + of_int i * 13 + 1
     in if i mod 2 = 0 then magnitude else - magnitude) (ints 1024)"

definition MakeBoolPacked :: "bool list" where
  "MakeBoolPacked = map (\<lambda>i. i mod 3 \<noteq> 0) (ints 1024)"

definition MakeEnumPacked :: "bench_kind list" where
  "MakeEnumPacked = map (\<lambda>i. of_int (i mod 3)) (ints 1024)"

section \<open>Maps\<close>

text \<open>\<open>snprintf(key, 16, "key-%04d", i)\<close> for a non-negative \<open>i\<close>.\<close>

definition pad4 :: "string \<Rightarrow> string" where
  "pad4 s = replicate (4 - length s) (CHR ''0'') @ s"

definition map_key :: "int \<Rightarrow> string" where
  "map_key i = take 15 (''key-'' @ pad4 (decimal (nat i)))"

definition MakeLargeMap :: "(string \<times> i32) list" where
  "MakeLargeMap = foldl (\<lambda>msg i. AList.update (map_key i) (of_int (i mod 4096 + 1)) msg) [] (ints kLargeMapEntryCount)"

definition ShuffledLargeMapIndex :: "int \<Rightarrow> int" where
  "ShuffledLargeMapIndex i =
     (i * kLargeMapShuffleMultiplier + kLargeMapShuffleIncrement) mod kLargeMapEntryCount"

definition MakeShuffledLargeMap :: "(string \<times> i32) list" where
  "MakeShuffledLargeMap =
     foldl (\<lambda>msg i. let key_index = ShuffledLargeMapIndex i in
         AList.update (map_key key_index) (of_int (key_index mod 4096 + 1)) msg)
       [] (ints kLargeMapEntryCount)"

section \<open>Demo messages\<close>

definition MakePerson :: person where
  "MakePerson =
     (let p = default_person;
          p = p\<lparr>person_id := 7\<rparr>;
          p = p\<lparr>person_name := ''Zig''\<rparr>;
          p = foldl (\<lambda>p sc. p\<lparr>scores := scores p @ [sc]\<rparr>) p [10, 20, 30, 40, 50, 60, 70, 80];
          p = p\<lparr>counts := AList.update ''red'' 1 (counts p)\<rparr>;
          p = p\<lparr>counts := AList.update ''green'' 2 (counts p)\<rparr>;
          p = p\<lparr>counts := AList.update ''blue'' 3 (counts p)\<rparr>
      in p)"

definition MakeScalarMix :: scalar_mix where
  "MakeScalarMix =
     (let msg = default_scalar_mix;
          msg = msg\<lparr>active := True\<rparr>;
          msg = msg\<lparr>count := 12345\<rparr>;
          msg = msg\<lparr>total := 9876543210\<rparr>;
          msg = msg\<lparr>delta := - 321\<rparr>;
          msg = msg\<lparr>big_delta := - 9876543\<rparr>;
          msg = msg\<lparr>checksum := 0xDEADBEEF\<rparr>;
          msg = msg\<lparr>token := 0x0102030405060708\<rparr>;
          msg = msg\<lparr>signed_fixed := - 123456\<rparr>;
          msg = msg\<lparr>signed_big_fixed := - 9876543210\<rparr>;
          msg = msg\<lparr>ratio := Finite (5 / 4)\<rparr>;
          msg = msg\<lparr>score := Finite (19 / 2)\<rparr>;
          msg = msg\<lparr>kind := BENCH_KIND_BETA\<rparr>;
          msg = foldl (\<lambda>m fl. m\<lparr>flags := flags m @ [fl]\<rparr>) msg [True, False, True, True, False, True, False, False];
          msg = foldl (\<lambda>m i. m\<lparr>ids := ids m @ [i]\<rparr>) msg [1, 127, 128, 16384, 1048576, 9876543210]
      in msg)"

definition MakeTextBytes :: text_bytes where
  "MakeTextBytes =
     (let msg = default_text_bytes;
          msg = msg\<lparr>title := ''ASCII title for protobuf''\<rparr>;
          msg = msg\<lparr>text_payload := ''0123456789abcdef0123456789abcdef''\<rparr>;
          msg = foldl (\<lambda>m t. m\<lparr>tags := tags m @ [t]\<rparr>) msg [''alpha'', ''beta'', ''gamma'', ''delta''];
          msg = foldl (\<lambda>m c. m\<lparr>text_chunks := text_chunks m @ [c]\<rparr>) msg
                  [''chunk-one'', ''chunk-two'', ''chunk-three'', ''chunk-four'']
      in msg)"

text \<open>\<open>static_cast<char>(n & 0xff)\<close>.\<close>

definition byte_char :: "nat \<Rightarrow> char" where
  "byte_char n = char_of (n AND 0xFF)"

definition MakeLargeBytes :: large_bytes where
  "MakeLargeBytes =
     (let payload = map (\<lambda>i. byte_char (i * 31 + 7)) [0..<64 * 1024];
          msg = default_large_bytes\<lparr>large_payload := payload\<rparr>
      in foldl (\<lambda>msg chunk_index.
           let chunk = map (\<lambda>i. byte_char (chunk_index * 17 + i * 13 + 3)) [0..<4 * 1024]
           in msg\<lparr>large_chunks := large_chunks msg @ [chunk]\<rparr>) msg [0..<16])"

definition MakePresenceChild :: "i32 \<Rightarrow> string \<Rightarrow> presence_child" where
  "MakePresenceChild i label = default_presence_child\<lparr>child_id := i, child_label := label\<rparr>"

definition MakePresenceMix :: presence_mix where
  "MakePresenceMix =
     (let msg = default_presence_mix;
          msg = msg\<lparr>opt_count := Some 0\<rparr>;
          msg = msg\<lparr>opt_note := Some []\<rparr>;
          msg = msg\<lparr>opt_raw := Some ''presence-raw''\<rparr>;
          msg = msg\<lparr>opt_child := Some (MakePresenceChild 7 ''child'')\<rparr>;
          msg = msg\<lparr>pick := PickNested (MakePresenceChild 11 ''nested'')\<rparr>
      in msg)"

definition MakeAudit :: "string \<Rightarrow> i64 \<Rightarrow> audit" where
  "MakeAudit who unix = default_audit\<lparr>actor := who, at_unix := unix\<rparr>"

definition MakeComplex :: complex_msg where
  "MakeComplex =
     (let c = default_complex;
          c = c\<lparr>complex_id := 42\<rparr>;
          c = c\<lparr>complex_audit := Some (MakeAudit ''tester'' 12345)\<rparr>;
          c = c\<lparr>history := history c @ [MakeAudit ''creator'' 12345]\<rparr>;
          c = c\<lparr>history := history c @ [MakeAudit ''reviewer'' 67890]\<rparr>;
          c = c\<lparr>audits := AList.update ''latest'' (MakeAudit ''reviewer'' 67890) (audits c)\<rparr>;
          c = c\<lparr>audits := AList.update ''created'' (MakeAudit ''creator'' 12345) (audits c)\<rparr>;
          c = c\<lparr>subject := AuditSubject (MakeAudit ''subject'' 777)\<rparr>
      in c)"

section \<open>The appended varints\<close>

definition byte_of :: "char \<Rightarrow> byte" where
  "byte_of c = of_nat (of_char c)"

lemma byte_of_char_of [simp]: "byte_of (char_of (n :: nat)) = of_nat n"
  by (simp add: byte_of_def word_of_nat_eq_iff take_bit_eq_mod)

lemma AppendVarint_bytes: "map byte_of (AppendVarint out v) = map byte_of out @ varint_enc (unat v)"
proof (induction out v rule: AppendVarint.induct)
  case (1 out v)
  show ?case
  proof (cases "v \<ge> 0x80")
    case True
    have l: "v AND 0x7F = take_bit 7 v"
      by (simp only: take_bit_eq_mask mask_eq_exp_minus_1) simp
    have "unat ((v AND 0x7F) OR 0x80) = take_bit 7 (unat v) OR 1 * 2 ^ 7"
      by (simp only: l unsigned_or_eq unsigned_take_bit_eq) simp
    also have "\<dots> = take_bit 7 (unat v) + 1 * 2 ^ 7"
      by (rule or_disjoint_nat) (rule take_bit_nat_less_exp)
    finally have c: "unat ((v AND 0x7F) OR 0x80) = unat v mod 128 + 128"
      by (simp add: take_bit_eq_mod)
    have b: "byte_of (to_char ((v AND 0x7F) OR 0x80)) = of_nat (unat v mod 128 + 128)"
      unfolding to_char_def byte_of_char_of c ..
    have "128 \<le> unat v" using True by (simp add: word_le_nat_alt)
    then have e: "varint_enc (unat v) = of_nat (unat v mod 128 + 128) # varint_enc (unat v div 128)"
      by (subst varint_enc.simps) simp
    have "map byte_of (AppendVarint out v) =
        map byte_of out @ byte_of (to_char ((v AND 0x7F) OR 0x80)) # varint_enc (unat (drop_bit 7 v))"
      using "1.IH" [OF True] True by (subst AppendVarint.simps) simp
    then show ?thesis
      unfolding b e by (simp only: unat_drop_bit_div) simp
  next
    case False
    then have "unat v < 128" by (simp add: word_le_nat_alt)
    then have "varint_enc (unat v) = [of_nat (unat v)]" by (subst varint_enc.simps) simp
    then show ?thesis using False by (subst AppendVarint.simps) (simp add: to_char_def)
  qed
qed

lemma append_pairs_bytes:
  "map byte_of (foldl (\<lambda>out i. AppendVarint (AppendVarint out (f i)) (g i)) base xs) =
     map byte_of base @ concat (map (\<lambda>i. varint_enc (unat (f i)) @ varint_enc (unat (g i))) xs)"
  by (induction xs arbitrary: base) (simp_all add: AppendVarint_bytes)

lemma unat_of_int_u64: "0 \<le> x \<Longrightarrow> x < 2 ^ 64 \<Longrightarrow> unat (of_int x :: u64) = nat x"
  by (simp add: unat_eq_nat_uint uint_word_of_int)

lemma unknown_tag_value:
  assumes "0 \<le> i"
  shows "unat (push_bit 3 (of_int (kUnknownFieldStressFirstNumber + i mod kUnknownFieldStressNumberSpan)) OR 0 :: u64) =
    nat ((1000 + i mod 16) * 8)"
proof -
  let ?n = "1000 + i mod 16"
  have n: "0 \<le> ?n" "?n < 1016" using pos_mod_bound [of 16 i] pos_mod_sign [of 16 i] by linarith+
  have "push_bit 3 (of_int ?n :: u64) = of_int (?n * 8)"
    by (simp only: push_bit_eq_mult of_int_mult) simp
  moreover have "unat (of_int (?n * 8) :: u64) = nat (?n * 8)"
    using n by (intro unat_of_int_u64) auto
  ultimately show ?thesis
    by (simp add: kUnknownFieldStressFirstNumber_def kUnknownFieldStressNumberSpan_def)
qed

text \<open>The fields the unknown-field payload appends, as bytes on the wire.\<close>

definition unknown_field_bytes :: "nat \<Rightarrow> bytes" where
  "unknown_field_bytes i = varint_enc ((1000 + i mod 16) * 8) @ varint_enc (i + 1)"

lemma set_ints: "set (ints n) = {0..<n}"
  by (cases "0 \<le> n") (auto simp: ints_def image_iff intro!: bexI [of _ "nat _"])

lemma MakeUnknownFieldPayload_bytes:
  "map byte_of (MakeUnknownFieldPayload base) =
     map byte_of base @ concat (map unknown_field_bytes [0..<1024])"
proof -
  have "varint_enc (unat (push_bit 3 (of_int (kUnknownFieldStressFirstNumber + int i mod kUnknownFieldStressNumberSpan)) OR 0 :: u64)) @
      varint_enc (unat (of_int (int i + 1) :: u64)) = unknown_field_bytes i" if "i < 1024" for i
  proof -
    have "nat ((1000 + int i mod 16) * 8) = (1000 + i mod 16) * 8"
      by (simp add: nat_mult_distrib nat_add_distrib nat_mod_distrib)
    moreover have "unat (of_int (int i + 1) :: u64) = i + 1"
      using that by (subst unat_of_int_u64) auto
    ultimately show ?thesis
      by (simp only: unknown_tag_value unknown_field_bytes_def of_nat_0_le_iff)
  qed
  then have "map (\<lambda>i. varint_enc (unat (push_bit 3 (of_int (kUnknownFieldStressFirstNumber + i mod kUnknownFieldStressNumberSpan)) OR 0 :: u64)) @
      varint_enc (unat (of_int (i + 1) :: u64))) (ints 1024) = map unknown_field_bytes [0..<1024]"
    by (simp only: ints_def map_map) (rule map_cong, auto)
  then show ?thesis
    unfolding MakeUnknownFieldPayload_def Let_def append_pairs_bytes kUnknownFieldStressCount_def by simp
qed

lemma count_foldl:
  "foldl (\<lambda>cnt i. if P i then cnt + 1 else cnt) (c :: int) xs = c + int (length (filter P xs))"
  by (induction xs arbitrary: c) auto

lemma UnknownFieldCountByNumber_filter:
  "UnknownFieldCountByNumber unknown n = int (length (filter (\<lambda>u. uf_number u = n) unknown))"
proof -
  have "filter (\<lambda>u. uf_number u = n) (map ((!) unknown) [0..<length unknown]) =
      map ((!) unknown) (filter (\<lambda>i. uf_number (unknown ! i) = n) [0..<length unknown])"
    by (simp add: filter_map comp_def)
  then show ?thesis
    by (simp add: UnknownFieldCountByNumber_def count_foldl map_nth)
qed

lemma cyclic_count:
  "length (filter (\<lambda>i. i mod 16 = r) [0..<16 * k]) = k" if "r < (16 :: nat)"
proof (induction k)
  case (Suc k)
  have "[0..<16 * Suc k] = [0..<16 * k] @ [16 * k..<16 * k + 16]"
    using upt_add_eq_append [of 0 "16 * k" 16] by (simp add: add.commute)
  moreover have "[16 * k..<16 * k + 16] = map (\<lambda>j. j + 16 * k) [0..<16]"
    using map_add_upt [of "16 * k" 16] by (simp add: add.commute)
  moreover have "length (filter (\<lambda>j. j mod 16 = r) [0..<16]) = 1"
  proof -
    have "filter (\<lambda>j. j mod 16 = r) [0..<16] = filter (\<lambda>j. j = r) [0..<16]"
      by (rule filter_cong) auto
    moreover have "{j. j = r} \<inter> set [0..<16] = {r}" using that by auto
    ultimately show ?thesis by (simp only: distinct_length_filter distinct_upt) simp
  qed
  ultimately show ?case using Suc.IH by (simp add: filter_map comp_def)
qed simp


section \<open>Maps\<close>

text \<open>The key of an index below 10000 has eight characters, so the buffer of 16 holds it.\<close>

lemma map_key_eq: "0 \<le> i \<Longrightarrow> i < 10000 \<Longrightarrow> map_key i = ''key-'' @ pad4 (decimal (nat i)) \<and> length (map_key i) = 8"
  using length_decimal [of "nat i" 4] by (simp add: map_key_def pad4_def nat_less_iff)

lemma map_key_inject:
  assumes "0 \<le> i" "i < 10000" "0 \<le> j" "j < 10000" "map_key i = map_key j"
  shows "i = j"
proof -
  have "pad4 (decimal (nat i)) = pad4 (decimal (nat j))"
    using assms map_key_eq [of i] map_key_eq [of j] by simp
  then have "undecimal (pad4 (decimal (nat i))) = undecimal (pad4 (decimal (nat j)))" by simp
  then show ?thesis using assms by (simp add: pad4_def undecimal_zeros undecimal_decimal)
qed

lemma update_new: "k \<notin> fst ` set m \<Longrightarrow> AList.update k v m = m @ [(k, v)]"
  by (induction m) auto

lemma foldl_update_new:
  "inj_on k (set xs) \<Longrightarrow> distinct xs \<Longrightarrow> k ` set xs \<inter> fst ` set m = {} \<Longrightarrow>
   foldl (\<lambda>m i. AList.update (k i) (v i) m) m xs = m @ map (\<lambda>i. (k i, v i)) xs"
proof (induction xs arbitrary: m)
  case (Cons x xs)
  have "k x \<notin> k ` set xs" using Cons.prems(1,2) by (auto simp: inj_on_def)
  then have "k ` set xs \<inter> fst ` set (m @ [(k x, v x)]) = {}" using Cons.prems(3) by auto
  then show ?case using Cons by (simp add: update_new)
qed simp

lemma map_key_inj: "inj_on map_key {0..<1024}"
  by (rule inj_onI) (auto intro: map_key_inject)

lemma distinct_ints: "distinct (ints n)"
  by (auto simp: ints_def distinct_map)

definition large_map_entry :: "int \<Rightarrow> string \<times> i32" where
  "large_map_entry i = (map_key i, of_int (i mod 4096 + 1))"

lemma MakeLargeMap_entries: "MakeLargeMap = map large_map_entry (ints 1024)"
  unfolding MakeLargeMap_def kLargeMapEntryCount_def
  by (subst foldl_update_new) (auto simp: map_key_inj set_ints distinct_ints large_map_entry_def)

text \<open>769 is the inverse of the multiplier 257 modulo 1024.\<close>

lemma ShuffledLargeMapIndex_inverse:
  assumes "0 \<le> i" "i < 1024"
  shows "((ShuffledLargeMapIndex i - 911) * 769) mod 1024 = i"
proof -
  have "((ShuffledLargeMapIndex i - 911) * 769) mod 1024 = ((i * 257 + 911 - 911) * 769) mod 1024"
    unfolding ShuffledLargeMapIndex_def kLargeMapEntryCount_def kLargeMapShuffleMultiplier_def kLargeMapShuffleIncrement_def
    by (metis mod_diff_left_eq mod_mult_left_eq)
  also have "\<dots> = (i + 1024 * (i * 193)) mod 1024" by (simp add: algebra_simps)
  also have "\<dots> = i mod 1024" by (rule mod_mult_self2)
  also have "\<dots> = i" using assms by (rule mod_pos_pos_trivial)
  finally show ?thesis .
qed

lemma ShuffledLargeMapIndex_range: "ShuffledLargeMapIndex i \<in> {0..<1024}"
  by (simp add: ShuffledLargeMapIndex_def kLargeMapEntryCount_def)

lemma ShuffledLargeMapIndex_bij: "bij_betw ShuffledLargeMapIndex {0..<1024} {0..<1024}"
proof (rule bij_betw_imageI)
  show "inj_on ShuffledLargeMapIndex {0..<1024}"
    by (rule inj_onI) (metis ShuffledLargeMapIndex_inverse atLeastLessThan_iff)
  then show "ShuffledLargeMapIndex ` {0..<1024} = {0..<1024}"
    using ShuffledLargeMapIndex_range by (intro endo_inj_surj) auto
qed

lemma MakeShuffledLargeMap_entries:
  "MakeShuffledLargeMap = map (large_map_entry \<circ> ShuffledLargeMapIndex) (ints 1024)"
proof -
  have "inj_on (map_key \<circ> ShuffledLargeMapIndex) {0..<1024}"
    using ShuffledLargeMapIndex_bij map_key_inj by (intro comp_inj_on) (auto simp: bij_betw_def)
  then have "foldl (\<lambda>msg i. AList.update ((map_key \<circ> ShuffledLargeMapIndex) i) (of_int (ShuffledLargeMapIndex i mod 4096 + 1)) msg)
      [] (ints 1024) = map (large_map_entry \<circ> ShuffledLargeMapIndex) (ints 1024)"
    by (subst foldl_update_new) (auto simp: set_ints distinct_ints large_map_entry_def)
  then show ?thesis
    by (simp add: MakeShuffledLargeMap_def kLargeMapEntryCount_def Let_def)
qed

lemma distinct_keys_MakeLargeMap: "distinct (map fst MakeLargeMap)" "distinct (map fst MakeShuffledLargeMap)"
proof -
  show "distinct (map fst MakeLargeMap)"
    using map_key_inj by (simp add: MakeLargeMap_entries distinct_map distinct_ints set_ints large_map_entry_def comp_def)
  have "inj_on (map_key \<circ> ShuffledLargeMapIndex) {0..<1024}"
    using ShuffledLargeMapIndex_bij map_key_inj by (intro comp_inj_on) (auto simp: bij_betw_def)
  then show "distinct (map fst MakeShuffledLargeMap)"
    by (simp add: MakeShuffledLargeMap_entries distinct_map distinct_ints set_ints large_map_entry_def comp_def)
qed

lemma shuffled_map_same: "set MakeShuffledLargeMap = set MakeLargeMap"
proof -
  have "set MakeShuffledLargeMap = large_map_entry ` ShuffledLargeMapIndex ` {0..<1024}"
    by (simp add: MakeShuffledLargeMap_entries set_ints image_comp)
  also have "\<dots> = set MakeLargeMap"
    using ShuffledLargeMapIndex_bij by (simp add: MakeLargeMap_entries set_ints bij_betw_def)
  finally show ?thesis .
qed


section \<open>Packed values\<close>

lemma sint_of_int:
  "- (2 ^ (LENGTH('a) - 1)) \<le> x \<Longrightarrow> x < 2 ^ (LENGTH('a) - 1) \<Longrightarrow> sint (of_int x :: 'a::len word) = x"
  by (simp add: signed_of_int signed_take_bit_int_eq_self_iff)

lemma uint_of_int: "0 \<le> x \<Longrightarrow> x < 2 ^ LENGTH('a) \<Longrightarrow> uint (of_int x :: 'a::len word) = x"
  by (simp add: uint_word_of_int)

definition alternating :: "(int \<Rightarrow> int) \<Rightarrow> int list" where
  "alternating f = map (\<lambda>i. if i mod 2 = 0 then f i else - f i) (ints 1024)"

lemma alternating_sint:
  fixes g :: "int \<Rightarrow> 'a::len word"
  assumes "\<And>i. 0 \<le> i \<Longrightarrow> i < 1024 \<Longrightarrow> g i = of_int (f i) \<and> 0 \<le> f i \<and> f i < 2 ^ (LENGTH('a) - 1)"
  shows "map sint (map (\<lambda>i. let magnitude = g i in if i mod 2 = 0 then magnitude else - magnitude) (ints 1024)) = alternating f"
proof -
  have "sint (let magnitude = g i in if i mod 2 = 0 then magnitude else - magnitude) = (if i mod 2 = 0 then f i else - f i)"
    if "i \<in> set (ints 1024)" for i
  proof -
    have i: "g i = of_int (f i)" "0 \<le> f i" "f i < 2 ^ (LENGTH('a) - 1)" using assms that by (auto simp: set_ints)
    have "- g i = of_int (- f i)" using i by simp
    then show ?thesis
      using i by (simp only: Let_def split: if_split) (auto intro!: sint_of_int simp del: of_int_minus)
  qed
  then show ?thesis by (simp only: alternating_def map_map comp_def cong: map_cong)
qed

lemma shifted_of_int: "push_bit n (of_int i) + of_int i * of_int k + 1 = (of_int (i * 2 ^ n + i * k + 1) :: 'a::len word)"
  by (simp add: push_bit_eq_mult)

lemma packed_alternating:
  "map sint MakeSFixedPacked = alternating (\<lambda>i. i * 7 + 1)"
  "map sint MakeSInt32Packed = alternating (\<lambda>i. i * 5 + 1)"
  "map sint MakeSFixed64Packed = alternating (\<lambda>i. i * 2 ^ 20 + i * 11 + 1)"
  "map sint MakeInt64Packed = alternating (\<lambda>i. i * 2 ^ 20 + i * 7 + 1)"
  "map sint MakeSInt64Packed = alternating (\<lambda>i. i * 2 ^ 20 + i * 13 + 1)"
  unfolding MakeSFixedPacked_def MakeSInt32Packed_def MakeSFixed64Packed_def MakeInt64Packed_def MakeSInt64Packed_def
  by (rule alternating_sint, simp add: shifted_of_int push_bit_eq_mult)+

lemma packed_plain:
  "map sint MakePacked = map (\<lambda>i. i) (ints 1024)"
  "map uint MakeFixedPacked = map (\<lambda>i. i * 3 + 1) (ints 1024)"
  "map uint MakeFixed64Packed = map (\<lambda>i. i * 5 + 1) (ints 1024)"
  "map uint MakeUInt64Packed = map (\<lambda>i. i * 2 ^ 21 + i * 17 + 1) (ints 1024)"
  "map uint MakeUInt32Packed = map (\<lambda>i. i * 2 ^ 12 + i * 3 + 1) (ints 1024)"
  "map sint MakeEnumPacked = map (\<lambda>i. i mod 3) (ints 1024)"
proof -
  show "map sint MakePacked = map (\<lambda>i. i) (ints 1024)"
    unfolding MakePacked_def map_map by (rule map_cong) (auto simp: set_ints intro!: sint_of_int)
  show "map uint MakeFixedPacked = map (\<lambda>i. i * 3 + 1) (ints 1024)"
    unfolding MakeFixedPacked_def map_map comp_def
    by (rule map_cong [OF refl], rule uint_of_int) (auto simp: set_ints)
  have "of_int i * 5 + 1 = (of_int (i * 5 + 1) :: u64)" for i by simp
  then show "map uint MakeFixed64Packed = map (\<lambda>i. i * 5 + 1) (ints 1024)"
    unfolding MakeFixed64Packed_def map_map comp_def
    by (intro map_cong refl) (simp only:, rule uint_of_int, auto simp: set_ints)
  have "push_bit 21 (of_int i) + of_int i * 17 + 1 = (of_int (i * 2 ^ 21 + i * 17 + 1) :: u64)" for i
    using shifted_of_int [of 21 i 17] by simp
  then show "map uint MakeUInt64Packed = map (\<lambda>i. i * 2 ^ 21 + i * 17 + 1) (ints 1024)"
    unfolding MakeUInt64Packed_def map_map comp_def
    by (intro map_cong refl) (simp only:, rule uint_of_int, auto simp: set_ints)
  show "map uint MakeUInt32Packed = map (\<lambda>i. i * 2 ^ 12 + i * 3 + 1) (ints 1024)"
    unfolding MakeUInt32Packed_def map_map comp_def push_bit_eq_mult
    by (rule map_cong [OF refl], rule uint_of_int) (auto simp: set_ints)
  show "map sint MakeEnumPacked = map (\<lambda>i. i mod 3) (ints 1024)"
    unfolding MakeEnumPacked_def map_map comp_def
  proof (intro map_cong refl sint_of_int)
    fix i :: int
    show "- (2 ^ (LENGTH(32) - 1)) \<le> i mod 3" "i mod 3 < 2 ^ (LENGTH(32) - 1)"
      using pos_mod_bound [of 3 i] pos_mod_sign [of 3 i] by auto
  qed
qed

lemma float_packed_quarters:
  "v \<in> set MakeFloatPacked \<Longrightarrow> \<exists>k. 4 \<le> k \<and> k < 2 ^ 24 \<and> v = Finite (of_int k / 4)"
  "v \<in> set MakeDoublePacked \<Longrightarrow> \<exists>k. 2 \<le> k \<and> k < 2 ^ 53 \<and> v = Finite (of_int k / 2)"
proof -
  show "\<exists>k. 4 \<le> k \<and> k < 2 ^ 24 \<and> v = Finite (of_int k / 4)" if v: "v \<in> set MakeFloatPacked"
  proof -
    obtain i where "0 \<le> i" "i < 1024" "v = Finite (of_int i / 4 + 1)" using v unfolding MakeFloatPacked_def set_map set_ints by auto
    then show ?thesis by (intro exI [of _ "i + 4"]) (simp add: add_divide_distrib)
  qed
  show "\<exists>k. 2 \<le> k \<and> k < 2 ^ 53 \<and> v = Finite (of_int k / 2)" if v: "v \<in> set MakeDoublePacked"
  proof -
    obtain i where "0 \<le> i" "i < 1024" "v = Finite (of_int i / 2 + 1)" using v unfolding MakeDoublePacked_def set_map set_ints by auto
    then show ?thesis by (intro exI [of _ "i + 2"]) (simp add: add_divide_distrib)
  qed
qed

lemma length_ints: "length (ints 1024) = 1024"
  by (simp add: ints_def)

lemma unknown_field_is_field:
  assumes "i < 1024" and "fields_bytes d rest"
  shows "fields_bytes d (unknown_field_bytes i @ rest)"
proof -
  let ?t = "\<lparr>number = of_nat (1000 + i mod 16), tag_type = Varint\<rparr>"
  have n: "1000 + i mod 16 < 1016" by simp
  then have u: "unat (number ?t) = 1000 + i mod 16"
    by (simp add: unat_of_nat del: of_nat_add)
  then have nz: "number ?t \<noteq> 0" by (metis add_is_0 unat_0 zero_neq_numeral)
  have "tag_bytes (varint_enc ((1000 + i mod 16) * 8)) ?t"
    using tag_bytes_enc [OF nz] u by simp
  moreover have "value_bytes d ?t (varint_enc (i + 1))"
    using assms(1) by (intro value_bytes_group_bytes.varint [OF _ varint_bytes_enc]) auto
  ultimately show ?thesis
    unfolding unknown_field_bytes_def append_assoc
    using assms(2) by (intro fields_bytes.more) auto
qed

lemma unknown_fields_grammar: "set is \<subseteq> {..<1024} \<Longrightarrow> fields_bytes d (concat (map unknown_field_bytes is))"
  by (induction "is") (auto intro: fields_bytes.none unknown_field_is_field)

section \<open>Properties\<close>

text \<open>
  C37: the benchmark's hand-written \<open>AppendVarint\<close> appends the canonical varint, which the
  toolkit's own reader reads back as the value.
\<close>

theorem AppendVarint_reads_back:
  "map byte_of (AppendVarint out v) = map byte_of out @ varint_enc (unat v) \<and>
   readVarintAt (map byte_of (AppendVarint out v)) (length out) = (Inr v, length out + encodedVarintSize v)"
  using readVarintAt_enc [of "unat v" "map byte_of out" "[]"] unat_bound [of v]
  by (simp add: AppendVarint_bytes encodedVarintSize_eq)

text \<open>
  The unknown-field payload is the base payload followed by 1024 varint fields, with
  the numbers 1000 to 1015 in turn and the values 1 to 1024, and what is appended is a
  sequence of well-formed fields that a reader can skip one by one.
\<close>

theorem unknown_payload_fields:
  "map byte_of (MakeUnknownFieldPayload base) =
     map byte_of base @ concat (map (\<lambda>i. varint_enc ((1000 + i mod 16) * 8) @ varint_enc (i + 1)) [0..<1024]) \<and>
   fields_bytes 0 (concat (map (\<lambda>i. varint_enc ((1000 + i mod 16) * 8) @ varint_enc (i + 1)) [0..<1024]))"
proof -
  have "map (\<lambda>i. varint_enc ((1000 + i mod 16) * 8) @ varint_enc (i + 1)) [0..<1024] = map unknown_field_bytes [0..<1024]"
    by (simp add: unknown_field_bytes_def)
  then show ?thesis
    using unknown_fields_grammar [of "[0..<1024]" 0] by (simp only: MakeUnknownFieldPayload_bytes) (simp add: atLeast0LessThan)
qed

lemma unknown_count_numbers:
  assumes "map uf_number unknown = map (\<lambda>i. 1000 + int (i mod 16)) [0..<1024]"
  shows "UnknownFieldCountByNumber unknown n =
    (if 1000 \<le> n \<and> n < 1016 then kUnknownFieldStressCountPerNumber else 0)"
proof -
  have "length (filter (\<lambda>u. uf_number u = n) unknown) = length (filter (\<lambda>x. x = n) (map uf_number unknown))"
    by (simp add: filter_map comp_def)
  also have "\<dots> = length (filter (\<lambda>i. i mod 16 = nat (n - 1000) \<and> 1000 \<le> n) [0..<1024])"
    unfolding assms filter_map length_map comp_def by (rule arg_cong [of _ _ length], rule filter_cong) auto
  also have "\<dots> = (if 1000 \<le> n \<and> n < 1016 then 64 else 0)"
    using cyclic_count [of "nat (n - 1000)" 64]
    by (auto simp: filter_empty_conv)
  finally show ?thesis
    by (simp add: UnknownFieldCountByNumber_filter kUnknownFieldStressCountPerNumber_def
        kUnknownFieldStressCount_def kUnknownFieldStressNumberSpan_def)
qed

text \<open>
  Over unknown fields numbered as in that payload, the count of every number from 1000
  to 1015 is the constant the benchmark compares it with, and every other count is 0.
\<close>

theorem unknown_count_per_number:
  "map uf_number unknown = map (\<lambda>i. 1000 + int (i mod 16)) [0..<1024] \<Longrightarrow>
   UnknownFieldCountByNumber unknown n = (if 1000 \<le> n \<and> n < 1016 then kUnknownFieldStressCountPerNumber else 0)"
  by (rule unknown_count_numbers)

theorem unknown_count_per_number_witness:
  "UnknownFieldCountByNumber (map (\<lambda>i. \<lparr>uf_number = 1000 + int (i mod 16), uf_varint = of_nat i + 1\<rparr>) [0..<1024])
     kUnknownFieldStressFirstNumber = kUnknownFieldStressCountPerNumber"
  by (subst unknown_count_per_number) (simp_all add: kUnknownFieldStressFirstNumber_def)

text \<open>
  The shuffled index is a permutation of the 1024 indices, so the shuffled map has the
  same 1024 entries under distinct keys as the map built in key order: equal as maps,
  inserted in another order.
\<close>

theorem shuffled_map_permutes:
  "bij_betw ShuffledLargeMapIndex {0..<1024} {0..<1024} \<and>
   map_of MakeShuffledLargeMap = map_of MakeLargeMap \<and> set MakeShuffledLargeMap = set MakeLargeMap \<and>
   length MakeLargeMap = 1024 \<and> length MakeShuffledLargeMap = 1024 \<and> distinct (map fst MakeLargeMap)"
  using ShuffledLargeMapIndex_bij distinct_keys_MakeLargeMap shuffled_map_same
  by (auto simp: MakeLargeMap_entries MakeShuffledLargeMap_entries length_ints
      intro: map_of_inject_set [THEN iffD2])

text \<open>
  The packed payloads hold the mathematical values of their formulas: no \<open>int32_t\<close>,
  \<open>int64_t\<close>, \<open>uint32_t\<close> or \<open>uint64_t\<close> in them wraps around.
\<close>

theorem packed_values_in_range:
  "map sint MakePacked = ints 1024 \<and>
   map uint MakeFixedPacked = map (\<lambda>i. i * 3 + 1) (ints 1024) \<and>
   map uint MakeFixed64Packed = map (\<lambda>i. i * 5 + 1) (ints 1024) \<and>
   map sint MakeSFixedPacked = map (\<lambda>i. if even i then i * 7 + 1 else - (i * 7 + 1)) (ints 1024) \<and>
   map sint MakeSFixed64Packed = map (\<lambda>i. if even i then i * 2 ^ 20 + i * 11 + 1 else - (i * 2 ^ 20 + i * 11 + 1)) (ints 1024) \<and>
   map uint MakeUInt64Packed = map (\<lambda>i. i * 2 ^ 21 + i * 17 + 1) (ints 1024) \<and>
   map uint MakeUInt32Packed = map (\<lambda>i. i * 2 ^ 12 + i * 3 + 1) (ints 1024) \<and>
   map sint MakeInt64Packed = map (\<lambda>i. if even i then i * 2 ^ 20 + i * 7 + 1 else - (i * 2 ^ 20 + i * 7 + 1)) (ints 1024) \<and>
   map sint MakeSInt32Packed = map (\<lambda>i. if even i then i * 5 + 1 else - (i * 5 + 1)) (ints 1024) \<and>
   map sint MakeSInt64Packed = map (\<lambda>i. if even i then i * 2 ^ 20 + i * 13 + 1 else - (i * 2 ^ 20 + i * 13 + 1)) (ints 1024)"
  by (intro conjI) (simp_all only: packed_alternating packed_plain alternating_def even_iff_mod_2_eq_zero list.map_ident)

text \<open>
  Every \<open>float\<close> of the float payload is a quarter with a numerator below 2 to the 24,
  and every \<open>double\<close> a half with one below 2 to the 53, so the literals are exact in their
  formats and the computation of the payload does not round.
\<close>

theorem packed_floats_exact:
  "set MakeFloatPacked \<subseteq> {Finite (of_int k / 4) | k. 0 \<le> k \<and> k < 2 ^ 24} \<and>
   set MakeDoublePacked \<subseteq> {Finite (of_int k / 2) | k. 0 \<le> k \<and> k < 2 ^ 53}"
  by (auto dest!: float_packed_quarters)

end
