(* ===== verification/Cpp_Setup_Demo.thy ===== *)
theory Cpp_Setup_Demo
  imports Cpp_Bench Cpp_Payload
begin

text \<open>
  The first part of \<open>main\<close> in \<open>bench/cpp_protobuf/main.cc\<close>, lines 391 to 670: the demo
  messages, their encodings, and the checks that abort the program when the library does
  not print or parse them as expected. The locals of each part are a record.
\<close>

section \<open>Checks\<close>

text \<open>\<open>s.find(pat) != std::string::npos\<close>.\<close>

definition contains :: "string \<Rightarrow> string \<Rightarrow> bool" where
  "contains s pat = list_ex (\<lambda>i. take (length pat) (drop i s) = pat) [0..<Suc (length s)]"

text \<open>The message a typed local variable holds.\<close>

definition the_person :: "message \<Rightarrow> person" where
  "the_person m = (case m of Person p \<Rightarrow> p | _ \<Rightarrow> default_person)"

definition the_scalar_mix :: "message \<Rightarrow> scalar_mix" where
  "the_scalar_mix m = (case m of ScalarMix s \<Rightarrow> s | _ \<Rightarrow> default_scalar_mix)"

definition the_text_bytes :: "message \<Rightarrow> text_bytes" where
  "the_text_bytes m = (case m of TextBytes t \<Rightarrow> t | _ \<Rightarrow> default_text_bytes)"

definition the_presence_mix :: "message \<Rightarrow> presence_mix" where
  "the_presence_mix m = (case m of PresenceMix p \<Rightarrow> p | _ \<Rightarrow> default_presence_mix)"

definition the_complex :: "message \<Rightarrow> complex_msg" where
  "the_complex m = (case m of Complex c \<Rightarrow> c | _ \<Rightarrow> default_complex)"

text \<open>\<open>map.at(key)\<close> stops the program when the key is missing; \<open>differs\<close> is then true.\<close>

definition differs :: "'a option \<Rightarrow> ('a \<Rightarrow> bool) \<Rightarrow> bool" where
  "differs x p = (case x of None \<Rightarrow> True | Some v \<Rightarrow> \<not> p v)"

text \<open>Getters of optional fields return the default of a field that is not set.\<close>

definition value_or :: "'a \<Rightarrow> 'a option \<Rightarrow> 'a" where
  "value_or d x = (case x of None \<Rightarrow> d | Some v \<Rightarrow> v)"

section \<open>The demo messages and the unknown-field payload\<close>

definition kIterations :: int where "kIterations = 20000"

record core_locals =
  person :: person
  scalarmix :: scalar_mix
  textbytes :: text_bytes
  largebytes :: large_bytes
  presencemix :: presence_mix
  complex_message :: complex_msg
  person_bytes :: string
  unknown_bytes :: string
  unknown_person :: person
  person_json :: string
  scalarmix_json :: string

definition setup_core :: \<open>protobuf \<Rightarrow> core_locals prog\<close> where
  \<open>setup_core L =
    (let person = MakePerson in
     let scalarmix = MakeScalarMix in
     let textbytes = MakeTextBytes in
     let largebytes = MakeLargeBytes in
     let presencemix = MakePresenceMix in
     let complex_message = MakeComplex in
     let person_bytes = SerializeToString L (Person person) in
     let unknown_bytes = MakeUnknownFieldPayload person_bytes in
     orAbort (ParseFromString L unknown_bytes (Person default_person)) (\<lambda>parsed.
     let unknown_person = the_person parsed in
     tryIn (abortIf (int (length (unknown_fields unknown_person)) \<noteq> kUnknownFieldStressCount)) (\<lambda>_.
     orAbort (MessageToJsonString L default_print_options (Person person)) (\<lambda>person_json.
     orAbort (MessageToJsonString L default_print_options (ScalarMix scalarmix)) (\<lambda>scalarmix_json.
     tryIn (abortIf
       (\<not> contains scalarmix_json ''"bigDelta":"-9876543"'' \<or>
        \<not> contains scalarmix_json ''"kind":"BENCH_KIND_BETA"'' \<or>
        \<not> contains scalarmix_json ''"ids":["1","127","128"'')) (\<lambda>_.
     orAbort (JsonStringToMessage L default_parse_options scalarmix_json (ScalarMix default_scalar_mix)) (\<lambda>parsed.
     let decoded = the_scalar_mix parsed in
     tryIn (abortIf
       (count decoded \<noteq> count scalarmix \<or> total decoded \<noteq> total scalarmix \<or>
        big_delta decoded \<noteq> big_delta scalarmix \<or> kind decoded \<noteq> kind scalarmix \<or>
        length (ids decoded) \<noteq> length (ids scalarmix) \<or> ids decoded ! 5 \<noteq> 9876543210)) (\<lambda>_.
     return \<lparr>person = person, scalarmix = scalarmix, textbytes = textbytes, largebytes = largebytes,
       presencemix = presencemix, complex_message = complex_message, person_bytes = person_bytes,
       unknown_bytes = unknown_bytes, unknown_person = unknown_person, person_json = person_json,
       scalarmix_json = scalarmix_json\<rparr>))))))))\<close>

section \<open>JSON print options\<close>

record option_locals =
  always_print_json_options :: json_print_options
  empty_person :: person
  always_print_stringify_json :: string
  proto_name_json_options :: json_print_options
  proto_name_stringify_json :: string
  enum_number_json_options :: json_print_options
  enum_number_stringify_json :: string

definition setup_options :: \<open>protobuf \<Rightarrow> core_locals \<Rightarrow> option_locals prog\<close> where
  \<open>setup_options L c =
    (let always_print_json_options = default_print_options\<lparr>always_print_primitive_fields := True\<rparr> in
     let empty_person = default_person in
     orAbort (MessageToJsonString L always_print_json_options (Person empty_person)) (\<lambda>always_print_stringify_json.
     tryIn (abortIf
       (\<not> contains always_print_stringify_json ''"id":0'' \<or>
        \<not> contains always_print_stringify_json ''"name":""'' \<or>
        \<not> contains always_print_stringify_json ''"scores":[]'' \<or>
        \<not> contains always_print_stringify_json ''"counts":{}'')) (\<lambda>_.
     let proto_name_json_options = default_print_options\<lparr>preserve_proto_field_names := True\<rparr> in
     orAbort (MessageToJsonString L proto_name_json_options (ScalarMix (scalarmix c))) (\<lambda>proto_name_stringify_json.
     tryIn (abortIf
       (\<not> contains proto_name_stringify_json ''"big_delta"'' \<or>
        \<not> contains proto_name_stringify_json ''"signed_fixed"'' \<or>
        \<not> contains proto_name_stringify_json ''"signed_big_fixed"'' \<or>
        contains proto_name_stringify_json ''"bigDelta"'')) (\<lambda>_.
     let enum_number_json_options = default_print_options\<lparr>always_print_enums_as_ints := True\<rparr> in
     orAbort (MessageToJsonString L enum_number_json_options (ScalarMix (scalarmix c))) (\<lambda>enum_number_stringify_json.
     tryIn (abortIf
       (\<not> contains enum_number_stringify_json ''"kind":2'' \<or>
        contains enum_number_stringify_json ''BENCH_KIND_BETA'')) (\<lambda>_.
     return \<lparr>always_print_json_options = always_print_json_options, empty_person = empty_person,
       always_print_stringify_json = always_print_stringify_json, proto_name_json_options = proto_name_json_options,
       proto_name_stringify_json = proto_name_stringify_json, enum_number_json_options = enum_number_json_options,
       enum_number_stringify_json = enum_number_stringify_json\<rparr>)))))))\<close>

section \<open>JSON inputs\<close>

record json_locals =
  presencemix_json :: string
  map_key_surrogate_json :: string
  null_fields_json :: string
  ignore_unknown_json :: string
  ignore_unknown_json_options :: json_parse_options
  open_enum_json :: string
  enum_name_json :: string
  proto_name_json :: string
  int_exponent_json :: string
  string_number_json :: string

definition setup_presence :: \<open>protobuf \<Rightarrow> core_locals \<Rightarrow> string prog\<close> where
  \<open>setup_presence L c =
    orAbort (MessageToJsonString L default_print_options (PresenceMix (presencemix c))) (\<lambda>presencemix_json.
    tryIn (abortIf
      (\<not> contains presencemix_json ''"count":0'' \<or>
       \<not> contains presencemix_json ''"note":""'' \<or>
       \<not> contains presencemix_json ''"raw":"cHJlc2VuY2UtcmF3"'' \<or>
       \<not> contains presencemix_json ''"child"'' \<or>
       \<not> contains presencemix_json ''"nested"'' \<or>
       contains presencemix_json ''"name"'')) (\<lambda>_.
    orAbort (JsonStringToMessage L default_parse_options presencemix_json (PresenceMix default_presence_mix)) (\<lambda>parsed.
    let decoded = the_presence_mix parsed in
    tryIn (abortIf
      (opt_count decoded = None \<or> value_or 0 (opt_count decoded) \<noteq> 0 \<or>
       opt_note decoded = None \<or> value_or [] (opt_note decoded) \<noteq> [] \<or>
       value_or [] (opt_raw decoded) \<noteq> ''presence-raw'' \<or> opt_child decoded = None \<or>
       child_id (value_or default_presence_child (opt_child decoded)) \<noteq> 7 \<or>
       child_label (value_or default_presence_child (opt_child decoded)) \<noteq> ''child'' \<or>
       \<not> has_nested (pick decoded) \<or> child_id (nested_of (pick decoded)) \<noteq> 11 \<or>
       child_label (nested_of (pick decoded)) \<noteq> ''nested'')) (\<lambda>_.
    return presencemix_json))))\<close>

definition setup_null_fields :: \<open>protobuf \<Rightarrow> string \<Rightarrow> unit prog\<close> where
  \<open>setup_null_fields L input_json =
    (let decoded = default_person in
     let decoded = decoded\<lparr>person_id := 7\<rparr> in
     let decoded = decoded\<lparr>person_name := ''x''\<rparr> in
     let decoded = decoded\<lparr>scores := scores decoded @ [1]\<rparr> in
     let decoded = decoded\<lparr>counts := AList.update ''red'' 2 (counts decoded)\<rparr> in
     orAbort (JsonStringToMessage L default_parse_options input_json (Person decoded)) (\<lambda>parsed.
     let decoded = the_person parsed in
     abortIf (person_id decoded \<noteq> 0 \<or> person_name decoded \<noteq> [] \<or> length (scores decoded) \<noteq> 0 \<or>
       length (counts decoded) \<noteq> 0)))\<close>

definition setup_ignore_unknown :: \<open>protobuf \<Rightarrow> string \<Rightarrow> json_parse_options \<Rightarrow> unit prog\<close> where
  \<open>setup_ignore_unknown L input_json opts =
    orAbort (JsonStringToMessage L opts input_json (Person default_person)) (\<lambda>parsed.
    let decoded = the_person parsed in
    abortIf (person_id decoded \<noteq> 7 \<or> person_name decoded \<noteq> ''zig'' \<or> length (scores decoded) \<noteq> 1 \<or>
      scores decoded ! 0 \<noteq> 3 \<or> length (counts decoded) \<noteq> 1 \<or>
      differs (map_of (counts decoded) ''red'') (\<lambda>v. v = 4)))\<close>

text \<open>The two blocks that check the numbers of a \<open>ScalarMix\<close> have the same condition.\<close>

definition check_numbers :: \<open>protobuf \<Rightarrow> string \<Rightarrow> unit prog\<close> where
  \<open>check_numbers L json =
    orAbort (JsonStringToMessage L default_parse_options json (ScalarMix default_scalar_mix)) (\<lambda>parsed.
    let decoded = the_scalar_mix parsed in
    abortIf
      (count decoded \<noteq> 12345 \<or> total decoded \<noteq> 9876543210 \<or> delta decoded \<noteq> - 321 \<or>
       big_delta decoded \<noteq> - 9876543 \<or> checksum decoded \<noteq> 321 \<or> token decoded \<noteq> 4096 \<or>
       signed_fixed decoded \<noteq> - 123456 \<or> signed_big_fixed decoded \<noteq> - 9876543 \<or>
       length (ids decoded) \<noteq> 3 \<or> ids decoded ! 0 \<noteq> 1 \<or> ids decoded ! 1 \<noteq> 127 \<or> ids decoded ! 2 \<noteq> 128))\<close>

definition setup_json :: \<open>protobuf \<Rightarrow> core_locals \<Rightarrow> json_locals prog\<close> where
  \<open>setup_json L c =
    tryIn (setup_presence L c) (\<lambda>presencemix_json.
    let map_key_surrogate_json = ''{"counts":{"'' @ [CHR 0x5C] @ ''ud83d'' @ [CHR 0x5C] @ ''ude00":9}}'' in
    let null_fields_json = ''{"id":null,"name":null,"scores":null,"counts":null}'' in
    tryIn (setup_null_fields L null_fields_json) (\<lambda>_.
    let ignore_unknown_json =
      ''{"id":7,"name":"zig","scores":[3],"counts":{"red":4},"unknownNested":{"x":1},"unknownList":[1,2]}'' in
    let ignore_unknown_json_options = default_parse_options\<lparr>ignore_unknown_fields := True\<rparr> in
    tryIn (setup_ignore_unknown L ignore_unknown_json ignore_unknown_json_options) (\<lambda>_.
    let open_enum_json = ''{"kind":123}'' in
    orAbort (JsonStringToMessage L default_parse_options open_enum_json (ScalarMix default_scalar_mix)) (\<lambda>parsed.
    let decoded = the_scalar_mix parsed in
    tryIn (abortIf (kind decoded \<noteq> 123)) (\<lambda>_.
    let enum_name_json = ''{"kind":"BENCH_KIND_BETA"}'' in
    orAbort (JsonStringToMessage L default_parse_options enum_name_json (ScalarMix default_scalar_mix)) (\<lambda>parsed.
    let decoded = the_scalar_mix parsed in
    tryIn (abortIf (kind decoded \<noteq> BENCH_KIND_BETA)) (\<lambda>_.
    let proto_name_json = ''{"big_delta":-321,"signed_fixed":-123,"signed_big_fixed":-456}'' in
    orAbort (JsonStringToMessage L default_parse_options proto_name_json (ScalarMix default_scalar_mix)) (\<lambda>parsed.
    let decoded = the_scalar_mix parsed in
    tryIn (abortIf (big_delta decoded \<noteq> - 321 \<or> signed_fixed decoded \<noteq> - 123 \<or> signed_big_fixed decoded \<noteq> - 456)) (\<lambda>_.
    let int_exponent_json =
      ''{"count":1.2345e4,"total":9.87654321e9,"delta":-3.21e2,"bigDelta":-9.876543e6,"checksum":3.21e2,"token":4.096e3,"signedFixed":-1.23456e5,"signedBigFixed":-9.876543e6,"ids":[1e0,1.27e2,1.28e2]}'' in
    tryIn (check_numbers L int_exponent_json) (\<lambda>_.
    let string_number_json =
      ''{"count":"12345","total":"9876543210","delta":"-321","bigDelta":"-9876543","checksum":"321","token":"4096","signedFixed":"-123456","signedBigFixed":"-9876543","ids":["1","127","128"]}'' in
    tryIn (check_numbers L string_number_json) (\<lambda>_.
    return \<lparr>presencemix_json = presencemix_json, map_key_surrogate_json = map_key_surrogate_json,
      null_fields_json = null_fields_json, ignore_unknown_json = ignore_unknown_json,
      ignore_unknown_json_options = ignore_unknown_json_options, open_enum_json = open_enum_json,
      enum_name_json = enum_name_json, proto_name_json = proto_name_json, int_exponent_json = int_exponent_json,
      string_number_json = string_number_json\<rparr>)))))))))))\<close>

section \<open>Encodings of the demo messages\<close>

record encoding_locals =
  person_text :: string
  scalarmix_bytes :: string
  textbytes_bytes :: string
  textbytes_json :: string
  largebytes_bytes :: string
  presencemix_bytes :: string
  complex_bytes :: string
  complex_json :: string
  complex_proto_name_json :: string
  complex_text :: string

text \<open>The loops that compare two repeated fields of the same size element by element.\<close>

definition some_element_differs :: "'a list \<Rightarrow> 'a list \<Rightarrow> bool" where
  "some_element_differs decoded expected = list_ex (\<lambda>i. decoded ! i \<noteq> expected ! i) [0..<length expected]"

definition setup_textbytes :: \<open>protobuf \<Rightarrow> core_locals \<Rightarrow> string prog\<close> where
  \<open>setup_textbytes L c =
    orAbort (MessageToJsonString L default_print_options (TextBytes (textbytes c))) (\<lambda>textbytes_json.
    tryIn (abortIf
      (\<not> contains textbytes_json ''"title":"ASCII title for protobuf"'' \<or>
       \<not> contains textbytes_json ''"payload":"MDEyMzQ1Njc4OWFiY2RlZjAxMjM0NTY3ODlhYmNkZWY="'' \<or>
       \<not> contains textbytes_json ''"tags":["alpha","beta","gamma","delta"]'' \<or>
       \<not> contains textbytes_json ''"chunks":["Y2h1bmstb25l","Y2h1bmstdHdv","Y2h1bmstdGhyZWU=","Y2h1bmstZm91cg=="]'')) (\<lambda>_.
    orAbort (JsonStringToMessage L default_parse_options textbytes_json (TextBytes default_text_bytes)) (\<lambda>parsed.
    let decoded = the_text_bytes parsed; expected = textbytes c in
    tryIn (abortIf
      (title decoded \<noteq> title expected \<or> text_payload decoded \<noteq> text_payload expected \<or>
       length (tags decoded) \<noteq> length (tags expected) \<or>
       length (text_chunks decoded) \<noteq> length (text_chunks expected))) (\<lambda>_.
    tryIn (abortIf (some_element_differs (tags decoded) (tags expected))) (\<lambda>_.
    tryIn (abortIf (some_element_differs (text_chunks decoded) (text_chunks expected))) (\<lambda>_.
    return textbytes_json))))))\<close>

definition setup_complex :: \<open>protobuf \<Rightarrow> core_locals \<Rightarrow> option_locals \<Rightarrow> string prog\<close> where
  \<open>setup_complex L c opts =
    orAbort (MessageToJsonString L (proto_name_json_options opts) (Complex (complex_message c))) (\<lambda>complex_proto_name_json.
    tryIn (abortIf
      (\<not> contains complex_proto_name_json ''"audit_subject"'' \<or>
       \<not> contains complex_proto_name_json ''"at_unix"'' \<or>
       contains complex_proto_name_json ''"auditSubject"'' \<or>
       contains complex_proto_name_json ''"atUnix"'')) (\<lambda>_.
    orAbort (JsonStringToMessage L default_parse_options complex_proto_name_json (Complex default_complex)) (\<lambda>parsed.
    let decoded = the_complex parsed in
    tryIn (abortIf
      (\<not> has_audit_subject (subject decoded) \<or> actor (audit_subject_of (subject decoded)) \<noteq> ''subject'' \<or>
       at_unix (audit_subject_of (subject decoded)) \<noteq> 777 \<or> complex_audit decoded = None \<or>
       at_unix (value_or default_audit (complex_audit decoded)) \<noteq> 12345 \<or> length (audits decoded) \<noteq> 2 \<or>
       differs (map_of (audits decoded) ''latest'') (\<lambda>a. at_unix a = 67890))) (\<lambda>_.
    return complex_proto_name_json))))\<close>

definition setup_encodings :: \<open>protobuf \<Rightarrow> core_locals \<Rightarrow> option_locals \<Rightarrow> encoding_locals prog\<close> where
  \<open>setup_encodings L c opts =
    orAbort (PrintToString L (Person (person c))) (\<lambda>person_text.
    let scalarmix_bytes = SerializeToString L (ScalarMix (scalarmix c)) in
    let textbytes_bytes = SerializeToString L (TextBytes (textbytes c)) in
    tryIn (setup_textbytes L c) (\<lambda>textbytes_json.
    let largebytes_bytes = SerializeToString L (LargeBytes (largebytes c)) in
    let presencemix_bytes = SerializeToString L (PresenceMix (presencemix c)) in
    let complex_bytes = SerializeToString L (Complex (complex_message c)) in
    orAbort (MessageToJsonString L default_print_options (Complex (complex_message c))) (\<lambda>complex_json.
    tryIn (setup_complex L c opts) (\<lambda>complex_proto_name_json.
    orAbort (PrintToString L (Complex (complex_message c))) (\<lambda>complex_text.
    return \<lparr>person_text = person_text, scalarmix_bytes = scalarmix_bytes, textbytes_bytes = textbytes_bytes,
      textbytes_json = textbytes_json, largebytes_bytes = largebytes_bytes, presencemix_bytes = presencemix_bytes,
      complex_bytes = complex_bytes, complex_json = complex_json, complex_proto_name_json = complex_proto_name_json,
      complex_text = complex_text\<rparr>)))))\<close>

end
