(* ===== verification/Cpp_Setup_Wkt.thy ===== *)
theory Cpp_Setup_Wkt
  imports Cpp_Setup_Demo
begin

text \<open>
  The second part of \<open>main\<close> in \<open>bench/cpp_protobuf/main.cc\<close>, lines 671 to 1352: the
  well-known types with their JSON texts, and the packed messages. Each part yields the
  record of its locals; \<open>main_setup\<close> is all of it in the order of the code.
\<close>

section \<open>Values inside a map or at the end of a list\<close>

definition add_list_value :: "string \<Rightarrow> wkt_value \<Rightarrow> wkt_struct \<Rightarrow> wkt_struct" where
  "add_list_value key v s = (case map_of s key of
       Some (ListKind vs) \<Rightarrow> AList.update key (ListKind (vs @ [v])) s
     | _ \<Rightarrow> s)"

definition set_struct_field :: "string \<Rightarrow> string \<Rightarrow> wkt_value \<Rightarrow> wkt_struct \<Rightarrow> wkt_struct" where
  "set_struct_field key field v s = (case map_of s key of
       Some (StructKind fs) \<Rightarrow> AList.update key (StructKind (AList.update field v fs)) s
     | _ \<Rightarrow> s)"

definition set_last_field :: "string \<Rightarrow> wkt_value \<Rightarrow> wkt_value list \<Rightarrow> wkt_value list" where
  "set_last_field field v vs = (case last vs of
       StructKind fs \<Rightarrow> butlast vs @ [StructKind (AList.update field v fs)]
     | _ \<Rightarrow> vs)"

section \<open>Well-known types\<close>

text \<open>Durations, and the same wrapped in an \<open>Any\<close>.\<close>

record duration_locals =
  any_wkt_duration :: seconds_nanos
  any_wkt :: message
  any_wkt_json :: string
  duration_json :: string
  duration_escape_json :: string
  any_duration_escape_wkt_json :: string
  plus_duration_json :: string
  any_plus_duration_wkt_json :: string
  short_fraction_duration_json :: string
  any_short_fraction_duration_wkt_json :: string
  micro_duration :: seconds_nanos
  micro_duration_json :: string
  any_micro_duration_wkt :: message
  any_micro_duration_wkt_json :: string
  nano_duration :: seconds_nanos
  nano_duration_json :: string
  any_nano_duration_wkt :: message
  any_nano_duration_wkt_json :: string
  negative_duration :: seconds_nanos
  any_negative_duration_wkt :: message
  any_negative_duration_wkt_json :: string
  negative_duration_json :: string
  fractional_negative_duration :: seconds_nanos
  any_fractional_negative_duration_wkt :: message
  any_fractional_negative_duration_wkt_json :: string
  fractional_negative_duration_json :: string
  max_duration :: seconds_nanos
  any_max_duration_wkt :: message
  any_max_duration_wkt_json :: string
  max_duration_json :: string
  min_duration :: seconds_nanos
  any_min_duration_wkt :: message
  any_min_duration_wkt_json :: string
  min_duration_json :: string
  zero_duration :: seconds_nanos
  any_zero_duration_wkt :: message
  any_zero_duration_wkt_json :: string
  zero_duration_json :: string

definition setup_durations :: \<open>protobuf \<Rightarrow> duration_locals prog\<close> where
  \<open>setup_durations L =
    (let any_wkt_duration = zero_time in
     let any_wkt_duration = any_wkt_duration\<lparr>secs := 1\<rparr> in
     let any_wkt_duration = any_wkt_duration\<lparr>nanos := 500000000\<rparr> in
     let any_wkt = Any \<lparr>type_url = [], any_value = []\<rparr> in
     let any_wkt = PackFrom L (Duration any_wkt_duration) in
     orAbort (MessageToJsonString L default_print_options any_wkt) (\<lambda>any_wkt_json.
     orAbort (MessageToJsonString L default_print_options (Duration any_wkt_duration)) (\<lambda>duration_json.
     let duration_escape_json = ''"1'' @ [CHR 0x5C] @ ''u002e500s"'' in
     let any_duration_escape_wkt_json = ''{"@type":"type.googleapis.com/google.protobuf.Duration","value":"1'' @ [CHR 0x5C] @ ''u002e500s"}'' in
     let plus_duration_json = ''"+1.500s"'' in
     let any_plus_duration_wkt_json = ''{"@type":"type.googleapis.com/google.protobuf.Duration","value":"+1.500s"}'' in
     let short_fraction_duration_json = ''"1.5s"'' in
     let any_short_fraction_duration_wkt_json = ''{"@type":"type.googleapis.com/google.protobuf.Duration","value":"1.5s"}'' in
     let micro_duration = zero_time in
     let micro_duration = micro_duration\<lparr>secs := 1\<rparr> in
     let micro_duration = micro_duration\<lparr>nanos := 120000\<rparr> in
     tryIn (JsonStringFor L (Duration micro_duration)) (\<lambda>micro_duration_json.
     let any_micro_duration_wkt = Any \<lparr>type_url = [], any_value = []\<rparr> in
     let any_micro_duration_wkt = PackFrom L (Duration micro_duration) in
     tryIn (JsonStringFor L any_micro_duration_wkt) (\<lambda>any_micro_duration_wkt_json.
     let nano_duration = zero_time in
     let nano_duration = nano_duration\<lparr>secs := 1\<rparr> in
     let nano_duration = nano_duration\<lparr>nanos := 123456789\<rparr> in
     tryIn (JsonStringFor L (Duration nano_duration)) (\<lambda>nano_duration_json.
     let any_nano_duration_wkt = Any \<lparr>type_url = [], any_value = []\<rparr> in
     let any_nano_duration_wkt = PackFrom L (Duration nano_duration) in
     tryIn (JsonStringFor L any_nano_duration_wkt) (\<lambda>any_nano_duration_wkt_json.
     let negative_duration = zero_time in
     let negative_duration = negative_duration\<lparr>secs := - 1\<rparr> in
     let negative_duration = negative_duration\<lparr>nanos := - 500000000\<rparr> in
     let any_negative_duration_wkt = Any \<lparr>type_url = [], any_value = []\<rparr> in
     let any_negative_duration_wkt = PackFrom L (Duration negative_duration) in
     tryIn (JsonStringFor L any_negative_duration_wkt) (\<lambda>any_negative_duration_wkt_json.
     tryIn (JsonStringFor L (Duration negative_duration)) (\<lambda>negative_duration_json.
     let fractional_negative_duration = zero_time in
     let fractional_negative_duration = fractional_negative_duration\<lparr>nanos := - 250000000\<rparr> in
     let any_fractional_negative_duration_wkt = Any \<lparr>type_url = [], any_value = []\<rparr> in
     let any_fractional_negative_duration_wkt = PackFrom L (Duration fractional_negative_duration) in
     tryIn (JsonStringFor L any_fractional_negative_duration_wkt) (\<lambda>any_fractional_negative_duration_wkt_json.
     tryIn (JsonStringFor L (Duration fractional_negative_duration)) (\<lambda>fractional_negative_duration_json.
     let max_duration = zero_time in
     let max_duration = max_duration\<lparr>secs := 315576000000\<rparr> in
     let any_max_duration_wkt = Any \<lparr>type_url = [], any_value = []\<rparr> in
     let any_max_duration_wkt = PackFrom L (Duration max_duration) in
     tryIn (JsonStringFor L any_max_duration_wkt) (\<lambda>any_max_duration_wkt_json.
     tryIn (JsonStringFor L (Duration max_duration)) (\<lambda>max_duration_json.
     let min_duration = zero_time in
     let min_duration = min_duration\<lparr>secs := - 315576000000\<rparr> in
     let any_min_duration_wkt = Any \<lparr>type_url = [], any_value = []\<rparr> in
     let any_min_duration_wkt = PackFrom L (Duration min_duration) in
     tryIn (JsonStringFor L any_min_duration_wkt) (\<lambda>any_min_duration_wkt_json.
     tryIn (JsonStringFor L (Duration min_duration)) (\<lambda>min_duration_json.
     let zero_duration = zero_time in
     let any_zero_duration_wkt = Any \<lparr>type_url = [], any_value = []\<rparr> in
     let any_zero_duration_wkt = PackFrom L (Duration zero_duration) in
     tryIn (JsonStringFor L any_zero_duration_wkt) (\<lambda>any_zero_duration_wkt_json.
     tryIn (JsonStringFor L (Duration zero_duration)) (\<lambda>zero_duration_json.
     return \<lparr>any_wkt_duration = any_wkt_duration, any_wkt = any_wkt, any_wkt_json = any_wkt_json,
       duration_json = duration_json, duration_escape_json = duration_escape_json,
       any_duration_escape_wkt_json = any_duration_escape_wkt_json,
       plus_duration_json = plus_duration_json,
       any_plus_duration_wkt_json = any_plus_duration_wkt_json,
       short_fraction_duration_json = short_fraction_duration_json,
       any_short_fraction_duration_wkt_json = any_short_fraction_duration_wkt_json,
       micro_duration = micro_duration, micro_duration_json = micro_duration_json,
       any_micro_duration_wkt = any_micro_duration_wkt,
       any_micro_duration_wkt_json = any_micro_duration_wkt_json, nano_duration = nano_duration,
       nano_duration_json = nano_duration_json, any_nano_duration_wkt = any_nano_duration_wkt,
       any_nano_duration_wkt_json = any_nano_duration_wkt_json, negative_duration = negative_duration,
       any_negative_duration_wkt = any_negative_duration_wkt,
       any_negative_duration_wkt_json = any_negative_duration_wkt_json,
       negative_duration_json = negative_duration_json,
       fractional_negative_duration = fractional_negative_duration,
       any_fractional_negative_duration_wkt = any_fractional_negative_duration_wkt,
       any_fractional_negative_duration_wkt_json = any_fractional_negative_duration_wkt_json,
       fractional_negative_duration_json = fractional_negative_duration_json,
       max_duration = max_duration, any_max_duration_wkt = any_max_duration_wkt,
       any_max_duration_wkt_json = any_max_duration_wkt_json, max_duration_json = max_duration_json,
       min_duration = min_duration, any_min_duration_wkt = any_min_duration_wkt,
       any_min_duration_wkt_json = any_min_duration_wkt_json, min_duration_json = min_duration_json,
       zero_duration = zero_duration, any_zero_duration_wkt = any_zero_duration_wkt,
       any_zero_duration_wkt_json = any_zero_duration_wkt_json, zero_duration_json = zero_duration_json\<rparr>)))))))))))))))))\<close>

text \<open>Field masks. The call of line 767 discards its result.\<close>

record mask_locals =
  field_mask :: "string list"
  field_mask_json :: string
  any_field_mask_wkt :: message
  any_field_mask_wkt_json :: string
  field_mask_escape_json :: string
  any_field_mask_escape_wkt_json :: string
  empty_field_mask :: "string list"
  empty_field_mask_json :: string
  any_empty_field_mask_wkt :: message
  any_empty_field_mask_wkt_json :: string

definition setup_masks :: \<open>protobuf \<Rightarrow> mask_locals prog\<close> where
  \<open>setup_masks L =
    (let field_mask = ([] :: string list) in
     let field_mask = field_mask @ [''foo_bar''] in
     let field_mask = field_mask @ [''nested.value''] in
     orAbort (MessageToJsonString L default_print_options (FieldMask field_mask)) (\<lambda>field_mask_json.
     let any_field_mask_wkt = Any \<lparr>type_url = [], any_value = []\<rparr> in
     let any_field_mask_wkt = PackFrom L (FieldMask field_mask) in
     tryIn (JsonStringFor L any_field_mask_wkt) (\<lambda>any_field_mask_wkt_json.
     let field_mask_escape_json = ''"fooBar,'' @ [CHR 0x5C] @ ''u006eested.value"'' in
     let any_field_mask_escape_wkt_json = ''{"@type":"type.googleapis.com/google.protobuf.FieldMask","value":"fooBar,'' @ [CHR 0x5C] @ ''u006eested.value"}'' in
     let empty_field_mask = ([] :: string list) in
     tryIn (JsonStringFor L (FieldMask empty_field_mask)) (\<lambda>empty_field_mask_json.
     let any_empty_field_mask_wkt = Any \<lparr>type_url = [], any_value = []\<rparr> in
     let any_empty_field_mask_wkt = PackFrom L (FieldMask empty_field_mask) in
     tryIn (JsonStringFor L any_empty_field_mask_wkt) (\<lambda>any_empty_field_mask_wkt_json.
     tryIn (JsonStringFor L any_field_mask_wkt) (\<lambda>_.
     return \<lparr>field_mask = field_mask, field_mask_json = field_mask_json,
       any_field_mask_wkt = any_field_mask_wkt, any_field_mask_wkt_json = any_field_mask_wkt_json,
       field_mask_escape_json = field_mask_escape_json,
       any_field_mask_escape_wkt_json = any_field_mask_escape_wkt_json,
       empty_field_mask = empty_field_mask, empty_field_mask_json = empty_field_mask_json,
       any_empty_field_mask_wkt = any_empty_field_mask_wkt,
       any_empty_field_mask_wkt_json = any_empty_field_mask_wkt_json\<rparr>))))))\<close>

text \<open>Timestamps.\<close>

record timestamp_locals =
  timestamp :: seconds_nanos
  timestamp_json :: string
  any_timestamp_wkt :: message
  any_timestamp_wkt_json :: string
  timestamp_escape_json :: string
  any_timestamp_escape_wkt_json :: string
  short_fraction_timestamp_json :: string
  any_short_fraction_timestamp_wkt_json :: string
  micro_timestamp :: seconds_nanos
  micro_timestamp_json :: string
  any_micro_timestamp_wkt :: message
  any_micro_timestamp_wkt_json :: string
  nano_timestamp :: seconds_nanos
  nano_timestamp_json :: string
  any_nano_timestamp_wkt :: message
  any_nano_timestamp_wkt_json :: string
  offset_timestamp_json :: string
  any_offset_timestamp_wkt_json :: string
  pre_epoch_timestamp :: seconds_nanos
  pre_epoch_timestamp_json :: string
  any_pre_epoch_timestamp_wkt :: message
  any_pre_epoch_timestamp_wkt_json :: string
  max_timestamp :: seconds_nanos
  max_timestamp_json :: string
  any_max_timestamp_wkt :: message
  any_max_timestamp_wkt_json :: string
  min_timestamp :: seconds_nanos
  min_timestamp_json :: string
  any_min_timestamp_wkt :: message
  any_min_timestamp_wkt_json :: string

definition setup_timestamps :: \<open>protobuf \<Rightarrow> timestamp_locals prog\<close> where
  \<open>setup_timestamps L =
    (let timestamp = zero_time in
     let timestamp = timestamp\<lparr>secs := 1577836800\<rparr> in
     let timestamp = timestamp\<lparr>nanos := 123000000\<rparr> in
     orAbort (MessageToJsonString L default_print_options (Timestamp timestamp)) (\<lambda>timestamp_json.
     let any_timestamp_wkt = Any \<lparr>type_url = [], any_value = []\<rparr> in
     let any_timestamp_wkt = PackFrom L (Timestamp timestamp) in
     tryIn (JsonStringFor L any_timestamp_wkt) (\<lambda>any_timestamp_wkt_json.
     let timestamp_escape_json = ''"2020-01-01T00:00:00'' @ [CHR 0x5C] @ ''u002e123Z"'' in
     let any_timestamp_escape_wkt_json = ''{"@type":"type.googleapis.com/google.protobuf.Timestamp","value":"2020-01-01T00:00:00'' @ [CHR 0x5C] @ ''u002e123Z"}'' in
     let short_fraction_timestamp_json = ''"2020-01-01T00:00:00.1Z"'' in
     let any_short_fraction_timestamp_wkt_json = ''{"@type":"type.googleapis.com/google.protobuf.Timestamp","value":"2020-01-01T00:00:00.1Z"}'' in
     let micro_timestamp = zero_time in
     let micro_timestamp = micro_timestamp\<lparr>secs := 1577836800\<rparr> in
     let micro_timestamp = micro_timestamp\<lparr>nanos := 123456000\<rparr> in
     tryIn (JsonStringFor L (Timestamp micro_timestamp)) (\<lambda>micro_timestamp_json.
     let any_micro_timestamp_wkt = Any \<lparr>type_url = [], any_value = []\<rparr> in
     let any_micro_timestamp_wkt = PackFrom L (Timestamp micro_timestamp) in
     tryIn (JsonStringFor L any_micro_timestamp_wkt) (\<lambda>any_micro_timestamp_wkt_json.
     let nano_timestamp = zero_time in
     let nano_timestamp = nano_timestamp\<lparr>secs := 1577836800\<rparr> in
     let nano_timestamp = nano_timestamp\<lparr>nanos := 123456789\<rparr> in
     tryIn (JsonStringFor L (Timestamp nano_timestamp)) (\<lambda>nano_timestamp_json.
     let any_nano_timestamp_wkt = Any \<lparr>type_url = [], any_value = []\<rparr> in
     let any_nano_timestamp_wkt = PackFrom L (Timestamp nano_timestamp) in
     tryIn (JsonStringFor L any_nano_timestamp_wkt) (\<lambda>any_nano_timestamp_wkt_json.
     let offset_timestamp_json = ''"2020-01-01T03:00:00.123456+03:00"'' in
     let any_offset_timestamp_wkt_json = ''{"@type":"type.googleapis.com/google.protobuf.Timestamp","value":"2020-01-01T03:00:00.123456+03:00"}'' in
     let pre_epoch_timestamp = zero_time in
     let pre_epoch_timestamp = pre_epoch_timestamp\<lparr>secs := - 1\<rparr> in
     tryIn (JsonStringFor L (Timestamp pre_epoch_timestamp)) (\<lambda>pre_epoch_timestamp_json.
     let any_pre_epoch_timestamp_wkt = Any \<lparr>type_url = [], any_value = []\<rparr> in
     let any_pre_epoch_timestamp_wkt = PackFrom L (Timestamp pre_epoch_timestamp) in
     tryIn (JsonStringFor L any_pre_epoch_timestamp_wkt) (\<lambda>any_pre_epoch_timestamp_wkt_json.
     let max_timestamp = zero_time in
     let max_timestamp = max_timestamp\<lparr>secs := 253402300799\<rparr> in
     let max_timestamp = max_timestamp\<lparr>nanos := 999999999\<rparr> in
     tryIn (JsonStringFor L (Timestamp max_timestamp)) (\<lambda>max_timestamp_json.
     let any_max_timestamp_wkt = Any \<lparr>type_url = [], any_value = []\<rparr> in
     let any_max_timestamp_wkt = PackFrom L (Timestamp max_timestamp) in
     tryIn (JsonStringFor L any_max_timestamp_wkt) (\<lambda>any_max_timestamp_wkt_json.
     let min_timestamp = zero_time in
     let min_timestamp = min_timestamp\<lparr>secs := - 62135596800\<rparr> in
     tryIn (JsonStringFor L (Timestamp min_timestamp)) (\<lambda>min_timestamp_json.
     let any_min_timestamp_wkt = Any \<lparr>type_url = [], any_value = []\<rparr> in
     let any_min_timestamp_wkt = PackFrom L (Timestamp min_timestamp) in
     tryIn (JsonStringFor L any_min_timestamp_wkt) (\<lambda>any_min_timestamp_wkt_json.
     return \<lparr>timestamp = timestamp, timestamp_json = timestamp_json, any_timestamp_wkt = any_timestamp_wkt,
       any_timestamp_wkt_json = any_timestamp_wkt_json, timestamp_escape_json = timestamp_escape_json,
       any_timestamp_escape_wkt_json = any_timestamp_escape_wkt_json,
       short_fraction_timestamp_json = short_fraction_timestamp_json,
       any_short_fraction_timestamp_wkt_json = any_short_fraction_timestamp_wkt_json,
       micro_timestamp = micro_timestamp, micro_timestamp_json = micro_timestamp_json,
       any_micro_timestamp_wkt = any_micro_timestamp_wkt,
       any_micro_timestamp_wkt_json = any_micro_timestamp_wkt_json, nano_timestamp = nano_timestamp,
       nano_timestamp_json = nano_timestamp_json, any_nano_timestamp_wkt = any_nano_timestamp_wkt,
       any_nano_timestamp_wkt_json = any_nano_timestamp_wkt_json,
       offset_timestamp_json = offset_timestamp_json,
       any_offset_timestamp_wkt_json = any_offset_timestamp_wkt_json,
       pre_epoch_timestamp = pre_epoch_timestamp, pre_epoch_timestamp_json = pre_epoch_timestamp_json,
       any_pre_epoch_timestamp_wkt = any_pre_epoch_timestamp_wkt,
       any_pre_epoch_timestamp_wkt_json = any_pre_epoch_timestamp_wkt_json,
       max_timestamp = max_timestamp, max_timestamp_json = max_timestamp_json,
       any_max_timestamp_wkt = any_max_timestamp_wkt,
       any_max_timestamp_wkt_json = any_max_timestamp_wkt_json, min_timestamp = min_timestamp,
       min_timestamp_json = min_timestamp_json, any_min_timestamp_wkt = any_min_timestamp_wkt,
       any_min_timestamp_wkt_json = any_min_timestamp_wkt_json\<rparr>)))))))))))))\<close>

text \<open>The empty message and the structs.\<close>

record struct_locals =
  empty_value :: message
  empty_json :: string
  any_empty_wkt :: message
  any_empty_wkt_json :: string
  struct_value :: wkt_struct
  struct_json :: string
  struct_escape_json :: string
  struct_number_exponent_json :: string
  struct_surrogate_json :: string
  struct_key_surrogate_json :: string
  any_struct_wkt :: message
  any_struct_wkt_json :: string
  any_struct_escape_wkt_json :: string
  any_struct_number_exponent_wkt_json :: string
  any_struct_surrogate_wkt_json :: string
  any_struct_key_surrogate_wkt_json :: string
  empty_struct_value :: wkt_struct
  empty_struct_json :: string
  any_empty_struct_wkt :: message
  any_empty_struct_wkt_json :: string

definition setup_structs :: \<open>protobuf \<Rightarrow> struct_locals prog\<close> where
  \<open>setup_structs L =
    (let empty_value = Empty in
     tryIn (JsonStringFor L empty_value) (\<lambda>empty_json.
     let any_empty_wkt = Any \<lparr>type_url = [], any_value = []\<rparr> in
     let any_empty_wkt = PackFrom L empty_value in
     tryIn (JsonStringFor L any_empty_wkt) (\<lambda>any_empty_wkt_json.
     let struct_value = ([] :: wkt_struct) in
     let struct_value = AList.update ''enabled'' (BoolKind True) struct_value in
     let struct_value = AList.update ''items'' (ListKind []) struct_value in
     let struct_value = add_list_value ''items'' NullValue struct_value in
     let struct_value = add_list_value ''items'' (StringKind ''zig'') struct_value in
     let struct_value = AList.update ''meta'' (StructKind []) struct_value in
     let struct_value = set_struct_field ''meta'' ''score'' (NumberValue (Finite (3 / 2))) struct_value in
     tryIn (JsonStringFor L (Struct struct_value)) (\<lambda>struct_json.
     let struct_escape_json = ''{"'' @ [CHR 0x5C] @ ''u0065nabled":true,"items":[null,"'' @ [CHR 0x5C] @ ''u007aig"],"meta":{"score":1.5}}'' in
     let struct_number_exponent_json = ''{"enabled":true,"items":[null,"zig"],"meta":{"score":1.5e0}}'' in
     let struct_surrogate_json = ''{"emoji":"'' @ [CHR 0x5C] @ ''ud83d'' @ [CHR 0x5C] @ ''ude00"}'' in
     let struct_key_surrogate_json = ''{"'' @ [CHR 0x5C] @ ''ud83d'' @ [CHR 0x5C] @ ''ude00":"ok"}'' in
     let any_struct_wkt = Any \<lparr>type_url = [], any_value = []\<rparr> in
     let any_struct_wkt = PackFrom L (Struct struct_value) in
     tryIn (JsonStringFor L any_struct_wkt) (\<lambda>any_struct_wkt_json.
     let any_struct_escape_wkt_json = ''{"@type":"type.googleapis.com/google.protobuf.Struct","value":{"'' @ [CHR 0x5C] @ ''u0065nabled":true,"items":[null,"'' @ [CHR 0x5C] @ ''u007aig"],"meta":{"score":1.5}}}'' in
     let any_struct_number_exponent_wkt_json = ''{"@type":"type.googleapis.com/google.protobuf.Struct","value":{"enabled":true,"items":[null,"zig"],"meta":{"score":1.5e0}}}'' in
     let any_struct_surrogate_wkt_json = ''{"@type":"type.googleapis.com/google.protobuf.Struct","value":{"emoji":"'' @ [CHR 0x5C] @ ''ud83d'' @ [CHR 0x5C] @ ''ude00"}}'' in
     let any_struct_key_surrogate_wkt_json = ''{"@type":"type.googleapis.com/google.protobuf.Struct","value":{"'' @ [CHR 0x5C] @ ''ud83d'' @ [CHR 0x5C] @ ''ude00":"ok"}}'' in
     let empty_struct_value = ([] :: wkt_struct) in
     tryIn (JsonStringFor L (Struct empty_struct_value)) (\<lambda>empty_struct_json.
     let any_empty_struct_wkt = Any \<lparr>type_url = [], any_value = []\<rparr> in
     let any_empty_struct_wkt = PackFrom L (Struct empty_struct_value) in
     tryIn (JsonStringFor L any_empty_struct_wkt) (\<lambda>any_empty_struct_wkt_json.
     return \<lparr>empty_value = empty_value, empty_json = empty_json, any_empty_wkt = any_empty_wkt,
       any_empty_wkt_json = any_empty_wkt_json, struct_value = struct_value,
       struct_json = struct_json, struct_escape_json = struct_escape_json,
       struct_number_exponent_json = struct_number_exponent_json,
       struct_surrogate_json = struct_surrogate_json,
       struct_key_surrogate_json = struct_key_surrogate_json, any_struct_wkt = any_struct_wkt,
       any_struct_wkt_json = any_struct_wkt_json,
       any_struct_escape_wkt_json = any_struct_escape_wkt_json,
       any_struct_number_exponent_wkt_json = any_struct_number_exponent_wkt_json,
       any_struct_surrogate_wkt_json = any_struct_surrogate_wkt_json,
       any_struct_key_surrogate_wkt_json = any_struct_key_surrogate_wkt_json,
       empty_struct_value = empty_struct_value, empty_struct_json = empty_struct_json,
       any_empty_struct_wkt = any_empty_struct_wkt,
       any_empty_struct_wkt_json = any_empty_struct_wkt_json\<rparr>)))))))\<close>

text \<open>Values that hold a struct, a null, a string, a number or a boolean.\<close>

record value_locals =
  value_value :: wkt_value
  value_json :: string
  value_escape_json :: string
  value_number_exponent_json :: string
  value_surrogate_json :: string
  value_key_surrogate_json :: string
  any_value_wkt :: message
  any_value_wkt_json :: string
  any_value_escape_wkt_json :: string
  any_value_number_exponent_wkt_json :: string
  any_value_surrogate_wkt_json :: string
  any_value_key_surrogate_wkt_json :: string
  null_value_value :: wkt_value
  null_value_json :: string
  any_null_value_wkt :: message
  any_null_value_wkt_json :: string
  string_scalar_value :: wkt_value
  string_scalar_value_json :: string
  string_scalar_value_escape_json :: string
  string_scalar_value_surrogate_json :: string
  any_string_scalar_value_wkt :: message
  any_string_scalar_value_wkt_json :: string
  any_string_scalar_value_escape_wkt_json :: string
  any_string_scalar_value_surrogate_wkt_json :: string
  empty_string_scalar_value :: wkt_value
  empty_string_scalar_value_json :: string
  any_empty_string_scalar_value_wkt :: message
  any_empty_string_scalar_value_wkt_json :: string
  number_value :: wkt_value
  number_value_json :: string
  number_value_exponent_json :: string
  any_number_value_wkt :: message
  any_number_value_wkt_json :: string
  any_number_value_exponent_wkt_json :: string
  negative_number_value :: wkt_value
  negative_number_value_json :: string
  any_negative_number_value_wkt :: message
  any_negative_number_value_wkt_json :: string
  zero_number_value :: wkt_value
  zero_number_value_json :: string
  any_zero_number_value_wkt :: message
  any_zero_number_value_wkt_json :: string
  bool_scalar_value :: wkt_value
  bool_scalar_value_json :: string
  any_bool_scalar_value_wkt :: message
  any_bool_scalar_value_wkt_json :: string
  false_bool_scalar_value :: wkt_value
  false_bool_scalar_value_json :: string
  any_false_bool_scalar_value_wkt :: message
  any_false_bool_scalar_value_wkt_json :: string

definition setup_values :: \<open>protobuf \<Rightarrow> struct_locals \<Rightarrow> value_locals prog\<close> where
  \<open>setup_values L st =
    (let value_value = KindNotSet in
     let value_value = StructKind (struct_value st) in
     tryIn (JsonStringFor L (Value value_value)) (\<lambda>value_json.
     let value_escape_json = (struct_escape_json st) in
     let value_number_exponent_json = (struct_number_exponent_json st) in
     let value_surrogate_json = (struct_surrogate_json st) in
     let value_key_surrogate_json = (struct_key_surrogate_json st) in
     let any_value_wkt = Any \<lparr>type_url = [], any_value = []\<rparr> in
     let any_value_wkt = PackFrom L (Value value_value) in
     tryIn (JsonStringFor L any_value_wkt) (\<lambda>any_value_wkt_json.
     let any_value_escape_wkt_json = ''{"@type":"type.googleapis.com/google.protobuf.Value","value":{"'' @ [CHR 0x5C] @ ''u0065nabled":true,"items":[null,"'' @ [CHR 0x5C] @ ''u007aig"],"meta":{"score":1.5}}}'' in
     let any_value_number_exponent_wkt_json = ''{"@type":"type.googleapis.com/google.protobuf.Value","value":{"enabled":true,"items":[null,"zig"],"meta":{"score":1.5e0}}}'' in
     let any_value_surrogate_wkt_json = ''{"@type":"type.googleapis.com/google.protobuf.Value","value":{"emoji":"'' @ [CHR 0x5C] @ ''ud83d'' @ [CHR 0x5C] @ ''ude00"}}'' in
     let any_value_key_surrogate_wkt_json = ''{"@type":"type.googleapis.com/google.protobuf.Value","value":{"'' @ [CHR 0x5C] @ ''ud83d'' @ [CHR 0x5C] @ ''ude00":"ok"}}'' in
     let null_value_value = KindNotSet in
     let null_value_value = NullValue in
     tryIn (JsonStringFor L (Value null_value_value)) (\<lambda>null_value_json.
     let any_null_value_wkt = Any \<lparr>type_url = [], any_value = []\<rparr> in
     let any_null_value_wkt = PackFrom L (Value null_value_value) in
     tryIn (JsonStringFor L any_null_value_wkt) (\<lambda>any_null_value_wkt_json.
     let string_scalar_value = KindNotSet in
     let string_scalar_value = StringKind (''zig'') in
     tryIn (JsonStringFor L (Value string_scalar_value)) (\<lambda>string_scalar_value_json.
     let string_scalar_value_escape_json = ''"'' @ [CHR 0x5C] @ ''u007aig"'' in
     let string_scalar_value_surrogate_json = ''"'' @ [CHR 0x5C] @ ''ud83d'' @ [CHR 0x5C] @ ''ude00"'' in
     let any_string_scalar_value_wkt = Any \<lparr>type_url = [], any_value = []\<rparr> in
     let any_string_scalar_value_wkt = PackFrom L (Value string_scalar_value) in
     tryIn (JsonStringFor L any_string_scalar_value_wkt) (\<lambda>any_string_scalar_value_wkt_json.
     let any_string_scalar_value_escape_wkt_json = ''{"@type":"type.googleapis.com/google.protobuf.Value","value":"'' @ [CHR 0x5C] @ ''u007aig"}'' in
     let any_string_scalar_value_surrogate_wkt_json = ''{"@type":"type.googleapis.com/google.protobuf.Value","value":"'' @ [CHR 0x5C] @ ''ud83d'' @ [CHR 0x5C] @ ''ude00"}'' in
     let empty_string_scalar_value = KindNotSet in
     let empty_string_scalar_value = StringKind ([]) in
     tryIn (JsonStringFor L (Value empty_string_scalar_value)) (\<lambda>empty_string_scalar_value_json.
     let any_empty_string_scalar_value_wkt = Any \<lparr>type_url = [], any_value = []\<rparr> in
     let any_empty_string_scalar_value_wkt = PackFrom L (Value empty_string_scalar_value) in
     tryIn (JsonStringFor L any_empty_string_scalar_value_wkt) (\<lambda>any_empty_string_scalar_value_wkt_json.
     let number_value = KindNotSet in
     let number_value = NumberValue (Finite ((3 / 2))) in
     tryIn (JsonStringFor L (Value number_value)) (\<lambda>number_value_json.
     let number_value_exponent_json = ''1.5e0'' in
     let any_number_value_wkt = Any \<lparr>type_url = [], any_value = []\<rparr> in
     let any_number_value_wkt = PackFrom L (Value number_value) in
     tryIn (JsonStringFor L any_number_value_wkt) (\<lambda>any_number_value_wkt_json.
     let any_number_value_exponent_wkt_json = ''{"@type":"type.googleapis.com/google.protobuf.Value","value":1.5e0}'' in
     let negative_number_value = KindNotSet in
     let negative_number_value = NumberValue (Finite (- (3 / 2))) in
     tryIn (JsonStringFor L (Value negative_number_value)) (\<lambda>negative_number_value_json.
     let any_negative_number_value_wkt = Any \<lparr>type_url = [], any_value = []\<rparr> in
     let any_negative_number_value_wkt = PackFrom L (Value negative_number_value) in
     tryIn (JsonStringFor L any_negative_number_value_wkt) (\<lambda>any_negative_number_value_wkt_json.
     let zero_number_value = KindNotSet in
     let zero_number_value = NumberValue (Finite (0)) in
     tryIn (JsonStringFor L (Value zero_number_value)) (\<lambda>zero_number_value_json.
     let any_zero_number_value_wkt = Any \<lparr>type_url = [], any_value = []\<rparr> in
     let any_zero_number_value_wkt = PackFrom L (Value zero_number_value) in
     tryIn (JsonStringFor L any_zero_number_value_wkt) (\<lambda>any_zero_number_value_wkt_json.
     let bool_scalar_value = KindNotSet in
     let bool_scalar_value = BoolKind (True) in
     tryIn (JsonStringFor L (Value bool_scalar_value)) (\<lambda>bool_scalar_value_json.
     let any_bool_scalar_value_wkt = Any \<lparr>type_url = [], any_value = []\<rparr> in
     let any_bool_scalar_value_wkt = PackFrom L (Value bool_scalar_value) in
     tryIn (JsonStringFor L any_bool_scalar_value_wkt) (\<lambda>any_bool_scalar_value_wkt_json.
     let false_bool_scalar_value = KindNotSet in
     let false_bool_scalar_value = BoolKind (False) in
     tryIn (JsonStringFor L (Value false_bool_scalar_value)) (\<lambda>false_bool_scalar_value_json.
     let any_false_bool_scalar_value_wkt = Any \<lparr>type_url = [], any_value = []\<rparr> in
     let any_false_bool_scalar_value_wkt = PackFrom L (Value false_bool_scalar_value) in
     tryIn (JsonStringFor L any_false_bool_scalar_value_wkt) (\<lambda>any_false_bool_scalar_value_wkt_json.
     return \<lparr>value_value = value_value, value_json = value_json, value_escape_json = value_escape_json,
       value_number_exponent_json = value_number_exponent_json,
       value_surrogate_json = value_surrogate_json,
       value_key_surrogate_json = value_key_surrogate_json, any_value_wkt = any_value_wkt,
       any_value_wkt_json = any_value_wkt_json, any_value_escape_wkt_json = any_value_escape_wkt_json,
       any_value_number_exponent_wkt_json = any_value_number_exponent_wkt_json,
       any_value_surrogate_wkt_json = any_value_surrogate_wkt_json,
       any_value_key_surrogate_wkt_json = any_value_key_surrogate_wkt_json,
       null_value_value = null_value_value, null_value_json = null_value_json,
       any_null_value_wkt = any_null_value_wkt, any_null_value_wkt_json = any_null_value_wkt_json,
       string_scalar_value = string_scalar_value, string_scalar_value_json = string_scalar_value_json,
       string_scalar_value_escape_json = string_scalar_value_escape_json,
       string_scalar_value_surrogate_json = string_scalar_value_surrogate_json,
       any_string_scalar_value_wkt = any_string_scalar_value_wkt,
       any_string_scalar_value_wkt_json = any_string_scalar_value_wkt_json,
       any_string_scalar_value_escape_wkt_json = any_string_scalar_value_escape_wkt_json,
       any_string_scalar_value_surrogate_wkt_json = any_string_scalar_value_surrogate_wkt_json,
       empty_string_scalar_value = empty_string_scalar_value,
       empty_string_scalar_value_json = empty_string_scalar_value_json,
       any_empty_string_scalar_value_wkt = any_empty_string_scalar_value_wkt,
       any_empty_string_scalar_value_wkt_json = any_empty_string_scalar_value_wkt_json,
       number_value = number_value, number_value_json = number_value_json,
       number_value_exponent_json = number_value_exponent_json,
       any_number_value_wkt = any_number_value_wkt,
       any_number_value_wkt_json = any_number_value_wkt_json,
       any_number_value_exponent_wkt_json = any_number_value_exponent_wkt_json,
       negative_number_value = negative_number_value,
       negative_number_value_json = negative_number_value_json,
       any_negative_number_value_wkt = any_negative_number_value_wkt,
       any_negative_number_value_wkt_json = any_negative_number_value_wkt_json,
       zero_number_value = zero_number_value, zero_number_value_json = zero_number_value_json,
       any_zero_number_value_wkt = any_zero_number_value_wkt,
       any_zero_number_value_wkt_json = any_zero_number_value_wkt_json,
       bool_scalar_value = bool_scalar_value, bool_scalar_value_json = bool_scalar_value_json,
       any_bool_scalar_value_wkt = any_bool_scalar_value_wkt,
       any_bool_scalar_value_wkt_json = any_bool_scalar_value_wkt_json,
       false_bool_scalar_value = false_bool_scalar_value,
       false_bool_scalar_value_json = false_bool_scalar_value_json,
       any_false_bool_scalar_value_wkt = any_false_bool_scalar_value_wkt,
       any_false_bool_scalar_value_wkt_json = any_false_bool_scalar_value_wkt_json\<rparr>)))))))))))))))))))\<close>

text \<open>List values.\<close>

record list_locals =
  list_value :: "wkt_value list"
  list_value_json :: string
  list_value_escape_json :: string
  list_value_surrogate_json :: string
  list_kind_value :: wkt_value
  list_kind_value_json :: string
  list_kind_value_escape_json :: string
  list_kind_value_surrogate_json :: string
  any_list_kind_value_wkt :: message
  any_list_kind_value_wkt_json :: string
  any_list_kind_value_escape_wkt_json :: string
  any_list_kind_value_surrogate_wkt_json :: string
  empty_struct_kind_value :: wkt_value
  empty_struct_kind_value_json :: string
  any_empty_struct_kind_value_wkt :: message
  any_empty_struct_kind_value_wkt_json :: string
  empty_list_value :: "wkt_value list"
  empty_list_value_json :: string
  empty_list_kind_value :: wkt_value
  empty_list_kind_value_json :: string
  any_empty_list_kind_value_wkt :: message
  any_empty_list_kind_value_wkt_json :: string

definition setup_lists :: \<open>protobuf \<Rightarrow> struct_locals \<Rightarrow> list_locals prog\<close> where
  \<open>setup_lists L st =
    (let list_value = ([] :: wkt_value list) in
     let list_value = list_value @ [NullValue] in
     let list_value = list_value @ [StringKind ''zig''] in
     let list_value = list_value @ [NumberValue (Finite (3 / 2))] in
     let list_value = list_value @ [BoolKind True] in
     let list_value = list_value @ [StructKind []] in
     let list_value = set_last_field ''nested'' (StringKind ''value'') list_value in
     tryIn (JsonStringFor L (ListValue list_value)) (\<lambda>list_value_json.
     let list_value_escape_json = ''[null,"'' @ [CHR 0x5C] @ ''u007aig",1.5,true,{"'' @ [CHR 0x5C] @ ''u006eested":"value"}]'' in
     let list_value_surrogate_json = ''["'' @ [CHR 0x5C] @ ''ud83d'' @ [CHR 0x5C] @ ''ude00"]'' in
     let list_kind_value = KindNotSet in
     let list_kind_value = ListKind list_value in
     tryIn (JsonStringFor L (Value list_kind_value)) (\<lambda>list_kind_value_json.
     let list_kind_value_escape_json = list_value_escape_json in
     let list_kind_value_surrogate_json = list_value_surrogate_json in
     let any_list_kind_value_wkt = Any \<lparr>type_url = [], any_value = []\<rparr> in
     let any_list_kind_value_wkt = PackFrom L (Value list_kind_value) in
     tryIn (JsonStringFor L any_list_kind_value_wkt) (\<lambda>any_list_kind_value_wkt_json.
     let any_list_kind_value_escape_wkt_json = ''{"@type":"type.googleapis.com/google.protobuf.Value","value":[null,"'' @ [CHR 0x5C] @ ''u007aig",1.5,true,{"'' @ [CHR 0x5C] @ ''u006eested":"value"}]}'' in
     let any_list_kind_value_surrogate_wkt_json = ''{"@type":"type.googleapis.com/google.protobuf.Value","value":["'' @ [CHR 0x5C] @ ''ud83d'' @ [CHR 0x5C] @ ''ude00"]}'' in
     let empty_struct_kind_value = KindNotSet in
     let empty_struct_kind_value = StructKind (empty_struct_value st) in
     tryIn (JsonStringFor L (Value empty_struct_kind_value)) (\<lambda>empty_struct_kind_value_json.
     let any_empty_struct_kind_value_wkt = Any \<lparr>type_url = [], any_value = []\<rparr> in
     let any_empty_struct_kind_value_wkt = PackFrom L (Value empty_struct_kind_value) in
     tryIn (JsonStringFor L any_empty_struct_kind_value_wkt) (\<lambda>any_empty_struct_kind_value_wkt_json.
     let empty_list_value = ([] :: wkt_value list) in
     tryIn (JsonStringFor L (ListValue empty_list_value)) (\<lambda>empty_list_value_json.
     let empty_list_kind_value = KindNotSet in
     let empty_list_kind_value = ListKind empty_list_value in
     tryIn (JsonStringFor L (Value empty_list_kind_value)) (\<lambda>empty_list_kind_value_json.
     let any_empty_list_kind_value_wkt = Any \<lparr>type_url = [], any_value = []\<rparr> in
     let any_empty_list_kind_value_wkt = PackFrom L (Value empty_list_kind_value) in
     tryIn (JsonStringFor L any_empty_list_kind_value_wkt) (\<lambda>any_empty_list_kind_value_wkt_json.
     return \<lparr>list_value = list_value, list_value_json = list_value_json,
       list_value_escape_json = list_value_escape_json,
       list_value_surrogate_json = list_value_surrogate_json, list_kind_value = list_kind_value,
       list_kind_value_json = list_kind_value_json,
       list_kind_value_escape_json = list_kind_value_escape_json,
       list_kind_value_surrogate_json = list_kind_value_surrogate_json,
       any_list_kind_value_wkt = any_list_kind_value_wkt,
       any_list_kind_value_wkt_json = any_list_kind_value_wkt_json,
       any_list_kind_value_escape_wkt_json = any_list_kind_value_escape_wkt_json,
       any_list_kind_value_surrogate_wkt_json = any_list_kind_value_surrogate_wkt_json,
       empty_struct_kind_value = empty_struct_kind_value,
       empty_struct_kind_value_json = empty_struct_kind_value_json,
       any_empty_struct_kind_value_wkt = any_empty_struct_kind_value_wkt,
       any_empty_struct_kind_value_wkt_json = any_empty_struct_kind_value_wkt_json,
       empty_list_value = empty_list_value, empty_list_value_json = empty_list_value_json,
       empty_list_kind_value = empty_list_kind_value,
       empty_list_kind_value_json = empty_list_kind_value_json,
       any_empty_list_kind_value_wkt = any_empty_list_kind_value_wkt,
       any_empty_list_kind_value_wkt_json = any_empty_list_kind_value_wkt_json\<rparr>)))))))))\<close>

text \<open>Double and float wrappers.\<close>

record double_locals =
  double_value :: cpp_float
  double_value_json :: string
  double_value_string_json :: string
  double_value_exponent_json :: string
  any_double_value_wkt :: message
  any_double_value_wkt_json :: string
  any_double_value_string_wkt_json :: string
  any_double_value_exponent_wkt_json :: string
  negative_double_value :: cpp_float
  negative_double_value_json :: string
  any_negative_double_value_wkt :: message
  any_negative_double_value_wkt_json :: string
  zero_double_value :: cpp_float
  zero_double_value_json :: string
  any_zero_double_value_wkt :: message
  any_zero_double_value_wkt_json :: string
  double_value_nan :: cpp_float
  double_value_nan_json :: string
  any_double_value_nan_wkt :: message
  any_double_value_nan_wkt_json :: string
  double_value_inf :: cpp_float
  double_value_inf_json :: string
  any_double_value_inf_wkt :: message
  any_double_value_inf_wkt_json :: string
  double_value_neg_inf :: cpp_float
  double_value_neg_inf_json :: string
  any_double_value_neg_inf_wkt :: message
  any_double_value_neg_inf_wkt_json :: string
  float_value :: cpp_float
  float_value_json :: string
  float_value_string_json :: string
  float_value_exponent_json :: string
  any_float_value_wkt :: message
  any_float_value_wkt_json :: string
  any_float_value_string_wkt_json :: string
  any_float_value_exponent_wkt_json :: string
  negative_float_value :: cpp_float
  negative_float_value_json :: string
  any_negative_float_value_wkt :: message
  any_negative_float_value_wkt_json :: string
  zero_float_value :: cpp_float
  zero_float_value_json :: string
  any_zero_float_value_wkt :: message
  any_zero_float_value_wkt_json :: string
  float_value_nan :: cpp_float
  float_value_nan_json :: string
  any_float_value_nan_wkt :: message
  any_float_value_nan_wkt_json :: string
  float_value_inf :: cpp_float
  float_value_inf_json :: string
  any_float_value_inf_wkt :: message
  any_float_value_inf_wkt_json :: string
  float_value_neg_inf :: cpp_float
  float_value_neg_inf_json :: string
  any_float_value_neg_inf_wkt :: message
  any_float_value_neg_inf_wkt_json :: string

definition setup_doubles :: \<open>protobuf \<Rightarrow> double_locals prog\<close> where
  \<open>setup_doubles L =
    (let double_value = Finite 0 in
     let double_value = Finite ((13 / 4)) in
     tryIn (JsonStringFor L (DoubleValue double_value)) (\<lambda>double_value_json.
     let double_value_string_json = ''"3.25"'' in
     let double_value_exponent_json = ''3.25e0'' in
     let any_double_value_wkt = Any \<lparr>type_url = [], any_value = []\<rparr> in
     let any_double_value_wkt = PackFrom L (DoubleValue double_value) in
     tryIn (JsonStringFor L any_double_value_wkt) (\<lambda>any_double_value_wkt_json.
     let any_double_value_string_wkt_json = ''{"@type":"type.googleapis.com/google.protobuf.DoubleValue","value":"3.25"}'' in
     let any_double_value_exponent_wkt_json = ''{"@type":"type.googleapis.com/google.protobuf.DoubleValue","value":3.25e0}'' in
     let negative_double_value = Finite 0 in
     let negative_double_value = Finite (- (13 / 4)) in
     tryIn (JsonStringFor L (DoubleValue negative_double_value)) (\<lambda>negative_double_value_json.
     let any_negative_double_value_wkt = Any \<lparr>type_url = [], any_value = []\<rparr> in
     let any_negative_double_value_wkt = PackFrom L (DoubleValue negative_double_value) in
     tryIn (JsonStringFor L any_negative_double_value_wkt) (\<lambda>any_negative_double_value_wkt_json.
     let zero_double_value = Finite 0 in
     let zero_double_value = Finite (0) in
     tryIn (JsonStringFor L (DoubleValue zero_double_value)) (\<lambda>zero_double_value_json.
     let any_zero_double_value_wkt = Any \<lparr>type_url = [], any_value = []\<rparr> in
     let any_zero_double_value_wkt = PackFrom L (DoubleValue zero_double_value) in
     tryIn (JsonStringFor L any_zero_double_value_wkt) (\<lambda>any_zero_double_value_wkt_json.
     let double_value_nan = Finite 0 in
     let double_value_nan = NaN in
     tryIn (JsonStringFor L (DoubleValue double_value_nan)) (\<lambda>double_value_nan_json.
     let any_double_value_nan_wkt = Any \<lparr>type_url = [], any_value = []\<rparr> in
     let any_double_value_nan_wkt = PackFrom L (DoubleValue double_value_nan) in
     tryIn (JsonStringFor L any_double_value_nan_wkt) (\<lambda>any_double_value_nan_wkt_json.
     let double_value_inf = Finite 0 in
     let double_value_inf = PosInf in
     tryIn (JsonStringFor L (DoubleValue double_value_inf)) (\<lambda>double_value_inf_json.
     let any_double_value_inf_wkt = Any \<lparr>type_url = [], any_value = []\<rparr> in
     let any_double_value_inf_wkt = PackFrom L (DoubleValue double_value_inf) in
     tryIn (JsonStringFor L any_double_value_inf_wkt) (\<lambda>any_double_value_inf_wkt_json.
     let double_value_neg_inf = Finite 0 in
     let double_value_neg_inf = NegInf in
     tryIn (JsonStringFor L (DoubleValue double_value_neg_inf)) (\<lambda>double_value_neg_inf_json.
     let any_double_value_neg_inf_wkt = Any \<lparr>type_url = [], any_value = []\<rparr> in
     let any_double_value_neg_inf_wkt = PackFrom L (DoubleValue double_value_neg_inf) in
     tryIn (JsonStringFor L any_double_value_neg_inf_wkt) (\<lambda>any_double_value_neg_inf_wkt_json.
     let float_value = Finite 0 in
     let float_value = Finite ((3 / 2)) in
     tryIn (JsonStringFor L (FloatValue float_value)) (\<lambda>float_value_json.
     let float_value_string_json = ''"1.5"'' in
     let float_value_exponent_json = ''1.5e0'' in
     let any_float_value_wkt = Any \<lparr>type_url = [], any_value = []\<rparr> in
     let any_float_value_wkt = PackFrom L (FloatValue float_value) in
     tryIn (JsonStringFor L any_float_value_wkt) (\<lambda>any_float_value_wkt_json.
     let any_float_value_string_wkt_json = ''{"@type":"type.googleapis.com/google.protobuf.FloatValue","value":"1.5"}'' in
     let any_float_value_exponent_wkt_json = ''{"@type":"type.googleapis.com/google.protobuf.FloatValue","value":1.5e0}'' in
     let negative_float_value = Finite 0 in
     let negative_float_value = Finite (- (3 / 2)) in
     tryIn (JsonStringFor L (FloatValue negative_float_value)) (\<lambda>negative_float_value_json.
     let any_negative_float_value_wkt = Any \<lparr>type_url = [], any_value = []\<rparr> in
     let any_negative_float_value_wkt = PackFrom L (FloatValue negative_float_value) in
     tryIn (JsonStringFor L any_negative_float_value_wkt) (\<lambda>any_negative_float_value_wkt_json.
     let zero_float_value = Finite 0 in
     let zero_float_value = Finite (0) in
     tryIn (JsonStringFor L (FloatValue zero_float_value)) (\<lambda>zero_float_value_json.
     let any_zero_float_value_wkt = Any \<lparr>type_url = [], any_value = []\<rparr> in
     let any_zero_float_value_wkt = PackFrom L (FloatValue zero_float_value) in
     tryIn (JsonStringFor L any_zero_float_value_wkt) (\<lambda>any_zero_float_value_wkt_json.
     let float_value_nan = Finite 0 in
     let float_value_nan = NaN in
     tryIn (JsonStringFor L (FloatValue float_value_nan)) (\<lambda>float_value_nan_json.
     let any_float_value_nan_wkt = Any \<lparr>type_url = [], any_value = []\<rparr> in
     let any_float_value_nan_wkt = PackFrom L (FloatValue float_value_nan) in
     tryIn (JsonStringFor L any_float_value_nan_wkt) (\<lambda>any_float_value_nan_wkt_json.
     let float_value_inf = Finite 0 in
     let float_value_inf = PosInf in
     tryIn (JsonStringFor L (FloatValue float_value_inf)) (\<lambda>float_value_inf_json.
     let any_float_value_inf_wkt = Any \<lparr>type_url = [], any_value = []\<rparr> in
     let any_float_value_inf_wkt = PackFrom L (FloatValue float_value_inf) in
     tryIn (JsonStringFor L any_float_value_inf_wkt) (\<lambda>any_float_value_inf_wkt_json.
     let float_value_neg_inf = Finite 0 in
     let float_value_neg_inf = NegInf in
     tryIn (JsonStringFor L (FloatValue float_value_neg_inf)) (\<lambda>float_value_neg_inf_json.
     let any_float_value_neg_inf_wkt = Any \<lparr>type_url = [], any_value = []\<rparr> in
     let any_float_value_neg_inf_wkt = PackFrom L (FloatValue float_value_neg_inf) in
     tryIn (JsonStringFor L any_float_value_neg_inf_wkt) (\<lambda>any_float_value_neg_inf_wkt_json.
     return \<lparr>double_value = double_value, double_value_json = double_value_json,
       double_value_string_json = double_value_string_json,
       double_value_exponent_json = double_value_exponent_json,
       any_double_value_wkt = any_double_value_wkt,
       any_double_value_wkt_json = any_double_value_wkt_json,
       any_double_value_string_wkt_json = any_double_value_string_wkt_json,
       any_double_value_exponent_wkt_json = any_double_value_exponent_wkt_json,
       negative_double_value = negative_double_value,
       negative_double_value_json = negative_double_value_json,
       any_negative_double_value_wkt = any_negative_double_value_wkt,
       any_negative_double_value_wkt_json = any_negative_double_value_wkt_json,
       zero_double_value = zero_double_value, zero_double_value_json = zero_double_value_json,
       any_zero_double_value_wkt = any_zero_double_value_wkt,
       any_zero_double_value_wkt_json = any_zero_double_value_wkt_json,
       double_value_nan = double_value_nan, double_value_nan_json = double_value_nan_json,
       any_double_value_nan_wkt = any_double_value_nan_wkt,
       any_double_value_nan_wkt_json = any_double_value_nan_wkt_json,
       double_value_inf = double_value_inf, double_value_inf_json = double_value_inf_json,
       any_double_value_inf_wkt = any_double_value_inf_wkt,
       any_double_value_inf_wkt_json = any_double_value_inf_wkt_json,
       double_value_neg_inf = double_value_neg_inf,
       double_value_neg_inf_json = double_value_neg_inf_json,
       any_double_value_neg_inf_wkt = any_double_value_neg_inf_wkt,
       any_double_value_neg_inf_wkt_json = any_double_value_neg_inf_wkt_json,
       float_value = float_value, float_value_json = float_value_json,
       float_value_string_json = float_value_string_json,
       float_value_exponent_json = float_value_exponent_json,
       any_float_value_wkt = any_float_value_wkt, any_float_value_wkt_json = any_float_value_wkt_json,
       any_float_value_string_wkt_json = any_float_value_string_wkt_json,
       any_float_value_exponent_wkt_json = any_float_value_exponent_wkt_json,
       negative_float_value = negative_float_value,
       negative_float_value_json = negative_float_value_json,
       any_negative_float_value_wkt = any_negative_float_value_wkt,
       any_negative_float_value_wkt_json = any_negative_float_value_wkt_json,
       zero_float_value = zero_float_value, zero_float_value_json = zero_float_value_json,
       any_zero_float_value_wkt = any_zero_float_value_wkt,
       any_zero_float_value_wkt_json = any_zero_float_value_wkt_json,
       float_value_nan = float_value_nan, float_value_nan_json = float_value_nan_json,
       any_float_value_nan_wkt = any_float_value_nan_wkt,
       any_float_value_nan_wkt_json = any_float_value_nan_wkt_json, float_value_inf = float_value_inf,
       float_value_inf_json = float_value_inf_json, any_float_value_inf_wkt = any_float_value_inf_wkt,
       any_float_value_inf_wkt_json = any_float_value_inf_wkt_json,
       float_value_neg_inf = float_value_neg_inf, float_value_neg_inf_json = float_value_neg_inf_json,
       any_float_value_neg_inf_wkt = any_float_value_neg_inf_wkt,
       any_float_value_neg_inf_wkt_json = any_float_value_neg_inf_wkt_json\<rparr>)))))))))))))))))))))))))\<close>

text \<open>64-bit integer wrappers.\<close>

record int64_locals =
  int64_value :: i64
  int64_value_json :: string
  int64_value_number_json :: string
  int64_value_exponent_json :: string
  any_int64_value_wkt :: message
  any_int64_value_wkt_json :: string
  any_int64_value_number_wkt_json :: string
  any_int64_value_exponent_wkt_json :: string
  zero_int64_value :: i64
  zero_int64_value_json :: string
  any_zero_int64_value_wkt :: message
  any_zero_int64_value_wkt_json :: string
  negative_int64_value :: i64
  negative_int64_value_json :: string
  any_negative_int64_value_wkt :: message
  any_negative_int64_value_wkt_json :: string
  min_int64_value :: i64
  min_int64_value_json :: string
  any_min_int64_value_wkt :: message
  any_min_int64_value_wkt_json :: string
  max_int64_value :: i64
  max_int64_value_json :: string
  any_max_int64_value_wkt :: message
  any_max_int64_value_wkt_json :: string
  uint64_value :: u64
  uint64_value_json :: string
  uint64_value_number_json :: string
  uint64_value_exponent_json :: string
  any_uint64_value_wkt :: message
  any_uint64_value_wkt_json :: string
  any_uint64_value_number_wkt_json :: string
  any_uint64_value_exponent_wkt_json :: string
  zero_uint64_value :: u64
  zero_uint64_value_json :: string
  any_zero_uint64_value_wkt :: message
  any_zero_uint64_value_wkt_json :: string
  max_uint64_value :: u64
  max_uint64_value_json :: string
  any_max_uint64_value_wkt :: message
  any_max_uint64_value_wkt_json :: string

definition setup_int64s :: \<open>protobuf \<Rightarrow> int64_locals prog\<close> where
  \<open>setup_int64s L =
    (let int64_value = (0 :: i64) in
     let int64_value = 9007199254740993 in
     tryIn (JsonStringFor L (Int64Value int64_value)) (\<lambda>int64_value_json.
     let int64_value_number_json = ''9007199254740993'' in
     let int64_value_exponent_json = ''1.2345e4'' in
     let any_int64_value_wkt = Any \<lparr>type_url = [], any_value = []\<rparr> in
     let any_int64_value_wkt = PackFrom L (Int64Value int64_value) in
     tryIn (JsonStringFor L any_int64_value_wkt) (\<lambda>any_int64_value_wkt_json.
     let any_int64_value_number_wkt_json = ''{"@type":"type.googleapis.com/google.protobuf.Int64Value","value":9007199254740993}'' in
     let any_int64_value_exponent_wkt_json = ''{"@type":"type.googleapis.com/google.protobuf.Int64Value","value":1.2345e4}'' in
     let zero_int64_value = (0 :: i64) in
     let zero_int64_value = 0 in
     tryIn (JsonStringFor L (Int64Value zero_int64_value)) (\<lambda>zero_int64_value_json.
     let any_zero_int64_value_wkt = Any \<lparr>type_url = [], any_value = []\<rparr> in
     let any_zero_int64_value_wkt = PackFrom L (Int64Value zero_int64_value) in
     tryIn (JsonStringFor L any_zero_int64_value_wkt) (\<lambda>any_zero_int64_value_wkt_json.
     let negative_int64_value = (0 :: i64) in
     let negative_int64_value = - 9007199254740993 in
     tryIn (JsonStringFor L (Int64Value negative_int64_value)) (\<lambda>negative_int64_value_json.
     let any_negative_int64_value_wkt = Any \<lparr>type_url = [], any_value = []\<rparr> in
     let any_negative_int64_value_wkt = PackFrom L (Int64Value negative_int64_value) in
     tryIn (JsonStringFor L any_negative_int64_value_wkt) (\<lambda>any_negative_int64_value_wkt_json.
     let min_int64_value = (0 :: i64) in
     let min_int64_value = - 0x8000000000000000 in
     tryIn (JsonStringFor L (Int64Value min_int64_value)) (\<lambda>min_int64_value_json.
     let any_min_int64_value_wkt = Any \<lparr>type_url = [], any_value = []\<rparr> in
     let any_min_int64_value_wkt = PackFrom L (Int64Value min_int64_value) in
     tryIn (JsonStringFor L any_min_int64_value_wkt) (\<lambda>any_min_int64_value_wkt_json.
     let max_int64_value = (0 :: i64) in
     let max_int64_value = 0x7FFFFFFFFFFFFFFF in
     tryIn (JsonStringFor L (Int64Value max_int64_value)) (\<lambda>max_int64_value_json.
     let any_max_int64_value_wkt = Any \<lparr>type_url = [], any_value = []\<rparr> in
     let any_max_int64_value_wkt = PackFrom L (Int64Value max_int64_value) in
     tryIn (JsonStringFor L any_max_int64_value_wkt) (\<lambda>any_max_int64_value_wkt_json.
     let uint64_value = (0 :: u64) in
     let uint64_value = 9007199254740993 in
     tryIn (JsonStringFor L (UInt64Value uint64_value)) (\<lambda>uint64_value_json.
     let uint64_value_number_json = ''9007199254740993'' in
     let uint64_value_exponent_json = ''1.2345e4'' in
     let any_uint64_value_wkt = Any \<lparr>type_url = [], any_value = []\<rparr> in
     let any_uint64_value_wkt = PackFrom L (UInt64Value uint64_value) in
     tryIn (JsonStringFor L any_uint64_value_wkt) (\<lambda>any_uint64_value_wkt_json.
     let any_uint64_value_number_wkt_json = ''{"@type":"type.googleapis.com/google.protobuf.UInt64Value","value":9007199254740993}'' in
     let any_uint64_value_exponent_wkt_json = ''{"@type":"type.googleapis.com/google.protobuf.UInt64Value","value":1.2345e4}'' in
     let zero_uint64_value = (0 :: u64) in
     let zero_uint64_value = 0 in
     tryIn (JsonStringFor L (UInt64Value zero_uint64_value)) (\<lambda>zero_uint64_value_json.
     let any_zero_uint64_value_wkt = Any \<lparr>type_url = [], any_value = []\<rparr> in
     let any_zero_uint64_value_wkt = PackFrom L (UInt64Value zero_uint64_value) in
     tryIn (JsonStringFor L any_zero_uint64_value_wkt) (\<lambda>any_zero_uint64_value_wkt_json.
     let max_uint64_value = (0 :: u64) in
     let max_uint64_value = 0xFFFFFFFFFFFFFFFF in
     tryIn (JsonStringFor L (UInt64Value max_uint64_value)) (\<lambda>max_uint64_value_json.
     let any_max_uint64_value_wkt = Any \<lparr>type_url = [], any_value = []\<rparr> in
     let any_max_uint64_value_wkt = PackFrom L (UInt64Value max_uint64_value) in
     tryIn (JsonStringFor L any_max_uint64_value_wkt) (\<lambda>any_max_uint64_value_wkt_json.
     return \<lparr>int64_value = int64_value, int64_value_json = int64_value_json,
       int64_value_number_json = int64_value_number_json,
       int64_value_exponent_json = int64_value_exponent_json,
       any_int64_value_wkt = any_int64_value_wkt, any_int64_value_wkt_json = any_int64_value_wkt_json,
       any_int64_value_number_wkt_json = any_int64_value_number_wkt_json,
       any_int64_value_exponent_wkt_json = any_int64_value_exponent_wkt_json,
       zero_int64_value = zero_int64_value, zero_int64_value_json = zero_int64_value_json,
       any_zero_int64_value_wkt = any_zero_int64_value_wkt,
       any_zero_int64_value_wkt_json = any_zero_int64_value_wkt_json,
       negative_int64_value = negative_int64_value,
       negative_int64_value_json = negative_int64_value_json,
       any_negative_int64_value_wkt = any_negative_int64_value_wkt,
       any_negative_int64_value_wkt_json = any_negative_int64_value_wkt_json,
       min_int64_value = min_int64_value, min_int64_value_json = min_int64_value_json,
       any_min_int64_value_wkt = any_min_int64_value_wkt,
       any_min_int64_value_wkt_json = any_min_int64_value_wkt_json, max_int64_value = max_int64_value,
       max_int64_value_json = max_int64_value_json, any_max_int64_value_wkt = any_max_int64_value_wkt,
       any_max_int64_value_wkt_json = any_max_int64_value_wkt_json, uint64_value = uint64_value,
       uint64_value_json = uint64_value_json, uint64_value_number_json = uint64_value_number_json,
       uint64_value_exponent_json = uint64_value_exponent_json,
       any_uint64_value_wkt = any_uint64_value_wkt,
       any_uint64_value_wkt_json = any_uint64_value_wkt_json,
       any_uint64_value_number_wkt_json = any_uint64_value_number_wkt_json,
       any_uint64_value_exponent_wkt_json = any_uint64_value_exponent_wkt_json,
       zero_uint64_value = zero_uint64_value, zero_uint64_value_json = zero_uint64_value_json,
       any_zero_uint64_value_wkt = any_zero_uint64_value_wkt,
       any_zero_uint64_value_wkt_json = any_zero_uint64_value_wkt_json,
       max_uint64_value = max_uint64_value, max_uint64_value_json = max_uint64_value_json,
       any_max_uint64_value_wkt = any_max_uint64_value_wkt,
       any_max_uint64_value_wkt_json = any_max_uint64_value_wkt_json\<rparr>)))))))))))))))))\<close>

text \<open>32-bit integer wrappers.\<close>

record int32_locals =
  int32_value :: i32
  int32_value_json :: string
  int32_value_string_json :: string
  int32_value_exponent_json :: string
  any_int32_value_wkt :: message
  any_int32_value_wkt_json :: string
  any_int32_value_string_wkt_json :: string
  any_int32_value_exponent_wkt_json :: string
  zero_int32_value :: i32
  zero_int32_value_json :: string
  any_zero_int32_value_wkt :: message
  any_zero_int32_value_wkt_json :: string
  negative_int32_value :: i32
  negative_int32_value_json :: string
  any_negative_int32_value_wkt :: message
  any_negative_int32_value_wkt_json :: string
  min_int32_value :: i32
  min_int32_value_json :: string
  any_min_int32_value_wkt :: message
  any_min_int32_value_wkt_json :: string
  max_int32_value :: i32
  max_int32_value_json :: string
  any_max_int32_value_wkt :: message
  any_max_int32_value_wkt_json :: string
  uint32_value :: u32
  uint32_value_json :: string
  uint32_value_string_json :: string
  uint32_value_exponent_json :: string
  any_uint32_value_wkt :: message
  any_uint32_value_wkt_json :: string
  any_uint32_value_string_wkt_json :: string
  any_uint32_value_exponent_wkt_json :: string
  zero_uint32_value :: u32
  zero_uint32_value_json :: string
  any_zero_uint32_value_wkt :: message
  any_zero_uint32_value_wkt_json :: string
  max_uint32_value :: u32
  max_uint32_value_json :: string
  any_max_uint32_value_wkt :: message
  any_max_uint32_value_wkt_json :: string

definition setup_int32s :: \<open>protobuf \<Rightarrow> int32_locals prog\<close> where
  \<open>setup_int32s L =
    (let int32_value = (0 :: i32) in
     let int32_value = 12345 in
     tryIn (JsonStringFor L (Int32Value int32_value)) (\<lambda>int32_value_json.
     let int32_value_string_json = ''"12345"'' in
     let int32_value_exponent_json = ''1.2345e4'' in
     let any_int32_value_wkt = Any \<lparr>type_url = [], any_value = []\<rparr> in
     let any_int32_value_wkt = PackFrom L (Int32Value int32_value) in
     tryIn (JsonStringFor L any_int32_value_wkt) (\<lambda>any_int32_value_wkt_json.
     let any_int32_value_string_wkt_json = ''{"@type":"type.googleapis.com/google.protobuf.Int32Value","value":"12345"}'' in
     let any_int32_value_exponent_wkt_json = ''{"@type":"type.googleapis.com/google.protobuf.Int32Value","value":1.2345e4}'' in
     let zero_int32_value = (0 :: i32) in
     let zero_int32_value = 0 in
     tryIn (JsonStringFor L (Int32Value zero_int32_value)) (\<lambda>zero_int32_value_json.
     let any_zero_int32_value_wkt = Any \<lparr>type_url = [], any_value = []\<rparr> in
     let any_zero_int32_value_wkt = PackFrom L (Int32Value zero_int32_value) in
     tryIn (JsonStringFor L any_zero_int32_value_wkt) (\<lambda>any_zero_int32_value_wkt_json.
     let negative_int32_value = (0 :: i32) in
     let negative_int32_value = - 12345 in
     tryIn (JsonStringFor L (Int32Value negative_int32_value)) (\<lambda>negative_int32_value_json.
     let any_negative_int32_value_wkt = Any \<lparr>type_url = [], any_value = []\<rparr> in
     let any_negative_int32_value_wkt = PackFrom L (Int32Value negative_int32_value) in
     tryIn (JsonStringFor L any_negative_int32_value_wkt) (\<lambda>any_negative_int32_value_wkt_json.
     let min_int32_value = (0 :: i32) in
     let min_int32_value = - 0x80000000 in
     tryIn (JsonStringFor L (Int32Value min_int32_value)) (\<lambda>min_int32_value_json.
     let any_min_int32_value_wkt = Any \<lparr>type_url = [], any_value = []\<rparr> in
     let any_min_int32_value_wkt = PackFrom L (Int32Value min_int32_value) in
     tryIn (JsonStringFor L any_min_int32_value_wkt) (\<lambda>any_min_int32_value_wkt_json.
     let max_int32_value = (0 :: i32) in
     let max_int32_value = 0x7FFFFFFF in
     tryIn (JsonStringFor L (Int32Value max_int32_value)) (\<lambda>max_int32_value_json.
     let any_max_int32_value_wkt = Any \<lparr>type_url = [], any_value = []\<rparr> in
     let any_max_int32_value_wkt = PackFrom L (Int32Value max_int32_value) in
     tryIn (JsonStringFor L any_max_int32_value_wkt) (\<lambda>any_max_int32_value_wkt_json.
     let uint32_value = (0 :: u32) in
     let uint32_value = 12345 in
     tryIn (JsonStringFor L (UInt32Value uint32_value)) (\<lambda>uint32_value_json.
     let uint32_value_string_json = ''"12345"'' in
     let uint32_value_exponent_json = ''1.2345e4'' in
     let any_uint32_value_wkt = Any \<lparr>type_url = [], any_value = []\<rparr> in
     let any_uint32_value_wkt = PackFrom L (UInt32Value uint32_value) in
     tryIn (JsonStringFor L any_uint32_value_wkt) (\<lambda>any_uint32_value_wkt_json.
     let any_uint32_value_string_wkt_json = ''{"@type":"type.googleapis.com/google.protobuf.UInt32Value","value":"12345"}'' in
     let any_uint32_value_exponent_wkt_json = ''{"@type":"type.googleapis.com/google.protobuf.UInt32Value","value":1.2345e4}'' in
     let zero_uint32_value = (0 :: u32) in
     let zero_uint32_value = 0 in
     tryIn (JsonStringFor L (UInt32Value zero_uint32_value)) (\<lambda>zero_uint32_value_json.
     let any_zero_uint32_value_wkt = Any \<lparr>type_url = [], any_value = []\<rparr> in
     let any_zero_uint32_value_wkt = PackFrom L (UInt32Value zero_uint32_value) in
     tryIn (JsonStringFor L any_zero_uint32_value_wkt) (\<lambda>any_zero_uint32_value_wkt_json.
     let max_uint32_value = (0 :: u32) in
     let max_uint32_value = 0xFFFFFFFF in
     tryIn (JsonStringFor L (UInt32Value max_uint32_value)) (\<lambda>max_uint32_value_json.
     let any_max_uint32_value_wkt = Any \<lparr>type_url = [], any_value = []\<rparr> in
     let any_max_uint32_value_wkt = PackFrom L (UInt32Value max_uint32_value) in
     tryIn (JsonStringFor L any_max_uint32_value_wkt) (\<lambda>any_max_uint32_value_wkt_json.
     return \<lparr>int32_value = int32_value, int32_value_json = int32_value_json,
       int32_value_string_json = int32_value_string_json,
       int32_value_exponent_json = int32_value_exponent_json,
       any_int32_value_wkt = any_int32_value_wkt, any_int32_value_wkt_json = any_int32_value_wkt_json,
       any_int32_value_string_wkt_json = any_int32_value_string_wkt_json,
       any_int32_value_exponent_wkt_json = any_int32_value_exponent_wkt_json,
       zero_int32_value = zero_int32_value, zero_int32_value_json = zero_int32_value_json,
       any_zero_int32_value_wkt = any_zero_int32_value_wkt,
       any_zero_int32_value_wkt_json = any_zero_int32_value_wkt_json,
       negative_int32_value = negative_int32_value,
       negative_int32_value_json = negative_int32_value_json,
       any_negative_int32_value_wkt = any_negative_int32_value_wkt,
       any_negative_int32_value_wkt_json = any_negative_int32_value_wkt_json,
       min_int32_value = min_int32_value, min_int32_value_json = min_int32_value_json,
       any_min_int32_value_wkt = any_min_int32_value_wkt,
       any_min_int32_value_wkt_json = any_min_int32_value_wkt_json, max_int32_value = max_int32_value,
       max_int32_value_json = max_int32_value_json, any_max_int32_value_wkt = any_max_int32_value_wkt,
       any_max_int32_value_wkt_json = any_max_int32_value_wkt_json, uint32_value = uint32_value,
       uint32_value_json = uint32_value_json, uint32_value_string_json = uint32_value_string_json,
       uint32_value_exponent_json = uint32_value_exponent_json,
       any_uint32_value_wkt = any_uint32_value_wkt,
       any_uint32_value_wkt_json = any_uint32_value_wkt_json,
       any_uint32_value_string_wkt_json = any_uint32_value_string_wkt_json,
       any_uint32_value_exponent_wkt_json = any_uint32_value_exponent_wkt_json,
       zero_uint32_value = zero_uint32_value, zero_uint32_value_json = zero_uint32_value_json,
       any_zero_uint32_value_wkt = any_zero_uint32_value_wkt,
       any_zero_uint32_value_wkt_json = any_zero_uint32_value_wkt_json,
       max_uint32_value = max_uint32_value, max_uint32_value_json = max_uint32_value_json,
       any_max_uint32_value_wkt = any_max_uint32_value_wkt,
       any_max_uint32_value_wkt_json = any_max_uint32_value_wkt_json\<rparr>)))))))))))))))))\<close>

text \<open>Boolean, string and bytes wrappers, and an \<open>Any\<close> in an \<open>Any\<close>.\<close>

record string_locals =
  bool_value :: bool
  bool_value_json :: string
  any_bool_value_wkt :: message
  any_bool_value_wkt_json :: string
  false_bool_value :: bool
  false_bool_value_json :: string
  any_false_bool_value_wkt :: message
  any_false_bool_value_wkt_json :: string
  string_value :: string
  string_value_json :: string
  any_string_value_wkt :: message
  any_string_value_wkt_json :: string
  string_value_escape_json :: string
  string_value_surrogate_json :: string
  any_string_value_escape_wkt_json :: string
  any_string_value_surrogate_wkt_json :: string
  empty_string_value :: string
  empty_string_value_json :: string
  any_empty_string_value_wkt :: message
  any_empty_string_value_wkt_json :: string
  nested_any_wkt :: message
  nested_any_wkt_json :: string
  bytes_value :: string
  bytes_value_json :: string
  any_bytes_value_wkt :: message
  any_bytes_value_wkt_json :: string
  bytes_value_url_json :: string
  bytes_value_standard_base64_json :: string
  bytes_value_unpadded_json :: string
  any_bytes_value_url_wkt_json :: string
  any_bytes_value_standard_base64_wkt_json :: string
  any_bytes_value_unpadded_wkt_json :: string
  empty_bytes_value :: string
  empty_bytes_value_json :: string
  any_empty_bytes_value_wkt :: message
  any_empty_bytes_value_wkt_json :: string

definition setup_strings :: \<open>protobuf \<Rightarrow> string_locals prog\<close> where
  \<open>setup_strings L =
    (let bool_value = False in
     let bool_value = True in
     tryIn (JsonStringFor L (BoolValue bool_value)) (\<lambda>bool_value_json.
     let any_bool_value_wkt = Any \<lparr>type_url = [], any_value = []\<rparr> in
     let any_bool_value_wkt = PackFrom L (BoolValue bool_value) in
     tryIn (JsonStringFor L any_bool_value_wkt) (\<lambda>any_bool_value_wkt_json.
     let false_bool_value = False in
     let false_bool_value = False in
     tryIn (JsonStringFor L (BoolValue false_bool_value)) (\<lambda>false_bool_value_json.
     let any_false_bool_value_wkt = Any \<lparr>type_url = [], any_value = []\<rparr> in
     let any_false_bool_value_wkt = PackFrom L (BoolValue false_bool_value) in
     tryIn (JsonStringFor L any_false_bool_value_wkt) (\<lambda>any_false_bool_value_wkt_json.
     let string_value = ([] :: string) in
     let string_value = ''hello'' in
     tryIn (JsonStringFor L (StringValue string_value)) (\<lambda>string_value_json.
     let any_string_value_wkt = Any \<lparr>type_url = [], any_value = []\<rparr> in
     let any_string_value_wkt = PackFrom L (StringValue string_value) in
     tryIn (JsonStringFor L any_string_value_wkt) (\<lambda>any_string_value_wkt_json.
     let string_value_escape_json = ''"'' @ [CHR 0x5C] @ ''u0068ello"'' in
     let string_value_surrogate_json = ''"'' @ [CHR 0x5C] @ ''ud83d'' @ [CHR 0x5C] @ ''ude00"'' in
     let any_string_value_escape_wkt_json = ''{"@type":"type.googleapis.com/google.protobuf.StringValue","value":"'' @ [CHR 0x5C] @ ''u0068ello"}'' in
     let any_string_value_surrogate_wkt_json = ''{"@type":"type.googleapis.com/google.protobuf.StringValue","value":"'' @ [CHR 0x5C] @ ''ud83d'' @ [CHR 0x5C] @ ''ude00"}'' in
     let empty_string_value = ([] :: string) in
     let empty_string_value = [] in
     tryIn (JsonStringFor L (StringValue empty_string_value)) (\<lambda>empty_string_value_json.
     let any_empty_string_value_wkt = Any \<lparr>type_url = [], any_value = []\<rparr> in
     let any_empty_string_value_wkt = PackFrom L (StringValue empty_string_value) in
     tryIn (JsonStringFor L any_empty_string_value_wkt) (\<lambda>any_empty_string_value_wkt_json.
     let nested_any_wkt = Any \<lparr>type_url = [], any_value = []\<rparr> in
     let nested_any_wkt = PackFrom L any_string_value_wkt in
     tryIn (JsonStringFor L nested_any_wkt) (\<lambda>nested_any_wkt_json.
     let bytes_value = ([] :: string) in
     let bytes_value = ''hi'' in
     tryIn (JsonStringFor L (BytesValue bytes_value)) (\<lambda>bytes_value_json.
     let any_bytes_value_wkt = Any \<lparr>type_url = [], any_value = []\<rparr> in
     let any_bytes_value_wkt = PackFrom L (BytesValue bytes_value) in
     tryIn (JsonStringFor L any_bytes_value_wkt) (\<lambda>any_bytes_value_wkt_json.
     let bytes_value_url_json = ''"-_8"'' in
     let bytes_value_standard_base64_json = ''"+/8"'' in
     let bytes_value_unpadded_json = ''"aGk"'' in
     let any_bytes_value_url_wkt_json = ''{"@type":"type.googleapis.com/google.protobuf.BytesValue","value":"-_8"}'' in
     let any_bytes_value_standard_base64_wkt_json = ''{"@type":"type.googleapis.com/google.protobuf.BytesValue","value":"+/8"}'' in
     let any_bytes_value_unpadded_wkt_json = ''{"@type":"type.googleapis.com/google.protobuf.BytesValue","value":"aGk"}'' in
     let empty_bytes_value = ([] :: string) in
     let empty_bytes_value = [] in
     tryIn (JsonStringFor L (BytesValue empty_bytes_value)) (\<lambda>empty_bytes_value_json.
     let any_empty_bytes_value_wkt = Any \<lparr>type_url = [], any_value = []\<rparr> in
     let any_empty_bytes_value_wkt = PackFrom L (BytesValue empty_bytes_value) in
     tryIn (JsonStringFor L any_empty_bytes_value_wkt) (\<lambda>any_empty_bytes_value_wkt_json.
     return \<lparr>bool_value = bool_value, bool_value_json = bool_value_json,
       any_bool_value_wkt = any_bool_value_wkt, any_bool_value_wkt_json = any_bool_value_wkt_json,
       false_bool_value = false_bool_value, false_bool_value_json = false_bool_value_json,
       any_false_bool_value_wkt = any_false_bool_value_wkt,
       any_false_bool_value_wkt_json = any_false_bool_value_wkt_json, string_value = string_value,
       string_value_json = string_value_json, any_string_value_wkt = any_string_value_wkt,
       any_string_value_wkt_json = any_string_value_wkt_json,
       string_value_escape_json = string_value_escape_json,
       string_value_surrogate_json = string_value_surrogate_json,
       any_string_value_escape_wkt_json = any_string_value_escape_wkt_json,
       any_string_value_surrogate_wkt_json = any_string_value_surrogate_wkt_json,
       empty_string_value = empty_string_value, empty_string_value_json = empty_string_value_json,
       any_empty_string_value_wkt = any_empty_string_value_wkt,
       any_empty_string_value_wkt_json = any_empty_string_value_wkt_json,
       nested_any_wkt = nested_any_wkt, nested_any_wkt_json = nested_any_wkt_json,
       bytes_value = bytes_value, bytes_value_json = bytes_value_json,
       any_bytes_value_wkt = any_bytes_value_wkt, any_bytes_value_wkt_json = any_bytes_value_wkt_json,
       bytes_value_url_json = bytes_value_url_json,
       bytes_value_standard_base64_json = bytes_value_standard_base64_json,
       bytes_value_unpadded_json = bytes_value_unpadded_json,
       any_bytes_value_url_wkt_json = any_bytes_value_url_wkt_json,
       any_bytes_value_standard_base64_wkt_json = any_bytes_value_standard_base64_wkt_json,
       any_bytes_value_unpadded_wkt_json = any_bytes_value_unpadded_wkt_json,
       empty_bytes_value = empty_bytes_value, empty_bytes_value_json = empty_bytes_value_json,
       any_empty_bytes_value_wkt = any_empty_bytes_value_wkt,
       any_empty_bytes_value_wkt_json = any_empty_bytes_value_wkt_json\<rparr>))))))))))))))\<close>

section \<open>Packed messages and maps\<close>

text \<open>The packed messages and the two large maps.\<close>

definition the_large_map :: "message \<Rightarrow> (string \<times> i32) list" where
  "the_large_map m = (case m of LargeMap c \<Rightarrow> c | _ \<Rightarrow> [])"

record packed_locals =
  packed :: "i32 list"
  packed_bytes :: string
  fixed_packed :: "u32 list"
  fixed_packed_bytes :: string
  fixed64_packed :: "u64 list"
  fixed64_packed_bytes :: string
  sfixed_packed :: "i32 list"
  sfixed_packed_bytes :: string
  sfixed64_packed :: "i64 list"
  sfixed64_packed_bytes :: string
  float_packed :: "cpp_float list"
  float_packed_bytes :: string
  double_packed :: "cpp_float list"
  double_packed_bytes :: string
  uint64_packed :: "u64 list"
  uint64_packed_bytes :: string
  uint32_packed :: "u32 list"
  uint32_packed_bytes :: string
  int64_packed :: "i64 list"
  int64_packed_bytes :: string
  sint32_packed :: "i32 list"
  sint32_packed_bytes :: string
  sint64_packed :: "i64 list"
  sint64_packed_bytes :: string
  bool_packed :: "bool list"
  bool_packed_bytes :: string
  enum_packed :: "bench_kind list"
  enum_packed_bytes :: string
  large_map :: "(string \<times> i32) list"
  large_map_bytes :: string
  large_map_json :: string
  shuffled_large_map :: "(string \<times> i32) list"
  shuffled_large_map_bytes :: string

definition setup_packed :: \<open>protobuf \<Rightarrow> packed_locals prog\<close> where
  \<open>setup_packed L =
    (let packed = MakePacked in
     let packed_bytes = SerializeToString L (Packed packed) in
     let fixed_packed = MakeFixedPacked in
     let fixed_packed_bytes = SerializeToString L (FixedPacked fixed_packed) in
     let fixed64_packed = MakeFixed64Packed in
     let fixed64_packed_bytes = SerializeToString L (Fixed64Packed fixed64_packed) in
     let sfixed_packed = MakeSFixedPacked in
     let sfixed_packed_bytes = SerializeToString L (SFixedPacked sfixed_packed) in
     let sfixed64_packed = MakeSFixed64Packed in
     let sfixed64_packed_bytes = SerializeToString L (SFixed64Packed sfixed64_packed) in
     let float_packed = MakeFloatPacked in
     let float_packed_bytes = SerializeToString L (FloatPacked float_packed) in
     let double_packed = MakeDoublePacked in
     let double_packed_bytes = SerializeToString L (DoublePacked double_packed) in
     let uint64_packed = MakeUInt64Packed in
     let uint64_packed_bytes = SerializeToString L (UInt64Packed uint64_packed) in
     let uint32_packed = MakeUInt32Packed in
     let uint32_packed_bytes = SerializeToString L (UInt32Packed uint32_packed) in
     let int64_packed = MakeInt64Packed in
     let int64_packed_bytes = SerializeToString L (Int64Packed int64_packed) in
     let sint32_packed = MakeSInt32Packed in
     let sint32_packed_bytes = SerializeToString L (SInt32Packed sint32_packed) in
     let sint64_packed = MakeSInt64Packed in
     let sint64_packed_bytes = SerializeToString L (SInt64Packed sint64_packed) in
     let bool_packed = MakeBoolPacked in
     let bool_packed_bytes = SerializeToString L (BoolPacked bool_packed) in
     let enum_packed = MakeEnumPacked in
     let enum_packed_bytes = SerializeToString L (EnumPacked enum_packed) in
     let large_map = MakeLargeMap in
     let large_map_bytes = SerializeToString L (LargeMap large_map) in
     orAbort (MessageToJsonString L default_print_options (LargeMap large_map)) (\<lambda>large_map_json.
     tryIn (abortIf (\<not> contains large_map_json ''"key-0000":1'' \<or> \<not> contains large_map_json ''"key-1023":1024'')) (\<lambda>_.
     orAbort (JsonStringToMessage L default_parse_options large_map_json (LargeMap [])) (\<lambda>parsed.
     let decoded = the_large_map parsed in
     tryIn (abortIf (length decoded \<noteq> length large_map \<or> differs (map_of decoded ''key-0000'') (\<lambda>v. v = 1) \<or>
       differs (map_of decoded ''key-1023'') (\<lambda>v. v = 1024))) (\<lambda>_.
     let shuffled_large_map = MakeShuffledLargeMap in
     let shuffled_large_map_bytes = SerializeToString L (LargeMap shuffled_large_map) in
     return \<lparr>packed = packed, packed_bytes = packed_bytes, fixed_packed = fixed_packed,
       fixed_packed_bytes = fixed_packed_bytes, fixed64_packed = fixed64_packed,
       fixed64_packed_bytes = fixed64_packed_bytes, sfixed_packed = sfixed_packed,
       sfixed_packed_bytes = sfixed_packed_bytes, sfixed64_packed = sfixed64_packed,
       sfixed64_packed_bytes = sfixed64_packed_bytes, float_packed = float_packed,
       float_packed_bytes = float_packed_bytes, double_packed = double_packed,
       double_packed_bytes = double_packed_bytes, uint64_packed = uint64_packed,
       uint64_packed_bytes = uint64_packed_bytes, uint32_packed = uint32_packed,
       uint32_packed_bytes = uint32_packed_bytes, int64_packed = int64_packed,
       int64_packed_bytes = int64_packed_bytes, sint32_packed = sint32_packed,
       sint32_packed_bytes = sint32_packed_bytes, sint64_packed = sint64_packed,
       sint64_packed_bytes = sint64_packed_bytes, bool_packed = bool_packed,
       bool_packed_bytes = bool_packed_bytes, enum_packed = enum_packed,
       enum_packed_bytes = enum_packed_bytes, large_map = large_map,
       large_map_bytes = large_map_bytes, large_map_json = large_map_json,
       shuffled_large_map = shuffled_large_map, shuffled_large_map_bytes = shuffled_large_map_bytes\<rparr>)))))\<close>

section \<open>The whole setup\<close>

record main_locals =
  core :: core_locals
  print_opts :: option_locals
  json_inputs :: json_locals
  encodings :: encoding_locals
  durations :: duration_locals
  masks :: mask_locals
  timestamps :: timestamp_locals
  structs :: struct_locals
  value_kinds :: value_locals
  list_kinds :: list_locals
  doubles :: double_locals
  int64s :: int64_locals
  int32s :: int32_locals
  string_wrappers :: string_locals
  packeds :: packed_locals

definition main_setup :: \<open>protobuf \<Rightarrow> main_locals prog\<close> where
  \<open>main_setup L =
    tryIn (setup_core L) (\<lambda>c.
    tryIn (setup_options L c) (\<lambda>opts.
    tryIn (setup_json L c) (\<lambda>js.
    tryIn (setup_encodings L c opts) (\<lambda>enc.
    tryIn (setup_durations L) (\<lambda>du.
    tryIn (setup_masks L) (\<lambda>ma.
    tryIn (setup_timestamps L) (\<lambda>ti.
    tryIn (setup_structs L) (\<lambda>st.
    tryIn (setup_values L st) (\<lambda>va.
    tryIn (setup_lists L st) (\<lambda>li.
    tryIn (setup_doubles L) (\<lambda>db.
    tryIn (setup_int64s L) (\<lambda>i64.
    tryIn (setup_int32s L) (\<lambda>i32.
    tryIn (setup_strings L) (\<lambda>sg.
    tryIn (setup_packed L) (\<lambda>pk.
    return \<lparr>core = c, print_opts = opts, json_inputs = js, encodings = enc, durations = du, masks = ma, timestamps = ti,
      structs = st, value_kinds = va, list_kinds = li, doubles = db, int64s = i64, int32s = i32, string_wrappers = sg,
      packeds = pk\<rparr>)))))))))))))))\<close>

end
