(* ===== verification/Cpp_Sizes.thy ===== *)
theory Cpp_Sizes
  imports Cpp_Setup_Wkt
begin

text \<open>
  The third part of \<open>main\<close>: the sizes of all payloads, printed in order.
\<close>

definition print_size :: "string \<Rightarrow> string \<Rightarrow> unit prog" where
  "print_size label payload = stream [Str label, Num (int (length payload)), Str [CHR 0x0A]]"

definition print_sizes_1 :: \<open>main_locals \<Rightarrow> unit prog\<close> where
  \<open>print_sizes_1 ls = sequence
    [stream [Str (''c++ protobuf benchmark baseline'' @ [CHR 0x0A])],
     print_size ''payload size: '' (person_bytes (core ls)),
     print_size ''unknown fields payload size: '' (unknown_bytes (core ls)),
     print_size ''json payload size: '' (person_json (core ls)),
     print_size ''scalarmix json payload size: '' (scalarmix_json (core ls)),
     print_size ''always-print stringify json payload size: '' (always_print_stringify_json (print_opts ls)),
     print_size ''proto name stringify json payload size: '' (proto_name_stringify_json (print_opts ls)),
     print_size ''enum number stringify json payload size: '' (enum_number_stringify_json (print_opts ls)),
     print_size ''presencemix json payload size: '' (presencemix_json (json_inputs ls)),
     print_size ''map key-surrogate json payload size: '' (map_key_surrogate_json (json_inputs ls)),
     print_size ''null fields json payload size: '' (null_fields_json (json_inputs ls)),
     print_size ''ignore unknown json payload size: '' (ignore_unknown_json (json_inputs ls)),
     print_size ''open enum json payload size: '' (open_enum_json (json_inputs ls)),
     print_size ''enum name json payload size: '' (enum_name_json (json_inputs ls)),
     print_size ''proto name json payload size: '' (proto_name_json (json_inputs ls)),
     print_size ''int exponent json payload size: '' (int_exponent_json (json_inputs ls)),
     print_size ''string number json payload size: '' (string_number_json (json_inputs ls)),
     print_size ''timestamp json payload size: '' (timestamp_json (timestamps ls)),
     print_size ''any Timestamp WKT json payload size: '' (any_timestamp_wkt_json (timestamps ls)),
     print_size ''timestamp escape json payload size: '' (timestamp_escape_json (timestamps ls)),
     print_size ''any Timestamp Escape WKT json payload size: '' (any_timestamp_escape_wkt_json (timestamps ls)),
     print_size ''short fraction timestamp json payload size: '' (short_fraction_timestamp_json (timestamps ls)),
     print_size ''any ShortFraction Timestamp WKT json payload size: '' (any_short_fraction_timestamp_wkt_json (timestamps ls)),
     print_size ''micro timestamp json payload size: '' (micro_timestamp_json (timestamps ls)),
     print_size ''any Micro Timestamp WKT json payload size: '' (any_micro_timestamp_wkt_json (timestamps ls)),
     print_size ''nano timestamp json payload size: '' (nano_timestamp_json (timestamps ls)),
     print_size ''any Nano Timestamp WKT json payload size: '' (any_nano_timestamp_wkt_json (timestamps ls)),
     print_size ''offset timestamp json payload size: '' (offset_timestamp_json (timestamps ls)),
     print_size ''any Offset Timestamp WKT json payload size: '' (any_offset_timestamp_wkt_json (timestamps ls)),
     print_size ''pre-epoch timestamp json payload size: '' (pre_epoch_timestamp_json (timestamps ls)),
     print_size ''any PreEpoch Timestamp WKT json payload size: '' (any_pre_epoch_timestamp_wkt_json (timestamps ls)),
     print_size ''max timestamp json payload size: '' (max_timestamp_json (timestamps ls)),
     print_size ''any Max Timestamp WKT json payload size: '' (any_max_timestamp_wkt_json (timestamps ls)),
     print_size ''min timestamp json payload size: '' (min_timestamp_json (timestamps ls)),
     print_size ''any Min Timestamp WKT json payload size: '' (any_min_timestamp_wkt_json (timestamps ls)),
     print_size ''duration json payload size: '' (duration_json (durations ls)),
     print_size ''duration escape json payload size: '' (duration_escape_json (durations ls)),
     print_size ''any Duration Escape WKT json payload size: '' (any_duration_escape_wkt_json (durations ls)),
     print_size ''plus duration json payload size: '' (plus_duration_json (durations ls)),
     print_size ''short fraction duration json payload size: '' (short_fraction_duration_json (durations ls)),
     print_size ''micro duration json payload size: '' (micro_duration_json (durations ls)),
     print_size ''nano duration json payload size: '' (nano_duration_json (durations ls)),
     print_size ''negative duration json payload size: '' (negative_duration_json (durations ls)),
     print_size ''fractional negative duration json payload size: '' (fractional_negative_duration_json (durations ls)),
     print_size ''max duration json payload size: '' (max_duration_json (durations ls)),
     print_size ''min duration json payload size: '' (min_duration_json (durations ls)),
     print_size ''zero duration json payload size: '' (zero_duration_json (durations ls)),
     print_size ''field mask json payload size: '' (field_mask_json (masks ls)),
     print_size ''any PlusDuration WKT json payload size: '' (any_plus_duration_wkt_json (durations ls)),
     print_size ''any ShortFractionDuration WKT json payload size: '' (any_short_fraction_duration_wkt_json (durations ls)),
     print_size ''any MicroDuration WKT json payload size: '' (any_micro_duration_wkt_json (durations ls)),
     print_size ''any NanoDuration WKT json payload size: '' (any_nano_duration_wkt_json (durations ls)),
     print_size ''any NegativeDuration WKT json payload size: '' (any_negative_duration_wkt_json (durations ls)),
     print_size ''any FractionalNegativeDuration WKT json payload size: '' (any_fractional_negative_duration_wkt_json (durations ls)),
     print_size ''any MaxDuration WKT json payload size: '' (any_max_duration_wkt_json (durations ls)),
     print_size ''any MinDuration WKT json payload size: '' (any_min_duration_wkt_json (durations ls)),
     print_size ''any ZeroDuration WKT json payload size: '' (any_zero_duration_wkt_json (durations ls)),
     print_size ''field mask escape json payload size: '' (field_mask_escape_json (masks ls)),
     print_size ''any FieldMask Escape WKT json payload size: '' (any_field_mask_escape_wkt_json (masks ls)),
     print_size ''any FieldMask WKT json payload size: '' (any_field_mask_wkt_json (masks ls)),
     print_size ''empty field mask json payload size: '' (empty_field_mask_json (masks ls)),
     print_size ''any EmptyFieldMask WKT json payload size: '' (any_empty_field_mask_wkt_json (masks ls)),
     print_size ''empty json payload size: '' (empty_json (structs ls)),
     print_size ''any Empty WKT json payload size: '' (any_empty_wkt_json (structs ls)),
     print_size ''struct json payload size: '' (struct_json (structs ls)),
     print_size ''struct escape json payload size: '' (struct_escape_json (structs ls)),
     print_size ''struct number exponent json payload size: '' (struct_number_exponent_json (structs ls)),
     print_size ''struct surrogate json payload size: '' (struct_surrogate_json (structs ls)),
     print_size ''struct key-surrogate json payload size: '' (struct_key_surrogate_json (structs ls)),
     print_size ''value json payload size: '' (value_json (value_kinds ls)),
     print_size ''value escape json payload size: '' (value_escape_json (value_kinds ls)),
     print_size ''value number exponent json payload size: '' (value_number_exponent_json (value_kinds ls)),
     print_size ''value surrogate json payload size: '' (value_surrogate_json (value_kinds ls)),
     print_size ''value key-surrogate json payload size: '' (value_key_surrogate_json (value_kinds ls))]\<close>

definition print_sizes_2 :: \<open>main_locals \<Rightarrow> unit prog\<close> where
  \<open>print_sizes_2 ls = sequence
    [print_size ''list value json payload size: '' (list_value_json (list_kinds ls)),
     print_size ''list value escape json payload size: '' (list_value_escape_json (list_kinds ls)),
     print_size ''empty list value json payload size: '' (empty_list_value_json (list_kinds ls)),
     print_size ''any Struct WKT json payload size: '' (any_struct_wkt_json (structs ls)),
     print_size ''any Struct Escape WKT json payload size: '' (any_struct_escape_wkt_json (structs ls)),
     print_size ''any Struct NumberExponent WKT json payload size: '' (any_struct_number_exponent_wkt_json (structs ls)),
     print_size ''any Struct Surrogate WKT json payload size: '' (any_struct_surrogate_wkt_json (structs ls)),
     print_size ''any Struct KeySurrogate WKT json payload size: '' (any_struct_key_surrogate_wkt_json (structs ls)),
     print_size ''empty struct json payload size: '' (empty_struct_json (structs ls)),
     print_size ''any EmptyStruct WKT json payload size: '' (any_empty_struct_wkt_json (structs ls)),
     print_size ''any Value WKT json payload size: '' (any_value_wkt_json (value_kinds ls)),
     print_size ''any Value Escape WKT json payload size: '' (any_value_escape_wkt_json (value_kinds ls)),
     print_size ''any Value NumberExponent WKT json payload size: '' (any_value_number_exponent_wkt_json (value_kinds ls)),
     print_size ''any Value Surrogate WKT json payload size: '' (any_value_surrogate_wkt_json (value_kinds ls)),
     print_size ''any Value KeySurrogate WKT json payload size: '' (any_value_key_surrogate_wkt_json (value_kinds ls)),
     print_size ''null value json payload size: '' (null_value_json (value_kinds ls)),
     print_size ''any NullValue WKT json payload size: '' (any_null_value_wkt_json (value_kinds ls)),
     print_size ''string scalar value json payload size: '' (string_scalar_value_json (value_kinds ls)),
     print_size ''string scalar value escape json payload size: '' (string_scalar_value_escape_json (value_kinds ls)),
     print_size ''string scalar value surrogate json payload size: '' (string_scalar_value_surrogate_json (value_kinds ls)),
     print_size ''any StringScalarValue WKT json payload size: '' (any_string_scalar_value_wkt_json (value_kinds ls)),
     print_size ''any StringScalarValue Escape WKT json payload size: '' (any_string_scalar_value_escape_wkt_json (value_kinds ls)),
     print_size ''any StringScalarValue Surrogate WKT json payload size: '' (any_string_scalar_value_surrogate_wkt_json (value_kinds ls)),
     print_size ''empty string scalar value json payload size: '' (empty_string_scalar_value_json (value_kinds ls)),
     print_size ''any EmptyStringScalarValue WKT json payload size: '' (any_empty_string_scalar_value_wkt_json (value_kinds ls)),
     print_size ''number value json payload size: '' (number_value_json (value_kinds ls)),
     print_size ''any NumberValue WKT json payload size: '' (any_number_value_wkt_json (value_kinds ls)),
     print_size ''negative number value json payload size: '' (negative_number_value_json (value_kinds ls)),
     print_size ''any NegativeNumberValue WKT json payload size: '' (any_negative_number_value_wkt_json (value_kinds ls)),
     print_size ''zero number value json payload size: '' (zero_number_value_json (value_kinds ls)),
     print_size ''any ZeroNumberValue WKT json payload size: '' (any_zero_number_value_wkt_json (value_kinds ls)),
     print_size ''bool scalar value json payload size: '' (bool_scalar_value_json (value_kinds ls)),
     print_size ''any BoolScalarValue WKT json payload size: '' (any_bool_scalar_value_wkt_json (value_kinds ls)),
     print_size ''false bool scalar value json payload size: '' (false_bool_scalar_value_json (value_kinds ls)),
     print_size ''any FalseBoolScalarValue WKT json payload size: '' (any_false_bool_scalar_value_wkt_json (value_kinds ls)),
     print_size ''list-kind value json payload size: '' (list_kind_value_json (list_kinds ls)),
     print_size ''list-kind value escape json payload size: '' (list_kind_value_escape_json (list_kinds ls)),
     print_size ''list-kind value surrogate json payload size: '' (list_kind_value_surrogate_json (list_kinds ls)),
     print_size ''list value surrogate json payload size: '' (list_value_surrogate_json (list_kinds ls)),
     print_size ''any ListKindValue WKT json payload size: '' (any_list_kind_value_wkt_json (list_kinds ls)),
     print_size ''any ListKindValue Escape WKT json payload size: '' (any_list_kind_value_escape_wkt_json (list_kinds ls)),
     print_size ''any ListKindValue Surrogate WKT json payload size: '' (any_list_kind_value_surrogate_wkt_json (list_kinds ls)),
     print_size ''empty struct-kind value json payload size: '' (empty_struct_kind_value_json (list_kinds ls)),
     print_size ''any EmptyStructKindValue WKT json payload size: '' (any_empty_struct_kind_value_wkt_json (list_kinds ls)),
     print_size ''empty list-kind value json payload size: '' (empty_list_kind_value_json (list_kinds ls)),
     print_size ''any EmptyListKindValue WKT json payload size: '' (any_empty_list_kind_value_wkt_json (list_kinds ls)),
     print_size ''any StringValue WKT json payload size: '' (any_string_value_wkt_json (string_wrappers ls)),
     print_size ''any BytesValue WKT json payload size: '' (any_bytes_value_wkt_json (string_wrappers ls)),
     print_size ''nested Any WKT json payload size: '' (nested_any_wkt_json (string_wrappers ls)),
     print_size ''double value json payload size: '' (double_value_json (doubles ls)),
     print_size ''double value string json payload size: '' (double_value_string_json (doubles ls)),
     print_size ''double value exponent json payload size: '' (double_value_exponent_json (doubles ls)),
     print_size ''any DoubleValue WKT json payload size: '' (any_double_value_wkt_json (doubles ls)),
     print_size ''any DoubleValue String WKT json payload size: '' (any_double_value_string_wkt_json (doubles ls)),
     print_size ''any DoubleValue Exponent WKT json payload size: '' (any_double_value_exponent_wkt_json (doubles ls)),
     print_size ''negative double value json payload size: '' (negative_double_value_json (doubles ls)),
     print_size ''any NegativeDoubleValue WKT json payload size: '' (any_negative_double_value_wkt_json (doubles ls)),
     print_size ''zero double value json payload size: '' (zero_double_value_json (doubles ls)),
     print_size ''any ZeroDoubleValue WKT json payload size: '' (any_zero_double_value_wkt_json (doubles ls)),
     print_size ''double value NaN json payload size: '' (double_value_nan_json (doubles ls)),
     print_size ''any DoubleValue NaN WKT json payload size: '' (any_double_value_nan_wkt_json (doubles ls)),
     print_size ''double value Infinity json payload size: '' (double_value_inf_json (doubles ls)),
     print_size ''any DoubleValue Infinity WKT json payload size: '' (any_double_value_inf_wkt_json (doubles ls)),
     print_size ''double value NegativeInfinity json payload size: '' (double_value_neg_inf_json (doubles ls)),
     print_size ''any DoubleValue NegativeInfinity WKT json payload size: '' (any_double_value_neg_inf_wkt_json (doubles ls)),
     print_size ''float value json payload size: '' (float_value_json (doubles ls)),
     print_size ''float value string json payload size: '' (float_value_string_json (doubles ls)),
     print_size ''float value exponent json payload size: '' (float_value_exponent_json (doubles ls)),
     print_size ''any FloatValue WKT json payload size: '' (any_float_value_wkt_json (doubles ls)),
     print_size ''any FloatValue String WKT json payload size: '' (any_float_value_string_wkt_json (doubles ls))]\<close>

definition print_sizes_3 :: \<open>main_locals \<Rightarrow> unit prog\<close> where
  \<open>print_sizes_3 ls = sequence
    [print_size ''any FloatValue Exponent WKT json payload size: '' (any_float_value_exponent_wkt_json (doubles ls)),
     print_size ''negative float value json payload size: '' (negative_float_value_json (doubles ls)),
     print_size ''any NegativeFloatValue WKT json payload size: '' (any_negative_float_value_wkt_json (doubles ls)),
     print_size ''zero float value json payload size: '' (zero_float_value_json (doubles ls)),
     print_size ''any ZeroFloatValue WKT json payload size: '' (any_zero_float_value_wkt_json (doubles ls)),
     print_size ''float value NaN json payload size: '' (float_value_nan_json (doubles ls)),
     print_size ''any FloatValue NaN WKT json payload size: '' (any_float_value_nan_wkt_json (doubles ls)),
     print_size ''float value Infinity json payload size: '' (float_value_inf_json (doubles ls)),
     print_size ''any FloatValue Infinity WKT json payload size: '' (any_float_value_inf_wkt_json (doubles ls)),
     print_size ''float value NegativeInfinity json payload size: '' (float_value_neg_inf_json (doubles ls)),
     print_size ''any FloatValue NegativeInfinity WKT json payload size: '' (any_float_value_neg_inf_wkt_json (doubles ls)),
     print_size ''int64 value json payload size: '' (int64_value_json (int64s ls)),
     print_size ''int64 value number json payload size: '' (int64_value_number_json (int64s ls)),
     print_size ''int64 value exponent json payload size: '' (int64_value_exponent_json (int64s ls)),
     print_size ''any Int64Value WKT json payload size: '' (any_int64_value_wkt_json (int64s ls)),
     print_size ''any Int64Value Number WKT json payload size: '' (any_int64_value_number_wkt_json (int64s ls)),
     print_size ''any Int64Value Exponent WKT json payload size: '' (any_int64_value_exponent_wkt_json (int64s ls)),
     print_size ''zero int64 value json payload size: '' (zero_int64_value_json (int64s ls)),
     print_size ''any ZeroInt64Value WKT json payload size: '' (any_zero_int64_value_wkt_json (int64s ls)),
     print_size ''negative int64 value json payload size: '' (negative_int64_value_json (int64s ls)),
     print_size ''any NegativeInt64Value WKT json payload size: '' (any_negative_int64_value_wkt_json (int64s ls)),
     print_size ''min int64 value json payload size: '' (min_int64_value_json (int64s ls)),
     print_size ''any MinInt64Value WKT json payload size: '' (any_min_int64_value_wkt_json (int64s ls)),
     print_size ''max int64 value json payload size: '' (max_int64_value_json (int64s ls)),
     print_size ''any MaxInt64Value WKT json payload size: '' (any_max_int64_value_wkt_json (int64s ls)),
     print_size ''uint64 value json payload size: '' (uint64_value_json (int64s ls)),
     print_size ''uint64 value number json payload size: '' (uint64_value_number_json (int64s ls)),
     print_size ''uint64 value exponent json payload size: '' (uint64_value_exponent_json (int64s ls)),
     print_size ''any UInt64Value WKT json payload size: '' (any_uint64_value_wkt_json (int64s ls)),
     print_size ''any UInt64Value Number WKT json payload size: '' (any_uint64_value_number_wkt_json (int64s ls)),
     print_size ''any UInt64Value Exponent WKT json payload size: '' (any_uint64_value_exponent_wkt_json (int64s ls)),
     print_size ''zero uint64 value json payload size: '' (zero_uint64_value_json (int64s ls)),
     print_size ''any ZeroUInt64Value WKT json payload size: '' (any_zero_uint64_value_wkt_json (int64s ls)),
     print_size ''max uint64 value json payload size: '' (max_uint64_value_json (int64s ls)),
     print_size ''any MaxUInt64Value WKT json payload size: '' (any_max_uint64_value_wkt_json (int64s ls)),
     print_size ''int32 value json payload size: '' (int32_value_json (int32s ls)),
     print_size ''int32 value string json payload size: '' (int32_value_string_json (int32s ls)),
     print_size ''int32 value exponent json payload size: '' (int32_value_exponent_json (int32s ls)),
     print_size ''any Int32Value WKT json payload size: '' (any_int32_value_wkt_json (int32s ls)),
     print_size ''any Int32Value String WKT json payload size: '' (any_int32_value_string_wkt_json (int32s ls)),
     print_size ''any Int32Value Exponent WKT json payload size: '' (any_int32_value_exponent_wkt_json (int32s ls)),
     print_size ''zero int32 value json payload size: '' (zero_int32_value_json (int32s ls)),
     print_size ''any ZeroInt32Value WKT json payload size: '' (any_zero_int32_value_wkt_json (int32s ls)),
     print_size ''negative int32 value json payload size: '' (negative_int32_value_json (int32s ls)),
     print_size ''any NegativeInt32Value WKT json payload size: '' (any_negative_int32_value_wkt_json (int32s ls)),
     print_size ''min int32 value json payload size: '' (min_int32_value_json (int32s ls)),
     print_size ''any MinInt32Value WKT json payload size: '' (any_min_int32_value_wkt_json (int32s ls)),
     print_size ''max int32 value json payload size: '' (max_int32_value_json (int32s ls)),
     print_size ''any MaxInt32Value WKT json payload size: '' (any_max_int32_value_wkt_json (int32s ls)),
     print_size ''uint32 value json payload size: '' (uint32_value_json (int32s ls)),
     print_size ''uint32 value string json payload size: '' (uint32_value_string_json (int32s ls)),
     print_size ''uint32 value exponent json payload size: '' (uint32_value_exponent_json (int32s ls)),
     print_size ''any UInt32Value WKT json payload size: '' (any_uint32_value_wkt_json (int32s ls)),
     print_size ''any UInt32Value String WKT json payload size: '' (any_uint32_value_string_wkt_json (int32s ls)),
     print_size ''any UInt32Value Exponent WKT json payload size: '' (any_uint32_value_exponent_wkt_json (int32s ls)),
     print_size ''zero uint32 value json payload size: '' (zero_uint32_value_json (int32s ls)),
     print_size ''any ZeroUInt32Value WKT json payload size: '' (any_zero_uint32_value_wkt_json (int32s ls)),
     print_size ''max uint32 value json payload size: '' (max_uint32_value_json (int32s ls)),
     print_size ''any MaxUInt32Value WKT json payload size: '' (any_max_uint32_value_wkt_json (int32s ls)),
     print_size ''bool value json payload size: '' (bool_value_json (string_wrappers ls)),
     print_size ''any BoolValue WKT json payload size: '' (any_bool_value_wkt_json (string_wrappers ls)),
     print_size ''false bool value json payload size: '' (false_bool_value_json (string_wrappers ls)),
     print_size ''any FalseBoolValue WKT json payload size: '' (any_false_bool_value_wkt_json (string_wrappers ls)),
     print_size ''string value json payload size: '' (string_value_json (string_wrappers ls)),
     print_size ''string value escape json payload size: '' (string_value_escape_json (string_wrappers ls)),
     print_size ''string value surrogate json payload size: '' (string_value_surrogate_json (string_wrappers ls)),
     print_size ''any StringValue Escape WKT json payload size: '' (any_string_value_escape_wkt_json (string_wrappers ls)),
     print_size ''any StringValue Surrogate WKT json payload size: '' (any_string_value_surrogate_wkt_json (string_wrappers ls)),
     print_size ''empty string value json payload size: '' (empty_string_value_json (string_wrappers ls)),
     print_size ''any EmptyStringValue WKT json payload size: '' (any_empty_string_value_wkt_json (string_wrappers ls))]\<close>

definition print_sizes_4 :: \<open>main_locals \<Rightarrow> unit prog\<close> where
  \<open>print_sizes_4 ls = sequence
    [print_size ''bytes value json payload size: '' (bytes_value_json (string_wrappers ls)),
     print_size ''bytes value URL json payload size: '' (bytes_value_url_json (string_wrappers ls)),
     print_size ''bytes value StandardBase64 json payload size: '' (bytes_value_standard_base64_json (string_wrappers ls)),
     print_size ''bytes value unpadded json payload size: '' (bytes_value_unpadded_json (string_wrappers ls)),
     print_size ''any BytesValue URL WKT json payload size: '' (any_bytes_value_url_wkt_json (string_wrappers ls)),
     print_size ''any BytesValue StandardBase64 WKT json payload size: '' (any_bytes_value_standard_base64_wkt_json (string_wrappers ls)),
     print_size ''any BytesValue Unpadded WKT json payload size: '' (any_bytes_value_unpadded_wkt_json (string_wrappers ls)),
     print_size ''empty bytes value json payload size: '' (empty_bytes_value_json (string_wrappers ls)),
     print_size ''any EmptyBytesValue WKT json payload size: '' (any_empty_bytes_value_wkt_json (string_wrappers ls)),
     print_size ''any WKT json payload size: '' (any_wkt_json (durations ls)),
     print_size ''text payload size: '' (person_text (encodings ls)),
     print_size ''scalarmix payload size: '' (scalarmix_bytes (encodings ls)),
     print_size ''textbytes payload size: '' (textbytes_bytes (encodings ls)),
     print_size ''textbytes json payload size: '' (textbytes_json (encodings ls)),
     print_size ''large map json payload size: '' (large_map_json (packeds ls)),
     print_size ''largebytes payload size: '' (largebytes_bytes (encodings ls)),
     print_size ''presencemix payload size: '' (presencemix_bytes (encodings ls)),
     print_size ''complex payload size: '' (complex_bytes (encodings ls)),
     print_size ''complex json payload size: '' (complex_json (encodings ls)),
     print_size ''complex proto-name json payload size: '' (complex_proto_name_json (encodings ls)),
     print_size ''complex text payload size: '' (complex_text (encodings ls)),
     print_size ''packed payload size: '' (packed_bytes (packeds ls)),
     print_size ''fixed32 packed payload size: '' (fixed_packed_bytes (packeds ls)),
     print_size ''fixed64 packed payload size: '' (fixed64_packed_bytes (packeds ls)),
     print_size ''sfixed32 packed payload size: '' (sfixed_packed_bytes (packeds ls)),
     print_size ''sfixed64 packed payload size: '' (sfixed64_packed_bytes (packeds ls)),
     print_size ''float packed payload size: '' (float_packed_bytes (packeds ls)),
     print_size ''double packed payload size: '' (double_packed_bytes (packeds ls)),
     print_size ''uint64 packed payload size: '' (uint64_packed_bytes (packeds ls)),
     print_size ''uint32 packed payload size: '' (uint32_packed_bytes (packeds ls)),
     print_size ''int64 packed payload size: '' (int64_packed_bytes (packeds ls)),
     print_size ''sint32 packed payload size: '' (sint32_packed_bytes (packeds ls)),
     print_size ''sint64 packed payload size: '' (sint64_packed_bytes (packeds ls)),
     print_size ''bool packed payload size: '' (bool_packed_bytes (packeds ls)),
     print_size ''enum packed payload size: '' (enum_packed_bytes (packeds ls)),
     print_size ''large map payload size: '' (large_map_bytes (packeds ls)),
     print_size ''shuffled large map payload size: '' (shuffled_large_map_bytes (packeds ls))]\<close>

definition print_sizes :: \<open>main_locals \<Rightarrow> unit prog\<close> where
  \<open>print_sizes ls = sequence [print_sizes_1 ls, print_sizes_2 ls, print_sizes_3 ls, print_sizes_4 ls]\<close>

end
