(* ===== verification/Cpp_Main.thy ===== *)
theory Cpp_Main
  imports Cpp_Sizes
begin

text \<open>
  The benchmarks of \<open>main\<close>, lines 1836 to 3843, in the order of the code, and \<open>main\<close> itself.
\<close>

section \<open>Unknown fields\<close>

definition unknown_decode :: "protobuf \<Rightarrow> string \<Rightarrow> body" where
  "unknown_decode L payload =
     orAbort (ParseFromString L payload (Person default_person)) (\<lambda>d.
     tryIn (abortIf (int (length (unknown_fields (the_person d))) \<noteq> kUnknownFieldStressCount)) (\<lambda>_.
     observe (SeenMessage d)))"

definition unknown_count :: "person \<Rightarrow> body" where
  "unknown_count p =
     (let cnt = UnknownFieldCountByNumber (unknown_fields p) kUnknownFieldStressFirstNumber in
      tryIn (abortIf (cnt \<noteq> kUnknownFieldStressCountPerNumber)) (\<lambda>_.
      observe (SeenInt cnt)))"

section \<open>The benchmarks\<close>

definition bench_1 :: \<open>protobuf \<Rightarrow> main_locals \<Rightarrow> unit prog\<close> where
  \<open>bench_1 L ls = sequence
    [timed L ''c++ protobuf binary encode'' kIterations (length (person_bytes (core ls))) captured_default (encode_fresh L (Person (person (core ls)))),
     timed L ''c++ protobuf binary encode reuse'' kIterations (length (person_bytes (core ls))) with_reserved (encode_reuse L (Person (person (core ls)))),
     timed L ''c++ protobuf binary SerializeToArray reuse'' kIterations (length (person_bytes (core ls))) (with_resized (length (person_bytes (core ls)))) (encode_array L (Person (person (core ls)))),
     timed L ''c++ protobuf deterministic binary encode reuse'' kIterations (length (person_bytes (core ls))) (with_resized (length (person_bytes (core ls)))) (encode_deterministic L (Person (person (core ls)))),
     timed L ''c++ protobuf binary decode'' kIterations (length (person_bytes (core ls))) captured_default (decode_fresh L (Person default_person) (person_bytes (core ls))),
     timed L ''c++ protobuf binary decode reuse'' kIterations (length (person_bytes (core ls))) (with_target (Person default_person)) (decode_reuse L (person_bytes (core ls))),
     timed L ''c++ protobuf unknown fields decode'' 1000 (length (unknown_bytes (core ls))) captured_default (unknown_decode L (unknown_bytes (core ls))),
     timed L ''c++ protobuf unknown fields count by number'' kIterations (length (unknown_bytes (core ls))) captured_default (unknown_count (unknown_person (core ls))),
     timed L ''c++ protobuf scalarmix encode'' kIterations (length (scalarmix_bytes (encodings ls))) captured_default (encode_fresh L (ScalarMix (scalarmix (core ls)))),
     timed L ''c++ protobuf scalarmix SerializeToArray reuse'' kIterations (length (scalarmix_bytes (encodings ls))) (with_resized (length (scalarmix_bytes (encodings ls)))) (encode_array L (ScalarMix (scalarmix (core ls)))),
     timed L ''c++ protobuf scalarmix decode'' kIterations (length (scalarmix_bytes (encodings ls))) captured_default (decode_fresh L (ScalarMix default_scalar_mix) (scalarmix_bytes (encodings ls)))]\<close>

definition bench_2 :: \<open>protobuf \<Rightarrow> main_locals \<Rightarrow> unit prog\<close> where
  \<open>bench_2 L ls = sequence
    [timed L ''c++ protobuf scalarmix decode reuse'' kIterations (length (scalarmix_bytes (encodings ls))) (with_target (ScalarMix default_scalar_mix)) (decode_reuse L (scalarmix_bytes (encodings ls))),
     timed L ''c++ protobuf textbytes encode'' kIterations (length (textbytes_bytes (encodings ls))) captured_default (encode_fresh L (TextBytes (textbytes (core ls)))),
     timed L ''c++ protobuf textbytes encode reuse'' kIterations (length (textbytes_bytes (encodings ls))) with_reserved (encode_reuse L (TextBytes (textbytes (core ls)))),
     timed L ''c++ protobuf textbytes SerializeToArray reuse'' kIterations (length (textbytes_bytes (encodings ls))) (with_resized (length (textbytes_bytes (encodings ls)))) (encode_array L (TextBytes (textbytes (core ls)))),
     timed L ''c++ protobuf textbytes decode'' kIterations (length (textbytes_bytes (encodings ls))) captured_default (decode_fresh L (TextBytes default_text_bytes) (textbytes_bytes (encodings ls))),
     timed L ''c++ protobuf textbytes decode reuse'' kIterations (length (textbytes_bytes (encodings ls))) (with_target (TextBytes default_text_bytes)) (decode_reuse L (textbytes_bytes (encodings ls))),
     timed L ''c++ protobuf TextBytes JSON stringify'' kIterations (length (textbytes_json (encodings ls))) captured_default (json_stringify L default_print_options (TextBytes (textbytes (core ls)))),
     timed L ''c++ protobuf TextBytes JSON parse'' kIterations (length (textbytes_json (encodings ls))) captured_default (json_parse L default_parse_options (TextBytes default_text_bytes) (textbytes_json (encodings ls))),
     timed L ''c++ protobuf largebytes encode'' kIterations (length (largebytes_bytes (encodings ls))) captured_default (encode_fresh L (LargeBytes (largebytes (core ls)))),
     timed L ''c++ protobuf largebytes encode reuse'' kIterations (length (largebytes_bytes (encodings ls))) with_reserved (encode_reuse L (LargeBytes (largebytes (core ls)))),
     timed L ''c++ protobuf largebytes SerializeToArray reuse'' kIterations (length (largebytes_bytes (encodings ls))) (with_resized (length (largebytes_bytes (encodings ls)))) (encode_array L (LargeBytes (largebytes (core ls))))]\<close>

definition bench_3 :: \<open>protobuf \<Rightarrow> main_locals \<Rightarrow> unit prog\<close> where
  \<open>bench_3 L ls = sequence
    [timed L ''c++ protobuf largebytes decode'' kIterations (length (largebytes_bytes (encodings ls))) captured_default (decode_fresh L (LargeBytes default_large_bytes) (largebytes_bytes (encodings ls))),
     timed L ''c++ protobuf largebytes decode reuse'' kIterations (length (largebytes_bytes (encodings ls))) (with_target (LargeBytes default_large_bytes)) (decode_reuse L (largebytes_bytes (encodings ls))),
     timed L ''c++ protobuf presencemix encode'' kIterations (length (presencemix_bytes (encodings ls))) captured_default (encode_fresh L (PresenceMix (presencemix (core ls)))),
     timed L ''c++ protobuf presencemix encode reuse'' kIterations (length (presencemix_bytes (encodings ls))) with_reserved (encode_reuse L (PresenceMix (presencemix (core ls)))),
     timed L ''c++ protobuf presencemix SerializeToArray reuse'' kIterations (length (presencemix_bytes (encodings ls))) (with_resized (length (presencemix_bytes (encodings ls)))) (encode_array L (PresenceMix (presencemix (core ls)))),
     timed L ''c++ protobuf presencemix decode'' kIterations (length (presencemix_bytes (encodings ls))) captured_default (decode_fresh L (PresenceMix default_presence_mix) (presencemix_bytes (encodings ls))),
     timed L ''c++ protobuf presencemix decode reuse'' kIterations (length (presencemix_bytes (encodings ls))) (with_target (PresenceMix default_presence_mix)) (decode_reuse L (presencemix_bytes (encodings ls))),
     timed L ''c++ protobuf PresenceMix JSON stringify'' kIterations (length (presencemix_json (json_inputs ls))) captured_default (json_stringify L default_print_options (PresenceMix (presencemix (core ls)))),
     timed L ''c++ protobuf PresenceMix JSON parse'' kIterations (length (presencemix_json (json_inputs ls))) captured_default (json_parse L default_parse_options (PresenceMix default_presence_mix) (presencemix_json (json_inputs ls))),
     timed L ''c++ protobuf complex encode'' kIterations (length (complex_bytes (encodings ls))) captured_default (encode_fresh L (Complex (complex_message (core ls)))),
     timed L ''c++ protobuf complex encode reuse'' kIterations (length (complex_bytes (encodings ls))) with_reserved (encode_reuse L (Complex (complex_message (core ls))))]\<close>

definition bench_4 :: \<open>protobuf \<Rightarrow> main_locals \<Rightarrow> unit prog\<close> where
  \<open>bench_4 L ls = sequence
    [timed L ''c++ protobuf complex SerializeToArray reuse'' kIterations (length (complex_bytes (encodings ls))) (with_resized (length (complex_bytes (encodings ls)))) (encode_array L (Complex (complex_message (core ls)))),
     timed L ''c++ protobuf complex deterministic binary encode reuse'' kIterations (length (complex_bytes (encodings ls))) (with_resized (length (complex_bytes (encodings ls)))) (encode_deterministic L (Complex (complex_message (core ls)))),
     timed L ''c++ protobuf complex decode'' kIterations (length (complex_bytes (encodings ls))) captured_default (decode_fresh L (Complex default_complex) (complex_bytes (encodings ls))),
     timed L ''c++ protobuf complex decode reuse'' kIterations (length (complex_bytes (encodings ls))) (with_target (Complex default_complex)) (decode_reuse L (complex_bytes (encodings ls))),
     timed L ''c++ protobuf complex JSON stringify'' kIterations (length (complex_json (encodings ls))) captured_default (json_stringify L default_print_options (Complex (complex_message (core ls)))),
     timed L ''c++ protobuf complex JSON stringify reuse'' kIterations (length (complex_json (encodings ls))) with_reserved (json_stringify_reuse L (Complex (complex_message (core ls)))),
     timed L ''c++ protobuf complex JSON parse'' kIterations (length (complex_json (encodings ls))) captured_default (json_parse L default_parse_options (Complex default_complex) (complex_json (encodings ls))),
     timed L ''c++ protobuf complex JSON parse reuse'' kIterations (length (complex_json (encodings ls))) (with_target (Complex default_complex)) (json_parse_reuse L (complex_json (encodings ls))),
     timed L ''c++ protobuf Complex ProtoName JSON stringify'' kIterations (length (complex_proto_name_json (encodings ls))) captured_default (json_stringify L (proto_name_json_options (print_opts ls)) (Complex (complex_message (core ls)))),
     timed L ''c++ protobuf Complex ProtoName JSON parse'' kIterations (length (complex_proto_name_json (encodings ls))) captured_default (json_parse L default_parse_options (Complex default_complex) (complex_proto_name_json (encodings ls)))]\<close>

definition bench_5 :: \<open>protobuf \<Rightarrow> main_locals \<Rightarrow> unit prog\<close> where
  \<open>bench_5 L ls = sequence
    [timed L ''c++ protobuf complex TextFormat format'' kIterations (length (complex_text (encodings ls))) captured_default (text_format L (Complex (complex_message (core ls)))),
     timed L ''c++ protobuf complex TextFormat format reuse'' kIterations (length (complex_text (encodings ls))) with_reserved (text_format_reuse L (Complex (complex_message (core ls)))),
     timed L ''c++ protobuf complex TextFormat parse'' kIterations (length (complex_text (encodings ls))) captured_default (text_parse L (Complex default_complex) (complex_text (encodings ls))),
     timed L ''c++ protobuf complex TextFormat parse reuse'' kIterations (length (complex_text (encodings ls))) (with_target (Complex default_complex)) (text_parse_reuse L (complex_text (encodings ls))),
     timed L ''c++ protobuf JSON stringify'' kIterations (length (person_json (core ls))) captured_default (json_stringify L default_print_options (Person (person (core ls)))),
     timed L ''c++ protobuf ScalarMix JSON stringify'' kIterations (length (scalarmix_json (core ls))) captured_default (json_stringify L default_print_options (ScalarMix (scalarmix (core ls)))),
     timed L ''c++ protobuf AlwaysPrint JSON stringify'' kIterations (length (always_print_stringify_json (print_opts ls))) captured_default (json_stringify L (always_print_json_options (print_opts ls)) (Person (empty_person (print_opts ls)))),
     timed L ''c++ protobuf ProtoName JSON stringify'' kIterations (length (proto_name_stringify_json (print_opts ls))) captured_default (json_stringify L (proto_name_json_options (print_opts ls)) (ScalarMix (scalarmix (core ls)))),
     timed L ''c++ protobuf EnumNumber JSON stringify'' kIterations (length (enum_number_stringify_json (print_opts ls))) captured_default (json_stringify L (enum_number_json_options (print_opts ls)) (ScalarMix (scalarmix (core ls)))),
     timed L ''c++ protobuf JSON stringify reuse'' kIterations (length (person_json (core ls))) with_reserved (json_stringify_reuse L (Person (person (core ls)))),
     timed L ''c++ protobuf JSON parse'' kIterations (length (person_json (core ls))) captured_default (json_parse L default_parse_options (Person default_person) (person_json (core ls)))]\<close>

definition bench_6 :: \<open>protobuf \<Rightarrow> main_locals \<Rightarrow> unit prog\<close> where
  \<open>bench_6 L ls = sequence
    [timed L ''c++ protobuf JSON parse reuse'' kIterations (length (person_json (core ls))) (with_target (Person default_person)) (json_parse_reuse L (person_json (core ls))),
     timed L ''c++ protobuf ScalarMix JSON parse'' kIterations (length (scalarmix_json (core ls))) captured_default (json_parse L default_parse_options (ScalarMix default_scalar_mix) (scalarmix_json (core ls))),
     timed L ''c++ protobuf MapKeySurrogate JSON parse'' kIterations (length (map_key_surrogate_json (json_inputs ls))) captured_default (json_parse L default_parse_options (Person default_person) (map_key_surrogate_json (json_inputs ls))),
     timed L ''c++ protobuf NullFields JSON parse'' kIterations (length (null_fields_json (json_inputs ls))) captured_default (json_parse L default_parse_options (Person default_person) (null_fields_json (json_inputs ls))),
     timed L ''c++ protobuf IgnoreUnknown JSON parse'' kIterations (length (ignore_unknown_json (json_inputs ls))) captured_default (json_parse L (ignore_unknown_json_options (json_inputs ls)) (Person default_person) (ignore_unknown_json (json_inputs ls))),
     timed L ''c++ protobuf OpenEnum JSON parse'' kIterations (length (open_enum_json (json_inputs ls))) captured_default (json_parse L default_parse_options (ScalarMix default_scalar_mix) (open_enum_json (json_inputs ls))),
     timed L ''c++ protobuf EnumName JSON parse'' kIterations (length (enum_name_json (json_inputs ls))) captured_default (json_parse L default_parse_options (ScalarMix default_scalar_mix) (enum_name_json (json_inputs ls))),
     timed L ''c++ protobuf ProtoName JSON parse'' kIterations (length (proto_name_json (json_inputs ls))) captured_default (json_parse L default_parse_options (ScalarMix default_scalar_mix) (proto_name_json (json_inputs ls))),
     timed L ''c++ protobuf IntExponent JSON parse'' kIterations (length (int_exponent_json (json_inputs ls))) captured_default (json_parse L default_parse_options (ScalarMix default_scalar_mix) (int_exponent_json (json_inputs ls))),
     timed L ''c++ protobuf StringNumber JSON parse'' kIterations (length (string_number_json (json_inputs ls))) captured_default (json_parse L default_parse_options (ScalarMix default_scalar_mix) (string_number_json (json_inputs ls))),
     RunWktJsonBenchPair L ''Any WKT'' (any_wkt (durations ls)) (any_wkt_json (durations ls)) kIterations,
     RunWktJsonParseOnly L (Any \<lparr>type_url = [], any_value = []\<rparr>) ''Any Duration Escape WKT'' (any_duration_escape_wkt_json (durations ls)) kIterations]\<close>

definition bench_7 :: \<open>protobuf \<Rightarrow> main_locals \<Rightarrow> unit prog\<close> where
  \<open>bench_7 L ls = sequence
    [timed L ''c++ protobuf Any PlusDuration WKT JSON parse'' kIterations (length (any_plus_duration_wkt_json (durations ls))) captured_default (json_parse L default_parse_options (Any \<lparr>type_url = [], any_value = []\<rparr>) (any_plus_duration_wkt_json (durations ls))),
     timed L ''c++ protobuf Any ShortFractionDuration WKT JSON parse'' kIterations (length (any_short_fraction_duration_wkt_json (durations ls))) captured_default (json_parse L default_parse_options (Any \<lparr>type_url = [], any_value = []\<rparr>) (any_short_fraction_duration_wkt_json (durations ls))),
     RunWktJsonBenchPair L ''Any MicroDuration WKT'' (any_micro_duration_wkt (durations ls)) (any_micro_duration_wkt_json (durations ls)) kIterations,
     RunWktJsonBenchPair L ''Any NanoDuration WKT'' (any_nano_duration_wkt (durations ls)) (any_nano_duration_wkt_json (durations ls)) kIterations,
     RunWktJsonBenchPair L ''Any NegativeDuration WKT'' (any_negative_duration_wkt (durations ls)) (any_negative_duration_wkt_json (durations ls)) kIterations,
     RunWktJsonBenchPair L ''Any FractionalNegativeDuration WKT'' (any_fractional_negative_duration_wkt (durations ls)) (any_fractional_negative_duration_wkt_json (durations ls)) kIterations,
     RunWktJsonBenchPair L ''Any MaxDuration WKT'' (any_max_duration_wkt (durations ls)) (any_max_duration_wkt_json (durations ls)) kIterations,
     RunWktJsonBenchPair L ''Any MinDuration WKT'' (any_min_duration_wkt (durations ls)) (any_min_duration_wkt_json (durations ls)) kIterations,
     RunWktJsonBenchPair L ''Any ZeroDuration WKT'' (any_zero_duration_wkt (durations ls)) (any_zero_duration_wkt_json (durations ls)) kIterations,
     RunWktJsonBenchPair L ''Any FieldMask WKT'' (any_field_mask_wkt (masks ls)) (any_field_mask_wkt_json (masks ls)) kIterations,
     RunWktJsonParseOnly L (Any \<lparr>type_url = [], any_value = []\<rparr>) ''Any FieldMask Escape WKT'' (any_field_mask_escape_wkt_json (masks ls)) kIterations,
     RunWktJsonBenchPair L ''Any EmptyFieldMask WKT'' (any_empty_field_mask_wkt (masks ls)) (any_empty_field_mask_wkt_json (masks ls)) kIterations,
     RunWktJsonBenchPair L ''Any Timestamp WKT'' (any_timestamp_wkt (timestamps ls)) (any_timestamp_wkt_json (timestamps ls)) kIterations,
     RunWktJsonParseOnly L (Any \<lparr>type_url = [], any_value = []\<rparr>) ''Any Timestamp Escape WKT'' (any_timestamp_escape_wkt_json (timestamps ls)) kIterations,
     RunWktJsonParseOnly L (Any \<lparr>type_url = [], any_value = []\<rparr>) ''Any ShortFraction Timestamp WKT'' (any_short_fraction_timestamp_wkt_json (timestamps ls)) kIterations,
     RunWktJsonBenchPair L ''Any Micro Timestamp WKT'' (any_micro_timestamp_wkt (timestamps ls)) (any_micro_timestamp_wkt_json (timestamps ls)) kIterations,
     RunWktJsonBenchPair L ''Any Nano Timestamp WKT'' (any_nano_timestamp_wkt (timestamps ls)) (any_nano_timestamp_wkt_json (timestamps ls)) kIterations,
     timed L ''c++ protobuf Any Offset Timestamp WKT JSON parse'' kIterations (length (any_offset_timestamp_wkt_json (timestamps ls))) captured_default (json_parse L default_parse_options (Any \<lparr>type_url = [], any_value = []\<rparr>) (any_offset_timestamp_wkt_json (timestamps ls))),
     RunWktJsonBenchPair L ''Any PreEpoch Timestamp WKT'' (any_pre_epoch_timestamp_wkt (timestamps ls)) (any_pre_epoch_timestamp_wkt_json (timestamps ls)) kIterations,
     RunWktJsonBenchPair L ''Any Max Timestamp WKT'' (any_max_timestamp_wkt (timestamps ls)) (any_max_timestamp_wkt_json (timestamps ls)) kIterations,
     RunWktJsonBenchPair L ''Any Min Timestamp WKT'' (any_min_timestamp_wkt (timestamps ls)) (any_min_timestamp_wkt_json (timestamps ls)) kIterations,
     RunWktJsonBenchPair L ''Any Empty WKT'' (any_empty_wkt (structs ls)) (any_empty_wkt_json (structs ls)) kIterations,
     RunWktJsonBenchPair L ''Any Struct WKT'' (any_struct_wkt (structs ls)) (any_struct_wkt_json (structs ls)) kIterations,
     RunWktJsonParseOnly L (Any \<lparr>type_url = [], any_value = []\<rparr>) ''Any Struct Escape WKT'' (any_struct_escape_wkt_json (structs ls)) kIterations,
     RunWktJsonParseOnly L (Any \<lparr>type_url = [], any_value = []\<rparr>) ''Any Struct NumberExponent WKT'' (any_struct_number_exponent_wkt_json (structs ls)) kIterations,
     RunWktJsonParseOnly L (Any \<lparr>type_url = [], any_value = []\<rparr>) ''Any Struct Surrogate WKT'' (any_struct_surrogate_wkt_json (structs ls)) kIterations,
     RunWktJsonParseOnly L (Any \<lparr>type_url = [], any_value = []\<rparr>) ''Any Struct KeySurrogate WKT'' (any_struct_key_surrogate_wkt_json (structs ls)) kIterations,
     RunWktJsonBenchPair L ''Any EmptyStruct WKT'' (any_empty_struct_wkt (structs ls)) (any_empty_struct_wkt_json (structs ls)) kIterations,
     RunWktJsonBenchPair L ''Any Value WKT'' (any_value_wkt (value_kinds ls)) (any_value_wkt_json (value_kinds ls)) kIterations,
     RunWktJsonParseOnly L (Any \<lparr>type_url = [], any_value = []\<rparr>) ''Any Value Escape WKT'' (any_value_escape_wkt_json (value_kinds ls)) kIterations,
     RunWktJsonParseOnly L (Any \<lparr>type_url = [], any_value = []\<rparr>) ''Any Value NumberExponent WKT'' (any_value_number_exponent_wkt_json (value_kinds ls)) kIterations,
     RunWktJsonParseOnly L (Any \<lparr>type_url = [], any_value = []\<rparr>) ''Any Value Surrogate WKT'' (any_value_surrogate_wkt_json (value_kinds ls)) kIterations,
     RunWktJsonParseOnly L (Any \<lparr>type_url = [], any_value = []\<rparr>) ''Any Value KeySurrogate WKT'' (any_value_key_surrogate_wkt_json (value_kinds ls)) kIterations,
     RunWktJsonBenchPair L ''Any NullValue WKT'' (any_null_value_wkt (value_kinds ls)) (any_null_value_wkt_json (value_kinds ls)) kIterations,
     RunWktJsonBenchPair L ''Any StringScalarValue WKT'' (any_string_scalar_value_wkt (value_kinds ls)) (any_string_scalar_value_wkt_json (value_kinds ls)) kIterations,
     RunWktJsonParseOnly L (Any \<lparr>type_url = [], any_value = []\<rparr>) ''Any StringScalarValue Escape WKT'' (any_string_scalar_value_escape_wkt_json (value_kinds ls)) kIterations,
     RunWktJsonParseOnly L (Any \<lparr>type_url = [], any_value = []\<rparr>) ''Any StringScalarValue Surrogate WKT'' (any_string_scalar_value_surrogate_wkt_json (value_kinds ls)) kIterations,
     RunWktJsonBenchPair L ''Any EmptyStringScalarValue WKT'' (any_empty_string_scalar_value_wkt (value_kinds ls)) (any_empty_string_scalar_value_wkt_json (value_kinds ls)) kIterations,
     RunWktJsonBenchPair L ''Any NumberValue WKT'' (any_number_value_wkt (value_kinds ls)) (any_number_value_wkt_json (value_kinds ls)) kIterations,
     RunWktJsonParseOnly L (Any \<lparr>type_url = [], any_value = []\<rparr>) ''Any NumberValue Exponent WKT'' (any_number_value_exponent_wkt_json (value_kinds ls)) kIterations]\<close>

definition bench_8 :: \<open>protobuf \<Rightarrow> main_locals \<Rightarrow> unit prog\<close> where
  \<open>bench_8 L ls = sequence
    [RunWktJsonBenchPair L ''Any NegativeNumberValue WKT'' (any_negative_number_value_wkt (value_kinds ls)) (any_negative_number_value_wkt_json (value_kinds ls)) kIterations,
     RunWktJsonBenchPair L ''Any ZeroNumberValue WKT'' (any_zero_number_value_wkt (value_kinds ls)) (any_zero_number_value_wkt_json (value_kinds ls)) kIterations,
     RunWktJsonBenchPair L ''Any BoolScalarValue WKT'' (any_bool_scalar_value_wkt (value_kinds ls)) (any_bool_scalar_value_wkt_json (value_kinds ls)) kIterations,
     RunWktJsonBenchPair L ''Any FalseBoolScalarValue WKT'' (any_false_bool_scalar_value_wkt (value_kinds ls)) (any_false_bool_scalar_value_wkt_json (value_kinds ls)) kIterations,
     RunWktJsonBenchPair L ''Any ListKindValue WKT'' (any_list_kind_value_wkt (list_kinds ls)) (any_list_kind_value_wkt_json (list_kinds ls)) kIterations,
     RunWktJsonParseOnly L (Any \<lparr>type_url = [], any_value = []\<rparr>) ''Any ListKindValue Escape WKT'' (any_list_kind_value_escape_wkt_json (list_kinds ls)) kIterations,
     RunWktJsonParseOnly L (Any \<lparr>type_url = [], any_value = []\<rparr>) ''Any ListKindValue Surrogate WKT'' (any_list_kind_value_surrogate_wkt_json (list_kinds ls)) kIterations,
     RunWktJsonBenchPair L ''Any EmptyStructKindValue WKT'' (any_empty_struct_kind_value_wkt (list_kinds ls)) (any_empty_struct_kind_value_wkt_json (list_kinds ls)) kIterations,
     RunWktJsonBenchPair L ''Any EmptyListKindValue WKT'' (any_empty_list_kind_value_wkt (list_kinds ls)) (any_empty_list_kind_value_wkt_json (list_kinds ls)) kIterations,
     RunWktJsonBenchPair L ''Any StringValue WKT'' (any_string_value_wkt (string_wrappers ls)) (any_string_value_wkt_json (string_wrappers ls)) kIterations,
     RunWktJsonBenchPair L ''Any BytesValue WKT'' (any_bytes_value_wkt (string_wrappers ls)) (any_bytes_value_wkt_json (string_wrappers ls)) kIterations,
     RunWktJsonBenchPair L ''Nested Any WKT'' (nested_any_wkt (string_wrappers ls)) (nested_any_wkt_json (string_wrappers ls)) kIterations,
     RunWktJsonBenchPair L ''Duration'' (Duration (any_wkt_duration (durations ls))) (duration_json (durations ls)) kIterations,
     RunWktJsonParseOnly L (Duration zero_time) ''Duration Escape'' (duration_escape_json (durations ls)) kIterations,
     timed L ''c++ protobuf PlusDuration JSON parse'' kIterations (length (plus_duration_json (durations ls))) captured_default (json_parse L default_parse_options (Duration zero_time) (plus_duration_json (durations ls))),
     timed L ''c++ protobuf ShortFractionDuration JSON parse'' kIterations (length (short_fraction_duration_json (durations ls))) captured_default (json_parse L default_parse_options (Duration zero_time) (short_fraction_duration_json (durations ls))),
     RunWktJsonBenchPair L ''MicroDuration'' (Duration (micro_duration (durations ls))) (micro_duration_json (durations ls)) kIterations,
     RunWktJsonBenchPair L ''NanoDuration'' (Duration (nano_duration (durations ls))) (nano_duration_json (durations ls)) kIterations,
     RunWktJsonBenchPair L ''NegativeDuration'' (Duration (negative_duration (durations ls))) (negative_duration_json (durations ls)) kIterations,
     RunWktJsonBenchPair L ''FractionalNegativeDuration'' (Duration (fractional_negative_duration (durations ls))) (fractional_negative_duration_json (durations ls)) kIterations,
     RunWktJsonBenchPair L ''MaxDuration'' (Duration (max_duration (durations ls))) (max_duration_json (durations ls)) kIterations,
     RunWktJsonBenchPair L ''MinDuration'' (Duration (min_duration (durations ls))) (min_duration_json (durations ls)) kIterations,
     RunWktJsonBenchPair L ''ZeroDuration'' (Duration (zero_duration (durations ls))) (zero_duration_json (durations ls)) kIterations,
     RunWktJsonBenchPair L ''FieldMask'' (FieldMask (field_mask (masks ls))) (field_mask_json (masks ls)) kIterations,
     RunWktJsonParseOnly L (FieldMask []) ''FieldMask Escape'' (field_mask_escape_json (masks ls)) kIterations,
     RunWktJsonBenchPair L ''EmptyFieldMask'' (FieldMask (empty_field_mask (masks ls))) (empty_field_mask_json (masks ls)) kIterations,
     RunWktJsonBenchPair L ''Timestamp'' (Timestamp (timestamp (timestamps ls))) (timestamp_json (timestamps ls)) kIterations,
     RunWktJsonParseOnly L (Timestamp zero_time) ''Timestamp Escape'' (timestamp_escape_json (timestamps ls)) kIterations,
     RunWktJsonParseOnly L (Timestamp zero_time) ''ShortFraction Timestamp'' (short_fraction_timestamp_json (timestamps ls)) kIterations,
     RunWktJsonBenchPair L ''Micro Timestamp'' (Timestamp (micro_timestamp (timestamps ls))) (micro_timestamp_json (timestamps ls)) kIterations,
     RunWktJsonBenchPair L ''Nano Timestamp'' (Timestamp (nano_timestamp (timestamps ls))) (nano_timestamp_json (timestamps ls)) kIterations,
     timed L ''c++ protobuf Offset Timestamp JSON parse'' kIterations (length (offset_timestamp_json (timestamps ls))) captured_default (json_parse L default_parse_options (Timestamp zero_time) (offset_timestamp_json (timestamps ls))),
     RunWktJsonBenchPair L ''PreEpoch Timestamp'' (Timestamp (pre_epoch_timestamp (timestamps ls))) (pre_epoch_timestamp_json (timestamps ls)) kIterations,
     RunWktJsonBenchPair L ''Max Timestamp'' (Timestamp (max_timestamp (timestamps ls))) (max_timestamp_json (timestamps ls)) kIterations,
     RunWktJsonBenchPair L ''Min Timestamp'' (Timestamp (min_timestamp (timestamps ls))) (min_timestamp_json (timestamps ls)) kIterations,
     RunWktJsonBenchPair L ''Empty'' (empty_value (structs ls)) (empty_json (structs ls)) kIterations,
     RunWktJsonBenchPair L ''Struct'' (Struct (struct_value (structs ls))) (struct_json (structs ls)) kIterations,
     RunWktJsonParseOnly L (Struct []) ''Struct Escape'' (struct_escape_json (structs ls)) kIterations,
     RunWktJsonParseOnly L (Struct []) ''Struct NumberExponent'' (struct_number_exponent_json (structs ls)) kIterations,
     RunWktJsonParseOnly L (Struct []) ''Struct Surrogate'' (struct_surrogate_json (structs ls)) kIterations,
     RunWktJsonParseOnly L (Struct []) ''Struct KeySurrogate'' (struct_key_surrogate_json (structs ls)) kIterations,
     RunWktJsonBenchPair L ''EmptyStruct'' (Struct (empty_struct_value (structs ls))) (empty_struct_json (structs ls)) kIterations,
     RunWktJsonBenchPair L ''Value'' (Value (value_value (value_kinds ls))) (value_json (value_kinds ls)) kIterations,
     RunWktJsonParseOnly L (Value KindNotSet) ''Value Escape'' (value_escape_json (value_kinds ls)) kIterations,
     RunWktJsonParseOnly L (Value KindNotSet) ''Value NumberExponent'' (value_number_exponent_json (value_kinds ls)) kIterations,
     RunWktJsonParseOnly L (Value KindNotSet) ''Value Surrogate'' (value_surrogate_json (value_kinds ls)) kIterations]\<close>

definition bench_9 :: \<open>protobuf \<Rightarrow> main_locals \<Rightarrow> unit prog\<close> where
  \<open>bench_9 L ls = sequence
    [RunWktJsonParseOnly L (Value KindNotSet) ''Value KeySurrogate'' (value_key_surrogate_json (value_kinds ls)) kIterations,
     RunWktJsonBenchPair L ''NullValue'' (Value (null_value_value (value_kinds ls))) (null_value_json (value_kinds ls)) kIterations,
     RunWktJsonBenchPair L ''StringScalarValue'' (Value (string_scalar_value (value_kinds ls))) (string_scalar_value_json (value_kinds ls)) kIterations,
     RunWktJsonParseOnly L (Value KindNotSet) ''StringScalarValue Escape'' (string_scalar_value_escape_json (value_kinds ls)) kIterations,
     RunWktJsonParseOnly L (Value KindNotSet) ''StringScalarValue Surrogate'' (string_scalar_value_surrogate_json (value_kinds ls)) kIterations,
     RunWktJsonBenchPair L ''EmptyStringScalarValue'' (Value (empty_string_scalar_value (value_kinds ls))) (empty_string_scalar_value_json (value_kinds ls)) kIterations,
     RunWktJsonBenchPair L ''NumberValue'' (Value (number_value (value_kinds ls))) (number_value_json (value_kinds ls)) kIterations,
     RunWktJsonParseOnly L (Value KindNotSet) ''NumberValue Exponent'' (number_value_exponent_json (value_kinds ls)) kIterations,
     RunWktJsonBenchPair L ''NegativeNumberValue'' (Value (negative_number_value (value_kinds ls))) (negative_number_value_json (value_kinds ls)) kIterations,
     RunWktJsonBenchPair L ''ZeroNumberValue'' (Value (zero_number_value (value_kinds ls))) (zero_number_value_json (value_kinds ls)) kIterations,
     RunWktJsonBenchPair L ''BoolScalarValue'' (Value (bool_scalar_value (value_kinds ls))) (bool_scalar_value_json (value_kinds ls)) kIterations,
     RunWktJsonBenchPair L ''FalseBoolScalarValue'' (Value (false_bool_scalar_value (value_kinds ls))) (false_bool_scalar_value_json (value_kinds ls)) kIterations,
     RunWktJsonBenchPair L ''ListKindValue'' (Value (list_kind_value (list_kinds ls))) (list_kind_value_json (list_kinds ls)) kIterations,
     RunWktJsonParseOnly L (Value KindNotSet) ''ListKindValue Escape'' (list_kind_value_escape_json (list_kinds ls)) kIterations,
     RunWktJsonParseOnly L (Value KindNotSet) ''ListKindValue Surrogate'' (list_kind_value_surrogate_json (list_kinds ls)) kIterations,
     RunWktJsonBenchPair L ''EmptyStructKindValue'' (Value (empty_struct_kind_value (list_kinds ls))) (empty_struct_kind_value_json (list_kinds ls)) kIterations,
     RunWktJsonBenchPair L ''EmptyListKindValue'' (Value (empty_list_kind_value (list_kinds ls))) (empty_list_kind_value_json (list_kinds ls)) kIterations,
     RunWktJsonBenchPair L ''ListValue'' (ListValue (list_value (list_kinds ls))) (list_value_json (list_kinds ls)) kIterations,
     RunWktJsonParseOnly L (ListValue []) ''ListValue Escape'' (list_value_escape_json (list_kinds ls)) kIterations,
     RunWktJsonParseOnly L (ListValue []) ''ListValue Surrogate'' (list_value_surrogate_json (list_kinds ls)) kIterations,
     RunWktJsonBenchPair L ''EmptyListValue'' (ListValue (empty_list_value (list_kinds ls))) (empty_list_value_json (list_kinds ls)) kIterations,
     RunWktJsonBenchPair L ''DoubleValue'' (DoubleValue (double_value (doubles ls))) (double_value_json (doubles ls)) kIterations,
     RunWktJsonParseOnly L (DoubleValue (Finite 0)) ''DoubleValue String'' (double_value_string_json (doubles ls)) kIterations,
     RunWktJsonParseOnly L (DoubleValue (Finite 0)) ''DoubleValue Exponent'' (double_value_exponent_json (doubles ls)) kIterations,
     RunWktJsonBenchPair L ''Any DoubleValue WKT'' (any_double_value_wkt (doubles ls)) (any_double_value_wkt_json (doubles ls)) kIterations,
     RunWktJsonParseOnly L (Any \<lparr>type_url = [], any_value = []\<rparr>) ''Any DoubleValue String WKT'' (any_double_value_string_wkt_json (doubles ls)) kIterations,
     RunWktJsonParseOnly L (Any \<lparr>type_url = [], any_value = []\<rparr>) ''Any DoubleValue Exponent WKT'' (any_double_value_exponent_wkt_json (doubles ls)) kIterations,
     RunWktJsonBenchPair L ''NegativeDoubleValue'' (DoubleValue (negative_double_value (doubles ls))) (negative_double_value_json (doubles ls)) kIterations,
     RunWktJsonBenchPair L ''Any NegativeDoubleValue WKT'' (any_negative_double_value_wkt (doubles ls)) (any_negative_double_value_wkt_json (doubles ls)) kIterations,
     RunWktJsonBenchPair L ''ZeroDoubleValue'' (DoubleValue (zero_double_value (doubles ls))) (zero_double_value_json (doubles ls)) kIterations,
     RunWktJsonBenchPair L ''Any ZeroDoubleValue WKT'' (any_zero_double_value_wkt (doubles ls)) (any_zero_double_value_wkt_json (doubles ls)) kIterations,
     RunWktJsonBenchPair L ''DoubleValue NaN'' (DoubleValue (double_value_nan (doubles ls))) (double_value_nan_json (doubles ls)) kIterations,
     RunWktJsonBenchPair L ''Any DoubleValue NaN WKT'' (any_double_value_nan_wkt (doubles ls)) (any_double_value_nan_wkt_json (doubles ls)) kIterations,
     RunWktJsonBenchPair L ''DoubleValue Infinity'' (DoubleValue (double_value_inf (doubles ls))) (double_value_inf_json (doubles ls)) kIterations,
     RunWktJsonBenchPair L ''Any DoubleValue Infinity WKT'' (any_double_value_inf_wkt (doubles ls)) (any_double_value_inf_wkt_json (doubles ls)) kIterations,
     RunWktJsonBenchPair L ''DoubleValue NegativeInfinity'' (DoubleValue (double_value_neg_inf (doubles ls))) (double_value_neg_inf_json (doubles ls)) kIterations,
     RunWktJsonBenchPair L ''Any DoubleValue NegativeInfinity WKT'' (any_double_value_neg_inf_wkt (doubles ls)) (any_double_value_neg_inf_wkt_json (doubles ls)) kIterations,
     RunWktJsonBenchPair L ''FloatValue'' (FloatValue (float_value (doubles ls))) (float_value_json (doubles ls)) kIterations,
     RunWktJsonParseOnly L (FloatValue (Finite 0)) ''FloatValue String'' (float_value_string_json (doubles ls)) kIterations,
     RunWktJsonParseOnly L (FloatValue (Finite 0)) ''FloatValue Exponent'' (float_value_exponent_json (doubles ls)) kIterations,
     RunWktJsonBenchPair L ''Any FloatValue WKT'' (any_float_value_wkt (doubles ls)) (any_float_value_wkt_json (doubles ls)) kIterations,
     RunWktJsonParseOnly L (Any \<lparr>type_url = [], any_value = []\<rparr>) ''Any FloatValue String WKT'' (any_float_value_string_wkt_json (doubles ls)) kIterations,
     RunWktJsonParseOnly L (Any \<lparr>type_url = [], any_value = []\<rparr>) ''Any FloatValue Exponent WKT'' (any_float_value_exponent_wkt_json (doubles ls)) kIterations,
     RunWktJsonBenchPair L ''NegativeFloatValue'' (FloatValue (negative_float_value (doubles ls))) (negative_float_value_json (doubles ls)) kIterations,
     RunWktJsonBenchPair L ''Any NegativeFloatValue WKT'' (any_negative_float_value_wkt (doubles ls)) (any_negative_float_value_wkt_json (doubles ls)) kIterations,
     RunWktJsonBenchPair L ''ZeroFloatValue'' (FloatValue (zero_float_value (doubles ls))) (zero_float_value_json (doubles ls)) kIterations,
     RunWktJsonBenchPair L ''Any ZeroFloatValue WKT'' (any_zero_float_value_wkt (doubles ls)) (any_zero_float_value_wkt_json (doubles ls)) kIterations,
     RunWktJsonBenchPair L ''FloatValue NaN'' (FloatValue (float_value_nan (doubles ls))) (float_value_nan_json (doubles ls)) kIterations,
     RunWktJsonBenchPair L ''Any FloatValue NaN WKT'' (any_float_value_nan_wkt (doubles ls)) (any_float_value_nan_wkt_json (doubles ls)) kIterations,
     RunWktJsonBenchPair L ''FloatValue Infinity'' (FloatValue (float_value_inf (doubles ls))) (float_value_inf_json (doubles ls)) kIterations,
     RunWktJsonBenchPair L ''Any FloatValue Infinity WKT'' (any_float_value_inf_wkt (doubles ls)) (any_float_value_inf_wkt_json (doubles ls)) kIterations,
     RunWktJsonBenchPair L ''FloatValue NegativeInfinity'' (FloatValue (float_value_neg_inf (doubles ls))) (float_value_neg_inf_json (doubles ls)) kIterations,
     RunWktJsonBenchPair L ''Any FloatValue NegativeInfinity WKT'' (any_float_value_neg_inf_wkt (doubles ls)) (any_float_value_neg_inf_wkt_json (doubles ls)) kIterations,
     RunWktJsonBenchPair L ''Int64Value'' (Int64Value (int64_value (int64s ls))) (int64_value_json (int64s ls)) kIterations,
     RunWktJsonParseOnly L (Int64Value 0) ''Int64Value Number'' (int64_value_number_json (int64s ls)) kIterations,
     RunWktJsonParseOnly L (Int64Value 0) ''Int64Value Exponent'' (int64_value_exponent_json (int64s ls)) kIterations,
     RunWktJsonBenchPair L ''Any Int64Value WKT'' (any_int64_value_wkt (int64s ls)) (any_int64_value_wkt_json (int64s ls)) kIterations,
     RunWktJsonParseOnly L (Any \<lparr>type_url = [], any_value = []\<rparr>) ''Any Int64Value Number WKT'' (any_int64_value_number_wkt_json (int64s ls)) kIterations,
     RunWktJsonParseOnly L (Any \<lparr>type_url = [], any_value = []\<rparr>) ''Any Int64Value Exponent WKT'' (any_int64_value_exponent_wkt_json (int64s ls)) kIterations,
     RunWktJsonBenchPair L ''ZeroInt64Value'' (Int64Value (zero_int64_value (int64s ls))) (zero_int64_value_json (int64s ls)) kIterations]\<close>

definition bench_10 :: \<open>protobuf \<Rightarrow> main_locals \<Rightarrow> unit prog\<close> where
  \<open>bench_10 L ls = sequence
    [RunWktJsonBenchPair L ''Any ZeroInt64Value WKT'' (any_zero_int64_value_wkt (int64s ls)) (any_zero_int64_value_wkt_json (int64s ls)) kIterations,
     RunWktJsonBenchPair L ''NegativeInt64Value'' (Int64Value (negative_int64_value (int64s ls))) (negative_int64_value_json (int64s ls)) kIterations,
     RunWktJsonBenchPair L ''Any NegativeInt64Value WKT'' (any_negative_int64_value_wkt (int64s ls)) (any_negative_int64_value_wkt_json (int64s ls)) kIterations,
     RunWktJsonBenchPair L ''MinInt64Value'' (Int64Value (min_int64_value (int64s ls))) (min_int64_value_json (int64s ls)) kIterations,
     RunWktJsonBenchPair L ''Any MinInt64Value WKT'' (any_min_int64_value_wkt (int64s ls)) (any_min_int64_value_wkt_json (int64s ls)) kIterations,
     RunWktJsonBenchPair L ''MaxInt64Value'' (Int64Value (max_int64_value (int64s ls))) (max_int64_value_json (int64s ls)) kIterations,
     RunWktJsonBenchPair L ''Any MaxInt64Value WKT'' (any_max_int64_value_wkt (int64s ls)) (any_max_int64_value_wkt_json (int64s ls)) kIterations,
     RunWktJsonBenchPair L ''UInt64Value'' (UInt64Value (uint64_value (int64s ls))) (uint64_value_json (int64s ls)) kIterations,
     RunWktJsonParseOnly L (UInt64Value 0) ''UInt64Value Number'' (uint64_value_number_json (int64s ls)) kIterations,
     RunWktJsonParseOnly L (UInt64Value 0) ''UInt64Value Exponent'' (uint64_value_exponent_json (int64s ls)) kIterations,
     RunWktJsonBenchPair L ''Any UInt64Value WKT'' (any_uint64_value_wkt (int64s ls)) (any_uint64_value_wkt_json (int64s ls)) kIterations,
     RunWktJsonParseOnly L (Any \<lparr>type_url = [], any_value = []\<rparr>) ''Any UInt64Value Number WKT'' (any_uint64_value_number_wkt_json (int64s ls)) kIterations,
     RunWktJsonParseOnly L (Any \<lparr>type_url = [], any_value = []\<rparr>) ''Any UInt64Value Exponent WKT'' (any_uint64_value_exponent_wkt_json (int64s ls)) kIterations,
     RunWktJsonBenchPair L ''ZeroUInt64Value'' (UInt64Value (zero_uint64_value (int64s ls))) (zero_uint64_value_json (int64s ls)) kIterations,
     RunWktJsonBenchPair L ''Any ZeroUInt64Value WKT'' (any_zero_uint64_value_wkt (int64s ls)) (any_zero_uint64_value_wkt_json (int64s ls)) kIterations,
     RunWktJsonBenchPair L ''MaxUInt64Value'' (UInt64Value (max_uint64_value (int64s ls))) (max_uint64_value_json (int64s ls)) kIterations,
     RunWktJsonBenchPair L ''Any MaxUInt64Value WKT'' (any_max_uint64_value_wkt (int64s ls)) (any_max_uint64_value_wkt_json (int64s ls)) kIterations,
     RunWktJsonBenchPair L ''Int32Value'' (Int32Value (int32_value (int32s ls))) (int32_value_json (int32s ls)) kIterations,
     RunWktJsonParseOnly L (Int32Value 0) ''Int32Value String'' (int32_value_string_json (int32s ls)) kIterations,
     RunWktJsonParseOnly L (Int32Value 0) ''Int32Value Exponent'' (int32_value_exponent_json (int32s ls)) kIterations,
     RunWktJsonBenchPair L ''Any Int32Value WKT'' (any_int32_value_wkt (int32s ls)) (any_int32_value_wkt_json (int32s ls)) kIterations,
     RunWktJsonParseOnly L (Any \<lparr>type_url = [], any_value = []\<rparr>) ''Any Int32Value String WKT'' (any_int32_value_string_wkt_json (int32s ls)) kIterations,
     RunWktJsonParseOnly L (Any \<lparr>type_url = [], any_value = []\<rparr>) ''Any Int32Value Exponent WKT'' (any_int32_value_exponent_wkt_json (int32s ls)) kIterations,
     RunWktJsonBenchPair L ''ZeroInt32Value'' (Int32Value (zero_int32_value (int32s ls))) (zero_int32_value_json (int32s ls)) kIterations,
     RunWktJsonBenchPair L ''Any ZeroInt32Value WKT'' (any_zero_int32_value_wkt (int32s ls)) (any_zero_int32_value_wkt_json (int32s ls)) kIterations,
     RunWktJsonBenchPair L ''NegativeInt32Value'' (Int32Value (negative_int32_value (int32s ls))) (negative_int32_value_json (int32s ls)) kIterations,
     RunWktJsonBenchPair L ''Any NegativeInt32Value WKT'' (any_negative_int32_value_wkt (int32s ls)) (any_negative_int32_value_wkt_json (int32s ls)) kIterations,
     RunWktJsonBenchPair L ''MinInt32Value'' (Int32Value (min_int32_value (int32s ls))) (min_int32_value_json (int32s ls)) kIterations,
     RunWktJsonBenchPair L ''Any MinInt32Value WKT'' (any_min_int32_value_wkt (int32s ls)) (any_min_int32_value_wkt_json (int32s ls)) kIterations,
     RunWktJsonBenchPair L ''MaxInt32Value'' (Int32Value (max_int32_value (int32s ls))) (max_int32_value_json (int32s ls)) kIterations,
     RunWktJsonBenchPair L ''Any MaxInt32Value WKT'' (any_max_int32_value_wkt (int32s ls)) (any_max_int32_value_wkt_json (int32s ls)) kIterations,
     RunWktJsonBenchPair L ''UInt32Value'' (UInt32Value (uint32_value (int32s ls))) (uint32_value_json (int32s ls)) kIterations,
     RunWktJsonParseOnly L (UInt32Value 0) ''UInt32Value String'' (uint32_value_string_json (int32s ls)) kIterations,
     RunWktJsonParseOnly L (UInt32Value 0) ''UInt32Value Exponent'' (uint32_value_exponent_json (int32s ls)) kIterations,
     RunWktJsonBenchPair L ''Any UInt32Value WKT'' (any_uint32_value_wkt (int32s ls)) (any_uint32_value_wkt_json (int32s ls)) kIterations,
     RunWktJsonParseOnly L (Any \<lparr>type_url = [], any_value = []\<rparr>) ''Any UInt32Value String WKT'' (any_uint32_value_string_wkt_json (int32s ls)) kIterations,
     RunWktJsonParseOnly L (Any \<lparr>type_url = [], any_value = []\<rparr>) ''Any UInt32Value Exponent WKT'' (any_uint32_value_exponent_wkt_json (int32s ls)) kIterations,
     RunWktJsonBenchPair L ''ZeroUInt32Value'' (UInt32Value (zero_uint32_value (int32s ls))) (zero_uint32_value_json (int32s ls)) kIterations,
     RunWktJsonBenchPair L ''Any ZeroUInt32Value WKT'' (any_zero_uint32_value_wkt (int32s ls)) (any_zero_uint32_value_wkt_json (int32s ls)) kIterations,
     RunWktJsonBenchPair L ''MaxUInt32Value'' (UInt32Value (max_uint32_value (int32s ls))) (max_uint32_value_json (int32s ls)) kIterations,
     RunWktJsonBenchPair L ''Any MaxUInt32Value WKT'' (any_max_uint32_value_wkt (int32s ls)) (any_max_uint32_value_wkt_json (int32s ls)) kIterations,
     RunWktJsonBenchPair L ''BoolValue'' (BoolValue (bool_value (string_wrappers ls))) (bool_value_json (string_wrappers ls)) kIterations,
     RunWktJsonBenchPair L ''Any BoolValue WKT'' (any_bool_value_wkt (string_wrappers ls)) (any_bool_value_wkt_json (string_wrappers ls)) kIterations,
     RunWktJsonBenchPair L ''FalseBoolValue'' (BoolValue (false_bool_value (string_wrappers ls))) (false_bool_value_json (string_wrappers ls)) kIterations,
     RunWktJsonBenchPair L ''Any FalseBoolValue WKT'' (any_false_bool_value_wkt (string_wrappers ls)) (any_false_bool_value_wkt_json (string_wrappers ls)) kIterations,
     RunWktJsonBenchPair L ''StringValue'' (StringValue (string_value (string_wrappers ls))) (string_value_json (string_wrappers ls)) kIterations,
     RunWktJsonParseOnly L (StringValue []) ''StringValue Escape'' (string_value_escape_json (string_wrappers ls)) kIterations,
     RunWktJsonParseOnly L (StringValue []) ''StringValue Surrogate'' (string_value_surrogate_json (string_wrappers ls)) kIterations,
     RunWktJsonParseOnly L (Any \<lparr>type_url = [], any_value = []\<rparr>) ''Any StringValue Escape WKT'' (any_string_value_escape_wkt_json (string_wrappers ls)) kIterations,
     RunWktJsonParseOnly L (Any \<lparr>type_url = [], any_value = []\<rparr>) ''Any StringValue Surrogate WKT'' (any_string_value_surrogate_wkt_json (string_wrappers ls)) kIterations,
     RunWktJsonBenchPair L ''EmptyStringValue'' (StringValue (empty_string_value (string_wrappers ls))) (empty_string_value_json (string_wrappers ls)) kIterations,
     RunWktJsonBenchPair L ''Any EmptyStringValue WKT'' (any_empty_string_value_wkt (string_wrappers ls)) (any_empty_string_value_wkt_json (string_wrappers ls)) kIterations,
     RunWktJsonBenchPair L ''BytesValue'' (BytesValue (bytes_value (string_wrappers ls))) (bytes_value_json (string_wrappers ls)) kIterations,
     RunWktJsonParseOnly L (BytesValue []) ''BytesValue URL'' (bytes_value_url_json (string_wrappers ls)) kIterations,
     RunWktJsonParseOnly L (BytesValue []) ''BytesValue StandardBase64'' (bytes_value_standard_base64_json (string_wrappers ls)) kIterations,
     RunWktJsonParseOnly L (BytesValue []) ''BytesValue Unpadded'' (bytes_value_unpadded_json (string_wrappers ls)) kIterations,
     RunWktJsonParseOnly L (Any \<lparr>type_url = [], any_value = []\<rparr>) ''Any BytesValue URL WKT'' (any_bytes_value_url_wkt_json (string_wrappers ls)) kIterations,
     RunWktJsonParseOnly L (Any \<lparr>type_url = [], any_value = []\<rparr>) ''Any BytesValue StandardBase64 WKT'' (any_bytes_value_standard_base64_wkt_json (string_wrappers ls)) kIterations,
     RunWktJsonParseOnly L (Any \<lparr>type_url = [], any_value = []\<rparr>) ''Any BytesValue Unpadded WKT'' (any_bytes_value_unpadded_wkt_json (string_wrappers ls)) kIterations,
     RunWktJsonBenchPair L ''EmptyBytesValue'' (BytesValue (empty_bytes_value (string_wrappers ls))) (empty_bytes_value_json (string_wrappers ls)) kIterations]\<close>

definition bench_11 :: \<open>protobuf \<Rightarrow> main_locals \<Rightarrow> unit prog\<close> where
  \<open>bench_11 L ls = sequence
    [RunWktJsonBenchPair L ''Any EmptyBytesValue WKT'' (any_empty_bytes_value_wkt (string_wrappers ls)) (any_empty_bytes_value_wkt_json (string_wrappers ls)) kIterations,
     timed L ''c++ protobuf TextFormat format'' kIterations (length (person_text (encodings ls))) captured_default (text_format L (Person (person (core ls)))),
     timed L ''c++ protobuf TextFormat format reuse'' kIterations (length (person_text (encodings ls))) with_reserved (text_format_reuse L (Person (person (core ls)))),
     timed L ''c++ protobuf TextFormat parse'' kIterations (length (person_text (encodings ls))) captured_default (text_parse L (Person default_person) (person_text (encodings ls))),
     timed L ''c++ protobuf TextFormat parse reuse'' kIterations (length (person_text (encodings ls))) (with_target (Person default_person)) (text_parse_reuse L (person_text (encodings ls))),
     timed L ''c++ protobuf packed encode'' kIterations (length (packed_bytes (packeds ls))) captured_default (encode_fresh L (Packed (packed (packeds ls)))),
     timed L ''c++ protobuf packed encode reuse'' kIterations (length (packed_bytes (packeds ls))) with_reserved (encode_reuse L (Packed (packed (packeds ls)))),
     timed L ''c++ protobuf packed SerializeToArray reuse'' kIterations (length (packed_bytes (packeds ls))) (with_resized (length (packed_bytes (packeds ls)))) (encode_array L (Packed (packed (packeds ls)))),
     timed L ''c++ protobuf packed decode'' kIterations (length (packed_bytes (packeds ls))) captured_default (decode_fresh L (Packed []) (packed_bytes (packeds ls))),
     timed L ''c++ protobuf packed decode reuse'' kIterations (length (packed_bytes (packeds ls))) (with_target (Packed [])) (decode_reuse L (packed_bytes (packeds ls))),
     timed L ''c++ protobuf fixed32 packed encode'' kIterations (length (fixed_packed_bytes (packeds ls))) captured_default (encode_fresh L (FixedPacked (fixed_packed (packeds ls)))),
     timed L ''c++ protobuf fixed32 packed SerializeToArray reuse'' kIterations (length (fixed_packed_bytes (packeds ls))) (with_resized (length (fixed_packed_bytes (packeds ls)))) (encode_array L (FixedPacked (fixed_packed (packeds ls)))),
     timed L ''c++ protobuf fixed32 packed decode'' kIterations (length (fixed_packed_bytes (packeds ls))) captured_default (decode_fresh L (FixedPacked []) (fixed_packed_bytes (packeds ls)))]\<close>

definition bench_12 :: \<open>protobuf \<Rightarrow> main_locals \<Rightarrow> unit prog\<close> where
  \<open>bench_12 L ls = sequence
    [timed L ''c++ protobuf fixed32 packed decode reuse'' kIterations (length (fixed_packed_bytes (packeds ls))) (with_target (FixedPacked [])) (decode_reuse L (fixed_packed_bytes (packeds ls))),
     timed L ''c++ protobuf fixed64 packed encode'' kIterations (length (fixed64_packed_bytes (packeds ls))) captured_default (encode_fresh L (Fixed64Packed (fixed64_packed (packeds ls)))),
     timed L ''c++ protobuf fixed64 packed SerializeToArray reuse'' kIterations (length (fixed64_packed_bytes (packeds ls))) (with_resized (length (fixed64_packed_bytes (packeds ls)))) (encode_array L (Fixed64Packed (fixed64_packed (packeds ls)))),
     timed L ''c++ protobuf fixed64 packed decode'' kIterations (length (fixed64_packed_bytes (packeds ls))) captured_default (decode_fresh L (Fixed64Packed []) (fixed64_packed_bytes (packeds ls))),
     timed L ''c++ protobuf fixed64 packed decode reuse'' kIterations (length (fixed64_packed_bytes (packeds ls))) (with_target (Fixed64Packed [])) (decode_reuse L (fixed64_packed_bytes (packeds ls))),
     timed L ''c++ protobuf sfixed32 packed encode'' kIterations (length (sfixed_packed_bytes (packeds ls))) captured_default (encode_fresh L (SFixedPacked (sfixed_packed (packeds ls)))),
     timed L ''c++ protobuf sfixed32 packed SerializeToArray reuse'' kIterations (length (sfixed_packed_bytes (packeds ls))) (with_resized (length (sfixed_packed_bytes (packeds ls)))) (encode_array L (SFixedPacked (sfixed_packed (packeds ls)))),
     timed L ''c++ protobuf sfixed32 packed decode'' kIterations (length (sfixed_packed_bytes (packeds ls))) captured_default (decode_fresh L (SFixedPacked []) (sfixed_packed_bytes (packeds ls))),
     timed L ''c++ protobuf sfixed32 packed decode reuse'' kIterations (length (sfixed_packed_bytes (packeds ls))) (with_target (SFixedPacked [])) (decode_reuse L (sfixed_packed_bytes (packeds ls))),
     timed L ''c++ protobuf sfixed64 packed encode'' kIterations (length (sfixed64_packed_bytes (packeds ls))) captured_default (encode_fresh L (SFixed64Packed (sfixed64_packed (packeds ls)))),
     timed L ''c++ protobuf sfixed64 packed SerializeToArray reuse'' kIterations (length (sfixed64_packed_bytes (packeds ls))) (with_resized (length (sfixed64_packed_bytes (packeds ls)))) (encode_array L (SFixed64Packed (sfixed64_packed (packeds ls))))]\<close>

definition bench_13 :: \<open>protobuf \<Rightarrow> main_locals \<Rightarrow> unit prog\<close> where
  \<open>bench_13 L ls = sequence
    [timed L ''c++ protobuf sfixed64 packed decode'' kIterations (length (sfixed64_packed_bytes (packeds ls))) captured_default (decode_fresh L (SFixed64Packed []) (sfixed64_packed_bytes (packeds ls))),
     timed L ''c++ protobuf sfixed64 packed decode reuse'' kIterations (length (sfixed64_packed_bytes (packeds ls))) (with_target (SFixed64Packed [])) (decode_reuse L (sfixed64_packed_bytes (packeds ls))),
     timed L ''c++ protobuf float packed encode'' kIterations (length (float_packed_bytes (packeds ls))) captured_default (encode_fresh L (FloatPacked (float_packed (packeds ls)))),
     timed L ''c++ protobuf float packed SerializeToArray reuse'' kIterations (length (float_packed_bytes (packeds ls))) (with_resized (length (float_packed_bytes (packeds ls)))) (encode_array L (FloatPacked (float_packed (packeds ls)))),
     timed L ''c++ protobuf float packed decode'' kIterations (length (float_packed_bytes (packeds ls))) captured_default (decode_fresh L (FloatPacked []) (float_packed_bytes (packeds ls))),
     timed L ''c++ protobuf float packed decode reuse'' kIterations (length (float_packed_bytes (packeds ls))) (with_target (FloatPacked [])) (decode_reuse L (float_packed_bytes (packeds ls))),
     timed L ''c++ protobuf double packed encode'' kIterations (length (double_packed_bytes (packeds ls))) captured_default (encode_fresh L (DoublePacked (double_packed (packeds ls)))),
     timed L ''c++ protobuf double packed SerializeToArray reuse'' kIterations (length (double_packed_bytes (packeds ls))) (with_resized (length (double_packed_bytes (packeds ls)))) (encode_array L (DoublePacked (double_packed (packeds ls)))),
     timed L ''c++ protobuf double packed decode'' kIterations (length (double_packed_bytes (packeds ls))) captured_default (decode_fresh L (DoublePacked []) (double_packed_bytes (packeds ls))),
     timed L ''c++ protobuf double packed decode reuse'' kIterations (length (double_packed_bytes (packeds ls))) (with_target (DoublePacked [])) (decode_reuse L (double_packed_bytes (packeds ls))),
     timed L ''c++ protobuf uint64 packed encode'' kIterations (length (uint64_packed_bytes (packeds ls))) captured_default (encode_fresh L (UInt64Packed (uint64_packed (packeds ls))))]\<close>

definition bench_14 :: \<open>protobuf \<Rightarrow> main_locals \<Rightarrow> unit prog\<close> where
  \<open>bench_14 L ls = sequence
    [timed L ''c++ protobuf uint64 packed SerializeToArray reuse'' kIterations (length (uint64_packed_bytes (packeds ls))) (with_resized (length (uint64_packed_bytes (packeds ls)))) (encode_array L (UInt64Packed (uint64_packed (packeds ls)))),
     timed L ''c++ protobuf uint64 packed decode'' kIterations (length (uint64_packed_bytes (packeds ls))) captured_default (decode_fresh L (UInt64Packed []) (uint64_packed_bytes (packeds ls))),
     timed L ''c++ protobuf uint64 packed decode reuse'' kIterations (length (uint64_packed_bytes (packeds ls))) (with_target (UInt64Packed [])) (decode_reuse L (uint64_packed_bytes (packeds ls))),
     timed L ''c++ protobuf uint32 packed encode'' kIterations (length (uint32_packed_bytes (packeds ls))) captured_default (encode_fresh L (UInt32Packed (uint32_packed (packeds ls)))),
     timed L ''c++ protobuf uint32 packed SerializeToArray reuse'' kIterations (length (uint32_packed_bytes (packeds ls))) (with_resized (length (uint32_packed_bytes (packeds ls)))) (encode_array L (UInt32Packed (uint32_packed (packeds ls)))),
     timed L ''c++ protobuf uint32 packed decode'' kIterations (length (uint32_packed_bytes (packeds ls))) captured_default (decode_fresh L (UInt32Packed []) (uint32_packed_bytes (packeds ls))),
     timed L ''c++ protobuf uint32 packed decode reuse'' kIterations (length (uint32_packed_bytes (packeds ls))) (with_target (UInt32Packed [])) (decode_reuse L (uint32_packed_bytes (packeds ls))),
     timed L ''c++ protobuf int64 packed encode'' kIterations (length (int64_packed_bytes (packeds ls))) captured_default (encode_fresh L (Int64Packed (int64_packed (packeds ls)))),
     timed L ''c++ protobuf int64 packed SerializeToArray reuse'' kIterations (length (int64_packed_bytes (packeds ls))) (with_resized (length (int64_packed_bytes (packeds ls)))) (encode_array L (Int64Packed (int64_packed (packeds ls)))),
     timed L ''c++ protobuf int64 packed decode'' kIterations (length (int64_packed_bytes (packeds ls))) captured_default (decode_fresh L (Int64Packed []) (int64_packed_bytes (packeds ls))),
     timed L ''c++ protobuf int64 packed decode reuse'' kIterations (length (int64_packed_bytes (packeds ls))) (with_target (Int64Packed [])) (decode_reuse L (int64_packed_bytes (packeds ls)))]\<close>

definition bench_15 :: \<open>protobuf \<Rightarrow> main_locals \<Rightarrow> unit prog\<close> where
  \<open>bench_15 L ls = sequence
    [timed L ''c++ protobuf sint32 packed encode'' kIterations (length (sint32_packed_bytes (packeds ls))) captured_default (encode_fresh L (SInt32Packed (sint32_packed (packeds ls)))),
     timed L ''c++ protobuf sint32 packed SerializeToArray reuse'' kIterations (length (sint32_packed_bytes (packeds ls))) (with_resized (length (sint32_packed_bytes (packeds ls)))) (encode_array L (SInt32Packed (sint32_packed (packeds ls)))),
     timed L ''c++ protobuf sint32 packed decode'' kIterations (length (sint32_packed_bytes (packeds ls))) captured_default (decode_fresh L (SInt32Packed []) (sint32_packed_bytes (packeds ls))),
     timed L ''c++ protobuf sint32 packed decode reuse'' kIterations (length (sint32_packed_bytes (packeds ls))) (with_target (SInt32Packed [])) (decode_reuse L (sint32_packed_bytes (packeds ls))),
     timed L ''c++ protobuf sint64 packed encode'' kIterations (length (sint64_packed_bytes (packeds ls))) captured_default (encode_fresh L (SInt64Packed (sint64_packed (packeds ls)))),
     timed L ''c++ protobuf sint64 packed SerializeToArray reuse'' kIterations (length (sint64_packed_bytes (packeds ls))) (with_resized (length (sint64_packed_bytes (packeds ls)))) (encode_array L (SInt64Packed (sint64_packed (packeds ls)))),
     timed L ''c++ protobuf sint64 packed decode'' kIterations (length (sint64_packed_bytes (packeds ls))) captured_default (decode_fresh L (SInt64Packed []) (sint64_packed_bytes (packeds ls))),
     timed L ''c++ protobuf sint64 packed decode reuse'' kIterations (length (sint64_packed_bytes (packeds ls))) (with_target (SInt64Packed [])) (decode_reuse L (sint64_packed_bytes (packeds ls))),
     timed L ''c++ protobuf bool packed encode'' kIterations (length (bool_packed_bytes (packeds ls))) captured_default (encode_fresh L (BoolPacked (bool_packed (packeds ls)))),
     timed L ''c++ protobuf bool packed SerializeToArray reuse'' kIterations (length (bool_packed_bytes (packeds ls))) (with_resized (length (bool_packed_bytes (packeds ls)))) (encode_array L (BoolPacked (bool_packed (packeds ls)))),
     timed L ''c++ protobuf bool packed decode'' kIterations (length (bool_packed_bytes (packeds ls))) captured_default (decode_fresh L (BoolPacked []) (bool_packed_bytes (packeds ls)))]\<close>

definition bench_16 :: \<open>protobuf \<Rightarrow> main_locals \<Rightarrow> unit prog\<close> where
  \<open>bench_16 L ls = sequence
    [timed L ''c++ protobuf bool packed decode reuse'' kIterations (length (bool_packed_bytes (packeds ls))) (with_target (BoolPacked [])) (decode_reuse L (bool_packed_bytes (packeds ls))),
     timed L ''c++ protobuf enum packed encode'' kIterations (length (enum_packed_bytes (packeds ls))) captured_default (encode_fresh L (EnumPacked (enum_packed (packeds ls)))),
     timed L ''c++ protobuf enum packed SerializeToArray reuse'' kIterations (length (enum_packed_bytes (packeds ls))) (with_resized (length (enum_packed_bytes (packeds ls)))) (encode_array L (EnumPacked (enum_packed (packeds ls)))),
     timed L ''c++ protobuf enum packed decode'' kIterations (length (enum_packed_bytes (packeds ls))) captured_default (decode_fresh L (EnumPacked []) (enum_packed_bytes (packeds ls))),
     timed L ''c++ protobuf enum packed decode reuse'' kIterations (length (enum_packed_bytes (packeds ls))) (with_target (EnumPacked [])) (decode_reuse L (enum_packed_bytes (packeds ls))),
     timed L ''c++ protobuf large map encode'' kIterations (length (large_map_bytes (packeds ls))) captured_default (encode_fresh L (LargeMap (large_map (packeds ls)))),
     timed L ''c++ protobuf large map SerializeToArray reuse'' kIterations (length (large_map_bytes (packeds ls))) (with_resized (length (large_map_bytes (packeds ls)))) (encode_array L (LargeMap (large_map (packeds ls)))),
     timed L ''c++ protobuf shuffled large map deterministic binary encode reuse'' kIterations (length (shuffled_large_map_bytes (packeds ls))) (with_resized (length (shuffled_large_map_bytes (packeds ls)))) (encode_deterministic L (LargeMap (shuffled_large_map (packeds ls)))),
     timed L ''c++ protobuf large map decode'' kIterations (length (large_map_bytes (packeds ls))) captured_default (decode_fresh L (LargeMap []) (large_map_bytes (packeds ls))),
     timed L ''c++ protobuf large map decode reuse'' kIterations (length (large_map_bytes (packeds ls))) (with_target (LargeMap [])) (decode_reuse L (large_map_bytes (packeds ls))),
     timed L ''c++ protobuf LargeMap JSON stringify'' kIterations (length (large_map_json (packeds ls))) captured_default (json_stringify L default_print_options (LargeMap (large_map (packeds ls))))]\<close>

definition bench_17 :: \<open>protobuf \<Rightarrow> main_locals \<Rightarrow> unit prog\<close> where
  \<open>bench_17 L ls = sequence
    [timed L ''c++ protobuf LargeMap JSON parse'' kIterations (length (large_map_json (packeds ls))) captured_default (json_parse L default_parse_options (LargeMap []) (large_map_json (packeds ls)))]\<close>

definition benches :: \<open>protobuf \<Rightarrow> main_locals \<Rightarrow> unit prog\<close> where
  \<open>benches L ls = sequence [bench_1 L ls, bench_2 L ls, bench_3 L ls, bench_4 L ls, bench_5 L ls, bench_6 L ls,
       bench_7 L ls, bench_8 L ls, bench_9 L ls, bench_10 L ls, bench_11 L ls, bench_12 L ls,
       bench_13 L ls, bench_14 L ls, bench_15 L ls, bench_16 L ls, bench_17 L ls]\<close>

definition main :: \<open>protobuf \<Rightarrow> unit prog\<close> where
  \<open>main L = tryIn (main_setup L) (\<lambda>ls. tryIn (print_sizes ls) (\<lambda>_. benches L ls))\<close>

end
