(* ===== verification/Cpp_Facts.thy ===== *)
theory Cpp_Facts
  imports Cpp_Main
begin

text \<open>
  Why \<open>main\<close> does not abort once its setup has passed: what the setup establishes about
  the locals (every JSON text it has the library print is that of its message, every byte string
  the encoding of its message, and the other JSON inputs are literals), what is assumed of the library, and for every part of the
  benchmarks that they then run to their end and print one line per benchmark.
\<close>

section \<open>Steps that succeed\<close>

lemma tryIn_Inr_iff: "tryIn m f s = Some (Inr y, t) \<longleftrightarrow> (\<exists>x s'. m s = Some (Inr x, s') \<and> f x s' = Some (Inr y, t))"
  by (auto simp: tryIn_Some)

lemma orAbort_Inr_iff: "orAbort r f s = Some (Inr y, t) \<longleftrightarrow> (\<exists>x. r = Some x \<and> f x s = Some (Inr y, t))"
  by (auto simp: orAbort_def split: option.splits)

lemma abortIf_Inr_iff: "abortIf b s = Some (Inr y, t) \<longleftrightarrow> \<not> b \<and> s = t"
  by (auto simp: abortIf_def)

definition json_of :: "protobuf \<Rightarrow> message \<Rightarrow> string \<Rightarrow> bool" where
  "json_of L m j \<longleftrightarrow> MessageToJsonString L default_print_options m = Some j"

definition encodes :: "protobuf \<Rightarrow> message \<Rightarrow> string \<Rightarrow> bool" where
  "encodes L m s \<longleftrightarrow> s = SerializeToString L m"

lemma JsonStringFor_Inr_iff: "JsonStringFor L m s = Some (Inr j, t) \<longleftrightarrow> json_of L m j \<and> s = t"
  by (auto simp: JsonStringFor_def orAbort_Inr_iff json_of_def)

lemmas step_iffs = tryIn_Inr_iff orAbort_Inr_iff abortIf_Inr_iff JsonStringFor_Inr_iff

section \<open>What is assumed of the library\<close>

text \<open>
  \<open>parses L d s\<close>, \<open>json_parses L d j\<close> and \<open>text_parses L d t\<close>: the library parses the input
  into a cleared message of the type of \<open>d\<close>, and the result has that type.
\<close>

definition parses :: "protobuf \<Rightarrow> message \<Rightarrow> string \<Rightarrow> bool" where
  "parses L d s \<longleftrightarrow> (\<exists>r. ParseFromString L s (cleared d) = Some r \<and> cleared r = cleared d)"

definition json_parses :: "protobuf \<Rightarrow> message \<Rightarrow> string \<Rightarrow> bool" where
  "json_parses L d j \<longleftrightarrow> (\<exists>r. JsonStringToMessage L default_parse_options j (cleared d) = Some r \<and> cleared r = cleared d)"

definition text_parses :: "protobuf \<Rightarrow> message \<Rightarrow> string \<Rightarrow> bool" where
  "text_parses L d t \<longleftrightarrow> (\<exists>r. TextParseFromString L t (cleared d) = Some r \<and> cleared r = cleared d)"

definition accepted :: "protobuf \<Rightarrow> json_parse_options \<Rightarrow> message \<Rightarrow> string \<Rightarrow> bool" where
  "accepted L opts d j \<longleftrightarrow> (\<exists>r. JsonStringToMessage L opts j (cleared d) = Some r)"

text \<open>
  What is assumed of one message: it is read back from its encoding, its deterministic encoding is
  as long, what is printed for it is read back.
\<close>

definition reads_binary :: "protobuf \<Rightarrow> message \<Rightarrow> bool" where
  "reads_binary L m \<longleftrightarrow> parses L m (SerializeToString L m)"

definition same_length :: "protobuf \<Rightarrow> message \<Rightarrow> bool" where
  "same_length L m \<longleftrightarrow> length (SerializeDeterministic L m) = length (SerializeToString L m)"

definition reads_json :: "protobuf \<Rightarrow> json_print_options \<Rightarrow> message \<Rightarrow> bool" where
  "reads_json L opts m \<longleftrightarrow> (\<forall>j. MessageToJsonString L opts m = Some j \<longrightarrow> json_parses L m j)"

definition reads_text :: "protobuf \<Rightarrow> message \<Rightarrow> bool" where
  "reads_text L m \<longleftrightarrow> (\<forall>t. PrintToString L m = Some t \<longrightarrow> text_parses L m t)"

text \<open>The messages that \<open>main\<close> builds, by the formats in which it encodes and decodes them.\<close>

definition binary_messages :: "main_locals \<Rightarrow> message list" where
  \<open>binary_messages ls =
    [Person (person (core ls)), ScalarMix (scalarmix (core ls)), TextBytes (textbytes (core ls)),
     LargeBytes (largebytes (core ls)), PresenceMix (presencemix (core ls)), Complex (complex_message (core ls)),
     Packed (packed (packeds ls)), FixedPacked (fixed_packed (packeds ls)), Fixed64Packed (fixed64_packed (packeds ls)),
     SFixedPacked (sfixed_packed (packeds ls)), SFixed64Packed (sfixed64_packed (packeds ls)),
     FloatPacked (float_packed (packeds ls)), DoublePacked (double_packed (packeds ls)),
     UInt64Packed (uint64_packed (packeds ls)), UInt32Packed (uint32_packed (packeds ls)),
     Int64Packed (int64_packed (packeds ls)), SInt32Packed (sint32_packed (packeds ls)),
     SInt64Packed (sint64_packed (packeds ls)), BoolPacked (bool_packed (packeds ls)), EnumPacked (enum_packed (packeds ls)),
     LargeMap (large_map (packeds ls)), LargeMap (shuffled_large_map (packeds ls))]\<close>

definition demo_messages :: "main_locals \<Rightarrow> message list" where
  \<open>demo_messages ls =
    [Person (person (core ls)), ScalarMix (scalarmix (core ls)), TextBytes (textbytes (core ls)),
     PresenceMix (presencemix (core ls)), Complex (complex_message (core ls)), LargeMap (large_map (packeds ls))]\<close>

definition duration_messages :: \<open>duration_locals \<Rightarrow> message list\<close> where
  \<open>duration_messages du =
    [any_wkt du,
     Duration (any_wkt_duration du),
     Duration (micro_duration du),
     any_micro_duration_wkt du,
     Duration (nano_duration du),
     any_nano_duration_wkt du,
     any_negative_duration_wkt du,
     Duration (negative_duration du),
     any_fractional_negative_duration_wkt du,
     Duration (fractional_negative_duration du),
     any_max_duration_wkt du,
     Duration (max_duration du),
     any_min_duration_wkt du,
     Duration (min_duration du),
     any_zero_duration_wkt du,
     Duration (zero_duration du)]\<close>

definition mask_messages :: \<open>mask_locals \<Rightarrow> message list\<close> where
  \<open>mask_messages ma =
    [FieldMask (field_mask ma),
     any_field_mask_wkt ma,
     FieldMask (empty_field_mask ma),
     any_empty_field_mask_wkt ma]\<close>

definition timestamp_messages :: \<open>timestamp_locals \<Rightarrow> message list\<close> where
  \<open>timestamp_messages ti =
    [Timestamp (timestamp ti),
     any_timestamp_wkt ti,
     Timestamp (micro_timestamp ti),
     any_micro_timestamp_wkt ti,
     Timestamp (nano_timestamp ti),
     any_nano_timestamp_wkt ti,
     Timestamp (pre_epoch_timestamp ti),
     any_pre_epoch_timestamp_wkt ti,
     Timestamp (max_timestamp ti),
     any_max_timestamp_wkt ti,
     Timestamp (min_timestamp ti),
     any_min_timestamp_wkt ti]\<close>

definition struct_messages :: \<open>struct_locals \<Rightarrow> message list\<close> where
  \<open>struct_messages st =
    [empty_value st,
     any_empty_wkt st,
     Struct (struct_value st),
     any_struct_wkt st,
     Struct (empty_struct_value st),
     any_empty_struct_wkt st]\<close>

definition value_messages :: \<open>value_locals \<Rightarrow> message list\<close> where
  \<open>value_messages va =
    [Value (value_value va),
     any_value_wkt va,
     Value (null_value_value va),
     any_null_value_wkt va,
     Value (string_scalar_value va),
     any_string_scalar_value_wkt va,
     Value (empty_string_scalar_value va),
     any_empty_string_scalar_value_wkt va,
     Value (number_value va),
     any_number_value_wkt va,
     Value (negative_number_value va),
     any_negative_number_value_wkt va,
     Value (zero_number_value va),
     any_zero_number_value_wkt va,
     Value (bool_scalar_value va),
     any_bool_scalar_value_wkt va,
     Value (false_bool_scalar_value va),
     any_false_bool_scalar_value_wkt va]\<close>

definition list_messages :: \<open>list_locals \<Rightarrow> message list\<close> where
  \<open>list_messages li =
    [ListValue (list_value li),
     Value (list_kind_value li),
     any_list_kind_value_wkt li,
     Value (empty_struct_kind_value li),
     any_empty_struct_kind_value_wkt li,
     ListValue (empty_list_value li),
     Value (empty_list_kind_value li),
     any_empty_list_kind_value_wkt li]\<close>

definition double_messages :: \<open>double_locals \<Rightarrow> message list\<close> where
  \<open>double_messages db =
    [DoubleValue (double_value db),
     any_double_value_wkt db,
     DoubleValue (negative_double_value db),
     any_negative_double_value_wkt db,
     DoubleValue (zero_double_value db),
     any_zero_double_value_wkt db,
     DoubleValue (double_value_nan db),
     any_double_value_nan_wkt db,
     DoubleValue (double_value_inf db),
     any_double_value_inf_wkt db,
     DoubleValue (double_value_neg_inf db),
     any_double_value_neg_inf_wkt db,
     FloatValue (float_value db),
     any_float_value_wkt db,
     FloatValue (negative_float_value db),
     any_negative_float_value_wkt db,
     FloatValue (zero_float_value db),
     any_zero_float_value_wkt db,
     FloatValue (float_value_nan db),
     any_float_value_nan_wkt db,
     FloatValue (float_value_inf db),
     any_float_value_inf_wkt db,
     FloatValue (float_value_neg_inf db),
     any_float_value_neg_inf_wkt db]\<close>

definition int64_messages :: \<open>int64_locals \<Rightarrow> message list\<close> where
  \<open>int64_messages xs =
    [Int64Value (int64_value xs),
     any_int64_value_wkt xs,
     Int64Value (zero_int64_value xs),
     any_zero_int64_value_wkt xs,
     Int64Value (negative_int64_value xs),
     any_negative_int64_value_wkt xs,
     Int64Value (min_int64_value xs),
     any_min_int64_value_wkt xs,
     Int64Value (max_int64_value xs),
     any_max_int64_value_wkt xs,
     UInt64Value (uint64_value xs),
     any_uint64_value_wkt xs,
     UInt64Value (zero_uint64_value xs),
     any_zero_uint64_value_wkt xs,
     UInt64Value (max_uint64_value xs),
     any_max_uint64_value_wkt xs]\<close>

definition int32_messages :: \<open>int32_locals \<Rightarrow> message list\<close> where
  \<open>int32_messages ys =
    [Int32Value (int32_value ys),
     any_int32_value_wkt ys,
     Int32Value (zero_int32_value ys),
     any_zero_int32_value_wkt ys,
     Int32Value (negative_int32_value ys),
     any_negative_int32_value_wkt ys,
     Int32Value (min_int32_value ys),
     any_min_int32_value_wkt ys,
     Int32Value (max_int32_value ys),
     any_max_int32_value_wkt ys,
     UInt32Value (uint32_value ys),
     any_uint32_value_wkt ys,
     UInt32Value (zero_uint32_value ys),
     any_zero_uint32_value_wkt ys,
     UInt32Value (max_uint32_value ys),
     any_max_uint32_value_wkt ys]\<close>

definition string_messages :: \<open>string_locals \<Rightarrow> message list\<close> where
  \<open>string_messages sg =
    [BoolValue (bool_value sg),
     any_bool_value_wkt sg,
     BoolValue (false_bool_value sg),
     any_false_bool_value_wkt sg,
     StringValue (string_value sg),
     any_string_value_wkt sg,
     StringValue (empty_string_value sg),
     any_empty_string_value_wkt sg,
     nested_any_wkt sg,
     BytesValue (bytes_value sg),
     any_bytes_value_wkt sg,
     BytesValue (empty_bytes_value sg),
     any_empty_bytes_value_wkt sg]\<close>

definition json_messages :: "main_locals \<Rightarrow> message list" where
  \<open>json_messages ls = demo_messages ls @ duration_messages (durations ls) @ mask_messages (masks ls) @ timestamp_messages (timestamps ls) @ struct_messages (structs ls) @ value_messages (value_kinds ls) @ list_messages (list_kinds ls) @ double_messages (doubles ls) @ int64_messages (int64s ls) @ int32_messages (int32s ls) @ string_messages (string_wrappers ls)\<close>

text \<open>
  The library reads back what it wrote, of the messages that \<open>main\<close> builds and in the formats in
  which it reads them back.
\<close>

definition library_ok :: "protobuf \<Rightarrow> main_locals \<Rightarrow> bool" where
  "library_ok L ls \<longleftrightarrow>
     list_all (reads_binary L) (binary_messages ls) \<and>
     list_all (same_length L) [Person (person (core ls)), Complex (complex_message (core ls)), LargeMap (shuffled_large_map (packeds ls))] \<and>
     list_all (reads_json L default_print_options) (json_messages ls) \<and>
     reads_json L (proto_name_json_options (print_opts ls)) (Complex (complex_message (core ls))) \<and>
     list_all (reads_text L) [Person (person (core ls)), Complex (complex_message (core ls))]"

text \<open>The fields of the stress payload are kept as unknown fields, in their order.\<close>

definition keeps_unknown_numbers :: "protobuf \<Rightarrow> bool" where
  "keeps_unknown_numbers L \<longleftrightarrow> (\<forall>d.
     ParseFromString L (MakeUnknownFieldPayload (SerializeToString L (Person MakePerson))) (Person default_person) = Some d \<longrightarrow>
     map uf_number (unknown_fields (the_person d)) = map (\<lambda>i. 1000 + int (i mod 16)) [0..<1024])"

lemma library_demo:
  "library_ok L ls \<Longrightarrow> list_all (reads_binary L) (binary_messages ls) \<and>
     list_all (reads_json L default_print_options) (demo_messages ls) \<and>
     reads_json L (proto_name_json_options (print_opts ls)) (Complex (complex_message (core ls))) \<and>
     list_all (reads_text L) [Person (person (core ls)), Complex (complex_message (core ls))]"
  by (simp only: library_ok_def json_messages_def list_all_append)

lemma parses_cleared: "cleared d = cleared m \<Longrightarrow> parses L d = parses L m"
  by (simp add: parses_def fun_eq_iff)

lemma encodes_parses: "reads_binary L m \<Longrightarrow> encodes L m s \<Longrightarrow> parses L (cleared m) s"
  by (simp add: reads_binary_def encodes_def parses_def)

lemma json_printed_parses: "reads_json L opts m \<Longrightarrow> MessageToJsonString L opts m = Some j \<Longrightarrow> json_parses L (cleared m) j"
  by (simp add: reads_json_def json_parses_def)

lemma text_printed_parses: "reads_text L m \<Longrightarrow> PrintToString L m = Some t \<Longrightarrow> text_parses L (cleared m) t"
  by (simp add: reads_text_def text_parses_def)

section \<open>What the setup establishes\<close>

definition core_ok :: "protobuf \<Rightarrow> core_locals \<Rightarrow> bool" where
  "core_ok L c \<longleftrightarrow>
     encodes L (Person MakePerson) (person_bytes c) \<and> encodes L (Person (person c)) (person_bytes c) \<and>
     unknown_bytes c = MakeUnknownFieldPayload (person_bytes c) \<and>
     (\<exists>d. ParseFromString L (unknown_bytes c) (Person default_person) = Some d \<and> unknown_person c = the_person d \<and>
        int (length (unknown_fields (the_person d))) = kUnknownFieldStressCount) \<and>
     json_of L (Person (person c)) (person_json c) \<and> json_of L (ScalarMix (scalarmix c)) (scalarmix_json c)"

lemma setup_core_ok: "setup_core L w = Some (Inr c, w') \<Longrightarrow> w' = w \<and> core_ok L c"
  by (clarsimp simp: setup_core_def core_ok_def json_of_def encodes_def Let_def step_iffs)

definition option_ok :: "protobuf \<Rightarrow> core_locals \<Rightarrow> option_locals \<Rightarrow> bool" where
  "option_ok L c opts \<longleftrightarrow>
     MessageToJsonString L (always_print_json_options opts) (Person (empty_person opts)) = Some (always_print_stringify_json opts) \<and>
     MessageToJsonString L (proto_name_json_options opts) (ScalarMix (scalarmix c)) = Some (proto_name_stringify_json opts) \<and>
     MessageToJsonString L (enum_number_json_options opts) (ScalarMix (scalarmix c)) = Some (enum_number_stringify_json opts)"

lemma setup_options_ok: "setup_options L c w = Some (Inr opts, w') \<Longrightarrow> w' = w \<and> option_ok L c opts"
  by (clarsimp simp: setup_options_def option_ok_def Let_def step_iffs)

definition json_ok :: "protobuf \<Rightarrow> core_locals \<Rightarrow> json_locals \<Rightarrow> bool" where
  "json_ok L c js \<longleftrightarrow> json_of L (PresenceMix (presencemix c)) (presencemix_json js) \<and>
     accepted L (ignore_unknown_json_options js) (Person default_person) (ignore_unknown_json js) \<and>
     accepted L default_parse_options (ScalarMix default_scalar_mix) (open_enum_json js) \<and>
     accepted L default_parse_options (ScalarMix default_scalar_mix) (enum_name_json js) \<and>
     accepted L default_parse_options (ScalarMix default_scalar_mix) (proto_name_json js) \<and>
     accepted L default_parse_options (ScalarMix default_scalar_mix) (int_exponent_json js) \<and>
     accepted L default_parse_options (ScalarMix default_scalar_mix) (string_number_json js)"

lemma setup_json_ok: "setup_json L c w = Some (Inr js, w') \<Longrightarrow> w' = w \<and> json_ok L c js"
  by (clarsimp simp: setup_json_def setup_presence_def setup_null_fields_def setup_ignore_unknown_def check_numbers_def
      json_ok_def json_of_def accepted_def Let_def step_iffs)

definition encoding_ok :: "protobuf \<Rightarrow> core_locals \<Rightarrow> option_locals \<Rightarrow> encoding_locals \<Rightarrow> bool" where
  "encoding_ok L c opts enc \<longleftrightarrow>
     PrintToString L (Person (person c)) = Some (person_text enc) \<and>
     encodes L (ScalarMix (scalarmix c)) (scalarmix_bytes enc) \<and>
     encodes L (TextBytes (textbytes c)) (textbytes_bytes enc) \<and>
     json_of L (TextBytes (textbytes c)) (textbytes_json enc) \<and>
     encodes L (LargeBytes (largebytes c)) (largebytes_bytes enc) \<and>
     encodes L (PresenceMix (presencemix c)) (presencemix_bytes enc) \<and>
     encodes L (Complex (complex_message c)) (complex_bytes enc) \<and>
     json_of L (Complex (complex_message c)) (complex_json enc) \<and>
     MessageToJsonString L (proto_name_json_options opts) (Complex (complex_message c)) = Some (complex_proto_name_json enc) \<and>
     PrintToString L (Complex (complex_message c)) = Some (complex_text enc)"

lemma setup_encodings_ok: "setup_encodings L c opts w = Some (Inr enc, w') \<Longrightarrow> w' = w \<and> encoding_ok L c opts enc"
  by (clarsimp simp: setup_encodings_def setup_textbytes_def setup_complex_def encoding_ok_def json_of_def encodes_def
      Let_def step_iffs)


definition duration_ok :: \<open>protobuf \<Rightarrow> duration_locals \<Rightarrow> bool\<close> where
  \<open>duration_ok L du \<longleftrightarrow>
     json_of L (any_wkt du) (any_wkt_json du) \<and>
     json_of L (Duration (any_wkt_duration du)) (duration_json du) \<and>
     json_of L (Duration (micro_duration du)) (micro_duration_json du) \<and>
     json_of L (any_micro_duration_wkt du) (any_micro_duration_wkt_json du) \<and>
     json_of L (Duration (nano_duration du)) (nano_duration_json du) \<and>
     json_of L (any_nano_duration_wkt du) (any_nano_duration_wkt_json du) \<and>
     json_of L (any_negative_duration_wkt du) (any_negative_duration_wkt_json du) \<and>
     json_of L (Duration (negative_duration du)) (negative_duration_json du) \<and>
     json_of L (any_fractional_negative_duration_wkt du) (any_fractional_negative_duration_wkt_json du) \<and>
     json_of L (Duration (fractional_negative_duration du)) (fractional_negative_duration_json du) \<and>
     json_of L (any_max_duration_wkt du) (any_max_duration_wkt_json du) \<and>
     json_of L (Duration (max_duration du)) (max_duration_json du) \<and>
     json_of L (any_min_duration_wkt du) (any_min_duration_wkt_json du) \<and>
     json_of L (Duration (min_duration du)) (min_duration_json du) \<and>
     json_of L (any_zero_duration_wkt du) (any_zero_duration_wkt_json du) \<and>
     json_of L (Duration (zero_duration du)) (zero_duration_json du)\<close>

lemma setup_durations_ok: "setup_durations L w = Some (Inr du, w') \<Longrightarrow> w' = w \<and> duration_ok L du"
  by (clarsimp simp: setup_durations_def duration_ok_def json_of_def Let_def step_iffs)

definition mask_ok :: \<open>protobuf \<Rightarrow> mask_locals \<Rightarrow> bool\<close> where
  \<open>mask_ok L ma \<longleftrightarrow>
     json_of L (FieldMask (field_mask ma)) (field_mask_json ma) \<and>
     json_of L (any_field_mask_wkt ma) (any_field_mask_wkt_json ma) \<and>
     json_of L (FieldMask (empty_field_mask ma)) (empty_field_mask_json ma) \<and>
     json_of L (any_empty_field_mask_wkt ma) (any_empty_field_mask_wkt_json ma)\<close>

lemma setup_masks_ok: "setup_masks L w = Some (Inr ma, w') \<Longrightarrow> w' = w \<and> mask_ok L ma"
  by (clarsimp simp: setup_masks_def mask_ok_def json_of_def Let_def step_iffs)

definition timestamp_ok :: \<open>protobuf \<Rightarrow> timestamp_locals \<Rightarrow> bool\<close> where
  \<open>timestamp_ok L ti \<longleftrightarrow>
     json_of L (Timestamp (timestamp ti)) (timestamp_json ti) \<and>
     json_of L (any_timestamp_wkt ti) (any_timestamp_wkt_json ti) \<and>
     json_of L (Timestamp (micro_timestamp ti)) (micro_timestamp_json ti) \<and>
     json_of L (any_micro_timestamp_wkt ti) (any_micro_timestamp_wkt_json ti) \<and>
     json_of L (Timestamp (nano_timestamp ti)) (nano_timestamp_json ti) \<and>
     json_of L (any_nano_timestamp_wkt ti) (any_nano_timestamp_wkt_json ti) \<and>
     json_of L (Timestamp (pre_epoch_timestamp ti)) (pre_epoch_timestamp_json ti) \<and>
     json_of L (any_pre_epoch_timestamp_wkt ti) (any_pre_epoch_timestamp_wkt_json ti) \<and>
     json_of L (Timestamp (max_timestamp ti)) (max_timestamp_json ti) \<and>
     json_of L (any_max_timestamp_wkt ti) (any_max_timestamp_wkt_json ti) \<and>
     json_of L (Timestamp (min_timestamp ti)) (min_timestamp_json ti) \<and>
     json_of L (any_min_timestamp_wkt ti) (any_min_timestamp_wkt_json ti)\<close>

lemma setup_timestamps_ok: "setup_timestamps L w = Some (Inr ti, w') \<Longrightarrow> w' = w \<and> timestamp_ok L ti"
  by (clarsimp simp: setup_timestamps_def timestamp_ok_def json_of_def Let_def step_iffs)

definition struct_ok :: \<open>protobuf \<Rightarrow> struct_locals \<Rightarrow> bool\<close> where
  \<open>struct_ok L st \<longleftrightarrow>
     json_of L (empty_value st) (empty_json st) \<and>
     json_of L (any_empty_wkt st) (any_empty_wkt_json st) \<and>
     json_of L (Struct (struct_value st)) (struct_json st) \<and>
     json_of L (any_struct_wkt st) (any_struct_wkt_json st) \<and>
     json_of L (Struct (empty_struct_value st)) (empty_struct_json st) \<and>
     json_of L (any_empty_struct_wkt st) (any_empty_struct_wkt_json st)\<close>

lemma setup_structs_ok: "setup_structs L w = Some (Inr st, w') \<Longrightarrow> w' = w \<and> struct_ok L st"
  by (clarsimp simp: setup_structs_def struct_ok_def json_of_def Let_def step_iffs)

definition value_ok :: \<open>protobuf \<Rightarrow> value_locals \<Rightarrow> bool\<close> where
  \<open>value_ok L va \<longleftrightarrow>
     json_of L (Value (value_value va)) (value_json va) \<and>
     json_of L (any_value_wkt va) (any_value_wkt_json va) \<and>
     json_of L (Value (null_value_value va)) (null_value_json va) \<and>
     json_of L (any_null_value_wkt va) (any_null_value_wkt_json va) \<and>
     json_of L (Value (string_scalar_value va)) (string_scalar_value_json va) \<and>
     json_of L (any_string_scalar_value_wkt va) (any_string_scalar_value_wkt_json va) \<and>
     json_of L (Value (empty_string_scalar_value va)) (empty_string_scalar_value_json va) \<and>
     json_of L (any_empty_string_scalar_value_wkt va) (any_empty_string_scalar_value_wkt_json va) \<and>
     json_of L (Value (number_value va)) (number_value_json va) \<and>
     json_of L (any_number_value_wkt va) (any_number_value_wkt_json va) \<and>
     json_of L (Value (negative_number_value va)) (negative_number_value_json va) \<and>
     json_of L (any_negative_number_value_wkt va) (any_negative_number_value_wkt_json va) \<and>
     json_of L (Value (zero_number_value va)) (zero_number_value_json va) \<and>
     json_of L (any_zero_number_value_wkt va) (any_zero_number_value_wkt_json va) \<and>
     json_of L (Value (bool_scalar_value va)) (bool_scalar_value_json va) \<and>
     json_of L (any_bool_scalar_value_wkt va) (any_bool_scalar_value_wkt_json va) \<and>
     json_of L (Value (false_bool_scalar_value va)) (false_bool_scalar_value_json va) \<and>
     json_of L (any_false_bool_scalar_value_wkt va) (any_false_bool_scalar_value_wkt_json va)\<close>

lemma setup_values_ok: "setup_values L st w = Some (Inr va, w') \<Longrightarrow> w' = w \<and> value_ok L va"
  by (clarsimp simp: setup_values_def value_ok_def json_of_def Let_def step_iffs)

definition list_ok :: \<open>protobuf \<Rightarrow> list_locals \<Rightarrow> bool\<close> where
  \<open>list_ok L li \<longleftrightarrow>
     json_of L (ListValue (list_value li)) (list_value_json li) \<and>
     json_of L (Value (list_kind_value li)) (list_kind_value_json li) \<and>
     json_of L (any_list_kind_value_wkt li) (any_list_kind_value_wkt_json li) \<and>
     json_of L (Value (empty_struct_kind_value li)) (empty_struct_kind_value_json li) \<and>
     json_of L (any_empty_struct_kind_value_wkt li) (any_empty_struct_kind_value_wkt_json li) \<and>
     json_of L (ListValue (empty_list_value li)) (empty_list_value_json li) \<and>
     json_of L (Value (empty_list_kind_value li)) (empty_list_kind_value_json li) \<and>
     json_of L (any_empty_list_kind_value_wkt li) (any_empty_list_kind_value_wkt_json li)\<close>

lemma setup_lists_ok: "setup_lists L st w = Some (Inr li, w') \<Longrightarrow> w' = w \<and> list_ok L li"
  by (clarsimp simp: setup_lists_def list_ok_def json_of_def Let_def step_iffs)

definition double_ok :: \<open>protobuf \<Rightarrow> double_locals \<Rightarrow> bool\<close> where
  \<open>double_ok L db \<longleftrightarrow>
     json_of L (DoubleValue (double_value db)) (double_value_json db) \<and>
     json_of L (any_double_value_wkt db) (any_double_value_wkt_json db) \<and>
     json_of L (DoubleValue (negative_double_value db)) (negative_double_value_json db) \<and>
     json_of L (any_negative_double_value_wkt db) (any_negative_double_value_wkt_json db) \<and>
     json_of L (DoubleValue (zero_double_value db)) (zero_double_value_json db) \<and>
     json_of L (any_zero_double_value_wkt db) (any_zero_double_value_wkt_json db) \<and>
     json_of L (DoubleValue (double_value_nan db)) (double_value_nan_json db) \<and>
     json_of L (any_double_value_nan_wkt db) (any_double_value_nan_wkt_json db) \<and>
     json_of L (DoubleValue (double_value_inf db)) (double_value_inf_json db) \<and>
     json_of L (any_double_value_inf_wkt db) (any_double_value_inf_wkt_json db) \<and>
     json_of L (DoubleValue (double_value_neg_inf db)) (double_value_neg_inf_json db) \<and>
     json_of L (any_double_value_neg_inf_wkt db) (any_double_value_neg_inf_wkt_json db) \<and>
     json_of L (FloatValue (float_value db)) (float_value_json db) \<and>
     json_of L (any_float_value_wkt db) (any_float_value_wkt_json db) \<and>
     json_of L (FloatValue (negative_float_value db)) (negative_float_value_json db) \<and>
     json_of L (any_negative_float_value_wkt db) (any_negative_float_value_wkt_json db) \<and>
     json_of L (FloatValue (zero_float_value db)) (zero_float_value_json db) \<and>
     json_of L (any_zero_float_value_wkt db) (any_zero_float_value_wkt_json db) \<and>
     json_of L (FloatValue (float_value_nan db)) (float_value_nan_json db) \<and>
     json_of L (any_float_value_nan_wkt db) (any_float_value_nan_wkt_json db) \<and>
     json_of L (FloatValue (float_value_inf db)) (float_value_inf_json db) \<and>
     json_of L (any_float_value_inf_wkt db) (any_float_value_inf_wkt_json db) \<and>
     json_of L (FloatValue (float_value_neg_inf db)) (float_value_neg_inf_json db) \<and>
     json_of L (any_float_value_neg_inf_wkt db) (any_float_value_neg_inf_wkt_json db)\<close>

lemma setup_doubles_ok: "setup_doubles L w = Some (Inr db, w') \<Longrightarrow> w' = w \<and> double_ok L db"
  by (clarsimp simp: setup_doubles_def double_ok_def json_of_def Let_def step_iffs)

definition int64_ok :: \<open>protobuf \<Rightarrow> int64_locals \<Rightarrow> bool\<close> where
  \<open>int64_ok L xs \<longleftrightarrow>
     json_of L (Int64Value (int64_value xs)) (int64_value_json xs) \<and>
     json_of L (any_int64_value_wkt xs) (any_int64_value_wkt_json xs) \<and>
     json_of L (Int64Value (zero_int64_value xs)) (zero_int64_value_json xs) \<and>
     json_of L (any_zero_int64_value_wkt xs) (any_zero_int64_value_wkt_json xs) \<and>
     json_of L (Int64Value (negative_int64_value xs)) (negative_int64_value_json xs) \<and>
     json_of L (any_negative_int64_value_wkt xs) (any_negative_int64_value_wkt_json xs) \<and>
     json_of L (Int64Value (min_int64_value xs)) (min_int64_value_json xs) \<and>
     json_of L (any_min_int64_value_wkt xs) (any_min_int64_value_wkt_json xs) \<and>
     json_of L (Int64Value (max_int64_value xs)) (max_int64_value_json xs) \<and>
     json_of L (any_max_int64_value_wkt xs) (any_max_int64_value_wkt_json xs) \<and>
     json_of L (UInt64Value (uint64_value xs)) (uint64_value_json xs) \<and>
     json_of L (any_uint64_value_wkt xs) (any_uint64_value_wkt_json xs) \<and>
     json_of L (UInt64Value (zero_uint64_value xs)) (zero_uint64_value_json xs) \<and>
     json_of L (any_zero_uint64_value_wkt xs) (any_zero_uint64_value_wkt_json xs) \<and>
     json_of L (UInt64Value (max_uint64_value xs)) (max_uint64_value_json xs) \<and>
     json_of L (any_max_uint64_value_wkt xs) (any_max_uint64_value_wkt_json xs)\<close>

lemma setup_int64s_ok: "setup_int64s L w = Some (Inr xs, w') \<Longrightarrow> w' = w \<and> int64_ok L xs"
  by (clarsimp simp: setup_int64s_def int64_ok_def json_of_def Let_def step_iffs)

definition int32_ok :: \<open>protobuf \<Rightarrow> int32_locals \<Rightarrow> bool\<close> where
  \<open>int32_ok L ys \<longleftrightarrow>
     json_of L (Int32Value (int32_value ys)) (int32_value_json ys) \<and>
     json_of L (any_int32_value_wkt ys) (any_int32_value_wkt_json ys) \<and>
     json_of L (Int32Value (zero_int32_value ys)) (zero_int32_value_json ys) \<and>
     json_of L (any_zero_int32_value_wkt ys) (any_zero_int32_value_wkt_json ys) \<and>
     json_of L (Int32Value (negative_int32_value ys)) (negative_int32_value_json ys) \<and>
     json_of L (any_negative_int32_value_wkt ys) (any_negative_int32_value_wkt_json ys) \<and>
     json_of L (Int32Value (min_int32_value ys)) (min_int32_value_json ys) \<and>
     json_of L (any_min_int32_value_wkt ys) (any_min_int32_value_wkt_json ys) \<and>
     json_of L (Int32Value (max_int32_value ys)) (max_int32_value_json ys) \<and>
     json_of L (any_max_int32_value_wkt ys) (any_max_int32_value_wkt_json ys) \<and>
     json_of L (UInt32Value (uint32_value ys)) (uint32_value_json ys) \<and>
     json_of L (any_uint32_value_wkt ys) (any_uint32_value_wkt_json ys) \<and>
     json_of L (UInt32Value (zero_uint32_value ys)) (zero_uint32_value_json ys) \<and>
     json_of L (any_zero_uint32_value_wkt ys) (any_zero_uint32_value_wkt_json ys) \<and>
     json_of L (UInt32Value (max_uint32_value ys)) (max_uint32_value_json ys) \<and>
     json_of L (any_max_uint32_value_wkt ys) (any_max_uint32_value_wkt_json ys)\<close>

lemma setup_int32s_ok: "setup_int32s L w = Some (Inr ys, w') \<Longrightarrow> w' = w \<and> int32_ok L ys"
  by (clarsimp simp: setup_int32s_def int32_ok_def json_of_def Let_def step_iffs)

definition string_ok :: \<open>protobuf \<Rightarrow> string_locals \<Rightarrow> bool\<close> where
  \<open>string_ok L sg \<longleftrightarrow>
     json_of L (BoolValue (bool_value sg)) (bool_value_json sg) \<and>
     json_of L (any_bool_value_wkt sg) (any_bool_value_wkt_json sg) \<and>
     json_of L (BoolValue (false_bool_value sg)) (false_bool_value_json sg) \<and>
     json_of L (any_false_bool_value_wkt sg) (any_false_bool_value_wkt_json sg) \<and>
     json_of L (StringValue (string_value sg)) (string_value_json sg) \<and>
     json_of L (any_string_value_wkt sg) (any_string_value_wkt_json sg) \<and>
     json_of L (StringValue (empty_string_value sg)) (empty_string_value_json sg) \<and>
     json_of L (any_empty_string_value_wkt sg) (any_empty_string_value_wkt_json sg) \<and>
     json_of L (nested_any_wkt sg) (nested_any_wkt_json sg) \<and>
     json_of L (BytesValue (bytes_value sg)) (bytes_value_json sg) \<and>
     json_of L (any_bytes_value_wkt sg) (any_bytes_value_wkt_json sg) \<and>
     json_of L (BytesValue (empty_bytes_value sg)) (empty_bytes_value_json sg) \<and>
     json_of L (any_empty_bytes_value_wkt sg) (any_empty_bytes_value_wkt_json sg)\<close>

lemma setup_strings_ok: "setup_strings L w = Some (Inr sg, w') \<Longrightarrow> w' = w \<and> string_ok L sg"
  by (clarsimp simp: setup_strings_def string_ok_def json_of_def Let_def step_iffs)

definition packed_ok :: \<open>protobuf \<Rightarrow> packed_locals \<Rightarrow> bool\<close> where
  \<open>packed_ok L pk \<longleftrightarrow>
     encodes L (Packed (packed pk)) (packed_bytes pk) \<and>
     encodes L (FixedPacked (fixed_packed pk)) (fixed_packed_bytes pk) \<and>
     encodes L (Fixed64Packed (fixed64_packed pk)) (fixed64_packed_bytes pk) \<and>
     encodes L (SFixedPacked (sfixed_packed pk)) (sfixed_packed_bytes pk) \<and>
     encodes L (SFixed64Packed (sfixed64_packed pk)) (sfixed64_packed_bytes pk) \<and>
     encodes L (FloatPacked (float_packed pk)) (float_packed_bytes pk) \<and>
     encodes L (DoublePacked (double_packed pk)) (double_packed_bytes pk) \<and>
     encodes L (UInt64Packed (uint64_packed pk)) (uint64_packed_bytes pk) \<and>
     encodes L (UInt32Packed (uint32_packed pk)) (uint32_packed_bytes pk) \<and>
     encodes L (Int64Packed (int64_packed pk)) (int64_packed_bytes pk) \<and>
     encodes L (SInt32Packed (sint32_packed pk)) (sint32_packed_bytes pk) \<and>
     encodes L (SInt64Packed (sint64_packed pk)) (sint64_packed_bytes pk) \<and>
     encodes L (BoolPacked (bool_packed pk)) (bool_packed_bytes pk) \<and>
     encodes L (EnumPacked (enum_packed pk)) (enum_packed_bytes pk) \<and>
     encodes L (LargeMap (large_map pk)) (large_map_bytes pk) \<and>
     encodes L (LargeMap (shuffled_large_map pk)) (shuffled_large_map_bytes pk) \<and>
     json_of L (LargeMap (large_map pk)) (large_map_json pk)\<close>

lemma setup_packed_ok: "setup_packed L w = Some (Inr pk, w') \<Longrightarrow> w' = w \<and> packed_ok L pk"
  by (clarsimp simp: setup_packed_def packed_ok_def encodes_def json_of_def Let_def step_iffs)


definition locals_ok :: \<open>protobuf \<Rightarrow> main_locals \<Rightarrow> bool\<close> where
  \<open>locals_ok L ls \<longleftrightarrow>
     core_ok L (core ls) \<and> option_ok L (core ls) (print_opts ls) \<and> json_ok L (core ls) (json_inputs ls) \<and>
     encoding_ok L (core ls) (print_opts ls) (encodings ls) \<and> duration_ok L (durations ls) \<and> mask_ok L (masks ls) \<and>
     timestamp_ok L (timestamps ls) \<and> struct_ok L (structs ls) \<and> value_ok L (value_kinds ls) \<and>
     list_ok L (list_kinds ls) \<and> double_ok L (doubles ls) \<and> int64_ok L (int64s ls) \<and> int32_ok L (int32s ls) \<and>
     string_ok L (string_wrappers ls) \<and> packed_ok L (packeds ls)\<close>

lemma main_setup_ok: "main_setup L w = Some (Inr ls, w') \<Longrightarrow> w' = w \<and> locals_ok L ls"
  unfolding main_setup_def
  by (clarsimp simp: tryIn_Inr_iff)
    ((drule setup_core_ok setup_options_ok setup_json_ok setup_encodings_ok setup_durations_ok setup_masks_ok
      setup_timestamps_ok setup_structs_ok setup_values_ok setup_lists_ok setup_doubles_ok setup_int64s_ok setup_int32s_ok
      setup_strings_ok setup_packed_ok)+, simp add: locals_ok_def)

section \<open>The literal inputs\<close>

text \<open>The JSON inputs that \<open>main\<close> spells out itself; they are printed by no library call.\<close>

definition json_literals :: \<open>json_locals \<Rightarrow> string list\<close> where
  \<open>json_literals js =
    [map_key_surrogate_json js, null_fields_json js, ignore_unknown_json js, open_enum_json js, enum_name_json js,
     proto_name_json js, int_exponent_json js, string_number_json js]\<close>

definition duration_literals :: \<open>duration_locals \<Rightarrow> string list\<close> where
  \<open>duration_literals du =
    [any_duration_escape_wkt_json du,
     any_plus_duration_wkt_json du,
     any_short_fraction_duration_wkt_json du,
     duration_escape_json du,
     plus_duration_json du,
     short_fraction_duration_json du]\<close>

definition mask_literals :: \<open>mask_locals \<Rightarrow> string list\<close> where
  \<open>mask_literals ma =
    [any_field_mask_escape_wkt_json ma,
     field_mask_escape_json ma]\<close>

definition timestamp_literals :: \<open>timestamp_locals \<Rightarrow> string list\<close> where
  \<open>timestamp_literals ti =
    [any_timestamp_escape_wkt_json ti,
     any_short_fraction_timestamp_wkt_json ti,
     any_offset_timestamp_wkt_json ti,
     timestamp_escape_json ti,
     short_fraction_timestamp_json ti,
     offset_timestamp_json ti]\<close>

definition struct_literals :: \<open>struct_locals \<Rightarrow> string list\<close> where
  \<open>struct_literals st =
    [any_struct_escape_wkt_json st,
     any_struct_number_exponent_wkt_json st,
     any_struct_surrogate_wkt_json st,
     any_struct_key_surrogate_wkt_json st,
     struct_escape_json st,
     struct_number_exponent_json st,
     struct_surrogate_json st,
     struct_key_surrogate_json st]\<close>

definition value_literals :: \<open>value_locals \<Rightarrow> string list\<close> where
  \<open>value_literals va =
    [any_value_escape_wkt_json va,
     any_value_number_exponent_wkt_json va,
     any_value_surrogate_wkt_json va,
     any_value_key_surrogate_wkt_json va,
     any_string_scalar_value_escape_wkt_json va,
     any_string_scalar_value_surrogate_wkt_json va,
     any_number_value_exponent_wkt_json va,
     value_escape_json va,
     value_number_exponent_json va,
     value_surrogate_json va,
     value_key_surrogate_json va,
     string_scalar_value_escape_json va,
     string_scalar_value_surrogate_json va,
     number_value_exponent_json va]\<close>

definition list_literals :: \<open>list_locals \<Rightarrow> string list\<close> where
  \<open>list_literals li =
    [any_list_kind_value_escape_wkt_json li,
     any_list_kind_value_surrogate_wkt_json li,
     list_kind_value_escape_json li,
     list_kind_value_surrogate_json li,
     list_value_escape_json li,
     list_value_surrogate_json li]\<close>

definition double_literals :: \<open>double_locals \<Rightarrow> string list\<close> where
  \<open>double_literals db =
    [double_value_string_json db,
     double_value_exponent_json db,
     any_double_value_string_wkt_json db,
     any_double_value_exponent_wkt_json db,
     float_value_string_json db,
     float_value_exponent_json db,
     any_float_value_string_wkt_json db,
     any_float_value_exponent_wkt_json db]\<close>

definition int64_literals :: \<open>int64_locals \<Rightarrow> string list\<close> where
  \<open>int64_literals xs =
    [int64_value_number_json xs,
     int64_value_exponent_json xs,
     any_int64_value_number_wkt_json xs,
     any_int64_value_exponent_wkt_json xs,
     uint64_value_number_json xs,
     uint64_value_exponent_json xs,
     any_uint64_value_number_wkt_json xs,
     any_uint64_value_exponent_wkt_json xs]\<close>

definition int32_literals :: \<open>int32_locals \<Rightarrow> string list\<close> where
  \<open>int32_literals ys =
    [int32_value_string_json ys,
     int32_value_exponent_json ys,
     any_int32_value_string_wkt_json ys,
     any_int32_value_exponent_wkt_json ys,
     uint32_value_string_json ys,
     uint32_value_exponent_json ys,
     any_uint32_value_string_wkt_json ys,
     any_uint32_value_exponent_wkt_json ys]\<close>

definition string_literals :: \<open>string_locals \<Rightarrow> string list\<close> where
  \<open>string_literals sg =
    [string_value_escape_json sg,
     string_value_surrogate_json sg,
     any_string_value_escape_wkt_json sg,
     any_string_value_surrogate_wkt_json sg,
     bytes_value_url_json sg,
     bytes_value_standard_base64_json sg,
     bytes_value_unpadded_json sg,
     any_bytes_value_url_wkt_json sg,
     any_bytes_value_standard_base64_wkt_json sg,
     any_bytes_value_unpadded_wkt_json sg]\<close>

definition literal_inputs :: \<open>main_locals \<Rightarrow> string list\<close> where
  \<open>literal_inputs ls = json_literals (json_inputs ls) @ duration_literals (durations ls) @ mask_literals (masks ls) @ timestamp_literals (timestamps ls) @ struct_literals (structs ls) @ value_literals (value_kinds ls) @ list_literals (list_kinds ls) @ double_literals (doubles ls) @ int64_literals (int64s ls) @ int32_literals (int32s ls) @ string_literals (string_wrappers ls)\<close>

text \<open>Every setup hands over the same literals, whatever the library and the world.\<close>

lemma json_literals_fixed: "\<exists>lits. \<forall>L c w js w'. setup_json L c w = Some (Inr js, w') \<longrightarrow> json_literals js = lits"
  by (rule exI, intro allI impI, clarsimp simp: setup_json_def setup_presence_def setup_null_fields_def
      setup_ignore_unknown_def check_numbers_def json_literals_def Let_def step_iffs, rule refl)

lemma json_literals_same:
  "setup_json L c w = Some (Inr js, w') \<Longrightarrow> setup_json L2 c2 w2 = Some (Inr js2, w2') \<Longrightarrow> json_literals js = json_literals js2"
  using json_literals_fixed by metis

lemma duration_literals_same:
  "setup_durations L w = Some (Inr du, w') \<Longrightarrow> setup_durations L2 w2 = Some (Inr du2, w2') \<Longrightarrow>
     duration_literals du = duration_literals du2"
  by (clarsimp simp: setup_durations_def duration_literals_def Let_def step_iffs)

lemma mask_literals_same:
  "setup_masks L w = Some (Inr ma, w') \<Longrightarrow> setup_masks L2 w2 = Some (Inr ma2, w2') \<Longrightarrow>
     mask_literals ma = mask_literals ma2"
  by (clarsimp simp: setup_masks_def mask_literals_def Let_def step_iffs)

lemma timestamp_literals_same:
  "setup_timestamps L w = Some (Inr ti, w') \<Longrightarrow> setup_timestamps L2 w2 = Some (Inr ti2, w2') \<Longrightarrow>
     timestamp_literals ti = timestamp_literals ti2"
  by (clarsimp simp: setup_timestamps_def timestamp_literals_def Let_def step_iffs)

lemma struct_literals_same:
  "setup_structs L w = Some (Inr st, w') \<Longrightarrow> setup_structs L2 w2 = Some (Inr st2, w2') \<Longrightarrow>
     struct_literals st = struct_literals st2"
  by (clarsimp simp: setup_structs_def struct_literals_def Let_def step_iffs)

lemma value_literals_same:
  "setup_values L st w = Some (Inr va, w') \<Longrightarrow> setup_values L2 st2 w2 = Some (Inr va2, w2') \<Longrightarrow> struct_literals st = struct_literals st2 \<Longrightarrow>
     value_literals va = value_literals va2"
  by (clarsimp simp: setup_values_def value_literals_def struct_literals_def Let_def step_iffs)

lemma list_literals_same:
  "setup_lists L st w = Some (Inr li, w') \<Longrightarrow> setup_lists L2 st2 w2 = Some (Inr li2, w2') \<Longrightarrow> struct_literals st = struct_literals st2 \<Longrightarrow>
     list_literals li = list_literals li2"
  by (clarsimp simp: setup_lists_def list_literals_def struct_literals_def Let_def step_iffs)

lemma double_literals_same:
  "setup_doubles L w = Some (Inr db, w') \<Longrightarrow> setup_doubles L2 w2 = Some (Inr db2, w2') \<Longrightarrow>
     double_literals db = double_literals db2"
  by (clarsimp simp: setup_doubles_def double_literals_def Let_def step_iffs)

lemma int64_literals_same:
  "setup_int64s L w = Some (Inr xs, w') \<Longrightarrow> setup_int64s L2 w2 = Some (Inr xs2, w2') \<Longrightarrow>
     int64_literals xs = int64_literals xs2"
  by (clarsimp simp: setup_int64s_def int64_literals_def Let_def step_iffs)

lemma int32_literals_same:
  "setup_int32s L w = Some (Inr ys, w') \<Longrightarrow> setup_int32s L2 w2 = Some (Inr ys2, w2') \<Longrightarrow>
     int32_literals ys = int32_literals ys2"
  by (clarsimp simp: setup_int32s_def int32_literals_def Let_def step_iffs)

lemma string_literals_same:
  "setup_strings L w = Some (Inr sg, w') \<Longrightarrow> setup_strings L2 w2 = Some (Inr sg2, w2') \<Longrightarrow>
     string_literals sg = string_literals sg2"
  by (clarsimp simp: setup_strings_def string_literals_def Let_def step_iffs)

lemmas literals_same = json_literals_same duration_literals_same mask_literals_same timestamp_literals_same
  struct_literals_same value_literals_same list_literals_same double_literals_same int64_literals_same
  int32_literals_same string_literals_same

lemma literal_inputs_same:
  assumes "main_setup L w = Some (Inr ls, w')" "main_setup L2 w2 = Some (Inr ls2, w2')"
  shows "literal_inputs ls = literal_inputs ls2"
  using assms unfolding main_setup_def
  by (clarsimp simp: tryIn_Inr_iff literal_inputs_def, intro arg_cong2 [where f = "(@)"])
    (rule literals_same, assumption, assumption, (rule struct_literals_same, assumption, assumption)?)+

end
