(* ===== verification/Cpp_Runs.thy ===== *)
theory Cpp_Runs
  imports Cpp_Facts
begin

text \<open>
  Why every benchmark of \<open>main\<close> runs to its end: a rule for each measured lambda, what the
  laws of the library give for the locals that the setup makes, and one lemma for each of
  the seventeen groups of benchmarks, with the names of its result lines in their order.
\<close>

section \<open>Benchmarks that run\<close>

text \<open>\<open>runs_named L m names\<close>: \<open>m\<close> runs to its end and prints one result per name, in this order.\<close>

definition runs_named :: "protobuf \<Rightarrow> unit prog \<Rightarrow> string list \<Rightarrow> bool" where
  "runs_named L m names \<longleftrightarrow> (\<exists>lines. runs L m lines \<and> map fst lines = names)"

lemma runs_named_sequence:
  assumes "list_all2 (runs_named L) ms nss"
  shows "runs_named L (sequence ms) (concat nss)"
  using assms
proof (induction rule: list_all2_induct)
  case Nil
  then show ?case using runs_skip [of L] by (auto simp: runs_named_def runs_def)
next
  case (Cons m ms ns nss)
  then show ?case using runs_then [of L m _ "sequence ms"] by (fastforce simp: runs_named_def)
qed

lemma runs_named_settles: "settles f c v \<Longrightarrow> runs_named L (timed L name iters bytes c f) [name]"
  using runs_timed [of f c v L name iters bytes] by (auto simp: runs_named_def)

definition pair_names :: "string \<Rightarrow> string list" where
  "pair_names t = [''c++ protobuf '' @ t @ '' JSON stringify'', ''c++ protobuf '' @ t @ '' JSON parse'']"

definition parse_names :: "string \<Rightarrow> string list" where
  "parse_names t = [''c++ protobuf '' @ t @ '' JSON parse'']"

named_theorems bench_runs \<comment> \<open>one benchmark runs, by the shape of its lambda\<close>

lemma runs_encode_fresh [bench_runs]: "runs_named L (timed L n it b c (encode_fresh L m)) [n]"
  by (rule runs_named_settles) (rule encode_fresh_settles)

lemma runs_encode_reuse [bench_runs]: "runs_named L (timed L n it b c (encode_reuse L m)) [n]"
  by (rule runs_named_settles) (rule encode_reuse_settles)

lemma runs_encode_array [bench_runs]:
  "encodes L m s \<Longrightarrow> runs_named L (timed L n it b (with_resized (length s)) (encode_array L m)) [n]"
  by (rule runs_named_settles, rule encode_array_settles) (simp add: with_resized_def encodes_def)

lemma runs_encode_deterministic [bench_runs]:
  "same_length L m \<Longrightarrow> encodes L m s \<Longrightarrow> runs_named L (timed L n it b (with_resized (length s)) (encode_deterministic L m)) [n]"
  by (rule runs_named_settles, rule encode_deterministic_settles) (simp add: with_resized_def encodes_def same_length_def)

lemma runs_decode_fresh [bench_runs]: "parses L d s \<Longrightarrow> runs_named L (timed L n it b c (decode_fresh L d s)) [n]"
  by (auto simp: parses_def intro: runs_named_settles decode_fresh_settles)

lemma runs_decode_reuse [bench_runs]: "parses L d s \<Longrightarrow> runs_named L (timed L n it b (with_target d) (decode_reuse L s)) [n]"
  by (simp only: parses_def, elim exE conjE, rule runs_named_settles, rule decode_reuse_settles, simp add: with_target_def) (simp add: with_target_def)

lemma runs_json_stringify [bench_runs]:
  "\<exists>j. MessageToJsonString L opts m = Some j \<Longrightarrow> runs_named L (timed L n it b c (json_stringify L opts m)) [n]"
  by (auto intro: runs_named_settles json_stringify_settles)

lemma runs_json_stringify_reuse [bench_runs]:
  "\<exists>j. MessageToJsonString L default_print_options m = Some j \<Longrightarrow> runs_named L (timed L n it b c (json_stringify_reuse L m)) [n]"
  by (auto intro: runs_named_settles json_stringify_reuse_settles)

lemma runs_json_parse [bench_runs]:
  "accepted L opts d j \<Longrightarrow> runs_named L (timed L n it b c (json_parse L opts d j)) [n]"
  by (auto simp: accepted_def intro: runs_named_settles json_parse_settles)

lemma json_parses_accepted [bench_runs]: "json_parses L d j \<Longrightarrow> accepted L default_parse_options d j"
  by (auto simp: json_parses_def accepted_def)

lemma runs_json_parse_reuse [bench_runs]:
  "json_parses L d j \<Longrightarrow> runs_named L (timed L n it b (with_target d) (json_parse_reuse L j)) [n]"
  by (simp only: json_parses_def, elim exE conjE, rule runs_named_settles, rule json_parse_reuse_settles, simp add: with_target_def) (simp add: with_target_def)

lemma runs_text_format [bench_runs]:
  "\<exists>t. PrintToString L m = Some t \<Longrightarrow> runs_named L (timed L n it b c (text_format L m)) [n]"
  by (auto intro: runs_named_settles text_format_settles)

lemma runs_text_format_reuse [bench_runs]:
  "\<exists>t. PrintToString L m = Some t \<Longrightarrow> runs_named L (timed L n it b c (text_format_reuse L m)) [n]"
  by (auto intro: runs_named_settles text_format_reuse_settles)

lemma runs_text_parse [bench_runs]: "text_parses L d t \<Longrightarrow> runs_named L (timed L n it b c (text_parse L d t)) [n]"
  by (auto simp: text_parses_def intro: runs_named_settles text_parse_settles)

lemma runs_text_parse_reuse [bench_runs]:
  "text_parses L d t \<Longrightarrow> runs_named L (timed L n it b (with_target d) (text_parse_reuse L t)) [n]"
  by (simp only: text_parses_def, elim exE conjE, rule runs_named_settles, rule text_parse_reuse_settles, simp add: with_target_def) (simp add: with_target_def)

lemma runs_parse_only [bench_runs]:
  "accepted L default_parse_options d j \<Longrightarrow> runs_named L (RunWktJsonParseOnly L d t j it) (parse_names t)"
  by (simp add: RunWktJsonParseOnly_def Let_def parse_names_def runs_json_parse)

lemma runs_pair [bench_runs]:
  assumes "reads_json L default_print_options m" "json_of L m j"
  shows "runs_named L (RunWktJsonBenchPair L t m j it) (pair_names t)"
proof -
  let ?s = "timed L (''c++ protobuf '' @ t @ '' JSON stringify'') it (length j) captured_default (json_stringify L default_print_options m)"
  let ?p = "timed L (''c++ protobuf '' @ t @ '' JSON parse'') it (length j) captured_default (json_parse L default_parse_options m j)"
  have "runs_named L ?s [''c++ protobuf '' @ t @ '' JSON stringify'']"
    using assms(2) by (intro runs_json_stringify) (auto simp: json_of_def)
  moreover have "runs_named L ?p [''c++ protobuf '' @ t @ '' JSON parse'']"
    using json_printed_parses [OF assms(1), of j] assms(2)
    by (intro runs_json_parse) (auto simp: accepted_def json_parses_def json_of_def)
  ultimately have "runs_named L (tryIn ?s (\<lambda>_. ?p)) ([''c++ protobuf '' @ t @ '' JSON stringify''] @ [''c++ protobuf '' @ t @ '' JSON parse''])"
    using runs_then [of L ?s _ ?p] unfolding runs_named_def by (metis map_append)
  then show ?thesis by (simp add: RunWktJsonBenchPair_def Let_def pair_names_def)
qed

text \<open>What the library's laws add for the demo messages and the packed messages.\<close>

definition demo_parses :: \<open>protobuf \<Rightarrow> main_locals \<Rightarrow> bool\<close> where
  \<open>demo_parses L ls \<longleftrightarrow>
     parses L (Person default_person) (person_bytes (core ls)) \<and>
     parses L (ScalarMix default_scalar_mix) (scalarmix_bytes (encodings ls)) \<and>
     parses L (TextBytes default_text_bytes) (textbytes_bytes (encodings ls)) \<and>
     parses L (LargeBytes default_large_bytes) (largebytes_bytes (encodings ls)) \<and>
     parses L (PresenceMix default_presence_mix) (presencemix_bytes (encodings ls)) \<and>
     parses L (Complex default_complex) (complex_bytes (encodings ls)) \<and>
     json_parses L (Person default_person) (person_json (core ls)) \<and>
     json_parses L (ScalarMix default_scalar_mix) (scalarmix_json (core ls)) \<and>
     json_parses L (TextBytes default_text_bytes) (textbytes_json (encodings ls)) \<and>
     json_parses L (PresenceMix default_presence_mix) (presencemix_json (json_inputs ls)) \<and>
     json_parses L (Complex default_complex) (complex_json (encodings ls)) \<and>
     json_parses L (Complex default_complex) (complex_proto_name_json (encodings ls)) \<and>
     json_parses L (LargeMap []) (large_map_json (packeds ls)) \<and>
     text_parses L (Person default_person) (person_text (encodings ls)) \<and>
     text_parses L (Complex default_complex) (complex_text (encodings ls))\<close>

lemma demo_parses: "library_ok L ls \<Longrightarrow> locals_ok L ls \<Longrightarrow> demo_parses L ls"
  apply (drule library_demo)
  unfolding demo_parses_def locals_ok_def core_ok_def json_ok_def encoding_ok_def packed_ok_def json_of_def
    binary_messages_def demo_messages_def list.pred_inject
  by (intro conjI; elim conjE; (drule (1) encodes_parses json_printed_parses text_printed_parses; simp; fail)+)


lemma runs_unknown_decode [bench_runs]:
  "\<exists>d. ParseFromString L s (Person default_person) = Some d \<and> int (length (unknown_fields (the_person d))) = kUnknownFieldStressCount \<Longrightarrow>
   runs_named L (timed L n it b c (unknown_decode L s)) [n]"
  by (elim exE conjE, rule runs_named_settles)
    (simp add: body_defs unknown_decode_def)

lemma runs_unknown_count [bench_runs]:
  "UnknownFieldCountByNumber (unknown_fields p) kUnknownFieldStressFirstNumber = kUnknownFieldStressCountPerNumber \<Longrightarrow>
   runs_named L (timed L n it b c (unknown_count p)) [n]"
  by (rule runs_named_settles) (simp add: body_defs unknown_count_def)

definition json_accepted :: \<open>protobuf \<Rightarrow> json_locals \<Rightarrow> bool\<close> where
  \<open>json_accepted L js \<longleftrightarrow>
     accepted L default_parse_options (Person default_person) (map_key_surrogate_json js) \<and>
     accepted L default_parse_options (Person default_person) (null_fields_json js)\<close>

definition duration_accepted :: \<open>protobuf \<Rightarrow> duration_locals \<Rightarrow> bool\<close> where
  \<open>duration_accepted L du \<longleftrightarrow>
     accepted L default_parse_options (Any \<lparr>type_url = [], any_value = []\<rparr>) (any_duration_escape_wkt_json du) \<and>
     accepted L default_parse_options (Any \<lparr>type_url = [], any_value = []\<rparr>) (any_plus_duration_wkt_json du) \<and>
     accepted L default_parse_options (Any \<lparr>type_url = [], any_value = []\<rparr>) (any_short_fraction_duration_wkt_json du) \<and>
     accepted L default_parse_options (Duration zero_time) (duration_escape_json du) \<and>
     accepted L default_parse_options (Duration zero_time) (plus_duration_json du) \<and>
     accepted L default_parse_options (Duration zero_time) (short_fraction_duration_json du)\<close>

definition mask_accepted :: \<open>protobuf \<Rightarrow> mask_locals \<Rightarrow> bool\<close> where
  \<open>mask_accepted L ma \<longleftrightarrow>
     accepted L default_parse_options (Any \<lparr>type_url = [], any_value = []\<rparr>) (any_field_mask_escape_wkt_json ma) \<and>
     accepted L default_parse_options (FieldMask []) (field_mask_escape_json ma)\<close>

definition timestamp_accepted :: \<open>protobuf \<Rightarrow> timestamp_locals \<Rightarrow> bool\<close> where
  \<open>timestamp_accepted L ti \<longleftrightarrow>
     accepted L default_parse_options (Any \<lparr>type_url = [], any_value = []\<rparr>) (any_timestamp_escape_wkt_json ti) \<and>
     accepted L default_parse_options (Any \<lparr>type_url = [], any_value = []\<rparr>) (any_short_fraction_timestamp_wkt_json ti) \<and>
     accepted L default_parse_options (Any \<lparr>type_url = [], any_value = []\<rparr>) (any_offset_timestamp_wkt_json ti) \<and>
     accepted L default_parse_options (Timestamp zero_time) (timestamp_escape_json ti) \<and>
     accepted L default_parse_options (Timestamp zero_time) (short_fraction_timestamp_json ti) \<and>
     accepted L default_parse_options (Timestamp zero_time) (offset_timestamp_json ti)\<close>

definition struct_accepted :: \<open>protobuf \<Rightarrow> struct_locals \<Rightarrow> bool\<close> where
  \<open>struct_accepted L st \<longleftrightarrow>
     accepted L default_parse_options (Any \<lparr>type_url = [], any_value = []\<rparr>) (any_struct_escape_wkt_json st) \<and>
     accepted L default_parse_options (Any \<lparr>type_url = [], any_value = []\<rparr>) (any_struct_number_exponent_wkt_json st) \<and>
     accepted L default_parse_options (Any \<lparr>type_url = [], any_value = []\<rparr>) (any_struct_surrogate_wkt_json st) \<and>
     accepted L default_parse_options (Any \<lparr>type_url = [], any_value = []\<rparr>) (any_struct_key_surrogate_wkt_json st) \<and>
     accepted L default_parse_options (Struct []) (struct_escape_json st) \<and>
     accepted L default_parse_options (Struct []) (struct_number_exponent_json st) \<and>
     accepted L default_parse_options (Struct []) (struct_surrogate_json st) \<and>
     accepted L default_parse_options (Struct []) (struct_key_surrogate_json st)\<close>

definition value_accepted :: \<open>protobuf \<Rightarrow> value_locals \<Rightarrow> bool\<close> where
  \<open>value_accepted L va \<longleftrightarrow>
     accepted L default_parse_options (Any \<lparr>type_url = [], any_value = []\<rparr>) (any_value_escape_wkt_json va) \<and>
     accepted L default_parse_options (Any \<lparr>type_url = [], any_value = []\<rparr>) (any_value_number_exponent_wkt_json va) \<and>
     accepted L default_parse_options (Any \<lparr>type_url = [], any_value = []\<rparr>) (any_value_surrogate_wkt_json va) \<and>
     accepted L default_parse_options (Any \<lparr>type_url = [], any_value = []\<rparr>) (any_value_key_surrogate_wkt_json va) \<and>
     accepted L default_parse_options (Any \<lparr>type_url = [], any_value = []\<rparr>) (any_string_scalar_value_escape_wkt_json va) \<and>
     accepted L default_parse_options (Any \<lparr>type_url = [], any_value = []\<rparr>) (any_string_scalar_value_surrogate_wkt_json va) \<and>
     accepted L default_parse_options (Any \<lparr>type_url = [], any_value = []\<rparr>) (any_number_value_exponent_wkt_json va) \<and>
     accepted L default_parse_options (Value KindNotSet) (value_escape_json va) \<and>
     accepted L default_parse_options (Value KindNotSet) (value_number_exponent_json va) \<and>
     accepted L default_parse_options (Value KindNotSet) (value_surrogate_json va) \<and>
     accepted L default_parse_options (Value KindNotSet) (value_key_surrogate_json va) \<and>
     accepted L default_parse_options (Value KindNotSet) (string_scalar_value_escape_json va) \<and>
     accepted L default_parse_options (Value KindNotSet) (string_scalar_value_surrogate_json va) \<and>
     accepted L default_parse_options (Value KindNotSet) (number_value_exponent_json va)\<close>

definition list_accepted :: \<open>protobuf \<Rightarrow> list_locals \<Rightarrow> bool\<close> where
  \<open>list_accepted L li \<longleftrightarrow>
     accepted L default_parse_options (Any \<lparr>type_url = [], any_value = []\<rparr>) (any_list_kind_value_escape_wkt_json li) \<and>
     accepted L default_parse_options (Any \<lparr>type_url = [], any_value = []\<rparr>) (any_list_kind_value_surrogate_wkt_json li) \<and>
     accepted L default_parse_options (Value KindNotSet) (list_kind_value_escape_json li) \<and>
     accepted L default_parse_options (Value KindNotSet) (list_kind_value_surrogate_json li) \<and>
     accepted L default_parse_options (ListValue []) (list_value_escape_json li) \<and>
     accepted L default_parse_options (ListValue []) (list_value_surrogate_json li)\<close>

definition double_accepted :: \<open>protobuf \<Rightarrow> double_locals \<Rightarrow> bool\<close> where
  \<open>double_accepted L db \<longleftrightarrow>
     accepted L default_parse_options (DoubleValue (Finite 0)) (double_value_string_json db) \<and>
     accepted L default_parse_options (DoubleValue (Finite 0)) (double_value_exponent_json db) \<and>
     accepted L default_parse_options (Any \<lparr>type_url = [], any_value = []\<rparr>) (any_double_value_string_wkt_json db) \<and>
     accepted L default_parse_options (Any \<lparr>type_url = [], any_value = []\<rparr>) (any_double_value_exponent_wkt_json db) \<and>
     accepted L default_parse_options (FloatValue (Finite 0)) (float_value_string_json db) \<and>
     accepted L default_parse_options (FloatValue (Finite 0)) (float_value_exponent_json db) \<and>
     accepted L default_parse_options (Any \<lparr>type_url = [], any_value = []\<rparr>) (any_float_value_string_wkt_json db) \<and>
     accepted L default_parse_options (Any \<lparr>type_url = [], any_value = []\<rparr>) (any_float_value_exponent_wkt_json db)\<close>

definition int64_accepted :: \<open>protobuf \<Rightarrow> int64_locals \<Rightarrow> bool\<close> where
  \<open>int64_accepted L xs \<longleftrightarrow>
     accepted L default_parse_options (Int64Value 0) (int64_value_number_json xs) \<and>
     accepted L default_parse_options (Int64Value 0) (int64_value_exponent_json xs) \<and>
     accepted L default_parse_options (Any \<lparr>type_url = [], any_value = []\<rparr>) (any_int64_value_number_wkt_json xs) \<and>
     accepted L default_parse_options (Any \<lparr>type_url = [], any_value = []\<rparr>) (any_int64_value_exponent_wkt_json xs) \<and>
     accepted L default_parse_options (UInt64Value 0) (uint64_value_number_json xs) \<and>
     accepted L default_parse_options (UInt64Value 0) (uint64_value_exponent_json xs) \<and>
     accepted L default_parse_options (Any \<lparr>type_url = [], any_value = []\<rparr>) (any_uint64_value_number_wkt_json xs) \<and>
     accepted L default_parse_options (Any \<lparr>type_url = [], any_value = []\<rparr>) (any_uint64_value_exponent_wkt_json xs)\<close>

definition int32_accepted :: \<open>protobuf \<Rightarrow> int32_locals \<Rightarrow> bool\<close> where
  \<open>int32_accepted L ys \<longleftrightarrow>
     accepted L default_parse_options (Int32Value 0) (int32_value_string_json ys) \<and>
     accepted L default_parse_options (Int32Value 0) (int32_value_exponent_json ys) \<and>
     accepted L default_parse_options (Any \<lparr>type_url = [], any_value = []\<rparr>) (any_int32_value_string_wkt_json ys) \<and>
     accepted L default_parse_options (Any \<lparr>type_url = [], any_value = []\<rparr>) (any_int32_value_exponent_wkt_json ys) \<and>
     accepted L default_parse_options (UInt32Value 0) (uint32_value_string_json ys) \<and>
     accepted L default_parse_options (UInt32Value 0) (uint32_value_exponent_json ys) \<and>
     accepted L default_parse_options (Any \<lparr>type_url = [], any_value = []\<rparr>) (any_uint32_value_string_wkt_json ys) \<and>
     accepted L default_parse_options (Any \<lparr>type_url = [], any_value = []\<rparr>) (any_uint32_value_exponent_wkt_json ys)\<close>

definition string_accepted :: \<open>protobuf \<Rightarrow> string_locals \<Rightarrow> bool\<close> where
  \<open>string_accepted L sg \<longleftrightarrow>
     accepted L default_parse_options (StringValue []) (string_value_escape_json sg) \<and>
     accepted L default_parse_options (StringValue []) (string_value_surrogate_json sg) \<and>
     accepted L default_parse_options (Any \<lparr>type_url = [], any_value = []\<rparr>) (any_string_value_escape_wkt_json sg) \<and>
     accepted L default_parse_options (Any \<lparr>type_url = [], any_value = []\<rparr>) (any_string_value_surrogate_wkt_json sg) \<and>
     accepted L default_parse_options (BytesValue []) (bytes_value_url_json sg) \<and>
     accepted L default_parse_options (BytesValue []) (bytes_value_standard_base64_json sg) \<and>
     accepted L default_parse_options (BytesValue []) (bytes_value_unpadded_json sg) \<and>
     accepted L default_parse_options (Any \<lparr>type_url = [], any_value = []\<rparr>) (any_bytes_value_url_wkt_json sg) \<and>
     accepted L default_parse_options (Any \<lparr>type_url = [], any_value = []\<rparr>) (any_bytes_value_standard_base64_wkt_json sg) \<and>
     accepted L default_parse_options (Any \<lparr>type_url = [], any_value = []\<rparr>) (any_bytes_value_unpadded_wkt_json sg)\<close>

definition literals_accepted :: \<open>protobuf \<Rightarrow> main_locals \<Rightarrow> bool\<close> where
  \<open>literals_accepted L ls \<longleftrightarrow> json_accepted L (json_inputs ls) \<and>
     duration_accepted L (durations ls) \<and>
     mask_accepted L (masks ls) \<and>
     timestamp_accepted L (timestamps ls) \<and>
     struct_accepted L (structs ls) \<and>
     value_accepted L (value_kinds ls) \<and>
     list_accepted L (list_kinds ls) \<and>
     double_accepted L (doubles ls) \<and>
     int64_accepted L (int64s ls) \<and>
     int32_accepted L (int32s ls) \<and>
     string_accepted L (string_wrappers ls)\<close>


definition packed_parses :: \<open>protobuf \<Rightarrow> packed_locals \<Rightarrow> bool\<close> where
  \<open>packed_parses L pk \<longleftrightarrow>
     parses L (Packed []) (packed_bytes pk) \<and>
     parses L (FixedPacked []) (fixed_packed_bytes pk) \<and>
     parses L (Fixed64Packed []) (fixed64_packed_bytes pk) \<and>
     parses L (SFixedPacked []) (sfixed_packed_bytes pk) \<and>
     parses L (SFixed64Packed []) (sfixed64_packed_bytes pk) \<and>
     parses L (FloatPacked []) (float_packed_bytes pk) \<and>
     parses L (DoublePacked []) (double_packed_bytes pk) \<and>
     parses L (UInt64Packed []) (uint64_packed_bytes pk) \<and>
     parses L (UInt32Packed []) (uint32_packed_bytes pk) \<and>
     parses L (Int64Packed []) (int64_packed_bytes pk) \<and>
     parses L (SInt32Packed []) (sint32_packed_bytes pk) \<and>
     parses L (SInt64Packed []) (sint64_packed_bytes pk) \<and>
     parses L (BoolPacked []) (bool_packed_bytes pk) \<and>
     parses L (EnumPacked []) (enum_packed_bytes pk) \<and>
     parses L (LargeMap []) (large_map_bytes pk) \<and>
     parses L (LargeMap []) (shuffled_large_map_bytes pk)\<close>

lemma packed_parses: "library_ok L ls \<Longrightarrow> packed_ok L (packeds ls) \<Longrightarrow> packed_parses L (packeds ls)"
  unfolding packed_parses_def packed_ok_def library_ok_def binary_messages_def list.pred_inject
  by (intro conjI; elim conjE; (drule (1) encodes_parses; simp; fail)+)

text \<open>
  \<open>main_ok\<close>: the library keeps its laws on the messages of \<open>main\<close>, the locals are what the setup
  makes, and the library accepts the literal JSON inputs that the setup has not already parsed
  with the same options into a message of the same type.
\<close>

definition main_ok :: "protobuf \<Rightarrow> main_locals \<Rightarrow> bool" where
  "main_ok L ls \<longleftrightarrow> library_ok L ls \<and> keeps_unknown_numbers L \<and> locals_ok L ls \<and> literals_accepted L ls"

definition unknown_ok :: "protobuf \<Rightarrow> core_locals \<Rightarrow> bool" where
  "unknown_ok L c \<longleftrightarrow>
     (\<exists>d. ParseFromString L (MakeUnknownFieldPayload (person_bytes c)) (Person default_person) = Some d \<and>
        int (length (unknown_fields (the_person d))) = kUnknownFieldStressCount) \<and>
     UnknownFieldCountByNumber (unknown_fields (unknown_person c)) kUnknownFieldStressFirstNumber = kUnknownFieldStressCountPerNumber"

lemma unknown_ok: "keeps_unknown_numbers L \<Longrightarrow> core_ok L c \<Longrightarrow> unknown_ok L c"
  by (auto simp: unknown_ok_def core_ok_def keeps_unknown_numbers_def encodes_def unknown_count_numbers
      kUnknownFieldStressFirstNumber_def)

lemma main_ok_groups:
  "main_ok L ls \<Longrightarrow>
     list_all (same_length L) [Person (person (core ls)), Complex (complex_message (core ls)), LargeMap (shuffled_large_map (packeds ls))] \<and>
     list_all (reads_json L default_print_options) (duration_messages (durations ls)) \<and>
     list_all (reads_json L default_print_options) (mask_messages (masks ls)) \<and>
     list_all (reads_json L default_print_options) (timestamp_messages (timestamps ls)) \<and>
     list_all (reads_json L default_print_options) (struct_messages (structs ls)) \<and>
     list_all (reads_json L default_print_options) (value_messages (value_kinds ls)) \<and>
     list_all (reads_json L default_print_options) (list_messages (list_kinds ls)) \<and>
     list_all (reads_json L default_print_options) (double_messages (doubles ls)) \<and>
     list_all (reads_json L default_print_options) (int64_messages (int64s ls)) \<and>
     list_all (reads_json L default_print_options) (int32_messages (int32s ls)) \<and>
     list_all (reads_json L default_print_options) (string_messages (string_wrappers ls)) \<and>
     unknown_ok L (core ls) \<and> core_ok L (core ls) \<and> option_ok L (core ls) (print_opts ls) \<and>
     json_ok L (core ls) (json_inputs ls) \<and> encoding_ok L (core ls) (print_opts ls) (encodings ls) \<and>
     duration_ok L (durations ls) \<and> mask_ok L (masks ls) \<and> timestamp_ok L (timestamps ls) \<and>
     struct_ok L (structs ls) \<and> value_ok L (value_kinds ls) \<and> list_ok L (list_kinds ls) \<and>
     double_ok L (doubles ls) \<and> int64_ok L (int64s ls) \<and> int32_ok L (int32s ls) \<and>
     string_ok L (string_wrappers ls) \<and> packed_ok L (packeds ls) \<and>
     packed_parses L (packeds ls) \<and> demo_parses L ls \<and>
     json_accepted L (json_inputs ls) \<and> duration_accepted L (durations ls) \<and> mask_accepted L (masks ls) \<and>
     timestamp_accepted L (timestamps ls) \<and> struct_accepted L (structs ls) \<and> value_accepted L (value_kinds ls) \<and>
     list_accepted L (list_kinds ls) \<and> double_accepted L (doubles ls) \<and> int64_accepted L (int64s ls) \<and>
     int32_accepted L (int32s ls) \<and> string_accepted L (string_wrappers ls)"
  unfolding main_ok_def
  by (intro conjI; elim conjE; (assumption | rule demo_parses | (simp add: locals_ok_def literals_accepted_def unknown_ok packed_parses; fail) | (simp only: library_ok_def json_messages_def list_all_append; fail)))

definition bench_names_1 :: \<open>string list list\<close> where
  \<open>bench_names_1 =
    [[''c++ protobuf binary encode''],
     [''c++ protobuf binary encode reuse''],
     [''c++ protobuf binary SerializeToArray reuse''],
     [''c++ protobuf deterministic binary encode reuse''],
     [''c++ protobuf binary decode''],
     [''c++ protobuf binary decode reuse''],
     [''c++ protobuf unknown fields decode''],
     [''c++ protobuf unknown fields count by number''],
     [''c++ protobuf scalarmix encode''],
     [''c++ protobuf scalarmix SerializeToArray reuse''],
     [''c++ protobuf scalarmix decode'']]\<close>

lemma bench_1_runs: "main_ok L ls \<Longrightarrow> runs_named L (bench_1 L ls) (concat bench_names_1)"
  unfolding bench_1_def bench_names_1_def
  by (rule runs_named_sequence, drule main_ok_groups) (simp add: bench_runs unknown_ok_def demo_parses_def packed_parses_def json_of_def core_ok_def encoding_ok_def )

definition bench_names_2 :: \<open>string list list\<close> where
  \<open>bench_names_2 =
    [[''c++ protobuf scalarmix decode reuse''],
     [''c++ protobuf textbytes encode''],
     [''c++ protobuf textbytes encode reuse''],
     [''c++ protobuf textbytes SerializeToArray reuse''],
     [''c++ protobuf textbytes decode''],
     [''c++ protobuf textbytes decode reuse''],
     [''c++ protobuf TextBytes JSON stringify''],
     [''c++ protobuf TextBytes JSON parse''],
     [''c++ protobuf largebytes encode''],
     [''c++ protobuf largebytes encode reuse''],
     [''c++ protobuf largebytes SerializeToArray reuse'']]\<close>

lemma bench_2_runs: "main_ok L ls \<Longrightarrow> runs_named L (bench_2 L ls) (concat bench_names_2)"
  unfolding bench_2_def bench_names_2_def
  by (rule runs_named_sequence, drule main_ok_groups) (simp add: bench_runs unknown_ok_def demo_parses_def packed_parses_def json_of_def core_ok_def encoding_ok_def )

definition bench_names_3 :: \<open>string list list\<close> where
  \<open>bench_names_3 =
    [[''c++ protobuf largebytes decode''],
     [''c++ protobuf largebytes decode reuse''],
     [''c++ protobuf presencemix encode''],
     [''c++ protobuf presencemix encode reuse''],
     [''c++ protobuf presencemix SerializeToArray reuse''],
     [''c++ protobuf presencemix decode''],
     [''c++ protobuf presencemix decode reuse''],
     [''c++ protobuf PresenceMix JSON stringify''],
     [''c++ protobuf PresenceMix JSON parse''],
     [''c++ protobuf complex encode''],
     [''c++ protobuf complex encode reuse'']]\<close>

lemma bench_3_runs: "main_ok L ls \<Longrightarrow> runs_named L (bench_3 L ls) (concat bench_names_3)"
  unfolding bench_3_def bench_names_3_def
  by (rule runs_named_sequence, drule main_ok_groups) (simp add: bench_runs unknown_ok_def demo_parses_def packed_parses_def json_of_def core_ok_def encoding_ok_def json_ok_def json_accepted_def)

definition bench_names_4 :: \<open>string list list\<close> where
  \<open>bench_names_4 =
    [[''c++ protobuf complex SerializeToArray reuse''],
     [''c++ protobuf complex deterministic binary encode reuse''],
     [''c++ protobuf complex decode''],
     [''c++ protobuf complex decode reuse''],
     [''c++ protobuf complex JSON stringify''],
     [''c++ protobuf complex JSON stringify reuse''],
     [''c++ protobuf complex JSON parse''],
     [''c++ protobuf complex JSON parse reuse''],
     [''c++ protobuf Complex ProtoName JSON stringify''],
     [''c++ protobuf Complex ProtoName JSON parse'']]\<close>

lemma bench_4_runs: "main_ok L ls \<Longrightarrow> runs_named L (bench_4 L ls) (concat bench_names_4)"
  unfolding bench_4_def bench_names_4_def
  by (rule runs_named_sequence, drule main_ok_groups) (simp add: bench_runs unknown_ok_def demo_parses_def packed_parses_def json_of_def core_ok_def encoding_ok_def option_ok_def )

definition bench_names_5 :: \<open>string list list\<close> where
  \<open>bench_names_5 =
    [[''c++ protobuf complex TextFormat format''],
     [''c++ protobuf complex TextFormat format reuse''],
     [''c++ protobuf complex TextFormat parse''],
     [''c++ protobuf complex TextFormat parse reuse''],
     [''c++ protobuf JSON stringify''],
     [''c++ protobuf ScalarMix JSON stringify''],
     [''c++ protobuf AlwaysPrint JSON stringify''],
     [''c++ protobuf ProtoName JSON stringify''],
     [''c++ protobuf EnumNumber JSON stringify''],
     [''c++ protobuf JSON stringify reuse''],
     [''c++ protobuf JSON parse'']]\<close>

lemma bench_5_runs: "main_ok L ls \<Longrightarrow> runs_named L (bench_5 L ls) (concat bench_names_5)"
  unfolding bench_5_def bench_names_5_def
  by (rule runs_named_sequence, drule main_ok_groups) (simp add: bench_runs unknown_ok_def demo_parses_def packed_parses_def json_of_def core_ok_def encoding_ok_def option_ok_def )

definition bench_names_6 :: \<open>string list list\<close> where
  \<open>bench_names_6 =
    [[''c++ protobuf JSON parse reuse''],
     [''c++ protobuf ScalarMix JSON parse''],
     [''c++ protobuf MapKeySurrogate JSON parse''],
     [''c++ protobuf NullFields JSON parse''],
     [''c++ protobuf IgnoreUnknown JSON parse''],
     [''c++ protobuf OpenEnum JSON parse''],
     [''c++ protobuf EnumName JSON parse''],
     [''c++ protobuf ProtoName JSON parse''],
     [''c++ protobuf IntExponent JSON parse''],
     [''c++ protobuf StringNumber JSON parse''],
     pair_names ''Any WKT'',
     parse_names ''Any Duration Escape WKT'']\<close>

lemma bench_6_runs: "main_ok L ls \<Longrightarrow> runs_named L (bench_6 L ls) (concat bench_names_6)"
  unfolding bench_6_def bench_names_6_def
  by (rule runs_named_sequence, drule main_ok_groups) (simp add: bench_runs unknown_ok_def demo_parses_def packed_parses_def json_of_def core_ok_def duration_ok_def duration_messages_def json_ok_def duration_accepted_def json_accepted_def)

definition bench_names_7 :: \<open>string list list\<close> where
  \<open>bench_names_7 =
    [[''c++ protobuf Any PlusDuration WKT JSON parse''],
     [''c++ protobuf Any ShortFractionDuration WKT JSON parse''],
     pair_names ''Any MicroDuration WKT'',
     pair_names ''Any NanoDuration WKT'',
     pair_names ''Any NegativeDuration WKT'',
     pair_names ''Any FractionalNegativeDuration WKT'',
     pair_names ''Any MaxDuration WKT'',
     pair_names ''Any MinDuration WKT'',
     pair_names ''Any ZeroDuration WKT'',
     pair_names ''Any FieldMask WKT'',
     parse_names ''Any FieldMask Escape WKT'',
     pair_names ''Any EmptyFieldMask WKT'',
     pair_names ''Any Timestamp WKT'',
     parse_names ''Any Timestamp Escape WKT'',
     parse_names ''Any ShortFraction Timestamp WKT'',
     pair_names ''Any Micro Timestamp WKT'',
     pair_names ''Any Nano Timestamp WKT'',
     [''c++ protobuf Any Offset Timestamp WKT JSON parse''],
     pair_names ''Any PreEpoch Timestamp WKT'',
     pair_names ''Any Max Timestamp WKT'',
     pair_names ''Any Min Timestamp WKT'',
     pair_names ''Any Empty WKT'',
     pair_names ''Any Struct WKT'',
     parse_names ''Any Struct Escape WKT'',
     parse_names ''Any Struct NumberExponent WKT'',
     parse_names ''Any Struct Surrogate WKT'',
     parse_names ''Any Struct KeySurrogate WKT'',
     pair_names ''Any EmptyStruct WKT'',
     pair_names ''Any Value WKT'',
     parse_names ''Any Value Escape WKT'',
     parse_names ''Any Value NumberExponent WKT'',
     parse_names ''Any Value Surrogate WKT'',
     parse_names ''Any Value KeySurrogate WKT'',
     pair_names ''Any NullValue WKT'',
     pair_names ''Any StringScalarValue WKT'',
     parse_names ''Any StringScalarValue Escape WKT'',
     parse_names ''Any StringScalarValue Surrogate WKT'',
     pair_names ''Any EmptyStringScalarValue WKT'',
     pair_names ''Any NumberValue WKT'',
     parse_names ''Any NumberValue Exponent WKT'']\<close>

lemma bench_7_runs: "main_ok L ls \<Longrightarrow> runs_named L (bench_7 L ls) (concat bench_names_7)"
  unfolding bench_7_def bench_names_7_def
  by (rule runs_named_sequence, drule main_ok_groups) (simp add: bench_runs unknown_ok_def demo_parses_def packed_parses_def json_of_def duration_ok_def duration_messages_def mask_ok_def mask_messages_def struct_ok_def struct_messages_def timestamp_ok_def timestamp_messages_def value_ok_def value_messages_def duration_accepted_def mask_accepted_def struct_accepted_def timestamp_accepted_def value_accepted_def)

definition bench_names_8 :: \<open>string list list\<close> where
  \<open>bench_names_8 =
    [pair_names ''Any NegativeNumberValue WKT'',
     pair_names ''Any ZeroNumberValue WKT'',
     pair_names ''Any BoolScalarValue WKT'',
     pair_names ''Any FalseBoolScalarValue WKT'',
     pair_names ''Any ListKindValue WKT'',
     parse_names ''Any ListKindValue Escape WKT'',
     parse_names ''Any ListKindValue Surrogate WKT'',
     pair_names ''Any EmptyStructKindValue WKT'',
     pair_names ''Any EmptyListKindValue WKT'',
     pair_names ''Any StringValue WKT'',
     pair_names ''Any BytesValue WKT'',
     pair_names ''Nested Any WKT'',
     pair_names ''Duration'',
     parse_names ''Duration Escape'',
     [''c++ protobuf PlusDuration JSON parse''],
     [''c++ protobuf ShortFractionDuration JSON parse''],
     pair_names ''MicroDuration'',
     pair_names ''NanoDuration'',
     pair_names ''NegativeDuration'',
     pair_names ''FractionalNegativeDuration'',
     pair_names ''MaxDuration'',
     pair_names ''MinDuration'',
     pair_names ''ZeroDuration'',
     pair_names ''FieldMask'',
     parse_names ''FieldMask Escape'',
     pair_names ''EmptyFieldMask'',
     pair_names ''Timestamp'',
     parse_names ''Timestamp Escape'',
     parse_names ''ShortFraction Timestamp'',
     pair_names ''Micro Timestamp'',
     pair_names ''Nano Timestamp'',
     [''c++ protobuf Offset Timestamp JSON parse''],
     pair_names ''PreEpoch Timestamp'',
     pair_names ''Max Timestamp'',
     pair_names ''Min Timestamp'',
     pair_names ''Empty'',
     pair_names ''Struct'',
     parse_names ''Struct Escape'',
     parse_names ''Struct NumberExponent'',
     parse_names ''Struct Surrogate'',
     parse_names ''Struct KeySurrogate'',
     pair_names ''EmptyStruct'',
     pair_names ''Value'',
     parse_names ''Value Escape'',
     parse_names ''Value NumberExponent'',
     parse_names ''Value Surrogate'']\<close>

lemma bench_8_runs: "main_ok L ls \<Longrightarrow> runs_named L (bench_8 L ls) (concat bench_names_8)"
  unfolding bench_8_def bench_names_8_def
  by (rule runs_named_sequence, drule main_ok_groups) (simp add: bench_runs unknown_ok_def demo_parses_def packed_parses_def json_of_def duration_ok_def duration_messages_def list_ok_def list_messages_def mask_ok_def mask_messages_def string_ok_def string_messages_def struct_ok_def struct_messages_def timestamp_ok_def timestamp_messages_def value_ok_def value_messages_def duration_accepted_def list_accepted_def mask_accepted_def string_accepted_def struct_accepted_def timestamp_accepted_def value_accepted_def)

definition bench_names_9 :: \<open>string list list\<close> where
  \<open>bench_names_9 =
    [parse_names ''Value KeySurrogate'',
     pair_names ''NullValue'',
     pair_names ''StringScalarValue'',
     parse_names ''StringScalarValue Escape'',
     parse_names ''StringScalarValue Surrogate'',
     pair_names ''EmptyStringScalarValue'',
     pair_names ''NumberValue'',
     parse_names ''NumberValue Exponent'',
     pair_names ''NegativeNumberValue'',
     pair_names ''ZeroNumberValue'',
     pair_names ''BoolScalarValue'',
     pair_names ''FalseBoolScalarValue'',
     pair_names ''ListKindValue'',
     parse_names ''ListKindValue Escape'',
     parse_names ''ListKindValue Surrogate'',
     pair_names ''EmptyStructKindValue'',
     pair_names ''EmptyListKindValue'',
     pair_names ''ListValue'',
     parse_names ''ListValue Escape'',
     parse_names ''ListValue Surrogate'',
     pair_names ''EmptyListValue'',
     pair_names ''DoubleValue'',
     parse_names ''DoubleValue String'',
     parse_names ''DoubleValue Exponent'',
     pair_names ''Any DoubleValue WKT'',
     parse_names ''Any DoubleValue String WKT'',
     parse_names ''Any DoubleValue Exponent WKT'',
     pair_names ''NegativeDoubleValue'',
     pair_names ''Any NegativeDoubleValue WKT'',
     pair_names ''ZeroDoubleValue'',
     pair_names ''Any ZeroDoubleValue WKT'',
     pair_names ''DoubleValue NaN'',
     pair_names ''Any DoubleValue NaN WKT'',
     pair_names ''DoubleValue Infinity'',
     pair_names ''Any DoubleValue Infinity WKT'',
     pair_names ''DoubleValue NegativeInfinity'',
     pair_names ''Any DoubleValue NegativeInfinity WKT'',
     pair_names ''FloatValue'',
     parse_names ''FloatValue String'',
     parse_names ''FloatValue Exponent'',
     pair_names ''Any FloatValue WKT'',
     parse_names ''Any FloatValue String WKT'',
     parse_names ''Any FloatValue Exponent WKT'',
     pair_names ''NegativeFloatValue'',
     pair_names ''Any NegativeFloatValue WKT'',
     pair_names ''ZeroFloatValue'',
     pair_names ''Any ZeroFloatValue WKT'',
     pair_names ''FloatValue NaN'',
     pair_names ''Any FloatValue NaN WKT'',
     pair_names ''FloatValue Infinity'',
     pair_names ''Any FloatValue Infinity WKT'',
     pair_names ''FloatValue NegativeInfinity'',
     pair_names ''Any FloatValue NegativeInfinity WKT'',
     pair_names ''Int64Value'',
     parse_names ''Int64Value Number'',
     parse_names ''Int64Value Exponent'',
     pair_names ''Any Int64Value WKT'',
     parse_names ''Any Int64Value Number WKT'',
     parse_names ''Any Int64Value Exponent WKT'',
     pair_names ''ZeroInt64Value'']\<close>

lemma bench_9_runs: "main_ok L ls \<Longrightarrow> runs_named L (bench_9 L ls) (concat bench_names_9)"
  unfolding bench_9_def bench_names_9_def
  by (rule runs_named_sequence, drule main_ok_groups) (simp add: bench_runs unknown_ok_def demo_parses_def packed_parses_def json_of_def double_ok_def double_messages_def int64_ok_def int64_messages_def list_ok_def list_messages_def value_ok_def value_messages_def double_accepted_def int64_accepted_def list_accepted_def value_accepted_def)

definition bench_names_10 :: \<open>string list list\<close> where
  \<open>bench_names_10 =
    [pair_names ''Any ZeroInt64Value WKT'',
     pair_names ''NegativeInt64Value'',
     pair_names ''Any NegativeInt64Value WKT'',
     pair_names ''MinInt64Value'',
     pair_names ''Any MinInt64Value WKT'',
     pair_names ''MaxInt64Value'',
     pair_names ''Any MaxInt64Value WKT'',
     pair_names ''UInt64Value'',
     parse_names ''UInt64Value Number'',
     parse_names ''UInt64Value Exponent'',
     pair_names ''Any UInt64Value WKT'',
     parse_names ''Any UInt64Value Number WKT'',
     parse_names ''Any UInt64Value Exponent WKT'',
     pair_names ''ZeroUInt64Value'',
     pair_names ''Any ZeroUInt64Value WKT'',
     pair_names ''MaxUInt64Value'',
     pair_names ''Any MaxUInt64Value WKT'',
     pair_names ''Int32Value'',
     parse_names ''Int32Value String'',
     parse_names ''Int32Value Exponent'',
     pair_names ''Any Int32Value WKT'',
     parse_names ''Any Int32Value String WKT'',
     parse_names ''Any Int32Value Exponent WKT'',
     pair_names ''ZeroInt32Value'',
     pair_names ''Any ZeroInt32Value WKT'',
     pair_names ''NegativeInt32Value'',
     pair_names ''Any NegativeInt32Value WKT'',
     pair_names ''MinInt32Value'',
     pair_names ''Any MinInt32Value WKT'',
     pair_names ''MaxInt32Value'',
     pair_names ''Any MaxInt32Value WKT'',
     pair_names ''UInt32Value'',
     parse_names ''UInt32Value String'',
     parse_names ''UInt32Value Exponent'',
     pair_names ''Any UInt32Value WKT'',
     parse_names ''Any UInt32Value String WKT'',
     parse_names ''Any UInt32Value Exponent WKT'',
     pair_names ''ZeroUInt32Value'',
     pair_names ''Any ZeroUInt32Value WKT'',
     pair_names ''MaxUInt32Value'',
     pair_names ''Any MaxUInt32Value WKT'',
     pair_names ''BoolValue'',
     pair_names ''Any BoolValue WKT'',
     pair_names ''FalseBoolValue'',
     pair_names ''Any FalseBoolValue WKT'',
     pair_names ''StringValue'',
     parse_names ''StringValue Escape'',
     parse_names ''StringValue Surrogate'',
     parse_names ''Any StringValue Escape WKT'',
     parse_names ''Any StringValue Surrogate WKT'',
     pair_names ''EmptyStringValue'',
     pair_names ''Any EmptyStringValue WKT'',
     pair_names ''BytesValue'',
     parse_names ''BytesValue URL'',
     parse_names ''BytesValue StandardBase64'',
     parse_names ''BytesValue Unpadded'',
     parse_names ''Any BytesValue URL WKT'',
     parse_names ''Any BytesValue StandardBase64 WKT'',
     parse_names ''Any BytesValue Unpadded WKT'',
     pair_names ''EmptyBytesValue'']\<close>

lemma bench_10_runs: "main_ok L ls \<Longrightarrow> runs_named L (bench_10 L ls) (concat bench_names_10)"
  unfolding bench_10_def bench_names_10_def
  by (rule runs_named_sequence, drule main_ok_groups) (simp add: bench_runs unknown_ok_def demo_parses_def packed_parses_def json_of_def int32_ok_def int32_messages_def int64_ok_def int64_messages_def string_ok_def string_messages_def int32_accepted_def int64_accepted_def string_accepted_def)

definition bench_names_11 :: \<open>string list list\<close> where
  \<open>bench_names_11 =
    [pair_names ''Any EmptyBytesValue WKT'',
     [''c++ protobuf TextFormat format''],
     [''c++ protobuf TextFormat format reuse''],
     [''c++ protobuf TextFormat parse''],
     [''c++ protobuf TextFormat parse reuse''],
     [''c++ protobuf packed encode''],
     [''c++ protobuf packed encode reuse''],
     [''c++ protobuf packed SerializeToArray reuse''],
     [''c++ protobuf packed decode''],
     [''c++ protobuf packed decode reuse''],
     [''c++ protobuf fixed32 packed encode''],
     [''c++ protobuf fixed32 packed SerializeToArray reuse''],
     [''c++ protobuf fixed32 packed decode'']]\<close>

lemma bench_11_runs: "main_ok L ls \<Longrightarrow> runs_named L (bench_11 L ls) (concat bench_names_11)"
  unfolding bench_11_def bench_names_11_def
  by (rule runs_named_sequence, drule main_ok_groups) (simp add: bench_runs unknown_ok_def demo_parses_def packed_parses_def json_of_def core_ok_def encoding_ok_def packed_ok_def string_ok_def string_messages_def string_accepted_def)

definition bench_names_12 :: \<open>string list list\<close> where
  \<open>bench_names_12 =
    [[''c++ protobuf fixed32 packed decode reuse''],
     [''c++ protobuf fixed64 packed encode''],
     [''c++ protobuf fixed64 packed SerializeToArray reuse''],
     [''c++ protobuf fixed64 packed decode''],
     [''c++ protobuf fixed64 packed decode reuse''],
     [''c++ protobuf sfixed32 packed encode''],
     [''c++ protobuf sfixed32 packed SerializeToArray reuse''],
     [''c++ protobuf sfixed32 packed decode''],
     [''c++ protobuf sfixed32 packed decode reuse''],
     [''c++ protobuf sfixed64 packed encode''],
     [''c++ protobuf sfixed64 packed SerializeToArray reuse'']]\<close>

lemma bench_12_runs: "main_ok L ls \<Longrightarrow> runs_named L (bench_12 L ls) (concat bench_names_12)"
  unfolding bench_12_def bench_names_12_def
  by (rule runs_named_sequence, drule main_ok_groups) (simp add: bench_runs unknown_ok_def demo_parses_def packed_parses_def json_of_def packed_ok_def )

definition bench_names_13 :: \<open>string list list\<close> where
  \<open>bench_names_13 =
    [[''c++ protobuf sfixed64 packed decode''],
     [''c++ protobuf sfixed64 packed decode reuse''],
     [''c++ protobuf float packed encode''],
     [''c++ protobuf float packed SerializeToArray reuse''],
     [''c++ protobuf float packed decode''],
     [''c++ protobuf float packed decode reuse''],
     [''c++ protobuf double packed encode''],
     [''c++ protobuf double packed SerializeToArray reuse''],
     [''c++ protobuf double packed decode''],
     [''c++ protobuf double packed decode reuse''],
     [''c++ protobuf uint64 packed encode'']]\<close>

lemma bench_13_runs: "main_ok L ls \<Longrightarrow> runs_named L (bench_13 L ls) (concat bench_names_13)"
  unfolding bench_13_def bench_names_13_def
  by (rule runs_named_sequence, drule main_ok_groups) (simp add: bench_runs unknown_ok_def demo_parses_def packed_parses_def json_of_def packed_ok_def )

definition bench_names_14 :: \<open>string list list\<close> where
  \<open>bench_names_14 =
    [[''c++ protobuf uint64 packed SerializeToArray reuse''],
     [''c++ protobuf uint64 packed decode''],
     [''c++ protobuf uint64 packed decode reuse''],
     [''c++ protobuf uint32 packed encode''],
     [''c++ protobuf uint32 packed SerializeToArray reuse''],
     [''c++ protobuf uint32 packed decode''],
     [''c++ protobuf uint32 packed decode reuse''],
     [''c++ protobuf int64 packed encode''],
     [''c++ protobuf int64 packed SerializeToArray reuse''],
     [''c++ protobuf int64 packed decode''],
     [''c++ protobuf int64 packed decode reuse'']]\<close>

lemma bench_14_runs: "main_ok L ls \<Longrightarrow> runs_named L (bench_14 L ls) (concat bench_names_14)"
  unfolding bench_14_def bench_names_14_def
  by (rule runs_named_sequence, drule main_ok_groups) (simp add: bench_runs unknown_ok_def demo_parses_def packed_parses_def json_of_def packed_ok_def )

definition bench_names_15 :: \<open>string list list\<close> where
  \<open>bench_names_15 =
    [[''c++ protobuf sint32 packed encode''],
     [''c++ protobuf sint32 packed SerializeToArray reuse''],
     [''c++ protobuf sint32 packed decode''],
     [''c++ protobuf sint32 packed decode reuse''],
     [''c++ protobuf sint64 packed encode''],
     [''c++ protobuf sint64 packed SerializeToArray reuse''],
     [''c++ protobuf sint64 packed decode''],
     [''c++ protobuf sint64 packed decode reuse''],
     [''c++ protobuf bool packed encode''],
     [''c++ protobuf bool packed SerializeToArray reuse''],
     [''c++ protobuf bool packed decode'']]\<close>

lemma bench_15_runs: "main_ok L ls \<Longrightarrow> runs_named L (bench_15 L ls) (concat bench_names_15)"
  unfolding bench_15_def bench_names_15_def
  by (rule runs_named_sequence, drule main_ok_groups) (simp add: bench_runs unknown_ok_def demo_parses_def packed_parses_def json_of_def packed_ok_def )

definition bench_names_16 :: \<open>string list list\<close> where
  \<open>bench_names_16 =
    [[''c++ protobuf bool packed decode reuse''],
     [''c++ protobuf enum packed encode''],
     [''c++ protobuf enum packed SerializeToArray reuse''],
     [''c++ protobuf enum packed decode''],
     [''c++ protobuf enum packed decode reuse''],
     [''c++ protobuf large map encode''],
     [''c++ protobuf large map SerializeToArray reuse''],
     [''c++ protobuf shuffled large map deterministic binary encode reuse''],
     [''c++ protobuf large map decode''],
     [''c++ protobuf large map decode reuse''],
     [''c++ protobuf LargeMap JSON stringify'']]\<close>

lemma bench_16_runs: "main_ok L ls \<Longrightarrow> runs_named L (bench_16 L ls) (concat bench_names_16)"
  unfolding bench_16_def bench_names_16_def
  by (rule runs_named_sequence, drule main_ok_groups) (simp add: bench_runs unknown_ok_def demo_parses_def packed_parses_def json_of_def packed_ok_def )

definition bench_names_17 :: \<open>string list list\<close> where
  \<open>bench_names_17 =
    [[''c++ protobuf LargeMap JSON parse'']]\<close>

lemma bench_17_runs: "main_ok L ls \<Longrightarrow> runs_named L (bench_17 L ls) (concat bench_names_17)"
  unfolding bench_17_def bench_names_17_def
  by (rule runs_named_sequence, drule main_ok_groups) (simp add: bench_runs unknown_ok_def demo_parses_def packed_parses_def json_of_def packed_ok_def )

definition bench_names :: \<open>string list\<close> where
  \<open>bench_names = concat (bench_names_1 @ bench_names_2 @ bench_names_3 @ bench_names_4 @ bench_names_5 @ bench_names_6 @ bench_names_7 @ bench_names_8 @ bench_names_9 @ bench_names_10 @ bench_names_11 @ bench_names_12 @ bench_names_13 @ bench_names_14 @ bench_names_15 @ bench_names_16 @ bench_names_17)\<close>

end
