(* ===== verification/Cpp_Program.thy ===== *)
theory Cpp_Program
  imports Cpp_Runs
begin

text \<open>
  The whole \<open>main\<close> of the C++ baseline: its setup neither reads the clock nor prints, the
  sizes are printed next, then every benchmark prints its line. A concrete library shows
  that the hypotheses of the theorems can hold together.
\<close>

section \<open>The setup does not touch the world\<close>

text \<open>
  \<open>checks m\<close>: \<open>m\<close> returns or aborts without reading the clock or printing, and the same way
  in every world.
\<close>

definition checks :: "'a prog \<Rightarrow> bool" where
  "checks m \<longleftrightarrow> (\<exists>r. \<forall>w. m w = Some (r, w))"

named_theorems setup_parts \<comment> \<open>the parts the setup is made of\<close>

lemma checks_return [setup_parts]: "checks (return x)"
  unfolding checks_def by auto

lemma checks_abortIf [setup_parts]: "checks (abortIf b)"
  by (auto simp: checks_def abortIf_def)

lemma checks_orAbort [setup_parts]: "(\<And>x. checks (f x)) \<Longrightarrow> checks (orAbort r f)"
  by (cases r) (simp_all add: checks_def orAbort_def)

lemma checks_tryIn [setup_parts]: "checks m \<Longrightarrow> (\<And>x. checks (f x)) \<Longrightarrow> checks (tryIn m f)"
  unfolding checks_def tryIn_def by (smt (verit, ccfv_threshold) option.simps(5) prod.simps(2) sum.exhaust sum.simps(5,6))

lemma checks_JsonStringFor [setup_parts]: "checks (JsonStringFor L m)"
  unfolding JsonStringFor_def by (intro setup_parts)

lemma checks_Let [setup_parts]: "(\<And>x. checks (f x)) \<Longrightarrow> checks (Let v f)"
  by (simp add: Let_def)

lemma checks_demo [setup_parts]:
  "checks (setup_core L)" "checks (setup_options L c)" "checks (setup_json L c)" "checks (setup_encodings L c opts)"
  unfolding setup_core_def setup_options_def setup_json_def setup_presence_def setup_null_fields_def setup_ignore_unknown_def
    check_numbers_def setup_encodings_def setup_textbytes_def setup_complex_def
  by (intro setup_parts)+

lemma checks_wkt [setup_parts]:
  "checks (setup_durations L)" "checks (setup_masks L)" "checks (setup_timestamps L)" "checks (setup_structs L)"
  "checks (setup_values L st)" "checks (setup_lists L st)" "checks (setup_doubles L)" "checks (setup_int64s L)"
  "checks (setup_int32s L)" "checks (setup_strings L)" "checks (setup_packed L)"
  unfolding setup_durations_def setup_masks_def setup_timestamps_def setup_structs_def setup_values_def setup_lists_def
    setup_doubles_def setup_int64s_def setup_int32s_def setup_strings_def setup_packed_def
  by (intro setup_parts)+

lemma checks_main_setup: "checks (main_setup L)"
  unfolding main_setup_def by (intro setup_parts)

section \<open>Printing the sizes\<close>

definition prints :: "unit prog \<Rightarrow> bool" where
  "prints m \<longleftrightarrow> (\<exists>out. \<forall>w. m w = Some (Inr (), w\<lparr>cout := cout w @ out\<rparr>))"

lemma prints_stream: "prints (stream items)"
  by (auto simp: prints_def stream_def)

lemma prints_size: "prints (print_size label payload)"
  unfolding print_size_def by (rule prints_stream)

lemma prints_Nil: "prints (sequence [])"
  by (auto simp: prints_def intro: exI [of _ "[]"])

lemma prints_Cons: "prints m \<Longrightarrow> prints (sequence ms) \<Longrightarrow> prints (sequence (m # ms))"
  unfolding prints_def by (auto simp: tryIn_def)

lemma prints_sequence: "list_all prints ms \<Longrightarrow> prints (sequence ms)"
  by (induction ms) (simp_all add: prints_Nil prints_Cons del: sequence.simps)

lemma prints_parts:
  "prints (print_sizes_1 ls)" "prints (print_sizes_2 ls)" "prints (print_sizes_3 ls)" "prints (print_sizes_4 ls)"
  unfolding print_sizes_1_def print_sizes_2_def print_sizes_3_def print_sizes_4_def
  by (rule prints_sequence, simp add: prints_size prints_stream)+

lemma prints_print_sizes: "prints (print_sizes ls)"
  unfolding print_sizes_def by (rule prints_sequence) (simp add: prints_parts)

section \<open>The benchmarks\<close>

lemma benches_run: "main_ok L ls \<Longrightarrow> runs_named L (benches L ls) bench_names"
proof -
  assume ok: "main_ok L ls"
  have "runs_named L (benches L ls) (concat [concat bench_names_1, concat bench_names_2, concat bench_names_3,
      concat bench_names_4, concat bench_names_5, concat bench_names_6, concat bench_names_7, concat bench_names_8,
      concat bench_names_9, concat bench_names_10, concat bench_names_11, concat bench_names_12, concat bench_names_13,
      concat bench_names_14, concat bench_names_15, concat bench_names_16, concat bench_names_17])"
    unfolding benches_def
    by (rule runs_named_sequence)
      (simp add: bench_1_runs bench_2_runs bench_3_runs bench_4_runs bench_5_runs bench_6_runs bench_7_runs bench_8_runs
        bench_9_runs bench_10_runs bench_11_runs bench_12_runs bench_13_runs bench_14_runs bench_15_runs bench_16_runs
        bench_17_runs ok)
  then show ?thesis by (simp add: bench_names_def)
qed

lemma bench_names_count: "length bench_names = 474"
  by (simp add: bench_names_def bench_names_1_def bench_names_2_def bench_names_3_def bench_names_4_def bench_names_5_def
      bench_names_6_def bench_names_7_def bench_names_8_def bench_names_9_def bench_names_10_def bench_names_11_def
      bench_names_12_def bench_names_13_def bench_names_14_def bench_names_15_def bench_names_16_def bench_names_17_def
      pair_names_def parse_names_def)

section \<open>A library that the setup accepts\<close>

text \<open>
  A table of the texts that the checks of the setup look at, and of the messages they stand
  for: it answers as a protobuf library does on the messages the setup checks, and with an
  empty object or a cleared message elsewhere. Its encoding of a message is the name of the
  message's type; bytes that do not start with the name of the type asked for are rejected,
  and bytes after the name stand for the unknown fields of the stress payload.
\<close>

definition demo_json :: "json_print_options \<Rightarrow> message \<Rightarrow> string" where
  \<open>demo_json opts m = (case m of
     Person _ \<Rightarrow> (if always_print_primitive_fields opts then ''{"id":0,"name":"","scores":[],"counts":{}}'' else ''{}'')
   | ScalarMix _ \<Rightarrow>
       (if preserve_proto_field_names opts then ''{"big_delta":"-9876543","signed_fixed":-123456,"signed_big_fixed":"-9876543"}''
        else if always_print_enums_as_ints opts then ''{"kind":2}''
        else ''{"bigDelta":"-9876543","kind":"BENCH_KIND_BETA","ids":["1","127","128","16384","1048576","9876543210"]}'')
   | PresenceMix _ \<Rightarrow>
       ''{"count":0,"note":"","raw":"cHJlc2VuY2UtcmF3","child":{"id":7,"label":"child"},"nested":{"id":11,"label":"nested"}}''
   | TextBytes _ \<Rightarrow>
       ''{"title":"ASCII title for protobuf","payload":"MDEyMzQ1Njc4OWFiY2RlZjAxMjM0NTY3ODlhYmNkZWY=","tags":["alpha","beta","gamma","delta"],"chunks":["Y2h1bmstb25l","Y2h1bmstdHdv","Y2h1bmstdGhyZWU=","Y2h1bmstZm91cg=="]}''
   | Complex _ \<Rightarrow> ''{"audit_subject":{"actor":"subject","at_unix":"777"}}''
   | LargeMap _ \<Rightarrow> ''{"counts":{"key-0000":1,"key-1023":1024}}''
   | _ \<Rightarrow> ''{}'')\<close>

definition demo_numbers :: scalar_mix where
  "demo_numbers = default_scalar_mix\<lparr>count := 12345, total := 9876543210, delta := - 321, big_delta := - 9876543,
     checksum := 321, token := 4096, signed_fixed := - 123456, signed_big_fixed := - 9876543, ids := [1, 127, 128]\<rparr>"

definition demo_scalar_mix :: "string \<Rightarrow> scalar_mix" where
  \<open>demo_scalar_mix j =
     (if j = ''{"kind":123}'' then default_scalar_mix\<lparr>kind := 123\<rparr>
      else if j = ''{"kind":"BENCH_KIND_BETA"}'' then default_scalar_mix\<lparr>kind := BENCH_KIND_BETA\<rparr>
      else if j = ''{"big_delta":-321,"signed_fixed":-123,"signed_big_fixed":-456}''
        then default_scalar_mix\<lparr>big_delta := - 321, signed_fixed := - 123, signed_big_fixed := - 456\<rparr>
      else if take 10 j = ''{"count":1'' \<or> take 10 j = ''{"count":"'' then demo_numbers
      else MakeScalarMix)\<close>

definition demo_of_json :: "json_parse_options \<Rightarrow> string \<Rightarrow> message \<Rightarrow> message" where
  "demo_of_json opts j d = (case d of
     Person _ \<Rightarrow> Person (if ignore_unknown_fields opts
       then default_person\<lparr>person_id := 7, person_name := ''zig'', scores := [3], counts := [(''red'', 4)]\<rparr>
       else default_person)
   | ScalarMix _ \<Rightarrow> ScalarMix (demo_scalar_mix j)
   | PresenceMix _ \<Rightarrow> PresenceMix MakePresenceMix
   | TextBytes _ \<Rightarrow> TextBytes MakeTextBytes
   | Complex _ \<Rightarrow> Complex MakeComplex
   | LargeMap _ \<Rightarrow> LargeMap MakeLargeMap
   | _ \<Rightarrow> cleared d)"

definition demo_parsed :: "string \<Rightarrow> message \<Rightarrow> message" where
  "demo_parsed s d = (case d of
     Person _ \<Rightarrow> Person (if s = full_name d then MakePerson else MakePerson\<lparr>unknown_fields :=
       map (\<lambda>i. \<lparr>uf_number = 1000 + int (i mod 16), uf_varint = of_nat i + 1\<rparr>) [0..<1024]\<rparr>)
   | ScalarMix _ \<Rightarrow> ScalarMix MakeScalarMix
   | TextBytes _ \<Rightarrow> TextBytes MakeTextBytes
   | PresenceMix _ \<Rightarrow> PresenceMix MakePresenceMix
   | Complex _ \<Rightarrow> Complex MakeComplex
   | LargeMap _ \<Rightarrow> LargeMap MakeLargeMap
   | _ \<Rightarrow> cleared d)"

definition demo_library :: protobuf where
  "demo_library = \<lparr>SerializeToString = full_name, SerializeDeterministic = full_name,
     ParseFromString = (\<lambda>s d. if take (length (full_name d)) s = full_name d then Some (demo_parsed s d) else None),
     MessageToJsonString = (\<lambda>opts m. Some (demo_json opts m)),
     JsonStringToMessage = (\<lambda>opts j d. Some (demo_of_json opts j d)),
     PrintToString = (\<lambda>m. Some (full_name m)),
     TextParseFromString = (\<lambda>s d. if s = full_name d then Some (demo_parsed s d) else None), clock_now = int\<rparr>"

lemma demo_library_simps [simp]:
  "SerializeToString demo_library m = full_name m" "SerializeDeterministic demo_library m = full_name m"
  "MessageToJsonString demo_library opts m = Some (demo_json opts m)"
  "JsonStringToMessage demo_library popts j d = Some (demo_of_json popts j d)"
  "PrintToString demo_library m = Some (full_name m)"
  by (simp_all add: demo_library_def)

lemma cleared_demo [simp]: "cleared (demo_parsed s d) = cleared d" "cleared (demo_of_json opts j d) = cleared d"
  by (cases d; simp add: demo_parsed_def demo_of_json_def)+

lemma inj_byte_of: "inj byte_of"
proof (rule inj_on_inverseI)
  show "char_of (unat (byte_of c)) = c" for c by (simp add: byte_of_def unat_of_nat)
qed

lemma concat_not_Nil: "(\<exists>x \<in> set xs. f x \<noteq> []) \<Longrightarrow> concat (map f xs) \<noteq> []"
  by auto

lemma demo_unknown:
  "ParseFromString demo_library (MakeUnknownFieldPayload (full_name (Person MakePerson))) (Person default_person) =
     Some (demo_parsed (MakeUnknownFieldPayload (full_name (Person MakePerson))) (Person default_person))"
  "MakeUnknownFieldPayload (full_name (Person MakePerson)) \<noteq> full_name (Person default_person)"
proof -
  let ?base = "full_name (Person MakePerson)"
  have bytes: "map byte_of (MakeUnknownFieldPayload ?base) = map byte_of ?base @ concat (map unknown_field_bytes [0..<1024])"
    by (rule MakeUnknownFieldPayload_bytes)
  then have "map byte_of (take (length ?base) (MakeUnknownFieldPayload ?base)) = map byte_of ?base"
    by (simp del: full_name.simps add: take_map [symmetric])
  then have "take (length ?base) (MakeUnknownFieldPayload ?base) = ?base"
    using inj_byte_of by (metis inj_map_eq_map)
  then show "ParseFromString demo_library (MakeUnknownFieldPayload ?base) (Person default_person) =
      Some (demo_parsed (MakeUnknownFieldPayload ?base) (Person default_person))"
    by (simp add: demo_library_def)
  have "concat (map unknown_field_bytes [0..<1024]) \<noteq> []"
    by (rule concat_not_Nil, rule bexI [of _ 0]) (simp_all add: unknown_field_bytes_def varint_enc.simps)
  then show "MakeUnknownFieldPayload ?base \<noteq> full_name (Person default_person)"
    using bytes by auto
qed

lemma demo_library_ok: "library_ok demo_library ls" "keeps_unknown_numbers demo_library"
proof -
  have "reads_binary demo_library m" "same_length demo_library m" "reads_json demo_library opts m" "reads_text demo_library m" for opts m
    by (simp_all add: reads_binary_def same_length_def reads_json_def reads_text_def parses_def json_parses_def text_parses_def
        demo_library_def)
  then show "library_ok demo_library ls" by (simp add: library_ok_def list_all_iff)
  show "keeps_unknown_numbers demo_library"
    using demo_unknown by (simp add: keeps_unknown_numbers_def demo_parsed_def the_person_def comp_def)
qed

lemma demo_literals: "literals_accepted demo_library ls"
  by (simp add: literals_accepted_def json_accepted_def duration_accepted_def mask_accepted_def timestamp_accepted_def
      struct_accepted_def value_accepted_def list_accepted_def double_accepted_def int64_accepted_def int32_accepted_def
      string_accepted_def accepted_def)

lemma not_differs: "\<not> some_element_differs xs xs"
  by (simp add: some_element_differs_def list_ex_iff)


text \<open>\<open>yields m\<close>: \<open>m\<close> returns, and does not touch the world.\<close>

definition yields :: "'a prog \<Rightarrow> bool" where
  "yields m \<longleftrightarrow> (\<exists>x. \<forall>w. m w = Some (Inr x, w))"

named_theorems demo_steps \<comment> \<open>how the table runs through a setup\<close>

lemma yields_return [demo_steps]: "yields (return x)"
  unfolding yields_def by auto

lemma yields_tryIn [demo_steps]: "yields m \<Longrightarrow> (\<And>x. yields (f x)) \<Longrightarrow> yields (tryIn m f)"
  unfolding yields_def tryIn_def by fastforce

lemma yields_Let [demo_steps]: "(\<And>x. yields (f x)) \<Longrightarrow> yields (Let v f)"
  by (simp add: Let_def)

lemma yields_orAbort [demo_steps]: "(\<And>x. yields (f x)) \<Longrightarrow> yields (orAbort (MessageToJsonString demo_library opts m) f)"
  by (simp add: orAbort_def)

lemma yields_JsonStringFor [demo_steps]: "yields (JsonStringFor demo_library m)"
  unfolding JsonStringFor_def by (intro demo_steps)

lemma yields_wkt:
  "yields (setup_durations demo_library)" "yields (setup_masks demo_library)" "yields (setup_timestamps demo_library)"
  "yields (setup_structs demo_library)" "yields (setup_values demo_library st)" "yields (setup_lists demo_library st)"
  "yields (setup_doubles demo_library)" "yields (setup_int64s demo_library)" "yields (setup_int32s demo_library)"
  "yields (setup_strings demo_library)"
  unfolding setup_durations_def setup_masks_def setup_timestamps_def setup_structs_def setup_values_def setup_lists_def
    setup_doubles_def setup_int64s_def setup_int32s_def setup_strings_def
  by (intro demo_steps)+

text \<open>The checks of the demo messages, on the texts of the table.\<close>

lemma yields_check: "\<not> b \<Longrightarrow> yields f \<Longrightarrow> yields (tryIn (abortIf b) (\<lambda>_. f))"
  by (simp add: yields_def tryIn_def abortIf_def)

lemma yields_Some: "yields (f x) \<Longrightarrow> yields (orAbort (Some x) f)"
  by (simp add: orAbort_def)

lemma large_map_lookup:
  assumes "0 \<le> i" "i < 1024"
  shows "map_of MakeLargeMap (map_key i) = Some (of_int (i + 1))"
proof -
  have "(map_key i, of_int (i + 1)) \<in> set MakeLargeMap"
    using assms by (auto simp: MakeLargeMap_entries set_ints large_map_entry_def)
  then show ?thesis using distinct_keys_MakeLargeMap(1) by simp
qed

lemma map_key_ends: "map_key 0 = ''key-0000''" "map_key 1023 = ''key-1023''"
  by code_simp+

lemma yields_packed: "yields (setup_packed demo_library)"
proof -
  have json: \<open>contains ''{"counts":{"key-0000":1,"key-1023":1024}}'' ''"key-0000":1''\<close>
      \<open>contains ''{"counts":{"key-0000":1,"key-1023":1024}}'' ''"key-1023":1024''\<close>
    by code_simp+
  show ?thesis
    unfolding setup_packed_def Let_def demo_library_simps
    by (intro yields_Some yields_check yields_return) 
      (simp_all add: demo_json_def demo_of_json_def the_large_map_def differs_def json
        large_map_lookup [of 0, unfolded map_key_ends] large_map_lookup [of 1023, unfolded map_key_ends])
qed

lemma contains_step: "contains [] pat \<longleftrightarrow> pat = []"
  "contains (x # s) pat \<longleftrightarrow> take (length pat) (x # s) = pat \<or> contains s pat"
proof -
  have ex: "contains s pat \<longleftrightarrow> (\<exists>i<Suc (length s). take (length pat) (drop i s) = pat)" for s
    by (auto simp: contains_def list_ex_iff simp del: upt_Suc)
  show "contains [] pat \<longleftrightarrow> pat = []" by (auto simp: ex)
  show "contains (x # s) pat \<longleftrightarrow> take (length pat) (x # s) = pat \<or> contains s pat"
    unfolding ex Ex_less_Suc2 length_Cons by simp
qed

lemma demo_texts:
  \<open>contains ''{"bigDelta":"-9876543","kind":"BENCH_KIND_BETA","ids":["1","127","128","16384","1048576","9876543210"]}'' ''"bigDelta":"-9876543"''\<close>
  \<open>contains ''{"bigDelta":"-9876543","kind":"BENCH_KIND_BETA","ids":["1","127","128","16384","1048576","9876543210"]}'' ''"kind":"BENCH_KIND_BETA"''\<close>
  \<open>contains ''{"bigDelta":"-9876543","kind":"BENCH_KIND_BETA","ids":["1","127","128","16384","1048576","9876543210"]}'' ''"ids":["1","127","128"''\<close>
  \<open>contains ''{"id":0,"name":"","scores":[],"counts":{}}'' ''"id":0''\<close>
  \<open>contains ''{"id":0,"name":"","scores":[],"counts":{}}'' ''"name":""''\<close>
  \<open>contains ''{"id":0,"name":"","scores":[],"counts":{}}'' ''"scores":[]''\<close>
  \<open>contains ''{"id":0,"name":"","scores":[],"counts":{}}'' ''"counts":{}''\<close>
  \<open>contains ''{"big_delta":"-9876543","signed_fixed":-123456,"signed_big_fixed":"-9876543"}'' ''"big_delta"''\<close>
  \<open>contains ''{"big_delta":"-9876543","signed_fixed":-123456,"signed_big_fixed":"-9876543"}'' ''"signed_fixed"''\<close>
  \<open>contains ''{"big_delta":"-9876543","signed_fixed":-123456,"signed_big_fixed":"-9876543"}'' ''"signed_big_fixed"''\<close>
  \<open>\<not> contains ''{"big_delta":"-9876543","signed_fixed":-123456,"signed_big_fixed":"-9876543"}'' ''"bigDelta"''\<close>
  \<open>contains ''{"kind":2}'' ''"kind":2''\<close>
  \<open>\<not> contains ''{"kind":2}'' ''BENCH_KIND_BETA''\<close>
  \<open>contains ''{"count":0,"note":"","raw":"cHJlc2VuY2UtcmF3","child":{"id":7,"label":"child"},"nested":{"id":11,"label":"nested"}}'' ''"count":0''\<close>
  \<open>contains ''{"count":0,"note":"","raw":"cHJlc2VuY2UtcmF3","child":{"id":7,"label":"child"},"nested":{"id":11,"label":"nested"}}'' ''"note":""''\<close>
  \<open>contains ''{"count":0,"note":"","raw":"cHJlc2VuY2UtcmF3","child":{"id":7,"label":"child"},"nested":{"id":11,"label":"nested"}}'' ''"raw":"cHJlc2VuY2UtcmF3"''\<close>
  \<open>contains ''{"count":0,"note":"","raw":"cHJlc2VuY2UtcmF3","child":{"id":7,"label":"child"},"nested":{"id":11,"label":"nested"}}'' ''"child"''\<close>
  \<open>contains ''{"count":0,"note":"","raw":"cHJlc2VuY2UtcmF3","child":{"id":7,"label":"child"},"nested":{"id":11,"label":"nested"}}'' ''"nested"''\<close>
  \<open>\<not> contains ''{"count":0,"note":"","raw":"cHJlc2VuY2UtcmF3","child":{"id":7,"label":"child"},"nested":{"id":11,"label":"nested"}}'' ''"name"''\<close>
  \<open>contains ''{"title":"ASCII title for protobuf","payload":"MDEyMzQ1Njc4OWFiY2RlZjAxMjM0NTY3ODlhYmNkZWY=","tags":["alpha","beta","gamma","delta"],"chunks":["Y2h1bmstb25l","Y2h1bmstdHdv","Y2h1bmstdGhyZWU=","Y2h1bmstZm91cg=="]}'' ''"title":"ASCII title for protobuf"''\<close>
  \<open>contains ''{"title":"ASCII title for protobuf","payload":"MDEyMzQ1Njc4OWFiY2RlZjAxMjM0NTY3ODlhYmNkZWY=","tags":["alpha","beta","gamma","delta"],"chunks":["Y2h1bmstb25l","Y2h1bmstdHdv","Y2h1bmstdGhyZWU=","Y2h1bmstZm91cg=="]}'' ''"payload":"MDEyMzQ1Njc4OWFiY2RlZjAxMjM0NTY3ODlhYmNkZWY="''\<close>
  \<open>contains ''{"title":"ASCII title for protobuf","payload":"MDEyMzQ1Njc4OWFiY2RlZjAxMjM0NTY3ODlhYmNkZWY=","tags":["alpha","beta","gamma","delta"],"chunks":["Y2h1bmstb25l","Y2h1bmstdHdv","Y2h1bmstdGhyZWU=","Y2h1bmstZm91cg=="]}'' ''"tags":["alpha","beta","gamma","delta"]''\<close>
  \<open>contains ''{"title":"ASCII title for protobuf","payload":"MDEyMzQ1Njc4OWFiY2RlZjAxMjM0NTY3ODlhYmNkZWY=","tags":["alpha","beta","gamma","delta"],"chunks":["Y2h1bmstb25l","Y2h1bmstdHdv","Y2h1bmstdGhyZWU=","Y2h1bmstZm91cg=="]}'' ''"chunks":["Y2h1bmstb25l","Y2h1bmstdHdv","Y2h1bmstdGhyZWU=","Y2h1bmstZm91cg=="]''\<close>
  \<open>contains ''{"audit_subject":{"actor":"subject","at_unix":"777"}}'' ''"audit_subject"''\<close>
  \<open>contains ''{"audit_subject":{"actor":"subject","at_unix":"777"}}'' ''"at_unix"''\<close>
  \<open>\<not> contains ''{"audit_subject":{"actor":"subject","at_unix":"777"}}'' ''"auditSubject"''\<close>
  \<open>\<not> contains ''{"audit_subject":{"actor":"subject","at_unix":"777"}}'' ''"atUnix"''\<close>
  by (simp_all add: contains_step)

lemmas demo_check_simps = demo_json_def demo_of_json_def demo_scalar_mix_def demo_numbers_def default_print_options_def
  default_parse_options_def the_scalar_mix_def the_person_def the_presence_mix_def the_text_bytes_def the_complex_def

lemma yields_core: "yields (setup_core demo_library)"
  unfolding setup_core_def Let_def demo_library_simps demo_unknown(1)
  by (intro yields_Some yields_check yields_return)
    (use demo_unknown(2) in \<open>simp_all add: demo_check_simps demo_texts demo_parsed_def kUnknownFieldStressCount_def MakeScalarMix_def default_scalar_mix_def\<close>)

lemma yields_options: "yields (setup_options demo_library c)"
  unfolding setup_options_def Let_def demo_library_simps
  by (intro yields_Some yields_check yields_return) (simp_all add: demo_check_simps demo_texts)


lemma yields_presence: "yields (setup_presence demo_library c)"
  unfolding setup_presence_def Let_def demo_library_simps
  by (intro yields_Some yields_check yields_return)
    (simp_all add: demo_check_simps demo_texts MakePresenceMix_def MakePresenceChild_def default_presence_mix_def value_or_def
      has_nested_def nested_of_def Let_def)

lemma yields_abortIf: "\<not> b \<Longrightarrow> yields (abortIf b)"
  by (simp add: abortIf_def yields_def)

lemma yields_null_fields: "yields (setup_null_fields demo_library j)"
  unfolding setup_null_fields_def Let_def demo_library_simps
  by (intro yields_Some yields_abortIf) (simp add: demo_check_simps default_person_def)

lemma yields_ignore_unknown: "yields (setup_ignore_unknown demo_library j (default_parse_options\<lparr>ignore_unknown_fields := True\<rparr>))"
  unfolding setup_ignore_unknown_def Let_def demo_library_simps
  by (intro yields_Some yields_abortIf) (simp add: demo_check_simps default_person_def differs_def)

lemma yields_numbers: "demo_scalar_mix j = demo_numbers \<Longrightarrow> yields (check_numbers demo_library j)"
  unfolding check_numbers_def Let_def demo_library_simps
  by (intro yields_Some yields_abortIf) (simp add: demo_of_json_def the_scalar_mix_def demo_numbers_def default_scalar_mix_def)

lemma yields_json: "yields (setup_json demo_library c)"
  unfolding setup_json_def Let_def demo_library_simps
  by (intro yields_tryIn yields_Some yields_check yields_return yields_presence yields_null_fields yields_ignore_unknown yields_numbers)
    (simp_all add: demo_check_simps default_scalar_mix_def)

lemma yields_textbytes: "textbytes c = MakeTextBytes \<Longrightarrow> yields (setup_textbytes demo_library c)"
  unfolding setup_textbytes_def Let_def demo_library_simps
  by (intro yields_Some yields_check yields_return) (simp_all add: demo_check_simps demo_texts not_differs)

lemma yields_complex: "yields (setup_complex demo_library c opts)"
  unfolding setup_complex_def Let_def demo_library_simps
  by (intro yields_Some yields_check yields_return)
    (simp_all add: demo_check_simps demo_texts MakeComplex_def MakeAudit_def default_complex_def value_or_def
      has_audit_subject_def audit_subject_of_def differs_def Let_def)

lemma yields_encodings: "textbytes c = MakeTextBytes \<Longrightarrow> yields (setup_encodings demo_library c opts)"
  unfolding setup_encodings_def Let_def demo_library_simps
  by (intro yields_tryIn yields_Some yields_return yields_textbytes yields_complex)

lemma setup_core_textbytes: "setup_core L w = Some (Inr c, w') \<Longrightarrow> textbytes c = MakeTextBytes"
  by (clarsimp simp: setup_core_def Let_def step_iffs)

lemma yields_tryIn_result:
  "yields m \<Longrightarrow> (\<And>x w w'. m w = Some (Inr x, w') \<Longrightarrow> yields (f x)) \<Longrightarrow> yields (tryIn m f)"
  unfolding yields_def tryIn_def by fastforce

lemma yields_main_setup: "yields (main_setup demo_library)"
  unfolding main_setup_def
  by (rule yields_tryIn_result [OF yields_core])
    (intro yields_tryIn yields_return yields_options yields_json yields_encodings yields_wkt yields_packed setup_core_textbytes)

section \<open>Properties\<close>

text \<open>
  C4: when the setup succeeds it has neither printed nor read the clock, and the locals it
  hands to the benchmarks belong together: every JSON or text input that the setup has the
  library print is what the library prints for its message, every byte string is the encoding
  of its message (the stress payload: that encoding with the unknown fields appended). The other JSON inputs are literals of the code (\<open>literal_inputs\<close>): the library
  has accepted six of them, with the options the benchmarks use, and they are the same
  for every library in every world.
\<close>

theorem main_setup_locals:
  "main_setup L w = Some (Inr ls, w') \<Longrightarrow> w' = w \<and> locals_ok L ls \<and>
     (\<forall>L2 w2 ls2 w2'. main_setup L2 w2 = Some (Inr ls2, w2') \<longrightarrow> literal_inputs ls2 = literal_inputs ls)"
  using main_setup_ok literal_inputs_same by blast

theorem main_setup_locals_witness:
  "\<forall>w. \<exists>ls. main_setup demo_library w = Some (Inr ls, w) \<and> locals_ok demo_library ls \<and>
     (\<forall>L2 w2 ls2 w2'. main_setup L2 w2 = Some (Inr ls2, w2') \<longrightarrow> literal_inputs ls2 = literal_inputs ls)"
proof
  fix w
  obtain ls where "main_setup demo_library w = Some (Inr ls, w)"
    using yields_main_setup by (auto simp: yields_def)
  with main_setup_locals [OF this] show "\<exists>ls. main_setup demo_library w = Some (Inr ls, w) \<and> locals_ok demo_library ls \<and>
      (\<forall>L2 w2 ls2 w2'. main_setup L2 w2 = Some (Inr ls2, w2') \<longrightarrow> literal_inputs ls2 = literal_inputs ls)" by blast
qed

text \<open>
  C5: when a check of the setup fails, \<open>main\<close> aborts with the world as it found it: nothing
  has been printed and no benchmark has read the clock.
\<close>

theorem main_aborts_silently:
  assumes "main_setup L w = Some (Inl e, w')"
  shows "main L w = Some (Inl e, w)"
  using assms checks_main_setup [of L] by (auto simp: checks_def main_def tryIn_def)

theorem main_aborts_silently_witness:
  "\<forall>w. main (demo_library\<lparr>ParseFromString := \<lambda>_ _. None\<rparr>) w = Some (Inl Abort, w)"
  by (intro allI, rule main_aborts_silently)
    (simp add: main_setup_def setup_core_def Let_def tryIn_def orAbort_def throw_def)

text \<open>
  C2: with a library that reads back what it writes of the messages \<open>main\<close> builds (in the
  formats in which \<open>main\<close> reads them back), keeps the unknown fields of the stress payload and
  accepts the literal JSON inputs, \<open>main\<close> does not abort once its setup has passed: it prints the sizes and then one result line for each of the 474 benchmarks, in
  their order, each timed with six readings of the clock.
\<close>

theorem main_completes:
  assumes "library_ok L ls" "keeps_unknown_numbers L" "main_setup L w = Some (Inr ls, w')" "literals_accepted L ls"
  shows "\<exists>sizes lines.
    print_sizes ls w = Some (Inr (), w\<lparr>cout := cout w @ sizes\<rparr>) \<and>
    main L w = Some (Inr (), w\<lparr>clock_calls := clock_calls w + 6 * 474,
      cout := cout w @ sizes @ concat (map result_items (results L (clock_calls w) lines))\<rparr>) \<and>
    map fst lines = bench_names"
proof -
  have w': "w' = w" and "locals_ok L ls" using main_setup_ok [OF assms(3)] by auto
  then have "runs_named L (benches L ls) bench_names"
    using assms by (intro benches_run) (simp add: main_ok_def)
  then obtain lines where benches: "runs L (benches L ls) lines" and names: "map fst lines = bench_names"
    by (auto simp: runs_named_def)
  from names have "length lines = 474" using bench_names_count by (metis length_map)
  moreover obtain sizes where "\<And>w. print_sizes ls w = Some (Inr (), w\<lparr>cout := cout w @ sizes\<rparr>)"
    using prints_print_sizes [of ls] by (auto simp: prints_def)
  ultimately show ?thesis
    using assms(3) w' benches names
    by (intro exI [of _ sizes] exI [of _ lines]) (simp add: main_def tryIn_def runs_def)
qed

theorem main_completes_witness:
  "\<exists>w'. main demo_library \<lparr>clock_calls = 0, cout = []\<rparr> = Some (Inr (), w') \<and> clock_calls w' = 2844"
proof -
  obtain ls where "main_setup demo_library \<lparr>clock_calls = 0, cout = []\<rparr> = Some (Inr ls, \<lparr>clock_calls = 0, cout = []\<rparr>)"
    using yields_main_setup by (auto simp: yields_def)
  from main_completes [OF demo_library_ok this demo_literals] show ?thesis by auto
qed

end
