(* ===== verification/Wkt_Calendar.thy ===== *)
theory Wkt_Calendar
  imports Pbz_Base
begin

text \<open>
  The civil calendar of \<open>src/wkt.zig\<close>: \<open>civilFromDays\<close> and \<open>daysFromCivil\<close>, which convert
  between a day number (0 is 1970-01-01) and a date of the proleptic Gregorian calendar, the
  calendar itself as a rule that gives the next day of a date, and the proof that the two
  functions count the days of that calendar. A cast or a sum that leaves its integer type is
  a panic, \<open>None\<close>.
\<close>

section \<open>The conversions\<close>

record Date =
  date_year :: int
  date_month :: int
  date_day :: int

definition civilFromDays :: "int \<Rightarrow> Date option" where
  "civilFromDays z_in =
     (let z = z_in + 719468;
          era = z div 146097;
          doe = nat (z - era * 146097);
          yoe = (doe - doe div 1460 + doe div 36524 - doe div 146096) div 365;
          y = int yoe + era * 400;
          doy = doe - (365 * yoe + yoe div 4 - yoe div 100);
          mp = (5 * doy + 2) div 153;
          d = doy - (153 * mp + 2) div 5 + 1;
          m = (if mp < 10 then mp + 3 else mp - 9);
          year = (if m \<le> 2 then y + 1 else y)
      in if fits 64 z \<and> fits 32 (era * 400) \<and> fits 32 y \<and> fits 32 year
         then Some \<lparr>date_year = year, date_month = int m, date_day = int d\<rparr> else None)"

text \<open>The day of the year is cast to an unsigned type: day 0 of March, the first month here, panics.\<close>

definition daysFromCivil :: "int \<Rightarrow> int \<Rightarrow> int \<Rightarrow> int option" where
  "daysFromCivil year month day =
     (let y = (if month \<le> 2 then year - 1 else year);
          era = y div 400;
          yoe = nat (y - era * 400);
          adjust = (if month > 2 then -3 else 9);
          mp = month + adjust;
          doy = (153 * mp + 2) div 5 + day - 1;
          doe = yoe * 365 + yoe div 4 - yoe div 100 + nat doy
      in if fits 32 y \<and> fits 32 (era * 400) \<and> 0 \<le> doy \<and> fits 32 (era * 146097)
         then Some (era * 146097 + int doe - 719468) else None)"

section \<open>The calendar\<close>

definition leap_year :: "int \<Rightarrow> bool" where
  "leap_year y \<longleftrightarrow> y mod 4 = 0 \<and> (y mod 100 \<noteq> 0 \<or> y mod 400 = 0)"

definition days_in_month :: "int \<Rightarrow> int \<Rightarrow> int" where
  "days_in_month y m = (if m = 2 then (if leap_year y then 29 else 28) else if m \<in> {4, 6, 9, 11} then 30 else 31)"

definition valid_date :: "Date \<Rightarrow> bool" where
  "valid_date d \<longleftrightarrow> 1 \<le> date_month d \<and> date_month d \<le> 12 \<and>
     1 \<le> date_day d \<and> date_day d \<le> days_in_month (date_year d) (date_month d)"

definition next_date :: "Date \<Rightarrow> Date" where
  "next_date d =
     (if date_day d < days_in_month (date_year d) (date_month d) then d\<lparr>date_day := date_day d + 1\<rparr>
      else if date_month d < 12 then d\<lparr>date_month := date_month d + 1, date_day := 1\<rparr>
      else \<lparr>date_year = date_year d + 1, date_month = 1, date_day = 1\<rparr>)"

section \<open>Years that begin in March\<close>

text \<open>
  Both functions count in years that begin on 1 March, so that the leap day is the last day
  of its year: \<open>march_start y\<close> is the first day of the year \<open>y\<close>, and \<open>year_days y\<close> its length.
\<close>

definition march_start :: "int \<Rightarrow> int" where
  "march_start y = 365 * y + y div 4 - y div 100 + y div 400"

definition year_days :: "int \<Rightarrow> int" where
  "year_days y = (if leap_year (y + 1) then 366 else 365)"

definition month_start :: "int \<Rightarrow> int" where
  "month_start mp = (153 * mp + 2) div 5"

lemma last_remainder: "0 \<le> r \<Longrightarrow> r < k \<Longrightarrow> (r + 1) mod k = 0 \<longleftrightarrow> r = k - 1" for r k :: int
proof (cases "r = k - 1")
  case False
  assume "0 \<le> r" "r < k"
  then show ?thesis using False by (subst mod_pos_pos_trivial) auto
qed simp

lemma div_plus_one:
  fixes n k :: int
  assumes "0 < k"
  shows "(n + 1) div k = n div k + (if (n + 1) mod k = 0 then 1 else 0)"
proof -
  define q r where "q = n div k" and "r = n mod k"
  have n: "n + 1 = (r + 1) + q * k" unfolding q_def r_def by simp
  have r: "0 \<le> r" "r < k" using assms by (simp_all add: r_def)
  have "(n + 1) div k = q + (r + 1) div k" "(n + 1) mod k = (r + 1) mod k"
    using assms unfolding n by simp_all
  moreover have "(r + 1) div k = (if (r + 1) mod k = 0 then 1 else 0)"
    unfolding last_remainder [OF r] using r by (auto simp: div_pos_pos_trivial)
  ultimately show ?thesis by (simp add: q_def)
qed

lemma march_start_next: "march_start (y + 1) = march_start y + year_days y"
proof -
  define a b c where "a \<longleftrightarrow> (y + 1) mod 4 = 0" and "b \<longleftrightarrow> (y + 1) mod 100 = 0" and "c \<longleftrightarrow> (y + 1) mod 400 = 0"
  define d4 d100 d400 where "d4 = y div 4" and "d100 = y div 100" and "d400 = y div 400"
  have "b \<Longrightarrow> a" "c \<Longrightarrow> b"
    unfolding a_def b_def c_def by (simp_all only: mod_eq_0_iff_dvd) (rule dvd_trans [rotated], assumption, simp)+
  moreover have "march_start (y + 1) = 365 * (y + 1) + (d4 + (if a then 1 else 0)) - (d100 + (if b then 1 else 0)) + (d400 + (if c then 1 else 0))"
    unfolding march_start_def a_def b_def c_def d4_def d100_def d400_def by (simp only: div_plus_one zero_less_numeral)
  moreover have "march_start y = 365 * y + d4 - d100 + d400"
    by (simp only: march_start_def d4_def d100_def d400_def)
  moreover have "year_days y = (if a \<and> (\<not> b \<or> c) then 366 else 365)"
    by (simp only: year_days_def leap_year_def a_def b_def c_def)
  ultimately show ?thesis by (cases a; cases b; cases c) simp_all
qed

text \<open>The place of a year in its 400 years: in the \<open>c\<close>-th century, the \<open>q\<close>-th four years, the \<open>r\<close>-th year.\<close>

lemma year_digits:
  assumes "0 \<le> y" "y < 400"
  obtains c q r where "0 \<le> c" "c < 4" "0 \<le> q" "q < 25" "0 \<le> r" "r < 4" "y = 100 * c + 4 * q + r"
    "march_start y = 36524 * c + 1461 * q + 365 * r" "year_days y = (if r = 3 \<and> (q \<noteq> 24 \<or> c = 3) then 366 else 365)"
proof -
  define c u q r where "c = y div 100" and "u = y mod 100" and "q = u div 4" and "r = u mod 4"
  have "y = 100 * c + u" "u = 4 * q + r" "u < 100" "0 \<le> u" and r: "0 \<le> r" "r < 4" unfolding c_def u_def q_def r_def by simp_all
  then have y: "y = 100 * c + 4 * q + r" and q: "0 \<le> q" "q < 25" and c: "0 \<le> c" "c < 4" using assms by linarith+
  have yq: "y = r + (25 * c + q) * 4" using y by simp
  have d4: "y div 4 = 25 * c + q" using r unfolding yq by simp
  have n4: "(y + 1) mod 4 = 0 \<longleftrightarrow> r = 3"
  proof -
    have "(y + 1) mod 4 = (r + 1 + (25 * c + q) * 4) mod 4" using y by (simp add: algebra_simps)
    also have "\<dots> = (r + 1) mod 4" by (rule mod_mult_self1)
    finally show ?thesis using r last_remainder [of r 4] by simp
  qed
  have n100: "(y + 1) mod 100 = 0 \<longleftrightarrow> q = 24" if "r = 3"
  proof -
    have "(y + 1) mod 100 = (4 * (q + 1) + c * 100) mod 100" using y that by (simp add: algebra_simps)
    also have "\<dots> = (4 * (q + 1)) mod (4 * 25)" by (simp only: mod_mult_self1) simp
    also have "\<dots> = 4 * ((q + 1) mod 25)" by (simp only: mult_mod_right)
    finally show ?thesis using q last_remainder [of q 25] by simp
  qed
  have n400: "(y + 1) mod 400 = 0 \<longleftrightarrow> c = 3" if "r = 3" "q = 24"
  proof -
    have "(y + 1) mod 400 = (100 * (c + 1)) mod (100 * 4)" using y that by (simp add: algebra_simps)
    also have "\<dots> = 100 * ((c + 1) mod 4)" by (simp only: mult_mod_right)
    finally show ?thesis using c last_remainder [of c 4] by simp
  qed
  have "leap_year (y + 1) \<longleftrightarrow> r = 3 \<and> (q \<noteq> 24 \<or> c = 3)"
    unfolding leap_year_def n4 by (cases "r = 3"; cases "q = 24") (simp_all add: n100 n400)
  moreover have "march_start y = 36524 * c + 1461 * q + 365 * r"
  proof -
    have "y div 400 = 0" using assms by (simp add: div_pos_pos_trivial)
    then show ?thesis using y unfolding march_start_def d4 c_def [symmetric] by simp
  qed
  ultimately show thesis using that c q r y by (simp add: year_days_def)
qed

text \<open>The division that finds the year of a day among 400 years.\<close>

lemma yoe_eq:
  assumes y: "0 \<le> y" "y < 400" and doy: "0 \<le> doy" "doy < year_days y" and doe: "doe = march_start y + doy"
  shows "(doe - doe div 1460 + doe div 36524 - doe div 146096) div 365 = y" "0 \<le> doe" "doe < 146097"
proof -
  obtain c q r where cqr: "0 \<le> c" "c < 4" "0 \<le> q" "q < 25" "0 \<le> r" "r < 4" and yd: "y = 100 * c + 4 * q + r"
    and start: "march_start y = 36524 * c + 1461 * q + 365 * r" and days: "year_days y = (if r = 3 \<and> (q \<noteq> 24 \<or> c = 3) then 366 else 365)"
    using year_digits [OF y] by blast
  have e: "doe = 36524 * c + 1461 * q + 365 * r + doy" using doe start by simp
  have d: "doy \<le> 365" "doy = 365 \<Longrightarrow> r = 3 \<and> (q \<noteq> 24 \<or> c = 3)" using doy days by (auto split: if_splits)
  have n: "1461 * q + 365 * r + doy < 36524 \<or> 1461 * q + 365 * r + doy = 36524 \<and> c = 3"
  proof (cases "q = 24 \<and> r = 3 \<and> doy = 365")
    case False
    then have "1461 * q + 365 * r + doy < 36524" using cqr d by (cases "q = 24"; cases "r = 3"; cases "doy = 365") linarith+
    then show ?thesis ..
  qed (use d in auto)
  show bounds: "0 \<le> doe" "doe < 146097" using e n cqr doy by linarith+
  have cents: "doe div 36524 = c + doe div 146096"
  proof (cases "1461 * q + 365 * r + doy = 36524 \<and> c = 3")
    case False
    define u where "u = 1461 * q + 365 * r + doy"
    have u: "0 \<le> u" "u < 36524" "doe = u + c * 36524" using e n False cqr doy by (auto simp: u_def)
    then have "doe div 36524 = c" by simp
    moreover have "doe div 146096 = 0" using u cqr by simp
    ultimately show ?thesis by simp
  next
    case True
    then have "doe = 146096" using e by simp
    then show ?thesis using True by simp
  qed
  define w where "w = 365 * r + q + 24 * c + doy"
  define k where "k = w div 1460"
  have "doe = w + (25 * c + q) * 1460" using e by (simp add: w_def)
  then have dk: "doe div 1460 = 25 * c + q + k" by (simp add: k_def)
  have w: "0 \<le> w" "w < 2920" using cqr d doy by (simp_all add: w_def)
  have k: "k = 0 \<and> doy < 365 \<or> k = 1 \<and> 0 < doy"
  proof (cases "w < 1460")
    case True
    then have "doy \<noteq> 365" using d(2) cqr by (auto simp: w_def)
    then show ?thesis using True w d(1) by (simp add: k_def)
  next
    case False
    then have "k = 1" using w unfolding k_def by simp
    then show ?thesis using False cqr doy by (auto simp: w_def)
  qed
  have "doe - doe div 1460 + doe div 36524 - doe div 146096 = (doy - k) + y * 365"
    using dk cents e yd by simp
  then show "(doe - doe div 1460 + doe div 36524 - doe div 146096) div 365 = y"
    using k doy d(1) by auto
qed

text \<open>Every day belongs to a year.\<close>

lemma year_exists:
  assumes "0 \<le> doe" "doe < 146097"
  obtains y where "0 \<le> y" "y < 400" "march_start y \<le> doe" "doe < march_start y + year_days y"
proof -
  have "\<exists>y \<ge> 0. y < int n \<and> march_start y \<le> doe \<and> doe < march_start y + year_days y" if "doe < march_start (int n)" for n
    using that
  proof (induction n)
    case 0
    then show ?case using assms by (simp add: march_start_def)
  next
    case (Suc n)
    show ?case
    proof (cases "doe < march_start (int n)")
      case True
      then show ?thesis using Suc.IH by force
    next
      case False
      then show ?thesis
        using Suc.prems march_start_next [of "int n"] by (intro exI [of _ "int n"]) (auto simp: add.commute)
    qed
  qed
  from this [of 400] show ?thesis using assms that by (auto simp: march_start_def)
qed

lemma march_start_era: "march_start (era * 400 + y) = era * 146097 + march_start y"
proof -
  have "(era * 400 + y) div 4 = era * 100 + y div 4"
    using div_mult_self3 [of 4 "era * 100" y] by simp
  moreover have "(era * 400 + y) div 100 = era * 4 + y div 100"
    using div_mult_self3 [of 100 "era * 4" y] by simp
  ultimately show ?thesis by (simp add: march_start_def)
qed

lemma year_days_era: "year_days (era * 400 + y) = year_days y"
proof -
  have "(era * 400 + y + 1) mod k = (y + 1) mod k" if "k dvd 400" for k
  proof -
    have "era * 400 + y + 1 = y + 1 + (era * (400 div k)) * k" using that by simp
    then show ?thesis by (simp only: mod_mult_self1)
  qed
  then show ?thesis by (simp add: year_days_def leap_year_def)
qed

section \<open>Months of such a year\<close>

lemma div_less_bound: "n div 5 \<le> m \<longleftrightarrow> n \<le> 5 * m + 4" "m < n div 5 \<longleftrightarrow> 5 * m + 5 \<le> n" for n m :: int
  by linarith+

lemma month_eq:
  assumes "month_start mp \<le> doy" "doy < month_start (mp + 1)"
  shows "(5 * doy + 2) div 153 = mp"
proof -
  define u where "u = 5 * doy + 2 - mp * 153"
  have "0 \<le> u" "u < 153" using assms unfolding month_start_def div_less_bound u_def by simp_all
  moreover have "5 * doy + 2 = u + mp * 153" by (simp add: u_def)
  ultimately show ?thesis by simp
qed


lemma month_cases: "1 \<le> m \<Longrightarrow> m \<le> 12 \<Longrightarrow> m \<in> {1, 2, 3, 4, 5, 6, 7, 8, 9, 10, 11, 12}" for m :: int
  by (cases "m \<le> 6") auto

lemma month_start_next:
  assumes "3 \<le> m" "m \<le> 12"
  shows "month_start (m - 3 + 1) = month_start (m - 3) + days_in_month y m"
proof -
  have "m \<in> {1, 2, 3, 4, 5, 6, 7, 8, 9, 10, 11, 12}" using assms by (intro month_cases) auto
  then show ?thesis using assms by (auto simp: month_start_def days_in_month_def)
qed

lemma month_start_mono: "mp \<le> mp' \<Longrightarrow> month_start mp \<le> month_start mp'"
  unfolding month_start_def by (rule zdiv_mono1) simp_all

text \<open>Every day of a year belongs to a month.\<close>

lemma month_exists:
  assumes "0 \<le> doy" "doy < 366"
  obtains mp where "0 \<le> mp" "mp < 12" "month_start mp \<le> doy" "doy < month_start (mp + 1)"
proof -
  define mp where "mp = (5 * doy + 2) div 153"
  define u where "u = (5 * doy + 2) mod 153"
  have u: "5 * doy + 2 = u + 153 * mp" "0 \<le> u" "u < 153" unfolding u_def mp_def by simp_all
  then have "0 \<le> mp" "mp < 12" using assms by linarith+
  moreover have "month_start mp \<le> doy" "doy < month_start (mp + 1)"
    unfolding month_start_def div_less_bound using u by simp_all
  ultimately show ?thesis by (rule that)
qed

section \<open>Dates and days\<close>

text \<open>The year, the month and the day of the year of a date, counted from March.\<close>

definition march_year :: "Date \<Rightarrow> int" where
  "march_year d = (if date_month d \<le> 2 then date_year d - 1 else date_year d)"

definition march_month :: "Date \<Rightarrow> int" where
  "march_month d = date_month d + (if date_month d > 2 then -3 else 9)"

definition march_day :: "Date \<Rightarrow> int" where
  "march_day d = month_start (march_month d) + date_day d - 1"

text \<open>The day number of a date.\<close>

definition day_number :: "Date \<Rightarrow> int" where
  "day_number d = march_start (march_year d) + march_day d - 719468"

text \<open>A month ends where the next one begins; February, the last one, ends with its year.\<close>

lemma month_gap:
  assumes "valid_date d"
  shows "0 \<le> march_month d" "march_month d < 12" "0 \<le> month_start (march_month d)"
    "date_month d \<noteq> 2 \<Longrightarrow> month_start (march_month d + 1) = month_start (march_month d) + days_in_month (date_year d) (date_month d)"
    "date_month d \<noteq> 2 \<Longrightarrow> march_month d + 1 \<le> 11"
    "date_month d = 2 \<Longrightarrow> month_start (march_month d) + days_in_month (date_year d) (date_month d) = year_days (march_year d)"
proof -
  have v: "1 \<le> date_month d" "date_month d \<le> 12" using assms by (simp_all add: valid_date_def)
  show mp: "0 \<le> march_month d" "march_month d < 12" "date_month d \<noteq> 2 \<Longrightarrow> march_month d + 1 \<le> 11"
    using v by (simp_all add: march_month_def)
  show "0 \<le> month_start (march_month d)" using month_start_mono [OF mp(1)] by (simp add: month_start_def)
  show "month_start (march_month d) + days_in_month (date_year d) (date_month d) = year_days (march_year d)" if "date_month d = 2"
    using that by (simp add: march_month_def march_year_def month_start_def days_in_month_def year_days_def)
  show "month_start (march_month d + 1) = month_start (march_month d) + days_in_month (date_year d) (date_month d)" if "date_month d \<noteq> 2"
  proof (cases "date_month d = 1")
    case False
    then have "3 \<le> date_month d" using v that by linarith
    then show ?thesis using month_start_next [of "date_month d" "date_year d"] v(2) by (simp add: march_month_def)
  qed (simp add: march_month_def month_start_def days_in_month_def)
qed

lemma march_dateE:
  assumes "valid_date d"
  obtains "0 \<le> march_month d" "march_month d < 12" "0 \<le> march_day d" "march_day d < year_days (march_year d)"
    "month_start (march_month d) \<le> march_day d" "march_day d < month_start (march_month d + 1)"
proof
  note gap = month_gap [OF assms]
  have v: "1 \<le> date_day d" "date_day d \<le> days_in_month (date_year d) (date_month d)" using assms by (simp_all add: valid_date_def)
  have start: "month_start 11 = 337" "month_start 12 = 367" by (simp_all add: month_start_def)
  have days: "365 \<le> year_days (march_year d)" "year_days (march_year d) \<le> 366" by (simp_all add: year_days_def)
  show "0 \<le> march_month d" "march_month d < 12" by (rule gap)+
  show "month_start (march_month d) \<le> march_day d" using v by (simp add: march_day_def)
  then show "0 \<le> march_day d" using gap(3) by linarith
  have "march_day d < month_start (march_month d + 1) \<and> march_day d < year_days (march_year d)"
  proof (cases "date_month d = 2")
    case True
    then have "march_month d + 1 = 12" by (simp add: march_month_def)
    then show ?thesis using gap(6) [OF True] v start days unfolding march_day_def by simp
  next
    case False
    then show ?thesis using gap(4) [OF False] month_start_mono [OF gap(5) [OF False]] v start days unfolding march_day_def by linarith
  qed
  then show "march_day d < year_days (march_year d)" "march_day d < month_start (march_month d + 1)" by simp_all
qed

lemma day_number_next:
  assumes "valid_date d"
  shows "valid_date (next_date d)" "day_number (next_date d) = day_number d + 1"
proof -
  note gap = month_gap [OF assms]
  let ?last = "days_in_month (date_year d) (date_month d)"
  have v: "1 \<le> date_month d" "date_month d \<le> 12" "1 \<le> date_day d" "date_day d \<le> ?last"
    using assms by (simp_all add: valid_date_def)
  show "valid_date (next_date d)"
    using v by (auto simp: valid_date_def next_date_def days_in_month_def)
  consider (same) "date_day d < ?last" | (month) "date_day d = ?last" "date_month d < 12" "date_month d \<noteq> 2"
    | (march) "date_day d = ?last" "date_month d = 2" | (year) "date_day d = ?last" "date_month d = 12"
    using v by linarith
  then show "day_number (next_date d) = day_number d + 1"
  proof cases
    case same
    then show ?thesis by (simp add: next_date_def day_number_def march_day_def march_year_def march_month_def)
  next
    case month
    then have "march_year (next_date d) = march_year d" "march_month (next_date d) = march_month d + 1" "date_day (next_date d) = 1"
      by (auto simp: next_date_def march_year_def march_month_def)
    then show ?thesis using gap(4) [OF month(3)] month(1) by (simp add: day_number_def march_day_def)
  next
    case march
    then have "march_year (next_date d) = march_year d + 1" "march_month (next_date d) = 0" "date_day (next_date d) = 1"
      by (auto simp: next_date_def march_year_def march_month_def)
    moreover have "month_start 0 = 0" by (simp add: month_start_def)
    ultimately show ?thesis
      using gap(6) [OF march(2)] march(1) march_start_next [of "march_year d"] by (simp add: day_number_def march_day_def)
  next
    case year
    then have "march_year (next_date d) = march_year d" "march_month (next_date d) = march_month d + 1" "date_day (next_date d) = 1"
      by (auto simp: next_date_def march_year_def march_month_def)
    then show ?thesis using gap(4) year by (simp add: day_number_def march_day_def)
  qed
qed

lemma march_start_nat:
  assumes "0 \<le> y" "y < 400"
  shows "int (365 * nat y + nat y div 4 - nat y div 100) = march_start y"
proof -
  have "nat y div 100 \<le> 365 * nat y + nat y div 4" by (rule order_trans [OF div_le_dividend]) simp
  moreover have "y div 400 = 0" using assms by (simp add: div_pos_pos_trivial)
  ultimately show ?thesis using assms by (simp add: march_start_def of_nat_diff zdiv_int)
qed

lemma yoe_nat:
  assumes "0 \<le> doe"
  shows "int ((nat doe - nat doe div 1460 + nat doe div 36524 - nat doe div 146096) div 365)
    = (doe - doe div 1460 + doe div 36524 - doe div 146096) div 365"
proof -
  define n where "n = nat doe"
  have "n div 146096 \<le> n div 36524" by (rule div_le_mono2) simp_all
  then have "int (n - n div 1460 + n div 36524 - n div 146096) = int n - int n div 1460 + int n div 36524 - int n div 146096"
    by (simp add: of_nat_diff zdiv_int trans_le_add2)
  then show ?thesis using assms by (simp add: n_def zdiv_int)
qed

lemma march_split: "march_start y = y div 400 * 146097 + march_start (y mod 400)" "year_days y = year_days (y mod 400)"
  using march_start_era [of "y div 400" "y mod 400"] year_days_era [of "y div 400" "y mod 400"] by simp_all

lemma year_days_le: "year_days y \<le> 366"
  by (simp add: year_days_def)

lemma march_year_bound:
  assumes "\<bar>date_year d\<bar> \<le> 1000000"
  shows "\<bar>march_year d\<bar> \<le> 1000001" "\<bar>march_year d div 400\<bar> \<le> 2501"
  using assms by (auto simp: march_year_def)

lemma daysFromCivil_march:
  assumes "0 \<le> march_day d" "\<bar>date_year d\<bar> \<le> 1000000"
  shows "daysFromCivil (date_year d) (date_month d) (date_day d) = Some (day_number d)"
proof -
  define y where "y = march_year d"
  have eq: "y - y div 400 * 400 = y mod 400" by (simp add: minus_div_mult_eq_mod)
  then have doe: "int (nat (y mod 400) * 365 + nat (y mod 400) div 4 - nat (y mod 400) div 100 + nat (march_day d))
      = march_start (y mod 400) + march_day d"
  proof -
    have "int (365 * nat (y mod 400) + nat (y mod 400) div 4 - nat (y mod 400) div 100) = march_start (y mod 400)"
      by (rule march_start_nat) simp_all
    then show ?thesis using assms(1) by (simp only: of_nat_add mult.commute [of _ 365] int_nat_eq if_True)
  qed
  have fits: "fits 32 y" "fits 32 (y div 400 * 400)" "fits 32 (y div 400 * 146097)"
    using march_year_bound [OF assms(2)] unfolding y_def fits_def by (simp_all add: abs_le_iff)
  have "daysFromCivil (date_year d) (date_month d) (date_day d) = Some (y div 400 * 146097 + (march_start (y mod 400) + march_day d) - 719468)"
    unfolding daysFromCivil_def Let_def march_year_def [symmetric] march_month_def [symmetric] month_start_def [symmetric]
      march_day_def [symmetric] y_def [symmetric] eq doe using fits assms(1) by simp
  then show ?thesis using march_split(1) [of y] by (simp add: day_number_def y_def)
qed

lemma daysFromCivil_number:
  assumes "valid_date d" "\<bar>date_year d\<bar> \<le> 1000000"
  shows "daysFromCivil (date_year d) (date_month d) (date_day d) = Some (day_number d)"
  using march_dateE [OF assms(1)] daysFromCivil_march [OF _ assms(2)] by blast

lemma civilFromDays_number:
  assumes "valid_date d" "\<bar>date_year d\<bar> \<le> 1000000"
  shows "civilFromDays (day_number d) = Some d"
proof -
  define y where "y = march_year d"
  define yo where "yo = y mod 400"
  define doe where "doe = march_start yo + march_day d"
  have yo: "0 \<le> yo" "yo < 400" by (simp_all add: yo_def)
  obtain m: "0 \<le> march_month d" "march_month d < 12" "0 \<le> march_day d" "march_day d < year_days yo"
    "month_start (march_month d) \<le> march_day d" "march_day d < month_start (march_month d + 1)"
    using march_dateE [OF assms(1)] march_split(2) [of y] by (auto simp: yo_def y_def)
  note doe = yoe_eq [OF yo m(3,4) doe_def]
  have z: "day_number d + 719468 = doe + y div 400 * 146097"
    using march_split(1) [of y] by (simp add: day_number_def doe_def y_def yo_def)
  have era: "(day_number d + 719468) div 146097 = y div 400" using doe(2,3) unfolding z by (simp add: div_pos_pos_trivial)
  have yoe: "(nat doe - nat doe div 1460 + nat doe div 36524 - nat doe div 146096) div 365 = nat yo"
    using yoe_nat [OF doe(2)] unfolding doe(1) by (metis nat_int)
  have "int (365 * nat yo + nat yo div 4 - nat yo div 100) = march_start yo" by (rule march_start_nat [OF yo])
  then have doy: "nat doe - (365 * nat yo + nat yo div 4 - nat yo div 100) = nat (march_day d)"
    using doe(2) m(3) unfolding doe_def by linarith
  have "int ((5 * nat (march_day d) + 2) div 153) = (5 * march_day d + 2) div 153" using m(3) by (simp add: zdiv_int)
  then have mp: "(5 * nat (march_day d) + 2) div 153 = nat (march_month d)" using month_eq [OF m(5,6)] m(1) by simp
  have mp_int: "int (nat (march_month d)) = march_month d" "int (nat (march_day d)) = march_day d" using m(1,3) by simp_all
  have "fits 64 (day_number d + 719468)" "fits 32 (y div 400 * 400)" "fits 32 (yo + y div 400 * 400)" "fits 32 (date_year d)"
    using march_year_bound [OF assms(2)] assms(2) doe(2,3) yo unfolding z y_def fits_def by (simp_all add: abs_le_iff)
  moreover have y400: "int (nat yo) + y div 400 * 400 = y" "yo + y div 400 * 400 = y" using yo by (simp_all add: yo_def)
  moreover have doe_z: "nat (day_number d + 719468 - y div 400 * 146097) = nat doe" using z by simp
  moreover have month: "int (if nat (march_month d) < 10 then nat (march_month d) + 3 else nat (march_month d) - 9) = date_month d"
    "(if nat (march_month d) < 10 then nat (march_month d) + 3 else nat (march_month d) - 9) \<le> 2 \<longleftrightarrow> date_month d \<le> 2"
    using assms(1) by (auto simp: march_month_def valid_date_def split: if_splits)
  moreover have "int (nat (march_day d) - (153 * nat (march_month d) + 2) div 5 + 1) = date_day d"
  proof -
    have "int ((153 * nat (march_month d) + 2) div 5) = month_start (march_month d)"
      using m(1) by (simp add: zdiv_int month_start_def)
    moreover from this have "(153 * nat (march_month d) + 2) div 5 \<le> nat (march_day d)" using m(5) by linarith
    ultimately show ?thesis using m(3) by (simp add: of_nat_diff march_day_def)
  qed
  moreover have "(if date_month d \<le> 2 then y + 1 else y) = date_year d" by (simp add: y_def march_year_def)
  ultimately show ?thesis
    unfolding civilFromDays_def Let_def era doe_z yoe doy mp month y400 by simp
qed

lemma day_number_surj:
  assumes "\<bar>n\<bar> \<le> 300000000"
  obtains d where "valid_date d" "day_number d = n" "\<bar>date_year d\<bar> \<le> 1000000"
proof -
  define z where "z = n + 719468"
  define era where "era = z div 146097"
  have z: "z = era * 146097 + z mod 146097" by (simp add: era_def)
  have era: "\<bar>era\<bar> \<le> 2100" using assms unfolding era_def z_def abs_le_iff by (auto intro!: ) 
  obtain yo where yo: "0 \<le> yo" "yo < 400" "march_start yo \<le> z mod 146097" "z mod 146097 < march_start yo + year_days yo"
    using year_exists [of "z mod 146097"] by auto
  define doy where "doy = z mod 146097 - march_start yo"
  have doy: "0 \<le> doy" "doy < year_days yo" using yo(3,4) by (simp_all add: doy_def)
  obtain mp where mp: "0 \<le> mp" "mp < 12" "month_start mp \<le> doy" "doy < month_start (mp + 1)"
    using month_exists [of doy] doy year_days_le [of yo] by auto
  define d where "d = \<lparr>date_year = era * 400 + yo + (if mp < 10 then 0 else 1), date_month = (if mp < 10 then mp + 3 else mp - 9),
      date_day = doy - month_start mp + 1\<rparr>"
  have y: "march_year d = era * 400 + yo" "march_month d = mp" "march_day d = doy"
    using mp by (auto simp: d_def march_year_def march_month_def march_day_def)
  show ?thesis
  proof (rule that [of d])
    show "day_number d = n"
      using z march_start_era [of era yo] by (simp add: day_number_def y doy_def z_def)
    show "\<bar>date_year d\<bar> \<le> 1000000" using era yo by (simp add: d_def abs_le_iff)
    have "doy < month_start mp + days_in_month (date_year d) (date_month d)"
    proof (cases "mp < 10")
      case True
      then show ?thesis using mp month_start_next [of "mp + 3"] by (simp add: d_def)
    next
      case False
      then have "mp = 10 \<or> mp = 11" using mp by linarith
      moreover have "doy < year_days (era * 400 + yo)" using doy by (simp add: year_days_era)
      ultimately show ?thesis using mp by (auto simp: d_def days_in_month_def month_start_def year_days_def)
    qed
    then show "valid_date d" using mp by (simp add: valid_date_def d_def)
  qed
qed

lemma civilFromDays_valid:
  assumes "\<bar>n\<bar> \<le> 300000000"
  obtains d where "civilFromDays n = Some d" "valid_date d" "day_number d = n" "\<bar>date_year d\<bar> \<le> 1000000"
  using day_number_surj [OF assms] civilFromDays_number that by metis

text \<open>
  A caller that converts a date to days and back and compares finds out whether the date is
  one of the calendar, except that day 0 of March panics.
\<close>

lemma march_start_bound: "\<bar>y\<bar> \<le> 10001 \<Longrightarrow> \<bar>march_start y\<bar> \<le> 4000000"
proof -
  assume "\<bar>y\<bar> \<le> 10001"
  then have y: "- 10001 \<le> y" "y \<le> 10001" by simp_all
  define d4 d100 d400 where "d4 = y div 4" and "d100 = y div 100" and "d400 = y div 400"
  have start: "march_start y = 365 * y + d4 - d100 + d400" by (simp only: march_start_def d4_def d100_def d400_def)
  have div: "k * (y div k) \<le> y \<and> y < k * (y div k) + k" if "0 < k" for k
    using mult_div_mod_eq [of k y] pos_mod_sign [OF that, of y] pos_mod_bound [OF that, of y] by linarith
  have "4 * d4 \<le> y" "y < 4 * d4 + 4" "100 * d100 \<le> y" "y < 100 * d100 + 100" "400 * d400 \<le> y" "y < 400 * d400 + 400"
    unfolding d4_def d100_def d400_def using div [of 4] div [of 100] div [of 400] by simp_all
  then show ?thesis using start y by linarith
qed

lemma daysFromCivil_March_0: "daysFromCivil year 3 0 = None"
  by (simp add: daysFromCivil_def)

lemma date_check:
  assumes "\<bar>date_year d\<bar> \<le> 10000" "1 \<le> date_month d" "date_month d \<le> 12" "0 \<le> date_day d" "date_day d < 256"
    "\<not> (date_month d = 3 \<and> date_day d = 0)"
  obtains n d' where "daysFromCivil (date_year d) (date_month d) (date_day d) = Some n" "civilFromDays n = Some d'"
    "d' = d \<longleftrightarrow> valid_date d" "\<bar>n\<bar> \<le> 10000000" "n = day_number d"
proof -
  have "march_month d = 0 \<longleftrightarrow> date_month d = 3" "0 \<le> march_month d" "march_month d < 12"
    using assms(2,3) by (auto simp: march_month_def)
  then have "0 \<le> month_start (march_month d)" "month_start (march_month d) \<le> month_start 12" "march_month d \<noteq> 0 \<Longrightarrow> month_start 1 \<le> month_start (march_month d)"
    using month_start_mono [of 0 "march_month d"] month_start_mono [of "march_month d" 12] month_start_mono [of 1 "march_month d"]
    by (simp_all add: month_start_def)
  then have day: "0 \<le> march_day d" "march_day d \<le> 1000"
    using assms(4-6) \<open>march_month d = 0 \<longleftrightarrow> date_month d = 3\<close> by (auto simp: march_day_def month_start_def)
  have n: "daysFromCivil (date_year d) (date_month d) (date_day d) = Some (day_number d)"
    using daysFromCivil_march [OF day(1)] assms(1) by simp
  have "\<bar>march_year d\<bar> \<le> 10001" using assms(1) by (auto simp: march_year_def)
  then have b: "\<bar>day_number d\<bar> \<le> 10000000" using march_start_bound [of "march_year d"] day by (auto simp: day_number_def)
  show ?thesis
  proof (cases "valid_date d")
    case True
    then show ?thesis using that [OF n _ _ b] civilFromDays_number [of d] assms(1) by simp
  next
    case False
    have "\<bar>day_number d\<bar> \<le> 300000000" using b by simp
    then obtain d' where "civilFromDays (day_number d) = Some d'" "valid_date d'" by (rule civilFromDays_valid)
    then show ?thesis using that [OF n _ _ b] False by blast
  qed
qed

section \<open>Properties\<close>

text \<open>
  C32: the two conversions count the days of the Gregorian calendar: 1970-01-01 is day 0, the
  day after a date has the next number, both functions invert each other on every valid date
  up to the year 1000000 and on every day number up to 300 million, and nothing panics there.
\<close>

theorem civil_calendar:
  "daysFromCivil 1970 1 1 = Some 0 \<and>
   (\<forall>d. valid_date d \<and> \<bar>date_year d\<bar> < 1000000 \<longrightarrow>
      (\<exists>n. daysFromCivil (date_year d) (date_month d) (date_day d) = Some n \<and> civilFromDays n = Some d \<and>
           civilFromDays (n + 1) = Some (next_date d))) \<and>
   (\<forall>n. \<bar>n\<bar> \<le> 300000000 \<longrightarrow>
      (\<exists>d. civilFromDays n = Some d \<and> valid_date d \<and> daysFromCivil (date_year d) (date_month d) (date_day d) = Some n))"
proof (intro conjI allI impI)
  show "daysFromCivil 1970 1 1 = Some 0" by (simp add: daysFromCivil_def fits_def)
next
  fix d assume d: "valid_date d \<and> \<bar>date_year d\<bar> < 1000000"
  then have "\<bar>date_year (next_date d)\<bar> \<le> 1000000" by (auto simp: next_date_def)
  then show "\<exists>n. daysFromCivil (date_year d) (date_month d) (date_day d) = Some n \<and> civilFromDays n = Some d \<and>
      civilFromDays (n + 1) = Some (next_date d)"
    using d daysFromCivil_number [of d] civilFromDays_number [of d] civilFromDays_number [of "next_date d"] day_number_next [of d]
    by simp
next
  fix n :: int assume "\<bar>n\<bar> \<le> 300000000"
  then obtain d where "civilFromDays n = Some d" "valid_date d" "day_number d = n" "\<bar>date_year d\<bar> \<le> 1000000"
    by (rule civilFromDays_valid)
  then show "\<exists>d. civilFromDays n = Some d \<and> valid_date d \<and> daysFromCivil (date_year d) (date_month d) (date_day d) = Some n"
    using daysFromCivil_number [of d] by blast
qed

theorem civil_calendar_witness:
  "\<exists>n. daysFromCivil 2000 2 28 = Some n \<and> civilFromDays (n + 1) = Some \<lparr>date_year = 2000, date_month = 2, date_day = 29\<rparr>"
  using civil_calendar [THEN conjunct2, THEN conjunct1, rule_format, of "\<lparr>date_year = 2000, date_month = 2, date_day = 28\<rparr>"]
  by (auto simp: valid_date_def days_in_month_def leap_year_def next_date_def)

end
