(* ===== verification/Wkt_Text.thy ===== *)
theory Wkt_Text
  imports Pbz_Base
begin

text \<open>
  Text as the helpers of \<open>src/wkt.zig\<close> read and print it: \<open>std.fmt.parseInt\<close> with its signs and
  underscores, decimal printing with a width, the digits of a fraction of a second, and the
  payload of a JSON string with its escapes. A byte is a \<open>char\<close>; the memory the unescaped
  payload is copied to is never refused here.
\<close>

section \<open>Results\<close>

text \<open>
  What a function without state returns: \<open>None\<close> is a panic, otherwise the error or the value.
  \<open>trying m f\<close> is \<open>const x = try m; f(x)\<close>, \<open>orError e m\<close> is \<open>m catch return e\<close> and
  \<open>rejectIf b e\<close> is \<open>if (b) return e\<close>.
\<close>

type_synonym ('e, 'a) outcome = "('e + 'a) option"

definition trying :: "('e, 'a) outcome \<Rightarrow> ('a \<Rightarrow> ('e, 'b) outcome) \<Rightarrow> ('e, 'b) outcome" where
  "trying m f = (case m of None \<Rightarrow> None | Some (Inl e) \<Rightarrow> Some (Inl e) | Some (Inr x) \<Rightarrow> f x)"

definition orError :: "'e \<Rightarrow> 'a option \<Rightarrow> ('e, 'a) outcome" where
  "orError e m = (case m of None \<Rightarrow> Some (Inl e) | Some x \<Rightarrow> Some (Inr x))"

definition rejectIf :: "bool \<Rightarrow> 'e \<Rightarrow> ('e, unit) outcome" where
  "rejectIf b e = (if b then Some (Inl e) else Some (Inr ()))"

lemma trying_simps [simp]:
  "trying None f = None" "trying (Some (Inl e)) f = Some (Inl e)" "trying (Some (Inr x)) f = f x"
  by (simp_all add: trying_def)

lemma orError_simps [simp]: "orError e None = Some (Inl e)" "orError e (Some x) = Some (Inr x)"
  by (simp_all add: orError_def)

lemma rejectIf_simps [simp]: "rejectIf True e = Some (Inl e)" "rejectIf False e = Some (Inr ())"
  by (simp_all add: rejectIf_def)

lemma trying_rejectIf: "trying (rejectIf b e) f = (if b then Some (Inl e) else f ())"
  by simp

lemma trying_orError_same [simp]: "trying (orError e m) (\<lambda>_. Some (Inl e)) = Some (Inl e)"
  by (cases m) simp_all

lemma trying_Some:
  "trying m f = Some r \<longleftrightarrow> (\<exists>e. m = Some (Inl e) \<and> r = Inl e) \<or> (\<exists>x. m = Some (Inr x) \<and> f x = Some r)"
  by (auto simp: trying_def split: option.splits sum.splits)

lemma trying_None: "trying m f = None \<longleftrightarrow> m = None \<or> (\<exists>x. m = Some (Inr x) \<and> f x = None)"
  by (auto simp: trying_def split: option.splits sum.splits)

lemma orError_not_None [simp]: "orError e m \<noteq> None"
  by (cases m) simp_all

lemma orError_Inr [simp]: "orError e m = Some (Inr x) \<longleftrightarrow> m = Some x"
  by (cases m) simp_all

text \<open>The bytes \<open>s[i..j]\<close>.\<close>

definition subslice :: "nat \<Rightarrow> nat \<Rightarrow> 'a list \<Rightarrow> 'a list" where
  "subslice i j s = take (j - i) (drop i s)"

section \<open>Integers in text\<close>

definition isDigit :: "char \<Rightarrow> bool" where
  "isDigit c \<longleftrightarrow> (48 :: nat) \<le> of_char c \<and> (of_char c :: nat) \<le> 57"

definition charToDigit :: "char \<Rightarrow> nat \<Rightarrow> nat option" where
  "charToDigit c base =
     (let n = of_char c;
          digit = (if 48 \<le> n \<and> n \<le> 57 then Some (n - 48)
                   else if 65 \<le> n \<and> n \<le> 90 then Some (n - 65 + 10)
                   else if 97 \<le> n \<and> n \<le> 122 then Some (n - 97 + 10)
                   else None)
      in case digit of None \<Rightarrow> None | Some d \<Rightarrow> if base \<le> d then None else Some d)"

text \<open>
  The loop over the digits: every product and sum is checked, and the first digit behind a minus
  sign is negated. \<open>BadCharacter\<close> and \<open>OutOfRange\<close> are the errors \<open>InvalidCharacter\<close> and
  \<open>Overflow\<close> of \<open>std.fmt\<close>.
\<close>

datatype int_error = BadCharacter | OutOfRange

fun parseDigits :: "(int \<Rightarrow> bool) \<Rightarrow> nat \<Rightarrow> bool \<Rightarrow> int \<Rightarrow> string \<Rightarrow> int_error + int" where
  "parseDigits in_range base neg accumulate [] = Inr accumulate"
| "parseDigits in_range base neg accumulate (c # cs) =
     (if c = CHR ''_'' then parseDigits in_range base neg accumulate cs
      else (case charToDigit c base of
              None \<Rightarrow> Inl BadCharacter
            | Some digit \<Rightarrow>
                let signed = (if neg then - int digit else int digit) in
                if accumulate \<noteq> 0 then
                  (if in_range (accumulate * int base) \<and> in_range (accumulate * int base + signed)
                   then parseDigits in_range base neg (accumulate * int base + signed) cs else Inl OutOfRange)
                else (if in_range signed then parseDigits in_range base neg signed cs else Inl OutOfRange)))"

definition parseIntWithSign :: "(int \<Rightarrow> bool) \<Rightarrow> nat \<Rightarrow> bool \<Rightarrow> string \<Rightarrow> int_error + int" where
  "parseIntWithSign in_range base neg buf =
     (if buf = [] then Inl BadCharacter
      else if hd buf = CHR ''_'' \<or> last buf = CHR ''_'' then Inl BadCharacter
      else parseDigits in_range base neg 0 buf)"

definition fmtParseInt :: "(int \<Rightarrow> bool) \<Rightarrow> string \<Rightarrow> nat \<Rightarrow> int_error + int" where
  "fmtParseInt in_range buf base =
     (if buf = [] then Inl BadCharacter
      else if hd buf = CHR ''+'' then parseIntWithSign in_range base False (tl buf)
      else if hd buf = CHR ''-'' then parseIntWithSign in_range base True (tl buf)
      else parseIntWithSign in_range base False buf)"

text \<open>The calls that turn both errors into one of their own.\<close>

definition parseInt :: "(int \<Rightarrow> bool) \<Rightarrow> string \<Rightarrow> nat \<Rightarrow> int option" where
  "parseInt in_range buf base = (case fmtParseInt in_range buf base of Inl _ \<Rightarrow> None | Inr n \<Rightarrow> Some n)"

lemma parseInt_Some: "parseInt in_range s base = Some n \<longleftrightarrow> fmtParseInt in_range s base = Inr n"
  by (simp add: parseInt_def split: sum.splits)

text \<open>The format \<open>{d:0>w}\<close> of an unsigned integer.\<close>

definition printPadded :: "nat \<Rightarrow> nat \<Rightarrow> string" where
  "printPadded w n = replicate (w - length (decimal n)) (CHR ''0'') @ decimal n"

text \<open>\<open>writeCanonicalFraction\<close>: three, six or nine digits, whichever lose nothing.\<close>

definition writeCanonicalFraction :: "nat \<Rightarrow> string" where
  "writeCanonicalFraction nanos =
     (let frac = printPadded 9 nanos;
          len = length (rev (dropWhile (\<lambda>c. c = CHR ''0'') (rev frac)));
          len = (if len \<le> 3 then 3 else if len \<le> 6 then 6 else 9)
      in ''.'' @ take len frac)"

text \<open>
  The loop that both parsers run over the digits behind the point. With at most nine digits
  the sum stays below a thousand million, which an \<open>i32\<close> holds.
\<close>

fun fractionNanos :: "nat \<Rightarrow> nat \<Rightarrow> string \<Rightarrow> nat" where
  "fractionNanos nanos scale [] = nanos"
| "fractionNanos nanos scale (c # cs) = fractionNanos (nanos + (of_char c - 48) * scale) (scale div 10) cs"

section \<open>Payloads of JSON strings\<close>

definition parseJsonHexCodeUnit :: "string \<Rightarrow> (nat \<times> string) option" where
  "parseJsonHexCodeUnit text =
     (if length text < 4 then None
      else map_option (\<lambda>v. (nat v, drop 4 text)) (parseInt (fits_unsigned 16) (take 4 text) 16))"

text \<open>\<open>std.unicode.utf8Encode\<close> of a code point that is no surrogate.\<close>

definition utf8Encode :: "nat \<Rightarrow> string" where
  "utf8Encode c =
     (if c < 0x80 then [char_of c]
      else if c < 0x800 then [char_of (0xC0 + c div 64), char_of (0x80 + c mod 64)]
      else if c < 0x10000 then
        [char_of (0xE0 + c div 4096), char_of (0x80 + c div 64 mod 64), char_of (0x80 + c mod 64)]
      else [char_of (0xF0 + c div 262144), char_of (0x80 + c div 4096 mod 64),
            char_of (0x80 + c div 64 mod 64), char_of (0x80 + c mod 64)])"

text \<open>The code point of a \<open>\u\<close> escape, of two of them when the first is a high surrogate.\<close>

definition escapedCodePoint :: "string \<Rightarrow> (nat \<times> string) option" where
  "escapedCodePoint text = Option.bind (parseJsonHexCodeUnit text) (\<lambda>(codepoint, text).
     if 0xD800 \<le> codepoint \<and> codepoint \<le> 0xDBFF then
       (if length text < 6 \<or> take 2 text \<noteq> [CHR 0x5C, CHR ''u''] then None
        else Option.bind (parseJsonHexCodeUnit (drop 2 text)) (\<lambda>(low, text).
          if low < 0xDC00 \<or> 0xDFFF < low then None
          else Some (0x10000 + (codepoint - 0xD800) * 1024 + (low - 0xDC00), text)))
     else if 0xDC00 \<le> codepoint \<and> codepoint \<le> 0xDFFF then None
     else Some (codepoint, text))"

lemma parseJsonHexCodeUnit_shorter: "parseJsonHexCodeUnit text = Some (v, rest) \<Longrightarrow> length rest \<le> length text"
  by (auto simp: parseJsonHexCodeUnit_def split: if_splits)

lemma escapedCodePoint_shorter: "escapedCodePoint text = Some (v, rest) \<Longrightarrow> length rest \<le> length text"
  by (fastforce simp: escapedCodePoint_def bind_eq_Some_conv dest: parseJsonHexCodeUnit_shorter split: if_splits)

function unescapeJsonStringPayload :: "'e \<Rightarrow> string \<Rightarrow> string \<Rightarrow> 'e + string" where
  "unescapeJsonStringPayload err out [] = Inr out"
| "unescapeJsonStringPayload err out (c # text) =
     (if (of_char c :: nat) < 0x20 then Inl err
      else if c \<noteq> CHR 0x5C then unescapeJsonStringPayload err (out @ [c]) text
      else (case text of
          [] \<Rightarrow> Inl err
        | e # text \<Rightarrow>
            if e \<in> {CHR 0x22, CHR 0x5C, CHR ''/''} then unescapeJsonStringPayload err (out @ [e]) text
            else if e = CHR ''b'' then unescapeJsonStringPayload err (out @ [CHR 0x08]) text
            else if e = CHR ''f'' then unescapeJsonStringPayload err (out @ [CHR 0x0C]) text
            else if e = CHR ''n'' then unescapeJsonStringPayload err (out @ [CHR 0x0A]) text
            else if e = CHR ''r'' then unescapeJsonStringPayload err (out @ [CHR 0x0D]) text
            else if e = CHR ''t'' then unescapeJsonStringPayload err (out @ [CHR 0x09]) text
            else if e = CHR ''u'' then
              (case escapedCodePoint text of
                 None \<Rightarrow> Inl err
               | Some (codepoint, text) \<Rightarrow> unescapeJsonStringPayload err (out @ utf8Encode codepoint) text)
            else Inl err))"
  by pat_completeness auto
termination
  by (relation "measure (\<lambda>(err, out, text). length text)") (auto dest: escapedCodePoint_shorter)

definition jsonStringPayload :: "'e \<Rightarrow> string \<Rightarrow> 'e + string" where
  "jsonStringPayload err text =
     (if length text < 2 \<or> hd text \<noteq> CHR 0x22 \<or> last text \<noteq> CHR 0x22 then Inr text
      else if CHR 0x5C \<notin> set text then Inr (subslice 1 (length text - 1) text)
      else unescapeJsonStringPayload err [] (subslice 1 (length text - 1) text))"

section \<open>Reading what was printed\<close>

definition digits :: "string \<Rightarrow> bool" where
  "digits s \<longleftrightarrow> (\<forall>c \<in> set s. isDigit c)"

lemma digits_simps [simp]:
  "digits []" "digits (c # s) \<longleftrightarrow> isDigit c \<and> digits s" "digits (s @ t) \<longleftrightarrow> digits s \<and> digits t"
  by (auto simp: digits_def)

lemma digits_replicate [simp]: "digits (replicate k (CHR ''0''))"
  by (auto simp: digits_def isDigit_def)

lemma isDigit_char_of [simp]: "n < 10 \<Longrightarrow> isDigit (char_of (48 + n))" for n :: nat
  by (simp add: isDigit_def)

lemma digits_decimal [simp]: "digits (decimal n)"
proof (induction n rule: decimal.induct)
  case (1 n)
  then show ?case by (subst decimal.simps) simp
qed

lemma decimal_not_Nil [simp]: "decimal n \<noteq> []"
  by (subst decimal.simps) simp

lemma digits_printPadded [simp]: "digits (printPadded w n)"
  by (simp add: printPadded_def)

lemma printPadded_not_Nil [simp]: "printPadded w n \<noteq> []"
  by (simp add: printPadded_def)

lemma length_printPadded: "n < 10 ^ w \<Longrightarrow> 0 < w \<Longrightarrow> length (printPadded w n) = w"
  using length_decimal [of n w] by (simp add: printPadded_def)

lemma undecimal_printPadded [simp]: "undecimal (printPadded w n) = n"
  by (simp add: printPadded_def undecimal_zeros undecimal_decimal)

lemma charToDigit_isDigit: "isDigit c \<Longrightarrow> charToDigit c 10 = Some (of_char c - 48)"
  by (simp add: isDigit_def charToDigit_def Let_def, linarith)

lemma isDigit_neq: "isDigit c \<Longrightarrow> c \<noteq> CHR ''_'' \<and> c \<noteq> CHR ''+'' \<and> c \<noteq> CHR ''-'' \<and> c \<noteq> CHR 0x5C \<and> c \<noteq> CHR ''.''"
  by (auto simp: isDigit_def)

definition value_from :: "nat \<Rightarrow> string \<Rightarrow> nat" where
  "value_from a s = foldl (\<lambda>a c. a * 10 + (of_char c - 48)) a s"

lemma value_from_le: "a \<le> value_from a s"
proof (induction s arbitrary: a)
  case (Cons c s)
  have "a \<le> a * 10 + (of_char c - 48)" by simp
  also have "\<dots> \<le> value_from (a * 10 + (of_char c - 48)) s" by (rule Cons)
  finally show ?case by (simp add: value_from_def)
qed (simp add: value_from_def)

lemma parseDigits_digits:
  assumes "digits s" "in_range (int (value_from a s))" "\<And>m n. m \<le> n \<Longrightarrow> in_range (int n) \<Longrightarrow> in_range (int m)"
  shows "parseDigits in_range 10 False (int a) s = Inr (int (value_from a s))"
  using assms(1,2)
proof (induction s arbitrary: a)
  case (Cons c s)
  let ?d = "of_char c - 48 :: nat"
  let ?b = "a * 10 + ?d"
  have v: "value_from a (c # s) = value_from ?b s" by (simp add: value_from_def)
  have b: "in_range (int ?b)" "in_range (int (a * 10))"
    using assms(3) value_from_le [of ?b s] Cons.prems(2) unfolding v by (blast intro: le_add1)+
  have "parseDigits in_range 10 False (int ?b) s = Inr (int (value_from ?b s))"
    using Cons.IH [of ?b] Cons.prems unfolding v by (simp only: digits_simps)
  then show ?case
    using Cons.prems(1) b isDigit_neq [of c] unfolding v by (cases "a = 0") (auto simp: charToDigit_isDigit Let_def)
qed (simp add: value_from_def)

lemma parseInt_digits:
  assumes "digits s" "s \<noteq> []" "in_range (int (undecimal s))" "\<And>m n. m \<le> n \<Longrightarrow> in_range (int n) \<Longrightarrow> in_range (int m)"
  shows "parseInt in_range s 10 = Some (int (undecimal s))"
proof -
  have "isDigit (hd s)" "isDigit (last s)" using assms(1,2) by (auto simp: digits_def)
  moreover have "undecimal s = value_from 0 s" by (simp add: undecimal_def value_from_def)
  ultimately show ?thesis
    using assms(2) isDigit_neq [of "hd s"] isDigit_neq [of "last s"] parseDigits_digits [OF assms(1), of in_range 0] assms(3,4)
    by (auto simp: parseInt_def fmtParseInt_def parseIntWithSign_def)
qed

lemma fits_down: "m \<le> n \<Longrightarrow> fits w (int n) \<Longrightarrow> fits w (int m)"
  by (auto simp: fits_def intro: order_trans [of _ 0])

lemma fits_unsigned_down: "m \<le> n \<Longrightarrow> fits_unsigned w (int n) \<Longrightarrow> fits_unsigned w (int m)"
  by (auto simp: fits_unsigned_def)

lemma parseInt_fits:
  "digits s \<Longrightarrow> s \<noteq> [] \<Longrightarrow> fits w (int (undecimal s)) \<Longrightarrow> parseInt (fits w) s 10 = Some (int (undecimal s))"
  by (rule parseInt_digits) (assumption | rule fits_down)+

lemma parseInt_unsigned:
  "digits s \<Longrightarrow> s \<noteq> [] \<Longrightarrow> fits_unsigned w (int (undecimal s)) \<Longrightarrow>
     parseInt (fits_unsigned w) s 10 = Some (int (undecimal s))"
  by (rule parseInt_digits) (assumption | rule fits_unsigned_down)+

lemma value_from_split: "value_from a s = a * 10 ^ length s + undecimal s"
proof (induction s arbitrary: a)
  case (Cons c s)
  have "value_from a (c # s) = value_from (a * 10 + (of_char c - 48)) s" for a by (simp add: value_from_def)
  then show ?case
    using Cons [of "a * 10 + (of_char c - 48)"] Cons [of "of_char c - 48"] by (simp add: undecimal_def value_from_def algebra_simps)
qed (simp add: undecimal_def value_from_def)

lemma undecimal_Cons: "undecimal (c # s) = (of_char c - 48) * 10 ^ length s + undecimal s"
  using value_from_split [of "of_char c - 48" s] by (simp add: undecimal_def value_from_def)

lemma fractionNanos_value:
  "length s \<le> k \<Longrightarrow> fractionNanos n (10 ^ k div 10) s = n + undecimal s * 10 ^ (k - length s)"
proof (induction s arbitrary: n k)
  case (Cons c s)
  then obtain j where k: "k = Suc j" "length s \<le> j" by (cases k) auto
  then have "(10 :: nat) ^ j = 10 ^ length s * 10 ^ (j - length s)" by (simp flip: power_add)
  then show ?case
    using k Cons.IH [of j "n + (of_char c - 48) * 10 ^ j"] by (simp add: undecimal_Cons algebra_simps)
qed (simp add: undecimal_def)

lemma undecimal_append: "undecimal (s @ t) = undecimal s * 10 ^ length t + undecimal t"
  using value_from_split [of "undecimal s" t] by (simp add: undecimal_def value_from_def)

lemma undecimal_less: "digits s \<Longrightarrow> undecimal s < 10 ^ length s"
proof (induction s)
  case (Cons c s)
  then have "(of_char c - 48 :: nat) \<le> 9" by (auto simp: isDigit_def)
  then have le: "(of_char c - 48) * 10 ^ length s \<le> (9 * 10 ^ length s :: nat)" by (rule mult_right_mono) simp
  have "undecimal s < 10 ^ length s" using Cons by simp
  with le have "(of_char c - 48) * 10 ^ length s + undecimal s < 9 * 10 ^ length s + 10 ^ length s" by (rule add_le_less_mono)
  then show ?case by (simp add: undecimal_Cons)
qed (simp add: undecimal_def)

text \<open>The digits of a fraction: a point, and one to nine digits that stand for the nanoseconds.\<close>

lemma writeCanonicalFraction_parts:
  assumes "n < 10 ^ 9"
  obtains frac where "writeCanonicalFraction n = CHR ''.'' # frac" "digits frac" "frac \<noteq> []" "length frac \<le> 9"
    "fractionNanos 0 100000000 frac = n"
proof -
  define frac where "frac = printPadded 9 n"
  define zs where "zs = takeWhile (\<lambda>c. c = CHR ''0'') (rev frac)"
  define l where "l = length (rev (dropWhile (\<lambda>c. c = CHR ''0'') (rev frac)))"
  define len where "len = (if l \<le> 3 then 3 else if l \<le> 6 then 6 else 9 :: nat)"
  have len9: "length frac = 9" using length_printPadded [of n 9] assms by (simp add: frac_def)
  have split: "frac = rev (dropWhile (\<lambda>c. c = CHR ''0'') (rev frac)) @ rev zs"
    unfolding zs_def rev_append [symmetric] takeWhile_dropWhile_id rev_rev_ident ..
  have zs: "rev zs = replicate (length zs) (CHR ''0'')"
    using set_takeWhileD [of _ "\<lambda>c. c = CHR ''0''" "rev frac"] by (intro replicate_eqI) (auto simp: zs_def)
  have l: "l + length zs = 9" using arg_cong [OF split, of length] len9 by (simp add: l_def)
  have "drop l frac = drop l (rev (dropWhile (\<lambda>c. c = CHR ''0'') (rev frac)) @ rev zs)" using split by (rule arg_cong)
  then have drop: "drop l frac = rev zs" by (simp add: l_def)
  have len: "l \<le> len" "len \<le> 9" "0 < len" using l by (auto simp: len_def)
  have "drop len frac = drop (len - l) (drop l frac)" using len by simp
  then have "drop len frac = replicate (9 - len) (CHR ''0'')"
    unfolding drop zs using len l by (simp add: drop_replicate)
  then have "undecimal frac = undecimal (take len frac) * 10 ^ (9 - len) + undecimal (replicate (9 - len) (CHR ''0''))"
    using undecimal_append [of "take len frac" "drop len frac"] unfolding append_take_drop_id by simp
  moreover have "undecimal (replicate (9 - len) (CHR ''0'')) = 0" using undecimal_zeros [of "9 - len" "[]"] by (simp add: undecimal_def)
  ultimately have "n = undecimal (take len frac) * 10 ^ (9 - len)" by (simp add: frac_def)
  moreover have "length (take len frac) = len" using len len9 by simp
  moreover have "digits (take len frac)" unfolding digits_def using set_take_subset digits_printPadded [of 9 n]
    by (metis digits_def frac_def in_set_takeD)
  ultimately show ?thesis
    using that [of "take len frac"] len fractionNanos_value [of "take len frac" 9 0] len9
    by (auto simp: writeCanonicalFraction_def Let_def frac_def l_def len_def)
qed

text \<open>The integers that are read lie in their type and have no more digits than their text.\<close>

lemma charToDigit_less: "charToDigit c base = Some d \<Longrightarrow> d < base"
  by (auto simp: charToDigit_def Let_def split: option.splits if_splits)

lemma parseDigits_range: "parseDigits in_range base neg a s = Inr v \<Longrightarrow> in_range a \<Longrightarrow> in_range v"
  by (induction in_range base neg a s rule: parseDigits.induct) (auto simp: Let_def split: if_splits option.splits)

lemma parseDigits_bound: "parseDigits in_range 10 neg a s = Inr v \<Longrightarrow> \<bar>v\<bar> < (\<bar>a\<bar> + 1) * 10 ^ length s"
proof (induction s arbitrary: a)
  case (Cons c s)
  let ?p = "(10 :: int) ^ length s"
  show ?case
  proof (cases "c = CHR ''_''")
    case True
    have "(\<bar>a\<bar> + 1) * ?p \<le> (\<bar>a\<bar> + 1) * (10 * ?p)" by (rule mult_left_mono) simp_all
    then show ?thesis using Cons.IH [of a] Cons.prems True by simp
  next
    case False
    then obtain d where d: "charToDigit c 10 = Some d" using Cons.prems by (auto split: option.splits)
    define signed where "signed = (if neg then - int d else int d)"
    define b where "b = a * 10 + signed"
    have signed: "\<bar>signed\<bar> \<le> 9" using charToDigit_less [OF d] by (auto simp: signed_def)
    have "parseDigits in_range 10 neg b s = Inr v"
      using Cons.prems False d by (auto simp: signed_def b_def Let_def split: if_splits)
    then have "\<bar>v\<bar> < (\<bar>b\<bar> + 1) * ?p" by (rule Cons.IH)
    also have "\<bar>b\<bar> \<le> \<bar>a\<bar> * 10 + 9" using signed unfolding b_def by linarith
    then have "(\<bar>b\<bar> + 1) * ?p \<le> ((\<bar>a\<bar> + 1) * 10) * ?p" by (intro mult_right_mono) simp_all
    finally show ?thesis by (simp add: algebra_simps)
  qed
qed simp

lemma parseInt_range:
  assumes "parseInt in_range s 10 = Some v" "in_range 0"
  shows "in_range v" "\<bar>v\<bar> < 10 ^ length s"
proof -
  have *: "in_range v \<and> \<bar>v\<bar> < 10 ^ length t" if "parseIntWithSign in_range 10 neg t = Inr v" for neg t
    using that assms(2) parseDigits_range [of in_range 10 neg 0 t v] parseDigits_bound [of in_range neg 0 t v]
    by (auto simp: parseIntWithSign_def split: if_splits)
  have tl: "\<bar>v\<bar> < 10 ^ length s" if "\<bar>v\<bar> < 10 ^ length (tl s)"
    using power_increasing [of "length (tl s)" "length s" "10 :: int"] that by (intro less_le_trans [OF that]) simp
  have "in_range v \<and> \<bar>v\<bar> < 10 ^ length s"
    using assms(1) * [of False s] * [of False "tl s"] * [of True "tl s"] tl unfolding parseInt_Some fmtParseInt_def by (metis sum.distinct(1))
  then show "in_range v" "\<bar>v\<bar> < 10 ^ length s" by simp_all
qed

lemma fits_zero [simp]: "fits w 0" "fits_unsigned w 0"
  by (simp_all add: fits_def fits_unsigned_def)

text \<open>A string without a backslash is its own payload.\<close>

lemma jsonStringPayload_plain:
  "CHR 0x5C \<notin> set s \<Longrightarrow> jsonStringPayload err (CHR 0x22 # s @ [CHR 0x22]) = Inr s"
  by (simp add: jsonStringPayload_def subslice_def)

lemma digits_no_backslash: "digits s \<Longrightarrow> CHR 0x5C \<notin> set s"
  using isDigit_neq by (auto simp: digits_def)

end
