(* ===== verification/Wkt_Decode.thy ===== *)
theory Wkt_Decode
  imports Wire_Writer
begin

text \<open>
  The errors of \<open>src/wkt.zig\<close> and the loop that every \<open>decode\<close> of \<open>src/wkt.zig\<close> runs over the fields of a message: read a tag,
  hand it to the message, stop at the end of the input. The locale \<open>field_decoder\<close> is the
  contract of a message with this loop: it reads every value of its own fields to the end
  and changes its state as \<open>update\<close> says.
\<close>

datatype wkt_error = TimestampOutOfRange | InvalidNanos | DurationOutOfRange | DurationSignMismatch
  | InvalidTimestamp | InvalidDuration | InvalidFieldMask | UnknownField | TypeMismatch
  | InvalidUtf8 | InvalidNumber | InvalidNullValue | Overflow | InvalidCharacter | InvalidPadding
  | SyntaxError | UnexpectedEndOfInput | DuplicateField
  | WriteFailed write_error | ReadFailed wire_error

type_synonym 'a decoding = "(reader, wkt_error, 'a) op"

text \<open>A call of the \<open>Reader\<close> from code with the larger set of errors.\<close>

definition liftRead :: "'a reading \<Rightarrow> 'a decoding" where
  "liftRead m = (\<lambda>self. case m self of
       None \<Rightarrow> None
     | Some (Inl e, self) \<Rightarrow> Some (Inl (ReadFailed e), self)
     | Some (Inr x, self) \<Rightarrow> Some (Inr x, self))"

partial_function (option) decodeFields ::
    "(tag \<Rightarrow> 's \<Rightarrow> 's decoding) \<Rightarrow> 's \<Rightarrow> reader \<Rightarrow> ((wkt_error + 's) \<times> reader) option" where
  "decodeFields handle out self = (case nextTag self of
       None \<Rightarrow> None
     | Some (Inl e, self) \<Rightarrow> Some (Inl (ReadFailed e), self)
     | Some (Inr None, self) \<Rightarrow> Some (Inr out, self)
     | Some (Inr (Some t), self) \<Rightarrow> (case handle t out self of
           None \<Rightarrow> None
         | Some (Inl e, self) \<Rightarrow> Some (Inl e, self)
         | Some (Inr out, self) \<Rightarrow> decodeFields handle out self))"

text \<open>The messages start with a fresh reader.\<close>

definition decodeMessage :: "(tag \<Rightarrow> 's \<Rightarrow> 's decoding) \<Rightarrow> 's \<Rightarrow> bytes \<Rightarrow> (wkt_error + 's) option" where
  "decodeMessage handle out bs = map_option fst (decodeFields handle out (reader_init bs))"

lemma liftRead_simps [simp]:
  "m self = Some (Inr x, s) \<Longrightarrow> liftRead m self = Some (Inr x, s)"
  "m self = Some (Inl e, s) \<Longrightarrow> liftRead m self = Some (Inl (ReadFailed e), s)"
  by (simp_all add: liftRead_def)

lemma liftRead_Some:
  "liftRead m self = Some (Inr x, s) \<longleftrightarrow> m self = Some (Inr x, s)"
  by (auto simp: liftRead_def split: option.splits sum.splits)

lemma reads_ok_liftRead [reading]: "reads_ok m \<Longrightarrow> reads_ok (liftRead m)"
  by (rule reads_okI) (auto simp: liftRead_def split: sum.splits elim!: reads_okD)

lemma decodeFields_end: "reader_ok self \<Longrightarrow> rest_of self = [] \<Longrightarrow> decodeFields handle out self = Some (Inr out, self)"
  using nextTag_None [of self self] by (subst decodeFields.simps) simp

lemma depth_left_init: "depth_left (reader_init bs) = 100"
  by (simp add: depth_left_def reader_init_def)

text \<open>
  The loop returns when the handler does on every reader that has less input left than the
  loop starts with; that is all it needs, for a tag is read before the handler runs.
\<close>

lemma decodeFields_returns_if:
  assumes "reader_ok self"
    and "\<And>t out s. reader_ok s \<Longrightarrow> rest_length s < rest_length self \<Longrightarrow> returns_ok (handle t out s) s"
  shows "\<exists>r s. decodeFields handle out self = Some (r, s)"
  using assms
proof (induction "rest_length self" arbitrary: self out rule: less_induct)
  case less
  obtain r s where t: "nextTag self = Some (r, s)" "reader_ok s" "reader_step self s"
    using reads_ok_ex [OF reads_ok_nextTag less.prems(1)] by blast
  consider (err) e where "r = Inl e" | (no) "r = Inr None" | (tag) t where "r = Inr (Some t)"
    by (metis sum.exhaust option.exhaust)
  then show ?case
  proof cases
    case (tag tg)
    have lt: "rest_length s < rest_length self" using nextTag_progress(1) [OF less.prems(1)] t(1) tag by blast
    then obtain r2 s2 where f: "handle tg out s = Some (r2, s2)" "reader_ok s2" "reader_step s s2"
      using less.prems(2) [OF t(2)] unfolding returns_ok_def by blast
    have "rest_length s2 \<le> rest_length s" using f(3) by (auto simp: reader_step_def rest_length_def)
    then have "\<exists>r s. decodeFields handle out' s2 = Some (r, s)" for out'
      using less.hyps [of s2 out'] less.prems(2) f(2) lt by fastforce
    then show ?thesis
      using t(1) tag f(1) by (subst decodeFields.simps) (cases r2; simp)
  qed (use t in \<open>subst decodeFields.simps, simp\<close>)+
qed

text \<open>One turn of the loop, with \<open>loop\<close> for the turns behind it.\<close>

definition decodeTurn ::
    "('s \<Rightarrow> reader \<Rightarrow> ((wkt_error + 's) \<times> reader) option) \<Rightarrow> (tag \<Rightarrow> 's \<Rightarrow> 's decoding) \<Rightarrow> 's \<Rightarrow> 's decoding" where
  "decodeTurn loop handle out self = (case nextTag self of
       None \<Rightarrow> None
     | Some (Inl e, self) \<Rightarrow> Some (Inl (ReadFailed e), self)
     | Some (Inr None, self) \<Rightarrow> Some (Inr out, self)
     | Some (Inr (Some t), self) \<Rightarrow> (case handle t out self of
           None \<Rightarrow> None
         | Some (Inl e, self) \<Rightarrow> Some (Inl e, self)
         | Some (Inr out, self) \<Rightarrow> loop out self))"

lemma decodeTurn_cases:
  assumes "decodeTurn loop handle out self = Some r"
  obtains (error) e s where "nextTag self = Some (Inl e, s)" "r = (Inl (ReadFailed e), s)"
  | (stop) s where "nextTag self = Some (Inr None, s)" "r = (Inr out, s)"
  | (fail) t s e s' where "nextTag self = Some (Inr (Some t), s)" "handle t out s = Some (Inl e, s')" "r = (Inl e, s')"
  | (more) t s out' s' where "nextTag self = Some (Inr (Some t), s)" "handle t out s = Some (Inr out', s')" "loop out' s' = Some r"
proof (cases "nextTag self")
  case None
  then show ?thesis using assms by (simp add: decodeTurn_def)
next
  case (Some ts)
  obtain t s where ts: "ts = (t, s)" by fastforce
  consider e where "t = Inl e" | "t = Inr None" | tg where "t = Inr (Some tg)"
    by (metis sum.exhaust option.exhaust)
  then show ?thesis
  proof cases
    case (3 tg)
    show ?thesis
    proof (cases "handle tg out s")
      case (Some hr)
      then show ?thesis
        using assms \<open>nextTag self = Some ts\<close> ts 3 fail [of tg s] more [of tg s]
        by (cases hr; cases "fst hr") (simp_all add: decodeTurn_def)
    qed (use assms Some ts 3 in \<open>simp add: decodeTurn_def\<close>)
  qed (use assms Some ts error stop in \<open>simp_all add: decodeTurn_def\<close>)
qed

lemma decodeFields_turn: "decodeFields handle = decodeTurn (decodeFields handle) handle"
  by (intro ext, subst decodeFields.simps) (simp add: decodeTurn_def)

lemmas decodeFields_induct = decodeFields.raw_induct [folded decodeTurn_def, rotated 1, consumes 1, case_names step]

text \<open>A handler that answers more often makes the loop answer more often.\<close>

lemma decodeFields_mono:
  assumes "\<And>t out. op_le (handle t out) (handle' t out)" "decodeFields handle out self = Some r"
  shows "decodeFields handle' out self = Some r"
  using assms(2,1)
proof (induction rule: decodeFields_induct)
  case (step loop handle out self r)
  have le: "handle t out s = Some x \<Longrightarrow> handle' t out s = Some x" for t out s x
    by (rule op_leD [OF step(3)])
  from step(2) have "decodeTurn (decodeFields handle') handle' out self = Some r"
    by (cases rule: decodeTurn_cases) (simp_all add: decodeTurn_def le step(1,3))
  then show ?case by (subst decodeFields_turn)
qed

text \<open>What the handler keeps of the message, the loop keeps.\<close>

lemma decodeFields_keeps:
  assumes "decodeFields handle out self = Some r" "P out"
    and "\<And>t out s out' s'. P out \<Longrightarrow> handle t out s = Some (Inr out', s') \<Longrightarrow> P out'"
  shows "case fst r of Inl _ \<Rightarrow> True | Inr out' \<Rightarrow> P out'"
  using assms
proof (induction rule: decodeFields_induct)
  case (step loop handle out self r)
  from step(2) show ?case
  proof (cases rule: decodeTurn_cases)
    case (more t s out' s')
    show ?thesis by (rule step(1) [OF more(3) step(4) [OF step(3) more(2)]]) (erule (1) step(4))
  qed (use step(3) in simp_all)
qed

text \<open>A field in the sense of a message: a tag, and a value that has the shape of the field \<open>f\<close>.\<close>

definition field_bytes :: "('f \<Rightarrow> tag \<Rightarrow> bytes \<Rightarrow> bool) \<Rightarrow> 'f \<Rightarrow> bytes \<Rightarrow> bool" where
  "field_bytes shape f bs \<longleftrightarrow> (\<exists>tb vb t. bs = tb @ vb \<and> tag_bytes tb t \<and> shape f t vb)"

locale field_decoder =
  fixes handle :: "tag \<Rightarrow> 's \<Rightarrow> 's decoding"
    and shape :: "'f \<Rightarrow> tag \<Rightarrow> bytes \<Rightarrow> bool"
    and update :: "'f \<Rightarrow> 's \<Rightarrow> 's"
  assumes handle_ok: "reads_ok (handle t out)"
    and handle_field: "reader_ok self \<Longrightarrow> depth_left self = 100 \<Longrightarrow> rest_of self = vb @ rest \<Longrightarrow> shape f t vb \<Longrightarrow>
      \<exists>s. handle t out self = Some (Inr (update f out), s) \<and> index s = index self + length vb"
begin

text \<open>Decoding returns on every input.\<close>

lemma decodeFields_returns:
  assumes "reader_ok self"
  shows "\<exists>r s. decodeFields handle out self = Some (r, s)"
  by (rule decodeFields_returns_if [OF assms]) (rule returns_ok_reads [OF handle_ok])

lemma decodeFields_field:
  assumes "reader_ok self" "depth_left self = 100" "rest_of self = bs @ rest" "field_bytes shape f bs"
  obtains s where "decodeFields handle out self = decodeFields handle (update f out) s" "reader_ok s" "rest_of s = rest" "depth_left s = 100"
proof -
  obtain tb vb t where f: "bs = tb @ vb" "tag_bytes tb t" and v: "shape f t vb"
    using assms(4) unfolding field_bytes_def by blast
  obtain s1 where s1: "nextTag self = Some (Inr (Some t), s1)" "reader_ok s1" "rest_of s1 = vb @ rest" "depth_left s1 = depth_left self"
    using nextTag_at [OF assms(1) _ f(2), of "vb @ rest"] assms(3) f(1) by auto
  obtain s where s: "handle t out s1 = Some (Inr (update f out), s)" "index s = index s1 + length vb"
    using handle_field [OF s1(2) _ s1(3) v] s1(4) assms(2) by auto
  have "reader_ok s" "reader_step s1 s" using reads_okD2 [OF handle_ok s1(2) s(1)] by simp_all
  moreover have "rest_of s = rest"
    using s1(3) s(2) \<open>reader_step s1 s\<close> by (simp add: reader_step_def rest_of_def add.commute flip: drop_drop)
  moreover have "decodeFields handle out self = decodeFields handle (update f out) s"
    using s1(1) s(1) by (subst decodeFields.simps) simp
  ultimately show ?thesis
    using that s1(4) assms(2) by (auto simp: reader_step_def depth_left_def)
qed

lemma decodeFields_from:
  assumes "list_all2 (field_bytes shape) fs bss" "reader_ok self" "depth_left self = 100" "rest_of self = concat bss"
  shows "\<exists>s. decodeFields handle out self = Some (Inr (fold update fs out), s)"
  using assms
proof (induction fs arbitrary: bss self out)
  case Nil
  then show ?case using decodeFields_end [of self handle out] by auto
next
  case (Cons f fs)
  then obtain b bs where b: "bss = b # bs" "field_bytes shape f b" "list_all2 (field_bytes shape) fs bs" by (cases bss) auto
  then have "rest_of self = b @ concat bs" using Cons.prems(4) by simp
  from decodeFields_field [OF Cons.prems(2,3) this b(2)] obtain s where
    "decodeFields handle out self = decodeFields handle (update f out) s" "reader_ok s" "rest_of s = concat bs" "depth_left s = 100" by blast
  then show ?case using Cons.IH [OF b(3), of s] by simp
qed

text \<open>A message that is a sequence of such fields is decoded by updating the state once per field, in order.\<close>

lemma decodeMessage_fields:
  assumes "list_all2 (field_bytes shape) fs bss"
  shows "decodeMessage handle out (concat bss) = Some (Inr (fold update fs out))"
  using decodeFields_from [OF assms reader_ok_init depth_left_init, of "concat bss" out] by (auto simp: decodeMessage_def rest_of_def reader_init_def)

lemma decodeMessage_returns:
  obtains e where "decodeMessage handle out bs = Some (Inl e)" | out' where "decodeMessage handle out bs = Some (Inr out')"
  using decodeFields_returns [OF reader_ok_init, of out bs] unfolding decodeMessage_def
  by (metis fst_conv option.simps(9) sum.exhaust)

end

text \<open>An unknown field has a value of the wire grammar, which \<open>skipValue\<close> passes over.\<close>

lemma skip_field:
  assumes "reader_ok self" "depth_left self = 100" "rest_of self = vb @ rest" "value_bytes 100 t vb"
  shows "\<exists>s. tryIn (liftRead (skipValue t)) (\<lambda>_. return out) self = Some (Inr out, s) \<and> index s = index self + length vb"
proof -
  have "skips (skipValue t) self vb" using assms by (simp add: skips_iff_value_bytes)
  then show ?thesis unfolding skips_def by (auto simp: tryIn_def)
qed

end
