(* ===== verification/Wkt_Fields.thy ===== *)
theory Wkt_Fields
  imports Wkt_Decode
begin

text \<open>
  What the messages of \<open>src/wkt.zig\<close> share when they decode a field: the check of its strings,
  reading a scalar or a nested message after the wire type was checked, and the laws a
  decoder needs to be called from within another one.
\<close>

section \<open>Strings, scalars and nested messages\<close>

text \<open>\<open>std.unicode.utf8ValidateSlice\<close>: shortest encodings of the code points up to 10FFFF that are no surrogates.\<close>

definition utf8Continues :: "byte \<Rightarrow> bool" where
  "utf8Continues b \<longleftrightarrow> 0x80 \<le> b \<and> b \<le> 0xBF"

fun utf8ValidateSlice :: "bytes \<Rightarrow> bool" where
  "utf8ValidateSlice [] = True"
| "utf8ValidateSlice (b # bs) =
     (if b < 0x80 then utf8ValidateSlice bs
      else if 0xC2 \<le> b \<and> b \<le> 0xDF then (case bs of
          b1 # bs \<Rightarrow> utf8Continues b1 \<and> utf8ValidateSlice bs
        | _ \<Rightarrow> False)
      else if 0xE0 \<le> b \<and> b \<le> 0xEF then (case bs of
          b1 # b2 # bs \<Rightarrow> utf8Continues b1 \<and> utf8Continues b2 \<and> (b = 0xE0 \<longrightarrow> 0xA0 \<le> b1) \<and> (b = 0xED \<longrightarrow> b1 \<le> 0x9F) \<and>
            utf8ValidateSlice bs
        | _ \<Rightarrow> False)
      else if 0xF0 \<le> b \<and> b \<le> 0xF4 then (case bs of
          b1 # b2 # b3 # bs \<Rightarrow> utf8Continues b1 \<and> utf8Continues b2 \<and> utf8Continues b3 \<and>
            (b = 0xF0 \<longrightarrow> 0x90 \<le> b1) \<and> (b = 0xF4 \<longrightarrow> b1 \<le> 0x8F) \<and> utf8ValidateSlice bs
        | _ \<Rightarrow> False)
      else False)"

definition ensureUtf8 :: "bytes \<Rightarrow> wkt_error + unit" where
  "ensureUtf8 s = (if \<not> utf8ValidateSlice s then Inl InvalidUtf8 else Inr ())"

text \<open>A field that holds a message: its bytes are decoded by a reader of their own.\<close>

definition readMessage :: "(bytes \<Rightarrow> (wkt_error + 'a) option) \<Rightarrow> tag \<Rightarrow> 'a decoding" where
  "readMessage decode t =
     tryIn (liftRead (liftSum (expectWireType t LengthDelimited))) (\<lambda>_.
     tryIn (liftRead readBytes) (\<lambda>bs self. map_option (\<lambda>r. (r, self)) (decode bs)))"

definition readScalar :: "wire_type \<Rightarrow> 'a reading \<Rightarrow> tag \<Rightarrow> 'a decoding" where
  "readScalar wt m t = tryIn (liftRead (liftSum (expectWireType t wt))) (\<lambda>_. liftRead m)"

section \<open>Decoders inside decoders\<close>

text \<open>More fuel only answers more, and more input than fuel is all that keeps a decoder from answering.\<close>

definition decoder_le :: "(bytes \<Rightarrow> (wkt_error + 'a) option) \<Rightarrow> (bytes \<Rightarrow> (wkt_error + 'a) option) \<Rightarrow> bool" where
  "decoder_le d d' \<longleftrightarrow> (\<forall>bs r. d bs = Some r \<longrightarrow> d' bs = Some r)"

definition answers_below :: "nat \<Rightarrow> (bytes \<Rightarrow> (wkt_error + 'a) option) \<Rightarrow> bool" where
  "answers_below n d \<longleftrightarrow> (\<forall>bs. length bs < n \<longrightarrow> d bs \<noteq> None)"

lemma op_le_readMessage [op_mono]: "decoder_le d d' \<Longrightarrow> op_le (readMessage d t) (readMessage d' t)"
  unfolding readMessage_def by (intro op_mono) (auto simp: op_le_def decoder_le_def)

lemma decodeMessage_mono:
  assumes "\<And>t out. op_le (h t out) (h' t out)"
  shows "decoder_le (decodeMessage h out) (decodeMessage h' out)"
  using decodeFields_mono [OF assms] unfolding decoder_le_def decodeMessage_def by fastforce

lemma length_delimited_bytes: "delimited_bytes vb p \<Longrightarrow> length p \<le> length vb"
  by (auto simp: delimited_bytes_def)

lemma readBytes_length:
  assumes "reader_ok self" "readBytes self = Some (Inr p, s)"
  shows "length p \<le> rest_length self"
proof -
  obtain vb rest where "rest_of self = vb @ rest" "delimited_bytes vb p"
    using assms by (auto simp: readBytes_iff)
  then have "length p \<le> length (rest_of self)" using length_delimited_bytes by fastforce
  then show ?thesis by (simp add: rest_of_def rest_length_def)
qed

lemma returns_readMessage:
  assumes "reader_ok self" "answers_below (Suc (rest_length self)) d"
  shows "returns_ok (readMessage d t self) self"
  unfolding readMessage_def
proof (rule returns_ok_tryIn)
  show "returns_ok (liftRead (liftSum (expectWireType t LengthDelimited)) self) self"
    using assms(1) by (intro returns_ok_reads reads_ok_liftRead) (simp_all add: reads_ok_def)
next
  fix u s
  assume "liftRead (liftSum (expectWireType t LengthDelimited)) self = Some (Inr u, s)"
  then have s: "s = self" by (simp add: liftRead_Some)
  show "returns_ok (tryIn (liftRead readBytes) (\<lambda>bs self. map_option (\<lambda>r. (r, self)) (d bs)) s) s"
  proof (rule returns_ok_tryIn)
    show "returns_ok (liftRead readBytes s) s" using assms(1) s by (intro returns_ok_reads reading) simp_all
  next
    fix p s'
    assume "liftRead readBytes s = Some (Inr p, s')" "reader_ok s'"
    then have "length p \<le> rest_length self" using readBytes_length assms(1) s by (simp add: liftRead_Some)
    then have "d p \<noteq> None" using assms(2) by (simp add: answers_below_def)
    then show "returns_ok (map_option (\<lambda>r. (r, s')) (d p)) s'" using \<open>reader_ok s'\<close> by (auto simp: returns_ok_def)
  qed
qed

lemma returns_readScalar: "reads_ok m \<Longrightarrow> reader_ok self \<Longrightarrow> returns_ok (readScalar wt m t self) self"
  unfolding readScalar_def by (intro returns_ok_reads reading) (simp_all add: reads_ok_def)

lemma reads_ok_readScalar [reading]: "reads_ok m \<Longrightarrow> reads_ok (readScalar wt m t)"
  unfolding readScalar_def by (intro reading) (simp_all add: reads_ok_def)

lemma decodeMessage_answers:
  assumes "\<And>t out s. reader_ok s \<Longrightarrow> rest_length s < length bs \<Longrightarrow> returns_ok (h t out s) s"
  shows "decodeMessage h out bs \<noteq> None"
  using decodeFields_returns_if [OF reader_ok_init, of bs h out] assms
  by (auto simp: decodeMessage_def rest_length_def reader_init_def)

lemma answers_below_le: "answers_below n d \<Longrightarrow> m \<le> n \<Longrightarrow> answers_below m d"
  by (simp add: answers_below_def)

lemma decodeMessage_keeps:
  assumes "decodeMessage h out bs = Some (Inr out')" "P out"
    and "\<And>t out s out' s'. P out \<Longrightarrow> h t out s = Some (Inr out', s') \<Longrightarrow> P out'"
  shows "P out'"
proof -
  obtain s where "decodeFields h out (reader_init bs) = Some (Inr out', s)"
    using assms(1) by (auto simp: decodeMessage_def)
  from decodeFields_keeps [where P = P, OF this assms(2) assms(3)] show ?thesis by simp
qed

lemma tryIn_liftSum_Inr:
  "tryIn (liftSum r) f s = Some (Inr x, s') \<longleftrightarrow> (\<exists>y. r = Inr y \<and> f y s = Some (Inr x, s'))"
  by (cases r) (simp_all add: tryIn_def)

lemma readMessage_Inr: "readMessage d t s = Some (Inr x, s') \<Longrightarrow> \<exists>bs. d bs = Some (Inr x)"
  by (auto simp: readMessage_def tryIn_Some)

lemma ensureUtf8_Inr [simp]: "ensureUtf8 s = Inr u \<longleftrightarrow> utf8ValidateSlice s"
  by (simp add: ensureUtf8_def)

section \<open>Reading the field that is there\<close>

lemma readScalar_at: "m self = Some (Inr x, s) \<Longrightarrow> tag_type t = wt \<Longrightarrow> readScalar wt m t self = Some (Inr x, s)"
  by (simp add: readScalar_def expectWireType_def tryIn_apply liftRead_def)

lemma readScalar_varint:
  assumes "reader_ok self" "rest_of self = vb @ rest" "varint_bytes vb (unat (w :: u64))" "tag_type t = Varint"
  shows "readScalar Varint readInt32 t self = Some (Inr (ucast w), self\<lparr>index := index self + length vb\<rparr>)"
    and "readScalar Varint readBool t self = Some (Inr (w \<noteq> 0), self\<lparr>index := index self + length vb\<rparr>)"
    and "readScalar Varint readInt64 t self = Some (Inr w, self\<lparr>index := index self + length vb\<rparr>)"
    and "readScalar Varint readUInt64 t self = Some (Inr w, self\<lparr>index := index self + length vb\<rparr>)"
    and "readScalar Varint readUInt32 t self = Some (Inr (ucast w), self\<lparr>index := index self + length vb\<rparr>)"
proof -
  have "readVarint self = Some (Inr w, self\<lparr>index := index self + length vb\<rparr>)"
    using assms(2,3) by (subst readVarint_iff [OF assms(1)]) auto
  then show "readScalar Varint readInt32 t self = Some (Inr (ucast w), self\<lparr>index := index self + length vb\<rparr>)"
    "readScalar Varint readBool t self = Some (Inr (w \<noteq> 0), self\<lparr>index := index self + length vb\<rparr>)"
    "readScalar Varint readInt64 t self = Some (Inr w, self\<lparr>index := index self + length vb\<rparr>)"
    "readScalar Varint readUInt64 t self = Some (Inr w, self\<lparr>index := index self + length vb\<rparr>)"
    "readScalar Varint readUInt32 t self = Some (Inr (ucast w), self\<lparr>index := index self + length vb\<rparr>)"
    using assms(4)
    by (intro readScalar_at; simp add: readInt32_def readBool_def readInt64_def readUInt64_def readUInt32_def tryIn_apply)+
qed

lemma readScalar_bytes:
  assumes "reader_ok self" "rest_of self = vb @ rest" "delimited_bytes vb p" "tag_type t = LengthDelimited"
  shows "readScalar LengthDelimited readBytes t self = Some (Inr p, self\<lparr>index := index self + length vb\<rparr>)"
  using assms by (intro readScalar_at) (auto simp: readBytes_iff)

lemma readMessage_at:
  assumes "reader_ok self" "rest_of self = vb @ rest" "delimited_bytes vb p" "tag_type t = LengthDelimited" "d p = Some (Inr x)"
  shows "readMessage d t self = Some (Inr x, self\<lparr>index := index self + length vb\<rparr>)"
  using readScalar_bytes [OF assms(1-4)] assms(5)
  by (auto simp: readMessage_def readScalar_def tryIn_def split: option.splits sum.splits)

text \<open>What a field of each message can look like, and what it contributes.\<close>

definition message_bytes :: "(bytes \<Rightarrow> (wkt_error + 'a) option) \<Rightarrow> field_number \<Rightarrow> 'a \<Rightarrow> tag \<Rightarrow> bytes \<Rightarrow> bool" where
  "message_bytes d num x t vb \<longleftrightarrow> t = \<lparr>number = num, tag_type = LengthDelimited\<rparr> \<and> (\<exists>p. delimited_bytes vb p \<and> d p = Some (Inr x))"

lemma message_bytes_number: "message_bytes d num x t vb \<Longrightarrow> number t = num"
  by (simp add: message_bytes_def)

lemma readMessage_field:
  assumes "reader_ok self" "rest_of self = vb @ rest" "message_bytes d num x t vb"
  shows "readMessage d t self = Some (Inr x, self\<lparr>index := index self + length vb\<rparr>)"
proof -
  obtain p where "delimited_bytes vb p" "d p = Some (Inr x)" "tag_type t = LengthDelimited"
    using assms(3) unfolding message_bytes_def by auto
  then show ?thesis by (intro readMessage_at [OF assms(1,2)])
qed

lemma reads_ok_returns: "(\<And>self. reader_ok self \<Longrightarrow> returns_ok (m self) self) \<Longrightarrow> reads_ok m"
  by (rule reads_okI) (simp add: returns_ok_def)

lemma tag_bytes_of_enc: "num \<noteq> 0 \<Longrightarrow> tag_bytes (tag_enc num wt) \<lparr>number = num, tag_type = wt\<rparr>"
  using tag_bytes_enc [of "\<lparr>number = num, tag_type = wt\<rparr>"] by (simp add: tag_enc_def)

lemma field_bytes_of_enc:
  assumes "num \<noteq> 0" "shape f \<lparr>number = num, tag_type = wt\<rparr> vb"
  shows "field_bytes shape f (tag_enc num wt @ vb)"
  using tag_bytes_of_enc [OF assms(1), of wt] assms(2) unfolding field_bytes_def by blast

lemma message_bytes_enc:
  assumes "fits_usize bs" "d bs = Some (Inr x)"
  shows "message_bytes d num x \<lparr>number = num, tag_type = LengthDelimited\<rparr> (delimited_enc bs)"
  using assms delimited_bytes_enc by (auto simp: message_bytes_def)

text \<open>The fields of a message that are known, and what the loops make of them.\<close>

definition known :: "'f option list \<Rightarrow> 'f list" where
  "known es = map the (filter (\<lambda>f. f \<noteq> None) es)"

lemma known_simps [simp]: "known [] = []" "known (None # es) = known es" "known (Some x # es) = x # known es"
  by (simp_all add: known_def)

text \<open>A field that holds the whole message, or is not known.\<close>

definition set_last :: "'a option \<Rightarrow> 'a \<Rightarrow> 'a" where
  "set_last f out = (case f of None \<Rightarrow> out | Some v \<Rightarrow> v)"

lemma fold_set_last: "fold set_last es out = last (out # known es)"
proof (induction es arbitrary: out)
  case (Cons f es)
  then show ?case by (cases f) (simp_all add: set_last_def)
qed simp

end
