(* ===== verification/Wkt_Encode.thy ===== *)
theory Wkt_Encode
  imports Wkt_Fields
begin

text \<open>
  How the messages of \<open>src/wkt.zig\<close> encode: a new \<open>Writer\<close> per message, calls between writers that
  share one allocator, and the slice that is returned at the end. \<open>outputs\<close> and \<open>encodes\<close> say
  what comes out for every behaviour of the allocator, and are closed under the composition
  the code uses.
\<close>

section \<open>Writers and allocators\<close>

type_synonym 'a encoding = "(alloc, wkt_error, 'a) op"

definition liftWrite :: "'a writing \<Rightarrow> (writer, wkt_error, 'a) op" where
  "liftWrite m = (\<lambda>self. case m self of
       None \<Rightarrow> None
     | Some (Inl e, self) \<Rightarrow> Some (Inl (WriteFailed e), self)
     | Some (Inr x, self) \<Rightarrow> Some (Inr x, self))"

text \<open>A call that takes the allocator of the writer, and a new writer with an allocator, whose memory is freed at the end.\<close>

definition withAllocator :: "'a encoding \<Rightarrow> (writer, wkt_error, 'a) op" where
  "withAllocator m = (\<lambda>self. case m (allocator self) of
       None \<Rightarrow> None
     | Some (r, al) \<Rightarrow> Some (r, self\<lparr>allocator := al\<rparr>))"

definition inNewWriter :: "(writer, wkt_error, 'a) op \<Rightarrow> 'a encoding" where
  "inNewWriter m = (\<lambda>al. case m (writer_init al) of
       None \<Rightarrow> None
     | Some (r, self) \<Rightarrow> Some (r, allocator self))"

definition encodeMessage :: "(writer, wkt_error, unit) op \<Rightarrow> bytes encoding" where
  "encodeMessage m = inNewWriter (tryIn m (\<lambda>_. liftWrite toOwnedSlice))"

text \<open>\<open>for (items) |item| try f(item)\<close>.\<close>

fun forEach :: "('x \<Rightarrow> ('s, 'e, unit) op) \<Rightarrow> 'x list \<Rightarrow> ('s, 'e, unit) op" where
  "forEach f [] = return ()"
| "forEach f (x # xs) = tryIn (f x) (\<lambda>_. forEach f xs)"

lemma forEach_cong [fundef_cong]: "xs = ys \<Longrightarrow> (\<And>x. x \<in> set ys \<Longrightarrow> f x = g x) \<Longrightarrow> forEach f xs = forEach g ys"
  by (induction xs arbitrary: ys) auto

section \<open>The bytes of a field\<close>

definition delimited_field :: "field_number \<Rightarrow> bytes \<Rightarrow> bytes" where
  "delimited_field num bs = tag_enc num LengthDelimited @ delimited_enc bs"

lemma fits_le: "fits_usize bs \<Longrightarrow> length bs' \<le> length bs \<Longrightarrow> fits_usize bs'"
  by (simp add: fits_usize_def)

lemma fits_delimited_field: "fits_usize (delimited_field num bs) \<Longrightarrow> fits_usize bs"
  by (erule fits_le) (simp add: delimited_field_def delimited_enc_def)

lemma fits_append: "fits_usize (xs @ ys) \<Longrightarrow> fits_usize xs \<and> fits_usize ys"
  by (simp add: fits_usize_def)

lemma fits_concat: "fits_usize (concat bss) \<Longrightarrow> bs \<in> set bss \<Longrightarrow> fits_usize bs"
  by (induction bss) (auto dest: fits_append)

section \<open>What encoding returns\<close>

text \<open>
  \<open>outputs ok m bs\<close>: on every writer \<open>m\<close> returns; it has appended \<open>bs\<close>, or the allocator has
  refused, or, when \<open>ok\<close> does not hold, it reports an invalid number or string, and when \<open>ok\<close>
  does not hold it never succeeds. \<open>encodes\<close> is the same for a function with a writer of its own.
\<close>

definition failed :: "bool \<Rightarrow> wkt_error \<Rightarrow> bool" where
  "failed ok e \<longleftrightarrow> e = WriteFailed OutOfMemory \<or> \<not> ok \<and> (e = InvalidNumber \<or> e = InvalidUtf8)"

definition outputs :: "bool \<Rightarrow> (writer, wkt_error, unit) op \<Rightarrow> bytes \<Rightarrow> bool" where
  "outputs ok m bs \<longleftrightarrow> (\<forall>self. writer_ok self \<longrightarrow> (\<exists>r s. m self = Some (r, s) \<and> writer_ok s \<and>
     (case r of Inr _ \<Rightarrow> ok \<and> writer_slice s = writer_slice self @ bs | Inl e \<Rightarrow> failed ok e)))"

definition encodes :: "bool \<Rightarrow> 'a encoding \<Rightarrow> 'a \<Rightarrow> bool" where
  "encodes ok m x \<longleftrightarrow> (\<forall>al. \<exists>r al'. m al = Some (r, al') \<and> (case r of Inr y \<Rightarrow> ok \<and> y = x | Inl e \<Rightarrow> failed ok e))"

lemma outputsE:
  assumes "outputs ok m bs" "writer_ok self"
  obtains (ok) s where "m self = Some (Inr (), s)" "writer_ok s" "ok" "writer_slice s = writer_slice self @ bs"
  | (error) e s where "m self = Some (Inl e, s)" "writer_ok s" "failed ok e"
proof -
  obtain r s where "m self = Some (r, s)" "writer_ok s"
    "case r of Inr _ \<Rightarrow> ok \<and> writer_slice s = writer_slice self @ bs | Inl e \<Rightarrow> failed ok e"
    using assms unfolding outputs_def by blast
  then show ?thesis by (cases r) (auto intro: that)
qed

lemma encodesE:
  assumes "encodes ok m x"
  obtains (ok) al' where "m al = Some (Inr x, al')" "ok" | (error) e al' where "m al = Some (Inl e, al')" "failed ok e"
proof -
  obtain r al' where "m al = Some (r, al')" "case r of Inr y \<Rightarrow> ok \<and> y = x | Inl e \<Rightarrow> failed ok e"
    using assms unfolding encodes_def by blast
  then show ?thesis by (cases r) (auto intro: that)
qed

lemma failed_conj: "failed ok e \<Longrightarrow> failed (ok \<and> ok') e" "failed ok' e \<Longrightarrow> failed (ok \<and> ok') e"
  by (auto simp: failed_def)

named_theorems outputting \<comment> \<open>composition of \<open>outputs\<close> and \<open>encodes\<close>\<close>

lemma outputs_liftWrite: "appends m bs \<Longrightarrow> outputs True (liftWrite m) bs"
  unfolding outputs_def by (intro allI impI, erule (1) appendsE) (simp_all add: liftWrite_def failed_def)

lemma outputs_return [outputting]: "outputs True (return ()) []"
  by (simp add: outputs_def)

lemma outputs_throw: "outputs False (throw InvalidNumber) bs"
  by (simp add: outputs_def failed_def)

lemma outputs_tryIn [outputting]:
  assumes "outputs ok m xs" "outputs ok' n ys"
  shows "outputs (ok \<and> ok') (tryIn m (\<lambda>_. n)) (xs @ ys)"
  unfolding outputs_def
proof (intro allI impI)
  fix self :: writer
  assume "writer_ok self"
  with assms(1) show "\<exists>r s. tryIn m (\<lambda>_. n) self = Some (r, s) \<and> writer_ok s \<and>
      (case r of Inr _ \<Rightarrow> (ok \<and> ok') \<and> writer_slice s = writer_slice self @ xs @ ys | Inl e \<Rightarrow> failed (ok \<and> ok') e)"
  proof (cases rule: outputsE)
    case (ok s)
    from assms(2) ok(2) show ?thesis
      by (cases rule: outputsE) (use ok in \<open>auto simp: tryIn_def failed_conj\<close>)
  qed (auto simp: tryIn_def failed_conj)
qed

lemma outputs_ensureUtf8 [outputting]:
  "outputs ok m bs \<Longrightarrow> outputs (utf8ValidateSlice key \<and> ok) (tryIn (liftSum (ensureUtf8 key)) (\<lambda>_. m)) bs"
  by (cases "utf8ValidateSlice key") (simp_all add: outputs_def tryIn_apply ensureUtf8_def failed_def)

lemma outputs_withAllocator [outputting]:
  assumes "encodes ok m x" "outputs ok' (k x) bs"
  shows "outputs (ok \<and> ok') (tryIn (withAllocator m) k) bs"
  unfolding outputs_def
proof (intro allI impI)
  fix self :: writer
  assume w: "writer_ok self"
  from assms(1) show "\<exists>r s. tryIn (withAllocator m) k self = Some (r, s) \<and> writer_ok s \<and>
      (case r of Inr _ \<Rightarrow> (ok \<and> ok') \<and> writer_slice s = writer_slice self @ bs | Inl e \<Rightarrow> failed (ok \<and> ok') e)"
  proof (cases rule: encodesE [where al = "allocator self"])
    case (ok al)
    have s: "writer_ok (self\<lparr>allocator := al\<rparr>)" "writer_slice (self\<lparr>allocator := al\<rparr>) = writer_slice self"
      using w by (simp_all add: writer_ok_def writer_slice_def)
    from assms(2) s(1) show ?thesis
      by (cases rule: outputsE) (use ok s in \<open>auto simp: tryIn_def withAllocator_def failed_conj\<close>)
  qed (use w in \<open>auto simp: tryIn_def withAllocator_def failed_conj writer_ok_def\<close>)
qed

lemma encodes_inNewWriter:
  assumes "outputs ok m bs"
    and "\<And>s. writer_ok s \<Longrightarrow> writer_slice s = bs \<Longrightarrow> \<exists>r s'. final s = Some (r, s') \<and> (case r of Inr y \<Rightarrow> y = x | Inl e \<Rightarrow> e = WriteFailed OutOfMemory)"
  shows "encodes ok (inNewWriter (tryIn m (\<lambda>_. final))) x"
  unfolding encodes_def
proof
  fix al
  have "writer_slice (writer_init al) = []" by (simp add: empty_writer)
  from assms(1) empty_writer(1) [of al]
  show "\<exists>r al'. inNewWriter (tryIn m (\<lambda>_. final)) al = Some (r, al') \<and> (case r of Inr y \<Rightarrow> ok \<and> y = x | Inl e \<Rightarrow> failed ok e)"
  proof (cases rule: outputsE)
    case (ok s)
    then obtain r s' where "final s = Some (r, s')" "case r of Inr y \<Rightarrow> y = x | Inl e \<Rightarrow> e = WriteFailed OutOfMemory"
      using assms(2) [of s] by (auto simp: empty_writer)
    then show ?thesis using ok by (cases r) (auto simp: inNewWriter_def tryIn_def failed_def)
  qed (simp add: inNewWriter_def tryIn_def)
qed

lemma encodes_encodeMessage [outputting]: "outputs ok m bs \<Longrightarrow> encodes ok (encodeMessage m) bs"
  unfolding encodeMessage_def
  by (erule encodes_inNewWriter)
    (auto simp: liftWrite_def toOwnedSlice_def request_def writer_slice_def writer_ok_def split: option.splits)

lemma outputs_forEach [outputting]:
  "(\<And>x. x \<in> set xs \<Longrightarrow> outputs (ok x) (f x) (g x)) \<Longrightarrow> outputs (list_all ok xs) (forEach f xs) (concat (map g xs))"
proof (induction xs)
  case (Cons x xs)
  then show ?case using outputs_tryIn [of "ok x" "f x" "g x" "list_all ok xs"] by simp
qed (simp add: outputs_return)

lemma outputs_writers:
  "fits_usize bs \<Longrightarrow> num \<noteq> 0 \<Longrightarrow> outputs True (liftWrite (writeMessage num bs)) (delimited_field num bs)"
  "fits_usize bs \<Longrightarrow> num \<noteq> 0 \<Longrightarrow> outputs True (liftWrite (writeString num bs)) (delimited_field num bs)"
  unfolding delimited_field_def by (intro outputs_liftWrite submessage.writes_appends string.writes_appends; assumption)+

lemma encodes_True: "encodes (ok \<and> True) m x \<Longrightarrow> encodes ok m x"
  by simp

text \<open>
  \<open>encoded_result m decode x ok\<close>: with any allocator, \<open>m\<close> returns bytes that decode to \<open>x\<close>, or
  reports that memory was refused; when \<open>ok\<close> does not hold, it rejects the value instead.
\<close>

definition encoded_result :: "(alloc, wkt_error, bytes) op \<Rightarrow> (bytes \<Rightarrow> (wkt_error + 'a) option) \<Rightarrow> 'a \<Rightarrow> bool \<Rightarrow> bool" where
  "encoded_result m decode x ok \<longleftrightarrow> (\<forall>al. \<exists>r al'. m al = Some (r, al') \<and>
     (r = Inl (WriteFailed OutOfMemory) \<or>
      (if ok then \<exists>bs. r = Inr bs \<and> decode bs = Some (Inr x) else r = Inl InvalidNumber \<or> r = Inl InvalidUtf8)))"

lemma encoded_resultI:
  assumes "encodes ok m bs" "ok \<Longrightarrow> decode bs = Some (Inr x)"
  shows "encoded_result m decode x ok"
  unfolding encoded_result_def
proof
  fix al
  from assms(1) show "\<exists>r al'. m al = Some (r, al') \<and> (r = Inl (WriteFailed OutOfMemory) \<or>
      (if ok then \<exists>bs. r = Inr bs \<and> decode bs = Some (Inr x) else r = Inl InvalidNumber \<or> r = Inl InvalidUtf8))"
    by (cases rule: encodesE [where al = al]) (use assms(2) in \<open>auto simp: failed_def\<close>)
qed

end
