(* ===== verification/Wkt_Time.thy ===== *)
theory Wkt_Time
  imports Wkt_Calendar Wkt_Text Wkt_Encode
begin

text \<open>
  The messages \<open>Timestamp\<close> and \<open>Duration\<close> of \<open>src/wkt.zig\<close>: a count of seconds and a count of
  nanoseconds, their validation, their encoding on the wire with the \<open>Writer\<close> and the
  \<open>Reader\<close>, and their JSON strings. The two structs have the same fields and the same text
  for \<open>encode\<close> and \<open>decode\<close>, which are written once here and take \<open>validate\<close> as an argument.
  The output a JSON string is written to never fails.
\<close>

section \<open>Values, errors, validation\<close>

record SecondsNanos =
  seconds :: i64
  nanos :: i32

type_synonym Timestamp = SecondsNanos
type_synonym Duration = SecondsNanos

definition Timestamp_validate :: "Timestamp \<Rightarrow> wkt_error + unit" where
  "Timestamp_validate self =
     (if sint (seconds self) < -62135596800 \<or> sint (seconds self) > 253402300799 then Inl TimestampOutOfRange
      else if sint (nanos self) < 0 \<or> sint (nanos self) > 999999999 then Inl InvalidNanos
      else Inr ())"

definition Duration_validate :: "Duration \<Rightarrow> wkt_error + unit" where
  "Duration_validate self =
     (if sint (seconds self) < -315576000000 \<or> sint (seconds self) > 315576000000 then Inl DurationOutOfRange
      else if sint (nanos self) \<le> -1000000000 \<or> sint (nanos self) \<ge> 1000000000 then Inl InvalidNanos
      else if sint (seconds self) < 0 \<and> sint (nanos self) > 0 \<or> sint (seconds self) > 0 \<and> sint (nanos self) < 0
      then Inl DurationSignMismatch
      else Inr ())"

section \<open>The wire format\<close>

definition writeSecondsNanos :: "SecondsNanos \<Rightarrow> unit writing" where
  "writeSecondsNanos self =
     tryIn (if seconds self \<noteq> 0 then writeInt64 1 (seconds self) else return ()) (\<lambda>_.
     if nanos self \<noteq> 0 then writeInt32 2 (nanos self) else return ())"

definition encodeTime :: "(SecondsNanos \<Rightarrow> wkt_error + unit) \<Rightarrow> SecondsNanos \<Rightarrow> bytes encoding" where
  "encodeTime validate self = tryIn (liftSum (validate self)) (\<lambda>_. encodeMessage (liftWrite (writeSecondsNanos self)))"

text \<open>One turn of the loop over the fields: a known field is stored, over an earlier one, and an unknown one is skipped.\<close>

definition decodeTimeField :: "tag \<Rightarrow> SecondsNanos \<Rightarrow> SecondsNanos decoding" where
  "decodeTimeField t out =
     (if number t = 1 then tryIn (liftRead (liftSum (expectWireType t Varint))) (\<lambda>_. tryIn (liftRead readInt64) (\<lambda>v. return (out\<lparr>seconds := v\<rparr>)))
      else if number t = 2 then tryIn (liftRead (liftSum (expectWireType t Varint))) (\<lambda>_. tryIn (liftRead readInt32) (\<lambda>v. return (out\<lparr>nanos := v\<rparr>)))
      else tryIn (liftRead (skipValue t)) (\<lambda>_. return out))"

definition decodeTime :: "(SecondsNanos \<Rightarrow> wkt_error + unit) \<Rightarrow> bytes \<Rightarrow> (wkt_error, SecondsNanos) outcome" where
  "decodeTime validate bs = trying (decodeMessage decodeTimeField \<lparr>seconds = 0, nanos = 0\<rparr> bs) (\<lambda>out.
     trying (Some (validate out)) (\<lambda>_. Some (Inr out)))"

definition Timestamp_encode :: "Timestamp \<Rightarrow> bytes encoding" where
  "Timestamp_encode = encodeTime Timestamp_validate"

definition Timestamp_decode :: "bytes \<Rightarrow> (wkt_error, Timestamp) outcome" where
  "Timestamp_decode = decodeTime Timestamp_validate"

definition Duration_encode :: "Duration \<Rightarrow> bytes encoding" where
  "Duration_encode = encodeTime Duration_validate"

definition Duration_decode :: "bytes \<Rightarrow> (wkt_error, Duration) outcome" where
  "Duration_decode = decodeTime Duration_validate"

section \<open>JSON strings of timestamps\<close>

definition printDateTime :: "nat \<Rightarrow> nat \<Rightarrow> nat \<Rightarrow> nat \<Rightarrow> nat \<Rightarrow> nat \<Rightarrow> string" where
  "printDateTime year month day hour minute second =
     printPadded 4 year @ ''-'' @ printPadded 2 month @ ''-'' @ printPadded 2 day @ ''T'' @
     printPadded 2 hour @ '':'' @ printPadded 2 minute @ '':'' @ printPadded 2 second"

definition Timestamp_jsonStringify :: "Timestamp \<Rightarrow> (wkt_error, string) outcome" where
  "Timestamp_jsonStringify self = trying (Some (Timestamp_validate self)) (\<lambda>_.
     let days = sint (seconds self) div 86400;
         seconds_of_day = nat (sint (seconds self) mod 86400) in
     case civilFromDays days of
       None \<Rightarrow> None
     | Some date \<Rightarrow>
         if date_year date < 0 then None
         else Some (Inr (CHR 0x22 #
           printDateTime (nat (date_year date)) (nat (date_month date)) (nat (date_day date))
             (seconds_of_day div 3600) (seconds_of_day mod 3600 div 60) (seconds_of_day mod 60) @
           (if sint (nanos self) \<noteq> 0 then writeCanonicalFraction (nat (sint (nanos self))) else []) @
           ''Z'' @ [CHR 0x22])))"

text \<open>The days and the seconds of the day that the first nineteen bytes stand for.\<close>

definition parseDateTime :: "string \<Rightarrow> (wkt_error, int) outcome" where
  "parseDateTime unquoted =
     trying (rejectIf (length unquoted < 20 \<or> unquoted ! 4 \<noteq> CHR ''-'' \<or> unquoted ! 7 \<noteq> CHR ''-'' \<or> unquoted ! 10 \<noteq> CHR ''T'' \<or>
        unquoted ! 13 \<noteq> CHR '':'' \<or> unquoted ! 16 \<noteq> CHR '':'') InvalidTimestamp) (\<lambda>_.
     trying (orError InvalidTimestamp (parseInt (fits 32) (subslice 0 4 unquoted) 10)) (\<lambda>year.
     trying (orError InvalidTimestamp (parseInt (fits_unsigned 8) (subslice 5 7 unquoted) 10)) (\<lambda>month.
     trying (orError InvalidTimestamp (parseInt (fits_unsigned 8) (subslice 8 10 unquoted) 10)) (\<lambda>day.
     trying (orError InvalidTimestamp (parseInt (fits_unsigned 8) (subslice 11 13 unquoted) 10)) (\<lambda>hour.
     trying (orError InvalidTimestamp (parseInt (fits_unsigned 8) (subslice 14 16 unquoted) 10)) (\<lambda>minute.
     trying (orError InvalidTimestamp (parseInt (fits_unsigned 8) (subslice 17 19 unquoted) 10)) (\<lambda>second.
     trying (rejectIf (month < 1 \<or> month > 12 \<or> hour > 23 \<or> minute > 59 \<or> second > 59) InvalidTimestamp) (\<lambda>_.
     case daysFromCivil year month day of
       None \<Rightarrow> None
     | Some days \<Rightarrow> (case civilFromDays days of
           None \<Rightarrow> None
         | Some normalized \<Rightarrow>
             trying (rejectIf (date_year normalized \<noteq> year \<or> date_month normalized \<noteq> month \<or> date_day normalized \<noteq> day) InvalidTimestamp)
               (\<lambda>_. Some (Inr (days * 86400 + hour * 3600 + minute * 60 + second))))))))))))"

text \<open>The fraction, if there is one: its nanoseconds and the index behind it.\<close>

definition parseFraction :: "string \<Rightarrow> nat \<Rightarrow> (wkt_error, nat \<times> nat) outcome" where
  "parseFraction unquoted from_index =
     (if from_index < length unquoted \<and> unquoted ! from_index = CHR ''.'' then
        (let start = from_index + 1;
             index = start + length (takeWhile isDigit (drop start unquoted)) in
         trying (rejectIf (index = start \<or> index - start > 9) InvalidTimestamp)
           (\<lambda>_. Some (Inr (fractionNanos 0 100000000 (subslice start index unquoted), index))))
      else Some (Inr (0, from_index)))"

text \<open>The zone: its offset in seconds and the index behind it.\<close>

definition parseOffset :: "string \<Rightarrow> nat \<Rightarrow> (wkt_error, int \<times> nat) outcome" where
  "parseOffset unquoted from_index =
     (if from_index < length unquoted \<and> unquoted ! from_index = CHR ''Z'' then Some (Inr (0, from_index + 1))
      else if from_index + 6 \<le> length unquoted \<and> (unquoted ! from_index = CHR ''+'' \<or> unquoted ! from_index = CHR ''-'') then
        (let sign = (if unquoted ! from_index = CHR ''+'' then 1 else -1) in
         trying (orError InvalidTimestamp (parseInt (fits_unsigned 8) (subslice (from_index + 1) (from_index + 3) unquoted) 10)) (\<lambda>offset_hour.
         trying (rejectIf (unquoted ! (from_index + 3) \<noteq> CHR '':'') InvalidTimestamp) (\<lambda>_.
         trying (orError InvalidTimestamp (parseInt (fits_unsigned 8) (subslice (from_index + 4) (from_index + 6) unquoted) 10)) (\<lambda>offset_minute.
         trying (rejectIf (offset_hour > 23 \<or> offset_minute > 59) InvalidTimestamp) (\<lambda>_.
         Some (Inr (sign * (offset_hour * 3600 + offset_minute * 60), from_index + 6)))))))
      else Some (Inl InvalidTimestamp))"

definition Timestamp_jsonParse :: "string \<Rightarrow> (wkt_error, Timestamp) outcome" where
  "Timestamp_jsonParse text =
     trying (Some (jsonStringPayload InvalidTimestamp text)) (\<lambda>unquoted.
     trying (parseDateTime unquoted) (\<lambda>local.
     trying (parseFraction unquoted 19) (\<lambda>(fraction, index).
     trying (parseOffset unquoted index) (\<lambda>(offset_seconds, index).
     trying (rejectIf (index \<noteq> length unquoted) InvalidTimestamp) (\<lambda>_.
     if \<not> fits 64 (local - offset_seconds) then None
     else let out = \<lparr>seconds = word_of_int (local - offset_seconds), nanos = word_of_nat fraction\<rparr> in
       trying (Some (Timestamp_validate out)) (\<lambda>_. Some (Inr out)))))))"

section \<open>JSON strings of durations\<close>

definition Duration_jsonStringify :: "Duration \<Rightarrow> (wkt_error, string) outcome" where
  "Duration_jsonStringify self = trying (Some (Duration_validate self)) (\<lambda>_.
     Some (Inr (CHR 0x22 #
       (if sint (seconds self) < 0 \<or> sint (nanos self) < 0 then ''-'' else []) @
       decimal (nat \<bar>sint (seconds self)\<bar>) @
       (if sint (nanos self) \<noteq> 0 then writeCanonicalFraction (nat \<bar>sint (nanos self)\<bar>) else []) @
       ''s'' @ [CHR 0x22])))"

text \<open>The two sides of the first point; without one, everything is seconds.\<close>

definition splitAtDot :: "string \<Rightarrow> string \<times> string option" where
  "splitAtDot body =
     (if CHR ''.'' \<in> set body
      then (takeWhile (\<lambda>c. c \<noteq> CHR ''.'') body, Some (tl (dropWhile (\<lambda>c. c \<noteq> CHR ''.'') body)))
      else (body, None))"

definition parseDurationFraction :: "string option \<Rightarrow> (wkt_error, nat) outcome" where
  "parseDurationFraction frac = (case frac of
       None \<Rightarrow> Some (Inr 0)
     | Some frac \<Rightarrow>
         trying (rejectIf (frac = [] \<or> length frac > 9) InvalidDuration) (\<lambda>_.
         trying (rejectIf (\<not> list_all isDigit frac) InvalidDuration) (\<lambda>_.
         Some (Inr (fractionNanos 0 100000000 frac)))))"

text \<open>The sign is stripped first, but \<open>parseInt\<close> accepts a second one; \<open>-seconds\<close> can overflow.\<close>

definition parseDurationBody :: "bool \<Rightarrow> string \<Rightarrow> (wkt_error, Duration) outcome" where
  "parseDurationBody negative body =
     trying (rejectIf (body = []) InvalidDuration) (\<lambda>_.
     let (sec_text, frac) = splitAtDot body in
     trying (rejectIf (sec_text = []) InvalidDuration) (\<lambda>_.
     trying (orError InvalidDuration (parseInt (fits 64) sec_text 10)) (\<lambda>secs.
     trying (parseDurationFraction frac) (\<lambda>fraction.
     if negative \<and> \<not> fits 64 (- secs) then None
     else let out = (if negative then \<lparr>seconds = word_of_int (- secs), nanos = word_of_int (- int fraction)\<rparr>
                     else \<lparr>seconds = word_of_int secs, nanos = word_of_int (int fraction)\<rparr>) in
       trying (Some (Duration_validate out)) (\<lambda>_. Some (Inr out))))))"

definition Duration_jsonParse :: "string \<Rightarrow> (wkt_error, Duration) outcome" where
  "Duration_jsonParse text =
     trying (Some (jsonStringPayload InvalidDuration text)) (\<lambda>unquoted.
     trying (rejectIf (length unquoted < 2 \<or> last unquoted \<noteq> CHR ''s'') InvalidDuration) (\<lambda>_.
     let body = butlast unquoted in
     if body \<noteq> [] \<and> (hd body = CHR ''-'' \<or> hd body = CHR ''+'')
     then parseDurationBody (hd body = CHR ''-'') (tl body)
     else parseDurationBody False body))"

section \<open>Decoding\<close>

text \<open>
  The fields of an encoded value: one of the two known fields, in any encoding of its
  varint, or a field with another number and any value of the wire grammar.
\<close>

datatype time_field = SecondsField i64 | NanosField i32 | OtherField

definition time_shape :: "time_field \<Rightarrow> tag \<Rightarrow> bytes \<Rightarrow> bool" where
  "time_shape f t vb = (case f of
       SecondsField v \<Rightarrow> t = \<lparr>number = 1, tag_type = Varint\<rparr> \<and> varint_bytes vb (unat v)
     | NanosField v \<Rightarrow> t = \<lparr>number = 2, tag_type = Varint\<rparr> \<and> (\<exists>w :: u64. v = ucast w \<and> varint_bytes vb (unat w))
     | OtherField \<Rightarrow> number t \<noteq> 1 \<and> number t \<noteq> 2 \<and> value_bytes 100 t vb)"

fun set_field :: "time_field \<Rightarrow> SecondsNanos \<Rightarrow> SecondsNanos" where
  "set_field (SecondsField v) out = out\<lparr>seconds := v\<rparr>"
| "set_field (NanosField v) out = out\<lparr>nanos := v\<rparr>"
| "set_field OtherField out = out"

text \<open>What \<open>decode\<close> is to return for these fields: the last occurrence of each counts, and the result is validated.\<close>

definition validated :: "(SecondsNanos \<Rightarrow> wkt_error + unit) \<Rightarrow> SecondsNanos \<Rightarrow> (wkt_error, SecondsNanos) outcome" where
  "validated validate out = trying (Some (validate out)) (\<lambda>_. Some (Inr out))"

lemma validated_Inr [simp]: "validated v out = Some (Inr t) \<longleftrightarrow> t = out \<and> v out = Inr ()"
  by (cases "v out") (auto simp: validated_def)

lemma validated_None [simp]: "validated v out \<noteq> None"
  by (cases "v out") (simp_all add: validated_def)

lemma reads_ok_decodeTimeField: "reads_ok (decodeTimeField t out)"
  unfolding decodeTimeField_def readInt64_def readInt32_def
  by (intro reading)

interpretation time: field_decoder decodeTimeField time_shape set_field
proof
  show "reads_ok (decodeTimeField t out)" for t out by (rule reads_ok_decodeTimeField)
next
  fix self :: reader and vb rest t f out
  assume r: "reader_ok self" "depth_left self = 100" "rest_of self = vb @ rest" "time_shape f t vb"
  show "\<exists>s. decodeTimeField t out self = Some (Inr (set_field f out), s) \<and> index s = index self + length vb"
  proof (cases f)
    case (SecondsField v)
    let ?s = "self\<lparr>index := index self + length vb\<rparr>"
    have "readVarint self = Some (Inr v, ?s)" using r(3,4) SecondsField by (subst readVarint_iff [OF r(1)]) (auto simp: time_shape_def)
    then show ?thesis using r(4) SecondsField
      by (simp add: time_shape_def decodeTimeField_def expectWireType_def readInt64_def tryIn_apply liftRead_def)
  next
    case (NanosField v)
    then obtain u :: u64 where u: "v = ucast u" "varint_bytes vb (unat u)" "t = \<lparr>number = 2, tag_type = Varint\<rparr>"
      using r(4) by (auto simp: time_shape_def)
    let ?s = "self\<lparr>index := index self + length vb\<rparr>"
    have "readVarint self = Some (Inr u, ?s)" using r(3) u by (subst readVarint_iff [OF r(1)]) auto
    then show ?thesis using u NanosField by (simp add: decodeTimeField_def expectWireType_def readInt32_def tryIn_apply liftRead_def)
  next
    case OtherField
    then show ?thesis using r(4) skip_field [OF r(1-3), of t out] by (simp add: time_shape_def decodeTimeField_def)
  qed
qed

lemma decodeTime_fields:
  assumes "list_all2 (field_bytes time_shape) fs bss"
  shows "decodeTime validate (concat bss) = validated validate (fold set_field fs \<lparr>seconds = 0, nanos = 0\<rparr>)"
  by (simp add: decodeTime_def validated_def time.decodeMessage_fields [OF assms])

text \<open>What decoding returns has been validated.\<close>

lemma decodeTime_returns:
  obtains e where "decodeTime validate bs = Some (Inl e)" | t where "decodeTime validate bs = Some (Inr t)" "validate t = Inr ()"
proof (rule time.decodeMessage_returns [of "\<lparr>seconds = 0, nanos = 0\<rparr>" bs])
  fix t
  assume "decodeMessage decodeTimeField \<lparr>seconds = 0, nanos = 0\<rparr> bs = Some (Inr t)"
  then show ?thesis by (cases "validate t") (auto simp: decodeTime_def intro: that)
qed (auto simp: decodeTime_def intro: that)

section \<open>Encoding\<close>

definition time_fields :: "SecondsNanos \<Rightarrow> (time_field \<times> bytes) list" where
  "time_fields t =
     (if seconds t \<noteq> 0 then [(SecondsField (seconds t), tag_enc 1 Varint @ varint_enc (unat (seconds t)))] else []) @
     (if nanos t \<noteq> 0 then [(NanosField (nanos t), tag_enc 2 Varint @ varint_enc (unat (scast (nanos t) :: u64)))] else [])"

definition time_enc :: "SecondsNanos \<Rightarrow> bytes" where
  "time_enc t = concat (map snd (time_fields t))"

lemma time_fields_bytes: "list_all2 (field_bytes time_shape) (map fst (time_fields t)) (map snd (time_fields t))"
  and fold_time_fields: "fold set_field (map fst (time_fields t)) \<lparr>seconds = 0, nanos = 0\<rparr> = t"
proof -
  have tag: "tag_bytes (tag_enc num Varint) \<lparr>number = num, tag_type = Varint\<rparr>" if "num \<noteq> 0" for num
    using tag_bytes_enc [of "\<lparr>number = num, tag_type = Varint\<rparr>"] that by (simp add: tag_enc_def)
  have "field_bytes time_shape (SecondsField v) (tag_enc 1 Varint @ varint_enc (unat v))" for v
    using tag [of 1] varint_bytes_enc [of "unat v"] unat_bound [of v] by (auto simp: field_bytes_def time_shape_def)
  moreover have "field_bytes time_shape (NanosField v) (tag_enc 2 Varint @ varint_enc (unat (scast v :: u64)))" for v
    using tag [of 2] varint_bytes_enc [of "unat (scast v :: u64)"] unat_bound [of "scast v :: u64"] ucast_scast_i32 [of v]
    unfolding field_bytes_def time_shape_def
    by (intro exI [of _ "tag_enc 2 Varint"] exI [of _ "varint_enc (unat (scast v :: u64))"] exI [of _ "\<lparr>number = 2, tag_type = Varint\<rparr>"])
      (auto intro!: exI [of _ "scast v :: u64"])
  ultimately show "list_all2 (field_bytes time_shape) (map fst (time_fields t)) (map snd (time_fields t))"
    by (simp add: time_fields_def)
  show "fold set_field (map fst (time_fields t)) \<lparr>seconds = 0, nanos = 0\<rparr> = t"
    by (cases t) (simp add: time_fields_def)
qed

lemma writeSecondsNanos_appends: "appends (writeSecondsNanos t) (time_enc t)"
proof -
  have opt: "appends (if b then m else return ()) (if b then bs else [])" if "appends m bs" for b m bs
    using that by (simp add: appends_return)
  have "appends (writeSecondsNanos t)
      ((if seconds t \<noteq> 0 then tag_enc 1 Varint @ varint_enc (unat (seconds t)) else []) @
       (if nanos t \<noteq> 0 then tag_enc 2 Varint @ varint_enc (unat (scast (nanos t) :: u64)) else []))"
    unfolding writeSecondsNanos_def by (intro appends_tryIn opt int64.writes_appends int32.writes_appends) simp_all
  then show ?thesis by (cases "seconds t = 0"; cases "nanos t = 0") (simp_all add: time_enc_def time_fields_def)
qed

lemma time_decode_enc: "validate t = Inr () \<Longrightarrow> decodeTime validate (time_enc t) = Some (Inr t)"
  using decodeTime_fields [OF time_fields_bytes [of t], of validate] by (simp add: time_enc_def fold_time_fields validated_def)

text \<open>Encoding a valid value gives its bytes, or reports that the allocator refused.\<close>

lemma encodes_encodeTime: "validate t = Inr () \<Longrightarrow> encodes True (encodeTime validate t) (time_enc t)"
  using encodes_encodeMessage [OF outputs_liftWrite [OF writeSecondsNanos_appends [of t]]]
  by (simp add: encodeTime_def encodes_def tryIn_apply)

lemma encodeTime_invalid: "validate t = Inl e \<Longrightarrow> encodeTime validate t al = Some (Inl e, al)"
  by (simp add: encodeTime_def tryIn_def)

section \<open>Properties\<close>

text \<open>
  Encoding and decoding invert each other for both messages: a valid value is encoded to
  bytes that decode to it, or the allocator refuses; an invalid one is reported as such.
\<close>

theorem time_wire_roundtrip:
  "(case Timestamp_validate t of
      Inl e \<Rightarrow> Timestamp_encode t al = Some (Inl e, al)
    | Inr _ \<Rightarrow> encoded_result (Timestamp_encode t) Timestamp_decode t True) \<and>
   (case Duration_validate t of
      Inl e \<Rightarrow> Duration_encode t al = Some (Inl e, al)
    | Inr _ \<Rightarrow> encoded_result (Duration_encode t) Duration_decode t True)"
proof -
  have "case validate t of
      Inl e \<Rightarrow> encodeTime validate t al = Some (Inl e, al)
    | Inr _ \<Rightarrow> encoded_result (encodeTime validate t) (decodeTime validate) t True" for validate
    by (cases "validate t") (auto intro: encoded_resultI encodes_encodeTime time_decode_enc encodeTime_invalid)
  then show ?thesis unfolding Timestamp_encode_def Timestamp_decode_def Duration_encode_def Duration_decode_def by blast
qed

text \<open>
  Decoding takes the last occurrence of each of the two fields, in any encoding of its
  varint, skips whatever other fields stand between them, and validates the result.
\<close>

theorem time_decode_last_wins:
  assumes "list_all2 (field_bytes time_shape) fs bss"
  shows "Timestamp_decode (concat bss) = validated Timestamp_validate (fold set_field fs \<lparr>seconds = 0, nanos = 0\<rparr>) \<and>
    Duration_decode (concat bss) = validated Duration_validate (fold set_field fs \<lparr>seconds = 0, nanos = 0\<rparr>)"
  using decodeTime_fields [OF assms] by (simp add: Timestamp_decode_def Duration_decode_def)

theorem time_decode_last_wins_witness:
  "Timestamp_decode [0x08, 5, 0x10, 9, 0x08, 0x87, 0] = Some (Inr \<lparr>seconds = 7, nanos = 9\<rparr>)"
proof -
  have sec: "field_bytes time_shape (SecondsField v) ([0x08] @ vb)" if "varint_bytes vb (unat v)" for v vb
    unfolding field_bytes_def time_shape_def
    by (intro exI [of _ "[0x08]"] exI [of _ vb] exI [of _ "\<lparr>number = 1, tag_type = Varint\<rparr>"])
      (use that in \<open>simp add: tag_bytes_def varint_bytes_def\<close>)
  have nan: "field_bytes time_shape (NanosField (ucast w)) ([0x10] @ vb)" if "varint_bytes vb (unat (w :: u64))" for w vb
    unfolding field_bytes_def time_shape_def
    by (intro exI [of _ "[0x10]"] exI [of _ vb] exI [of _ "\<lparr>number = 2, tag_type = Varint\<rparr>"])
      (use that in \<open>auto simp: tag_bytes_def varint_bytes_def\<close>)
  have "list_all2 (field_bytes time_shape) [SecondsField 5, NanosField (ucast (9 :: u64)), SecondsField 7] [[0x08] @ [5], [0x10] @ [9], [0x08] @ [0x87, 0]]"
    by (simp only: list.rel_inject list_all2_Cons list_all2_Nil simp_thms) (intro conjI sec nan; simp add: varint_bytes_def)
  from time_decode_last_wins [OF this] show ?thesis by (simp add: validated_def Timestamp_validate_def)
qed

end
