(* ===== verification/Wkt_Json.thy ===== *)
theory Wkt_Json
  imports Wkt_Time
begin

text \<open>
  The JSON strings of \<open>Timestamp\<close> and \<open>Duration\<close>: what is printed is parsed back, what a
  printed date means, which values the parsers yield, and on which texts they panic.
\<close>

section \<open>Printing and parsing dates\<close>

text \<open>The checks of \<open>parseDateTime\<close> once the six numbers have been read.\<close>

definition checkDateTime :: "int \<Rightarrow> int \<Rightarrow> int \<Rightarrow> int \<Rightarrow> int \<Rightarrow> int \<Rightarrow> (wkt_error, int) outcome" where
  "checkDateTime year month day hour minute second =
     (let date = \<lparr>date_year = year, date_month = month, date_day = day\<rparr> in
      if month < 1 \<or> month > 12 \<or> hour > 23 \<or> minute > 59 \<or> second > 59 then Some (Inl InvalidTimestamp)
      else if month = 3 \<and> day = 0 then None
      else if valid_date date then Some (Inr (day_number date * 86400 + hour * 3600 + minute * 60 + second))
      else Some (Inl InvalidTimestamp))"

lemma date_time_checks:
  assumes "\<bar>year\<bar> \<le> 10000" "0 \<le> day" "day < 256"
  shows "trying (rejectIf (month < 1 \<or> month > 12 \<or> hour > 23 \<or> minute > 59 \<or> second > 59) InvalidTimestamp) (\<lambda>_.
     case daysFromCivil year month day of
       None \<Rightarrow> None
     | Some days \<Rightarrow> (case civilFromDays days of
           None \<Rightarrow> None
         | Some normalized \<Rightarrow>
             trying (rejectIf (date_year normalized \<noteq> year \<or> date_month normalized \<noteq> month \<or> date_day normalized \<noteq> day) InvalidTimestamp)
               (\<lambda>_. Some (Inr (days * 86400 + hour * 3600 + minute * 60 + second)))))
    = checkDateTime year month day hour minute second"
proof -
  let ?d = "\<lparr>date_year = year, date_month = month, date_day = day\<rparr>"
  consider (range) "month < 1 \<or> month > 12 \<or> hour > 23 \<or> minute > 59 \<or> second > 59"
    | (zero) "\<not> (month < 1 \<or> month > 12 \<or> hour > 23 \<or> minute > 59 \<or> second > 59)" "month = 3" "day = 0"
    | (date) "\<not> (month < 1 \<or> month > 12 \<or> hour > 23 \<or> minute > 59 \<or> second > 59)" "\<not> (month = 3 \<and> day = 0)" by blast
  then show ?thesis
  proof cases
    case date
    then have "\<bar>date_year ?d\<bar> \<le> 10000" "1 \<le> date_month ?d" "date_month ?d \<le> 12" "0 \<le> date_day ?d" "date_day ?d < 256"
        "\<not> (date_month ?d = 3 \<and> date_day ?d = 0)" using assms by simp_all
    then obtain n d' where d: "daysFromCivil (date_year ?d) (date_month ?d) (date_day ?d) = Some n" "civilFromDays n = Some d'"
        "d' = ?d \<longleftrightarrow> valid_date ?d" "n = day_number ?d"
      using date_check by metis
    have "d' = ?d \<longleftrightarrow> \<not> (date_year d' \<noteq> year \<or> date_month d' \<noteq> month \<or> date_day d' \<noteq> day)" by (cases d') auto
    then show ?thesis using d date by (auto simp: checkDateTime_def Let_def trying_rejectIf)
  qed (simp_all add: checkDateTime_def daysFromCivil_March_0)
qed

text \<open>The six numbers, when the separators are in their places and every number can be read.\<close>

definition dateTimeNumbers :: "string \<Rightarrow> (int \<times> int \<times> int \<times> int \<times> int \<times> int) option" where
  "dateTimeNumbers unquoted =
     (if length unquoted < 20 \<or> unquoted ! 4 \<noteq> CHR ''-'' \<or> unquoted ! 7 \<noteq> CHR ''-'' \<or> unquoted ! 10 \<noteq> CHR ''T'' \<or>
         unquoted ! 13 \<noteq> CHR '':'' \<or> unquoted ! 16 \<noteq> CHR '':'' then None
      else
        Option.bind (parseInt (fits 32) (subslice 0 4 unquoted) 10) (\<lambda>year.
        Option.bind (parseInt (fits_unsigned 8) (subslice 5 7 unquoted) 10) (\<lambda>month.
        Option.bind (parseInt (fits_unsigned 8) (subslice 8 10 unquoted) 10) (\<lambda>day.
        Option.bind (parseInt (fits_unsigned 8) (subslice 11 13 unquoted) 10) (\<lambda>hour.
        Option.bind (parseInt (fits_unsigned 8) (subslice 14 16 unquoted) 10) (\<lambda>minute.
        Option.bind (parseInt (fits_unsigned 8) (subslice 17 19 unquoted) 10) (\<lambda>second.
        Some (year, month, day, hour, minute, second))))))))"

lemma dateTimeNumbers_range:
  assumes "dateTimeNumbers unquoted = Some (year, month, day, hour, minute, second)"
  shows "\<bar>year\<bar> \<le> 10000" "0 \<le> month" "0 \<le> day" "day < 256" "0 \<le> hour" "0 \<le> minute" "0 \<le> second"
proof -
  have n: "parseInt (fits 32) (subslice 0 4 unquoted) 10 = Some year" "parseInt (fits_unsigned 8) (subslice 5 7 unquoted) 10 = Some month"
    "parseInt (fits_unsigned 8) (subslice 8 10 unquoted) 10 = Some day" "parseInt (fits_unsigned 8) (subslice 11 13 unquoted) 10 = Some hour"
    "parseInt (fits_unsigned 8) (subslice 14 16 unquoted) 10 = Some minute" "parseInt (fits_unsigned 8) (subslice 17 19 unquoted) 10 = Some second"
    using assms by (auto simp: dateTimeNumbers_def bind_eq_Some_conv split: if_splits)
  have "length (subslice 0 4 unquoted) \<le> 4" by (simp add: subslice_def)
  then have "\<bar>year\<bar> < 10 ^ 4"
    using parseInt_range(2) [OF n(1)] power_increasing [of "length (subslice 0 4 unquoted)" 4 "10 :: int"] by simp
  then show "\<bar>year\<bar> \<le> 10000" by simp
  show "0 \<le> month" "0 \<le> day" "day < 256" "0 \<le> hour" "0 \<le> minute" "0 \<le> second"
    using n(2-6) [THEN parseInt_range(1)] by (simp_all add: fits_unsigned_def)
qed

lemma parseDateTime_eq:
  "parseDateTime unquoted = (case dateTimeNumbers unquoted of
       None \<Rightarrow> Some (Inl InvalidTimestamp)
     | Some (year, month, day, hour, minute, second) \<Rightarrow> checkDateTime year month day hour minute second)"
proof (cases "dateTimeNumbers unquoted")
  case None
  then show ?thesis
    by (auto simp: dateTimeNumbers_def parseDateTime_def bind_eq_None_conv trying_rejectIf split: if_splits)
next
  case (Some n)
  then obtain year month day hour minute second where
    num: "dateTimeNumbers unquoted = Some (year, month, day, hour, minute, second)" by (cases n) auto
  then have n: "parseInt (fits 32) (subslice 0 4 unquoted) 10 = Some year" "parseInt (fits_unsigned 8) (subslice 5 7 unquoted) 10 = Some month"
    "parseInt (fits_unsigned 8) (subslice 8 10 unquoted) 10 = Some day" "parseInt (fits_unsigned 8) (subslice 11 13 unquoted) 10 = Some hour"
    "parseInt (fits_unsigned 8) (subslice 14 16 unquoted) 10 = Some minute" "parseInt (fits_unsigned 8) (subslice 17 19 unquoted) 10 = Some second"
    and shape: "\<not> (length unquoted < 20 \<or> unquoted ! 4 \<noteq> CHR ''-'' \<or> unquoted ! 7 \<noteq> CHR ''-'' \<or> unquoted ! 10 \<noteq> CHR ''T'' \<or>
         unquoted ! 13 \<noteq> CHR '':'' \<or> unquoted ! 16 \<noteq> CHR '':'')"
    by (auto simp: dateTimeNumbers_def bind_eq_Some_conv split: if_splits)
  note r = dateTimeNumbers_range [OF num]
  show ?thesis
    unfolding parseDateTime_def trying_rejectIf if_not_P [OF shape] n orError_simps trying_simps num option.case prod.case
    by (rule date_time_checks [OF r(1,3,4), unfolded trying_rejectIf])
qed

text \<open>The text of six numbers is read back as these numbers.\<close>

lemma parseDateTime_print:
  assumes "year < 10000" "month < 100" "day < 100" "hour < 100" "minute < 100" "second < 100" "rest \<noteq> []"
  shows "parseDateTime (printDateTime year month day hour minute second @ rest)
    = checkDateTime (int year) (int month) (int day) (int hour) (int minute) (int second)"
proof -
  have len4: "length s = 4 \<Longrightarrow> \<exists>a b c d. s = [a, b, c, d]" for s :: string
    by (auto simp: eval_nat_numeral length_Suc_conv)
  have len2: "length s = 2 \<Longrightarrow> \<exists>a b. s = [a, b]" for s :: string
    by (auto simp: eval_nat_numeral length_Suc_conv)
  obtain y1 y2 y3 y4 where y: "printPadded 4 year = [y1, y2, y3, y4]" using len4 [OF length_printPadded [of year 4]] assms by auto
  obtain m1 m2 where m: "printPadded 2 month = [m1, m2]" using len2 [OF length_printPadded [of month 2]] assms by auto
  obtain d1 d2 where d: "printPadded 2 day = [d1, d2]" using len2 [OF length_printPadded [of day 2]] assms by auto
  obtain h1 h2 where h: "printPadded 2 hour = [h1, h2]" using len2 [OF length_printPadded [of hour 2]] assms by auto
  obtain n1 n2 where n: "printPadded 2 minute = [n1, n2]" using len2 [OF length_printPadded [of minute 2]] assms by auto
  obtain s1 s2 where s: "printPadded 2 second = [s1, s2]" using len2 [OF length_printPadded [of second 2]] assms by auto
  have two: "parseInt (fits_unsigned 8) [a, b] 10 = Some (int k)" if "printPadded 2 k = [a, b]" "k < 100" for a b k
    using parseInt_unsigned [of "printPadded 2 k" 8] that digits_printPadded [of 2 k] undecimal_printPadded [of 2 k]
    by (simp add: fits_unsigned_def)
  have year: "parseInt (fits 32) [y1, y2, y3, y4] 10 = Some (int year)"
    using parseInt_fits [of "printPadded 4 year" 32] y assms(1) digits_printPadded [of 4 year] undecimal_printPadded [of 4 year]
    by (simp add: fits_def)
  let ?t = "printDateTime year month day hour minute second @ rest"
  have t: "?t = [y1, y2, y3, y4, CHR ''-'', m1, m2, CHR ''-'', d1, d2, CHR ''T'', h1, h2, CHR '':'', n1, n2, CHR '':'', s1, s2] @ rest"
    by (simp add: printDateTime_def y m d h n s)
  have "\<not> length ?t < 20" using assms(7) unfolding t by (cases rest) simp_all
  then show ?thesis
    unfolding parseDateTime_eq
    by (simp add: dateTimeNumbers_def t subslice_def year two [OF m assms(2)] two [OF d assms(3)] two [OF h assms(4)] two [OF n assms(5)] two [OF s assms(6)])
qed

section \<open>Printing and parsing timestamps\<close>

lemma length_printDateTime:
  "year < 10000 \<Longrightarrow> month < 100 \<Longrightarrow> day < 100 \<Longrightarrow> hour < 100 \<Longrightarrow> minute < 100 \<Longrightarrow> second < 100 \<Longrightarrow>
     length (printDateTime year month day hour minute second) = 19"
  by (simp add: printDateTime_def length_printPadded)

lemma takeWhile_digits: "digits ds \<Longrightarrow> rest = [] \<or> \<not> isDigit (hd rest) \<Longrightarrow> takeWhile isDigit (ds @ rest) = ds"
  by (induction ds) (auto, metis list.sel(1) takeWhile.simps(2) neq_Nil_conv takeWhile.simps(1))

text \<open>The fraction that \<open>jsonStringify\<close> prints, nothing for a whole second.\<close>

definition printFraction :: "nat \<Rightarrow> string" where
  "printFraction n = (if n = 0 then [] else writeCanonicalFraction n)"

lemma parseFraction_print:
  assumes "n < 10 ^ 9" "rest \<noteq> []" "\<not> isDigit (hd rest)" "hd rest \<noteq> CHR ''.''"
  shows "parseFraction (pre @ printFraction n @ rest) (length pre) = Some (Inr (n, length pre + length (printFraction n)))"
proof (cases "n = 0")
  case True
  then show ?thesis using assms(2,4) by (cases rest) (simp_all add: parseFraction_def printFraction_def nth_append)
next
  case False
  obtain ds where ds: "writeCanonicalFraction n = CHR ''.'' # ds" "digits ds" "ds \<noteq> []" "length ds \<le> 9" "fractionNanos 0 100000000 ds = n"
    using writeCanonicalFraction_parts [OF assms(1)] by blast
  have t: "takeWhile isDigit (ds @ rest) = ds" using takeWhile_digits [OF ds(2)] assms(3) by blast
  have "drop (Suc (length pre)) (pre @ CHR ''.'' # ds @ rest) = ds @ rest" by simp
  then show ?thesis
    using ds t False by (simp add: parseFraction_def printFraction_def Let_def subslice_def nth_append)
qed

lemma checkDateTime_Inr:
  assumes "checkDateTime year month day hour minute second = Some (Inr secs)" "\<bar>year\<bar> \<le> 10000"
    "0 \<le> hour" "0 \<le> minute" "0 \<le> second"
  shows "\<bar>secs\<bar> \<le> 1000000000000"
proof -
  let ?d = "\<lparr>date_year = year, date_month = month, date_day = day\<rparr>"
  have c: "valid_date ?d" "secs = day_number ?d * 86400 + hour * 3600 + minute * 60 + second" "hour \<le> 23" "minute \<le> 59" "second \<le> 59"
    using assms(1) by (auto simp: checkDateTime_def Let_def split: if_splits)
  then have "1 \<le> date_month ?d" "date_month ?d \<le> 12" "0 \<le> date_day ?d" "date_day ?d < 256" "\<not> (date_month ?d = 3 \<and> date_day ?d = 0)"
    by (auto simp: valid_date_def days_in_month_def split: if_splits)
  then obtain n where "\<bar>n\<bar> \<le> 10000000" "n = day_number ?d" using date_check [of ?d] assms(2) by (metis Date.select_convs(1))
  then show ?thesis using c assms(3-5) by simp
qed

text \<open>The text that a date, a time of day and a fraction have in \<open>jsonStringify\<close>.\<close>

definition printTimestamp :: "nat \<Rightarrow> nat \<Rightarrow> nat \<Rightarrow> nat \<Rightarrow> nat \<Rightarrow> nat \<Rightarrow> nat \<Rightarrow> string" where
  "printTimestamp year month day hour minute second n =
     CHR 0x22 # (printDateTime year month day hour minute second @ printFraction n @ ''Z'') @ [CHR 0x22]"

lemma digits_writeCanonicalFraction: "n < 10 ^ 9 \<Longrightarrow> CHR 0x5C \<notin> set (writeCanonicalFraction n)"
proof -
  assume "n < 10 ^ 9"
  then obtain ds where "writeCanonicalFraction n = CHR ''.'' # ds" "digits ds" using writeCanonicalFraction_parts by blast
  then show ?thesis using digits_no_backslash by simp
qed

lemma printDateTime_no_backslash: "CHR 0x5C \<notin> set (printDateTime year month day hour minute second)"
  by (simp add: printDateTime_def digits_no_backslash)

lemma Timestamp_jsonParse_print:
  assumes "year < 10000" "month < 100" "day < 100" "hour < 100" "minute < 100" "second < 100" "n < 10 ^ 9"
  shows "Timestamp_jsonParse (printTimestamp year month day hour minute second n) =
    trying (checkDateTime (int year) (int month) (int day) (int hour) (int minute) (int second)) (\<lambda>secs.
      validated Timestamp_validate \<lparr>seconds = word_of_int secs, nanos = word_of_nat n\<rparr>)"
proof -
  define stamp where "stamp = printDateTime year month day hour minute second"
  have len: "length stamp = 19" using length_printDateTime assms by (simp add: stamp_def)
  let ?t = "stamp @ printFraction n @ ''Z''"
  have "CHR 0x5C \<notin> set ?t"
    using printDateTime_no_backslash digits_writeCanonicalFraction [OF assms(7)] by (simp add: stamp_def printFraction_def)
  then have payload: "jsonStringPayload InvalidTimestamp (printTimestamp year month day hour minute second n) = Inr ?t"
    unfolding printTimestamp_def stamp_def by (rule jsonStringPayload_plain)
  have "printFraction n @ ''Z'' \<noteq> []" by simp
  note date = parseDateTime_print [OF assms(1-6) this, folded stamp_def]
  have fraction: "parseFraction ?t 19 = Some (Inr (n, 19 + length (printFraction n)))"
    using parseFraction_print [OF assms(7), of "''Z''" stamp] len by (simp add: isDigit_def)
  have offset: "parseOffset ?t (19 + length (printFraction n)) = Some (Inr (0, length ?t))"
    using len by (simp add: parseOffset_def nth_append)
  show ?thesis
  proof (cases "\<exists>secs. checkDateTime (int year) (int month) (int day) (int hour) (int minute) (int second) = Some (Inr secs)")
    case True
    then obtain secs where secs: "checkDateTime (int year) (int month) (int day) (int hour) (int minute) (int second) = Some (Inr secs)" ..
    then have "fits 64 secs" using checkDateTime_Inr [OF secs] assms(1) by (simp add: fits_def abs_le_iff)
    then show ?thesis
      unfolding Timestamp_jsonParse_def payload by (simp add: date secs fraction offset validated_def Let_def)
  next
    case False
    then show ?thesis
      unfolding Timestamp_jsonParse_def payload
      by (simp add: date) (auto simp: trying_def split: option.splits sum.splits)
  qed
qed

section \<open>Which years a valid timestamp has\<close>

lemma march_start_mono: "y \<le> y' \<Longrightarrow> march_start y \<le> march_start y'"
proof (induction y' rule: int_ge_induct)
  case (step i)
  then show ?case by (simp add: march_start_next year_days_def)
qed simp

lemma timestamp_year:
  assumes "valid_date d" "- 719162 \<le> day_number d" "day_number d \<le> 2932896"
  shows "0 \<le> date_year d" "date_year d < 10000"
proof -
  obtain m: "0 \<le> march_month d" "march_month d < 12" "0 \<le> march_day d" "march_day d < year_days (march_year d)"
    "month_start (march_month d) \<le> march_day d" using march_dateE [OF assms(1)] by blast
  have start: "march_start 0 = 0" "march_start 9999 = 3652059" "march_start 10000 = 3652425" by (simp_all add: march_start_def)
  have "march_start (march_year d + 1) > march_start 0"
    using m(4) assms(2) unfolding march_start_next day_number_def start by linarith
  then have "0 < march_year d + 1" using march_start_mono [of "march_year d + 1" 0] by linarith
  then show "0 \<le> date_year d" by (simp add: march_year_def split: if_splits)
  have "march_start (march_year d) < march_start 10000"
    using m(3) assms(3) unfolding day_number_def start by linarith
  then have y: "march_year d < 10000" using march_start_mono [of 10000 "march_year d"] by linarith
  show "date_year d < 10000"
  proof (rule ccontr)
    assume "\<not> date_year d < 10000"
    then have "march_year d = 9999" "date_month d \<le> 2" using y by (auto simp: march_year_def split: if_splits)
    moreover from this have "10 \<le> march_month d" using assms(1) by (simp add: march_month_def valid_date_def)
    then have "306 \<le> march_day d" using m(5) month_start_mono [of 10 "march_month d"] by (simp add: month_start_def)
    ultimately show False using assms(3) start(2) by (simp add: day_number_def)
  qed
qed

lemma clock_time:
  fixes sod :: nat
  assumes "sod < 86400"
  shows "sod div 3600 < 24" "sod mod 3600 div 60 < 60" "sod mod 60 < 60"
    "sod div 3600 * 3600 + sod mod 3600 div 60 * 60 + sod mod 60 = sod"
proof -
  show "sod div 3600 < 24" "sod mod 3600 div 60 < 60" "sod mod 60 < 60" using assms by (simp_all add: less_mult_imp_div_less)
  have "sod mod 60 = sod mod 3600 mod 60" by (simp add: mod_mod_cancel)
  then have "sod mod 3600 div 60 * 60 + sod mod 60 = sod mod 3600" by (simp only: div_mult_mod_eq)
  then show "sod div 3600 * 3600 + sod mod 3600 div 60 * 60 + sod mod 60 = sod"
    by (simp only: add.assoc div_mult_mod_eq)
qed

lemma Timestamp_jsonStringify_valid:
  assumes "Timestamp_validate t = Inr ()"
  obtains d h m s where "valid_date d" "0 \<le> date_year d" "date_year d < 10000" "h < 24" "m < 60" "s < 60" "nat (sint (nanos t)) < 10 ^ 9"
    "sint (seconds t) = day_number d * 86400 + int h * 3600 + int m * 60 + int s" "0 \<le> sint (nanos t)"
    "Timestamp_jsonStringify t = Some (Inr (printTimestamp (nat (date_year d)) (nat (date_month d)) (nat (date_day d)) h m s (nat (sint (nanos t)))))"
proof -
  define s where "s = sint (seconds t)"
  have s: "-62135596800 \<le> s" "s \<le> 253402300799" and n: "0 \<le> sint (nanos t)" "sint (nanos t) \<le> 999999999"
    using assms by (auto simp: Timestamp_validate_def s_def split: if_splits)
  have split: "s = s div 86400 * 86400 + s mod 86400" "0 \<le> s mod 86400" "s mod 86400 < 86400" by simp_all
  have days: "- 719162 \<le> s div 86400" "s div 86400 \<le> 2932896" using s split by linarith+
  then have "\<bar>s div 86400\<bar> \<le> 300000000" by simp
  then obtain d where d: "civilFromDays (s div 86400) = Some d" "valid_date d" "day_number d = s div 86400"
    by (rule civilFromDays_valid)
  note year = timestamp_year [OF d(2), unfolded d(3), OF days]
  have "sint (nanos t) \<noteq> 0 \<longleftrightarrow> nat (sint (nanos t)) \<noteq> 0" using n by simp
  then have "Timestamp_jsonStringify t = Some (Inr (printTimestamp (nat (date_year d)) (nat (date_month d)) (nat (date_day d))
       (nat (s mod 86400) div 3600) (nat (s mod 86400) mod 3600 div 60) (nat (s mod 86400) mod 60) (nat (sint (nanos t)))))"
    using year(1) d(1) by (simp add: Timestamp_jsonStringify_def assms Let_def printTimestamp_def printFraction_def flip: s_def)
  note printed = this
  define h m sec where "h = nat (s mod 86400) div 3600" and "m = nat (s mod 86400) mod 3600 div 60" and "sec = nat (s mod 86400) mod 60"
  have "nat (s mod 86400) < 86400" using split by linarith
  note clock = clock_time [OF this, folded h_def m_def sec_def]
  have "int (h * 3600 + m * 60 + sec) = s mod 86400" using split(2) unfolding clock(4) by simp
  then have "int h * 3600 + int m * 60 + int sec = s mod 86400" by simp
  then have sum: "s = day_number d * 86400 + int h * 3600 + int m * 60 + int sec" using split(1) unfolding d(3) by linarith
  show ?thesis
    by (rule that [OF d(2) year clock(1-3) _ sum [unfolded s_def] n(1) printed [folded h_def m_def sec_def]]) (use n in simp)
qed

lemma Timestamp_json_back:
  assumes "Timestamp_validate t = Inr ()"
  shows "\<exists>txt. Timestamp_jsonStringify t = Some (Inr txt) \<and> Timestamp_jsonParse txt = Some (Inr t)"
proof -
  obtain d h m s where d: "valid_date d" "0 \<le> date_year d" "date_year d < 10000" "h < 24" "m < 60" "s < 60" "nat (sint (nanos t)) < 10 ^ 9"
    "sint (seconds t) = day_number d * 86400 + int h * 3600 + int m * 60 + int s" "0 \<le> sint (nanos t)"
    "Timestamp_jsonStringify t = Some (Inr (printTimestamp (nat (date_year d)) (nat (date_month d)) (nat (date_day d)) h m s (nat (sint (nanos t)))))"
    using Timestamp_jsonStringify_valid [OF assms] by metis
  have md: "1 \<le> date_month d" "date_month d \<le> 12" "1 \<le> date_day d" "date_day d \<le> 31"
    using d(1) by (auto simp: valid_date_def days_in_month_def split: if_splits)
  have date: "int (nat (date_year d)) = date_year d" "int (nat (date_month d)) = date_month d" "int (nat (date_day d)) = date_day d"
    using d(2) md by simp_all
  have eq: "\<lparr>date_year = date_year d, date_month = date_month d, date_day = date_day d\<rparr> = d" by (cases d) simp
  have check: "checkDateTime (date_year d) (date_month d) (date_day d) (int h) (int m) (int s) = Some (Inr (sint (seconds t)))"
    unfolding checkDateTime_def Let_def eq using d(1,4-6,8) md by simp
  have "nat (date_year d) < 10000" "nat (date_month d) < 100" "nat (date_day d) < 100" "h < 100" "m < 100" "s < 100"
    using d(2-6) md by simp_all
  note print = Timestamp_jsonParse_print [OF this d(7), unfolded date check]
  have "\<lparr>seconds = word_of_int (sint (seconds t)), nanos = word_of_nat (nat (sint (nanos t)))\<rparr> = t"
    using d(9) by (cases t) (simp add: of_nat_nat)
  then show ?thesis using d(10) print assms by (simp add: validated_def)
qed

section \<open>Printing and parsing durations\<close>

lemma splitAtDot_print:
  assumes "digits ds" "n < 10 ^ 9"
  shows "fst (splitAtDot (ds @ printFraction n)) = ds"
    "parseDurationFraction (snd (splitAtDot (ds @ printFraction n))) = Some (Inr n)"
proof -
  have no_dot: "CHR ''.'' \<notin> set s" if "digits s" for s using that isDigit_neq by (auto simp: digits_def)
  have "fst (splitAtDot (ds @ printFraction n)) = ds \<and> parseDurationFraction (snd (splitAtDot (ds @ printFraction n))) = Some (Inr n)"
  proof (cases "n = 0")
    case True
    then show ?thesis using no_dot [OF assms(1)] by (simp add: splitAtDot_def printFraction_def parseDurationFraction_def)
  next
    case False
    obtain fs where fs: "writeCanonicalFraction n = CHR ''.'' # fs" "digits fs" "fs \<noteq> []" "length fs \<le> 9" "fractionNanos 0 100000000 fs = n"
      using writeCanonicalFraction_parts [OF assms(2)] by blast
    have "\<forall>c \<in> set ds. c \<noteq> CHR ''.''" using no_dot [OF assms(1)] by auto
    then have "takeWhile (\<lambda>c. c \<noteq> CHR ''.'') (ds @ CHR ''.'' # fs) = ds" "dropWhile (\<lambda>c. c \<noteq> CHR ''.'') (ds @ CHR ''.'' # fs) = CHR ''.'' # fs"
      by (simp_all add: takeWhile_append2 dropWhile_append2)
    moreover have "list_all isDigit fs" using fs(2) by (simp add: digits_def list_all_iff)
    ultimately show ?thesis
      using False fs by (simp add: splitAtDot_def printFraction_def parseDurationFraction_def)
  qed
  then show "fst (splitAtDot (ds @ printFraction n)) = ds"
    "parseDurationFraction (snd (splitAtDot (ds @ printFraction n))) = Some (Inr n)" by simp_all
qed

lemma parseDurationBody_print:
  assumes "secs < 2 ^ 63" "n < 10 ^ 9"
  shows "parseDurationBody negative (decimal secs @ printFraction n) = validated Duration_validate
    (if negative then \<lparr>seconds = word_of_int (- int secs), nanos = word_of_int (- int n)\<rparr>
     else \<lparr>seconds = word_of_int (int secs), nanos = word_of_int (int n)\<rparr>)"
proof -
  obtain sec_text frac where split: "splitAtDot (decimal secs @ printFraction n) = (sec_text, frac)" by fastforce
  have "fits 64 (int secs)" "fits 64 (- int secs)" using assms(1) by (simp_all add: fits_def)
  moreover from this have "parseInt (fits 64) (decimal secs) 10 = Some (int secs)"
    using parseInt_fits [of "decimal secs" 64] by (simp add: undecimal_decimal)
  moreover have "sec_text = decimal secs" "parseDurationFraction frac = Some (Inr n)"
    using splitAtDot_print [OF digits_decimal assms(2), of secs] split by simp_all
  ultimately show ?thesis
    unfolding parseDurationBody_def split by (simp add: validated_def Let_def)
qed

text \<open>The text of a duration, with an optional sign.\<close>

definition printDuration :: "string \<Rightarrow> nat \<Rightarrow> nat \<Rightarrow> string" where
  "printDuration sign secs n = CHR 0x22 # (sign @ decimal secs @ printFraction n @ ''s'') @ [CHR 0x22]"

lemma Duration_jsonParse_print:
  assumes "secs < 2 ^ 63" "n < 10 ^ 9" "sign \<in> {[], ''-'', ''+''}"
  shows "Duration_jsonParse (printDuration sign secs n) = validated Duration_validate
    (if sign = ''-'' then \<lparr>seconds = word_of_int (- int secs), nanos = word_of_int (- int n)\<rparr>
     else \<lparr>seconds = word_of_int (int secs), nanos = word_of_int (int n)\<rparr>)"
proof -
  let ?t = "sign @ decimal secs @ printFraction n @ ''s''"
  have "CHR 0x5C \<notin> set ?t"
    using assms(3) digits_no_backslash [OF digits_decimal] digits_writeCanonicalFraction [OF assms(2)] by (auto simp: printFraction_def)
  then have payload: "jsonStringPayload InvalidDuration (printDuration sign secs n) = Inr ?t"
    unfolding printDuration_def by (rule jsonStringPayload_plain)
  have hd: "hd (decimal secs @ printFraction n) = hd (decimal secs)" "hd (decimal secs) \<noteq> CHR ''-''" "hd (decimal secs) \<noteq> CHR ''+''"
    using digits_decimal [of secs] isDigit_neq [of "hd (decimal secs)"] hd_in_set [of "decimal secs"] by (auto simp: digits_def)
  have last: "last ?t = CHR ''s''" and butlast: "butlast ?t = sign @ decimal secs @ printFraction n"
    using butlast_snoc [of "sign @ decimal secs @ printFraction n" "CHR ''s''"] by simp_all
  have "0 < length (decimal secs)" by simp
  then have "\<not> (length ?t < 2 \<or> last ?t \<noteq> CHR ''s'')" unfolding last by (simp del: length_greater_0_conv)
  then have "Duration_jsonParse (printDuration sign secs n) =
      (if sign @ decimal secs @ printFraction n \<noteq> [] \<and> (hd (sign @ decimal secs @ printFraction n) = CHR ''-'' \<or> hd (sign @ decimal secs @ printFraction n) = CHR ''+'')
       then parseDurationBody (hd (sign @ decimal secs @ printFraction n) = CHR ''-'') (tl (sign @ decimal secs @ printFraction n))
       else parseDurationBody False (sign @ decimal secs @ printFraction n))"
    unfolding Duration_jsonParse_def payload trying_simps trying_rejectIf Let_def butlast by simp
  also have "\<dots> = parseDurationBody (sign = ''-'') (decimal secs @ printFraction n)"
    using assms(3) hd by auto
  finally show ?thesis using parseDurationBody_print [OF assms(1,2)] by simp
qed

lemma Duration_json_back:
  assumes "Duration_validate t = Inr ()"
  shows "\<exists>txt. Duration_jsonStringify t = Some (Inr txt) \<and> Duration_jsonParse txt = Some (Inr t)"
proof -
  define s n where "s = sint (seconds t)" and "n = sint (nanos t)"
  define neg where "neg \<longleftrightarrow> s < 0 \<or> n < 0"
  define sign where "sign = (if neg then ''-'' else [])"
  have v: "-315576000000 \<le> s" "s \<le> 315576000000" "-1000000000 < n" "n < 1000000000" "\<not> (s < 0 \<and> n > 0 \<or> s > 0 \<and> n < 0)"
    using assms by (auto simp: Duration_validate_def s_def n_def split: if_splits)
  have "n \<noteq> 0 \<longleftrightarrow> nat \<bar>n\<bar> \<noteq> 0" by auto
  then have printed: "Duration_jsonStringify t = Some (Inr (printDuration sign (nat \<bar>s\<bar>) (nat \<bar>n\<bar>)))"
    unfolding Duration_jsonStringify_def assms printDuration_def printFraction_def sign_def neg_def s_def [symmetric] n_def [symmetric]
    by simp
  have "nat \<bar>s\<bar> < 2 ^ 63" "nat \<bar>n\<bar> < 10 ^ 9" "sign \<in> {[], ''-'', ''+''}" using v by (auto simp: sign_def)
  note parsed = Duration_jsonParse_print [OF this]
  have sec: "(if neg then - \<bar>s\<bar> else \<bar>s\<bar>) = s" and nan: "(if neg then - \<bar>n\<bar> else \<bar>n\<bar>) = n" using v(5) by (auto simp: neg_def)
  have "\<lparr>seconds = word_of_int s, nanos = word_of_int n\<rparr> = t" by (cases t) (simp add: s_def n_def)
  then have "Duration_jsonParse (printDuration sign (nat \<bar>s\<bar>) (nat \<bar>n\<bar>)) = validated Duration_validate t"
    using parsed sec nan by (cases neg) (simp_all add: sign_def)
  then show ?thesis using printed assms by (simp add: validated_def)
qed

section \<open>The panics of the parsers\<close>

lemma parseOffset_Inr:
  assumes "parseOffset unquoted from_index = Some (Inr (offset, stop))"
  shows "\<bar>offset\<bar> \<le> 86400"
proof -
  have nonneg: "0 \<le> v" if "parseInt (fits_unsigned 8) s 10 = Some v" for s v
    using parseInt_range(1) [OF that] by (simp add: fits_unsigned_def)
  show ?thesis
    using assms by (auto simp: parseOffset_def Let_def trying_Some trying_rejectIf abs_le_iff split: if_splits dest!: nonneg)
qed

lemma parseOffset_returns: "parseOffset unquoted from_index \<noteq> None"
  by (simp add: parseOffset_def Let_def trying_None trying_rejectIf del: not_None_eq)

lemma parseFraction_returns: "parseFraction unquoted from_index \<noteq> None"
  by (simp add: parseFraction_def Let_def trying_None trying_rejectIf del: not_None_eq)

lemma parseDateTime_None:
  "parseDateTime unquoted = None \<longleftrightarrow> (\<exists>year h m s. dateTimeNumbers unquoted = Some (year, 3, 0, h, m, s) \<and> h \<le> 23 \<and> m \<le> 59 \<and> s \<le> 59)"
  by (auto simp: parseDateTime_eq checkDateTime_def Let_def split: option.splits)

lemma Timestamp_jsonParse_None:
  "Timestamp_jsonParse txt = None \<longleftrightarrow> (\<exists>unquoted year h m s. jsonStringPayload InvalidTimestamp txt = Inr unquoted \<and>
     dateTimeNumbers unquoted = Some (year, 3, 0, h, m, s) \<and> h \<le> 23 \<and> m \<le> 59 \<and> s \<le> 59)"
proof (cases "jsonStringPayload InvalidTimestamp txt")
  case (Inr unquoted)
  have *: "fits 64 (secs - offset)" if date: "parseDateTime unquoted = Some (Inr secs)" and zone: "parseOffset unquoted i = Some (Inr (offset, j))" for secs offset i j
  proof -
    obtain y mo d h m s where num: "dateTimeNumbers unquoted = Some (y, mo, d, h, m, s)" and "checkDateTime y mo d h m s = Some (Inr secs)"
      using date by (cases "dateTimeNumbers unquoted") (auto simp: parseDateTime_eq)
    then have "\<bar>secs\<bar> \<le> 1000000000000" using dateTimeNumbers_range [OF num] checkDateTime_Inr by blast
    then show ?thesis using parseOffset_Inr [OF zone] by (auto simp: fits_def abs_le_iff)
  qed
  have "Timestamp_jsonParse txt = None \<longleftrightarrow> parseDateTime unquoted = None"
    unfolding Timestamp_jsonParse_def Inr trying_simps Let_def validated_def [symmetric]
    using *
    by (auto simp: trying_None trying_rejectIf parseFraction_returns parseOffset_returns simp del: not_None_eq split: prod.splits)
  then show ?thesis using Inr parseDateTime_None by auto
qed (simp add: Timestamp_jsonParse_def)

lemma parseDurationFraction_returns: "parseDurationFraction frac \<noteq> None"
  by (cases frac) (simp_all add: parseDurationFraction_def trying_None trying_rejectIf del: not_None_eq)

lemma parseDurationBody_None:
  "parseDurationBody negative body = None \<longleftrightarrow> negative \<and>
     parseInt (fits 64) (fst (splitAtDot body)) 10 = Some (- (2 ^ 63)) \<and>
     (\<exists>n. parseDurationFraction (snd (splitAtDot body)) = Some (Inr n))"
proof -
  have "\<not> fits 64 (- secs) \<longleftrightarrow> secs = - (2 ^ 63)" if "parseInt (fits 64) s 10 = Some secs" for s secs
    using parseInt_range(1) [OF that] by (auto simp: fits_def)
  moreover have "parseInt (fits 64) [] 10 = None" by (simp add: parseInt_def fmtParseInt_def)
  moreover have "fst (splitAtDot []) = []" by (simp add: splitAtDot_def)
  ultimately show ?thesis
    unfolding parseDurationBody_def Let_def validated_def [symmetric]
    by (auto simp: trying_None trying_rejectIf parseDurationFraction_returns split: prod.splits)
qed

lemma Duration_jsonParse_None:
  "Duration_jsonParse txt = None \<longleftrightarrow> (\<exists>body n. jsonStringPayload InvalidDuration txt = Inr (''-'' @ body @ ''s'') \<and>
     parseInt (fits 64) (fst (splitAtDot body)) 10 = Some (- (2 ^ 63)) \<and> parseDurationFraction (snd (splitAtDot body)) = Some (Inr n))"
proof (cases "jsonStringPayload InvalidDuration txt")
  case (Inr unquoted)
  show ?thesis
  proof (cases "\<exists>body. unquoted = ''-'' @ body @ ''s''")
    case True
    then obtain body where u: "unquoted = ''-'' @ body @ ''s''" by blast
    have "butlast (CHR ''-'' # body @ ''s'') = CHR ''-'' # body" by (simp add: butlast_append)
    then have "Duration_jsonParse txt = parseDurationBody True body"
      unfolding Duration_jsonParse_def Inr trying_simps trying_rejectIf Let_def u by simp
    then show ?thesis using Inr u parseDurationBody_None [of True body] by auto
  next
    case False
    have "unquoted = ''-'' @ tl (butlast unquoted) @ ''s''"
      if "last unquoted = CHR ''s''" "butlast unquoted \<noteq> []" "hd (butlast unquoted) = CHR ''-''"
      using that by (cases unquoted rule: rev_cases; cases "butlast unquoted") auto
    then have "Duration_jsonParse txt \<noteq> None"
      using False parseDurationBody_None [of False]
      unfolding Duration_jsonParse_def Inr trying_simps trying_rejectIf Let_def by auto
    then show ?thesis using Inr False by auto
  qed
qed (simp add: Duration_jsonParse_def)

section \<open>What is parsed is valid\<close>

lemma Timestamp_jsonParse_valid: "Timestamp_jsonParse txt = Some (Inr t) \<Longrightarrow> Timestamp_validate t = Inr ()"
  unfolding Timestamp_jsonParse_def Let_def validated_def [symmetric]
  by (auto simp: trying_Some trying_rejectIf split: if_splits prod.splits)

lemma parseDurationBody_valid: "parseDurationBody negative body = Some (Inr t) \<Longrightarrow> Duration_validate t = Inr ()"
  unfolding parseDurationBody_def Let_def validated_def [symmetric]
  by (auto simp: trying_Some trying_rejectIf split: if_splits prod.splits)

lemma Duration_jsonParse_valid: "Duration_jsonParse txt = Some (Inr t) \<Longrightarrow> Duration_validate t = Inr ()"
  unfolding Duration_jsonParse_def Let_def
  by (auto simp: trying_Some trying_rejectIf dest: parseDurationBody_valid split: if_splits)

section \<open>Properties\<close>

text \<open>
  What the decoders and the parsers return has the type of its message: on any bytes and
  any text, a value they yield lies in the range that its validation demands, and decoding
  never panics.
\<close>

theorem time_values_valid:
  "(case Timestamp_decode bs of None \<Rightarrow> False | Some (Inl e) \<Rightarrow> True | Some (Inr t) \<Rightarrow> Timestamp_validate t = Inr ()) \<and>
   (case Duration_decode bs of None \<Rightarrow> False | Some (Inl e) \<Rightarrow> True | Some (Inr t) \<Rightarrow> Duration_validate t = Inr ()) \<and>
   (case Timestamp_jsonParse txt of None \<Rightarrow> True | Some (Inl e) \<Rightarrow> True | Some (Inr t) \<Rightarrow> Timestamp_validate t = Inr ()) \<and>
   (case Duration_jsonParse txt of None \<Rightarrow> True | Some (Inl e) \<Rightarrow> True | Some (Inr t) \<Rightarrow> Duration_validate t = Inr ())"
proof (intro conjI)
  show "case Timestamp_decode bs of None \<Rightarrow> False | Some (Inl e) \<Rightarrow> True | Some (Inr t) \<Rightarrow> Timestamp_validate t = Inr ()"
    unfolding Timestamp_decode_def by (cases rule: decodeTime_returns [of Timestamp_validate bs]) auto
  show "case Duration_decode bs of None \<Rightarrow> False | Some (Inl e) \<Rightarrow> True | Some (Inr t) \<Rightarrow> Duration_validate t = Inr ()"
    unfolding Duration_decode_def by (cases rule: decodeTime_returns [of Duration_validate bs]) auto
qed (use Timestamp_jsonParse_valid Duration_jsonParse_valid in \<open>fastforce split: option.splits sum.splits\<close>)+

text \<open>
  C30: a valid timestamp survives its JSON string: it is printed without an error, and the
  text is parsed back to the same seconds and nanoseconds, from the year 1 to the year 9999.
\<close>

theorem timestamp_json_roundtrip:
  assumes "Timestamp_validate t = Inr ()"
  shows "\<exists>txt. Timestamp_jsonStringify t = Some (Inr txt) \<and> Timestamp_jsonParse txt = Some (Inr t)"
  by (rule Timestamp_json_back [OF assms])

theorem timestamp_json_roundtrip_witness:
  "\<exists>txt. Timestamp_jsonStringify \<lparr>seconds = -1, nanos = 120000\<rparr> = Some (Inr txt) \<and>
     Timestamp_jsonParse txt = Some (Inr \<lparr>seconds = -1, nanos = 120000\<rparr>)"
  by (rule timestamp_json_roundtrip) (simp add: Timestamp_validate_def)

text \<open>
  On a text with the digits of a date, a time of day and nanoseconds the parser checks
  the clock and the calendar: a date of the calendar gives the seconds since 1970 of that date
  and time, validated, any other date is an error, and day 0 of March is a panic.
\<close>

theorem timestamp_parse_checks_calendar:
  assumes "year < 10000" "month < 100" "day < 100" "hour < 100" "minute < 100" "second < 100" "n < 10 ^ 9"
  shows "Timestamp_jsonParse (printTimestamp year month day hour minute second n) =
    (let date = \<lparr>date_year = int year, date_month = int month, date_day = int day\<rparr> in
     if month < 1 \<or> month > 12 \<or> hour > 23 \<or> minute > 59 \<or> second > 59 then Some (Inl InvalidTimestamp)
     else if month = 3 \<and> day = 0 then None
     else if valid_date date
     then validated Timestamp_validate \<lparr>
       seconds = word_of_int (day_number date * 86400 + int hour * 3600 + int minute * 60 + int second), nanos = word_of_nat n\<rparr>
     else Some (Inl InvalidTimestamp))"
  unfolding Timestamp_jsonParse_print [OF assms] checkDateTime_def Let_def by auto

theorem timestamp_parse_checks_calendar_witness:
  "Timestamp_jsonParse (printTimestamp 2021 2 29 0 0 0 0) = Some (Inl InvalidTimestamp)"
  using timestamp_parse_checks_calendar [of 2021 2 29 0 0 0 0]
  by (simp add: Let_def valid_date_def days_in_month_def leap_year_def)

text \<open>
  A valid duration survives its JSON string, whatever the signs of its seconds and its
  nanoseconds; a plus sign in front of the printed digits is accepted as well.
\<close>

theorem duration_json_roundtrip:
  assumes "Duration_validate t = Inr ()"
  shows "(\<exists>txt. Duration_jsonStringify t = Some (Inr txt) \<and> Duration_jsonParse txt = Some (Inr t)) \<and>
    (0 \<le> sint (seconds t) \<and> 0 \<le> sint (nanos t) \<longrightarrow>
       Duration_jsonParse (printDuration ''+'' (nat (sint (seconds t))) (nat (sint (nanos t)))) = Some (Inr t))"
proof (intro conjI impI Duration_json_back [OF assms])
  assume t: "0 \<le> sint (seconds t) \<and> 0 \<le> sint (nanos t)"
  then have "nat (sint (seconds t)) < 2 ^ 63" "nat (sint (nanos t)) < 10 ^ 9"
    using assms by (auto simp: Duration_validate_def split: if_splits)
  then have "Duration_jsonParse (printDuration ''+'' (nat (sint (seconds t))) (nat (sint (nanos t)))) =
      validated Duration_validate \<lparr>seconds = word_of_int (sint (seconds t)), nanos = word_of_int (sint (nanos t))\<rparr>"
    using Duration_jsonParse_print [of "nat (sint (seconds t))" "nat (sint (nanos t))" "''+''"] t by simp
  moreover have "\<lparr>seconds = word_of_int (sint (seconds t)), nanos = word_of_int (sint (nanos t))\<rparr> = t" by (cases t) simp
  ultimately show "Duration_jsonParse (printDuration ''+'' (nat (sint (seconds t))) (nat (sint (nanos t)))) = Some (Inr t)"
    using assms by (simp only: validated_Inr simp_thms)
qed

theorem duration_json_roundtrip_witness:
  "\<exists>txt. Duration_jsonStringify \<lparr>seconds = -3, nanos = -250000000\<rparr> = Some (Inr txt) \<and>
     Duration_jsonParse txt = Some (Inr \<lparr>seconds = -3, nanos = -250000000\<rparr>)"
  by (rule duration_json_roundtrip [THEN conjunct1]) (simp add: Duration_validate_def)

text \<open>
  C31: the parsers panic on exactly two kinds of text: a timestamp of day 0 of March whose clock
  is in range, and a duration with a minus sign in front of the least 64-bit integer, whose own
  minus sign \<open>parseInt\<close> has accepted. Both kinds exist.
\<close>

theorem json_parsers_panic:
  "(Timestamp_jsonParse txt = None \<longleftrightarrow> (\<exists>unquoted year h m s. jsonStringPayload InvalidTimestamp txt = Inr unquoted \<and>
      dateTimeNumbers unquoted = Some (year, 3, 0, h, m, s) \<and> h \<le> 23 \<and> m \<le> 59 \<and> s \<le> 59)) \<and>
   (Duration_jsonParse txt = None \<longleftrightarrow> (\<exists>body n. jsonStringPayload InvalidDuration txt = Inr (''-'' @ body @ ''s'') \<and>
      parseInt (fits 64) (fst (splitAtDot body)) 10 = Some (- (2 ^ 63)) \<and>
      parseDurationFraction (snd (splitAtDot body)) = Some (Inr n))) \<and>
   Timestamp_jsonParse ''2020-03-00T00:00:00Z'' = None \<and> Duration_jsonParse ''--9223372036854775808s'' = None"
proof (intro conjI Timestamp_jsonParse_None Duration_jsonParse_None)
  show "Timestamp_jsonParse ''2020-03-00T00:00:00Z'' = None" by code_simp
  show "Duration_jsonParse ''--9223372036854775808s'' = None" by code_simp
qed

end
