(* ===== verification/Wkt_Value.thy ===== *)
theory Wkt_Value
  imports Wkt_Fields
begin

unbundle bit_operations_syntax

text \<open>
  The messages \<open>Value\<close>, \<open>Struct\<close> and \<open>ListValue\<close> of \<open>src/wkt.zig\<close>, which hold a JSON document
  as a tree: the tree, its accessors and its equality. A number is the word of its IEEE bits
  and a string its bytes. \<open>Document\<close> is the abstract view, in which an object is a finite map:
  on the trees that decoding returns, equality is equality of documents.
\<close>

section \<open>The tree\<close>

datatype Value = Null_value | Number_value u64 | String_value bytes | Bool_value bool
  | Struct_value "(bytes \<times> Value) list" | List_value "Value list"

type_synonym Struct = "(bytes \<times> Value) list"
type_synonym ListValue = "Value list"

lemma size_field [termination_simp]: "f \<in> set fs \<Longrightarrow> size (snd f) < Suc (size_list (size_prod (\<lambda>_. 0) size) fs)"
  by (rule le_imp_less_Suc, rule size_list_estimation', assumption) (cases f; simp)

section \<open>Numbers\<close>

definition isNan :: "u64 \<Rightarrow> bool" where
  "isNan v \<longleftrightarrow> 0x7FF0000000000000 < v AND 0x7FFFFFFFFFFFFFFF"

definition isPositiveInf :: "u64 \<Rightarrow> bool" where
  "isPositiveInf v \<longleftrightarrow> v = 0x7FF0000000000000"

definition isNegativeInf :: "u64 \<Rightarrow> bool" where
  "isNegativeInf v \<longleftrightarrow> v = 0xFFF0000000000000"

definition isFinite :: "u64 \<Rightarrow> bool" where
  "isFinite v \<longleftrightarrow> \<not> (isNan v \<or> isPositiveInf v \<or> isNegativeInf v)"

text \<open>The operator \<open>==\<close> of \<open>f64\<close>: the two zeros are equal, and no NaN is equal to anything.\<close>

definition f64_equal :: "u64 \<Rightarrow> u64 \<Rightarrow> bool" where
  "f64_equal a b \<longleftrightarrow> \<not> isNan a \<and> \<not> isNan b \<and> (a = b \<or> (a OR b) AND 0x7FFFFFFFFFFFFFFF = 0)"

section \<open>Accessors\<close>

definition fieldAt :: "Struct \<Rightarrow> nat \<Rightarrow> wkt_error + bytes \<times> Value" where
  "fieldAt self i = (if i \<ge> length self then Inl UnknownField else Inr (self ! i))"

fun fieldIndexFrom :: "nat \<Rightarrow> Struct \<Rightarrow> bytes \<Rightarrow> wkt_error + nat" where
  "fieldIndexFrom i [] key = Inl UnknownField"
| "fieldIndexFrom i (field # fs) key = (if fst field = key then Inr i else fieldIndexFrom (i + 1) fs key)"

definition fieldIndex :: "Struct \<Rightarrow> bytes \<Rightarrow> wkt_error + nat" where
  "fieldIndex self key = fieldIndexFrom 0 self key"

definition hasField :: "Struct \<Rightarrow> bytes \<Rightarrow> bool" where
  "hasField self key = (case fieldIndex self key of Inl _ \<Rightarrow> False | Inr _ \<Rightarrow> True)"

definition fieldValue :: "Struct \<Rightarrow> bytes \<Rightarrow> wkt_error + Value" where
  "fieldValue self key = (case fieldIndex self key of
       Inl e \<Rightarrow> Inl e
     | Inr i \<Rightarrow> (case fieldAt self i of Inl e \<Rightarrow> Inl e | Inr field \<Rightarrow> Inr (snd field)))"

definition valueAt :: "ListValue \<Rightarrow> nat \<Rightarrow> wkt_error + Value" where
  "valueAt self i = (if i \<ge> length self then Inl UnknownField else Inr (self ! i))"

fun Value_number :: "Value \<Rightarrow> wkt_error + u64" where
  "Value_number (Number_value v) = Inr v"
| "Value_number _ = Inl TypeMismatch"

fun Value_string :: "Value \<Rightarrow> wkt_error + bytes" where
  "Value_string (String_value v) = Inr v"
| "Value_string _ = Inl TypeMismatch"

fun Value_boolean :: "Value \<Rightarrow> wkt_error + bool" where
  "Value_boolean (Bool_value v) = Inr v"
| "Value_boolean _ = Inl TypeMismatch"

fun Value_object :: "Value \<Rightarrow> wkt_error + Struct" where
  "Value_object (Struct_value v) = Inr v"
| "Value_object _ = Inl TypeMismatch"

fun Value_list :: "Value \<Rightarrow> wkt_error + ListValue" where
  "Value_list (List_value v) = Inr v"
| "Value_list _ = Inl TypeMismatch"

section \<open>Equality\<close>

function valueEqual :: "Value \<Rightarrow> Value \<Rightarrow> bool"
and structEqual :: "Struct \<Rightarrow> Struct \<Rightarrow> bool"
and listValueEqual :: "ListValue \<Rightarrow> ListValue \<Rightarrow> bool" where
  "valueEqual Null_value b = (b = Null_value)"
| "valueEqual (Number_value v) b = (case b of Number_value w \<Rightarrow> f64_equal v w | _ \<Rightarrow> False)"
| "valueEqual (String_value v) b = (case b of String_value w \<Rightarrow> v = w | _ \<Rightarrow> False)"
| "valueEqual (Bool_value v) b = (case b of Bool_value w \<Rightarrow> v = w | _ \<Rightarrow> False)"
| "valueEqual (Struct_value v) b = (case b of Struct_value w \<Rightarrow> structEqual v w | _ \<Rightarrow> False)"
| "valueEqual (List_value v) b = (case b of List_value w \<Rightarrow> listValueEqual v w | _ \<Rightarrow> False)"
| "structEqual a b =
     (if length a \<noteq> length b then False
      else list_all (\<lambda>lhs. case fieldValue b (fst lhs) of Inl _ \<Rightarrow> False | Inr rhs \<Rightarrow> valueEqual (snd lhs) rhs) a)"
| "listValueEqual a b =
     (if length a \<noteq> length b then False
      else list_all (\<lambda>sides. valueEqual (fst sides) (snd sides)) (zip a b))"
  by pat_completeness auto
termination
proof (relation "measure (case_sum (\<lambda>(a, _). size a)
    (case_sum (\<lambda>(a, _). size_list (size_prod (\<lambda>_. 0) size) a) (\<lambda>(a, _). size_list size a)))"; clarsimp?)
  fix a b :: "Value list" and x y
  assume "(x, y) \<in> set (zip a b)"
  then have "x \<in> set a" by (rule set_zip_leftD)
  then show "size x < size_list size a" by (induction a) auto
next
  fix a :: Struct and k v
  assume "(k, v) \<in> set a"
  then show "size v < size_list (size_prod (\<lambda>_. 0) size) a" by (induction a) auto
qed

fun valueIndexFrom :: "nat \<Rightarrow> ListValue \<Rightarrow> Value \<Rightarrow> wkt_error + nat" where
  "valueIndexFrom i [] v = Inl UnknownField"
| "valueIndexFrom i (candidate # candidates) v = (if valueEqual candidate v then Inr i else valueIndexFrom (i + 1) candidates v)"

definition valueIndex :: "ListValue \<Rightarrow> Value \<Rightarrow> wkt_error + nat" where
  "valueIndex self v = valueIndexFrom 0 self v"

definition hasValue :: "ListValue \<Rightarrow> Value \<Rightarrow> bool" where
  "hasValue self v = (case valueIndex self v of Inl _ \<Rightarrow> False | Inr _ \<Rightarrow> True)"

section \<open>Documents\<close>

datatype Document = Null_doc | Number_doc u64 | String_doc bytes | Bool_doc bool
  | Object_doc "bytes \<Rightarrow> Document option" | Array_doc "Document list"

definition unsigned_zero :: "u64 \<Rightarrow> u64" where
  "unsigned_zero v = (if v AND 0x7FFFFFFFFFFFFFFF = 0 then 0 else v)"

fun document :: "Value \<Rightarrow> Document" where
  "document Null_value = Null_doc"
| "document (Number_value v) = Number_doc (unsigned_zero v)"
| "document (String_value v) = String_doc v"
| "document (Bool_value v) = Bool_doc v"
| "document (Struct_value fs) = Object_doc (map_of (map (\<lambda>f. (fst f, document (snd f))) fs))"
| "document (List_value vs) = Array_doc (map document vs)"

text \<open>Numbers are finite, strings are UTF-8 and the keys of an object are distinct.\<close>

fun wellformed :: "Value \<Rightarrow> bool" where
  "wellformed (Number_value v) = isFinite v"
| "wellformed (String_value v) = utf8ValidateSlice v"
| "wellformed (Struct_value fs) = (distinct (map fst fs) \<and> list_all (\<lambda>f. utf8ValidateSlice (fst f) \<and> wellformed (snd f)) fs)"
| "wellformed (List_value vs) = list_all wellformed vs"
| "wellformed _ = True"

lemma f64_equal_iff:
  assumes "isFinite a" "isFinite b"
  shows "f64_equal a b \<longleftrightarrow> unsigned_zero a = unsigned_zero b"
proof -
  have zero: "(a = b \<or> z a \<and> z b) \<longleftrightarrow> (if z a then 0 else a) = (if z b then 0 else b)" if "z 0" for z
    using that by auto
  have "(a OR b) AND m = 0 \<longleftrightarrow> a AND m = 0 \<and> b AND m = 0" for m :: u64
    by (simp only: bit.conj_disj_distrib2 or_eq_0_iff)
  then show ?thesis
    using assms zero [of "\<lambda>v. v AND 0x7FFFFFFFFFFFFFFF = 0"] unfolding f64_equal_def unsigned_zero_def isFinite_def by simp
qed

lemma fieldIndexFrom_map_of:
  "case fieldIndexFrom i fs key of
     Inl e \<Rightarrow> e = UnknownField \<and> map_of fs key = None
   | Inr j \<Rightarrow> i \<le> j \<and> j - i < length fs \<and> map_of fs key = Some (snd (fs ! (j - i)))"
proof (induction i fs key rule: fieldIndexFrom.induct)
  case (2 i field fs key)
  then show ?case
    by (cases "fst field = key"; cases "fieldIndexFrom (i + 1) fs key") (auto simp: nth_Cons' prod_eq_iff)
qed simp

text \<open>The search for a key finds its first occurrence, as the library's \<open>map_of\<close> does.\<close>

lemma fieldValue_map_of: "fieldValue fs key = (case map_of fs key of None \<Rightarrow> Inl UnknownField | Some v \<Rightarrow> Inr v)"
  using fieldIndexFrom_map_of [where i = 0 and fs = fs and key = key] by (auto simp: fieldValue_def fieldIndex_def fieldAt_def split: sum.splits)

text \<open>
  With distinct keys on both sides, the comparison of two structs, one of which is searched
  for every key of the other, is the comparison of two maps.
\<close>

lemma struct_fields_as_maps:
  assumes "distinct (map fst a)" "distinct (map fst b)"
  shows "(length a = length b \<and> (\<forall>f \<in> set a. \<exists>w. map_of b (fst f) = Some w \<and> R (snd f) w)) \<longleftrightarrow>
    (\<forall>k. rel_option R (map_of a k) (map_of b k))"
proof (intro iffI conjI ballI allI; (elim conjE)?)
  fix k
  assume len: "length a = length b" and all: "\<forall>f \<in> set a. \<exists>w. map_of b (fst f) = Some w \<and> R (snd f) w"
  have "fst ` set a \<subseteq> fst ` set b" using all by (force dest: map_of_SomeD)
  moreover have "card (fst ` set a) = card (fst ` set b)"
    using distinct_card [OF assms(1)] distinct_card [OF assms(2)] len by simp
  ultimately have keys: "fst ` set a = fst ` set b" by (intro card_subset_eq) simp_all
  show "rel_option R (map_of a k) (map_of b k)"
  proof (cases "map_of a k")
    case None
    then have "k \<notin> fst ` set b" using keys by (simp add: map_of_eq_None_iff)
    then show ?thesis using None by (simp add: map_of_eq_None_iff flip: map_of_eq_None_iff)
  next
    case (Some v)
    then show ?thesis using all map_of_SomeD [OF Some] by fastforce
  qed
next
  assume maps: "\<forall>k. rel_option R (map_of a k) (map_of b k)"
  have "map_of a k = None \<longleftrightarrow> map_of b k = None" for k
    using maps [rule_format, of k] by (cases "map_of a k"; cases "map_of b k") simp_all
  then have "fst ` set a = fst ` set b" by (auto simp: map_of_eq_None_iff)
  then have "length (map fst a) = length (map fst b)"
    using distinct_card [OF assms(1)] distinct_card [OF assms(2)] by simp
  then show "length a = length b" by simp
next
  fix f
  assume maps: "\<forall>k. rel_option R (map_of a k) (map_of b k)" and f: "f \<in> set a"
  have "map_of a (fst f) = Some (snd f)" using assms(1) f by simp
  then show "\<exists>w. map_of b (fst f) = Some w \<and> R (snd f) w"
    using maps [rule_format, of "fst f"] by (auto simp: option_rel_Some1)
qed

lemma map_of_map_snd: "map_of (map (\<lambda>f. (fst f, g (snd f))) fs) k = map_option g (map_of fs k)"
  by (induction fs) simp_all

lemma lists_as_images:
  "\<forall>v \<in> set vs. \<forall>w \<in> set ws. E v w \<longleftrightarrow> g v = g w \<Longrightarrow>
     (length vs = length ws \<and> list_all (\<lambda>sides. E (fst sides) (snd sides)) (zip vs ws)) \<longleftrightarrow> map g vs = map g ws"
proof (induction vs arbitrary: ws)
  case (Cons v vs)
  show ?case
  proof (cases ws)
    case ws: (Cons w ws')
    have "\<forall>v \<in> set vs. \<forall>w \<in> set ws'. E v w \<longleftrightarrow> g v = g w" "E v w \<longleftrightarrow> g v = g w" using Cons.prems ws by simp_all
    then show ?thesis using Cons.IH [of ws'] ws by (simp add: conj_left_commute)
  qed simp
qed simp

lemma wellformed_field: "wellformed (Struct_value fs) \<Longrightarrow> map_of fs k = Some v \<Longrightarrow> wellformed v"
  by (auto simp: list_all_iff dest!: map_of_SomeD)

lemma equal_iff:
  "structEqual a b \<longleftrightarrow> length a = length b \<and>
     list_all (\<lambda>lhs. case fieldValue b (fst lhs) of Inl _ \<Rightarrow> False | Inr rhs \<Rightarrow> valueEqual (snd lhs) rhs) a"
  "listValueEqual vs ws \<longleftrightarrow> length vs = length ws \<and> list_all (\<lambda>sides. valueEqual (fst sides) (snd sides)) (zip vs ws)"
  by simp_all

declare structEqual.simps [simp del] listValueEqual.simps [simp del]

lemma structEqual_maps:
  assumes "distinct (map fst a)" "distinct (map fst b)"
  shows "structEqual a b \<longleftrightarrow> (\<forall>k. rel_option valueEqual (map_of a k) (map_of b k))"
proof -
  have "(case fieldValue b (fst f) of Inl _ \<Rightarrow> False | Inr w \<Rightarrow> valueEqual (snd f) w) \<longleftrightarrow>
      (\<exists>w. map_of b (fst f) = Some w \<and> valueEqual (snd f) w)" for f
    by (simp add: fieldValue_map_of split: option.splits)
  then show ?thesis
    using struct_fields_as_maps [OF assms, of valueEqual] by (simp add: equal_iff(1) list_all_iff)
qed

lemma valueEqual_document: "wellformed a \<Longrightarrow> wellformed b \<Longrightarrow> valueEqual a b \<longleftrightarrow> document a = document b"
proof (induction a arbitrary: b)
  case (Struct_value fs)
  show ?case
  proof (cases b)
    case (Struct_value gs)
    have "rel_option valueEqual (map_of fs k) (map_of gs k) \<longleftrightarrow>
        map_option document (map_of fs k) = map_option document (map_of gs k)" for k
    proof (cases "map_of fs k")
      case (Some v)
      have "valueEqual v w \<longleftrightarrow> document v = document w" if "map_of gs k = Some w" for w
        using Struct_value.IH [of "(k, v)" v w] wellformed_field [OF Struct_value.prems(1) Some]
          wellformed_field [OF _ that] Struct_value.prems(2) Struct_value map_of_SomeD [OF Some] by simp
      then show ?thesis using Some by (cases "map_of gs k") simp_all
    qed (cases "map_of gs k"; simp)
    then show ?thesis
      using Struct_value.prems Struct_value by (auto simp: structEqual_maps map_of_map_snd fun_eq_iff)
  qed simp_all
next
  case (List_value vs)
  show ?case
  proof (cases b)
    case (List_value ws)
    have "\<forall>v \<in> set vs. \<forall>w \<in> set ws. valueEqual v w \<longleftrightarrow> document v = document w"
      using List_value.IH List_value.prems List_value by (simp add: list_all_iff)
    then show ?thesis using lists_as_images [of vs ws valueEqual document] List_value by (simp add: equal_iff(2))
  qed simp_all
next
  case (Number_value v)
  then show ?case by (cases b) (simp_all add: f64_equal_iff)
qed (case_tac b; simp)+

section \<open>Properties\<close>

text \<open>
  C18: on values with finite numbers and distinct keys, such as decoding returns, \<open>valueEqual\<close>
  holds exactly when both values are the same document: the order of the fields of an object
  and the sign of a zero do not count, everything else does.
\<close>

theorem value_equality_is_of_documents:
  assumes "wellformed a" "wellformed b"
  shows "valueEqual a b \<longleftrightarrow> document a = document b"
  using valueEqual_document [OF assms] .

theorem value_equality_is_of_documents_witness:
  "valueEqual (Struct_value [([0x61], Number_value 0), ([0x62], List_value [Bool_value True])])
     (Struct_value [([0x62], List_value [Bool_value True]), ([0x61], Number_value 0x8000000000000000)])"
  by (subst value_equality_is_of_documents)
    (simp_all add: isFinite_def isNan_def isPositiveInf_def isNegativeInf_def unsigned_zero_def fun_eq_iff)

end
