(* ===== verification/Wkt_Struct.thy ===== *)
theory Wkt_Struct
  imports Wkt_Value Wkt_Encode
begin

text \<open>
  The wire codec of \<open>Value\<close>, \<open>Struct\<close> and \<open>ListValue\<close> of \<open>src/wkt.zig\<close>. Encoding recurses over the
  tree with a new \<open>Writer\<close> for every message and one allocator behind all of them, which may
  refuse any request. Decoding recurses into the payloads of the fields; the recursion is
  bounded here by fuel, of which the length of the input is shown to be enough. The memory
  of a decoded tree is never refused.
\<close>

section \<open>Encoding\<close>

text \<open>One field of a \<open>Struct\<close>: an entry message is written to a writer of its own and copied from its slice.\<close>

definition writeStructField :: "bytes \<Rightarrow> bytes encoding \<Rightarrow> (writer, wkt_error, unit) op" where
  "writeStructField key encode_value =
     tryIn (liftSum (ensureUtf8 key)) (\<lambda>_.
     tryIn (withAllocator (inNewWriter (
       tryIn (liftWrite (writeString 1 key)) (\<lambda>_.
       tryIn (withAllocator encode_value) (\<lambda>value_bytes.
       tryIn (liftWrite (writeMessage 2 value_bytes)) (\<lambda>_ entry_writer.
       Some (Inr (writer_slice entry_writer), entry_writer))))))) (\<lambda>entry.
     liftWrite (writeMessage 1 entry)))"

function Value_encode :: "Value \<Rightarrow> bytes encoding"
and Struct_encode :: "Struct \<Rightarrow> bytes encoding"
and ListValue_encode :: "ListValue \<Rightarrow> bytes encoding" where
  "Value_encode Null_value = encodeMessage (liftWrite (writeInt32 1 0))"
| "Value_encode (Number_value v) = encodeMessage
     (if isNan v \<or> isPositiveInf v \<or> isNegativeInf v then throw InvalidNumber else liftWrite (writeDouble 2 v))"
| "Value_encode (String_value v) = encodeMessage
     (tryIn (liftSum (ensureUtf8 v)) (\<lambda>_. liftWrite (writeString 3 v)))"
| "Value_encode (Bool_value v) = encodeMessage (liftWrite (writeBool 4 v))"
| "Value_encode (Struct_value v) = encodeMessage
     (tryIn (withAllocator (Struct_encode v)) (\<lambda>payload. liftWrite (writeMessage 5 payload)))"
| "Value_encode (List_value v) = encodeMessage
     (tryIn (withAllocator (ListValue_encode v)) (\<lambda>payload. liftWrite (writeMessage 6 payload)))"
| "Struct_encode fs = encodeMessage (forEach (\<lambda>field. writeStructField (fst field) (Value_encode (snd field))) fs)"
| "ListValue_encode vs = encodeMessage (forEach (\<lambda>v.
     tryIn (withAllocator (Value_encode v)) (\<lambda>value_bytes. liftWrite (writeMessage 1 value_bytes))) vs)"
  by pat_completeness auto
termination
proof (relation "measure (case_sum size (case_sum (size_list (size_prod (\<lambda>_. 0) size)) (size_list size)))"; clarsimp?)
  fix vs :: "Value list" and v
  assume "v \<in> set vs"
  then show "size v < size_list size vs" by (induction vs) auto
next
  fix fs :: Struct and k v
  assume "(k, v) \<in> set fs"
  then show "size v < size_list (size_prod (\<lambda>_. 0) size) fs" by (induction fs) auto
qed

section \<open>Decoding\<close>

definition decodeValueField ::
    "(bytes \<Rightarrow> (wkt_error + Struct) option) \<Rightarrow> (bytes \<Rightarrow> (wkt_error + ListValue) option) \<Rightarrow> tag \<Rightarrow> Value \<Rightarrow> Value decoding" where
  "decodeValueField decode_struct decode_list t out =
     (if number t = 1 then tryIn (readScalar Varint readInt32 t) (\<lambda>v.
        if v \<noteq> 0 then throw InvalidNullValue else return Null_value)
      else if number t = 2 then tryIn (readScalar Fixed64 readDouble t) (\<lambda>v.
        if isNan v \<or> isPositiveInf v \<or> isNegativeInf v then throw InvalidNumber else return (Number_value v))
      else if number t = 3 then tryIn (readScalar LengthDelimited readBytes t) (\<lambda>raw.
        tryIn (liftSum (ensureUtf8 raw)) (\<lambda>_. return (String_value raw)))
      else if number t = 4 then tryIn (readScalar Varint readBool t) (\<lambda>v. return (Bool_value v))
      else if number t = 5 then tryIn (readMessage decode_struct t) (\<lambda>v. return (Struct_value v))
      else if number t = 6 then tryIn (readMessage decode_list t) (\<lambda>v. return (List_value v))
      else tryIn (liftRead (skipValue t)) (\<lambda>_. return out))"

definition decodeEntryField :: "(bytes \<Rightarrow> (wkt_error + Value) option) \<Rightarrow> tag \<Rightarrow> bytes \<times> Value \<Rightarrow> (bytes \<times> Value) decoding" where
  "decodeEntryField decode_value t out =
     (if number t = 1 then tryIn (readScalar LengthDelimited readBytes t) (\<lambda>raw.
        tryIn (liftSum (ensureUtf8 raw)) (\<lambda>_. return (raw, snd out)))
      else if number t = 2 then tryIn (readMessage decode_value t) (\<lambda>v. return (fst out, v))
      else tryIn (liftRead (skipValue t)) (\<lambda>_. return out))"

fun appendOrReplaceStructField :: "bytes \<times> Value \<Rightarrow> Struct \<Rightarrow> Struct" where
  "appendOrReplaceStructField field [] = [field]"
| "appendOrReplaceStructField field (existing # fs) =
     (if fst existing = fst field then field # fs else existing # appendOrReplaceStructField field fs)"

definition decodeFieldOfStruct :: "(bytes \<Rightarrow> (wkt_error + bytes \<times> Value) option) \<Rightarrow> tag \<Rightarrow> Struct \<Rightarrow> Struct decoding" where
  "decodeFieldOfStruct decode_entry t out =
     (if number t = 1 then tryIn (readMessage decode_entry t) (\<lambda>field. return (appendOrReplaceStructField field out))
      else tryIn (liftRead (skipValue t)) (\<lambda>_. return out))"

definition decodeFieldOfList :: "(bytes \<Rightarrow> (wkt_error + Value) option) \<Rightarrow> tag \<Rightarrow> ListValue \<Rightarrow> ListValue decoding" where
  "decodeFieldOfList decode_value t out =
     (if number t = 1 then tryIn (readMessage decode_value t) (\<lambda>v. return (out @ [v]))
      else tryIn (liftRead (skipValue t)) (\<lambda>_. return out))"

fun Value_decodeF :: "nat \<Rightarrow> bytes \<Rightarrow> (wkt_error + Value) option"
and Struct_decodeF :: "nat \<Rightarrow> bytes \<Rightarrow> (wkt_error + Struct) option"
and ListValue_decodeF :: "nat \<Rightarrow> bytes \<Rightarrow> (wkt_error + ListValue) option"
and decodeStructFieldF :: "nat \<Rightarrow> bytes \<Rightarrow> (wkt_error + bytes \<times> Value) option" where
  "Value_decodeF 0 bs = None"
| "Value_decodeF (Suc n) bs = decodeMessage (decodeValueField (\<lambda>bs. Struct_decodeF n bs) (\<lambda>bs. ListValue_decodeF n bs)) Null_value bs"
| "Struct_decodeF 0 bs = None"
| "Struct_decodeF (Suc n) bs = decodeMessage (decodeFieldOfStruct (\<lambda>bs. decodeStructFieldF n bs)) [] bs"
| "ListValue_decodeF 0 bs = None"
| "ListValue_decodeF (Suc n) bs = decodeMessage (decodeFieldOfList (\<lambda>bs. Value_decodeF n bs)) [] bs"
| "decodeStructFieldF 0 bs = None"
| "decodeStructFieldF (Suc n) bs = decodeMessage (decodeEntryField (\<lambda>bs. Value_decodeF n bs)) ([], Null_value) bs"

definition Value_decode :: "bytes \<Rightarrow> (wkt_error + Value) option" where
  "Value_decode bs = Value_decodeF (length bs + 1) bs"

definition Struct_decode :: "bytes \<Rightarrow> (wkt_error + Struct) option" where
  "Struct_decode bs = Struct_decodeF (length bs + 1) bs"

definition ListValue_decode :: "bytes \<Rightarrow> (wkt_error + ListValue) option" where
  "ListValue_decode bs = ListValue_decodeF (length bs + 1) bs"

definition decodeStructField :: "bytes \<Rightarrow> (wkt_error + bytes \<times> Value) option" where
  "decodeStructField bs = decodeStructFieldF (length bs + 1) bs"

section \<open>Fuel\<close>

lemma op_le_handlers:
  "decoder_le ds ds' \<Longrightarrow> decoder_le dl dl' \<Longrightarrow> op_le (decodeValueField ds dl t v) (decodeValueField ds' dl' t v)"
  "decoder_le dv dv' \<Longrightarrow> op_le (decodeEntryField dv t e) (decodeEntryField dv' t e)"
  "decoder_le de de' \<Longrightarrow> op_le (decodeFieldOfStruct de t s) (decodeFieldOfStruct de' t s)"
  "decoder_le dv dv' \<Longrightarrow> op_le (decodeFieldOfList dv t l) (decodeFieldOfList dv' t l)"
  unfolding decodeValueField_def decodeEntryField_def decodeFieldOfStruct_def decodeFieldOfList_def
  by (intro op_mono; assumption)+

lemma decoder_le_messages:
  "decoder_le ds ds' \<Longrightarrow> decoder_le dl dl' \<Longrightarrow>
     decoder_le (decodeMessage (decodeValueField ds dl) v) (decodeMessage (decodeValueField ds' dl') v)"
  "decoder_le dv dv' \<Longrightarrow> decoder_le (decodeMessage (decodeEntryField dv) e) (decodeMessage (decodeEntryField dv') e)"
  "decoder_le de de' \<Longrightarrow> decoder_le (decodeMessage (decodeFieldOfStruct de) s) (decodeMessage (decodeFieldOfStruct de') s)"
  "decoder_le dv dv' \<Longrightarrow> decoder_le (decodeMessage (decodeFieldOfList dv) l) (decodeMessage (decodeFieldOfList dv') l)"
  by (intro decodeMessage_mono op_le_handlers; assumption)+

lemma decodeF_Suc:
  "Value_decodeF (Suc n) = decodeMessage (decodeValueField (Struct_decodeF n) (ListValue_decodeF n)) Null_value"
  "Struct_decodeF (Suc n) = decodeMessage (decodeFieldOfStruct (decodeStructFieldF n)) []"
  "ListValue_decodeF (Suc n) = decodeMessage (decodeFieldOfList (Value_decodeF n)) []"
  "decodeStructFieldF (Suc n) = decodeMessage (decodeEntryField (Value_decodeF n)) ([], Null_value)"
  by (simp_all add: fun_eq_iff)

lemma fuel_Suc:
  "decoder_le (Value_decodeF n) (Value_decodeF (Suc n)) \<and> decoder_le (Struct_decodeF n) (Struct_decodeF (Suc n)) \<and>
   decoder_le (ListValue_decodeF n) (ListValue_decodeF (Suc n)) \<and> decoder_le (decodeStructFieldF n) (decodeStructFieldF (Suc n))"
proof (induction n)
  case (Suc n)
  then show ?case
    unfolding decodeF_Suc(1-4) [of "Suc n"] unfolding decodeF_Suc(1-4) [of n]
    by (intro conjI decoder_le_messages) (simp_all add: decodeF_Suc)
qed (simp add: decoder_le_def)

lemma fuel_mono:
  assumes "n \<le> m"
  shows "decoder_le (Value_decodeF n) (Value_decodeF m)" "decoder_le (Struct_decodeF n) (Struct_decodeF m)"
    "decoder_le (ListValue_decodeF n) (ListValue_decodeF m)" "decoder_le (decodeStructFieldF n) (decodeStructFieldF m)"
  using assms fuel_Suc by (induction m rule: dec_induct) (simp_all add: decoder_le_def)

lemma handlers_answer:
  assumes "reader_ok self"
  shows "answers_below (Suc (rest_length self)) ds \<Longrightarrow> answers_below (Suc (rest_length self)) dl \<Longrightarrow>
      returns_ok (decodeValueField ds dl t v self) self"
    and "answers_below (Suc (rest_length self)) dv \<Longrightarrow> returns_ok (decodeEntryField dv t e self) self"
    and "answers_below (Suc (rest_length self)) de \<Longrightarrow> returns_ok (decodeFieldOfStruct de t s self) self"
    and "answers_below (Suc (rest_length self)) dv \<Longrightarrow> returns_ok (decodeFieldOfList dv t l self) self"
proof -
  have ret: "returns_ok (return x s) s" "returns_ok (throw e s) s" "returns_ok (liftSum r s) s" if "reader_ok s" for x e r s
    using that by (simp_all add: returns_ok_def)
  have skip: "returns_ok (liftRead (skipValue t) self) self" using assms by (intro returns_ok_reads reading)
  have cond: "returns_ok (m s) s \<Longrightarrow> returns_ok (m' s) s \<Longrightarrow> returns_ok ((if b then m else m') s) s" for m m' :: "'x decoding" and b s
    by simp
  note rules = cond returns_ok_tryIn returns_readMessage returns_readScalar reading skip ret
  show "answers_below (Suc (rest_length self)) ds \<Longrightarrow> answers_below (Suc (rest_length self)) dl \<Longrightarrow>
      returns_ok (decodeValueField ds dl t v self) self"
    unfolding decodeValueField_def by (intro rules; assumption?; simp add: assms)
  show "answers_below (Suc (rest_length self)) dv \<Longrightarrow> returns_ok (decodeEntryField dv t e self) self"
    unfolding decodeEntryField_def by (intro rules; assumption?; simp add: assms)
  show "answers_below (Suc (rest_length self)) de \<Longrightarrow> returns_ok (decodeFieldOfStruct de t s self) self"
    unfolding decodeFieldOfStruct_def by (intro rules; assumption?; simp add: assms)
  show "answers_below (Suc (rest_length self)) dv \<Longrightarrow> returns_ok (decodeFieldOfList dv t l self) self"
    unfolding decodeFieldOfList_def by (intro rules; assumption?; simp add: assms)
qed

lemma fuel_answers:
  "answers_below n (Value_decodeF n) \<and> answers_below n (Struct_decodeF n) \<and>
   answers_below n (ListValue_decodeF n) \<and> answers_below n (decodeStructFieldF n)"
proof (induction n)
  case (Suc n)
  have below: "answers_below (Suc m) d" if "answers_below n d" "m < length bs" "length bs < Suc n"
    for m d and bs :: bytes
    using that by (elim answers_below_le) simp
  show ?case
    unfolding answers_below_def decodeF_Suc using Suc.IH
    by (intro conjI allI impI decodeMessage_answers handlers_answer below) simp_all
qed (simp add: answers_below_def)

text \<open>With the fuel that is given, all four decoders return on every input, and the fuel disappears from their equations.\<close>

lemma decodes_answer:
  "Value_decode bs \<noteq> None" "Struct_decode bs \<noteq> None" "ListValue_decode bs \<noteq> None" "decodeStructField bs \<noteq> None"
  using fuel_answers [of "length bs + 1"]
  unfolding answers_below_def Value_decode_def Struct_decode_def ListValue_decode_def decodeStructField_def by auto

lemma fuel_decoder_le:
  assumes "\<And>n m. n \<le> m \<Longrightarrow> decoder_le (d n) (d m)" "\<And>bs. d (length bs + 1) bs \<noteq> None"
  shows "decoder_le (d n) (\<lambda>bs. d (length bs + 1) bs)"
  unfolding decoder_le_def
proof (intro allI impI)
  fix bs r
  assume "d n bs = Some r"
  then have "d (max n (length bs + 1)) bs = Some r" using assms(1) [of n "max n (length bs + 1)"] by (simp add: decoder_le_def)
  moreover obtain r' where r': "d (length bs + 1) bs = Some r'" using assms(2) by blast
  moreover have "d (max n (length bs + 1)) bs = Some r'"
    using assms(1) [of "length bs + 1" "max n (length bs + 1)"] r' unfolding decoder_le_def by simp
  ultimately show "d (length bs + 1) bs = Some r" by simp
qed

lemma decodeF_le:
  "decoder_le (Value_decodeF n) Value_decode" "decoder_le (Struct_decodeF n) Struct_decode"
  "decoder_le (ListValue_decodeF n) ListValue_decode" "decoder_le (decodeStructFieldF n) decodeStructField"
proof -
  have eta: "Value_decode = (\<lambda>bs. Value_decodeF (length bs + 1) bs)" "Struct_decode = (\<lambda>bs. Struct_decodeF (length bs + 1) bs)"
    "ListValue_decode = (\<lambda>bs. ListValue_decodeF (length bs + 1) bs)" "decodeStructField = (\<lambda>bs. decodeStructFieldF (length bs + 1) bs)"
    by (rule ext, rule Value_decode_def Struct_decode_def ListValue_decode_def decodeStructField_def)+
  note total = decodes_answer [unfolded Value_decode_def Struct_decode_def ListValue_decode_def decodeStructField_def]
  show "decoder_le (Value_decodeF n) Value_decode" "decoder_le (Struct_decodeF n) Struct_decode"
    "decoder_le (ListValue_decodeF n) ListValue_decode" "decoder_le (decodeStructFieldF n) decodeStructField"
    unfolding eta by (rule fuel_decoder_le; (rule fuel_mono | rule total); assumption?)+
qed

lemma decode_eqs:
  "Value_decode bs = decodeMessage (decodeValueField Struct_decode ListValue_decode) Null_value bs"
  "Struct_decode bs = decodeMessage (decodeFieldOfStruct decodeStructField) [] bs"
  "ListValue_decode bs = decodeMessage (decodeFieldOfList Value_decode) [] bs"
  "decodeStructField bs = decodeMessage (decodeEntryField Value_decode) ([], Null_value) bs"
proof -
  have eq: "x = y" if "decoder_le d d'" "x = d bs" "d bs \<noteq> None" "y = d' bs"
    for x y :: "(wkt_error + 'x) option" and d d'
    using that by (auto simp: decoder_le_def)
  note suc = Value_decode_def Struct_decode_def ListValue_decode_def decodeStructField_def decodeF_Suc Suc_eq_plus1 [symmetric]
  note total = decodes_answer [unfolded suc, of bs]
  show "Value_decode bs = decodeMessage (decodeValueField Struct_decode ListValue_decode) Null_value bs"
    by (rule eq [OF decoder_le_messages(1) [OF decodeF_le(2,3)] _ total(1)]) (simp_all only: suc)
  show "Struct_decode bs = decodeMessage (decodeFieldOfStruct decodeStructField) [] bs"
    by (rule eq [OF decoder_le_messages(3) [OF decodeF_le(4)] _ total(2)]) (simp_all only: suc)
  show "ListValue_decode bs = decodeMessage (decodeFieldOfList Value_decode) [] bs"
    by (rule eq [OF decoder_le_messages(4) [OF decodeF_le(1)] _ total(3)]) (simp_all only: suc)
  show "decodeStructField bs = decodeMessage (decodeEntryField Value_decode) ([], Null_value) bs"
    by (rule eq [OF decoder_le_messages(2) [OF decodeF_le(1)] _ total(4)]) (simp_all only: suc)
qed

section \<open>Decoded values are well-formed\<close>

definition wf_field :: "bytes \<times> Value \<Rightarrow> bool" where
  "wf_field f \<longleftrightarrow> utf8ValidateSlice (fst f) \<and> wellformed (snd f)"

definition wf_struct :: "Struct \<Rightarrow> bool" where
  "wf_struct fs \<longleftrightarrow> distinct (map fst fs) \<and> list_all wf_field fs"

lemma wellformed_struct: "wellformed (Struct_value fs) \<longleftrightarrow> wf_struct fs"
  by (simp add: wf_struct_def wf_field_def list_all_iff)

lemma keys_appendOrReplace:
  "map fst (appendOrReplaceStructField field fs) =
     (if fst field \<in> fst ` set fs then map fst fs else map fst fs @ [fst field])"
  by (induction fs) auto

lemma set_appendOrReplace: "f \<in> set (appendOrReplaceStructField field fs) \<Longrightarrow> f = field \<or> f \<in> set fs"
  by (induction fs) (auto split: if_splits)

lemma wf_appendOrReplace: "wf_struct fs \<Longrightarrow> wf_field field \<Longrightarrow> wf_struct (appendOrReplaceStructField field fs)"
  by (auto simp: wf_struct_def keys_appendOrReplace list_all_iff dest: set_appendOrReplace)

lemma handlers_keep:
  "decodeValueField ds dl t out s = Some (Inr out', s') \<Longrightarrow> wellformed out \<Longrightarrow> (\<And>bs fs. ds bs = Some (Inr fs) \<Longrightarrow> wf_struct fs) \<Longrightarrow>
     (\<And>bs vs. dl bs = Some (Inr vs) \<Longrightarrow> list_all wellformed vs) \<Longrightarrow> wellformed out'"
  "decodeEntryField dv t e s = Some (Inr e', s') \<Longrightarrow> wf_field e \<Longrightarrow> (\<And>bs v. dv bs = Some (Inr v) \<Longrightarrow> wellformed v) \<Longrightarrow> wf_field e'"
  "decodeFieldOfStruct de t fs s = Some (Inr fs', s') \<Longrightarrow> wf_struct fs \<Longrightarrow> (\<And>bs e. de bs = Some (Inr e) \<Longrightarrow> wf_field e) \<Longrightarrow> wf_struct fs'"
  "decodeFieldOfList dv t vs s = Some (Inr vs', s') \<Longrightarrow> list_all wellformed vs \<Longrightarrow> (\<And>bs v. dv bs = Some (Inr v) \<Longrightarrow> wellformed v) \<Longrightarrow>
     list_all wellformed vs'"
proof -
  show
  "decodeValueField ds dl t out s = Some (Inr out', s') \<Longrightarrow> wellformed out \<Longrightarrow> (\<And>bs fs. ds bs = Some (Inr fs) \<Longrightarrow> wf_struct fs) \<Longrightarrow>
     (\<And>bs vs. dl bs = Some (Inr vs) \<Longrightarrow> list_all wellformed vs) \<Longrightarrow> wellformed out'"
    unfolding decodeValueField_def
    by (auto simp: tryIn_Some isFinite_def wellformed_struct simp del: wellformed.simps(3) split: if_splits dest!: readMessage_Inr)
  show
  "decodeEntryField dv t e s = Some (Inr e', s') \<Longrightarrow> wf_field e \<Longrightarrow> (\<And>bs v. dv bs = Some (Inr v) \<Longrightarrow> wellformed v) \<Longrightarrow> wf_field e'"
    unfolding decodeEntryField_def by (auto simp: tryIn_Some wf_field_def split: if_splits dest!: readMessage_Inr)
  show
  "decodeFieldOfStruct de t fs s = Some (Inr fs', s') \<Longrightarrow> wf_struct fs \<Longrightarrow> (\<And>bs e. de bs = Some (Inr e) \<Longrightarrow> wf_field e) \<Longrightarrow> wf_struct fs'"
    unfolding decodeFieldOfStruct_def by (auto simp: tryIn_Some split: if_splits dest!: readMessage_Inr intro: wf_appendOrReplace)
  show
  "decodeFieldOfList dv t vs s = Some (Inr vs', s') \<Longrightarrow> list_all wellformed vs \<Longrightarrow> (\<And>bs v. dv bs = Some (Inr v) \<Longrightarrow> wellformed v) \<Longrightarrow>
     list_all wellformed vs'"
    unfolding decodeFieldOfList_def by (auto simp: tryIn_Some split: if_splits dest!: readMessage_Inr)
qed

lemma decodeF_wellformed:
  "(Value_decodeF n bs = Some (Inr v) \<longrightarrow> wellformed v) \<and> (Struct_decodeF n bs = Some (Inr fs) \<longrightarrow> wf_struct fs) \<and>
   (ListValue_decodeF n bs = Some (Inr vs) \<longrightarrow> list_all wellformed vs) \<and> (decodeStructFieldF n bs = Some (Inr e) \<longrightarrow> wf_field e)"
proof (induction n arbitrary: bs v fs vs e)
  case (Suc n)
  have init: "wellformed Null_value" "wf_field ([], Null_value)" "wf_struct []" "list_all wellformed []"
    by (simp_all add: wf_field_def wf_struct_def)
  show ?case
  proof (intro conjI impI)
    assume "Value_decodeF (Suc n) bs = Some (Inr v)"
    then show "wellformed v" unfolding decodeF_Suc
      by (rule decodeMessage_keeps) (rule init, erule handlers_keep(1), assumption, (use Suc.IH in blast)+)
  next
    assume "Struct_decodeF (Suc n) bs = Some (Inr fs)"
    then show "wf_struct fs" unfolding decodeF_Suc
      by (rule decodeMessage_keeps) (rule init, erule handlers_keep(3), assumption, (use Suc.IH in blast)+)
  next
    assume "ListValue_decodeF (Suc n) bs = Some (Inr vs)"
    then show "list_all wellformed vs" unfolding decodeF_Suc
      by (rule decodeMessage_keeps) (rule init, erule handlers_keep(4), assumption, (use Suc.IH in blast)+)
  next
    assume "decodeStructFieldF (Suc n) bs = Some (Inr e)"
    then show "wf_field e" unfolding decodeF_Suc
      by (rule decodeMessage_keeps) (rule init, erule handlers_keep(2), assumption, (use Suc.IH in blast)+)
  qed
qed simp

lemma decode_wellformed:
  "Value_decode bs = Some (Inr v) \<Longrightarrow> wellformed v" "Struct_decode bs = Some (Inr fs) \<Longrightarrow> wf_struct fs"
  "ListValue_decode bs = Some (Inr vs) \<Longrightarrow> list_all wellformed vs" "decodeStructField bs = Some (Inr e) \<Longrightarrow> wf_field e"
  using decodeF_wellformed unfolding Value_decode_def Struct_decode_def ListValue_decode_def decodeStructField_def by blast+

section \<open>The fields of the messages\<close>

fun value_shape :: "Value option \<Rightarrow> tag \<Rightarrow> bytes \<Rightarrow> bool" where
  "value_shape None t vb = (number t \<notin> {1, 2, 3, 4, 5, 6} \<and> value_bytes 100 t vb)"
| "value_shape (Some Null_value) t vb =
     (t = \<lparr>number = 1, tag_type = Varint\<rparr> \<and> (\<exists>w :: u64. (ucast w :: i32) = 0 \<and> varint_bytes vb (unat w)))"
| "value_shape (Some (Number_value v)) t vb = (t = \<lparr>number = 2, tag_type = Fixed64\<rparr> \<and> vb = le_bytes 8 v \<and> isFinite v)"
| "value_shape (Some (String_value v)) t vb =
     (t = \<lparr>number = 3, tag_type = LengthDelimited\<rparr> \<and> delimited_bytes vb v \<and> utf8ValidateSlice v)"
| "value_shape (Some (Bool_value v)) t vb =
     (t = \<lparr>number = 4, tag_type = Varint\<rparr> \<and> (\<exists>w :: u64. v = (w \<noteq> 0) \<and> varint_bytes vb (unat w)))"
| "value_shape (Some (Struct_value v)) t vb = message_bytes Struct_decode 5 v t vb"
| "value_shape (Some (List_value v)) t vb = message_bytes ListValue_decode 6 v t vb"

lemma answers_any: "answers_below n Value_decode" "answers_below n Struct_decode" "answers_below n ListValue_decode"
    "answers_below n decodeStructField"
  by (simp_all add: answers_below_def decodes_answer del: not_None_eq)

interpretation value_fields: field_decoder "decodeValueField Struct_decode ListValue_decode" value_shape set_last
proof
  show "reads_ok (decodeValueField Struct_decode ListValue_decode t out)" for t out
    by (intro reads_ok_returns handlers_answer answers_any)
next
  fix self :: reader and vb rest t f out
  assume r: "reader_ok self" "depth_left self = 100" "rest_of self = vb @ rest" and shape: "value_shape f t vb"
  show "\<exists>s. decodeValueField Struct_decode ListValue_decode t out self = Some (Inr (set_last f out), s) \<and> index s = index self + length vb"
  proof (cases f)
    case None
    then show ?thesis using shape skip_field [OF r, of t out] by (simp add: decodeValueField_def set_last_def)
  next
    case (Some v)
    note at = readScalar_varint [OF r(1,3)] readScalar_bytes [OF r(1,3)]
    show ?thesis
    proof (cases v)
      case (Number_value d)
      have "readDouble self = Some (Inr d, self\<lparr>index := index self + length vb\<rparr>)"
        using double.reads_back [OF _ r(1), of d rest] r(3) shape Some Number_value by simp
      then show ?thesis using shape Some Number_value
        by (auto simp: decodeValueField_def set_last_def readScalar_at isFinite_def tryIn_apply)
    next
      case (Struct_value fs)
      then have m: "message_bytes Struct_decode 5 fs t vb" using shape Some by simp
      show ?thesis using message_bytes_number [OF m] readMessage_field [OF r(1,3) m] Some Struct_value
        by (simp add: decodeValueField_def set_last_def tryIn_apply)
    next
      case (List_value vs)
      then have m: "message_bytes ListValue_decode 6 vs t vb" using shape Some by simp
      show ?thesis using message_bytes_number [OF m] readMessage_field [OF r(1,3) m] Some List_value
        by (simp add: decodeValueField_def set_last_def tryIn_apply)
    qed (use shape Some at in \<open>auto simp: decodeValueField_def set_last_def tryIn_apply ensureUtf8_def\<close>)
  qed
qed

text \<open>The fields of a struct, of a list and of an entry.\<close>

definition element_shape :: "(bytes \<Rightarrow> (wkt_error + 'a) option) \<Rightarrow> 'a option \<Rightarrow> tag \<Rightarrow> bytes \<Rightarrow> bool" where
  "element_shape d f t vb = (case f of
       None \<Rightarrow> number t \<noteq> 1 \<and> value_bytes 100 t vb
     | Some x \<Rightarrow> message_bytes d 1 x t vb)"

definition set_element :: "('a \<Rightarrow> 's \<Rightarrow> 's) \<Rightarrow> 'a option \<Rightarrow> 's \<Rightarrow> 's" where
  "set_element add f out = (case f of None \<Rightarrow> out | Some x \<Rightarrow> add x out)"

lemma handle_element:
  assumes "reader_ok self" "depth_left self = 100" "rest_of self = vb @ rest" "element_shape d f t vb"
  shows "\<exists>s. (if number t = 1 then tryIn (readMessage d t) (\<lambda>x. return (add x out)) else tryIn (liftRead (skipValue t)) (\<lambda>_. return out)) self =
      Some (Inr (set_element add f out), s) \<and> index s = index self + length vb"
proof (cases f)
  case None
  then show ?thesis using assms(4) skip_field [OF assms(1-3), of t out] by (simp add: set_element_def element_shape_def)
next
  case (Some x)
  then have m: "message_bytes d 1 x t vb" using assms(4) by (simp add: element_shape_def)
  show ?thesis using message_bytes_number [OF m] readMessage_field [OF assms(1,3) m] Some
    by (simp add: set_element_def tryIn_apply)
qed

interpretation struct_fields: field_decoder "decodeFieldOfStruct decodeStructField" "element_shape decodeStructField"
    "set_element appendOrReplaceStructField"
proof
  show "reads_ok (decodeFieldOfStruct decodeStructField t out)" for t out
    by (intro reads_ok_returns handlers_answer answers_any)
qed (simp only: decodeFieldOfStruct_def handle_element)

interpretation list_fields: field_decoder "decodeFieldOfList Value_decode" "element_shape Value_decode"
    "set_element (\<lambda>v out. out @ [v])"
proof
  show "reads_ok (decodeFieldOfList Value_decode t out)" for t out
    by (intro reads_ok_returns handlers_answer answers_any)
qed (unfold decodeFieldOfList_def, rule handle_element [where add = "\<lambda>v out. out @ [v]"], assumption+)

datatype entry_field = KeyField bytes | ValueField Value | UnknownEntryField

definition entry_shape :: "entry_field \<Rightarrow> tag \<Rightarrow> bytes \<Rightarrow> bool" where
  "entry_shape f t vb = (case f of
       KeyField k \<Rightarrow> t = \<lparr>number = 1, tag_type = LengthDelimited\<rparr> \<and> delimited_bytes vb k \<and> utf8ValidateSlice k
     | ValueField v \<Rightarrow> message_bytes Value_decode 2 v t vb
     | UnknownEntryField \<Rightarrow> number t \<noteq> 1 \<and> number t \<noteq> 2 \<and> value_bytes 100 t vb)"

fun set_entry :: "entry_field \<Rightarrow> bytes \<times> Value \<Rightarrow> bytes \<times> Value" where
  "set_entry (KeyField k) out = (k, snd out)"
| "set_entry (ValueField v) out = (fst out, v)"
| "set_entry UnknownEntryField out = out"

interpretation entry_fields: field_decoder "decodeEntryField Value_decode" entry_shape set_entry
proof
  show "reads_ok (decodeEntryField Value_decode t out)" for t out
    by (intro reads_ok_returns handlers_answer answers_any)
next
  fix self :: reader and vb rest t f out
  assume r: "reader_ok self" "depth_left self = 100" "rest_of self = vb @ rest" and shape: "entry_shape f t vb"
  show "\<exists>s. decodeEntryField Value_decode t out self = Some (Inr (set_entry f out), s) \<and> index s = index self + length vb"
  proof (cases f)
    case (KeyField k)
    then show ?thesis using shape readScalar_bytes [OF r(1,3), of k t]
      by (simp add: entry_shape_def decodeEntryField_def tryIn_apply ensureUtf8_def)
  next
    case (ValueField v)
    then have m: "message_bytes Value_decode 2 v t vb" using shape by (simp add: entry_shape_def)
    show ?thesis using message_bytes_number [OF m] readMessage_field [OF r(1,3) m] ValueField
      by (simp add: decodeEntryField_def tryIn_apply)
  next
    case UnknownEntryField
    then show ?thesis using shape skip_field [OF r, of t out] by (simp add: entry_shape_def decodeEntryField_def)
  qed
qed

section \<open>What encoding writes\<close>

definition entry_enc :: "bytes \<Rightarrow> bytes \<Rightarrow> bytes" where
  "entry_enc key encoded = delimited_field 1 key @ delimited_field 2 encoded"

fun Value_enc :: "Value \<Rightarrow> bytes" where
  "Value_enc Null_value = tag_enc 1 Varint @ varint_enc 0"
| "Value_enc (Number_value v) = tag_enc 2 Fixed64 @ le_bytes 8 v"
| "Value_enc (String_value v) = delimited_field 3 v"
| "Value_enc (Bool_value v) = tag_enc 4 Varint @ bool_enc v"
| "Value_enc (Struct_value fs) =
     delimited_field 5 (concat (map (\<lambda>f. delimited_field 1 (entry_enc (fst f) (Value_enc (snd f)))) fs))"
| "Value_enc (List_value vs) = delimited_field 6 (concat (map (\<lambda>v. delimited_field 1 (Value_enc v)) vs))"

definition Struct_enc :: "Struct \<Rightarrow> bytes" where
  "Struct_enc fs = concat (map (\<lambda>f. delimited_field 1 (entry_enc (fst f) (Value_enc (snd f)))) fs)"

definition ListValue_enc :: "ListValue \<Rightarrow> bytes" where
  "ListValue_enc vs = concat (map (\<lambda>v. delimited_field 1 (Value_enc v)) vs)"

lemma Value_enc_nested: "Value_enc (Struct_value fs) = delimited_field 5 (Struct_enc fs)"
    "Value_enc (List_value vs) = delimited_field 6 (ListValue_enc vs)"
  by (simp_all add: Struct_enc_def ListValue_enc_def)

lemma fits_entry: "fits_usize (entry_enc key bs) \<Longrightarrow> fits_usize key \<and> fits_usize bs"
  unfolding entry_enc_def by (blast dest: fits_append fits_delimited_field)

lemma fits_elements:
  "fits_usize (Struct_enc fs) \<Longrightarrow> f \<in> set fs \<Longrightarrow>
     fits_usize (entry_enc (fst f) (Value_enc (snd f))) \<and> fits_usize (fst f) \<and> fits_usize (Value_enc (snd f))"
  "fits_usize (ListValue_enc vs) \<Longrightarrow> v \<in> set vs \<Longrightarrow> fits_usize (Value_enc v)"
  unfolding Struct_enc_def ListValue_enc_def by (auto dest!: fits_concat fits_delimited_field dest: fits_entry)

section \<open>Decoding what was encoded\<close>

lemma element_field_bytes:
  assumes "fits_usize bs" "d bs = Some (Inr x)"
  shows "field_bytes (element_shape d) (Some x) (delimited_field 1 bs)"
  unfolding delimited_field_def
  by (rule field_bytes_of_enc) (simp_all add: element_shape_def message_bytes_enc assms)

lemma decodeStructField_enc:
  assumes "fits_usize (entry_enc key bs)" "utf8ValidateSlice key" "Value_decode bs = Some (Inr v)"
  shows "decodeStructField (entry_enc key bs) = Some (Inr (key, v))"
proof -
  have fits: "fits_usize key" "fits_usize bs" using fits_entry [OF assms(1)] by simp_all
  have "field_bytes entry_shape (KeyField key) (delimited_field 1 key)"
    unfolding delimited_field_def
    by (rule field_bytes_of_enc) (simp_all add: entry_shape_def assms(2) delimited_bytes_enc fits)
  moreover have "field_bytes entry_shape (ValueField v) (delimited_field 2 bs)"
    unfolding delimited_field_def
    by (rule field_bytes_of_enc) (simp_all add: entry_shape_def message_bytes_enc fits assms(3))
  ultimately have "list_all2 (field_bytes entry_shape) [KeyField key, ValueField v] [delimited_field 1 key, delimited_field 2 bs]"
    by simp
  from entry_fields.decodeMessage_fields [OF this, of "([], Null_value)"] show ?thesis
    by (simp add: decode_eqs entry_enc_def)
qed

lemma fold_set_element: "fold (set_element add) (map Some xs) out = fold add xs out"
  by (induction xs arbitrary: out) (simp_all add: set_element_def)

lemma appendOrReplace_new: "fst field \<notin> fst ` set fs \<Longrightarrow> appendOrReplaceStructField field fs = fs @ [field]"
  by (induction fs) auto

lemma fold_append_new: "distinct (map fst (acc @ fs)) \<Longrightarrow> fold appendOrReplaceStructField fs acc = acc @ fs"
proof (induction fs arbitrary: acc)
  case (Cons f fs)
  then have "appendOrReplaceStructField f acc = acc @ [f]" by (intro appendOrReplace_new) auto
  then show ?case using Cons by simp
qed simp

lemma Struct_decode_elements:
  assumes "list_all2 (\<lambda>f bs. fits_usize bs \<and> decodeStructField bs = Some (Inr f)) fs bss"
  shows "Struct_decode (concat (map (delimited_field 1) bss)) = Some (Inr (fold appendOrReplaceStructField fs []))"
proof -
  have "list_all2 (field_bytes (element_shape decodeStructField)) (map Some fs) (map (delimited_field 1) bss)"
    using assms by (simp add: list.rel_map) (erule list_all2_mono, simp add: element_field_bytes)
  from struct_fields.decodeMessage_fields [OF this, of "[]"] show ?thesis by (simp add: decode_eqs fold_set_element)
qed

lemma ListValue_decode_elements:
  assumes "list_all2 (\<lambda>v bs. fits_usize bs \<and> Value_decode bs = Some (Inr v)) vs bss"
  shows "ListValue_decode (concat (map (delimited_field 1) bss)) = Some (Inr vs)"
proof -
  have "list_all2 (field_bytes (element_shape Value_decode)) (map Some vs) (map (delimited_field 1) bss)"
    using assms by (simp add: list.rel_map) (erule list_all2_mono, simp add: element_field_bytes)
  moreover have "fold (\<lambda>v out. out @ [v]) vs out = out @ vs" for out
    by (induction vs arbitrary: out) simp_all
  ultimately show ?thesis using list_fields.decodeMessage_fields [of "map Some vs" _ "[]"] by (simp add: decode_eqs fold_set_element)
qed

lemma Value_decode_field:
  "field_bytes value_shape (Some v) bs \<Longrightarrow> Value_decode bs = Some (Inr v)"
  using value_fields.decodeMessage_fields [of "[Some v]" "[bs]" Null_value] by (simp add: decode_eqs set_last_def)

text \<open>What the elements allow, the struct and the list allow.\<close>

lemma Struct_decode_enc_if:
  assumes "wellformed (Struct_value fs)" "fits_usize (Struct_enc fs)"
    and "\<And>f. f \<in> set fs \<Longrightarrow> wellformed (snd f) \<Longrightarrow> fits_usize (Value_enc (snd f)) \<Longrightarrow> Value_decode (Value_enc (snd f)) = Some (Inr (snd f))"
  shows "Struct_decode (Struct_enc fs) = Some (Inr fs)"
proof -
  have "list_all2 (\<lambda>f bs. fits_usize bs \<and> decodeStructField bs = Some (Inr f)) fs (map (\<lambda>f. entry_enc (fst f) (Value_enc (snd f))) fs)"
  proof (unfold list.rel_map, rule list.rel_refl_strong)
    fix f
    assume f: "f \<in> set fs"
    have e: "fits_usize (entry_enc (fst f) (Value_enc (snd f)))" "fits_usize (Value_enc (snd f))"
      using fits_elements(1) [OF assms(2) f] by simp_all
    have "utf8ValidateSlice (fst f)" "wellformed (snd f)" using assms(1) f by (simp_all add: list_all_iff)
    then show "fits_usize (entry_enc (fst f) (Value_enc (snd f))) \<and>
        decodeStructField (entry_enc (fst f) (Value_enc (snd f))) = Some (Inr f)"
      using decodeStructField_enc [OF e(1), of "snd f"] e assms(3) [OF f] by (cases f) simp
  qed
  from Struct_decode_elements [OF this] show ?thesis
    using assms(1) by (simp add: Struct_enc_def comp_def fold_append_new [of "[]"])
qed

lemma ListValue_decode_enc_if:
  assumes "wellformed (List_value vs)" "fits_usize (ListValue_enc vs)"
    and "\<And>v. v \<in> set vs \<Longrightarrow> wellformed v \<Longrightarrow> fits_usize (Value_enc v) \<Longrightarrow> Value_decode (Value_enc v) = Some (Inr v)"
  shows "ListValue_decode (ListValue_enc vs) = Some (Inr vs)"
proof -
  have "list_all2 (\<lambda>v bs. fits_usize bs \<and> Value_decode bs = Some (Inr v)) vs (map Value_enc vs)"
    using assms(1,3) fits_elements(2) [OF assms(2)] by (simp add: list.rel_map list_all_iff list.rel_refl_strong)
  from ListValue_decode_elements [OF this] show ?thesis by (simp add: ListValue_enc_def comp_def)
qed

lemma Value_enc_field:
  "wellformed v \<Longrightarrow> fits_usize (Value_enc v) \<Longrightarrow> field_bytes value_shape (Some v) (Value_enc v)"
proof (induction v)
  case (Struct_value fs)
  have fits: "fits_usize (Struct_enc fs)" using Struct_value.prems(2) unfolding Value_enc_nested by (rule fits_delimited_field)
  have "Struct_decode (Struct_enc fs) = Some (Inr fs)"
    by (rule Struct_decode_enc_if [OF Struct_value.prems(1) fits]) (metis Struct_value.IH Value_decode_field prod.collapse snds.intros)
  then show ?case
    unfolding Value_enc_nested delimited_field_def by (intro field_bytes_of_enc) (simp_all add: message_bytes_enc fits)
next
  case (List_value vs)
  have fits: "fits_usize (ListValue_enc vs)" using List_value.prems(2) unfolding Value_enc_nested by (rule fits_delimited_field)
  have "ListValue_decode (ListValue_enc vs) = Some (Inr vs)"
    by (rule ListValue_decode_enc_if [OF List_value.prems(1) fits]) (blast intro: Value_decode_field List_value.IH)
  then show ?case
    unfolding Value_enc_nested delimited_field_def by (intro field_bytes_of_enc) (simp_all add: message_bytes_enc fits)
next
  case Null_value
  have "varint_bytes (varint_enc 0) (unat (0 :: u64))" by (simp add: varint_bytes_enc)
  then show ?case by (auto intro!: field_bytes_of_enc exI [of _ "0 :: u64"])
next
  case (Bool_value b)
  have "varint_bytes (bool_enc b) (unat (if b then 1 else 0 :: u64))" by (simp add: bool_enc_varint varint_bytes_enc)
  then show ?case by (cases b) (auto intro!: field_bytes_of_enc exI [of _ "if b then 1 else 0 :: u64"])
next
  case (String_value s)
  then show ?case using fits_delimited_field [of 3 s] delimited_bytes_enc [of s] unfolding Value_enc.simps delimited_field_def
    by (intro field_bytes_of_enc) simp_all
qed (simp add: field_bytes_of_enc)

lemma Value_decode_enc: "wellformed v \<Longrightarrow> fits_usize (Value_enc v) \<Longrightarrow> Value_decode (Value_enc v) = Some (Inr v)"
  by (intro Value_decode_field Value_enc_field)

lemma Struct_decode_enc: "wellformed (Struct_value fs) \<Longrightarrow> fits_usize (Struct_enc fs) \<Longrightarrow> Struct_decode (Struct_enc fs) = Some (Inr fs)"
  and ListValue_decode_enc: "wellformed (List_value vs) \<Longrightarrow> fits_usize (ListValue_enc vs) \<Longrightarrow> ListValue_decode (ListValue_enc vs) = Some (Inr vs)"
  by (intro Struct_decode_enc_if ListValue_decode_enc_if Value_decode_enc; assumption)+

section \<open>What encoding returns\<close>

lemma outputs_writeStructField:
  assumes "encodes ok m bs" "fits_usize (entry_enc key bs)"
  shows "outputs (utf8ValidateSlice key \<and> ok) (writeStructField key m) (delimited_field 1 (entry_enc key bs))"
proof -
  have fits: "fits_usize key" "fits_usize bs" using fits_entry [OF assms(2)] by simp_all
  let ?body = "tryIn (liftWrite (writeString 1 key)) (\<lambda>_. tryIn (withAllocator m) (\<lambda>value_bytes. liftWrite (writeMessage 2 value_bytes)))"
  have "outputs (True \<and> (ok \<and> True)) ?body (entry_enc key bs)"
    unfolding entry_enc_def by (intro outputs_tryIn outputs_withAllocator [OF assms(1)] outputs_writers fits) simp_all
  then have body: "encodes ok (inNewWriter (tryIn ?body (\<lambda>_ s. Some (Inr (writer_slice s), s)))) (entry_enc key bs)"
    by (intro encodes_inNewWriter) simp_all
  have "outputs (utf8ValidateSlice key \<and> (ok \<and> True)) (writeStructField key m) (delimited_field 1 (entry_enc key bs))"
    unfolding writeStructField_def
    by (intro outputs_ensureUtf8 outputs_withAllocator [OF body [unfolded tryIn_assoc]] outputs_writers assms(2)) simp_all
  then show ?thesis by simp
qed

text \<open>What \<open>encode\<close> accepts: unlike \<open>wellformed\<close>, it does not look for repeated keys.\<close>

fun encodable :: "Value \<Rightarrow> bool" where
  "encodable (Number_value v) = isFinite v"
| "encodable (String_value v) = utf8ValidateSlice v"
| "encodable (Struct_value fs) = list_all (\<lambda>f. utf8ValidateSlice (fst f) \<and> encodable (snd f)) fs"
| "encodable (List_value vs) = list_all encodable vs"
| "encodable _ = True"

lemma wellformed_encodable: "wellformed v \<Longrightarrow> encodable v"
proof (induction v)
  case (Struct_value fs)
  have "encodable (snd f)" if "f \<in> set fs" for f
    using Struct_value.IH [OF that, of "snd f"] Struct_value.prems that by (cases f) (auto simp: list_all_iff)
  then show ?case using Struct_value.prems by (simp add: list_all_iff)
qed (simp_all add: list_all_iff)

lemma encodes_values:
  "fits_usize (Value_enc v) \<Longrightarrow> encodes (encodable v) (Value_encode v) (Value_enc v)"
  "fits_usize (Struct_enc fs) \<Longrightarrow> encodes (encodable (Struct_value fs)) (Struct_encode fs) (Struct_enc fs)"
  "fits_usize (ListValue_enc vs) \<Longrightarrow> encodes (encodable (List_value vs)) (ListValue_encode vs) (ListValue_enc vs)"
proof (induction v and fs and vs rule: Value_encode_Struct_encode_ListValue_encode.induct)
  case 1
  have "outputs True (liftWrite (writeInt32 1 0)) (tag_enc 1 Varint @ varint_enc 0)"
    using int32.writes_appends [of 1 0] by (intro outputs_liftWrite) simp
  then show ?case by (simp add: encodes_encodeMessage)
next
  case (2 v)
  have "outputs True (liftWrite (writeDouble 2 v)) (tag_enc 2 Fixed64 @ le_bytes 8 v)"
    by (intro outputs_liftWrite double.writes_appends) simp_all
  then have "outputs (isFinite v) (if isNan v \<or> isPositiveInf v \<or> isNegativeInf v then throw InvalidNumber else liftWrite (writeDouble 2 v))
      (tag_enc 2 Fixed64 @ le_bytes 8 v)"
    using outputs_throw by (cases "isFinite v") (simp_all add: isFinite_def)
  then show ?case unfolding Value_encode.simps Value_enc.simps encodable.simps by (rule encodes_encodeMessage)
next
  case (3 v)
  have "outputs (utf8ValidateSlice v \<and> True) (tryIn (liftSum (ensureUtf8 v)) (\<lambda>_. liftWrite (writeString 3 v))) (delimited_field 3 v)"
    using 3 fits_delimited_field [of 3 v] by (intro outputs_ensureUtf8 outputs_writers) simp_all
  then show ?case unfolding Value_encode.simps Value_enc.simps encodable.simps by (intro encodes_encodeMessage) simp
next
  case (4 v)
  have "outputs True (liftWrite (writeBool 4 v)) (tag_enc 4 Varint @ bool_enc v)"
    by (intro outputs_liftWrite bool.writes_appends) simp_all
  then show ?case by (simp add: encodes_encodeMessage)
next
  case (5 fs)
  then have fits: "fits_usize (Struct_enc fs)" unfolding Value_enc_nested by (elim fits_delimited_field)
  show ?case unfolding Value_encode.simps Value_enc_nested
    by (rule encodes_True, rule encodes_encodeMessage, rule outputs_withAllocator [OF 5(1) [OF fits]], rule outputs_writers) (simp_all add: fits)
next
  case (6 vs)
  then have fits: "fits_usize (ListValue_enc vs)" unfolding Value_enc_nested by (elim fits_delimited_field)
  show ?case unfolding Value_encode.simps Value_enc_nested
    by (rule encodes_True, rule encodes_encodeMessage, rule outputs_withAllocator [OF 6(1) [OF fits]], rule outputs_writers) (simp_all add: fits)
next
  case (7 fs)
  show ?case unfolding Struct_encode.simps Struct_enc_def encodable.simps
    by (intro encodes_encodeMessage outputs_forEach outputs_writeStructField) (use 7 fits_elements(1) [OF 7(2)] in simp_all)
next
  case (8 vs)
  have "outputs (encodable v \<and> True)
      (tryIn (withAllocator (Value_encode v)) (\<lambda>value_bytes. liftWrite (writeMessage 1 value_bytes))) (delimited_field 1 (Value_enc v))"
    if "v \<in> set vs" for v
    using that 8 fits_elements(2) [OF 8(2) that] by (intro outputs_withAllocator [where x = "Value_enc v"] outputs_writers) simp_all
  then show ?case unfolding ListValue_encode.simps ListValue_enc_def encodable.simps
    by (intro encodes_encodeMessage outputs_forEach) simp
qed

section \<open>Properties\<close>

lemma encoded_struct: "fits_usize (Value_enc (Struct_value fs)) \<Longrightarrow> fits_usize (Struct_enc fs)"
    "fits_usize (Value_enc (List_value vs)) \<Longrightarrow> fits_usize (ListValue_enc vs)"
  unfolding Value_enc_nested by (rule fits_delimited_field, assumption)+

lemma fold_set_known: "fold (set_element add) es out = fold add (known es) out"
proof (induction es arbitrary: out)
  case (Cons f es)
  then show ?case by (cases f) (simp_all add: set_element_def)
qed simp

lemma map_of_appendOrReplace: "map_of (appendOrReplaceStructField field fs) = (map_of fs)(fst field \<mapsto> snd field)"
  by (induction fs) (auto simp: fun_eq_iff)

lemma fold_appendOrReplace:
  "map_of (fold appendOrReplaceStructField fs []) = map_of (rev fs)"
  "map fst (fold appendOrReplaceStructField fs []) = rev (remdups (rev (map fst fs)))"
proof -
  show "map_of (fold appendOrReplaceStructField fs []) = map_of (rev fs)"
    by (induction fs rule: rev_induct) (simp_all add: map_of_appendOrReplace)
  show "map fst (fold appendOrReplaceStructField fs []) = rev (remdups (rev (map fst fs)))"
  proof (induction fs rule: rev_induct)
    case (snoc f fs)
    have "fst ` set (fold appendOrReplaceStructField fs []) = set (map fst (fold appendOrReplaceStructField fs []))" by simp
    also have "\<dots> = fst ` set fs" by (simp only: snoc) simp
    finally show ?case using snoc by (simp add: keys_appendOrReplace)
  qed simp
qed

text \<open>
  C16: \<open>Value\<close>, \<open>Struct\<close> and \<open>ListValue\<close> survive the wire: with any allocator, encoding a
  well-formed value returns bytes that decode to it, or reports that memory was refused; an
  infinite number, a NaN or a string that is not UTF-8, however deep in the tree, is rejected.
\<close>

theorem value_wire_roundtrip:
  assumes "fits_usize (Value_enc v)"
  shows "(wellformed v \<longrightarrow> encoded_result (Value_encode v) Value_decode v True) \<and>
    (\<not> encodable v \<longrightarrow> encoded_result (Value_encode v) Value_decode v False)"
  using encodes_values(1) [OF assms] Value_decode_enc [OF _ assms] wellformed_encodable [of v]
  by (auto intro!: encoded_resultI)

theorem value_wire_roundtrip_witness:
  "encoded_result (Value_encode (Struct_value [([0x61], List_value [Bool_value True, Null_value])])) Value_decode
     (Struct_value [([0x61], List_value [Bool_value True, Null_value])]) True"
proof -
  let ?v = "Struct_value [([0x61], List_value [Bool_value True, Null_value])]"
  have "wellformed ?v" by simp
  moreover have "fits_usize (Value_enc ?v)"
    by (simp add: fits_usize_def usize_max_def delimited_field_def delimited_enc_def entry_enc_def bool_enc_def tag_enc_def varint_enc_small)
  ultimately show ?thesis using value_wire_roundtrip by blast
qed

text \<open>
  C19: the decoders of \<open>Value\<close>, \<open>Struct\<close> and \<open>ListValue\<close>, which call each other for every
  message in a field, return on every input, and what they return is well-formed: numbers are
  finite, strings and keys are UTF-8, and no object has a key twice.
\<close>

theorem value_decoders_return_wellformed:
  "(case Value_decode bs of None \<Rightarrow> False | Some (Inl _) \<Rightarrow> True | Some (Inr v) \<Rightarrow> wellformed v) \<and>
   (case Struct_decode bs of None \<Rightarrow> False | Some (Inl _) \<Rightarrow> True | Some (Inr fs) \<Rightarrow> wellformed (Struct_value fs)) \<and>
   (case ListValue_decode bs of None \<Rightarrow> False | Some (Inl _) \<Rightarrow> True | Some (Inr vs) \<Rightarrow> wellformed (List_value vs))"
  using decodes_answer [of bs] decode_wellformed(1,2,3) [of bs] unfolding wellformed_struct
  by (auto split: option.splits sum.splits)

text \<open>
  A field that comes again replaces the earlier one: the last field of a \<open>Value\<close>, of
  whatever kind, is its value, and in a \<open>Struct\<close> a key keeps the place of its first field and
  takes the value of its last. Fields with other numbers are skipped.
\<close>

theorem value_decode_last_wins:
  "(list_all2 (field_bytes value_shape) vs bss \<longrightarrow> Value_decode (concat bss) = Some (Inr (last (Null_value # known vs)))) \<and>
   (list_all2 (field_bytes (element_shape decodeStructField)) es bss \<longrightarrow>
      (\<exists>fs. Struct_decode (concat bss) = Some (Inr fs) \<and>
        map fst fs = rev (remdups (rev (map fst (known es)))) \<and> map_of fs = map_of (rev (known es))))"
  using value_fields.decodeMessage_fields [of vs bss Null_value] struct_fields.decodeMessage_fields [of es bss "[]"]
  by (auto simp: decode_eqs fold_set_last fold_set_known fold_appendOrReplace)

theorem value_decode_last_wins_witness:
  "Value_decode (Value_enc (Bool_value True) @ Value_enc Null_value) = Some (Inr Null_value) \<and>
   (\<exists>fs. Struct_decode (delimited_field 1 (entry_enc [0x61] (Value_enc Null_value)) @
       delimited_field 1 (entry_enc [0x61] (Value_enc (Bool_value True)))) = Some (Inr fs) \<and> map fst fs = [[0x61]])"
proof -
  have fits: "fits_usize (Value_enc v)" "fits_usize (entry_enc [0x61] (Value_enc v))" if "v = Null_value \<or> v = Bool_value True" for v
    using that by (auto simp: fits_usize_def usize_max_def delimited_field_def delimited_enc_def entry_enc_def bool_enc_def tag_enc_def varint_enc_small)
  have "list_all2 (field_bytes value_shape) [Some (Bool_value True), Some Null_value] [Value_enc (Bool_value True), Value_enc Null_value]"
    using fits(1) by (simp add: Value_enc_field del: Value_enc.simps)
  from value_decode_last_wins [THEN conjunct1, rule_format, OF this]
  have v: "Value_decode (Value_enc (Bool_value True) @ Value_enc Null_value) = Some (Inr Null_value)"
    by (simp del: Value_enc.simps)
  have "field_bytes (element_shape decodeStructField) (Some ([0x61], v)) (delimited_field 1 (entry_enc [0x61] (Value_enc v)))"
    if "v = Null_value \<or> v = Bool_value True" for v
    using fits [OF that] that by (intro element_field_bytes decodeStructField_enc Value_decode_enc) auto
  then have "list_all2 (field_bytes (element_shape decodeStructField)) [Some ([0x61], Null_value), Some ([0x61], Bool_value True)]
      [delimited_field 1 (entry_enc [0x61] (Value_enc Null_value)), delimited_field 1 (entry_enc [0x61] (Value_enc (Bool_value True)))]"
    by (simp del: Value_enc.simps)
  from value_decode_last_wins [THEN conjunct2, rule_format, OF this] v show ?thesis by (auto simp del: Value_enc.simps)
qed

text \<open>
  C38: with a key that occurs twice, which the type allows and encoding accepts, the comparison
  of structs is not an equivalence: every field of the left side is looked up on the right,
  where only the first field with its key is seen. A struct with a later value for a key that
  is not equal to the first one is not equal to itself; and a struct of one field, repeated
  at least twice, is equal to every well-formed struct of its length with this field in front,
  which is not equal to it. Encoding accepts every struct whose keys are UTF-8 and whose values are
  well-formed, whatever keys occur twice.
\<close>

theorem struct_equality_asymmetric:
  "(fieldValue fs key = Inr v \<and> (key, w) \<in> set fs \<and> \<not> valueEqual w v \<longrightarrow> \<not> structEqual fs fs) \<and>
   (wellformed (Struct_value (f # gs)) \<and> gs \<noteq> [] \<longrightarrow>
      structEqual (replicate (length (f # gs)) f) (f # gs) \<and> \<not> structEqual (f # gs) (replicate (length (f # gs)) f)) \<and>
   (list_all (\<lambda>f. utf8ValidateSlice (fst f) \<and> wellformed (snd f)) fs \<and> fits_usize (Struct_enc fs) \<longrightarrow>
      encodes True (Struct_encode fs) (Struct_enc fs))"
proof (intro conjI impI; elim conjE)
  assume v: "fieldValue fs key = Inr v" and w: "(key, w) \<in> set fs" "\<not> valueEqual w v"
  then show "\<not> structEqual fs fs" by (fastforce simp: equal_iff list_all_iff)
next
  assume wf: "wellformed (Struct_value (f # gs))" and gs: "gs \<noteq> []"
  then have f: "valueEqual (snd f) (snd f)" using valueEqual_document [of "snd f" "snd f"] by (cases f) auto
  have "fieldValue (f # gs) (fst f) = Inr (snd f)" by (cases f) (simp add: fieldValue_map_of)
  then show "structEqual (replicate (length (f # gs)) f) (f # gs)" using f
    unfolding equal_iff list_all_iff set_replicate_conv_if by simp
next
  assume wf: "wellformed (Struct_value (f # gs))" and gs: "gs \<noteq> []"
  then obtain g where g: "g \<in> set gs" "fst g \<noteq> fst f" by (cases gs; cases f) auto
  have "fieldValue (replicate n f) (fst g) = Inl UnknownField" for n
    using g(2) by (induction n) (auto simp: fieldValue_map_of)
  from this [of "length (f # gs)"] show "\<not> structEqual (f # gs) (replicate (length (f # gs)) f)"
    using g(1) unfolding equal_iff list_all_iff by (fastforce simp del: replicate.simps)
next
  assume ok: "list_all (\<lambda>f. utf8ValidateSlice (fst f) \<and> wellformed (snd f)) fs" and fits: "fits_usize (Struct_enc fs)"
  have "encodable (Struct_value fs)" using ok wellformed_encodable by (auto simp: list_all_iff)
  then show "encodes True (Struct_encode fs) (Struct_enc fs)" using encodes_values(2) [OF fits] by (simp del: encodable.simps)
qed

theorem struct_equality_asymmetric_witness:
  "\<not> structEqual [([0x61], Bool_value True), ([0x61], Bool_value False)] [([0x61], Bool_value True), ([0x61], Bool_value False)] \<and>
   structEqual [([], Null_value), ([], Null_value)] [([], Null_value), ([0x61], Null_value)] \<and>
   \<not> structEqual [([], Null_value), ([0x61], Null_value)] [([], Null_value), ([], Null_value)]"
proof -
  have "\<not> structEqual [([0x61], Bool_value True), ([0x61], Bool_value False)] [([0x61], Bool_value True), ([0x61], Bool_value False)]"
    by (rule struct_equality_asymmetric [of _ "[0x61]" "Bool_value True" "Bool_value False", THEN conjunct1, THEN mp])
      (simp add: fieldValue_map_of)
  moreover have "structEqual (replicate (length [([], Null_value), ([0x61 :: byte], Null_value)]) ([], Null_value)) [([], Null_value), ([0x61], Null_value)] \<and>
     \<not> structEqual [([], Null_value), ([0x61], Null_value)] (replicate (length [([], Null_value), ([0x61 :: byte], Null_value)]) ([], Null_value))"
    by (rule struct_equality_asymmetric [THEN conjunct2, THEN conjunct1, THEN mp]) (simp add: utf8ValidateSlice.simps(2))
  ultimately show ?thesis by simp
qed

end
