(* ===== verification/Wkt_Wrapper.thy ===== *)
theory Wkt_Wrapper
  imports Wkt_Encode
begin

text \<open>
  The messages \<open>Empty\<close> and \<open>Wrapper\<close> of \<open>src/wkt.zig\<close>: a message without fields, and one for each
  of nine scalar types that holds a scalar in field 1. The code is one function for all nine,
  specialised at compile time by \<open>scalar\<close>; here the value carries its scalar type. A float is
  the word of its IEEE bits.
\<close>

section \<open>Wrappers\<close>

datatype WrapperScalar = Scalar_double | Scalar_float | Scalar_int64 | Scalar_uint64 | Scalar_int32 | Scalar_uint32
  | Scalar_bool | Scalar_string | Scalar_bytes

datatype Wrapper = Wrap_double u64 | Wrap_float u32 | Wrap_int64 i64 | Wrap_uint64 u64 | Wrap_int32 i32 | Wrap_uint32 u32
  | Wrap_bool bool | Wrap_string bytes | Wrap_bytes bytes

fun defaultWrapperValue :: "WrapperScalar \<Rightarrow> Wrapper" where
  "defaultWrapperValue Scalar_double = Wrap_double 0"
| "defaultWrapperValue Scalar_float = Wrap_float 0"
| "defaultWrapperValue Scalar_int64 = Wrap_int64 0"
| "defaultWrapperValue Scalar_uint64 = Wrap_uint64 0"
| "defaultWrapperValue Scalar_int32 = Wrap_int32 0"
| "defaultWrapperValue Scalar_uint32 = Wrap_uint32 0"
| "defaultWrapperValue Scalar_bool = Wrap_bool False"
| "defaultWrapperValue Scalar_string = Wrap_string []"
| "defaultWrapperValue Scalar_bytes = Wrap_bytes []"

fun writeWrapper :: "Wrapper \<Rightarrow> (writer, wkt_error, unit) op" where
  "writeWrapper (Wrap_double v) = liftWrite (writeDouble 1 v)"
| "writeWrapper (Wrap_float v) = liftWrite (writeFloat 1 v)"
| "writeWrapper (Wrap_int64 v) = liftWrite (writeInt64 1 v)"
| "writeWrapper (Wrap_uint64 v) = liftWrite (writeUInt64 1 v)"
| "writeWrapper (Wrap_int32 v) = liftWrite (writeInt32 1 v)"
| "writeWrapper (Wrap_uint32 v) = liftWrite (writeUInt32 1 v)"
| "writeWrapper (Wrap_bool v) = liftWrite (writeBool 1 v)"
| "writeWrapper (Wrap_string v) = tryIn (liftSum (ensureUtf8 v)) (\<lambda>_. liftWrite (writeString 1 v))"
| "writeWrapper (Wrap_bytes v) = liftWrite (writeBytes 1 v)"

definition Wrapper_encode :: "Wrapper \<Rightarrow> bytes encoding" where
  "Wrapper_encode self = encodeMessage (writeWrapper self)"

fun readWrapper :: "WrapperScalar \<Rightarrow> tag \<Rightarrow> Wrapper decoding" where
  "readWrapper Scalar_double t = tryIn (readScalar Fixed64 readDouble t) (\<lambda>v. return (Wrap_double v))"
| "readWrapper Scalar_float t = tryIn (readScalar Fixed32 readFloat t) (\<lambda>v. return (Wrap_float v))"
| "readWrapper Scalar_int64 t = tryIn (readScalar Varint readInt64 t) (\<lambda>v. return (Wrap_int64 v))"
| "readWrapper Scalar_uint64 t = tryIn (readScalar Varint readUInt64 t) (\<lambda>v. return (Wrap_uint64 v))"
| "readWrapper Scalar_int32 t = tryIn (readScalar Varint readInt32 t) (\<lambda>v. return (Wrap_int32 v))"
| "readWrapper Scalar_uint32 t = tryIn (readScalar Varint readUInt32 t) (\<lambda>v. return (Wrap_uint32 v))"
| "readWrapper Scalar_bool t = tryIn (readScalar Varint readBool t) (\<lambda>v. return (Wrap_bool v))"
| "readWrapper Scalar_string t = tryIn (readScalar LengthDelimited readBytes t) (\<lambda>v.
     tryIn (liftSum (ensureUtf8 v)) (\<lambda>_. return (Wrap_string v)))"
| "readWrapper Scalar_bytes t = tryIn (readScalar LengthDelimited readBytes t) (\<lambda>v. return (Wrap_bytes v))"

definition decodeWrapperField :: "WrapperScalar \<Rightarrow> tag \<Rightarrow> Wrapper \<Rightarrow> Wrapper decoding" where
  "decodeWrapperField scalar t out =
     (if number t \<noteq> 1 then tryIn (liftRead (skipValue t)) (\<lambda>_. return out) else readWrapper scalar t)"

definition Wrapper_decode :: "WrapperScalar \<Rightarrow> bytes \<Rightarrow> (wkt_error + Wrapper) option" where
  "Wrapper_decode scalar = decodeMessage (decodeWrapperField scalar) (defaultWrapperValue scalar)"

section \<open>Empty\<close>

text \<open>A copy of no bytes asks for no memory.\<close>

definition Empty_encode :: "bytes encoding" where
  "Empty_encode = return []"

definition Empty_decode :: "bytes \<Rightarrow> (wkt_error + unit) option" where
  "Empty_decode = decodeMessage (\<lambda>t _. tryIn (liftRead (skipValue t)) (\<lambda>_. return ())) ()"

section \<open>The field of a wrapper\<close>

fun scalar_of :: "Wrapper \<Rightarrow> WrapperScalar" where
  "scalar_of (Wrap_double _) = Scalar_double"
| "scalar_of (Wrap_float _) = Scalar_float"
| "scalar_of (Wrap_int64 _) = Scalar_int64"
| "scalar_of (Wrap_uint64 _) = Scalar_uint64"
| "scalar_of (Wrap_int32 _) = Scalar_int32"
| "scalar_of (Wrap_uint32 _) = Scalar_uint32"
| "scalar_of (Wrap_bool _) = Scalar_bool"
| "scalar_of (Wrap_string _) = Scalar_string"
| "scalar_of (Wrap_bytes _) = Scalar_bytes"

text \<open>Its wire type and the bytes a value can have; a narrow integer is cut from any varint.\<close>

fun wrapper_wire :: "WrapperScalar \<Rightarrow> wire_type" where
  "wrapper_wire Scalar_double = Fixed64"
| "wrapper_wire Scalar_float = Fixed32"
| "wrapper_wire Scalar_string = LengthDelimited"
| "wrapper_wire Scalar_bytes = LengthDelimited"
| "wrapper_wire _ = Varint"

definition varint_of :: "(u64 \<Rightarrow> 'a) \<Rightarrow> 'a \<Rightarrow> bytes \<Rightarrow> bool" where
  "varint_of f v vb \<longleftrightarrow> (\<exists>w. v = f w \<and> varint_bytes vb (unat w))"

fun wrapper_value_bytes :: "Wrapper \<Rightarrow> bytes \<Rightarrow> bool" where
  "wrapper_value_bytes (Wrap_double v) vb = (vb = le_bytes 8 v)"
| "wrapper_value_bytes (Wrap_float v) vb = (vb = le_bytes 4 v)"
| "wrapper_value_bytes (Wrap_int64 v) vb = varint_bytes vb (unat v)"
| "wrapper_value_bytes (Wrap_uint64 v) vb = varint_bytes vb (unat v)"
| "wrapper_value_bytes (Wrap_int32 v) vb = varint_of ucast v vb"
| "wrapper_value_bytes (Wrap_uint32 v) vb = varint_of ucast v vb"
| "wrapper_value_bytes (Wrap_bool v) vb = varint_of (\<lambda>w. w \<noteq> 0) v vb"
| "wrapper_value_bytes (Wrap_string v) vb = (delimited_bytes vb v \<and> utf8ValidateSlice v)"
| "wrapper_value_bytes (Wrap_bytes v) vb = delimited_bytes vb v"

definition wrapper_shape :: "WrapperScalar \<Rightarrow> Wrapper option \<Rightarrow> tag \<Rightarrow> bytes \<Rightarrow> bool" where
  "wrapper_shape scalar f t vb = (case f of
       None \<Rightarrow> number t \<noteq> 1 \<and> value_bytes 100 t vb
     | Some w \<Rightarrow> scalar_of w = scalar \<and> t = \<lparr>number = 1, tag_type = wrapper_wire scalar\<rparr> \<and> wrapper_value_bytes w vb)"

lemma reads_ok_readWrapper [reading]: "reads_ok (readWrapper scalar t)"
  by (cases scalar) (simp_all, (intro reading)+)

lemma readWrapper_at:
  assumes "reader_ok self" "rest_of self = vb @ rest" "t = \<lparr>number = 1, tag_type = wrapper_wire (scalar_of w)\<rparr>" "wrapper_value_bytes w vb"
  shows "readWrapper (scalar_of w) t self = Some (Inr w, self\<lparr>index := index self + length vb\<rparr>)"
proof (cases w)
  case (Wrap_double v)
  have "readDouble self = Some (Inr v, self\<lparr>index := index self + length vb\<rparr>)"
    using double.reads_back [OF _ assms(1), of v rest] assms(2,4) Wrap_double by simp
  then show ?thesis using assms(3) Wrap_double by (simp add: readScalar_at tryIn_apply)
next
  case (Wrap_float v)
  have "readFloat self = Some (Inr v, self\<lparr>index := index self + length vb\<rparr>)"
    using float.reads_back [OF _ assms(1), of v rest] assms(2,4) Wrap_float by simp
  then show ?thesis using assms(3) Wrap_float by (simp add: readScalar_at tryIn_apply)
qed (use assms(3,4) readScalar_varint [OF assms(1,2)] readScalar_bytes [OF assms(1,2)] in
  \<open>auto simp: varint_of_def tryIn_apply ensureUtf8_def\<close>)

interpretation wrapper_fields: field_decoder "decodeWrapperField scalar" "wrapper_shape scalar" set_last for scalar
proof
  show "reads_ok (decodeWrapperField scalar t out)" for t out
    unfolding decodeWrapperField_def by (intro reading)
next
  fix self :: reader and vb rest t f out
  assume r: "reader_ok self" "depth_left self = 100" "rest_of self = vb @ rest" and shape: "wrapper_shape scalar f t vb"
  show "\<exists>s. decodeWrapperField scalar t out self = Some (Inr (set_last f out), s) \<and> index s = index self + length vb"
  proof (cases f)
    case None
    then show ?thesis using shape skip_field [OF r, of t out] by (simp add: wrapper_shape_def decodeWrapperField_def set_last_def)
  next
    case (Some w)
    then show ?thesis using shape readWrapper_at [OF r(1,3), of t w]
      by (simp add: wrapper_shape_def decodeWrapperField_def set_last_def)
  qed
qed

interpretation empty_fields: field_decoder "\<lambda>t _. tryIn (liftRead (skipValue t)) (\<lambda>_. return ())" "\<lambda>_. value_bytes 100" "\<lambda>_ _. ()"
proof
  show "reads_ok (tryIn (liftRead (skipValue t)) (\<lambda>_. return ()))" for t by (intro reading)
qed (rule skip_field)

section \<open>Round trip\<close>

fun wrapper_enc :: "Wrapper \<Rightarrow> bytes" where
  "wrapper_enc (Wrap_double v) = le_bytes 8 v"
| "wrapper_enc (Wrap_float v) = le_bytes 4 v"
| "wrapper_enc (Wrap_int64 v) = varint_enc (unat v)"
| "wrapper_enc (Wrap_uint64 v) = varint_enc (unat v)"
| "wrapper_enc (Wrap_int32 v) = varint_enc (unat (scast v :: u64))"
| "wrapper_enc (Wrap_uint32 v) = varint_enc (unat (ucast v :: u64))"
| "wrapper_enc (Wrap_bool v) = bool_enc v"
| "wrapper_enc (Wrap_string v) = delimited_enc v"
| "wrapper_enc (Wrap_bytes v) = delimited_enc v"

definition wrapper_ok :: "Wrapper \<Rightarrow> bool" where
  "wrapper_ok w \<longleftrightarrow> (case w of Wrap_string s \<Rightarrow> utf8ValidateSlice s | _ \<Rightarrow> True)"

definition wrapper_fits :: "Wrapper \<Rightarrow> bool" where
  "wrapper_fits w \<longleftrightarrow> (case w of Wrap_string s \<Rightarrow> fits_usize s | Wrap_bytes s \<Rightarrow> fits_usize s | _ \<Rightarrow> True)"

lemma varint_bytes_u64: "varint_bytes (varint_enc (unat u)) (unat (u :: u64))"
  using varint_bytes_enc [of "unat u"] unat_bound [of u] by simp

lemma varint_of_enc: "v = f u \<Longrightarrow> varint_of f v (varint_enc (unat u))"
  using varint_bytes_u64 [of u] by (auto simp: varint_of_def)

lemma wrapper_value_bytes_enc:
  assumes "wrapper_fits w" "wrapper_ok w"
  shows "wrapper_value_bytes w (wrapper_enc w)"
proof -
  have "varint_of (\<lambda>w. w \<noteq> 0) b (bool_enc b)" for b
    unfolding bool_enc_varint by (rule varint_of_enc) simp
  then show ?thesis
    using assms delimited_bytes_enc
    by (cases w) (simp_all add: wrapper_fits_def wrapper_ok_def varint_bytes_u64 varint_of_enc ucast_scast_i32 ucast_ucast_u32)
qed

lemma outputs_writeWrapper:
  assumes "wrapper_fits w"
  shows "outputs (wrapper_ok w) (writeWrapper w) (tag_enc 1 (wrapper_wire (scalar_of w)) @ wrapper_enc w)"
proof (cases w)
  case (Wrap_string v)
  have "outputs (utf8ValidateSlice v \<and> True) (tryIn (liftSum (ensureUtf8 v)) (\<lambda>_. liftWrite (writeString 1 v))) (delimited_field 1 v)"
    using assms Wrap_string by (intro outputs_ensureUtf8 outputs_writers) (simp_all add: wrapper_fits_def)
  then show ?thesis using Wrap_string by (simp add: wrapper_ok_def delimited_field_def)
next
  case (Wrap_bytes v)
  then show ?thesis using assms bytes.writes_appends [of 1 v]
    by (simp add: wrapper_ok_def wrapper_fits_def outputs_liftWrite)
qed (use double.writes_appends [of 1] float.writes_appends [of 1] int64.writes_appends [of 1] uint64.writes_appends [of 1]
      int32.writes_appends [of 1] uint32.writes_appends [of 1] bool.writes_appends [of 1] in
  \<open>simp_all add: wrapper_ok_def outputs_liftWrite\<close>)

lemma Wrapper_decode_enc:
  assumes "wrapper_fits w" "wrapper_ok w"
  shows "Wrapper_decode (scalar_of w) (tag_enc 1 (wrapper_wire (scalar_of w)) @ wrapper_enc w) = Some (Inr w)"
proof -
  let ?bs = "tag_enc 1 (wrapper_wire (scalar_of w)) @ wrapper_enc w"
  have "field_bytes (wrapper_shape (scalar_of w)) (Some w) ?bs"
    by (intro field_bytes_of_enc) (simp_all add: wrapper_shape_def wrapper_value_bytes_enc assms)
  then show ?thesis
    using wrapper_fields.decodeMessage_fields [of "scalar_of w" "[Some w]" "[?bs]"] by (simp add: Wrapper_decode_def set_last_def)
qed

lemma Empty_decode_enc: "Empty_decode [] = Some (Inr ())"
  using empty_fields.decodeMessage_fields [of "[]" "[]"] by (simp add: Empty_decode_def)

section \<open>Properties\<close>

text \<open>
  C27: all nine wrappers survive the wire: with any allocator, encoding returns bytes that
  decode to the same value, or reports that memory was refused, and only a \<open>StringValue\<close> that
  is not UTF-8 is rejected. Decoding takes the last field 1, in any encoding, skips other
  fields, and gives the default of the type when there is none; \<open>Empty\<close> is the message of
  which all fields are skipped.
\<close>

theorem wrapper_wire_roundtrip:
  "(wrapper_fits w \<longrightarrow> encoded_result (Wrapper_encode w) (Wrapper_decode (scalar_of w)) w (wrapper_ok w)) \<and>
   (list_all2 (field_bytes (wrapper_shape scalar)) fs bss \<longrightarrow>
      Wrapper_decode scalar (concat bss) = Some (Inr (last (defaultWrapperValue scalar # known fs)))) \<and>
   (list_all2 (field_bytes (\<lambda>_. value_bytes 100)) us bss \<longrightarrow> Empty_decode (concat bss) = Some (Inr ())) \<and>
   (\<forall>al. Empty_encode al = Some (Inr [], al))"
proof (intro conjI impI allI)
  assume fits: "wrapper_fits w"
  show "encoded_result (Wrapper_encode w) (Wrapper_decode (scalar_of w)) w (wrapper_ok w)"
    using encodes_encodeMessage [OF outputs_writeWrapper [OF fits]] Wrapper_decode_enc [OF fits]
    unfolding Wrapper_encode_def by (rule encoded_resultI)
qed (use wrapper_fields.decodeMessage_fields [of scalar fs bss] empty_fields.decodeMessage_fields [of us bss] in
  \<open>simp_all add: Wrapper_decode_def fold_set_last Empty_decode_def Empty_encode_def\<close>)

theorem wrapper_wire_roundtrip_witness:
  "encoded_result (Wrapper_encode (Wrap_int32 (-1))) (Wrapper_decode Scalar_int32) (Wrap_int32 (-1)) True"
  using wrapper_wire_roundtrip [THEN conjunct1, of "Wrap_int32 (-1)"] by (simp add: wrapper_fits_def wrapper_ok_def)

end
