(* ===== verification/Wkt_Any.thy ===== *)
theory Wkt_Any
  imports Wkt_Encode
begin

text \<open>
  The message \<open>Any\<close> of \<open>src/wkt.zig\<close>: an encoded message with the URL of its type. Type names and
  URLs are bytes; a message that is packed or unpacked is given by its \<open>encode\<close> and \<open>decode\<close>.
  The memory of packed and decoded messages is never refused here; the one of the \<open>Writer\<close>
  may be.
\<close>

record Any_message =
  any_type_url :: bytes
  any_payload :: bytes

section \<open>Type URLs\<close>

abbreviation slash :: byte where
  "slash \<equiv> 0x2F"

abbreviation dot :: byte where
  "dot \<equiv> 0x2E"

text \<open>\<open>std.mem.lastIndexOfScalar\<close> and \<open>std.mem.trimEnd\<close>.\<close>

definition lastIndexOfScalar :: "byte \<Rightarrow> bytes \<Rightarrow> nat option" where
  "lastIndexOfScalar b s = (if b \<in> set s then Some (length s - 1 - length (takeWhile (\<lambda>c. c \<noteq> b) (rev s))) else None)"

definition trimEnd :: "byte \<Rightarrow> bytes \<Rightarrow> bytes" where
  "trimEnd b s = rev (dropWhile (\<lambda>c. c = b) (rev s))"

definition withoutDot :: "bytes \<Rightarrow> bytes" where
  "withoutDot full_name = (case full_name of c # rest \<Rightarrow> if c = dot then rest else full_name | [] \<Rightarrow> [])"

definition default_type_url_prefix :: bytes where
  "default_type_url_prefix = map (\<lambda>c. of_nat (of_char c)) ''type.googleapis.com''"

definition makeTypeUrl :: "bytes \<Rightarrow> bytes \<Rightarrow> wkt_error + bytes" where
  "makeTypeUrl url_prefix full_name =
     (if full_name = [] then Inl TypeMismatch
      else let normalized = withoutDot full_name in
        if url_prefix = [] then Inr normalized
        else Inr (trimEnd slash url_prefix @ [slash] @ normalized))"

definition anyTypeName :: "bytes \<Rightarrow> bytes" where
  "anyTypeName url = (case lastIndexOfScalar slash url of Some i \<Rightarrow> drop (i + 1) url | None \<Rightarrow> url)"

definition anyTypeMatches :: "bytes \<Rightarrow> bytes \<Rightarrow> bool" where
  "anyTypeMatches url full_name =
     (let expected = withoutDot full_name; actual = anyTypeName url in
      expected \<noteq> [] \<and> actual \<noteq> [] \<and> actual = expected)"

definition typeName :: "Any_message \<Rightarrow> bytes" where
  "typeName self = anyTypeName (any_type_url self)"

definition typeNameIs :: "Any_message \<Rightarrow> bytes \<Rightarrow> bool" where
  "typeNameIs self full_name = anyTypeMatches (any_type_url self) full_name"

definition typeUrlPrefix :: "Any_message \<Rightarrow> bytes" where
  "typeUrlPrefix self = (case lastIndexOfScalar slash (any_type_url self) of Some i \<Rightarrow> take i (any_type_url self) | None \<Rightarrow> [])"

definition hasTypeUrlPrefix :: "Any_message \<Rightarrow> bool" where
  "hasTypeUrlPrefix self \<longleftrightarrow> lastIndexOfScalar slash (any_type_url self) \<noteq> None"

definition typeUrlPrefixIs :: "Any_message \<Rightarrow> bytes \<Rightarrow> bool" where
  "typeUrlPrefixIs self url_prefix \<longleftrightarrow> typeUrlPrefix self = trimEnd slash url_prefix"

section \<open>Packing\<close>

definition packBytesWithPrefix :: "bytes \<Rightarrow> bytes \<Rightarrow> bytes \<Rightarrow> wkt_error + Any_message" where
  "packBytesWithPrefix url_prefix full_name payload = (case makeTypeUrl url_prefix full_name of
       Inl e \<Rightarrow> Inl e
     | Inr url \<Rightarrow> Inr \<lparr>any_type_url = url, any_payload = payload\<rparr>)"

definition packBytes :: "bytes \<Rightarrow> bytes \<Rightarrow> wkt_error + Any_message" where
  "packBytes full_name payload = packBytesWithPrefix default_type_url_prefix full_name payload"

definition packEncodedWithPrefix :: "bytes \<Rightarrow> bytes \<Rightarrow> bytes encoding \<Rightarrow> Any_message encoding" where
  "packEncodedWithPrefix url_prefix full_name encode =
     tryIn encode (\<lambda>payload. liftSum (packBytesWithPrefix url_prefix full_name payload))"

definition packEncoded :: "bytes \<Rightarrow> bytes encoding \<Rightarrow> Any_message encoding" where
  "packEncoded full_name encode = packEncodedWithPrefix default_type_url_prefix full_name encode"

definition unpackBytes :: "Any_message \<Rightarrow> bytes \<Rightarrow> wkt_error + bytes" where
  "unpackBytes self expected_full_name =
     (if \<not> typeNameIs self expected_full_name then Inl TypeMismatch else Inr (any_payload self))"

definition unpackEncoded :: "(bytes \<Rightarrow> (wkt_error + 'a) option) \<Rightarrow> Any_message \<Rightarrow> bytes \<Rightarrow> (wkt_error + 'a) option" where
  "unpackEncoded decode self expected_full_name = (case unpackBytes self expected_full_name of
       Inl e \<Rightarrow> Some (Inl e)
     | Inr payload \<Rightarrow> decode payload)"

section \<open>The wire format\<close>

definition Any_encode :: "Any_message \<Rightarrow> bytes encoding" where
  "Any_encode self = encodeMessage (
     tryIn (if any_type_url self \<noteq> []
            then tryIn (liftSum (ensureUtf8 (any_type_url self))) (\<lambda>_. liftWrite (writeString 1 (any_type_url self)))
            else return ()) (\<lambda>_.
     if any_payload self \<noteq> [] then liftWrite (writeBytes 2 (any_payload self)) else return ()))"

definition decodeAnyField :: "tag \<Rightarrow> Any_message \<Rightarrow> Any_message decoding" where
  "decodeAnyField t out =
     (if number t = 1 then tryIn (readScalar LengthDelimited readBytes t) (\<lambda>raw.
        tryIn (liftSum (ensureUtf8 raw)) (\<lambda>_. return (out\<lparr>any_type_url := raw\<rparr>)))
      else if number t = 2 then tryIn (readScalar LengthDelimited readBytes t) (\<lambda>raw. return (out\<lparr>any_payload := raw\<rparr>))
      else tryIn (liftRead (skipValue t)) (\<lambda>_. return out))"

definition Any_decode :: "bytes \<Rightarrow> (wkt_error + Any_message) option" where
  "Any_decode = decodeMessage decodeAnyField \<lparr>any_type_url = [], any_payload = []\<rparr>"

section \<open>The name in a URL\<close>

lemma lastIndexOf_split:
  assumes "b \<notin> set ys"
  shows "lastIndexOfScalar b (xs @ b # ys) = Some (length xs)"
proof -
  have "takeWhile (\<lambda>c. c \<noteq> b) (rev (xs @ b # ys)) = rev ys"
    using assms by (auto simp: takeWhile_tail takeWhile_append2)
  then show ?thesis by (simp add: lastIndexOfScalar_def del: rev_append)
qed

lemma lastIndexOf_None: "lastIndexOfScalar b s = None \<longleftrightarrow> b \<notin> set s"
  by (simp add: lastIndexOfScalar_def)

text \<open>The name behind a prefix is its part behind the last slash, with or without a prefix.\<close>

lemma anyTypeName_behind: "anyTypeName (xs @ slash # ys) = anyTypeName ys"
proof (cases "slash \<in> set ys")
  case True
  then obtain us vs where ys: "ys = us @ slash # vs" "slash \<notin> set vs" by (metis split_list_last)
  have "xs @ slash # ys = (xs @ slash # us) @ slash # vs" using ys by simp
  then have "anyTypeName (xs @ slash # ys) = drop (length (xs @ slash # us) + 1) ((xs @ slash # us) @ slash # vs)"
    unfolding anyTypeName_def using lastIndexOf_split [OF ys(2), of "xs @ slash # us"] by (simp del: append_assoc)
  also have "\<dots> = vs" by simp
  also have "\<dots> = anyTypeName ys" unfolding anyTypeName_def using lastIndexOf_split [OF ys(2), of us] ys by simp
  finally show ?thesis .
next
  case False
  then show ?thesis using lastIndexOf_split [OF False, of xs] lastIndexOf_None [of slash ys] by (simp add: anyTypeName_def)
qed

lemma anyTypeName_same: "anyTypeName s = s \<longleftrightarrow> slash \<notin> set s"
proof
  assume same: "anyTypeName s = s"
  show "slash \<notin> set s"
  proof
    assume "slash \<in> set s"
    then obtain us vs where "s = us @ slash # vs" "slash \<notin> set vs" by (metis split_list_last)
    then have "anyTypeName s = vs" unfolding anyTypeName_def using lastIndexOf_split [of slash vs us] by simp
    then have "length s = length vs" using same by simp
    then show False using \<open>s = us @ slash # vs\<close> by simp
  qed
qed (simp add: anyTypeName_def lastIndexOf_None flip: lastIndexOf_None)

lemma anyTypeName_made:
  assumes "makeTypeUrl url_prefix full_name = Inr url"
  shows "anyTypeName url = anyTypeName (withoutDot full_name)"
  using assms anyTypeName_behind [of "trimEnd slash url_prefix"] by (auto simp: makeTypeUrl_def Let_def split: if_splits)

lemma anyTypeMatches_made:
  assumes "makeTypeUrl url_prefix full_name = Inr url"
  shows "anyTypeMatches url name \<longleftrightarrow> withoutDot name \<noteq> [] \<and> anyTypeName (withoutDot full_name) = withoutDot name"
  using anyTypeName_made [OF assms] by (auto simp: anyTypeMatches_def Let_def)

lemma typeUrlPrefixIs_made:
  assumes "makeTypeUrl url_prefix full_name = Inr url" "slash \<notin> set (withoutDot full_name)"
  shows "typeUrlPrefixIs \<lparr>any_type_url = url, any_payload = payload\<rparr> url_prefix"
  using assms lastIndexOf_split [OF assms(2), of "trimEnd slash url_prefix"] lastIndexOf_None [of slash "withoutDot full_name"]
  by (auto simp: makeTypeUrl_def Let_def typeUrlPrefixIs_def typeUrlPrefix_def trimEnd_def split: if_splits)

section \<open>The fields\<close>

datatype any_field = UrlField bytes | PayloadField bytes | UnknownAnyField

definition any_shape :: "any_field \<Rightarrow> tag \<Rightarrow> bytes \<Rightarrow> bool" where
  "any_shape f t vb = (case f of
       UrlField url \<Rightarrow> t = \<lparr>number = 1, tag_type = LengthDelimited\<rparr> \<and> delimited_bytes vb url \<and> utf8ValidateSlice url
     | PayloadField p \<Rightarrow> t = \<lparr>number = 2, tag_type = LengthDelimited\<rparr> \<and> delimited_bytes vb p
     | UnknownAnyField \<Rightarrow> number t \<noteq> 1 \<and> number t \<noteq> 2 \<and> value_bytes 100 t vb)"

fun set_any :: "any_field \<Rightarrow> Any_message \<Rightarrow> Any_message" where
  "set_any (UrlField url) out = out\<lparr>any_type_url := url\<rparr>"
| "set_any (PayloadField p) out = out\<lparr>any_payload := p\<rparr>"
| "set_any UnknownAnyField out = out"

interpretation any_fields: field_decoder decodeAnyField any_shape set_any
proof
  show "reads_ok (decodeAnyField t out)" for t out
    unfolding decodeAnyField_def by (intro reading)
next
  fix self :: reader and vb rest t f out
  assume r: "reader_ok self" "depth_left self = 100" "rest_of self = vb @ rest" and shape: "any_shape f t vb"
  show "\<exists>s. decodeAnyField t out self = Some (Inr (set_any f out), s) \<and> index s = index self + length vb"
  proof (cases f)
    case UnknownAnyField
    then show ?thesis using shape skip_field [OF r, of t out] by (simp add: any_shape_def decodeAnyField_def)
  qed (use shape readScalar_bytes [OF r(1,3)] in \<open>auto simp: any_shape_def decodeAnyField_def tryIn_apply ensureUtf8_def\<close>)
qed

definition any_fits :: "Any_message \<Rightarrow> bool" where
  "any_fits a \<longleftrightarrow> fits_usize (any_type_url a) \<and> fits_usize (any_payload a)"

definition any_fields_of :: "Any_message \<Rightarrow> (any_field \<times> bytes) list" where
  "any_fields_of a =
     (if any_type_url a \<noteq> [] then [(UrlField (any_type_url a), delimited_field 1 (any_type_url a))] else []) @
     (if any_payload a \<noteq> [] then [(PayloadField (any_payload a), delimited_field 2 (any_payload a))] else [])"

definition Any_enc :: "Any_message \<Rightarrow> bytes" where
  "Any_enc a = concat (map snd (any_fields_of a))"

lemma Any_decode_enc:
  assumes "any_fits a" "utf8ValidateSlice (any_type_url a)"
  shows "Any_decode (Any_enc a) = Some (Inr a)"
proof -
  have "field_bytes any_shape (UrlField (any_type_url a)) (delimited_field 1 (any_type_url a))"
    "field_bytes any_shape (PayloadField (any_payload a)) (delimited_field 2 (any_payload a))"
    using assms unfolding delimited_field_def
    by (auto intro!: field_bytes_of_enc simp: any_shape_def any_fits_def delimited_bytes_enc)
  then have "list_all2 (field_bytes any_shape) (map fst (any_fields_of a)) (map snd (any_fields_of a))"
    by (simp add: any_fields_of_def)
  from any_fields.decodeMessage_fields [OF this, of "\<lparr>any_type_url = [], any_payload = []\<rparr>"]
  show ?thesis by (cases a) (auto simp: Any_decode_def Any_enc_def any_fields_of_def)
qed

lemma encodes_Any:
  assumes "any_fits a"
  shows "encodes (utf8ValidateSlice (any_type_url a)) (Any_encode a) (Any_enc a)"
proof -
  have url: "outputs (utf8ValidateSlice (any_type_url a) \<and> True)
      (if any_type_url a \<noteq> [] then tryIn (liftSum (ensureUtf8 (any_type_url a))) (\<lambda>_. liftWrite (writeString 1 (any_type_url a))) else return ())
      (if any_type_url a \<noteq> [] then delimited_field 1 (any_type_url a) else [])"
    using outputs_ensureUtf8 [OF outputs_writers(2) [of "any_type_url a" 1], of "any_type_url a"] assms outputs_return
    by (simp add: any_fits_def)
  have payload: "outputs True (if any_payload a \<noteq> [] then liftWrite (writeBytes 2 (any_payload a)) else return ())
      (if any_payload a \<noteq> [] then delimited_field 2 (any_payload a) else [])"
    using outputs_liftWrite [OF bytes.writes_appends [of 2 "any_payload a"]] assms outputs_return
    by (simp add: any_fits_def delimited_field_def)
  have "Any_enc a = (if any_type_url a \<noteq> [] then delimited_field 1 (any_type_url a) else []) @
      (if any_payload a \<noteq> [] then delimited_field 2 (any_payload a) else [])"
    by (simp add: Any_enc_def any_fields_of_def)
  then show ?thesis
    using encodes_encodeMessage [OF outputs_tryIn [OF url payload]] unfolding Any_encode_def by simp
qed

section \<open>Properties\<close>

text \<open>
  What is packed under a name is unpacked under the same name, with or without the leading
  dot and whatever the prefix, and under no other name, except that a slash in the name hides
  what stands before it: such a name packs but never unpacks. Without a slash, the prefix
  that was given is the one of the URL.
\<close>

theorem any_pack_unpack:
  "packBytesWithPrefix url_prefix [] payload = Inl TypeMismatch \<and>
   (full_name \<noteq> [] \<longrightarrow> (\<exists>a. packBytesWithPrefix url_prefix full_name payload = Inr a \<and>
      (\<forall>name. unpackBytes a name =
         (if withoutDot name \<noteq> [] \<and> withoutDot name = anyTypeName (withoutDot full_name) then Inr payload else Inl TypeMismatch)) \<and>
      (unpackBytes a full_name = Inr payload \<longleftrightarrow> withoutDot full_name \<noteq> [] \<and> slash \<notin> set (withoutDot full_name)) \<and>
      (slash \<notin> set (withoutDot full_name) \<longrightarrow> typeUrlPrefixIs a url_prefix)))"
proof (intro conjI impI)
  assume "full_name \<noteq> []"
  then obtain url where url: "makeTypeUrl url_prefix full_name = Inr url" by (cases "url_prefix = []") (simp_all add: makeTypeUrl_def Let_def)
  let ?a = "\<lparr>any_type_url = url, any_payload = payload\<rparr>"
  have "packBytesWithPrefix url_prefix full_name payload = Inr ?a" by (simp add: packBytesWithPrefix_def url)
  moreover have un: "\<forall>name. unpackBytes ?a name =
      (if withoutDot name \<noteq> [] \<and> withoutDot name = anyTypeName (withoutDot full_name) then Inr payload else Inl TypeMismatch)"
    by (auto simp: unpackBytes_def typeNameIs_def anyTypeMatches_made [OF url])
  moreover have "unpackBytes ?a full_name = Inr payload \<longleftrightarrow> withoutDot full_name \<noteq> [] \<and> slash \<notin> set (withoutDot full_name)"
    using un anyTypeName_same [of "withoutDot full_name"] by (metis sum.distinct(1))
  moreover have "slash \<notin> set (withoutDot full_name) \<longrightarrow> typeUrlPrefixIs ?a url_prefix" using typeUrlPrefixIs_made [OF url] by blast
  ultimately show "\<exists>a. packBytesWithPrefix url_prefix full_name payload = Inr a \<and>
      (\<forall>name. unpackBytes a name =
         (if withoutDot name \<noteq> [] \<and> withoutDot name = anyTypeName (withoutDot full_name) then Inr payload else Inl TypeMismatch)) \<and>
      (unpackBytes a full_name = Inr payload \<longleftrightarrow> withoutDot full_name \<noteq> [] \<and> slash \<notin> set (withoutDot full_name)) \<and>
      (slash \<notin> set (withoutDot full_name) \<longrightarrow> typeUrlPrefixIs a url_prefix)" by blast
qed (simp add: packBytesWithPrefix_def makeTypeUrl_def)

theorem any_pack_unpack_witness:
  "\<exists>a. packBytesWithPrefix [0x70, 0x2F] [0x2E, 0x61] [1, 2] = Inr a \<and> unpackBytes a [0x61] = Inr [1, 2] \<and> typeUrlPrefixIs a [0x70]"
proof -
  have "withoutDot [0x2E, 0x61] = [0x61]" "withoutDot [0x61] = [0x61]" "anyTypeName [0x61] = [0x61]"
    by (simp_all add: withoutDot_def anyTypeName_same)
  then show ?thesis
    using any_pack_unpack [of "[0x70, 0x2F]" "[1, 2]" "[0x2E, 0x61]"] by (auto simp: typeUrlPrefixIs_def trimEnd_def)
qed

text \<open>
  C20: an \<open>Any\<close> carries any message: let encoding and decoding of a message invert each other, as they
  do for the other messages of this module. Packed under a name that, without a leading dot, is
  not empty and has no slash, and unpacked under that name, it comes back, or memory was
  refused. Every other name but the empty one is accepted for packing as well, but what is packed
  under it is not found under it again. An \<open>Any\<close> whose two fields are no longer than a slice
  can be survives the wire itself, unless its URL is not UTF-8.
\<close>

theorem any_carries_messages:
  "(encoded_result encode decode x True \<and> withoutDot full_name \<noteq> [] \<and> slash \<notin> set (withoutDot full_name) \<longrightarrow>
      (\<forall>al. \<exists>r al'. packEncodedWithPrefix url_prefix full_name encode al = Some (r, al') \<and>
        (r = Inl (WriteFailed OutOfMemory) \<or> (\<exists>a. r = Inr a \<and> unpackEncoded decode a full_name = Some (Inr x))))) \<and>
   (any_fits a \<longrightarrow> encoded_result (Any_encode a) Any_decode a (utf8ValidateSlice (any_type_url a))) \<and>
   (full_name \<noteq> [] \<and> (withoutDot full_name = [] \<or> slash \<in> set (withoutDot full_name)) \<longrightarrow>
      (\<exists>p. packBytesWithPrefix url_prefix full_name content = Inr p \<and> unpackBytes p full_name = Inl TypeMismatch))"
proof (intro conjI impI allI)
  assume "any_fits a"
  then show "encoded_result (Any_encode a) Any_decode a (utf8ValidateSlice (any_type_url a))"
    by (intro encoded_resultI [OF encodes_Any] Any_decode_enc)
next
  assume bad: "full_name \<noteq> [] \<and> (withoutDot full_name = [] \<or> slash \<in> set (withoutDot full_name))"
  with any_pack_unpack [of url_prefix content full_name] obtain p where p: "packBytesWithPrefix url_prefix full_name content = Inr p"
    and un: "\<forall>name. unpackBytes p name =
      (if withoutDot name \<noteq> [] \<and> withoutDot name = anyTypeName (withoutDot full_name) then Inr content else Inl TypeMismatch)"
    and iff: "unpackBytes p full_name = Inr content \<longleftrightarrow> withoutDot full_name \<noteq> [] \<and> slash \<notin> set (withoutDot full_name)" by blast
  have "unpackBytes p full_name \<noteq> Inr content" using iff bad by blast
  then have "unpackBytes p full_name = Inl TypeMismatch" using un [rule_format, of full_name] by (auto split: if_splits)
  then show "\<exists>p. packBytesWithPrefix url_prefix full_name content = Inr p \<and> unpackBytes p full_name = Inl TypeMismatch" using p by blast
next
  fix al
  assume a: "encoded_result encode decode x True \<and> withoutDot full_name \<noteq> [] \<and> slash \<notin> set (withoutDot full_name)"
  then have "full_name \<noteq> []" by (auto simp: withoutDot_def)
  obtain r al' where r: "encode al = Some (r, al')"
      "r = Inl (WriteFailed OutOfMemory) \<or> (\<exists>bs. r = Inr bs \<and> decode bs = Some (Inr x))"
    using a unfolding encoded_result_def by fastforce
  then show "\<exists>r al'. packEncodedWithPrefix url_prefix full_name encode al = Some (r, al') \<and>
      (r = Inl (WriteFailed OutOfMemory) \<or> (\<exists>a. r = Inr a \<and> unpackEncoded decode a full_name = Some (Inr x)))"
  proof (elim disjE exE conjE)
    fix bs
    assume bs: "r = Inr bs" "decode bs = Some (Inr x)"
    from any_pack_unpack [of url_prefix bs full_name] \<open>full_name \<noteq> []\<close> obtain b where
      "packBytesWithPrefix url_prefix full_name bs = Inr b" "unpackBytes b full_name = Inr bs" using a by blast
    then show ?thesis using r(1) bs by (auto simp: packEncodedWithPrefix_def tryIn_def unpackEncoded_def)
  qed (simp add: packEncodedWithPrefix_def tryIn_def)
qed

theorem any_carries_messages_witness:
  "\<forall>al. \<exists>r al'. packEncodedWithPrefix [] [0x61] (Any_encode \<lparr>any_type_url = [0x62], any_payload = [7]\<rparr>) al = Some (r, al') \<and>
     (r = Inl (WriteFailed OutOfMemory) \<or>
      (\<exists>a. r = Inr a \<and> unpackEncoded Any_decode a [0x61] = Some (Inr \<lparr>any_type_url = [0x62], any_payload = [7]\<rparr>)))"
proof (rule any_carries_messages [THEN conjunct1, THEN mp])
  have "any_fits \<lparr>any_type_url = [0x62], any_payload = [7]\<rparr>" by (simp add: any_fits_def fits_usize_def usize_max_def)
  from any_carries_messages [THEN conjunct2, THEN conjunct1, THEN mp, OF this]
  show "encoded_result (Any_encode \<lparr>any_type_url = [0x62], any_payload = [7]\<rparr>) Any_decode \<lparr>any_type_url = [0x62], any_payload = [7]\<rparr> True \<and>
      withoutDot [0x61] \<noteq> [] \<and> slash \<notin> set (withoutDot [0x61])"
    by (simp add: withoutDot_def)
qed

end
