(* ===== verification/Base64.thy ===== *)
theory Base64
  imports Wkt_Decode
begin

text \<open>
  The two decoders of base64 text in the toolkit: \<open>decodeBase64\<close> of \<open>src/wkt.zig\<close>, which tries the
  four decoders of \<open>std.base64\<close> in turn, and \<open>decodeBase64\<close> of \<open>src/json.zig\<close>, which is written out
  there. A digit is a \<open>nat\<close> below 64. \<open>octets\<close> is the reference: the bytes that digits stand for.
\<close>

section \<open>Alphabets\<close>

abbreviation pad_char :: byte where
  "pad_char \<equiv> 0x3D"

definition letterIndex :: "byte \<Rightarrow> nat option" where
  "letterIndex b =
     (if 0x41 \<le> b \<and> b \<le> 0x5A then Some (unat b - 0x41)
      else if 0x61 \<le> b \<and> b \<le> 0x7A then Some (26 + (unat b - 0x61))
      else if 0x30 \<le> b \<and> b \<le> 0x39 then Some (52 + (unat b - 0x30))
      else None)"

text \<open>The tables \<open>char_to_index\<close> of \<open>std.base64\<close>, for its standard and its URL-safe alphabet.\<close>

definition standardIndex :: "byte \<Rightarrow> nat option" where
  "standardIndex b = (if b = 0x2B then Some 62 else if b = 0x2F then Some 63 else letterIndex b)"

definition urlSafeIndex :: "byte \<Rightarrow> nat option" where
  "urlSafeIndex b = (if b = 0x2D then Some 62 else if b = 0x5F then Some 63 else letterIndex b)"

definition base64Index :: "byte \<Rightarrow> nat option" where
  "base64Index b =
     (if b = 0x2B \<or> b = 0x2D then Some 62 else if b = 0x2F \<or> b = 0x5F then Some 63 else letterIndex b)"

section \<open>The decoder of the library\<close>

text \<open>\<open>calcSizeForSlice\<close>: the number of bytes that a text of this length and padding decodes to.\<close>

definition calcSizeForSlice :: "bool \<Rightarrow> bytes \<Rightarrow> wkt_error + nat" where
  "calcSizeForSlice padded source =
     (let n = length source in
      if padded then
        (if n mod 4 \<noteq> 0 then Inl InvalidPadding
         else Inr (n div 4 * 3 - (if 1 \<le> n \<and> source ! (n - 1) = pad_char then 1 else 0)
                               - (if 2 \<le> n \<and> source ! (n - 2) = pad_char then 1 else 0)))
      else if n mod 4 = 1 then Inl InvalidPadding
      else Inr (n div 4 * 3 + n mod 4 * 3 div 4))"

text \<open>
  What follows the digits: the bits that are left over are zero, and the rest is the padding
  they call for.
\<close>

definition checkPadding :: "nat \<Rightarrow> nat \<Rightarrow> bytes \<Rightarrow> bytes \<Rightarrow> wkt_error + bytes" where
  "checkPadding acc acc_len leftover out =
     (if acc_len > 4 \<or> acc mod 2 ^ acc_len \<noteq> 0 then Inl InvalidPadding
      else if leftover = [] then Inr out
      else if \<not> list_all (\<lambda>c. c = pad_char) leftover then Inl InvalidPadding
      else if length leftover \<noteq> acc_len div 2 then Inl InvalidPadding
      else Inr out)"

text \<open>
  The loop over the characters: \<open>acc\<close> is a \<open>u12\<close>, out of which whole bytes are stored; a store
  behind the end of the destination is a panic.
\<close>

fun decodeChars :: "(byte \<Rightarrow> nat option) \<Rightarrow> bool \<Rightarrow> nat \<Rightarrow> nat \<Rightarrow> nat \<Rightarrow> bytes \<Rightarrow> bytes \<Rightarrow> (wkt_error + bytes) option" where
  "decodeChars index_of padded room acc acc_len out [] = Some (checkPadding acc acc_len [] out)"
| "decodeChars index_of padded room acc acc_len out (c # source) = (case index_of c of
       None \<Rightarrow> if \<not> padded \<or> c \<noteq> pad_char then Some (Inl InvalidCharacter)
               else Some (checkPadding acc acc_len (c # source) out)
     | Some d \<Rightarrow>
         let acc = acc * 64 mod 4096 + d; acc_len = acc_len + 6 in
         if acc_len \<ge> 8 then
           (if room \<le> length out then None
            else decodeChars index_of padded room acc (acc_len - 8) (out @ [of_nat (acc div 2 ^ (acc_len - 8))]) source)
         else decodeChars index_of padded room acc acc_len out source)"

text \<open>The buffer that is returned has the size computed first, and all of it has been written.\<close>

definition decodeBase64With :: "(byte \<Rightarrow> nat option) \<Rightarrow> bool \<Rightarrow> bytes \<Rightarrow> (wkt_error + bytes) option" where
  "decodeBase64With index_of padded source = (case calcSizeForSlice padded source of
       Inl e \<Rightarrow> Some (Inl e)
     | Inr room \<Rightarrow> (case decodeChars index_of padded room 0 0 [] source of
           None \<Rightarrow> None
         | Some (Inl e) \<Rightarrow> Some (Inl e)
         | Some (Inr out) \<Rightarrow> if length out = room then Some (Inr out) else None))"

definition catching :: "('e + 'a) option \<Rightarrow> ('e + 'a) option \<Rightarrow> ('e + 'a) option" where
  "catching m n = (case m of None \<Rightarrow> None | Some (Inl _) \<Rightarrow> n | Some (Inr x) \<Rightarrow> Some (Inr x))"

definition decodeBase64 :: "bytes \<Rightarrow> (wkt_error + bytes) option" where
  "decodeBase64 text =
     catching (decodeBase64With standardIndex True text)
    (catching (decodeBase64With urlSafeIndex True text)
    (catching (decodeBase64With standardIndex False text)
              (decodeBase64With urlSafeIndex False text)))"

section \<open>The decoder of the JSON module\<close>

text \<open>The first pass counts digits and padding, the second stores the bytes.\<close>

fun scanBase64 :: "nat \<Rightarrow> nat \<Rightarrow> bool \<Rightarrow> bytes \<Rightarrow> wkt_error + nat \<times> nat" where
  "scanBase64 data_chars padding_chars saw_padding [] = Inr (data_chars, padding_chars)"
| "scanBase64 data_chars padding_chars saw_padding (b # bs) =
     (if b = pad_char then scanBase64 data_chars (padding_chars + 1) True bs
      else if saw_padding then Inl InvalidPadding
      else (case base64Index b of
          None \<Rightarrow> Inl InvalidCharacter
        | Some _ \<Rightarrow> scanBase64 (data_chars + 1) padding_chars saw_padding bs))"

fun flushBytes :: "nat \<Rightarrow> nat \<Rightarrow> nat \<Rightarrow> bytes \<Rightarrow> (nat \<times> nat \<times> bytes) option" where
  "flushBytes room acc acc_bits out =
     (if acc_bits \<ge> 8 then
        (if room \<le> length out then None
         else flushBytes room (acc mod 2 ^ (acc_bits - 8)) (acc_bits - 8) (out @ [of_nat (acc div 2 ^ (acc_bits - 8))]))
      else Some (acc, acc_bits, out))"

declare flushBytes.simps [simp del]

fun storeBase64 :: "nat \<Rightarrow> nat \<Rightarrow> nat \<Rightarrow> bytes \<Rightarrow> bytes \<Rightarrow> bytes option" where
  "storeBase64 room acc acc_bits out [] = Some out"
| "storeBase64 room acc acc_bits out (b # bs) =
     (if b = pad_char then Some out
      else (case base64Index b of
          None \<Rightarrow> None
        | Some idx \<Rightarrow> (case flushBytes room (acc * 64 + idx) (acc_bits + 6) out of
              None \<Rightarrow> None
            | Some (acc, acc_bits, out) \<Rightarrow> storeBase64 room acc acc_bits out bs)))"

text \<open>\<open>expected_padding\<close>; after the check before it, the \<open>unreachable\<close> branch is not reached.\<close>

definition expectedPadding :: "nat \<Rightarrow> nat option" where
  "expectedPadding data_chars =
     (if data_chars mod 4 = 0 then Some 0
      else if data_chars mod 4 = 2 then Some 2
      else if data_chars mod 4 = 3 then Some 1
      else None)"

definition jsonDecodeBase64 :: "bytes \<Rightarrow> (wkt_error + bytes) option" where
  "jsonDecodeBase64 text = (case scanBase64 0 0 False text of
       Inl e \<Rightarrow> Some (Inl e)
     | Inr (data_chars, padding_chars) \<Rightarrow>
         if data_chars mod 4 = 1 then Some (Inl InvalidPadding)
         else if padding_chars > 2 then Some (Inl InvalidPadding)
         else if padding_chars \<noteq> 0 \<and> expectedPadding data_chars = None then None
         else if padding_chars \<noteq> 0 \<and> expectedPadding data_chars \<noteq> Some padding_chars then Some (Inl InvalidPadding)
         else (let room = data_chars * 6 div 8 in
           case storeBase64 room 0 0 [] text of
             None \<Rightarrow> None
           | Some out \<Rightarrow> if length out = room then Some (Inr out) else None))"

section \<open>Digits and bytes\<close>

fun octets :: "nat list \<Rightarrow> bytes" where
  "octets (a # b # c # d # ds) =
     [of_nat (a * 4 + b div 16), of_nat (b mod 16 * 16 + c div 4), of_nat (c mod 4 * 64 + d)] @ octets ds"
| "octets [a, b, c] = [of_nat (a * 4 + b div 16), of_nat (b mod 16 * 16 + c div 4)]"
| "octets [a, b] = [of_nat (a * 4 + b div 16)]"
| "octets [a] = []"
| "octets [] = []"

text \<open>The bits of the last digit that belong to no byte.\<close>

fun spare_bits :: "nat list \<Rightarrow> nat" where
  "spare_bits (a # b # c # d # ds) = spare_bits ds"
| "spare_bits [a, b, c] = c mod 4"
| "spare_bits [a, b] = b mod 16"
| "spare_bits [a] = a"
| "spare_bits [] = 0"

fun sextets :: "bytes \<Rightarrow> nat list" where
  "sextets (x # y # z # bs) =
     [unat x div 4, unat x mod 4 * 16 + unat y div 16, unat y mod 16 * 4 + unat z div 64, unat z mod 64] @ sextets bs"
| "sextets [x, y] = [unat x div 4, unat x mod 4 * 16 + unat y div 16, unat y mod 16 * 4]"
| "sextets [x] = [unat x div 4, unat x mod 4 * 16]"
| "sextets [] = []"

lemma length_octets: "length (octets ds) = length ds * 6 div 8"
  by (induction ds rule: octets.induct) simp_all

lemma split_digit: "n < b \<Longrightarrow> (m * b + n) div b = m" "n < b \<Longrightarrow> (m * b + n) mod b = n" for b m n :: nat
  by simp_all

lemma byte_pieces: "unat y div 16 < 16" "unat z div 64 < 4" for y z :: byte
  using unat_bound [of y] unat_bound [of z] by (simp_all add: div_less_iff_less_mult)

lemma octets_sextets: "octets (sextets bs) = bs" "spare_bits (sextets bs) = 0" "length (sextets bs) mod 4 \<noteq> 1"
proof -
  have join: "x div 4 * 4 + x mod 4 = x" "x div 16 * 16 + x mod 16 = x" "x div 64 * 64 + x mod 64 = x" for x :: nat
    by (rule div_mult_mod_eq)+
  have zero: "(n * 16) div 16 = n" "(n * 4) div 4 = n" for n :: nat
    by simp_all
  show "octets (sextets bs) = bs"
    by (induction bs rule: sextets.induct)
      (simp_all only: sextets.simps octets.simps append.simps split_digit byte_pieces join zero word_of_unat)
  show "spare_bits (sextets bs) = 0" "length (sextets bs) mod 4 \<noteq> 1"
    by (induction bs rule: sextets.induct) simp_all
qed

section \<open>Decoding digits\<close>

lemma byte_of_nat_cong: "(m :: nat) mod 256 = n mod 256 \<Longrightarrow> (of_nat m :: byte) = of_nat n"
  by (simp add: word_of_nat_eq_iff take_bit_eq_mod)

lemma low_bits_of_byte: "(of_nat (m * 16 + n) :: byte) = of_nat (m mod 16 * 16 + n)"
  "(of_nat (m * 64 + n) :: byte) = of_nat (m mod 4 * 64 + n)" for m n :: nat
proof -
  have "m * 16 + n = (m mod 16 * 16 + n) + m div 16 * 256" "m * 64 + n = (m mod 4 * 64 + n) + m div 4 * 256"
    using div_mult_mod_eq [of m 16] div_mult_mod_eq [of m 4] by linarith+
  then show "(of_nat (m * 16 + n) :: byte) = of_nat (m mod 16 * 16 + n)"
    "(of_nat (m * 64 + n) :: byte) = of_nat (m mod 4 * 64 + n)"
    by (metis byte_of_nat_cong mod_mult_self1)+
qed

lemma shifted_acc: "acc * 64 mod 4096 = acc mod 64 * 64" for acc :: nat
  using mod_mult_mult2 [of acc 64 64] by simp

lemma low_digit: "(a * 64 + b) mod 16 = b mod 16" "(a * 64 + b) mod 4 = b mod 4" for a b :: nat
  using mod_mult_self2 [of b 16 "a * 4"] mod_mult_self2 [of b 4 "a * 16"] by (simp_all add: add.commute mult.commute)

lemma decodeChars_digit:
  "index_of c = Some d \<Longrightarrow> d < 64 \<Longrightarrow> k < 8 \<Longrightarrow> length out < room \<or> k < 2 \<Longrightarrow>
     decodeChars index_of padded room acc k out (c # source) =
       (if k < 2 then decodeChars index_of padded room (acc mod 64 * 64 + d) (k + 6) out source
        else decodeChars index_of padded room (acc mod 64 * 64 + d) (k - 2)
          (out @ [of_nat ((acc mod 64 * 64 + d) div 2 ^ (k - 2))]) source)"
  by (auto simp: shifted_acc Let_def)

lemma decodeChars_digits:
  assumes "map index_of cs = map Some ds" "\<forall>d \<in> set ds. d < 64" "length out + length (octets ds) \<le> room"
  shows "\<exists>acc'. decodeChars index_of padded room acc 0 out (cs @ rest) =
      decodeChars index_of padded room acc' (length ds * 6 mod 8) (out @ octets ds) rest \<and>
    acc' mod 2 ^ (length ds * 6 mod 8) = spare_bits ds"
  using assms
proof (induction ds arbitrary: cs acc out rule: octets.induct)
  case (1 a b c d ds)
  obtain ca cb cc cd cs' where cs: "cs = ca # cb # cc # cd # cs'" "map index_of cs' = map Some ds"
      "index_of ca = Some a" "index_of cb = Some b" "index_of cc = Some c" "index_of cd = Some d"
    using 1(2) by (auto simp: map_eq_Cons_conv)
  have lt: "a < 64" "b < 64" "c < 64" "d < 64" "\<forall>d \<in> set ds. d < 64" using 1(3) by simp_all
  let ?out = "out @ [of_nat (a * 4 + b div 16), of_nat (b mod 16 * 16 + c div 4), of_nat (c mod 4 * 64 + d)]"
  have q: "(a * 64 + b) div 16 = a * 4 + b div 16" "(b * 64 + c) div 4 = b * 16 + c div 4" "b * 64 div 4 = b * 16"
    by simp_all
  have "decodeChars index_of padded room acc 0 out (cs @ rest) =
      decodeChars index_of padded room (c * 64 + d) 0 ?out (cs' @ rest)"
    using cs(3-6) lt 1(4) unfolding cs(1)
    by (simp add: decodeChars_digit q low_bits_of_byte(1) [of b "c div 4"] low_bits_of_byte(2) [of c d]
        del: decodeChars.simps of_nat_add of_nat_mult)
  moreover have m: "length (a # b # c # d # ds) * 6 mod 8 = length ds * 6 mod 8"
    using mod_mult_self2 [of "length ds * 6" 8 3] by (simp add: add.commute)
  moreover have "length ?out + length (octets ds) \<le> room" using 1(4) by simp
  note 1(1) [OF cs(2) lt(5) this, of "c * 64 + d"]
  moreover have "?out @ octets ds = out @ octets (a # b # c # d # ds)" by simp
  ultimately show ?case by (simp only: m spare_bits.simps)
next
  case (2 a b c)
  obtain ca cb cc where cs: "cs = [ca, cb, cc]" "index_of ca = Some a" "index_of cb = Some b" "index_of cc = Some c"
    using 2(1) by (auto simp: map_eq_Cons_conv)
  have q: "(a * 64 + b) div 16 = a * 4 + b div 16" "(b * 64 + c) div 4 = b * 16 + c div 4" "(b * 64 + c) mod 4 = c mod 4"
    by (simp_all add: low_digit)
  show ?case
    using cs(2-4) 2(2,3) unfolding cs(1)
    by (simp add: decodeChars_digit q low_bits_of_byte(1) [of b "c div 4"] del: decodeChars.simps of_nat_add of_nat_mult)
      (intro exI [of _ "b * 64 + c"], simp add: q)
next
  case (3 a b)
  obtain ca cb where cs: "cs = [ca, cb]" "index_of ca = Some a" "index_of cb = Some b"
    using 3(1) by (auto simp: map_eq_Cons_conv)
  have q: "(a * 64 + b) div 16 = a * 4 + b div 16" "(a * 64 + b) mod 16 = b mod 16"
    by (simp_all add: low_digit)
  show ?case
    using cs(2,3) 3(2,3) unfolding cs(1)
    by (simp add: decodeChars_digit q del: decodeChars.simps of_nat_add of_nat_mult) (intro exI [of _ "a * 64 + b"], simp add: q)
next
  case 5
  then show ?case by auto
next
  case (4 a)
  then show ?case by (auto simp: map_eq_Cons_conv decodeChars_digit simp del: decodeChars.simps intro!: exI [of _ "acc mod 64 * 64 + a"])
qed

section \<open>What the decoders accept\<close>

text \<open>The text is the digits \<open>ds\<close> followed by \<open>p\<close> padding characters.\<close>

definition digits_then_pads :: "(byte \<Rightarrow> nat option) \<Rightarrow> bytes \<Rightarrow> nat list \<Rightarrow> nat \<Rightarrow> bool" where
  "digits_then_pads index_of text ds p \<longleftrightarrow> (\<exists>cs. text = cs @ replicate p pad_char \<and> map index_of cs = map Some ds)"

definition needed_padding :: "nat \<Rightarrow> nat" where
  "needed_padding n = (4 - n mod 4) mod 4"

lemma all_pads: "list_all (\<lambda>c. c = pad_char) cs \<longleftrightarrow> cs = replicate (length cs) pad_char"
  by (induction cs) simp_all

lemma three_quarters:
  "m \<le> 4 * k \<Longrightarrow> m * 6 div 8 \<le> 3 * k"
  "m \<le> 4 * k - 1 \<Longrightarrow> 1 \<le> 4 * k \<Longrightarrow> m * 6 div 8 \<le> 3 * k - 1"
  "m \<le> 4 * k - 2 \<Longrightarrow> 2 \<le> 4 * k \<Longrightarrow> m * 6 div 8 \<le> 3 * k - 2" for m k :: nat
proof -
  assume "m \<le> 4 * k" then have "m * 6 < (3 * k + 1) * 8" by simp
  then show "m * 6 div 8 \<le> 3 * k" using less_mult_imp_div_less by fastforce
next
  assume "m \<le> 4 * k - 1" "1 \<le> 4 * k"
  then have "m * 6 < 3 * k * 8" by simp
  then show "m * 6 div 8 \<le> 3 * k - 1" using less_mult_imp_div_less by fastforce
next
  assume "m \<le> 4 * k - 2" "2 \<le> 4 * k"
  then have "m * 6 < (3 * k - 1) * 8" by simp
  then have "m * 6 div 8 < 3 * k - 1" by (rule less_mult_imp_div_less)
  then show "m * 6 div 8 \<le> 3 * k - 2" by simp
qed
lemma mod_4_cases:
  fixes n :: nat
  obtains q where "n = q * 4 + 0" | q where "n = q * 4 + 1" | q where "n = q * 4 + 2" | q where "n = q * 4 + 3"
proof -
  have n: "n = n div 4 * 4 + n mod 4" by simp
  have "n mod 4 < 4" by simp
  then consider "n mod 4 = 0" | "n mod 4 = 1" | "n mod 4 = 2" | "n mod 4 = 3" by linarith
  then show ?thesis by cases (use n that in metis)+
qed

lemma eighths:
  "(q * 4 + 0) * 6 = 3 * q * 8 + 0" "(q * 4 + 1) * 6 = 3 * q * 8 + 6"
  "(q * 4 + 2) * 6 = (3 * q + 1) * 8 + 4" "(q * 4 + 3) * 6 = (3 * q + 2) * 8 + 2" for q :: nat
  by simp_all

lemma fourths:
  "(q * 4 + 0) div 4 = q" "(q * 4 + 0) mod 4 = 0" "(q * 4 + 1) div 4 = q" "(q * 4 + 1) mod 4 = 1"
  "(q * 4 + 2) div 4 = q" "(q * 4 + 2) mod 4 = 2" "(q * 4 + 3) div 4 = q" "(q * 4 + 3) mod 4 = 3"
  "(q * 8 + 0) div 8 = q" "(q * 8 + 0) mod 8 = 0" "(q * 8 + 6) div 8 = q" "(q * 8 + 6) mod 8 = 6"
  "(q * 8 + 4) div 8 = q" "(q * 8 + 4) mod 8 = 4" "(q * 8 + 2) div 8 = q" "(q * 8 + 2) mod 8 = 2" for q :: nat
  by (rule split_digit, simp)+

lemma bytes_of_digits: "n * 6 div 8 = n div 4 * 3 + n mod 4 * 3 div 4" for n :: nat
  by (cases n rule: mod_4_cases; simp only: eighths fourths; simp)

lemma bits_left:
  "4 < n * 6 mod 8 \<longleftrightarrow> n mod 4 = 1" "n mod 4 \<noteq> 1 \<Longrightarrow> n * 6 mod 8 div 2 = needed_padding n" for n :: nat
  unfolding needed_padding_def
  by (cases n rule: mod_4_cases; simp only: eighths fourths; simp)+

text \<open>What both decoders need of an alphabet: the padding character is no digit.\<close>

locale base64_alphabet =
  fixes index_of :: "byte \<Rightarrow> nat option"
  assumes pad_no_digit: "index_of pad_char = None"
    and digit_range: "index_of c = Some d \<Longrightarrow> d < 64"
begin

lemma split_text:
  obtains cs ds rest where "text = cs @ rest" "map index_of cs = map Some ds" "rest = [] \<or> index_of (hd rest) = None"
proof -
  let ?P = "\<lambda>c. index_of c \<noteq> None"
  have cs: "map index_of (takeWhile ?P text) = map Some (map (\<lambda>c. the (index_of c)) (takeWhile ?P text))"
    using set_takeWhileD [of _ ?P "text"] by (simp add: option.collapse)
  have rest: "dropWhile ?P text = [] \<or> index_of (hd (dropWhile ?P text)) = None"
    using hd_dropWhile [of ?P "text"] by blast
  show ?thesis by (rule that [OF _ cs rest]) simp
qed

lemma digits_in_range: "map index_of cs = map Some ds \<Longrightarrow> \<forall>d \<in> set ds. d < 64"
  by (induction ds arbitrary: cs) (auto simp: map_eq_Cons_conv dest: digit_range)

lemma pad_behind: "map index_of cs = map Some ds \<Longrightarrow> i < length (cs @ rest) \<Longrightarrow> (cs @ rest) ! i = pad_char \<Longrightarrow> length ds \<le> i"
proof (rule ccontr)
  assume a: "map index_of cs = map Some ds" "(cs @ rest) ! i = pad_char" "\<not> length ds \<le> i"
  have len: "length cs = length ds" using map_eq_imp_length_eq [OF a(1)] .
  then have "map index_of cs ! i = index_of pad_char" using a(2,3) by (simp add: nth_append)
  then show False using a(1,3) pad_no_digit by simp
qed

text \<open>The size that is computed first is large enough, and exact when the text is accepted.\<close>

lemma size_enough:
  assumes "map index_of cs = map Some ds" "calcSizeForSlice padded (cs @ rest) = Inr room"
  shows "length ds * 6 div 8 \<le> room"
proof -
  let ?n = "length (cs @ rest)"
  have m: "length cs = length ds" using map_eq_imp_length_eq [OF assms(1)] .
  then have le: "length ds \<le> ?n" by simp
  have last: "length ds \<le> ?n - 1" if "1 \<le> ?n" "(cs @ rest) ! (?n - 1) = pad_char"
    by (rule pad_behind [OF assms(1) _ that(2)]) (use that in simp)
  have last2: "length ds \<le> ?n - 2" if "2 \<le> ?n" "(cs @ rest) ! (?n - 2) = pad_char"
    by (rule pad_behind [OF assms(1) _ that(2)]) (use that in simp)
  have arith: "m * 6 div 8 \<le> n div 4 * 3 - u - v"
    if "n mod 4 = 0" "m \<le> n" "u = 0 \<or> u = 1 \<and> 1 \<le> n \<and> m \<le> n - 1" "v = 0 \<or> v = 1 \<and> 2 \<le> n \<and> m \<le> n - 2" for m n u v :: nat
  proof -
    have "n = 4 * (n div 4)" using that(1) div_mult_mod_eq [of n 4] by linarith
    then obtain k where k: "n = 4 * k" by blast
    show ?thesis using three_quarters [of m k] that(2-4) unfolding k by auto
  qed
  have arith2: "m * 6 div 8 \<le> n div 4 * 3 + n mod 4 * 3 div 4" if "m \<le> n" for m n :: nat
    using div_le_mono [of "m * 6" "n * 6" 8] that by (simp add: bytes_of_digits)
  show ?thesis
  proof (cases padded)
    case True
    show ?thesis
      using assms(2) True last last2 arith [of ?n "length ds" "if 1 \<le> ?n \<and> (cs @ rest) ! (?n - 1) = pad_char then 1 else 0"
          "if 2 \<le> ?n \<and> (cs @ rest) ! (?n - 2) = pad_char then 1 else 0", OF _ le]
      by (auto simp: calcSizeForSlice_def Let_def split: if_splits simp del: length_append)
  next
    case False
    then show ?thesis using assms(2) arith2 [OF le] by (auto simp: calcSizeForSlice_def Let_def split: if_splits simp del: length_append)
  qed
qed

lemma decodeChars_text:
  assumes "map index_of cs = map Some ds" "rest = [] \<or> index_of (hd rest) = None" "length ds * 6 div 8 \<le> room"
  shows "decodeChars index_of padded room 0 0 [] (cs @ rest) = Some (
    if rest \<noteq> [] \<and> (\<not> padded \<or> hd rest \<noteq> pad_char) then Inl InvalidCharacter
    else if length ds mod 4 = 1 \<or> spare_bits ds \<noteq> 0 then Inl InvalidPadding
    else if rest = replicate (length rest) pad_char \<and> (rest = [] \<or> length rest = needed_padding (length ds))
    then Inr (octets ds) else Inl InvalidPadding)"
proof -
  obtain acc where acc: "decodeChars index_of padded room 0 0 [] (cs @ rest) =
      decodeChars index_of padded room acc (length ds * 6 mod 8) (octets ds) rest"
      "acc mod 2 ^ (length ds * 6 mod 8) = spare_bits ds"
    using decodeChars_digits [OF assms(1) digits_in_range [OF assms(1)], of "[]" room padded 0 rest] assms(3)
    by (auto simp: length_octets)
  note len = bits_left [of "length ds"]
  show ?thesis
  proof (cases rest)
    case Nil
    then show ?thesis using acc len by (auto simp: checkPadding_def)
  next
    case (Cons c r)
    then have "index_of c = None" using assms(2) by simp
    then show ?thesis using acc len Cons all_pads [of rest] by (auto simp: checkPadding_def)
  qed
qed

lemma digits_have_index: "map index_of cs = map Some ds \<Longrightarrow> c \<in> set cs \<Longrightarrow> index_of c \<noteq> None"
  by (induction ds arbitrary: cs) (auto simp: map_eq_Cons_conv)

lemma pads_unique: "map index_of cs = map Some ds \<Longrightarrow> c \<in> set cs \<Longrightarrow> c \<noteq> pad_char"
  using digits_have_index pad_no_digit by blast

text \<open>A text splits into digits and padding in only one way.\<close>

lemma digits_then_pads_split:
  assumes "map index_of cs = map Some ds" "rest = [] \<or> index_of (hd rest) = None"
  shows "digits_then_pads index_of (cs @ rest) ds' p \<longleftrightarrow> ds' = ds \<and> rest = replicate p pad_char"
proof
  assume "digits_then_pads index_of (cs @ rest) ds' p"
  then obtain cs' where eq: "cs @ rest = cs' @ replicate p pad_char" and cs': "map index_of cs' = map Some ds'"
    unfolding digits_then_pads_def by blast
  have P: "\<forall>c \<in> set cs. index_of c \<noteq> None" "\<forall>c \<in> set cs'. index_of c \<noteq> None"
    using digits_have_index [OF assms(1)] digits_have_index [OF cs'] by blast+
  have "cs = takeWhile (\<lambda>c. index_of c \<noteq> None) (cs @ rest)"
    using P(1) assms(2) by (cases rest) (simp_all add: takeWhile_eq_all_conv [THEN iffD2, symmetric])
  also have "\<dots> = cs'"
    unfolding eq using P(2) pad_no_digit by (cases p) (simp_all add: takeWhile_eq_all_conv [THEN iffD2])
  finally have "cs = cs'" .
  then show "ds' = ds \<and> rest = replicate p pad_char" using eq cs' assms(1) by (simp add: inj_map_eq_map)
qed (use assms(1) in \<open>auto simp: digits_then_pads_def\<close>)

lemma calcSizeForSlice_exact:
  assumes "map index_of cs = map Some ds" "rest = replicate (length rest) pad_char" "length ds mod 4 \<noteq> 1"
    and "length rest = (if padded then needed_padding (length ds) else 0)"
  shows "calcSizeForSlice padded (cs @ rest) = Inr (length ds * 6 div 8)"
proof -
  have len: "length cs = length ds" using map_eq_imp_length_eq [OF assms(1)] .
  have digit: "cs ! j \<noteq> pad_char" if "j < length cs" for j using pads_unique [OF assms(1)] that by simp
  show ?thesis
  proof (cases padded)
    case True
    show ?thesis
    proof (cases "length ds" rule: mod_4_cases)
      case (1 q)
      then have "rest = []" using True assms(4) by (simp add: needed_padding_def)
      then show ?thesis using True 1 len digit by (auto simp: calcSizeForSlice_def Let_def)
    next
      case (2 q)
      then show ?thesis using assms(3) by (simp only: fourths)
    next
      case (3 q)
      then have "length rest = 2" using True assms(4) by (simp only: needed_padding_def fourths) simp
      then have r: "rest = [pad_char, pad_char]" by (subst assms(2)) (simp add: numeral_2_eq_2)
      have n: "length (cs @ rest) = (q + 1) * 4 + 0" using len 3 r by simp
      show ?thesis using True unfolding calcSizeForSlice_def Let_def n fourths 3 eighths unfolding r
        using len 3 by (simp add: nth_append)
    next
      case (4 q)
      then have "length rest = 1" using True assms(4) by (simp only: needed_padding_def fourths) simp
      then have r: "rest = [pad_char]" by (subst assms(2)) simp
      have n: "length (cs @ rest) = (q + 1) * 4 + 0" using len 4 r by simp
      have "cs ! (q * 4 + 2) \<noteq> pad_char" using digit len 4 by simp
      then show ?thesis using True unfolding calcSizeForSlice_def Let_def n fourths 4 eighths unfolding r
        using len 4 by (simp add: nth_append)
    qed
  next
    case False
    then show ?thesis using assms(3,4) len by (simp add: calcSizeForSlice_def bytes_of_digits Let_def)
  qed
qed

lemma decodeBase64With_iff:
  "decodeBase64With index_of padded text \<noteq> None"
  "decodeBase64With index_of padded text = Some (Inr bs) \<longleftrightarrow>
     (\<exists>ds. digits_then_pads index_of text ds (if padded then needed_padding (length ds) else 0) \<and>
        length ds mod 4 \<noteq> 1 \<and> spare_bits ds = 0 \<and> bs = octets ds)"
proof -
  obtain cs ds rest where t: "text = cs @ rest" "map index_of cs = map Some ds" "rest = [] \<or> index_of (hd rest) = None"
    by (rule split_text)
  let ?p = "if padded then needed_padding (length ds) else 0"
  let ?ok = "rest = replicate ?p pad_char \<and> length ds mod 4 \<noteq> 1 \<and> spare_bits ds = 0"
  have ok: "(\<exists>ds. digits_then_pads index_of text ds (if padded then needed_padding (length ds) else 0) \<and>
      length ds mod 4 \<noteq> 1 \<and> spare_bits ds = 0 \<and> bs = octets ds) \<longleftrightarrow> ?ok \<and> bs = octets ds"
    unfolding t(1) digits_then_pads_split [OF t(2,3)] by auto
  have unpadded: "needed_padding n = 0 \<longleftrightarrow> n mod 4 = 0" for n
    by (cases n rule: mod_4_cases; simp only: needed_padding_def fourths; simp)
  have "decodeBase64With index_of padded text \<noteq> None \<and>
    (decodeBase64With index_of padded text = Some (Inr bs) \<longleftrightarrow> ?ok \<and> bs = octets ds)"
  proof (cases "calcSizeForSlice padded text")
    case (Inl e)
    have "\<not> ?ok"
    proof
      assume ok: ?ok
      then have "calcSizeForSlice padded text = Inr (length ds * 6 div 8)"
        unfolding t(1) by (intro calcSizeForSlice_exact [OF t(2)]) auto
      then show False using Inl by simp
    qed
    then show ?thesis using Inl by (auto simp: decodeBase64With_def)
  next
    case (Inr room)
    note run = decodeChars_text [OF t(2,3) size_enough [OF t(2) Inr [unfolded t(1)]], of padded]
    show ?thesis
    proof (cases "?ok")
      case True
      then have "room = length ds * 6 div 8" using calcSizeForSlice_exact [OF t(2), of rest padded] t(1) Inr by simp
      then show ?thesis using Inr True run t(1) by (auto simp: decodeBase64With_def length_octets split: if_splits)
    next
      case False
      have four: "padded \<Longrightarrow> length text mod 4 = 0"
        using Inr by (auto simp: calcSizeForSlice_def Let_def split: if_splits)
      have "length ds mod 4 = 0" if "padded" "rest = []"
        using four that t(1) map_eq_imp_length_eq [OF t(2)] by simp
      then have "decodeChars index_of padded room 0 0 [] text = Some (Inl InvalidCharacter) \<or>
          decodeChars index_of padded room 0 0 [] text = Some (Inl InvalidPadding)"
        unfolding t(1) run using False unpadded [of "length ds"] by (auto split: if_splits)
      then show ?thesis using Inr False by (auto simp: decodeBase64With_def)
    qed
  qed
  then show "decodeBase64With index_of padded text \<noteq> None"
    "decodeBase64With index_of padded text = Some (Inr bs) \<longleftrightarrow>
     (\<exists>ds. digits_then_pads index_of text ds (if padded then needed_padding (length ds) else 0) \<and>
        length ds mod 4 \<noteq> 1 \<and> spare_bits ds = 0 \<and> bs = octets ds)"
    unfolding ok by blast+
qed

end

lemma letterIndex_range: "letterIndex c = Some d \<Longrightarrow> d < 62"
proof -
  assume "letterIndex c = Some d"
  then show "d < 62" using unat_bound [of c] by (auto simp: letterIndex_def word_le_nat_alt split: if_splits)
qed

interpretation standard: base64_alphabet standardIndex
  by unfold_locales (auto simp: standardIndex_def letterIndex_def [of pad_char] dest: letterIndex_range split: if_splits)

interpretation url_safe: base64_alphabet urlSafeIndex
  by unfold_locales (auto simp: urlSafeIndex_def letterIndex_def [of pad_char] dest: letterIndex_range split: if_splits)

interpretation both: base64_alphabet base64Index
  by unfold_locales (auto simp: base64Index_def letterIndex_def [of pad_char] dest: letterIndex_range split: if_splits)

section \<open>The JSON module's decoder\<close>

lemma scanBase64_digits:
  "map base64Index cs = map Some ds \<Longrightarrow> scanBase64 n 0 False (cs @ rest) = scanBase64 (n + length ds) 0 False rest"
proof (induction ds arbitrary: cs n)
  case (Cons d ds)
  then obtain c cs' where "cs = c # cs'" "base64Index c = Some d" "map base64Index cs' = map Some ds"
    by (auto simp: map_eq_Cons_conv)
  moreover have "c \<noteq> pad_char" using calculation(2) both.pad_no_digit by auto
  ultimately show ?case using Cons.IH [of cs' "n + 1"] by simp
qed simp

lemma scanBase64_pads:
  "scanBase64 n p True rest = (if rest = replicate (length rest) pad_char then Inr (n, p + length rest) else Inl InvalidPadding)"
  by (induction rest arbitrary: p) auto

lemma scanBase64_text:
  assumes "map base64Index cs = map Some ds" "rest = [] \<or> base64Index (hd rest) = None"
  shows "scanBase64 0 0 False (cs @ rest) =
    (if rest = replicate (length rest) pad_char then Inr (length ds, length rest)
     else if hd rest = pad_char then Inl InvalidPadding else Inl InvalidCharacter)"
  using assms(2) unfolding scanBase64_digits [OF assms(1)] by (cases rest) (auto simp: scanBase64_pads)

lemma flushBytes_eq:
  "bits < 8 \<Longrightarrow> flushBytes room acc bits out = Some (acc, bits, out)"
  "8 \<le> bits \<Longrightarrow> bits < 16 \<Longrightarrow> length out < room \<Longrightarrow> flushBytes room acc bits out =
     Some (acc mod 2 ^ (bits - 8), bits - 8, out @ [of_nat (acc div 2 ^ (bits - 8))])"
proof -
  show "bits < 8 \<Longrightarrow> flushBytes room acc bits out = Some (acc, bits, out)" for acc bits out
    by (subst flushBytes.simps) simp
  then show "8 \<le> bits \<Longrightarrow> bits < 16 \<Longrightarrow> length out < room \<Longrightarrow> flushBytes room acc bits out =
     Some (acc mod 2 ^ (bits - 8), bits - 8, out @ [of_nat (acc div 2 ^ (bits - 8))])"
    by (subst flushBytes.simps) simp
qed

lemma storeBase64_digit:
  assumes "base64Index c = Some d"
  shows "bits < 2 \<Longrightarrow> storeBase64 room acc bits out (c # cs) = storeBase64 room (acc * 64 + d) (bits + 6) out cs"
    and "2 \<le> bits \<Longrightarrow> bits < 8 \<Longrightarrow> length out < room \<Longrightarrow> storeBase64 room acc bits out (c # cs) =
      storeBase64 room ((acc * 64 + d) mod 2 ^ (bits - 2)) (bits - 2) (out @ [of_nat ((acc * 64 + d) div 2 ^ (bits - 2))]) cs"
  using assms both.pad_no_digit by (auto simp: flushBytes_eq)

lemma storeBase64_digits:
  assumes "map base64Index cs = map Some ds" "length out + length (octets ds) \<le> room"
  shows "storeBase64 room 0 0 out (cs @ rest) = storeBase64 room (spare_bits ds) (length ds * 6 mod 8) (out @ octets ds) rest"
  using assms
proof (induction ds arbitrary: cs out rule: octets.induct)
  case (1 a b c d ds)
  obtain ca cb cc cd cs' where cs: "cs = ca # cb # cc # cd # cs'" "map base64Index cs' = map Some ds"
      "base64Index ca = Some a" "base64Index cb = Some b" "base64Index cc = Some c" "base64Index cd = Some d"
    using 1(2) by (auto simp: map_eq_Cons_conv)
  let ?out = "out @ [of_nat (a * 4 + b div 16), of_nat (b mod 16 * 16 + c div 4), of_nat (c mod 4 * 64 + d)]"
  have q: "(a * 64 + b) div 16 = a * 4 + b div 16" "(b mod 16 * 64 + c) div 4 = b mod 16 * 16 + c div 4" by simp_all
  have "storeBase64 room 0 0 out (cs @ rest) = storeBase64 room 0 0 ?out (cs' @ rest)"
    using cs(3-6) 1(3) unfolding cs(1)
    by (simp add: storeBase64_digit q low_digit del: storeBase64.simps of_nat_add of_nat_mult)
  moreover have "length (a # b # c # d # ds) * 6 mod 8 = length ds * 6 mod 8"
    using mod_mult_self2 [of "length ds * 6" 8 3] by (simp add: add.commute)
  moreover have "length ?out + length (octets ds) \<le> room" using 1(3) by simp
  note 1(1) [OF cs(2) this]
  moreover have "?out @ octets ds = out @ octets (a # b # c # d # ds)" by simp
  ultimately show ?case by (simp only: spare_bits.simps)
next
  case (2 a b c)
  obtain ca cb cc where cs: "cs = [ca, cb, cc]" "base64Index ca = Some a" "base64Index cb = Some b" "base64Index cc = Some c"
    using 2(1) by (auto simp: map_eq_Cons_conv)
  have q: "(a * 64 + b) div 16 = a * 4 + b div 16" "(b mod 16 * 64 + c) div 4 = b mod 16 * 16 + c div 4" by simp_all
  show ?case using cs(2-4) 2(2) unfolding cs(1)
    by (simp add: storeBase64_digit q low_digit del: storeBase64.simps of_nat_add of_nat_mult)
next
  case (3 a b)
  obtain ca cb where cs: "cs = [ca, cb]" "base64Index ca = Some a" "base64Index cb = Some b"
    using 3(1) by (auto simp: map_eq_Cons_conv)
  have q: "(a * 64 + b) div 16 = a * 4 + b div 16" by simp
  show ?case using cs(2,3) 3(2) unfolding cs(1)
    by (simp add: storeBase64_digit q low_digit del: storeBase64.simps of_nat_add of_nat_mult)
next
  case (4 a)
  then show ?case by (auto simp: map_eq_Cons_conv storeBase64_digit simp del: storeBase64.simps)
qed auto

lemma jsonDecodeBase64_iff:
  "jsonDecodeBase64 text \<noteq> None"
  "jsonDecodeBase64 text = Some (Inr bs) \<longleftrightarrow> (\<exists>ds p. digits_then_pads base64Index text ds p \<and>
     length ds mod 4 \<noteq> 1 \<and> (p = 0 \<or> p = needed_padding (length ds)) \<and> bs = octets ds)"
proof -
  obtain cs ds rest where t: "text = cs @ rest" "map base64Index cs = map Some ds" "rest = [] \<or> base64Index (hd rest) = None"
    by (rule both.split_text)
  let ?ok = "rest = replicate (length rest) pad_char \<and> length ds mod 4 \<noteq> 1 \<and> (rest = [] \<or> length rest = needed_padding (length ds))"
  have ok: "(\<exists>ds p. digits_then_pads base64Index text ds p \<and>
      length ds mod 4 \<noteq> 1 \<and> (p = 0 \<or> p = needed_padding (length ds)) \<and> bs = octets ds) \<longleftrightarrow> ?ok \<and> bs = octets ds"
    unfolding t(1) both.digits_then_pads_split [OF t(2,3)] by (metis length_0_conv length_replicate)
  have pads: "n mod 4 \<noteq> 1 \<Longrightarrow> expectedPadding n = Some (needed_padding n)" "needed_padding n \<le> 3" for n
    by (cases n rule: mod_4_cases; simp only: expectedPadding_def needed_padding_def fourths; simp)+
  have two: "n mod 4 \<noteq> 1 \<Longrightarrow> needed_padding n \<le> 2" for n
    by (cases n rule: mod_4_cases; simp only: needed_padding_def fourths; simp)
  have store: "storeBase64 (length ds * 6 div 8) 0 0 [] text = Some (octets ds)" if "rest = [] \<or> hd rest = pad_char"
    unfolding t(1) using storeBase64_digits [OF t(2), of "[]" "length ds * 6 div 8" rest] that
    by (cases rest) (auto simp: length_octets)
  have result: "jsonDecodeBase64 text = (if ?ok then Some (Inr (octets ds)) else jsonDecodeBase64 text)"
    "\<not> ?ok \<Longrightarrow> \<exists>e. jsonDecodeBase64 text = Some (Inl e)"
  proof -
    show "\<exists>e. jsonDecodeBase64 text = Some (Inl e)" if "\<not> ?ok"
      using that scanBase64_text [OF t(2,3)] pads two [of "length ds"] unfolding t(1) [symmetric]
      by (cases "rest = replicate (length rest) pad_char"; cases "length ds mod 4 = 1"; cases "length rest > 2") (auto simp: jsonDecodeBase64_def)
    have "jsonDecodeBase64 text = Some (Inr (octets ds))" if ?ok
    proof -
      have "rest = [] \<or> hd rest = pad_char" using that by (cases rest) auto
      note store [OF this]
      then show ?thesis using that scanBase64_text [OF t(2,3)] pads two [of "length ds"] unfolding t(1) [symmetric]
        by (auto simp: jsonDecodeBase64_def length_octets mult.commute)
    qed
    then show "jsonDecodeBase64 text = (if ?ok then Some (Inr (octets ds)) else jsonDecodeBase64 text)" by simp
  qed
  show "jsonDecodeBase64 text \<noteq> None" using result by (metis option.distinct(1))
  show "jsonDecodeBase64 text = Some (Inr bs) \<longleftrightarrow> (\<exists>ds p. digits_then_pads base64Index text ds p \<and>
     length ds mod 4 \<noteq> 1 \<and> (p = 0 \<or> p = needed_padding (length ds)) \<and> bs = octets ds)"
    unfolding ok using result by (metis Inl_Inr_False option.inject sum.inject(2))
qed

section \<open>The four decoders together\<close>

lemma letterIndex_other: "letterIndex 0x2B = None" "letterIndex 0x2D = None" "letterIndex 0x2F = None" "letterIndex 0x5F = None"
  by (simp_all add: letterIndex_def)

lemma digits_then_pads_both:
  assumes "digits_then_pads index_of text ds p" "index_of = standardIndex \<or> index_of = urlSafeIndex"
  shows "digits_then_pads base64Index text ds p"
proof -
  have "index_of c = Some d \<Longrightarrow> base64Index c = Some d" for c d
    using assms(2) by (auto simp: standardIndex_def urlSafeIndex_def base64Index_def letterIndex_other split: if_splits)
  then have "map index_of cs = map Some ds \<Longrightarrow> map base64Index cs = map Some ds" for cs
    by (induction ds arbitrary: cs) (auto simp: map_eq_Cons_conv)
  then show ?thesis using assms(1) unfolding digits_then_pads_def by blast
qed

lemma catching_Inr:
  "m \<noteq> None \<Longrightarrow> catching m n = Some (Inr x) \<longleftrightarrow> m = Some (Inr x) \<or> (\<exists>e. m = Some (Inl e)) \<and> n = Some (Inr x)"
  "m \<noteq> None \<Longrightarrow> n \<noteq> None \<Longrightarrow> catching m n \<noteq> None"
  by (auto simp: catching_def split: option.splits sum.splits)

lemma answer_cases: "m \<noteq> None \<Longrightarrow> (\<exists>e. m = Some (Inl e)) \<or> (\<exists>x. m = Some (Inr x))"
  by (metis not_None_eq sumE)

text \<open>When all decoders that accept a text agree, their order does not matter.\<close>

lemma catching_agree:
  assumes "m \<noteq> None" "\<And>x. m = Some (Inr x) \<Longrightarrow> j = Some (Inr x)" "\<And>x. n = Some (Inr x) \<Longrightarrow> j = Some (Inr x)"
  shows "catching m n = Some (Inr x) \<longleftrightarrow> m = Some (Inr x) \<or> n = Some (Inr x)"
  using answer_cases [OF assms(1)] assms(2,3) by (auto simp: catching_Inr(1) [OF assms(1)])

text \<open>The texts that one of the four decoders of the library accepts, and the bytes they stand for.\<close>

definition strict_base64 :: "bytes \<Rightarrow> bytes \<Rightarrow> bool" where
  "strict_base64 text bs \<longleftrightarrow> (\<exists>ds p. (digits_then_pads standardIndex text ds p \<or> digits_then_pads urlSafeIndex text ds p) \<and>
     length ds mod 4 \<noteq> 1 \<and> (p = 0 \<or> p = needed_padding (length ds)) \<and> spare_bits ds = 0 \<and> bs = octets ds)"

lemma strict_base64_json: "strict_base64 text bs \<Longrightarrow> jsonDecodeBase64 text = Some (Inr bs)"
  unfolding strict_base64_def jsonDecodeBase64_iff using digits_then_pads_both by blast

lemma decodeBase64_iff: "decodeBase64 text \<noteq> None" "decodeBase64 text = Some (Inr bs) \<longleftrightarrow> strict_base64 text bs"
proof -
  have some: "decodeBase64With standardIndex p text \<noteq> None" "decodeBase64With urlSafeIndex p text \<noteq> None" for p
    by (rule standard.decodeBase64With_iff url_safe.decodeBase64With_iff)+
  then show "decodeBase64 text \<noteq> None" unfolding decodeBase64_def by (intro catching_Inr)
  have strict: "strict_base64 text bs \<longleftrightarrow> (\<exists>p. decodeBase64With standardIndex p text = Some (Inr bs) \<or> decodeBase64With urlSafeIndex p text = Some (Inr bs))"
    for bs
    unfolding strict_base64_def standard.decodeBase64With_iff url_safe.decodeBase64With_iff
    by (simp only: ex_bool_eq if_True if_False) blast
  have json: "jsonDecodeBase64 text = Some (Inr x)"
    if "decodeBase64With standardIndex p text = Some (Inr x) \<or> decodeBase64With urlSafeIndex p text = Some (Inr x)" for p x
    by (rule strict_base64_json, unfold strict, rule exI, rule that)
  have agree: "catching (decodeBase64With index_of p text) n = Some (Inr x) \<longleftrightarrow>
      decodeBase64With index_of p text = Some (Inr x) \<or> n = Some (Inr x)"
    if "index_of = standardIndex \<or> index_of = urlSafeIndex" "\<And>x. n = Some (Inr x) \<Longrightarrow> jsonDecodeBase64 text = Some (Inr x)"
    for index_of p n x
  proof (rule catching_agree)
    show "decodeBase64With index_of p text \<noteq> None" using that(1) some [of p] by (elim disjE) simp_all
    show "jsonDecodeBase64 text = Some (Inr x)" if "decodeBase64With index_of p text = Some (Inr x)" for x
      by (rule json [of p]) (use \<open>index_of = standardIndex \<or> index_of = urlSafeIndex\<close> that in \<open>elim disjE; simp\<close>)
  qed (rule that(2))
  let ?m3 = "catching (decodeBase64With standardIndex False text) (decodeBase64With urlSafeIndex False text)"
  let ?m2 = "catching (decodeBase64With urlSafeIndex True text) ?m3"
  have m3: "?m3 = Some (Inr x) \<longleftrightarrow>
      decodeBase64With standardIndex False text = Some (Inr x) \<or> decodeBase64With urlSafeIndex False text = Some (Inr x)" for x
    by (rule agree, simp, rule json, rule disjI2)
  have m3_json: "jsonDecodeBase64 text = Some (Inr x)" if "?m3 = Some (Inr x)" for x
    using that json unfolding m3 by blast
  have m2: "?m2 = Some (Inr x) \<longleftrightarrow> decodeBase64With urlSafeIndex True text = Some (Inr x) \<or> ?m3 = Some (Inr x)" for x
    by (rule agree, simp, rule m3_json)
  have "decodeBase64 text = Some (Inr bs) \<longleftrightarrow> decodeBase64With standardIndex True text = Some (Inr bs) \<or> ?m2 = Some (Inr bs)"
    unfolding decodeBase64_def by (rule agree, simp) (use m2 m3_json json in blast)
  then show "decodeBase64 text = Some (Inr bs) \<longleftrightarrow> strict_base64 text bs"
    unfolding strict m2 m3 ex_bool_eq by blast
qed

section \<open>Encoding\<close>

definition letterChar :: "nat \<Rightarrow> byte" where
  "letterChar d = of_nat (if d < 26 then 0x41 + d else if d < 52 then 0x61 + (d - 26) else 0x30 + (d - 52))"

definition standardChar :: "nat \<Rightarrow> byte" where
  "standardChar d = (if d = 62 then 0x2B else if d = 63 then 0x2F else letterChar d)"

definition urlSafeChar :: "nat \<Rightarrow> byte" where
  "urlSafeChar d = (if d = 62 then 0x2D else if d = 63 then 0x5F else letterChar d)"

text \<open>\<open>std.base64\<close>'s \<open>Encoder\<close>, with or without padding.\<close>

definition base64Encode :: "(nat \<Rightarrow> byte) \<Rightarrow> bool \<Rightarrow> bytes \<Rightarrow> bytes" where
  "base64Encode char padded source =
     map char (sextets source) @ replicate (if padded then needed_padding (length (sextets source)) else 0) pad_char"

lemma unat_letterChar: "d < 62 \<Longrightarrow> unat (letterChar d) = (if d < 26 then 0x41 + d else if d < 52 then 0x61 + (d - 26) else 0x30 + (d - 52))"
  unfolding letterChar_def by (subst unat_byte_of_nat) (auto intro: less_trans)

lemma letterIndex_letterChar: "d < 62 \<Longrightarrow> letterIndex (letterChar d) = Some d"
  by (auto simp: letterIndex_def word_le_nat_alt unat_letterChar)

lemma letterChar_other: "d < 62 \<Longrightarrow> letterChar d \<noteq> 0x2B \<and> letterChar d \<noteq> 0x2D \<and> letterChar d \<noteq> 0x2F \<and> letterChar d \<noteq> 0x5F"
  using letterIndex_letterChar letterIndex_other by fastforce

lemma index_of_char:
  "d < 64 \<Longrightarrow> standardIndex (standardChar d) = Some d" "d < 64 \<Longrightarrow> urlSafeIndex (urlSafeChar d) = Some d"
proof -
  assume "d < 64"
  then consider "d = 62" | "d = 63" | "d < 62" by linarith
  then show "standardIndex (standardChar d) = Some d" "urlSafeIndex (urlSafeChar d) = Some d"
    by (cases; simp add: standardIndex_def standardChar_def urlSafeIndex_def urlSafeChar_def letterIndex_letterChar letterChar_other)+
qed

lemma sextets_range: "d \<in> set (sextets bs) \<Longrightarrow> d < 64"
proof (induction bs rule: sextets.induct)
  case (1 x y z bs)
  then show ?case using unat_bound [of x] byte_pieces(1) [of y] byte_pieces(2) [of z]
      mod_less_divisor [of 4 "unat x"] mod_less_divisor [of 16 "unat y"] by auto
next
  case (2 x y)
  then show ?case using unat_bound [of x] byte_pieces(1) [of y] mod_less_divisor [of 4 "unat x"] mod_less_divisor [of 16 "unat y"] by auto
next
  case (3 x)
  then show ?case using unat_bound [of x] mod_less_divisor [of 4 "unat x"] by auto
qed simp

lemma encoded_digits:
  assumes "\<And>d. d < 64 \<Longrightarrow> index_of (char d) = Some d"
  shows "digits_then_pads index_of (base64Encode char padded bs) (sextets bs) (if padded then needed_padding (length (sextets bs)) else 0)"
  unfolding digits_then_pads_def base64Encode_def
  by (intro exI [of _ "map char (sextets bs)"]) (auto simp: assms dest: sextets_range)

lemma encoders_strict:
  "strict_base64 (base64Encode standardChar padded bs) bs" "strict_base64 (base64Encode urlSafeChar padded bs) bs"
  unfolding strict_base64_def
  using encoded_digits [of standardIndex standardChar padded bs, OF index_of_char(1)]
    encoded_digits [of urlSafeIndex urlSafeChar padded bs, OF index_of_char(2)] octets_sextets(1) [of bs] octets_sextets(2,3) [of bs]
  by (metis (full_types))+

section \<open>Properties\<close>

text \<open>
  C25: what any of the four encoders of the library writes, standard or URL-safe, with padding
  or without, both decoders of the toolkit read back, byte for byte.
\<close>

theorem base64_roundtrip:
  "decodeBase64 (base64Encode standardChar padded bs) = Some (Inr bs) \<and>
   decodeBase64 (base64Encode urlSafeChar padded bs) = Some (Inr bs) \<and>
   jsonDecodeBase64 (base64Encode standardChar padded bs) = Some (Inr bs) \<and>
   jsonDecodeBase64 (base64Encode urlSafeChar padded bs) = Some (Inr bs)"
  using encoders_strict [of padded bs] by (simp add: decodeBase64_iff(2) strict_base64_json)

text \<open>
  C26: the decoder of \<open>wkt.zig\<close> never panics and accepts exactly the canonical texts over one of
  the two alphabets, whatever the order in which it tries them, and the decoder of
  \<open>json.zig\<close> accepts every one of them with the same bytes. It accepts more, texts that mix the
  alphabets or whose last digit has bits that belong to no byte, so that a bytes field and
  a \<open>BytesValue\<close> inside an \<open>Any\<close> do not accept the same JSON.
\<close>

theorem base64_decoders_compared:
  "decodeBase64 text \<noteq> None \<and> jsonDecodeBase64 text \<noteq> None \<and>
   (decodeBase64 text = Some (Inr bs) \<longleftrightarrow> strict_base64 text bs) \<and>
   (jsonDecodeBase64 text = Some (Inr bs) \<longleftrightarrow> (\<exists>ds p. digits_then_pads base64Index text ds p \<and>
      length ds mod 4 \<noteq> 1 \<and> (p = 0 \<or> p = needed_padding (length ds)) \<and> bs = octets ds)) \<and>
   (decodeBase64 text = Some (Inr bs) \<longrightarrow> jsonDecodeBase64 text = Some (Inr bs)) \<and>
   jsonDecodeBase64 [0x51, 0x52] = Some (Inr [0x41]) \<and> (\<exists>e. decodeBase64 [0x51, 0x52] = Some (Inl e))"
proof -
  have "jsonDecodeBase64 [0x51, 0x52] = Some (Inr [0x41])"
    by (simp add: jsonDecodeBase64_def base64Index_def letterIndex_def flushBytes_eq)
  moreover have "\<exists>e. decodeBase64 [0x51, 0x52] = Some (Inl e)"
    by (simp add: decodeBase64_def decodeBase64With_def calcSizeForSlice_def catching_def standardIndex_def urlSafeIndex_def letterIndex_def checkPadding_def)
  ultimately show ?thesis
    using decodeBase64_iff [of "text"] jsonDecodeBase64_iff [of "text"] strict_base64_json by blast
qed

theorem base64_decoders_compared_witness:
  "decodeBase64 [0x51, 0x51, 0x3D, 0x3D] = Some (Inr [0x41]) \<and> jsonDecodeBase64 [0x51, 0x51, 0x3D, 0x3D] = Some (Inr [0x41])"
proof -
  have two: "replicate 2 pad_char = [0x3D, 0x3D]" by (simp add: numeral_2_eq_2)
  have "digits_then_pads standardIndex [0x51, 0x51, 0x3D, 0x3D] [16, 16] 2"
    unfolding digits_then_pads_def by (intro exI [of _ "[0x51, 0x51]"]) (simp add: standardIndex_def letterIndex_def two)
  then have "strict_base64 [0x51, 0x51, 0x3D, 0x3D] [0x41]"
    unfolding strict_base64_def by (intro exI [of _ "[16, 16]"] exI [of _ 2]) (simp add: needed_padding_def)
  with base64_decoders_compared [of "[0x51, 0x51, 0x3D, 0x3D]" "[0x41]"] show ?thesis by blast
qed

end
