(* ===== verification/Wkt_Number.thy ===== *)
theory Wkt_Number
  imports Wkt_Value
begin

text \<open>
  Numbers of a JSON text as \<open>src/wkt.zig\<close> converts them: what the bits of an \<open>f64\<close> stand for, the
  rounding of an integer to a float, and the conversion of a float that is an integer back.
  The value of an \<open>f64\<close> is an integer in units of its smallest positive number \<open>2 ^ - 1074\<close>, so
  that every comparison of the code is one of integers.
\<close>

section \<open>The value of a float\<close>

definition f64_one :: int where
  "f64_one = 2 ^ 1074"

definition f64_magnitude :: "u64 \<Rightarrow> nat" where
  "f64_magnitude v =
     (let e = unat v div 2 ^ 52 mod 2 ^ 11; m = unat v mod 2 ^ 52 in
      if e = 0 then m else (2 ^ 52 + m) * 2 ^ (e - 1))"

definition f64_units :: "u64 \<Rightarrow> int" where
  "f64_units v = (if unat v div 2 ^ 63 = 1 then - int (f64_magnitude v) else int (f64_magnitude v))"

section \<open>Rounding\<close>

fun significant_bits :: "nat \<Rightarrow> nat" where
  "significant_bits n = (if n = 0 then 0 else Suc (significant_bits (n div 2)))"

declare significant_bits.simps [simp del]

text \<open>\<open>n / 2 ^ s\<close>, to the nearest integer, and to the even one of two that are as near.\<close>

definition round_half_even :: "nat \<Rightarrow> nat \<Rightarrow> nat" where
  "round_half_even n s =
     (let q = n div 2 ^ s; r = n mod 2 ^ s in
      if 2 * r > 2 ^ s \<or> 2 * r = 2 ^ s \<and> odd q then q + 1 else q)"

text \<open>
  The bits of the float nearest to \<open>n\<close>, with \<open>p\<close> bits of fraction, when the exponent of 1 is stored
  as \<open>bias\<close>; a rounding up to the next power of two carries into the exponent. Every integer
  of 64 bits is far below the largest \<open>f32\<close>.
\<close>

definition float_bits :: "nat \<Rightarrow> nat \<Rightarrow> nat \<Rightarrow> nat" where
  "float_bits p bias n =
     (if n = 0 then 0
      else let k = significant_bits n - 1 in
        (k + bias) * 2 ^ p + ((if k \<le> p then n * 2 ^ (p - k) else round_half_even n (k - p)) - 2 ^ p))"

definition f64_of_int :: "int \<Rightarrow> u64" where
  "f64_of_int n = of_nat ((if n < 0 then 2 ^ 63 else 0) + float_bits 52 1023 (nat \<bar>n\<bar>))"

definition f32_of_int :: "int \<Rightarrow> u32" where
  "f32_of_int n = of_nat ((if n < 0 then 2 ^ 31 else 0) + float_bits 23 127 (nat \<bar>n\<bar>))"

text \<open>
  \<open>@floatCast\<close> from \<open>f64\<close> to \<open>f32\<close>: the smallest positive \<open>f32\<close> is \<open>2 ^ 925\<close> units, what is too large
  becomes infinite, and a NaN keeps the leading bits of its payload and becomes quiet.
\<close>

definition f32_of_f64 :: "u64 \<Rightarrow> u32" where
  "f32_of_f64 v =
     (let sign = unat v div 2 ^ 63 * 2 ^ 31; n = f64_magnitude v; s = max 925 (significant_bits n - 24) in
      of_nat (sign +
        (if isNan v then 0x7FC00000 + unat v mod 2 ^ 51 div 2 ^ 29
         else if \<not> isFinite v then 0x7F800000
         else min 0x7F800000 ((s - 925) * 2 ^ 23 + round_half_even n s))))"

text \<open>\<open>@floatCast\<close> from \<open>f32\<close> to \<open>f64\<close>: a normal number gets the larger bias, a subnormal one becomes normal.\<close>

definition f64_of_f32 :: "u32 \<Rightarrow> u64" where
  "f64_of_f32 v =
     (let e = unat v div 2 ^ 23 mod 2 ^ 8; m = unat v mod 2 ^ 23 in
      of_nat (unat v div 2 ^ 31 * 2 ^ 63 +
        (if e = 255 then 0x7FF * 2 ^ 52 + (if m = 0 then 0 else 2 ^ 51 + m mod 2 ^ 22 * 2 ^ 29)
         else if e = 0 then float_bits 52 874 m
         else (e + 896) * 2 ^ 52 + m * 2 ^ 29)))"

section \<open>Integers in floats\<close>

definition int_range :: "bool \<Rightarrow> nat \<Rightarrow> int \<Rightarrow> bool" where
  "int_range is_signed bits n = (if is_signed then fits bits n else fits_unsigned bits n)"

text \<open>\<open>@intFromFloat\<close>, which panics out of range.\<close>

definition intFromFloat :: "bool \<Rightarrow> nat \<Rightarrow> u64 \<Rightarrow> int option" where
  "intFromFloat is_signed bits v =
     (let n = (if f64_units v < 0 then - (- f64_units v div f64_one) else f64_units v div f64_one) in
      if int_range is_signed bits n then Some n else None)"

definition minInt :: "bool \<Rightarrow> nat \<Rightarrow> int" where
  "minInt is_signed bits = (if is_signed then - (2 ^ (bits - 1)) else 0)"

definition maxInt :: "bool \<Rightarrow> nat \<Rightarrow> int" where
  "maxInt is_signed bits = (if is_signed then 2 ^ (bits - 1) - 1 else 2 ^ bits - 1)"

text \<open>
  The integer type of the code is its sign and its bits. The bounds of a type of at most 53
  bits are converted to \<open>f64\<close> without rounding, and \<open>value\<close> is compared with them in units.
\<close>

definition wrapperFloatAsInt :: "bool \<Rightarrow> nat \<Rightarrow> u64 \<Rightarrow> (wkt_error + int) option" where
  "wrapperFloatAsInt is_signed bits v =
     (if \<not> isFinite v then Some (Inl InvalidNumber)
      else if f64_units v mod f64_one \<noteq> 0 then Some (Inl TypeMismatch)
      else if \<not> is_signed \<and> f64_units v < 0 then Some (Inl Overflow)
      else if bits \<le> 53 then
        (if f64_units v < minInt is_signed bits * f64_one \<or> f64_units v > maxInt is_signed bits * f64_one then Some (Inl Overflow)
         else map_option Inr (intFromFloat is_signed bits v))
      else if is_signed then
        (if f64_units v < -9223372036854775808 * f64_one \<or> f64_units v \<ge> 9223372036854775808 * f64_one then Some (Inl Overflow)
         else map_option Inr (intFromFloat is_signed bits v))
      else
        (if f64_units v < 0 \<or> f64_units v \<ge> 18446744073709551616 * f64_one then Some (Inl Overflow)
         else map_option Inr (intFromFloat is_signed bits v)))"

section \<open>Exact conversions\<close>

lemma f64_one_pos: "0 < f64_one"
  by (simp add: f64_one_def)

lemma intFromFloat_exact:
  "f64_units v = n * f64_one \<Longrightarrow> intFromFloat is_signed bits v = (if int_range is_signed bits n then Some n else None)"
proof -
  assume v: "f64_units v = n * f64_one"
  have "n * f64_one < 0 \<longleftrightarrow> n < 0" using f64_one_pos by (simp add: mult_less_0_iff)
  moreover have "- (n * f64_one) div f64_one = - n" using nonzero_mult_div_cancel_right [of f64_one "- n"] f64_one_pos by (simp del: nonzero_mult_div_cancel_right)
  ultimately show ?thesis using f64_one_pos unfolding intFromFloat_def v by (auto simp: Let_def)
qed

lemma wrapperFloatAsInt_exact:
  assumes "isFinite v" "f64_units v = n * f64_one" "bits = 32 \<or> bits = 64"
  shows "wrapperFloatAsInt is_signed bits v = Some (if int_range is_signed bits n then Inr n else Inl Overflow)"
proof -
  have cmp: "a * f64_one < b * f64_one \<longleftrightarrow> a < b" "a * f64_one \<le> b * f64_one \<longleftrightarrow> a \<le> b" "a * f64_one < 0 \<longleftrightarrow> a < 0" for a b
    using f64_one_pos by (simp_all add: mult_less_0_iff)
  have "n * f64_one mod f64_one = 0" by simp
  note run = wrapperFloatAsInt_def assms(2) this cmp intFromFloat_exact [OF assms(2)]
  show ?thesis
  proof (cases is_signed)
    case True
    then have "is_signed = True" by simp
    show ?thesis using assms(1,3) unfolding run minInt_def maxInt_def int_range_def \<open>is_signed = True\<close>
      by (elim disjE) (auto simp: fits_def)
  next
    case False
    then have "is_signed = False" by simp
    show ?thesis using assms(1,3) unfolding run minInt_def maxInt_def int_range_def \<open>is_signed = False\<close>
      by (elim disjE) (auto simp: fits_unsigned_def)
  qed
qed

text \<open>An integer of at most 53 bits is a float.\<close>

lemma significant_bits_bounds: "0 < n \<Longrightarrow> 2 ^ (significant_bits n - 1) \<le> n \<and> n < 2 ^ significant_bits n \<and> 0 < significant_bits n"
proof (induction n rule: significant_bits.induct)
  case (1 n)
  show ?case
  proof (cases "n = 1")
    case True
    then show ?thesis by (simp add: significant_bits.simps)
  next
    case False
    then have IH: "2 ^ (significant_bits (n div 2) - 1) \<le> n div 2" "n div 2 < 2 ^ significant_bits (n div 2)" "0 < significant_bits (n div 2)"
      using 1 by simp_all
    then obtain j where j: "significant_bits (n div 2) = Suc j" by (cases "significant_bits (n div 2)") simp_all
    have "significant_bits n = Suc (Suc j)" using 1(2) j by (subst significant_bits.simps) simp
    then show ?thesis using IH unfolding j by simp linarith
  qed
qed

lemma unat_of_nat_u64: "n < 2 ^ 64 \<Longrightarrow> unat (of_nat n :: u64) = n"
  by (simp add: unat_of_nat take_bit_eq_mod)

lemma f64_fields:
  fixes s e m :: nat
  assumes "s < 2" "e < 2 ^ 11" "m < 2 ^ 52"
  defines "v \<equiv> of_nat (s * 2 ^ 63 + (e * 2 ^ 52 + m)) :: u64"
  shows "unat v = s * 2 ^ 63 + (e * 2 ^ 52 + m)" "unat v div 2 ^ 63 = s" "unat v div 2 ^ 52 mod 2 ^ 11 = e" "unat v mod 2 ^ 52 = m"
proof -
  have "e * 2 ^ 52 + m < (2 :: nat) ^ 63" using assms(2,3) by simp
  moreover from this have "s * 2 ^ 63 + (e * 2 ^ 52 + m) < (2 :: nat) ^ 64" using assms(1) by simp
  ultimately show v: "unat v = s * 2 ^ 63 + (e * 2 ^ 52 + m)" and "unat v div 2 ^ 63 = s"
    unfolding v_def by (simp_all only: unat_of_nat_u64) simp_all
  have "s * 2 ^ 63 + (e * 2 ^ 52 + m) = (s * 2 ^ 11 + e) * 2 ^ 52 + m" by simp
  then have eq: "unat v = (s * 2 ^ 11 + e) * 2 ^ 52 + m" using v by simp
  have "((s * 2 ^ 11 + e) * 2 ^ 52 + m) div 2 ^ 52 = s * 2 ^ 11 + e" "((s * 2 ^ 11 + e) * 2 ^ 52 + m) mod 2 ^ 52 = m"
    using assms(3) by (auto simp only: div_mult_self3 mod_mult_self3 div_less mod_less)
  then show "unat v div 2 ^ 52 mod 2 ^ 11 = e" "unat v mod 2 ^ 52 = m"
    unfolding eq using assms(2) by (simp_all only: mod_mult_self3 mod_less)
qed

lemma float_bits_exact:
  assumes "0 < n" "n \<le> 2 ^ 53"
  obtains e m where "float_bits 52 1023 n = e * 2 ^ 52 + m" "0 < e" "e < 2 ^ 11 - 1" "m < 2 ^ 52" "(2 ^ 52 + m) * 2 ^ (e - 1) = n * 2 ^ 1074"
proof (cases "n = 2 ^ 53")
  case True
  have pow: "significant_bits (2 ^ j) = Suc j" for j by (induction j) (simp_all add: significant_bits.simps)
  have "significant_bits 9007199254740992 = 54" using pow [of 53] by simp
  then have "float_bits 52 1023 n = 1076 * 2 ^ 52 + 0"
    unfolding True float_bits_def by (simp add: round_half_even_def Let_def)
  moreover have "(2 ^ 52 + 0) * 2 ^ (1076 - 1) = n * (2 :: nat) ^ 1074" unfolding True by (simp flip: power_add)
  ultimately show ?thesis by (intro that [of 1076 0]) simp_all
next
  case False
  define k where "k = significant_bits n - 1"
  have k: "2 ^ k \<le> n" "n < 2 ^ Suc k" using significant_bits_bounds [OF assms(1)] by (simp_all add: k_def)
  have "(2 :: nat) ^ k < 2 ^ 53" using k(1) assms(2) False by linarith
  then have "k < 53" by (rule power_less_imp_less_exp [rotated]) simp
  then have p: "(2 :: nat) ^ 52 = 2 ^ k * 2 ^ (52 - k)" by (simp flip: power_add)
  have m: "2 ^ 52 \<le> n * 2 ^ (52 - k)" "n * 2 ^ (52 - k) < 2 * 2 ^ 52"
    using k unfolding p by simp_all
  have "float_bits 52 1023 n = (k + 1023) * 2 ^ 52 + (n * 2 ^ (52 - k) - 2 ^ 52)"
    using assms(1) \<open>k < 53\<close> unfolding float_bits_def k_def [symmetric] Let_def by simp
  moreover have "(2 ^ 52 + (n * 2 ^ (52 - k) - 2 ^ 52)) * 2 ^ (k + 1023 - 1) = n * 2 ^ 1074"
  proof -
    have "(52 - k) + (k + 1022) = 1074" using \<open>k < 53\<close> by simp
    then have "(2 :: nat) ^ (52 - k) * 2 ^ (k + 1022) = 2 ^ 1074" by (simp only: power_add [symmetric])
    then have "n * 2 ^ (52 - k) * 2 ^ (k + 1022) = n * 2 ^ 1074" by (simp only: mult.assoc)
    moreover have "k + 1023 - 1 = k + 1022" by simp
    ultimately show ?thesis by (simp only: le_add_diff_inverse [OF m(1)])
  qed
  ultimately show ?thesis using m \<open>k < 53\<close> by (intro that [of "k + 1023" "n * 2 ^ (52 - k) - 2 ^ 52"]) simp_all
qed

lemma unat_without_sign:
  "unat (v AND 0x7FFFFFFFFFFFFFFF) = unat v div 2 ^ 52 mod 2 ^ 11 * 2 ^ 52 + unat v mod 2 ^ 52" for v :: u64
proof -
  have "v AND 0x7FFFFFFFFFFFFFFF = take_bit 63 v" by (simp add: take_bit_eq_mask mask_eq_exp_minus_1)
  then have "unat (v AND 0x7FFFFFFFFFFFFFFF) = take_bit 63 (unat v)" by (simp only: unsigned_take_bit_eq)
  then show ?thesis
    unfolding take_bit_eq_mod using mod_mult2_eq [of "unat v" "2 ^ 52" "2 ^ 11"] by (simp add: mult.commute)
qed

lemma isFinite_exponent: "unat v div 2 ^ 52 mod 2 ^ 11 < 2 ^ 11 - 1 \<Longrightarrow> isFinite v" for v :: u64
proof -
  assume e: "unat v div 2 ^ 52 mod 2 ^ 11 < 2 ^ 11 - 1"
  have mask: "unat v mod 2 ^ 63 = unat v div 2 ^ 52 mod 2 ^ 11 * 2 ^ 52 + unat v mod 2 ^ 52"
    using mod_mult2_eq [of "unat v" "2 ^ 52" "2 ^ 11"] by (simp add: mult.commute)
  moreover have "unat v mod 2 ^ 52 < 2 ^ 52" by simp
  moreover have "unat v div 2 ^ 52 mod 2 ^ 11 * 2 ^ 52 \<le> (2 ^ 11 - 2) * (2 :: nat) ^ 52" using e by simp
  ultimately have lt: "unat v mod 2 ^ 63 < 0x7FF0000000000000" by simp
  then have "\<not> isNan v" unfolding isNan_def word_less_nat_alt unat_without_sign mask [symmetric] by simp
  moreover have "v \<noteq> 0x7FF0000000000000" "v \<noteq> 0xFFF0000000000000" using lt by auto
  ultimately show "isFinite v" by (simp add: isFinite_def isPositiveInf_def isNegativeInf_def)
qed

lemma f64_of_int_exact:
  assumes "\<bar>n\<bar> \<le> 2 ^ 53"
  shows "isFinite (f64_of_int n)" "f64_units (f64_of_int n) = n * f64_one"
proof -
  have "isFinite (f64_of_int n) \<and> f64_units (f64_of_int n) = n * f64_one"
  proof (cases "n = 0")
    case True
    then show ?thesis
      by (simp add: f64_of_int_def float_bits_def f64_units_def f64_magnitude_def isFinite_def isNan_def isPositiveInf_def isNegativeInf_def)
  next
    case False
    obtain e m where b: "float_bits 52 1023 (nat \<bar>n\<bar>) = e * 2 ^ 52 + m" "0 < e" "e < 2 ^ 11 - 1" "m < 2 ^ 52"
        "(2 ^ 52 + m) * 2 ^ (e - 1) = nat \<bar>n\<bar> * 2 ^ 1074"
      by (rule float_bits_exact [of "nat \<bar>n\<bar>"]) (use assms False in \<open>simp_all add: nat_le_iff\<close>)
    define s :: nat where "s = (if n < 0 then 1 else 0)"
    have f: "f64_of_int n = of_nat (s * 2 ^ 63 + (e * 2 ^ 52 + m))"
      unfolding f64_of_int_def b(1) s_def by simp
    have s: "s < 2" "e < 2 ^ 11" using b(3) by (simp_all add: s_def)
    note fields = f64_fields(2-4) [OF s b(4), folded f]
    have "f64_magnitude (f64_of_int n) = nat \<bar>n\<bar> * 2 ^ 1074"
      unfolding f64_magnitude_def fields Let_def using b(2,5) by (simp only: if_False gr_implies_not0)
    then have "int (f64_magnitude (f64_of_int n)) = \<bar>n\<bar> * f64_one" by (simp only: of_nat_mult f64_one_def) simp
    then have "f64_units (f64_of_int n) = n * f64_one"
      unfolding f64_units_def fields by (simp add: s_def)
    moreover have "isFinite (f64_of_int n)" using b(3) by (intro isFinite_exponent) (simp only: fields)
    ultimately show ?thesis by simp
  qed
  then show "isFinite (f64_of_int n)" "f64_units (f64_of_int n) = n * f64_one" by simp_all
qed

text \<open>Any integer of 64 bits is rounded to a finite float.\<close>

lemma round_half_even_le: "n < m * 2 ^ s \<Longrightarrow> round_half_even n s \<le> m"
  using less_mult_imp_div_less [of n m "2 ^ s"] by (auto simp: round_half_even_def Let_def)

lemma float_bits_range:
  assumes "n < 2 ^ 64"
  obtains e m where "float_bits 52 1023 n = e * 2 ^ 52 + m" "e < 2 ^ 11 - 1" "m < 2 ^ 52"
proof -
  define b where "b = float_bits 52 1023 n"
  have "b < 2046 * 2 ^ 52"
  proof (cases "n = 0")
    case False
    define k where "k = significant_bits n - 1"
    have k: "2 ^ k \<le> n" "n < 2 ^ Suc k" using significant_bits_bounds [of n] False by (simp_all add: k_def)
    have "(2 :: nat) ^ k < 2 ^ 64" using k(1) assms by linarith
    then have "k < 64" by (rule power_less_imp_less_exp [rotated]) simp
    have "(if k \<le> 52 then n * 2 ^ (52 - k) else round_half_even n (k - 52)) \<le> 2 ^ 53"
    proof (cases "k \<le> 52")
      case True
      have "n * 2 ^ (52 - k) \<le> 2 ^ Suc k * 2 ^ (52 - k)" using k(2) by (intro mult_right_mono) simp_all
      also have "\<dots> = 2 ^ 53" using True by (simp flip: power_add)
      finally show ?thesis using True by simp
    next
      case False
      then have "Suc k = 53 + (k - 52)" by simp
      then have "(2 :: nat) ^ Suc k = 2 ^ 53 * 2 ^ (k - 52)" by (simp only: power_add)
      then show ?thesis using False k(2) round_half_even_le [of n "2 ^ 53" "k - 52"] by simp
    qed
    moreover have "b = (k + 1023) * 2 ^ 52 + ((if k \<le> 52 then n * 2 ^ (52 - k) else round_half_even n (k - 52)) - 2 ^ 52)"
      unfolding b_def float_bits_def k_def [symmetric] Let_def using False by simp
    ultimately have "b \<le> (k + 1023) * 2 ^ 52 + (2 ^ 53 - 2 ^ 52)" by (simp only: add_le_cancel_left diff_le_mono)
    then show ?thesis using \<open>k < 64\<close> by simp
  qed (simp add: b_def float_bits_def)
  then have "b div 2 ^ 52 < 2046" by (simp add: less_mult_imp_div_less)
  moreover have "b = b div 2 ^ 52 * 2 ^ 52 + b mod 2 ^ 52" by simp
  ultimately show ?thesis using that [of "b div 2 ^ 52" "b mod 2 ^ 52"] by (simp add: b_def)
qed

lemma f64_of_int_finite:
  assumes "\<bar>n\<bar> < 2 ^ 64"
  shows "isFinite (f64_of_int n)"
proof -
  obtain e m where b: "float_bits 52 1023 (nat \<bar>n\<bar>) = e * 2 ^ 52 + m" "e < 2 ^ 11 - 1" "m < 2 ^ 52"
    by (rule float_bits_range [of "nat \<bar>n\<bar>"]) (use assms in \<open>simp_all add: nat_less_iff\<close>)
  define s :: nat where "s = (if n < 0 then 1 else 0)"
  have f: "f64_of_int n = of_nat (s * 2 ^ 63 + (e * 2 ^ 52 + m))" unfolding f64_of_int_def b(1) s_def by simp
  have "s < 2" "e < 2 ^ 11" using b(2) by (simp_all add: s_def)
  from f64_fields(3) [OF this b(3), folded f] b(2) show ?thesis by (intro isFinite_exponent) (simp only:)
qed

section \<open>Widening\<close>

text \<open>Widening an \<open>f32\<close> loses nothing.\<close>

lemma significant_bits_eq:
  assumes "2 ^ b \<le> n" "n < 2 ^ Suc b" shows "significant_bits n = Suc b"
proof -
  have "0 < n" using assms(1) by (rule less_le_trans [rotated]) simp
  from significant_bits_bounds [OF this] obtain s where s: "significant_bits n = Suc s" "2 ^ s \<le> n" "n < 2 ^ Suc s"
    by (metis Suc_pred diff_Suc_1)
  have "(2 :: nat) ^ s < 2 ^ Suc b" "(2 :: nat) ^ b < 2 ^ Suc s" using assms s by linarith+
  then have "s < Suc b" "b < Suc s" by (simp_all only: power_strict_increasing_iff one_less_numeral_iff semiring_norm)
  then show ?thesis using s(1) by simp
qed

lemma significant_bits_shift: "0 < n \<Longrightarrow> significant_bits (n * 2 ^ j) = significant_bits n + j"
proof -
  assume n: "0 < n"
  obtain s where s: "significant_bits n = Suc s" "2 ^ s \<le> n" "n < 2 ^ Suc s"
    using significant_bits_bounds [OF n] by (metis Suc_pred diff_Suc_1)
  have "2 ^ (s + j) \<le> n * 2 ^ j" "n * 2 ^ j < 2 ^ Suc (s + j)" using s(2,3) by (simp_all add: power_add)
  from significant_bits_eq [OF this] show ?thesis using s(1) by simp
qed

lemma round_half_even_shift: "round_half_even (n * 2 ^ s) s = n"
proof -
  have "n * 2 ^ s div 2 ^ s = n" "n * 2 ^ s mod 2 ^ s = 0" by (simp_all only: nonzero_mult_div_cancel_right power_not_zero zero_neq_numeral [symmetric] mod_mult_self2_is_0 not_False_eq_True) 
  then show ?thesis by (simp add: round_half_even_def Let_def)
qed

lemma float_bits_small:
  assumes "0 < n" "n < 2 ^ 23"
  obtains e m where "float_bits 52 874 n = e * 2 ^ 52 + m" "0 < e" "e < 1023" "m < 2 ^ 52" "(2 ^ 52 + m) * 2 ^ (e - 1) = n * 2 ^ 925"
proof -
  define k where "k = significant_bits n - 1"
  have k: "2 ^ k \<le> n" "n < 2 ^ Suc k" using significant_bits_bounds [OF assms(1)] by (simp_all add: k_def)
  have "(2 :: nat) ^ k < 2 ^ 23" using k(1) assms(2) by linarith
  then have "k < 23" by (rule power_less_imp_less_exp [rotated]) simp
  then have p: "(2 :: nat) ^ 52 = 2 ^ k * 2 ^ (52 - k)" by (simp flip: power_add)
  have m: "2 ^ 52 \<le> n * 2 ^ (52 - k)" "n * 2 ^ (52 - k) < 2 * 2 ^ 52" using k unfolding p by simp_all
  have "float_bits 52 874 n = (k + 874) * 2 ^ 52 + (n * 2 ^ (52 - k) - 2 ^ 52)"
    using assms(1) \<open>k < 23\<close> unfolding float_bits_def k_def [symmetric] Let_def by simp
  moreover have "(2 ^ 52 + (n * 2 ^ (52 - k) - 2 ^ 52)) * 2 ^ (k + 874 - 1) = n * 2 ^ 925"
  proof -
    have "(52 - k) + (k + 873) = 925" using \<open>k < 23\<close> by simp
    then have "(2 :: nat) ^ (52 - k) * 2 ^ (k + 873) = 2 ^ 925" by (simp only: power_add [symmetric])
    then have "n * 2 ^ (52 - k) * 2 ^ (k + 873) = n * 2 ^ 925" by (simp only: mult.assoc)
    moreover have "k + 874 - 1 = k + 873" by simp
    ultimately show ?thesis by (simp only: le_add_diff_inverse [OF m(1)])
  qed
  ultimately show ?thesis using m \<open>k < 23\<close> by (intro that [of "k + 874" "n * 2 ^ (52 - k) - 2 ^ 52"]) simp_all
qed

lemma f32_of_f64_of_fields:
  assumes "s < 2" "e < 2 ^ 11 - 1" "m < 2 ^ 52" "v = of_nat (s * 2 ^ 63 + (e * 2 ^ 52 + m))"
    and "(if e = 0 then m else (2 ^ 52 + m) * 2 ^ (e - 1)) = n * 2 ^ b" "925 \<le> b" "b = 925 \<or> significant_bits n = 24" "significant_bits n \<le> 24"
    and "(b - 925) * 2 ^ 23 + n < 0x7F800000" "0 < n"
  shows "isFinite v" "f32_of_f64 v = of_nat (s * 2 ^ 31 + ((b - 925) * 2 ^ 23 + n))"
proof -
  have e: "e < 2 ^ 11" using assms(2) by simp
  note fields = f64_fields(2-4) [OF assms(1) e assms(3), folded assms(4)]
  show fin: "isFinite v" using assms(2) by (intro isFinite_exponent) (simp only: fields)
  then have nan: "\<not> isNan v" by (simp add: isFinite_def)
  have mag: "f64_magnitude v = n * 2 ^ b" unfolding f64_magnitude_def fields Let_def by (rule assms(5))
  have sig: "significant_bits (n * 2 ^ b) = significant_bits n + b" using significant_bits_shift assms(10) by blast
  then have "max 925 (significant_bits n + b - 24) = b" using assms(6-8) by auto
  then show "f32_of_f64 v = of_nat (s * 2 ^ 31 + ((b - 925) * 2 ^ 23 + n))"
    unfolding f32_of_f64_def mag sig Let_def fields(1) using fin nan assms(9) by (simp add: round_half_even_shift)
qed

lemma f32_of_f64_of_f32:
  assumes "unat x div 2 ^ 23 mod 2 ^ 8 \<noteq> 255"
  shows "isFinite (f64_of_f32 x)" "f32_of_f64 (f64_of_f32 x) = x"
proof -
  define s e m where "s = unat x div 2 ^ 31" and "e = unat x div 2 ^ 23 mod 2 ^ 8" and "m = unat x mod 2 ^ 23"
  have "unat x < 2 ^ 32" using unsigned_less [of x] by simp
  then have s: "s < 2" by (simp add: s_def less_mult_imp_div_less)
  have m: "m < 2 ^ 23" by (simp add: m_def)
  have "e < 2 ^ 8" by (simp add: e_def)
  then have e: "e < 255" using assms by (simp add: e_def)
  have "unat x = unat x div 2 ^ 31 * 2 ^ 31 + (unat x div 2 ^ 23 mod 2 ^ 8 * 2 ^ 23 + unat x mod 2 ^ 23)"
  proof -
    have "unat x mod 2 ^ 31 = unat x div 2 ^ 23 mod 2 ^ 8 * 2 ^ 23 + unat x mod 2 ^ 23"
      using mod_mult2_eq [of "unat x" "2 ^ 23" "2 ^ 8"] by (simp add: mult.commute)
    then show ?thesis by (metis div_mult_mod_eq)
  qed
  then have x: "x = of_nat (s * 2 ^ 31 + (e * 2 ^ 23 + m))" unfolding s_def e_def m_def by (metis word_of_unat)
  have v: "f64_of_f32 x = of_nat (s * 2 ^ 63 + (if e = 0 then float_bits 52 874 m else (e + 896) * 2 ^ 52 + m * 2 ^ 29))"
    using e unfolding f64_of_f32_def Let_def s_def [symmetric] e_def [symmetric] m_def [symmetric] by simp
  consider (zero) "e = 0" "m = 0" | (small) "e = 0" "0 < m" | (normal) "0 < e" by linarith
  then have "isFinite (f64_of_f32 x) \<and> f32_of_f64 (f64_of_f32 x) = x"
  proof cases
    case zero
    have "isFinite (f64_of_f32 x)"
    proof (rule isFinite_exponent)
      show "unat (f64_of_f32 x) div 2 ^ 52 mod 2 ^ 11 < 2 ^ 11 - 1"
        using f64_fields(3) [of s 0 0] s unfolding v zero float_bits_def by simp
    qed
    moreover have "f64_magnitude (f64_of_f32 x) = 0" "unat (f64_of_f32 x) div 2 ^ 63 = s"
      using f64_fields(2-4) [of s 0 0] s unfolding v zero float_bits_def by (simp_all add: f64_magnitude_def)
    ultimately show ?thesis
      unfolding f32_of_f64_def Let_def by (simp add: x zero significant_bits.simps round_half_even_def isFinite_def)
  next
    case small
    from float_bits_small [OF small(2) m] obtain E M where f: "float_bits 52 874 m = E * 2 ^ 52 + M" "0 < E" "E < 1023" "M < 2 ^ 52"
      "(2 ^ 52 + M) * 2 ^ (E - 1) = m * 2 ^ 925" .
    have "significant_bits m \<le> 24"
    proof -
      have "(2 :: nat) ^ (significant_bits m - 1) < 2 ^ 23" using significant_bits_bounds [OF small(2)] m by linarith
      then have "significant_bits m - 1 < 23" by (rule power_less_imp_less_exp [rotated]) simp
      then show ?thesis by simp
    qed
    note this f m s
    have v': "f64_of_f32 x = of_nat (s * 2 ^ 63 + (E * 2 ^ 52 + M))" unfolding v using small f(1) by simp
    have mag: "(if E = 0 then M else (2 ^ 52 + M) * 2 ^ (E - 1)) = m * 2 ^ 925" using f(2,5) by (simp only: if_False gr_implies_not0)
    show ?thesis
      using f32_of_f64_of_fields [OF s _ f(4) v' mag] f(3) m \<open>significant_bits m \<le> 24\<close> small(2) unfolding x small(1) by simp
  next
    case normal
    have v': "f64_of_f32 x = of_nat (s * 2 ^ 63 + ((e + 896) * 2 ^ 52 + m * 2 ^ 29))" unfolding v using normal by simp
    have mag: "(if e + 896 = 0 then m * 2 ^ 29 else (2 ^ 52 + m * 2 ^ 29) * 2 ^ (e + 896 - 1)) = (2 ^ 23 + m) * 2 ^ (e + 924)"
    proof -
      have "(2 :: nat) ^ 52 + m * 2 ^ 29 = (2 ^ 23 + m) * 2 ^ 29" by (simp add: add_mult_distrib)
      moreover have "e + 924 = 29 + (e + 896 - 1)" by simp
      then have "(2 :: nat) ^ (e + 924) = 2 ^ 29 * 2 ^ (e + 896 - 1)" by (simp only: power_add)
      ultimately show ?thesis by (simp only: mult.assoc) simp
    qed
    have sig: "significant_bits (2 ^ 23 + m) = 24" using significant_bits_eq [of 23 "2 ^ 23 + m"] m by simp
    have "e + 896 < 2 ^ 11 - 1" "m * 2 ^ 29 < 2 ^ 52" "925 \<le> e + 924" "(e + 924 - 925) * 2 ^ 23 + (2 ^ 23 + m) < 0x7F800000"
      using e m normal by simp_all
    note run = f32_of_f64_of_fields [OF s this(1,2) v' mag this(3) _ _ this(4)]
    have "(e + 924 - 925) * 2 ^ 23 + (2 ^ 23 + m) = e * 2 ^ 23 + m" using normal by (cases e) simp_all
    then show ?thesis using run sig unfolding x by simp
  qed
  then show "isFinite (f64_of_f32 x)" "f32_of_f64 (f64_of_f32 x) = x" by simp_all
qed

lemma f64_of_f32_special:
  assumes "unat x div 2 ^ 23 mod 2 ^ 8 = 255"
  shows "isNan (f64_of_f32 x) \<or> x = 0x7F800000 \<or> x = 0xFF800000"
proof -
  define s m where "s = unat x div 2 ^ 31" and "m = unat x mod 2 ^ 23"
  have "unat x < 2 ^ 32" using unsigned_less [of x] by simp
  then have s: "s < 2" by (simp add: s_def less_mult_imp_div_less)
  have "unat x mod 2 ^ 31 = 255 * 2 ^ 23 + m"
    using mod_mult2_eq [of "unat x" "2 ^ 23" "2 ^ 8"] assms by (simp add: m_def mult.commute)
  then have unat: "unat x = s * 2 ^ 31 + (255 * 2 ^ 23 + m)" unfolding s_def by (metis div_mult_mod_eq)
  show ?thesis
  proof (cases "m = 0")
    case True
    have "s = 0 \<or> s = 1" using s by linarith
    then show ?thesis using unat True by (auto simp: word_unat_eq_iff)
  next
    case False
    define p where "p = 2 ^ 51 + m mod 2 ^ 22 * 2 ^ 29"
    have "m mod 2 ^ 22 < 2 ^ 22" by simp
    then have p: "p < 2 ^ 52" "p \<noteq> 0" by (simp_all add: p_def)
    have v: "f64_of_f32 x = of_nat (s * 2 ^ 63 + (0x7FF * 2 ^ 52 + p))"
      unfolding f64_of_f32_def Let_def s_def [symmetric] m_def [symmetric] assms p_def using False by simp
    have "(0x7FF :: nat) < 2 ^ 11" by simp
    note fields = f64_fields(3,4) [OF s this p(1)]
    have "unat (f64_of_f32 x AND 0x7FFFFFFFFFFFFFFF) = 0x7FF * 2 ^ 52 + p"
      unfolding unat_without_sign v fields ..
    then show ?thesis using p(2) by (simp add: isNan_def word_less_nat_alt)
  qed
qed

end
