(* ===== verification/Wkt_FieldMask.thy ===== *)
theory Wkt_FieldMask
  imports Wkt_Time
begin

text \<open>
  The message \<open>FieldMask\<close> of \<open>src/wkt.zig\<close>: a list of field paths in snake case, which are
  lower-camel-case in JSON. The memory that holds decoded and parsed paths is never refused
  here; the allocator of the \<open>Writer\<close> may refuse as always.
\<close>

section \<open>Paths\<close>

type_synonym FieldMask = "string list"

definition isUpper :: "char \<Rightarrow> bool" where
  "isUpper c \<longleftrightarrow> (65 :: nat) \<le> of_char c \<and> (of_char c :: nat) \<le> 90"

definition isLower :: "char \<Rightarrow> bool" where
  "isLower c \<longleftrightarrow> (97 :: nat) \<le> of_char c \<and> (of_char c :: nat) \<le> 122"

definition toUpper :: "char \<Rightarrow> char" where
  "toUpper c = (if isLower c then char_of (of_char c - 32 :: nat) else c)"

definition toLower :: "char \<Rightarrow> char" where
  "toLower c = (if isUpper c then char_of (of_char c + 32 :: nat) else c)"

fun validatePathLoop :: "bool \<Rightarrow> bool \<Rightarrow> string \<Rightarrow> bool" where
  "validatePathLoop last_was_dot last_was_underscore [] = (\<not> (last_was_dot \<or> last_was_underscore))"
| "validatePathLoop last_was_dot last_was_underscore (c # cs) =
     (if c = CHR ''.'' then
        (if last_was_dot \<or> last_was_underscore then False else validatePathLoop True False cs)
      else if c = CHR ''_'' then
        (if last_was_dot \<or> last_was_underscore then False else validatePathLoop last_was_dot True cs)
      else if isUpper c then False
      else if last_was_dot \<and> \<not> isLower c then False
      else if last_was_underscore \<and> \<not> isLower c then False
      else if \<not> (isLower c \<or> isDigit c) then False
      else validatePathLoop False False cs)"

definition validateFieldMaskPath :: "string \<Rightarrow> wkt_error + unit" where
  "validateFieldMaskPath path =
     (if path = [] \<or> \<not> validatePathLoop True False path then Inl InvalidFieldMask else Inr ())"

fun writeLowerCamelPath :: "bool \<Rightarrow> string \<Rightarrow> string" where
  "writeLowerCamelPath upper_next [] = []"
| "writeLowerCamelPath upper_next (c # cs) =
     (if c = CHR ''_'' then writeLowerCamelPath True cs
      else if upper_next then toUpper c # writeLowerCamelPath False cs
      else c # writeLowerCamelPath False cs)"

fun camelToSnakeLoop :: "string \<Rightarrow> bool \<Rightarrow> string \<Rightarrow> string option" where
  "camelToSnakeLoop out last_was_dot [] = (if last_was_dot then None else Some out)"
| "camelToSnakeLoop out last_was_dot (c # cs) =
     (if c = CHR ''_'' then None
      else if c = CHR ''.'' then (if last_was_dot then None else camelToSnakeLoop (out @ [c]) True cs)
      else if isUpper c then
        (if last_was_dot then None
         else camelToSnakeLoop ((if \<not> last_was_dot \<and> out \<noteq> [] then out @ ''_'' else out) @ [toLower c]) False cs)
      else if isLower c \<or> isDigit c then
        (if last_was_dot \<and> \<not> isLower c then None else camelToSnakeLoop (out @ [c]) False cs)
      else None)"

definition lowerCamelToSnake :: "string \<Rightarrow> wkt_error + string" where
  "lowerCamelToSnake camel = (case camelToSnakeLoop [] True camel of None \<Rightarrow> Inl InvalidFieldMask | Some out \<Rightarrow> Inr out)"

section \<open>The message\<close>

definition pathAt :: "FieldMask \<Rightarrow> nat \<Rightarrow> wkt_error + string" where
  "pathAt self i = (if i \<ge> length self then Inl UnknownField else Inr (self ! i))"

fun pathIndexFrom :: "nat \<Rightarrow> FieldMask \<Rightarrow> string \<Rightarrow> wkt_error + nat" where
  "pathIndexFrom i [] path = Inl UnknownField"
| "pathIndexFrom i (candidate # paths) path = (if candidate = path then Inr i else pathIndexFrom (i + 1) paths path)"

definition pathIndex :: "FieldMask \<Rightarrow> string \<Rightarrow> wkt_error + nat" where
  "pathIndex self path = pathIndexFrom 0 self path"

definition hasPath :: "FieldMask \<Rightarrow> string \<Rightarrow> bool" where
  "hasPath self path = (case pathIndex self path of Inl _ \<Rightarrow> False | Inr _ \<Rightarrow> True)"

fun FieldMask_validate :: "FieldMask \<Rightarrow> wkt_error + unit" where
  "FieldMask_validate [] = Inr ()"
| "FieldMask_validate (path # paths) = (case validateFieldMaskPath path of Inl e \<Rightarrow> Inl e | Inr _ \<Rightarrow> FieldMask_validate paths)"

text \<open>The bytes of a path on the wire.\<close>

definition path_bytes :: "string \<Rightarrow> bytes" where
  "path_bytes path = map (\<lambda>c. of_nat (of_char c)) path"

definition bytes_path :: "bytes \<Rightarrow> string" where
  "bytes_path bs = map (\<lambda>b. char_of (unat b)) bs"

fun writePaths :: "FieldMask \<Rightarrow> unit writing" where
  "writePaths [] = return ()"
| "writePaths (path # paths) = tryIn (writeString 1 (path_bytes path)) (\<lambda>_. writePaths paths)"

definition FieldMask_encode :: "FieldMask \<Rightarrow> bytes encoding" where
  "FieldMask_encode self = tryIn (liftSum (FieldMask_validate self)) (\<lambda>_. encodeMessage (liftWrite (writePaths self)))"

definition decodePathField :: "tag \<Rightarrow> FieldMask \<Rightarrow> FieldMask decoding" where
  "decodePathField t paths =
     (if number t = 1
      then tryIn (liftRead (liftSum (expectWireType t LengthDelimited))) (\<lambda>_. tryIn (liftRead readBytes) (\<lambda>bs. return (paths @ [bytes_path bs])))
      else tryIn (liftRead (skipValue t)) (\<lambda>_. return paths))"

definition FieldMask_decode :: "bytes \<Rightarrow> (wkt_error, FieldMask) outcome" where
  "FieldMask_decode = decodeMessage decodePathField []"

fun writePathsJson :: "nat \<Rightarrow> FieldMask \<Rightarrow> string" where
  "writePathsJson i [] = []"
| "writePathsJson i (path # paths) =
     (if i \<noteq> 0 then '','' else []) @ writeLowerCamelPath False path @ writePathsJson (i + 1) paths"

definition FieldMask_jsonStringify :: "FieldMask \<Rightarrow> wkt_error + string" where
  "FieldMask_jsonStringify self = (case FieldMask_validate self of
       Inl e \<Rightarrow> Inl e
     | Inr _ \<Rightarrow> Inr (CHR 0x22 # writePathsJson 0 self @ [CHR 0x22]))"

text \<open>\<open>std.mem.splitScalar\<close>: the parts between the delimiters, at least one.\<close>

fun splitScalar :: "char \<Rightarrow> string \<Rightarrow> string list" where
  "splitScalar delimiter [] = [[]]"
| "splitScalar delimiter (c # cs) =
     (if c = delimiter then [] # splitScalar delimiter cs
      else (c # hd (splitScalar delimiter cs)) # tl (splitScalar delimiter cs))"

fun parsePaths :: "FieldMask \<Rightarrow> string list \<Rightarrow> wkt_error + FieldMask" where
  "parsePaths paths [] = Inr paths"
| "parsePaths paths (part # parts) =
     (if part = [] then Inl InvalidFieldMask
      else (case lowerCamelToSnake part of
          Inl e \<Rightarrow> Inl e
        | Inr path \<Rightarrow> (case validateFieldMaskPath path of
              Inl e \<Rightarrow> Inl e
            | Inr _ \<Rightarrow> parsePaths (paths @ [path]) parts)))"

definition FieldMask_jsonParse :: "string \<Rightarrow> wkt_error + FieldMask" where
  "FieldMask_jsonParse camel = (case jsonStringPayload InvalidFieldMask camel of
       Inl e \<Rightarrow> Inl e
     | Inr unquoted \<Rightarrow> if unquoted = [] then Inr [] else parsePaths [] (splitScalar (CHR '','') unquoted))"

section \<open>Snake case and camel case\<close>

lemma letters [simp]:
  "isLower c \<Longrightarrow> isUpper (toUpper c)" "isLower c \<Longrightarrow> toLower (toUpper c) = c"
  "isUpper c \<Longrightarrow> isLower (toLower c)" "isUpper c \<Longrightarrow> toUpper (toLower c) = c"
  by (auto simp: isLower_def isUpper_def toLower_def toUpper_def)

lemma letter_kinds:
  "isLower c \<Longrightarrow> \<not> isUpper c" "isDigit c \<Longrightarrow> \<not> isUpper c" "isDigit c \<Longrightarrow> \<not> isLower c"
  "isUpper c \<Longrightarrow> c \<notin> {CHR ''_'', CHR ''.'', CHR '','', CHR 0x5C}"
  "isLower c \<Longrightarrow> c \<notin> {CHR ''_'', CHR ''.'', CHR '','', CHR 0x5C}"
  "isDigit c \<Longrightarrow> c \<notin> {CHR ''_'', CHR ''.'', CHR '','', CHR 0x5C}"
  by (auto simp: isLower_def isUpper_def isDigit_def)

text \<open>
  Both loops in step: from the same place in a path, the second one gives back what the
  first one has read, with the underscore that the first one still remembers.
\<close>

lemma camel_then_snake:
  assumes "validatePathLoop dot underscore path" "dot \<Longrightarrow> \<not> underscore" "\<not> dot \<Longrightarrow> out \<noteq> []"
  shows "camelToSnakeLoop out dot (writeLowerCamelPath underscore path) = Some (out @ (if underscore then ''_'' else []) @ path)"
  using assms
proof (induction dot underscore path arbitrary: out rule: validatePathLoop.induct)
  case (2 dot underscore c cs)
  consider "c = CHR ''.''" | "c = CHR ''_''" | "isLower c" "c \<noteq> CHR ''.''" "c \<noteq> CHR ''_''"
    | "isDigit c" "\<not> isLower c" "c \<noteq> CHR ''.''" "c \<noteq> CHR ''_''"
    using "2.prems"(1) by (auto split: if_splits)
  then show ?case
  proof cases
    case 3
    then show ?thesis
      using 2 letter_kinds(1,4) [of c] letter_kinds(4) [of "toUpper c"] by (cases underscore) (auto split: if_splits)
  next
    case 4
    then show ?thesis using 2 letter_kinds(2) [of c] by (auto split: if_splits)
  qed (use 2 in \<open>auto split: if_splits\<close>)
qed simp

lemma snake_then_camel:
  assumes "camelToSnakeLoop out dot camel = Some r" "\<not> dot \<Longrightarrow> out \<noteq> []"
  shows "\<exists>path. r = out @ path \<and> validatePathLoop dot False path \<and> writeLowerCamelPath False path = camel"
  using assms
proof (induction out dot camel rule: camelToSnakeLoop.induct)
  case (2 out dot c cs)
  consider "c = CHR ''.''" | "isUpper c" "c \<noteq> CHR ''.''" | "isLower c \<or> isDigit c" "\<not> isUpper c" "c \<noteq> CHR ''.''" "c \<noteq> CHR ''_''"
    using "2.prems"(1) by (auto split: if_splits)
  then show ?case
  proof cases
    case 1
    then have "\<not> dot" "camelToSnakeLoop (out @ [c]) True cs = Some r" using "2.prems" by (auto split: if_splits)
    moreover from this obtain p where "r = (out @ [c]) @ p" "validatePathLoop True False p" "writeLowerCamelPath False p = cs"
      using "2.IH"(1) 1 by auto
    ultimately show ?thesis using 1 by (intro exI [of _ "c # p"]) auto
  next
    case 2
    then have d: "\<not> dot" "camelToSnakeLoop ((out @ ''_'') @ [toLower c]) False cs = Some r" "out \<noteq> []" "c \<noteq> CHR ''_''"
      using "2.prems" letter_kinds(4) [of c] by (auto split: if_splits)
    then obtain p where p: "r = ((out @ ''_'') @ [toLower c]) @ p" "validatePathLoop False False p" "writeLowerCamelPath False p = cs"
      using "2.IH"(2) 2 by auto
    have "isLower (toLower c)" "toLower c \<noteq> CHR ''_''" "toLower c \<noteq> CHR ''.''" "\<not> isUpper (toLower c)"
      using 2(1) letter_kinds(1,5) [of "toLower c"] by simp_all
    then show ?thesis using p d 2(1) by (intro exI [of _ "CHR ''_'' # toLower c # p"]) simp
  next
    case 3
    then have "dot \<Longrightarrow> isLower c" "camelToSnakeLoop (out @ [c]) False cs = Some r" using "2.prems" by (auto split: if_splits)
    moreover from this obtain p where "r = (out @ [c]) @ p" "validatePathLoop False False p" "writeLowerCamelPath False p = cs"
      using "2.IH"(3) 3 by auto
    ultimately show ?thesis using 3 by (intro exI [of _ "c # p"]) auto
  qed
qed (simp split: if_splits)

lemma camel_snake_path: "validateFieldMaskPath path = Inr () \<Longrightarrow> lowerCamelToSnake (writeLowerCamelPath False path) = Inr path"
  using camel_then_snake [of True False path "[]"] by (simp add: validateFieldMaskPath_def lowerCamelToSnake_def split: if_splits)

lemma snake_camel_path:
  assumes "lowerCamelToSnake camel = Inr path" "camel \<noteq> []"
  shows "validateFieldMaskPath path = Inr ()" "writeLowerCamelPath False path = camel"
proof -
  have "validatePathLoop True False path" "writeLowerCamelPath False path = camel"
    using assms(1) snake_then_camel [of "[]" True camel path] by (auto simp: lowerCamelToSnake_def split: option.splits)
  then show "validateFieldMaskPath path = Inr ()" "writeLowerCamelPath False path = camel"
    using assms(2) by (auto simp: validateFieldMaskPath_def)
qed

section \<open>Masks in JSON\<close>

lemma FieldMask_validate_iff: "FieldMask_validate m = Inr () \<longleftrightarrow> (\<forall>path \<in> set m. validateFieldMaskPath path = Inr ())"
  by (induction m) (auto split: sum.splits)

lemma camel_chars:
  "validatePathLoop dot underscore path \<Longrightarrow> c \<in> set (writeLowerCamelPath underscore path) \<Longrightarrow> c \<noteq> CHR '','' \<and> c \<noteq> CHR 0x5C"
proof (induction dot underscore path rule: validatePathLoop.induct)
  case (2 dot underscore d cs)
  have "isLower d \<Longrightarrow> toUpper d \<noteq> CHR '','' \<and> toUpper d \<noteq> CHR 0x5C" using letter_kinds(4) [of "toUpper d"] by simp
  then show ?case using 2 letter_kinds(5,6) [of d] by (auto split: if_splits)
qed simp

lemma camel_not_Nil: "validateFieldMaskPath path = Inr () \<Longrightarrow> writeLowerCamelPath False path \<noteq> []"
  using camel_snake_path [of path] by (auto simp: lowerCamelToSnake_def)

lemma camel_plain:
  assumes "validateFieldMaskPath path = Inr ()"
  shows "CHR '','' \<notin> set (writeLowerCamelPath False path)" "CHR 0x5C \<notin> set (writeLowerCamelPath False path)"
  using camel_chars [of True False path] assms by (auto simp: validateFieldMaskPath_def split: if_splits)

fun commaJoin :: "nat \<Rightarrow> string list \<Rightarrow> string" where
  "commaJoin i [] = []"
| "commaJoin i (part # parts) = (if i \<noteq> 0 then '','' else []) @ part @ commaJoin (i + 1) parts"

lemma writePathsJson_join: "writePathsJson i m = commaJoin i (map (writeLowerCamelPath False) m)"
  by (induction m arbitrary: i) simp_all

lemma splitScalar_append:
  "CHR '','' \<notin> set s \<Longrightarrow> splitScalar (CHR '','') s = [s]"
  "CHR '','' \<notin> set s \<Longrightarrow> splitScalar (CHR '','') (s @ CHR '','' # rest) = s # splitScalar (CHR '','') rest"
  by (induction s) auto

lemma split_join:
  "parts \<noteq> [] \<Longrightarrow> \<forall>part \<in> set parts. CHR '','' \<notin> set part \<Longrightarrow> splitScalar (CHR '','') (commaJoin 0 parts) = parts"
proof (induction parts)
  case (Cons p parts)
  have join: "commaJoin (Suc i) ps = (if ps = [] then [] else CHR '','' # commaJoin 0 ps)" for i ps
    by (induction ps arbitrary: i) (auto split: if_splits)
  show ?case
    using Cons splitScalar_append [of p] by (cases "parts = []") (simp_all add: join)
qed simp

lemma join_split: "commaJoin 0 (splitScalar (CHR '','') s) = s"
proof -
  have join: "commaJoin (Suc i) (q # qs) = CHR '','' # commaJoin 0 (q # qs)" for i q qs
    by (induction qs arbitrary: i q) auto
  have ne: "splitScalar (CHR '','') s \<noteq> []" for s by (cases s) simp_all
  have hd: "commaJoin 0 ((c # hd qs) # tl qs) = c # commaJoin 0 qs" if "qs \<noteq> []" for c qs using that by (cases qs) simp_all
  show ?thesis
  proof (induction s)
    case (Cons c s)
    obtain q qs where "splitScalar (CHR '','') s = q # qs" using ne [of s] by (cases "splitScalar (CHR '','') s") auto
    then show ?case using Cons hd [OF ne, of c s] join by (cases "c = CHR '',''") simp_all
  qed simp
qed

lemma parsePaths_camel:
  "FieldMask_validate m = Inr () \<Longrightarrow> parsePaths paths (map (writeLowerCamelPath False) m) = Inr (paths @ m)"
  by (induction m arbitrary: paths) (auto simp: camel_snake_path camel_not_Nil split: sum.splits)

lemma parsePaths_Inr:
  "parsePaths paths parts = Inr m \<Longrightarrow>
     \<exists>m'. m = paths @ m' \<and> FieldMask_validate m' = Inr () \<and> parts = map (writeLowerCamelPath False) m'"
proof (induction parts arbitrary: paths)
  case (Cons part parts)
  then obtain path where p: "part \<noteq> []" "lowerCamelToSnake part = Inr path" "validateFieldMaskPath path = Inr ()"
      "parsePaths (paths @ [path]) parts = Inr m"
    by (auto split: if_splits sum.splits)
  then obtain m' where "m = (paths @ [path]) @ m'" "FieldMask_validate m' = Inr ()" "parts = map (writeLowerCamelPath False) m'"
    using Cons.IH by blast
  then show ?case using p snake_camel_path [OF p(2,1)] by (intro exI [of _ "path # m'"]) simp
qed simp

lemma join_plain:
  "FieldMask_validate m = Inr () \<Longrightarrow> CHR 0x5C \<notin> set (writePathsJson i m)"
  using camel_plain(2) by (induction m arbitrary: i) (auto split: sum.splits)

lemma FieldMask_jsonParse_print:
  assumes "FieldMask_validate m = Inr ()"
  shows "FieldMask_jsonParse (CHR 0x22 # writePathsJson 0 m @ [CHR 0x22]) = Inr m"
proof (cases m)
  case Nil
  then show ?thesis using jsonStringPayload_plain [of "[]" InvalidFieldMask] by (simp add: FieldMask_jsonParse_def)
next
  case (Cons path paths)
  let ?parts = "map (writeLowerCamelPath False) m"
  have "\<forall>part \<in> set ?parts. CHR '','' \<notin> set part" using camel_plain(1) assms by (auto simp: FieldMask_validate_iff)
  then have "splitScalar (CHR '','') (commaJoin 0 ?parts) = ?parts" using Cons by (intro split_join) simp_all
  moreover have "writePathsJson 0 m \<noteq> []" using assms Cons camel_not_Nil by (auto split: sum.splits)
  ultimately show ?thesis
    using parsePaths_camel [OF assms, of "[]"] join_plain [OF assms]
    by (simp add: FieldMask_jsonParse_def jsonStringPayload_plain writePathsJson_join)
qed

lemma FieldMask_jsonParse_Inr:
  assumes "FieldMask_jsonParse (CHR 0x22 # s @ [CHR 0x22]) = Inr m" "CHR 0x5C \<notin> set s"
  shows "FieldMask_validate m = Inr ()" "writePathsJson 0 m = s"
proof -
  have "FieldMask_validate m = Inr () \<and> writePathsJson 0 m = s"
  proof (cases "s = []")
    case True
    then show ?thesis using assms jsonStringPayload_plain [of "[]" InvalidFieldMask] by (simp add: FieldMask_jsonParse_def)
  next
    case False
    then have "parsePaths [] (splitScalar (CHR '','') s) = Inr m"
      using assms by (simp add: FieldMask_jsonParse_def jsonStringPayload_plain)
    then show ?thesis using parsePaths_Inr [of "[]" "splitScalar (CHR '','') s" m] join_split [of s] by (auto simp: writePathsJson_join)
  qed
  then show "FieldMask_validate m = Inr ()" "writePathsJson 0 m = s" by simp_all
qed

section \<open>Masks on the wire\<close>

lemma bytes_path_bytes [simp]: "bytes_path (path_bytes path) = path"
proof -
  have "char_of (unat (of_nat (of_char c) :: byte)) = c" for c by simp
  then show ?thesis by (simp add: bytes_path_def path_bytes_def comp_def)
qed

text \<open>A path in any encoding of its length, or another field.\<close>

definition path_shape :: "string option \<Rightarrow> tag \<Rightarrow> bytes \<Rightarrow> bool" where
  "path_shape f t vb = (case f of
       Some path \<Rightarrow> t = \<lparr>number = 1, tag_type = LengthDelimited\<rparr> \<and> (\<exists>bs. path = bytes_path bs \<and> delimited_bytes vb bs)
     | None \<Rightarrow> number t \<noteq> 1 \<and> value_bytes 100 t vb)"

fun add_path :: "string option \<Rightarrow> FieldMask \<Rightarrow> FieldMask" where
  "add_path (Some path) paths = paths @ [path]"
| "add_path None paths = paths"

lemma fold_add_path: "fold add_path fs paths = paths @ map the (filter (\<lambda>f. f \<noteq> None) fs)"
proof (induction fs arbitrary: paths)
  case (Cons f fs)
  then show ?case by (cases f) simp_all
qed simp

interpretation mask: field_decoder decodePathField path_shape add_path
proof
  show "reads_ok (decodePathField t out)" for t out
    unfolding decodePathField_def by (intro reading)
next
  fix self :: reader and vb rest t f out
  assume r: "reader_ok self" "depth_left self = 100" "rest_of self = vb @ rest" "path_shape f t vb"
  show "\<exists>s. decodePathField t out self = Some (Inr (add_path f out), s) \<and> index s = index self + length vb"
  proof (cases f)
    case (Some path)
    then obtain bs where p: "path = bytes_path bs" "delimited_bytes vb bs" "t = \<lparr>number = 1, tag_type = LengthDelimited\<rparr>"
      using r(4) by (auto simp: path_shape_def)
    let ?s = "self\<lparr>index := index self + length vb\<rparr>"
    have "readBytes self = Some (Inr bs, ?s)" using r(3) p(2) by (subst readBytes_iff [OF r(1)]) auto
    then show ?thesis using p Some by (simp add: decodePathField_def expectWireType_def tryIn_apply liftRead_def)
  next
    case None
    then show ?thesis using r(4) skip_field [OF r(1-3), of t out] by (simp add: path_shape_def decodePathField_def)
  qed
qed

lemma FieldMask_decode_fields:
  assumes "list_all2 (field_bytes path_shape) fs bss"
  shows "FieldMask_decode (concat bss) = Some (Inr (map the (filter (\<lambda>f. f \<noteq> None) fs)))"
  by (simp add: FieldMask_decode_def fold_add_path mask.decodeMessage_fields [OF assms])

definition path_enc :: "string \<Rightarrow> bytes" where
  "path_enc path = tag_enc 1 LengthDelimited @ delimited_enc (path_bytes path)"

lemma writePaths_appends:
  "\<forall>path \<in> set m. fits_usize (path_bytes path) \<Longrightarrow> appends (writePaths m) (concat (map path_enc m))"
proof (induction m)
  case (Cons path m)
  then have "appends (tryIn (writeString 1 (path_bytes path)) (\<lambda>_. writePaths m))
      ((tag_enc 1 LengthDelimited @ delimited_enc (path_bytes path)) @ concat (map path_enc m))"
    by (intro appends_tryIn string.writes_appends) simp_all
  then show ?case by (simp add: path_enc_def [of path])
qed (simp add: appends_return)

lemma path_enc_bytes: "fits_usize (path_bytes path) \<Longrightarrow> field_bytes path_shape (Some path) (path_enc path)"
  using tag_bytes_enc [of "\<lparr>number = 1, tag_type = LengthDelimited\<rparr>"] delimited_bytes_enc [of "path_bytes path"] bytes_path_bytes [of path]
  unfolding field_bytes_def path_shape_def path_enc_def option.case
  by (intro exI [of _ "tag_enc 1 LengthDelimited"] exI [of _ "delimited_enc (path_bytes path)"]
      exI [of _ "\<lparr>number = 1, tag_type = LengthDelimited\<rparr>"])
    (auto simp: tag_enc_def intro!: exI [of _ "path_bytes path"])

lemma FieldMask_decode_enc:
  assumes "\<forall>path \<in> set m. fits_usize (path_bytes path)"
  shows "FieldMask_decode (concat (map path_enc m)) = Some (Inr m)"
proof -
  have "list_all2 (field_bytes path_shape) (map Some m) (map path_enc m)"
    using assms path_enc_bytes by (induction m) simp_all
  then have "FieldMask_decode (concat (map path_enc m)) = Some (Inr (map the (filter (\<lambda>f. f \<noteq> None) (map Some m))))"
    by (rule FieldMask_decode_fields)
  then show ?thesis by (simp add: comp_def filter_map)
qed

lemma encodes_FieldMask:
  assumes "\<forall>path \<in> set m. fits_usize (path_bytes path)" "FieldMask_validate m = Inr ()"
  shows "encodes True (FieldMask_encode m) (concat (map path_enc m))"
  using encodes_encodeMessage [OF outputs_liftWrite [OF writePaths_appends [OF assms(1)]]] assms(2)
  by (simp add: FieldMask_encode_def encodes_def tryIn_apply)

section \<open>Properties\<close>

text \<open>
  C33: the JSON form of a field mask is unambiguous: a valid mask is printed in camel case and
  parsed back to the same paths, and conversely a quoted text without escapes that the parser
  accepts is exactly what is printed for the mask it yields, which is valid.
\<close>

theorem field_mask_json_bijection:
  "(FieldMask_validate m = Inr () \<longrightarrow>
      (\<exists>camel. FieldMask_jsonStringify m = Inr camel \<and> FieldMask_jsonParse camel = Inr m)) \<and>
   (FieldMask_jsonParse (CHR 0x22 # s @ [CHR 0x22]) = Inr m' \<and> CHR 0x5C \<notin> set s \<longrightarrow>
      FieldMask_validate m' = Inr () \<and> FieldMask_jsonStringify m' = Inr (CHR 0x22 # s @ [CHR 0x22]))"
  using FieldMask_jsonParse_print [of m] FieldMask_jsonParse_Inr [of s m'] by (auto simp: FieldMask_jsonStringify_def)

theorem field_mask_json_bijection_witness:
  "FieldMask_validate [''user.display_name'', ''photo''] = Inr () \<and>
   (\<exists>camel. FieldMask_jsonStringify [''user.display_name'', ''photo''] = Inr camel \<and>
      FieldMask_jsonParse camel = Inr [''user.display_name'', ''photo''])"
proof -
  have "FieldMask_validate [''user.display_name'', ''photo''] = Inr ()"
    by (simp add: validateFieldMaskPath_def isLower_def isUpper_def isDigit_def)
  with field_mask_json_bijection [THEN conjunct1, rule_format, OF this] show ?thesis by blast
qed

text \<open>
  Decoding a field mask collects the paths of all fields with number 1, in their order and
  with any encoding of their lengths, and skips the other fields; encoding writes a valid mask
  so that it decodes to the same paths, or reports that the allocator refused.
\<close>

theorem field_mask_wire:
  "(list_all2 (field_bytes path_shape) fs bss \<longrightarrow>
      FieldMask_decode (concat bss) = Some (Inr (map the (filter (\<lambda>f. f \<noteq> None) fs)))) \<and>
   ((\<forall>path \<in> set m. fits_usize (path_bytes path)) \<and> FieldMask_validate m = Inr () \<longrightarrow>
      encoded_result (FieldMask_encode m) FieldMask_decode m True)"
  using FieldMask_decode_fields [of fs bss] encoded_resultI [OF encodes_FieldMask [of m], of FieldMask_decode m]
    FieldMask_decode_enc [of m] by blast

theorem field_mask_wire_witness:
  "encoded_result (FieldMask_encode [''a'']) FieldMask_decode [''a''] True"
  by (rule field_mask_wire [THEN conjunct2, rule_format])
    (simp add: validateFieldMaskPath_def isLower_def isUpper_def isDigit_def path_bytes_def fits_usize_def usize_max_def)

end
