(* ===== verification/Json_Text.thy ===== *)
theory Json_Text
  imports Wkt_Number Wkt_FieldMask
begin

text \<open>
  JSON texts as \<open>std.json\<close> reads and prints them for \<open>src/wkt.zig\<close>: the values of a parsed text, how a
  string is printed, the scanner and the parser, with the errors that stop them. What is parsed
  has its strings in UTF-8 and no key twice in an object. \<open>std.fmt.parseFloat\<close> is a parameter.
  Memory is never refused here.
\<close>

section \<open>JSON values\<close>

datatype JsonValue = Json_null | Json_bool bool | Json_integer i64 | Json_float u64 | Json_number_string bytes
  | Json_string bytes | Json_array "JsonValue list" | Json_object "(bytes \<times> JsonValue) list"

lemma size_member [termination_simp]: "map_of es key = Some v \<Longrightarrow> size v < size (Json_object es)"
  by (drule map_of_SomeD, drule size_list_estimation' [OF _ order_refl, where f = "size_prod (\<lambda>_. 0) size"]) simp

text \<open>\<open>std.fmt.parseFloat\<close> at its two types.\<close>

record float_parser =
  parse_f64 :: "bytes \<Rightarrow> wkt_error + u64"
  parse_f32 :: "bytes \<Rightarrow> wkt_error + u32"

text \<open>\<open>std.fmt.parseInt\<close> with its errors.\<close>

definition parseIntText :: "bool \<Rightarrow> nat \<Rightarrow> bytes \<Rightarrow> wkt_error + int" where
  "parseIntText is_signed bits v = (case fmtParseInt (int_range is_signed bits) (bytes_path v) 10 of
       Inl BadCharacter \<Rightarrow> Inl InvalidCharacter
     | Inl OutOfRange \<Rightarrow> Inl Overflow
     | Inr n \<Rightarrow> Inr n)"

section \<open>Printing strings\<close>

definition hexDigit :: "nat \<Rightarrow> byte" where
  "hexDigit n = (if n < 10 then of_nat (0x30 + n) else of_nat (0x57 + n))"

definition mustEscape :: "byte \<Rightarrow> bool" where
  "mustEscape b \<longleftrightarrow> b < 0x20 \<or> b = 0x22 \<or> b = 0x5C"

definition specialEscape :: "byte \<Rightarrow> bytes" where
  "specialEscape b =
     (if b = 0x5C then [0x5C, 0x5C]
      else if b = 0x22 then [0x5C, 0x22]
      else if b = 0x08 then [0x5C, 0x62]
      else if b = 0x0C then [0x5C, 0x66]
      else if b = 0x0A then [0x5C, 0x6E]
      else if b = 0x0D then [0x5C, 0x72]
      else if b = 0x09 then [0x5C, 0x74]
      else [0x5C, 0x75, 0x30, 0x30, hexDigit (unat b div 16), hexDigit (unat b mod 16)])"

definition escapeByte :: "byte \<Rightarrow> bytes" where
  "escapeByte b = (if mustEscape b then specialEscape b else [b])"

definition stringifyString :: "bytes \<Rightarrow> bytes" where
  "stringifyString s = 0x22 # concat (map escapeByte s) @ [0x22]"

section \<open>The scanner\<close>

text \<open>
  The functions are called behind the byte that selected them and return what they read and
  the rest of the text.
\<close>

definition hexValue :: "byte \<Rightarrow> nat option" where
  "hexValue b =
     (if 0x30 \<le> b \<and> b \<le> 0x39 then Some (unat b - 0x30)
      else if 0x41 \<le> b \<and> b \<le> 0x46 then Some (unat b - 0x37)
      else if 0x61 \<le> b \<and> b \<le> 0x66 then Some (unat b - 0x57)
      else None)"

fun scanHex :: "nat \<Rightarrow> nat \<Rightarrow> bytes \<Rightarrow> wkt_error + nat \<times> bytes" where
  "scanHex 0 unit bs = Inr (unit, bs)"
| "scanHex (Suc k) unit [] = Inl UnexpectedEndOfInput"
| "scanHex (Suc k) unit (b # bs) = (case hexValue b of
       None \<Rightarrow> Inl SyntaxError
     | Some d \<Rightarrow> scanHex k (unit * 16 + d) bs)"

fun scanLiteral :: "bytes \<Rightarrow> bytes \<Rightarrow> wkt_error + bytes" where
  "scanLiteral [] bs = Inr bs"
| "scanLiteral (c # cs) [] = Inl UnexpectedEndOfInput"
| "scanLiteral (c # cs) (b # bs) = (if b = c then scanLiteral cs bs else Inl SyntaxError)"

text \<open>A \<open>\u\<close> escape: a high surrogate needs a second escape with a low one.\<close>

definition scanUnicode :: "bytes \<Rightarrow> wkt_error + nat \<times> bytes" where
  "scanUnicode bs = (case scanHex 4 0 bs of
       Inl e \<Rightarrow> Inl e
     | Inr (unit, bs) \<Rightarrow>
         if 0xD800 \<le> unit \<and> unit \<le> 0xDBFF then (case scanLiteral [0x5C, 0x75] bs of
             Inl e \<Rightarrow> Inl e
           | Inr bs \<Rightarrow> (case scanHex 4 0 bs of
                 Inl e \<Rightarrow> Inl e
               | Inr (low, bs) \<Rightarrow>
                   if 0xDC00 \<le> low \<and> low \<le> 0xDFFF then Inr (0x10000 + (unit - 0xD800) * 1024 + (low - 0xDC00), bs)
                   else Inl SyntaxError))
         else if 0xDC00 \<le> unit \<and> unit \<le> 0xDFFF then Inl SyntaxError
         else Inr (unit, bs))"

definition simpleEscape :: "byte \<Rightarrow> byte option" where
  "simpleEscape b =
     (if b = 0x22 \<or> b = 0x5C \<or> b = 0x2F then Some b
      else if b = 0x62 then Some 0x08
      else if b = 0x66 then Some 0x0C
      else if b = 0x6E then Some 0x0A
      else if b = 0x72 then Some 0x0D
      else if b = 0x74 then Some 0x09
      else None)"

definition scanEscape :: "bytes \<Rightarrow> wkt_error + bytes \<times> bytes" where
  "scanEscape bs = (case bs of
       [] \<Rightarrow> Inl UnexpectedEndOfInput
     | e # bs \<Rightarrow>
         if e = 0x75 then (case scanUnicode bs of Inl e \<Rightarrow> Inl e | Inr (c, bs) \<Rightarrow> Inr (path_bytes (utf8Encode c), bs))
         else (case simpleEscape e of None \<Rightarrow> Inl SyntaxError | Some b \<Rightarrow> Inr ([b], bs)))"

text \<open>The ranges of the bytes behind the first byte of a character.\<close>

definition tailRanges :: "byte \<Rightarrow> (byte \<times> byte) list option" where
  "tailRanges b =
     (if b < 0x80 then Some []
      else if 0xC2 \<le> b \<and> b \<le> 0xDF then Some [(0x80, 0xBF)]
      else if b = 0xE0 then Some [(0xA0, 0xBF), (0x80, 0xBF)]
      else if b = 0xED then Some [(0x80, 0x9F), (0x80, 0xBF)]
      else if 0xE1 \<le> b \<and> b \<le> 0xEF then Some [(0x80, 0xBF), (0x80, 0xBF)]
      else if b = 0xF0 then Some [(0x90, 0xBF), (0x80, 0xBF), (0x80, 0xBF)]
      else if b = 0xF4 then Some [(0x80, 0x8F), (0x80, 0xBF), (0x80, 0xBF)]
      else if 0xF1 \<le> b \<and> b \<le> 0xF3 then Some [(0x80, 0xBF), (0x80, 0xBF), (0x80, 0xBF)]
      else None)"

fun scanTail :: "(byte \<times> byte) list \<Rightarrow> bytes \<Rightarrow> wkt_error + bytes \<times> bytes" where
  "scanTail [] bs = Inr ([], bs)"
| "scanTail (r # ranges) [] = Inl UnexpectedEndOfInput"
| "scanTail (r # ranges) (b # bs) =
     (if fst r \<le> b \<and> b \<le> snd r
      then (case scanTail ranges bs of Inl e \<Rightarrow> Inl e | Inr (t, bs) \<Rightarrow> Inr (b # t, bs))
      else Inl SyntaxError)"

definition scanCharacter :: "byte \<Rightarrow> bytes \<Rightarrow> wkt_error + bytes \<times> bytes" where
  "scanCharacter b bs = (case tailRanges b of
       None \<Rightarrow> Inl SyntaxError
     | Some ranges \<Rightarrow> (case scanTail ranges bs of Inl e \<Rightarrow> Inl e | Inr (t, bs) \<Rightarrow> Inr (b # t, bs)))"

lemma scanTail_Inr: "scanTail ranges bs = Inr (t, rest) \<Longrightarrow> bs = t @ rest"
  by (induction ranges bs arbitrary: t rest rule: scanTail.induct) (auto split: sum.splits if_splits)

lemma scanHex_shorter: "scanHex k u bs = Inr (v, rest) \<Longrightarrow> length bs = k + length rest"
  by (induction k u bs rule: scanHex.induct) (auto split: option.splits)

lemma scanLiteral_Inr: "scanLiteral cs bs = Inr rest \<Longrightarrow> bs = cs @ rest"
  by (induction cs bs rule: scanLiteral.induct) (auto split: if_splits)

lemma scanEscape_shorter: "scanEscape bs = Inr (s, rest) \<Longrightarrow> length rest < length bs"
  by (auto simp: scanEscape_def scanUnicode_def dest!: scanHex_shorter scanLiteral_Inr split: list.splits if_splits sum.splits option.splits)

lemma scanCharacter_shorter: "scanCharacter b bs = Inr (s, rest) \<Longrightarrow> length rest \<le> length bs"
  by (auto simp: scanCharacter_def dest!: scanTail_Inr split: option.splits sum.splits)

text \<open>The rest of a string behind its opening quote.\<close>

function scanString :: "bytes \<Rightarrow> wkt_error + bytes \<times> bytes" where
  "scanString [] = Inl UnexpectedEndOfInput"
| "scanString (b # bs) =
     (if b < 0x20 then Inl SyntaxError
      else if b = 0x22 then Inr ([], bs)
      else (case (if b = 0x5C then scanEscape bs else scanCharacter b bs) of
          Inl e \<Rightarrow> Inl e
        | Inr (c, bs) \<Rightarrow> (case scanString bs of Inl e \<Rightarrow> Inl e | Inr (s, bs) \<Rightarrow> Inr (c @ s, bs))))"
  by pat_completeness auto
termination
  by (relation "measure length") (auto dest: scanEscape_shorter scanCharacter_shorter split: if_splits)

text \<open>Numbers: an integer without leading zeros, a fraction, an exponent.\<close>

definition digitByte :: "byte \<Rightarrow> bool" where
  "digitByte b \<longleftrightarrow> 0x30 \<le> b \<and> b \<le> 0x39"

definition scanDigits :: "bytes \<Rightarrow> wkt_error + bytes \<times> bytes" where
  "scanDigits bs = (case bs of
       [] \<Rightarrow> Inl UnexpectedEndOfInput
     | b # _ \<Rightarrow> if digitByte b then Inr (takeWhile digitByte bs, dropWhile digitByte bs) else Inl SyntaxError)"

definition behind :: "bytes \<Rightarrow> wkt_error + bytes \<times> bytes \<Rightarrow> wkt_error + bytes \<times> bytes" where
  "behind t m = (case m of Inl e \<Rightarrow> Inl e | Inr (s, bs) \<Rightarrow> Inr (t @ s, bs))"

definition scanExponent :: "bytes \<Rightarrow> wkt_error + bytes \<times> bytes" where
  "scanExponent bs = (case bs of
       e # c # cs \<Rightarrow>
         if e = 0x65 \<or> e = 0x45
         then (if c = 0x2B \<or> c = 0x2D then behind [e, c] (scanDigits cs) else behind [e] (scanDigits (c # cs)))
         else Inr ([], bs)
     | [e] \<Rightarrow> if e = 0x65 \<or> e = 0x45 then Inl UnexpectedEndOfInput else Inr ([], bs)
     | [] \<Rightarrow> Inr ([], bs))"

definition scanFraction :: "bytes \<Rightarrow> wkt_error + bytes \<times> bytes" where
  "scanFraction bs = (case bs of
       c # cs \<Rightarrow>
         if c = 0x2E then (case scanDigits cs of Inl e \<Rightarrow> Inl e | Inr (ds, bs) \<Rightarrow> behind (c # ds) (scanExponent bs))
         else scanExponent bs
     | [] \<Rightarrow> Inr ([], bs))"

definition scanUnsigned :: "bytes \<Rightarrow> wkt_error + bytes \<times> bytes" where
  "scanUnsigned bs = (case bs of
       c # cs \<Rightarrow>
         if c = 0x30 then behind [c] (scanFraction cs)
         else (case scanDigits bs of Inl e \<Rightarrow> Inl e | Inr (ds, bs) \<Rightarrow> behind ds (scanFraction bs))
     | [] \<Rightarrow> Inl UnexpectedEndOfInput)"

definition scanNumber :: "bytes \<Rightarrow> wkt_error + bytes \<times> bytes" where
  "scanNumber bs = (case bs of
       c # cs \<Rightarrow> if c = 0x2D then behind [c] (scanUnsigned cs) else scanUnsigned bs
     | [] \<Rightarrow> Inl UnexpectedEndOfInput)"

section \<open>The parser\<close>

text \<open>A number without fraction and exponent is an integer, unless it is too large; other numbers are read as floats.\<close>

definition formattedLikeInteger :: "bytes \<Rightarrow> bool" where
  "formattedLikeInteger s \<longleftrightarrow> s \<noteq> [0x2D, 0x30] \<and> 0x2E \<notin> set s \<and> 0x65 \<notin> set s \<and> 0x45 \<notin> set s"

definition parseFromNumberSlice :: "float_parser \<Rightarrow> bytes \<Rightarrow> JsonValue option" where
  "parseFromNumberSlice fp s =
     (if \<not> formattedLikeInteger s then (case parse_f64 fp s of
          Inl _ \<Rightarrow> None
        | Inr f \<Rightarrow> Some (if isFinite f then Json_float f else Json_number_string s))
      else (case parseIntText True 64 s of
          Inr n \<Rightarrow> Some (Json_integer (word_of_int n))
        | Inl e \<Rightarrow> if e = Overflow then Some (Json_number_string s) else None))"

text \<open>A member of an object: a key that is there already is refused or, with \<open>use_last\<close>, gets the new value.\<close>

definition putMember :: "bool \<Rightarrow> (bytes \<times> JsonValue) list \<Rightarrow> bytes \<Rightarrow> JsonValue \<Rightarrow> wkt_error + (bytes \<times> JsonValue) list" where
  "putMember use_last entries key v =
     (if key \<in> fst ` set entries
      then (if use_last then Inr (map (\<lambda>(k, w). (k, if k = key then v else w)) entries) else Inl DuplicateField)
      else Inr (entries @ [(key, v)]))"

definition skipWhitespace :: "bytes \<Rightarrow> bytes" where
  "skipWhitespace bs = dropWhile (\<lambda>b. b = 0x20 \<or> b = 0x09 \<or> b = 0x0A \<or> b = 0x0D) bs"

type_synonym 'a scan = "(wkt_error, 'a \<times> bytes) outcome"

text \<open>What follows white space, \<open>UnexpectedEndOfInput\<close> if nothing does.\<close>

definition expectByte :: "bytes \<Rightarrow> (byte \<Rightarrow> bytes \<Rightarrow> 'a scan) \<Rightarrow> 'a scan" where
  "expectByte bs f = (case skipWhitespace bs of [] \<Rightarrow> Some (Inl UnexpectedEndOfInput) | c # cs \<Rightarrow> f c cs)"

text \<open>The values that need no recursion.\<close>

definition parseScalar :: "float_parser \<Rightarrow> byte \<Rightarrow> bytes \<Rightarrow> JsonValue scan" where
  "parseScalar fp c cs =
     (if c = 0x22 then trying (Some (scanString cs)) (\<lambda>(s, rest). Some (Inr (Json_string s, rest)))
      else if c = 0x74 then trying (Some (scanLiteral [0x72, 0x75, 0x65] cs)) (\<lambda>rest. Some (Inr (Json_bool True, rest)))
      else if c = 0x66 then trying (Some (scanLiteral [0x61, 0x6C, 0x73, 0x65] cs)) (\<lambda>rest. Some (Inr (Json_bool False, rest)))
      else if c = 0x6E then trying (Some (scanLiteral [0x75, 0x6C, 0x6C] cs)) (\<lambda>rest. Some (Inr (Json_null, rest)))
      else if c = 0x2D \<or> digitByte c then
        trying (Some (scanNumber (c # cs))) (\<lambda>(s, rest). map_option (\<lambda>v. Inr (v, rest)) (parseFromNumberSlice fp s))
      else Some (Inl SyntaxError))"

fun parseValueF :: "float_parser \<Rightarrow> bool \<Rightarrow> nat \<Rightarrow> bytes \<Rightarrow> JsonValue scan"
and parseMembersF :: "float_parser \<Rightarrow> bool \<Rightarrow> nat \<Rightarrow> (bytes \<times> JsonValue) list \<Rightarrow> bytes \<Rightarrow> JsonValue scan"
and parseItemsF :: "float_parser \<Rightarrow> bool \<Rightarrow> nat \<Rightarrow> JsonValue list \<Rightarrow> bytes \<Rightarrow> JsonValue scan" where
  "parseValueF fp use_last 0 bs = None"
| "parseValueF fp use_last (Suc n) bs = expectByte bs (\<lambda>c cs.
     if c = 0x7B then expectByte cs (\<lambda>d ds. if d = 0x7D then Some (Inr (Json_object [], ds)) else parseMembersF fp use_last n [] cs)
     else if c = 0x5B then expectByte cs (\<lambda>d ds. if d = 0x5D then Some (Inr (Json_array [], ds)) else parseItemsF fp use_last n [] cs)
     else parseScalar fp c cs)"
| "parseMembersF fp use_last 0 entries bs = None"
| "parseMembersF fp use_last (Suc n) entries bs = expectByte bs (\<lambda>c cs.
     if c \<noteq> 0x22 then Some (Inl SyntaxError)
     else trying (Some (scanString cs)) (\<lambda>(key, rest). expectByte rest (\<lambda>c cs.
       if c \<noteq> 0x3A then Some (Inl SyntaxError)
       else trying (parseValueF fp use_last n cs) (\<lambda>(v, rest).
         trying (Some (putMember use_last entries key v)) (\<lambda>entries. expectByte rest (\<lambda>c cs.
           if c = 0x2C then parseMembersF fp use_last n entries cs
           else if c = 0x7D then Some (Inr (Json_object entries, cs))
           else Some (Inl SyntaxError)))))))"
| "parseItemsF fp use_last 0 items bs = None"
| "parseItemsF fp use_last (Suc n) items bs =
     trying (parseValueF fp use_last n bs) (\<lambda>(v, rest). expectByte rest (\<lambda>c cs.
       if c = 0x2C then parseItemsF fp use_last n (items @ [v]) cs
       else if c = 0x5D then Some (Inr (Json_array (items @ [v]), cs))
       else Some (Inl SyntaxError)))"

text \<open>
  A call on \<open>n\<close> bytes needs at most \<open>2 * n + 1\<close> of fuel for a value and one more for a list:
  between two bytes that are consumed there is at most one call more.
\<close>

definition parseValue :: "float_parser \<Rightarrow> bool \<Rightarrow> bytes \<Rightarrow> JsonValue scan" where
  "parseValue fp use_last bs = parseValueF fp use_last (2 * length bs + 1) bs"

definition parseMembers :: "float_parser \<Rightarrow> bool \<Rightarrow> (bytes \<times> JsonValue) list \<Rightarrow> bytes \<Rightarrow> JsonValue scan" where
  "parseMembers fp use_last entries bs = parseMembersF fp use_last (2 * length bs + 2) entries bs"

definition parseItems :: "float_parser \<Rightarrow> bool \<Rightarrow> JsonValue list \<Rightarrow> bytes \<Rightarrow> JsonValue scan" where
  "parseItems fp use_last items bs = parseItemsF fp use_last (2 * length bs + 2) items bs"

definition parseFromSlice :: "float_parser \<Rightarrow> bool \<Rightarrow> bytes \<Rightarrow> (wkt_error, JsonValue) outcome" where
  "parseFromSlice fp use_last text = trying (parseValue fp use_last text) (\<lambda>(v, rest).
     if skipWhitespace rest \<noteq> [] then Some (Inl SyntaxError) else Some (Inr v))"

text \<open>
  What \<open>std.json\<close> guarantees of the values it parses: strings and keys are UTF-8, and no object
  has a key twice.
\<close>

fun json_ok :: "JsonValue \<Rightarrow> bool" where
  "json_ok (Json_string s) = utf8ValidateSlice s"
| "json_ok (Json_array items) = list_all json_ok items"
| "json_ok (Json_object entries) =
     (distinct (map fst entries) \<and> list_all (\<lambda>f. utf8ValidateSlice (fst f) \<and> json_ok (snd f)) entries)"
| "json_ok _ = True"

section \<open>Every call consumes text, so the fuel is never used up\<close>

lemma length_skipWhitespace: "length (skipWhitespace bs) \<le> length bs"
  by (simp add: skipWhitespace_def length_dropWhile_le)

lemma expectByte_Inr:
  assumes "expectByte bs f = Some (Inr r)"
  obtains c cs where "f c cs = Some (Inr r)" "length cs < length bs"
  using assms length_skipWhitespace [of bs] by (auto simp: expectByte_def split: list.splits)

lemma expectByte_cong:
  "(\<And>c cs. length cs < length bs \<Longrightarrow> f c cs = g c cs) \<Longrightarrow> expectByte bs f = expectByte bs g"
  using length_skipWhitespace [of bs] by (auto simp: expectByte_def split: list.splits)

lemma trying_cong: "(\<And>x. m = Some (Inr x) \<Longrightarrow> f x = g x) \<Longrightarrow> trying m f = trying m g"
  by (auto simp: trying_def split: option.splits sum.splits)

lemma scanString_shorter: "scanString bs = Inr (s, rest) \<Longrightarrow> length rest < length bs"
  by (induction bs arbitrary: s rest rule: scanString.induct)
    (auto split: if_splits sum.splits dest!: scanEscape_shorter scanCharacter_shorter, fastforce+)

lemma behind_Inr: "behind t m = Inr (s, rest) \<longleftrightarrow> (\<exists>u. m = Inr (u, rest) \<and> s = t @ u)"
  by (auto simp: behind_def split: sum.splits)

lemma scanDigits_Inr:
  assumes "scanDigits bs = Inr (s, rest)"
  shows "bs = s @ rest" "s \<noteq> []" "\<forall>b \<in> set s. digitByte b" "rest = [] \<or> \<not> digitByte (hd rest)"
proof -
  obtain b cs where b: "bs = b # cs" "digitByte b" "s = takeWhile digitByte bs" "rest = dropWhile digitByte bs"
    using assms by (auto simp: scanDigits_def split: list.splits if_splits)
  show "bs = s @ rest" unfolding b(3,4) by simp
  show "s \<noteq> []" unfolding b(3) using b(1,2) by simp
  show "\<forall>b \<in> set s. digitByte b" unfolding b(3) by (auto dest: set_takeWhileD)
  show "rest = [] \<or> \<not> digitByte (hd rest)" unfolding b(4) using hd_dropWhile by blast
qed

lemma scanDigits_split: "scanDigits bs = Inr (s, rest) \<Longrightarrow> bs = s @ rest \<and> s \<noteq> []"
  using scanDigits_Inr(1,2) by blast

lemma scanExponent_Inr: "scanExponent bs = Inr (s, rest) \<Longrightarrow> bs = s @ rest"
  by (auto simp: scanExponent_def behind_Inr dest!: scanDigits_Inr(1) split: list.splits if_splits)

lemma scanFraction_Inr: "scanFraction bs = Inr (s, rest) \<Longrightarrow> bs = s @ rest"
  by (auto simp: scanFraction_def behind_Inr dest!: scanDigits_Inr(1) scanExponent_Inr split: list.splits if_splits sum.splits)

lemma scanUnsigned_Inr: "scanUnsigned bs = Inr (s, rest) \<Longrightarrow> bs = s @ rest \<and> s \<noteq> []"
  by (auto simp: scanUnsigned_def behind_Inr dest!: scanDigits_split scanFraction_Inr split: list.splits if_splits sum.splits)

lemma scanNumber_Inr: "scanNumber bs = Inr (s, rest) \<Longrightarrow> bs = s @ rest \<and> s \<noteq> []"
  by (auto simp: scanNumber_def behind_Inr dest: scanUnsigned_Inr split: list.splits if_splits)

lemma parseScalar_progress: "parseScalar fp c cs = Some (Inr (v, rest)) \<Longrightarrow> length rest \<le> length cs"
proof -
  have "length rest \<le> length cs" if "scanNumber (c # cs) = Inr (s, rest)" for s
    using scanNumber_Inr [OF that] by (cases s) auto
  then show "parseScalar fp c cs = Some (Inr (v, rest)) \<Longrightarrow> length rest \<le> length cs"
    by (auto simp: parseScalar_def trying_Some dest: scanString_shorter scanLiteral_Inr less_imp_le split: if_splits)
qed

lemma parse_progress:
  "parseValueF fp u n bs = Some (Inr (v, rest)) \<Longrightarrow> length rest < length bs"
  "parseMembersF fp u n entries bs = Some (Inr (v, rest)) \<Longrightarrow> length rest < length bs"
  "parseItemsF fp u n items bs = Some (Inr (v, rest)) \<Longrightarrow> length rest < length bs"
proof (induction n arbitrary: bs v rest entries items)
  case (Suc n)
  {
    case 1
    then show ?case
      by (auto elim!: expectByte_Inr split: if_splits dest!: Suc.IH parseScalar_progress)
  next
    case 2
    then show ?case
      by (auto elim!: expectByte_Inr simp: trying_Some split: if_splits dest!: Suc.IH scanString_shorter)
  next
    case 3
    then show ?case
      by (auto elim!: expectByte_Inr simp: trying_Some split: if_splits dest!: Suc.IH)
  }
qed simp_all

lemma fuel_enough:
  "2 * length bs + 1 \<le> n \<Longrightarrow> n \<le> m \<Longrightarrow> parseValueF fp u m bs = parseValueF fp u n bs"
  "2 * length bs + 2 \<le> n \<Longrightarrow> n \<le> m \<Longrightarrow> parseMembersF fp u m entries bs = parseMembersF fp u n entries bs"
  "2 * length bs + 2 \<le> n \<Longrightarrow> n \<le> m \<Longrightarrow> parseItemsF fp u m items bs = parseItemsF fp u n items bs"
proof (induction n arbitrary: bs m entries items)
  case (Suc n)
  {
    case 1
    then obtain k where k: "m = Suc k" "n \<le> k" by (cases m) auto
    have "parseMembersF fp u k es cs = parseMembersF fp u n es cs" "parseItemsF fp u k js cs = parseItemsF fp u n js cs"
      if "length cs < length bs" for cs es js
      using Suc.IH(2,3) [of cs k] that 1 k by auto
    then show ?case unfolding k by (auto intro!: expectByte_cong)
  next
    case 2
    then obtain k where k: "m = Suc k" "n \<le> k" by (cases m) auto
    have eq: "parseValueF fp u k cs = parseValueF fp u n cs" "parseMembersF fp u k es cs = parseMembersF fp u n es cs"
      if "length cs < length bs" for cs es
      using Suc.IH(1,2) [of cs k] that 2 k by auto
    show ?case unfolding k
      by (auto intro!: expectByte_cong trying_cong eq simp: eq dest!: scanString_shorter parse_progress)
  next
    case 3
    then obtain k where k: "m = Suc k" "n \<le> k" by (cases m) auto
    have "parseValueF fp u k bs = parseValueF fp u n bs" using Suc.IH(1) [of bs k] 3 k by auto
    moreover have "parseItemsF fp u k js cs = parseItemsF fp u n js cs" if "length cs < length bs" for cs js
      using Suc.IH(3) [of cs k] that 3 k by auto
    ultimately show ?case unfolding k
      by (auto intro!: expectByte_cong trying_cong dest!: parse_progress(1))
  }
qed simp_all

declare parseValueF.simps [simp del] parseMembersF.simps [simp del] parseItemsF.simps [simp del]

text \<open>The equations of the code.\<close>

lemma fueled:
  "2 * length bs + 1 \<le> n \<Longrightarrow> parseValueF fp u n bs = parseValue fp u bs"
  "2 * length bs + 2 \<le> n \<Longrightarrow> parseMembersF fp u n entries bs = parseMembers fp u entries bs"
  "2 * length bs + 2 \<le> n \<Longrightarrow> parseItemsF fp u n items bs = parseItems fp u items bs"
  unfolding parseValue_def parseMembers_def parseItems_def using fuel_enough by blast+

lemma parse_progress':
  "parseValue fp u bs = Some (Inr (v, rest)) \<Longrightarrow> length rest < length bs"
  unfolding parseValue_def by (rule parse_progress)

lemma parseValue_eq:
  "parseValue fp u bs = expectByte bs (\<lambda>c cs.
     if c = 0x7B then expectByte cs (\<lambda>d ds. if d = 0x7D then Some (Inr (Json_object [], ds)) else parseMembers fp u [] cs)
     else if c = 0x5B then expectByte cs (\<lambda>d ds. if d = 0x5D then Some (Inr (Json_array [], ds)) else parseItems fp u [] cs)
     else parseScalar fp c cs)"
proof -
  have "parseValue fp u bs = parseValueF fp u (Suc (2 * length bs)) bs" by (simp add: parseValue_def)
  then show ?thesis unfolding parseValueF.simps by (auto intro!: expectByte_cong fueled simp: fueled)
qed

lemma parseMembers_eq:
  "parseMembers fp u entries bs = expectByte bs (\<lambda>c cs.
     if c \<noteq> 0x22 then Some (Inl SyntaxError)
     else trying (Some (scanString cs)) (\<lambda>(key, rest). expectByte rest (\<lambda>c cs.
       if c \<noteq> 0x3A then Some (Inl SyntaxError)
       else trying (parseValue fp u cs) (\<lambda>(v, rest).
         trying (Some (putMember u entries key v)) (\<lambda>entries. expectByte rest (\<lambda>c cs.
           if c = 0x2C then parseMembers fp u entries cs
           else if c = 0x7D then Some (Inr (Json_object entries, cs))
           else Some (Inl SyntaxError)))))))"
proof -
  have "parseMembers fp u entries bs = parseMembersF fp u (Suc (2 * length bs + 1)) entries bs" by (simp add: parseMembers_def)
  then show ?thesis unfolding parseMembersF.simps
    by (auto intro!: expectByte_cong trying_cong simp: fueled dest!: scanString_shorter parse_progress')
qed

lemma parseItems_eq:
  "parseItems fp u items bs =
     trying (parseValue fp u bs) (\<lambda>(v, rest). expectByte rest (\<lambda>c cs.
       if c = 0x2C then parseItems fp u (items @ [v]) cs
       else if c = 0x5D then Some (Inr (Json_array (items @ [v]), cs))
       else Some (Inl SyntaxError)))"
proof -
  have "parseItems fp u items bs = parseItemsF fp u (Suc (2 * length bs + 1)) items bs" by (simp add: parseItems_def)
  then show ?thesis unfolding parseItemsF.simps
    by (auto intro!: expectByte_cong trying_cong simp: fueled dest!: parse_progress')
qed

end
