(* ===== verification/Json_Facts.thy ===== *)
theory Json_Facts
  imports Json_Text
begin

text \<open>
  What the scanner and the parser of \<open>std.json\<close> do: a number ends where it can end, integers and
  strings are read back as they are printed, and the parser returns for every text, with a
  value whose strings are UTF-8 and whose objects have no key twice.
\<close>

section \<open>Numbers\<close>

text \<open>What may follow a number for it to end there.\<close>

definition ends_number :: "bytes \<Rightarrow> bool" where
  "ends_number t \<longleftrightarrow> t = [] \<or> \<not> digitByte (hd t) \<and> hd t \<noteq> 0x2E \<and> hd t \<noteq> 0x65 \<and> hd t \<noteq> 0x45"

lemma scanDigits_digits:
  assumes "s \<noteq> []" "\<forall>b \<in> set s. digitByte b" "t = [] \<or> \<not> digitByte (hd t)"
  shows "scanDigits (s @ t) = Inr (s, t)"
proof -
  have "takeWhile digitByte t = []" "dropWhile digitByte t = t" using assms(3) by (cases t; simp)+
  then show ?thesis using assms(1,2) by (cases s) (auto simp: scanDigits_def takeWhile_append dropWhile_append)
qed

lemma scanDigits_again:
  "scanDigits bs = Inr (s, rest) \<Longrightarrow> ends_number t \<Longrightarrow> scanDigits (s @ t) = Inr (s, t)"
  using scanDigits_Inr(2,3) by (intro scanDigits_digits) (auto simp: ends_number_def)

lemma scanExponent_Nil: "ends_number t \<Longrightarrow> scanExponent t = Inr ([], t)"
  by (auto simp: scanExponent_def ends_number_def split: list.splits)

lemma scanExponent_again:
  assumes "scanExponent bs = Inr (s, rest)" "ends_number t"
  shows "scanExponent (s @ t) = Inr (s, t)"
proof (cases "s = []")
  case False
  then obtain e c cs where b: "bs = e # c # cs" "e = 0x65 \<or> e = 0x45"
    using assms(1) by (auto simp: scanExponent_def split: list.splits if_splits)
  show ?thesis
  proof (cases "c = 0x2B \<or> c = 0x2D")
    case True
    then obtain ds where "scanDigits cs = Inr (ds, rest)" "s = [e, c] @ ds"
      using assms(1) b by (auto simp: scanExponent_def behind_Inr split: if_splits)
    then show ?thesis using True b(2) scanDigits_again [OF _ assms(2)] by (auto simp: scanExponent_def behind_def)
  next
    case c: False
    then obtain ds where ds: "scanDigits (c # cs) = Inr (ds, rest)" "s = [e] @ ds"
      using assms(1) b by (auto simp: scanExponent_def behind_Inr split: if_splits)
    then obtain ds' where "ds = c # ds'" using scanDigits_split [OF ds(1)] by (cases ds) auto
    then show ?thesis using c b(2) ds scanDigits_again [OF ds(1) assms(2)] by (auto simp: scanExponent_def behind_def)
  qed
qed (simp add: scanExponent_Nil assms(2))

lemma ends_before_exponent:
  assumes "scanExponent bs = Inr (s, rest)" "ends_number t"
  shows "s @ t = [] \<or> \<not> digitByte (hd (s @ t)) \<and> hd (s @ t) \<noteq> 0x2E"
  using assms by (auto simp: scanExponent_def behind_Inr ends_number_def digitByte_def split: list.splits if_splits)

lemma scanFraction_again:
  assumes "scanFraction bs = Inr (s, rest)" "ends_number t"
  shows "scanFraction (s @ t) = Inr (s, t)"
proof (cases "\<exists>cs. bs = 0x2E # cs")
  case True
  then obtain cs ds bs' u where b: "scanDigits cs = Inr (ds, bs')" "scanExponent bs' = Inr (u, rest)" "s = 0x2E # ds @ u"
    using assms(1) by (auto simp: scanFraction_def behind_Inr split: sum.splits)
  have "scanDigits (ds @ u @ t) = Inr (ds, u @ t)"
    using scanDigits_Inr(2,3) [OF b(1)] ends_before_exponent [OF b(2) assms(2)] by (intro scanDigits_digits) auto
  then show ?thesis using scanExponent_again [OF b(2) assms(2)] unfolding b(3) by (simp add: scanFraction_def behind_def)
next
  case False
  then have b: "scanExponent bs = Inr (s, rest)"
    using assms(1) by (auto simp: scanFraction_def scanExponent_def split: list.splits if_splits)
  then show ?thesis
    using scanExponent_again [OF b assms(2)] ends_before_exponent [OF b assms(2)] by (cases "s @ t") (auto simp: scanFraction_def)
qed

lemma ends_before_fraction:
  assumes "scanFraction bs = Inr (s, rest)" "ends_number t"
  shows "s @ t = [] \<or> \<not> digitByte (hd (s @ t))"
proof (cases "\<exists>cs. bs = 0x2E # cs")
  case True
  then show ?thesis using assms(1) by (auto simp: scanFraction_def behind_Inr digitByte_def split: sum.splits)
next
  case False
  then have "scanExponent bs = Inr (s, rest)"
    using assms(1) by (auto simp: scanFraction_def scanExponent_def split: list.splits if_splits)
  then show ?thesis using ends_before_exponent [OF _ assms(2)] by blast
qed

lemma scanUnsigned_again:
  assumes "scanUnsigned bs = Inr (s, rest)" "ends_number t"
  shows "scanUnsigned (s @ t) = Inr (s, t)"
proof (cases "\<exists>cs. bs = 0x30 # cs")
  case True
  then show ?thesis using assms(1) scanFraction_again [OF _ assms(2)] by (auto simp: scanUnsigned_def behind_def split: sum.splits)
next
  case False
  then obtain ds bs' u where b: "scanDigits bs = Inr (ds, bs')" "scanFraction bs' = Inr (u, rest)" "s = ds @ u"
    using assms(1) by (auto simp: scanUnsigned_def behind_Inr split: list.splits sum.splits)
  then obtain c ds' where d: "ds = c # ds'" using scanDigits_split [OF b(1)] by (cases ds) auto
  then have "c \<noteq> 0x30" using False scanDigits_split [OF b(1)] by auto
  moreover have "scanDigits (ds @ u @ t) = Inr (ds, u @ t)"
    using scanDigits_Inr(2,3) [OF b(1)] ends_before_fraction [OF b(2) assms(2)] by (intro scanDigits_digits) auto
  ultimately show ?thesis using scanFraction_again [OF b(2) assms(2)] d unfolding b(3) by (simp add: scanUnsigned_def behind_def)
qed

lemma scanNumber_again:
  assumes "scanNumber bs = Inr (s, rest)" "ends_number t"
  shows "scanNumber (s @ t) = Inr (s, t)"
proof (cases "\<exists>cs. bs = 0x2D # cs")
  case True
  then show ?thesis using assms(1) scanUnsigned_again [OF _ assms(2)] by (auto simp: scanNumber_def behind_def split: sum.splits)
next
  case False
  then have b: "scanUnsigned bs = Inr (s, rest)"
    using assms(1) by (auto simp: scanNumber_def scanUnsigned_def split: list.splits if_splits)
  then obtain c s' where "s = c # s'" "bs = c # s' @ rest" using scanUnsigned_Inr [OF b] by (cases s) auto
  then show ?thesis using scanUnsigned_again [OF b assms(2)] False by (simp add: scanNumber_def)
qed

text \<open>A number that is formatted like an integer is a sign and digits.\<close>

lemma scanFraction_integer:
  "scanFraction bs = Inr (s, rest) \<Longrightarrow> 0x2E \<notin> set s \<Longrightarrow> 0x65 \<notin> set s \<Longrightarrow> 0x45 \<notin> set s \<Longrightarrow> s = []"
  by (auto simp: scanFraction_def scanExponent_def behind_Inr split: list.splits if_splits sum.splits)

lemma scanUnsigned_integer:
  assumes "scanUnsigned bs = Inr (s, rest)" "0x2E \<notin> set s" "0x65 \<notin> set s" "0x45 \<notin> set s"
  shows "s \<noteq> []" "\<forall>b \<in> set s. digitByte b"
proof -
  show "s \<noteq> []" using scanUnsigned_Inr [OF assms(1)] by blast
  show "\<forall>b \<in> set s. digitByte b"
    using assms scanFraction_integer
    by (auto simp: scanUnsigned_def behind_Inr digitByte_def dest!: scanDigits_Inr(3) split: list.splits if_splits sum.splits) fastforce+
qed

section \<open>Integers\<close>

lemma digitByte_isDigit: "digitByte b \<longleftrightarrow> isDigit (char_of (unat b))"
  using unat_bound [of b] by (simp add: digitByte_def isDigit_def word_le_nat_alt)

lemma char_of_minus: "char_of (45 :: nat) = CHR ''-''"
  by (simp add: char_of_def bit_0)

lemma char_of_zero: "char_of (48 :: nat) = CHR ''0''"
  by (simp add: char_of_def bit_0)

lemma digits_bytes_path: "digits (bytes_path s) \<longleftrightarrow> (\<forall>b \<in> set s. digitByte b)"
  by (auto simp: digits_def bytes_path_def digitByte_isDigit)

lemma parseDigits_digits_error: "digits s \<Longrightarrow> parseDigits in_range 10 neg a s \<noteq> Inl BadCharacter"
  by (induction s arbitrary: a) (auto simp: charToDigit_isDigit Let_def split: if_splits)

lemma parseIntWithSign_digits_error:
  "digits s \<Longrightarrow> s \<noteq> [] \<Longrightarrow> parseIntWithSign in_range 10 neg s \<noteq> Inl BadCharacter"
  using isDigit_neq [of "hd s"] isDigit_neq [of "last s"] parseDigits_digits_error
  by (auto simp: parseIntWithSign_def digits_def)

lemma parseIntText_number:
  assumes "scanNumber bs = Inr (s, rest)" "formattedLikeInteger s"
  shows "parseIntText is_signed bits s \<noteq> Inl InvalidCharacter \<and> (\<forall>e. parseIntText is_signed bits s = Inl e \<longrightarrow> e = Overflow)"
proof -
  have no: "0x2E \<notin> set s" "0x65 \<notin> set s" "0x45 \<notin> set s" using assms(2) by (auto simp: formattedLikeInteger_def)
  have ds: "fmtParseInt r (bytes_path s) 10 \<noteq> Inl BadCharacter" for r
  proof (cases "\<exists>cs. bs = 0x2D # cs")
    case True
    then obtain cs u where u: "scanUnsigned cs = Inr (u, rest)" "s = 0x2D # u"
      using assms(1) by (auto simp: scanNumber_def behind_Inr)
    have "u \<noteq> []" "\<forall>b \<in> set u. digitByte b" using scanUnsigned_integer [OF u(1)] no u(2) by auto
    then have "digits (bytes_path u)" "bytes_path u \<noteq> []" by (simp_all add: digits_bytes_path) (simp add: bytes_path_def)
    moreover have "bytes_path s = CHR ''-'' # bytes_path u" by (simp add: u(2) bytes_path_def char_of_minus)
    ultimately show ?thesis by (simp add: fmtParseInt_def parseIntWithSign_digits_error)
  next
    case False
    then have "scanUnsigned bs = Inr (s, rest)"
      using assms(1) by (auto simp: scanNumber_def scanUnsigned_def split: list.splits if_splits)
    from scanUnsigned_integer [OF this no] have s: "digits (bytes_path s)" "bytes_path s \<noteq> []"
      by (simp_all add: digits_bytes_path) (simp add: bytes_path_def)
    then have "hd (bytes_path s) \<noteq> CHR ''+''" "hd (bytes_path s) \<noteq> CHR ''-''"
      using isDigit_neq [of "hd (bytes_path s)"] by (auto simp: digits_def)
    then show ?thesis using s by (simp add: fmtParseInt_def parseIntWithSign_digits_error)
  qed
  then show ?thesis by (auto simp: parseIntText_def split: sum.splits int_error.splits)
qed

text \<open>An integer in decimal, as \<open>{d}\<close> prints it.\<close>

definition printInt :: "int \<Rightarrow> bytes" where
  "printInt n = path_bytes (if n < 0 then CHR ''-'' # decimal (nat (- n)) else decimal (nat n))"

lemma parseDigits_negative:
  assumes "digits s" "in_range (- int (value_from a s))" "\<And>m n. m \<le> n \<Longrightarrow> in_range (- int n) \<Longrightarrow> in_range (- int m)"
  shows "parseDigits in_range 10 True (- int a) s = Inr (- int (value_from a s))"
  using assms(1,2)
proof (induction s arbitrary: a)
  case (Cons c s)
  let ?d = "of_char c - 48 :: nat"
  let ?b = "a * 10 + ?d"
  have v: "value_from a (c # s) = value_from ?b s" by (simp add: value_from_def)
  have b: "in_range (- int ?b)" "in_range (- int (a * 10))"
    using assms(3) value_from_le [of ?b s] Cons.prems(2) unfolding v by (blast intro: le_add1)+
  have "parseDigits in_range 10 True (- int ?b) s = Inr (- int (value_from ?b s))"
    using Cons.IH [of ?b] Cons.prems unfolding v by (simp only: digits_simps)
  moreover have e: "- int ?b = - int a * int 10 + - int ?d" "- int (a * 10) = - int a * int 10" by simp_all
  moreover have "- int ?d - int a * 10 = - int a * int 10 + - int ?d" by simp
  then have "in_range (- int ?d - int a * 10)" using b(1) unfolding e by (simp only:)
  ultimately show ?case
    using Cons.prems(1) b isDigit_neq [of c] unfolding v e
    by (cases "a = 0") (simp_all add: charToDigit_isDigit Let_def del: of_nat_add of_nat_mult)
qed (simp add: value_from_def)

lemma parseIntText_printInt:
  assumes "int_range is_signed bits n"
  shows "parseIntText is_signed bits (printInt n) = Inr n"
proof (cases "n < 0")
  case True
  let ?s = "decimal (nat (- n))"
  have r: "is_signed" using assms True by (auto simp: int_range_def fits_unsigned_def split: if_splits)
  have "parseDigits (int_range is_signed bits) 10 True (- int 0) ?s = Inr (- int (value_from 0 ?s))"
  proof (rule parseDigits_negative)
    show "int_range is_signed bits (- int (value_from 0 ?s))"
      using assms True undecimal_decimal [of "nat (- n)"] by (simp add: undecimal_def value_from_def)
    show "int_range is_signed bits (- int m)" if "m \<le> k" "int_range is_signed bits (- int k)" for m k
      using that r le_less_trans [of "- int m" 0 "2 ^ (bits - 1)"] by (auto simp: int_range_def fits_def)
  qed simp
  moreover have "value_from 0 ?s = nat (- n)" using undecimal_decimal [of "nat (- n)"] by (simp add: undecimal_def value_from_def)
  moreover have "hd ?s \<noteq> CHR ''_''" "last ?s \<noteq> CHR ''_''"
    using isDigit_neq [of "hd ?s"] isDigit_neq [of "last ?s"] digits_decimal [of "nat (- n)"] by (auto simp: digits_def)
  ultimately have "fmtParseInt (int_range is_signed bits) (CHR ''-'' # ?s) 10 = Inr n"
    using True by (simp add: fmtParseInt_def parseIntWithSign_def)
  then show ?thesis using True by (simp add: parseIntText_def printInt_def)
next
  case False
  have "parseInt (int_range is_signed bits) (decimal (nat n)) 10 = Some (int (undecimal (decimal (nat n))))"
    using assms False by (intro parseInt_digits) (auto simp: undecimal_decimal int_range_def intro: fits_down fits_unsigned_down split: if_splits)
  then show ?thesis using False by (simp add: parseInt_Some undecimal_decimal parseIntText_def printInt_def)
qed

lemma decimal_head: "hd (decimal n) = CHR ''0'' \<longleftrightarrow> n = 0"
proof (induction n rule: decimal.induct)
  case (1 n)
  have "char_of (48 + n) = CHR ''0'' \<longleftrightarrow> n = 0" if "n < 10"
  proof
    assume "char_of (48 + n) = CHR ''0''"
    then have "of_char (char_of (48 + n)) = (48 :: nat)" by simp
    then show "n = 0" using that by simp
  qed (simp add: char_of_zero)
  then show ?case using 1 by (subst decimal.simps) (auto simp: div_eq_0_iff)
qed

lemma set_path_digits: "digits s \<Longrightarrow> b \<in> set (path_bytes s) \<Longrightarrow> digitByte b"
  using digits_bytes_path [of "path_bytes s"] by simp

lemma scanUnsigned_decimal_behind:
  assumes "scanFraction rest = Inr (s, t)" "rest = [] \<or> \<not> digitByte (hd rest)"
  shows "scanUnsigned (path_bytes (decimal n) @ rest) = Inr (path_bytes (decimal n) @ s, t)"
proof (cases "n = 0")
  case True
  then show ?thesis using assms(1)
    by (subst (1 2) decimal.simps) (simp add: path_bytes_def scanUnsigned_def behind_def)
next
  case False
  obtain c cs where c: "decimal n = c # cs" using decimal_not_Nil [of n] by (cases "decimal n") auto
  have "of_nat (of_char c) \<noteq> (0x30 :: byte)"
  proof
    assume "of_nat (of_char c) = (0x30 :: byte)"
    then have "bytes_path (path_bytes [c]) = bytes_path [0x30]" by (simp add: path_bytes_def)
    then have "c = CHR ''0''" unfolding bytes_path_bytes by (simp add: bytes_path_def char_of_zero)
    then show False using decimal_head [of n] False c by simp
  qed
  moreover have "\<forall>b \<in> set (path_bytes (decimal n)). digitByte b" using set_path_digits digits_decimal by blast
  then have "scanDigits (path_bytes (decimal n) @ rest) = Inr (path_bytes (decimal n), rest)"
    by (intro scanDigits_digits assms(2)) (simp_all add: c path_bytes_def)
  ultimately show ?thesis using assms(1)
    by (simp add: scanUnsigned_def c path_bytes_def behind_def)
qed

lemma scanUnsigned_decimal: "scanUnsigned (path_bytes (decimal n)) = Inr (path_bytes (decimal n), [])"
  using scanUnsigned_decimal_behind [of "[]" "[]" "[]"] by (simp add: scanFraction_def)

lemma scanNumber_printInt: "scanNumber (printInt n) = Inr (printInt n, [])"
proof (cases "n < 0")
  case True
  then show ?thesis
    using scanUnsigned_decimal [of "nat (- n)"] by (simp add: printInt_def path_bytes_def scanNumber_def behind_def)
next
  case False
  obtain c cs where c: "decimal (nat n) = c # cs" using decimal_not_Nil [of "nat n"] by (cases "decimal (nat n)") auto
  have "digitByte (of_nat (of_char c))"
    by (rule set_path_digits [OF digits_decimal, of _ "nat n"]) (simp add: c path_bytes_def)
  then have "of_nat (of_char c) \<noteq> (0x2D :: byte)" by (auto simp: digitByte_def)
  then show ?thesis
    using scanUnsigned_decimal [of "nat n"] False by (simp add: printInt_def c path_bytes_def scanNumber_def)
qed

lemma formattedLikeInteger_printInt: "formattedLikeInteger (printInt n)"
proof -
  have digits: "b \<in> set (path_bytes (decimal k)) \<Longrightarrow> digitByte b" for b k
    by (rule set_path_digits [OF digits_decimal])
  have no: "c \<notin> set (path_bytes (decimal k))" if "\<not> digitByte c" for c k using digits that by blast
  have "path_bytes (decimal (nat (- n))) \<noteq> [0x30]" if "n < 0"
  proof
    assume "path_bytes (decimal (nat (- n))) = [0x30]"
    then have "decimal (nat (- n)) = bytes_path [0x30]" by (metis bytes_path_bytes)
    then have "hd (decimal (nat (- n))) = CHR ''0''" by (simp add: bytes_path_def char_of_zero)
    then show False using decimal_head that by simp
  qed
  moreover have "path_bytes (decimal k) \<noteq> [0x2D, 0x30]" for k using no [of "0x2D" k] by (auto simp: digitByte_def)
  moreover have "path_bytes (CHR ''-'' # s) = 0x2D # path_bytes s" for s by (simp add: path_bytes_def)
  ultimately show ?thesis
    using no [of "0x2E"] no [of "0x65"] no [of "0x45"] by (auto simp: formattedLikeInteger_def printInt_def digitByte_def)
qed

lemma parseFromNumberSlice_printInt:
  "fits 64 n \<Longrightarrow> parseFromNumberSlice fp (printInt n) = Some (Json_integer (word_of_int n))"
  by (simp add: parseFromNumberSlice_def formattedLikeInteger_printInt parseIntText_printInt int_range_def)

section \<open>Strings\<close>

text \<open>The scanner of a character and the check for UTF-8 accept the same bytes.\<close>

lemma utf8_step:
  "utf8ValidateSlice (b # bs) \<longleftrightarrow> (\<exists>ranges t rest. tailRanges b = Some ranges \<and> scanTail ranges bs = Inr (t, rest) \<and> utf8ValidateSlice rest)"
proof -
  note conv = word_less_nat_alt word_le_nat_alt word_unat_eq_iff
  have ranges: "0xA0 \<le> x \<Longrightarrow> 0x80 \<le> x" "0x90 \<le> x \<Longrightarrow> 0x80 \<le> x" "x \<le> 0x9F \<Longrightarrow> x \<le> 0xBF" "x \<le> 0x8F \<Longrightarrow> x \<le> 0xBF" for x :: byte
    by (simp_all add: conv)
  let ?R = "\<exists>ranges t rest. tailRanges b = Some ranges \<and> scanTail ranges bs = Inr (t, rest) \<and> utf8ValidateSlice rest"
  consider (a) "unat b < 0x80" | (b) "0xC2 \<le> unat b" "unat b \<le> 0xDF" | (c) "unat b = 0xE0" | (d) "unat b = 0xED"
    | (e) "0xE1 \<le> unat b" "unat b \<le> 0xEF" "unat b \<noteq> 0xED" | (f) "unat b = 0xF0" | (g) "unat b = 0xF4"
    | (h) "0xF1 \<le> unat b" "unat b \<le> 0xF3" | (i) "0x80 \<le> unat b" "unat b < 0xC2 \<or> 0xF4 < unat b" by linarith
  then show ?thesis
  proof cases
    case a
    then show ?thesis by (simp add: tailRanges_def conv)
  next
    case b
    then have "\<not> b < 0x80" "0xC2 \<le> b" "b \<le> 0xDF" by (simp_all add: conv)
    then show ?thesis by (auto simp: tailRanges_def utf8Continues_def dest: ranges split: list.splits)
  next
    case c
    then have "b = 0xE0" by (simp add: conv)
    then show ?thesis by (auto simp: tailRanges_def utf8Continues_def dest: ranges split: list.splits sum.splits) 
  next
    case d
    then have "b = 0xED" by (simp add: conv)
    then show ?thesis by (auto simp: tailRanges_def utf8Continues_def dest: ranges split: list.splits sum.splits)
  next
    case e
    then have "\<not> b < 0x80" "\<not> b \<le> 0xDF" "0xE0 \<le> b" "0xE1 \<le> b" "b \<le> 0xEF" "b \<noteq> 0xE0" "b \<noteq> 0xED" by (simp_all add: conv)
    then show ?thesis by (auto simp: tailRanges_def utf8Continues_def dest: ranges split: list.splits sum.splits)
  next
    case f
    then have "b = 0xF0" by (simp add: conv)
    then show ?thesis by (auto simp: tailRanges_def utf8Continues_def dest: ranges split: list.splits sum.splits)
  next
    case g
    then have "b = 0xF4" by (simp add: conv)
    then show ?thesis by (auto simp: tailRanges_def utf8Continues_def dest: ranges split: list.splits sum.splits)
  next
    case h
    then have "\<not> b < 0x80" "\<not> b \<le> 0xDF" "\<not> b \<le> 0xEF" "b \<noteq> 0xE0" "b \<noteq> 0xED" "0xF0 \<le> b" "0xF1 \<le> b" "b \<le> 0xF3" "b \<le> 0xF4"
      "b \<noteq> 0xF0" "b \<noteq> 0xF4" by (simp_all add: conv)
    then show ?thesis by (auto simp: tailRanges_def utf8Continues_def dest: ranges split: list.splits sum.splits)
  next
    case i
    then have none: "\<not> b < 0x80" "\<not> (0xC2 \<le> b \<and> b \<le> 0xDF)" "\<not> (0xE0 \<le> b \<and> b \<le> 0xEF)" "\<not> (0xF0 \<le> b \<and> b \<le> 0xF4)" "b \<noteq> 0xE0" "b \<noteq> 0xED"
      "b \<noteq> 0xF0" "b \<noteq> 0xF4" "\<not> (0xE1 \<le> b \<and> b \<le> 0xEF)" "\<not> (0xF1 \<le> b \<and> b \<le> 0xF3)" by (auto simp: conv)
    have "tailRanges b = None" "\<not> utf8ValidateSlice (b # bs)" unfolding tailRanges_def utf8ValidateSlice.simps by (simp_all only: none if_False simp_thms)
    then show ?thesis by simp
  qed
qed

declare utf8ValidateSlice.simps(2) [simp del]

lemma scanTail_append: "scanTail ranges bs = Inr (t, rest) \<Longrightarrow> scanTail ranges (t @ x) = Inr (t, x)"
  by (induction ranges bs arbitrary: t rule: scanTail.induct) (auto split: sum.splits if_splits)

lemma utf8_induct [consumes 1, case_names Nil Cons]:
  assumes "utf8ValidateSlice s" "P []"
    and "\<And>b t rest ranges. tailRanges b = Some ranges \<Longrightarrow> (\<And>x. scanTail ranges (t @ x) = Inr (t, x)) \<Longrightarrow> utf8ValidateSlice rest \<Longrightarrow> P rest \<Longrightarrow> P (b # t @ rest)"
  shows "P s"
  using assms(1)
proof (induction "length s" arbitrary: s rule: less_induct)
  case less
  show ?case
  proof (cases s)
    case (Cons b bs)
    then obtain ranges t rest where c: "tailRanges b = Some ranges" "scanTail ranges bs = Inr (t, rest)" "utf8ValidateSlice rest"
      using less.prems utf8_step by blast
    have "bs = t @ rest" by (rule scanTail_Inr [OF c(2)])
    then show ?thesis using assms(3) [OF c(1) scanTail_append [OF c(2)] c(3)] less.hyps [of rest] c(3) Cons by simp
  qed (use assms(2) in simp)
qed

lemma utf8_append: "utf8ValidateSlice s \<Longrightarrow> utf8ValidateSlice t \<Longrightarrow> utf8ValidateSlice (s @ t)"
  by (induction s rule: utf8_induct) (simp, auto simp: utf8_step)

lemma scanCharacter_utf8:
  assumes "scanCharacter b bs = Inr (s, rest)"
  shows "utf8ValidateSlice s"
proof -
  obtain ranges t where r: "tailRanges b = Some ranges" "scanTail ranges bs = Inr (t, rest)" "s = b # t"
    using assms by (auto simp: scanCharacter_def split: option.splits sum.splits)
  show ?thesis using scanTail_append [OF r(2), of "[]"] r(1) unfolding r(3) by (simp add: utf8_step)
qed

text \<open>The bytes of a character by their numbers.\<close>

definition bytes_of :: "nat list \<Rightarrow> bytes" where
  "bytes_of ns = map of_nat ns"

lemma path_bytes_char_of: "path_bytes (map char_of ns) = bytes_of ns"
  by (induction ns) (simp_all add: path_bytes_def bytes_of_def word_of_nat_eq_iff take_bit_eq_mod)

lemma unat_byte: "n < 256 \<Longrightarrow> unat (of_nat n :: byte) = n"
  by (simp add: unat_of_nat)

lemma utf8_character:
  fixes b b1 b2 b3 :: byte
  shows "unat b < 0x80 \<Longrightarrow> utf8ValidateSlice [b]"
    and "0xC2 \<le> unat b \<Longrightarrow> unat b \<le> 0xDF \<Longrightarrow> unat b1 \<in> {0x80..0xBF} \<Longrightarrow> utf8ValidateSlice [b, b1]"
    and "0xE0 \<le> unat b \<Longrightarrow> unat b \<le> 0xEF \<Longrightarrow> unat b1 \<in> {0x80..0xBF} \<Longrightarrow> unat b2 \<in> {0x80..0xBF} \<Longrightarrow>
      (unat b = 0xE0 \<Longrightarrow> 0xA0 \<le> unat b1) \<Longrightarrow> (unat b = 0xED \<Longrightarrow> unat b1 \<le> 0x9F) \<Longrightarrow> utf8ValidateSlice [b, b1, b2]"
    and "0xF0 \<le> unat b \<Longrightarrow> unat b \<le> 0xF4 \<Longrightarrow> unat b1 \<in> {0x80..0xBF} \<Longrightarrow> unat b2 \<in> {0x80..0xBF} \<Longrightarrow> unat b3 \<in> {0x80..0xBF} \<Longrightarrow>
      (unat b = 0xF0 \<Longrightarrow> 0x90 \<le> unat b1) \<Longrightarrow> (unat b = 0xF4 \<Longrightarrow> unat b1 \<le> 0x8F) \<Longrightarrow> utf8ValidateSlice [b, b1, b2, b3]"
  by (simp_all add: utf8ValidateSlice.simps(2) utf8Continues_def word_less_nat_alt word_le_nat_alt word_unat_eq_iff)

lemma mod_64: "832 \<le> d \<Longrightarrow> d < 864 \<Longrightarrow> d mod 64 \<le> 31" "256 \<le> d \<Longrightarrow> d < 272 \<Longrightarrow> d mod 64 \<le> 15" for d :: nat
proof -
  have mod: "(r + 64 * k) mod 64 = r" if "r < 64" for r k :: nat using that by simp
  show "d mod 64 \<le> 31" if "832 \<le> d" "d < 864" using mod [of "d - 832" 13] that by simp
  show "d mod 64 \<le> 15" if "256 \<le> d" "d < 272" using mod [of "d - 256" 4] that by simp
qed

lemma utf8Encode_valid:
  assumes "c < 0x110000" "\<not> (0xD800 \<le> c \<and> c \<le> 0xDFFF)"
  shows "utf8ValidateSlice (path_bytes (utf8Encode c))"
proof -
  consider "c < 0x80" | "0x80 \<le> c" "c < 0x800" | "0x800 \<le> c" "c < 0x10000" | "0x10000 \<le> c" by linarith
  then show ?thesis
  proof cases
    case 1
    then show ?thesis using path_bytes_char_of [of "[c]"] utf8_character(1) [of "of_nat c"] 1 by (simp add: utf8Encode_def bytes_of_def unat_byte)
  next
    case 2
    then have "2 \<le> c div 64" "c div 64 < 32" by (simp_all add: less_mult_imp_div_less)
    with 2 show ?thesis
      using path_bytes_char_of [of "[0xC0 + c div 64, 0x80 + c mod 64]"] utf8_character(2) [of "of_nat (0xC0 + c div 64)" "of_nat (0x80 + c mod 64)"]
      by (simp add: utf8Encode_def bytes_of_def unat_byte del: of_nat_add)
  next
    case 3
    have q: "c div 4096 < 16" using 3 by (simp add: less_mult_imp_div_less)
    have low: "32 \<le> c div 64 mod 64" if "c div 4096 = 0"
    proof -
      have "c < 4096" using that by (simp add: div_eq_0_iff)
      then have "c div 64 < 64" "32 \<le> c div 64" using 3 by (simp_all add: less_mult_imp_div_less)
      then show ?thesis by simp
    qed
    have high: "c div 64 mod 64 \<le> 31" if "c div 4096 = 13"
    proof -
      have "53248 \<le> c" "c < 57344" using that by linarith+
      then have "c < 55296" using assms(2) by linarith
      then have "c div 64 < 864" "832 \<le> c div 64" using \<open>53248 \<le> c\<close> by linarith+
      then show ?thesis by (rule mod_64(1) [rotated])
    qed
    show ?thesis
      using 3 q low high path_bytes_char_of [of "[0xE0 + c div 4096, 0x80 + c div 64 mod 64, 0x80 + c mod 64]"]
        utf8_character(3) [of "of_nat (0xE0 + c div 4096)" "of_nat (0x80 + c div 64 mod 64)" "of_nat (0x80 + c mod 64)"]
      by (simp add: utf8Encode_def bytes_of_def unat_byte del: of_nat_add)
  next
    case 4
    have q: "c div 262144 < 5" using assms(1) by (simp add: less_mult_imp_div_less)
    have low: "16 \<le> c div 4096 mod 64" if "c div 262144 = 0"
    proof -
      have "c < 262144" using that by (simp add: div_eq_0_iff)
      then have "c div 4096 < 64" "16 \<le> c div 4096" using 4 by (simp_all add: less_mult_imp_div_less)
      then show ?thesis by simp
    qed
    have high: "c div 4096 mod 64 \<le> 15" if "c div 262144 = 4"
    proof -
      have "1048576 \<le> c" using that by linarith
      then have "c div 4096 < 272" "256 \<le> c div 4096" using assms(1) by linarith+
      then show ?thesis by (rule mod_64(2) [rotated])
    qed
    show ?thesis
      using 4 q low high path_bytes_char_of [of "[0xF0 + c div 262144, 0x80 + c div 4096 mod 64, 0x80 + c div 64 mod 64, 0x80 + c mod 64]"]
        utf8_character(4) [of "of_nat (0xF0 + c div 262144)" "of_nat (0x80 + c div 4096 mod 64)" "of_nat (0x80 + c div 64 mod 64)" "of_nat (0x80 + c mod 64)"]
      by (simp add: utf8Encode_def bytes_of_def unat_byte del: of_nat_add)
  qed
qed

lemma hexValue_less: "hexValue b = Some d \<Longrightarrow> d < 16"
  by (auto simp: hexValue_def word_le_nat_alt split: if_splits)

lemma scanHex_less: "scanHex k u bs = Inr (v, rest) \<Longrightarrow> v < (u + 1) * 16 ^ k"
proof (induction k u bs rule: scanHex.induct)
  case (3 k u b bs)
  then obtain d where d: "hexValue b = Some d" "scanHex k (u * 16 + d) bs = Inr (v, rest)" by (auto split: option.splits)
  have "v < (u * 16 + d + 1) * 16 ^ k" by (rule 3(1) [OF d])
  also have "\<dots> \<le> ((u + 1) * 16) * 16 ^ k" using hexValue_less [OF d(1)] by (intro mult_right_mono) simp_all
  also have "\<dots> = (u + 1) * 16 ^ Suc k" by (simp only: power_Suc mult.assoc)
  finally show ?case .
qed auto

lemma scanUnicode_range:
  assumes "scanUnicode bs = Inr (c, rest)"
  shows "c < 0x110000" "\<not> (0xD800 \<le> c \<and> c \<le> 0xDFFF)"
  using assms by (auto simp: scanUnicode_def split: sum.splits if_splits dest!: scanHex_less)

lemma simpleEscape_ascii: "simpleEscape e = Some b \<Longrightarrow> b < 0x80"
  by (auto simp: simpleEscape_def split: if_splits)

lemma scanEscape_utf8:
  assumes "scanEscape bs = Inr (s, rest)"
  shows "utf8ValidateSlice s"
proof (cases "\<exists>cs. bs = 0x75 # cs")
  case True
  then obtain cs c where c: "scanUnicode cs = Inr (c, rest)" "s = path_bytes (utf8Encode c)"
    using assms by (auto simp: scanEscape_def split: sum.splits)
  show ?thesis unfolding c(2) using utf8Encode_valid [OF scanUnicode_range [OF c(1)]] .
next
  case False
  then obtain e b where "simpleEscape e = Some b" "s = [b]"
    using assms by (auto simp: scanEscape_def split: list.splits option.splits)
  then show ?thesis using simpleEscape_ascii by (simp add: utf8ValidateSlice.simps(2))
qed

lemma scanString_utf8: "scanString bs = Inr (s, rest) \<Longrightarrow> utf8ValidateSlice s"
proof (induction bs arbitrary: s rule: scanString.induct)
  case (2 b bs)
  show ?case
  proof (cases "b < 0x20 \<or> b = 0x22")
    case True
    then show ?thesis using 2(2) by (auto split: if_splits)
  next
    case False
    then obtain c r t where c: "(if b = 0x5C then scanEscape bs else scanCharacter b bs) = Inr (c, r)"
      "scanString r = Inr (t, rest)" "s = c @ t" using 2(2) by (auto split: sum.splits)
    have "utf8ValidateSlice c" using c(1) scanEscape_utf8 scanCharacter_utf8 by (auto split: if_splits)
    moreover have "utf8ValidateSlice t" using 2(1) [OF _ _ c(1) refl c(2)] False by blast
    ultimately show ?thesis unfolding c(3) by (rule utf8_append)
  qed
qed simp

text \<open>What is printed for a string is scanned back.\<close>

lemma hexValue_hexDigit: "n < 16 \<Longrightarrow> hexValue (hexDigit n) = Some n"
  by (auto simp: hexValue_def hexDigit_def word_le_nat_alt unat_byte simp del: of_nat_add)

lemma scanEscape_special:
  assumes "mustEscape b"
  shows "specialEscape b = 0x5C # tl (specialEscape b)" "scanEscape (tl (specialEscape b) @ rest) = Inr ([b], rest)"
proof -
  show "specialEscape b = 0x5C # tl (specialEscape b)" by (simp add: specialEscape_def)
  show "scanEscape (tl (specialEscape b) @ rest) = Inr ([b], rest)"
  proof (cases "b \<in> {0x5C, 0x22, 0x08, 0x0C, 0x0A, 0x0D, 0x09}")
    case True
    then show ?thesis by (elim insertE emptyE) (simp_all add: specialEscape_def scanEscape_def simpleEscape_def)
  next
    case False
    then have b: "unat b < 0x20" using assms by (auto simp: mustEscape_def word_less_nat_alt)
    then have "unat b div 16 < 16" "unat b mod 16 < 16" by simp_all
    note hex = this [THEN hexValue_hexDigit]
    have four: "(4 :: nat) = Suc (Suc (Suc (Suc 0)))" by simp
    have zero: "hexValue 0x30 = Some 0" by (simp add: hexValue_def)
    have "scanHex 4 0 ([0x30, 0x30, hexDigit (unat b div 16), hexDigit (unat b mod 16)] @ rest) = Inr (unat b, rest)"
      unfolding four by (simp add: hex zero)
    moreover have "utf8Encode (unat b) = [char_of (unat b)]" using b by (simp add: utf8Encode_def)
    then have "path_bytes (utf8Encode (unat b)) = [b]" using path_bytes_char_of [of "[unat b]"] by (simp add: bytes_of_def)
    ultimately show ?thesis using False b by (simp add: specialEscape_def scanEscape_def scanUnicode_def)
  qed
qed

lemma scanTail_high: "scanTail ranges bs = Inr (t, rest) \<Longrightarrow> tailRanges b = Some ranges \<Longrightarrow> \<forall>c \<in> set t. 0x80 \<le> c"
proof -
  have "\<forall>c \<in> set t. 0x80 \<le> c" if "scanTail ranges bs = Inr (t, rest)" "\<forall>r \<in> set ranges. 0x80 \<le> fst r" for ranges
    using that by (induction ranges bs arbitrary: t rule: scanTail.induct) (auto split: sum.splits if_splits)
  moreover have "\<forall>r \<in> set ranges. 0x80 \<le> fst r" if "tailRanges b = Some ranges"
    using that by (auto simp: tailRanges_def split: if_splits)
  ultimately show "scanTail ranges bs = Inr (t, rest) \<Longrightarrow> tailRanges b = Some ranges \<Longrightarrow> \<forall>c \<in> set t. 0x80 \<le> c" by blast
qed

lemma escape_high: "\<forall>c \<in> set t. 0x80 \<le> c \<Longrightarrow> concat (map escapeByte t) = t"
proof (induction t)
  case (Cons c t)
  then have "128 \<le> unat c" by (simp add: word_le_nat_alt)
  then have "\<not> mustEscape c" by (auto simp: mustEscape_def word_less_nat_alt)
  then show ?case using Cons by (simp add: escapeByte_def)
qed simp

lemma scanString_escaped:
  "utf8ValidateSlice s \<Longrightarrow> scanString (concat (map escapeByte s) @ 0x22 # rest) = Inr (s, rest)"
proof (induction s rule: utf8_induct)
  case (Cons b t s ranges)
  have "concat (map escapeByte t) = t" using escape_high scanTail_high [OF Cons(2) Cons(1)] by blast
  then have whole: "concat (map escapeByte (b # t @ s)) @ 0x22 # rest = escapeByte b @ t @ concat (map escapeByte s) @ 0x22 # rest"
    by simp
  show ?case
  proof (cases "mustEscape b")
    case True
    then have "b < 0x80" by (auto simp: mustEscape_def word_less_nat_alt)
    then have "t = []" using Cons(1) Cons(2) [of "[]"] by (simp add: tailRanges_def)
    moreover have "escapeByte b = 0x5C # tl (specialEscape b)"
      using True scanEscape_special(1) [OF True] by (simp add: escapeByte_def)
    ultimately show ?thesis unfolding whole
      using scanEscape_special(2) [OF True, of "concat (map escapeByte s) @ 0x22 # rest"] Cons(4) by simp
  next
    case False
    then have "\<not> b < 0x20" "b \<noteq> 0x22" "b \<noteq> 0x5C" by (auto simp: mustEscape_def)
    moreover have "escapeByte b = [b]" using False by (simp add: escapeByte_def)
    ultimately show ?thesis unfolding whole using Cons(1,2,4) by (simp add: scanCharacter_def)
  qed
qed simp

lemma skipWhitespace_Cons [simp]:
  "skipWhitespace (c # cs) = (if c = 0x20 \<or> c = 0x09 \<or> c = 0x0A \<or> c = 0x0D then skipWhitespace cs else c # cs)"
  "skipWhitespace [] = []"
  by (simp_all add: skipWhitespace_def)

lemma expectByte_Cons: "c \<noteq> 0x20 \<Longrightarrow> c \<noteq> 0x09 \<Longrightarrow> c \<noteq> 0x0A \<Longrightarrow> c \<noteq> 0x0D \<Longrightarrow> expectByte (c # cs) f = f c cs"
  by (simp add: expectByte_def)

lemma parseValue_string:
  assumes "utf8ValidateSlice s"
  shows "parseValue fp u (stringifyString s @ rest) = Some (Inr (Json_string s, rest))"
  using scanString_escaped [OF assms, of rest]
  by (subst parseValue_eq) (simp add: stringifyString_def expectByte_Cons parseScalar_def)

lemma parseValue_number:
  assumes "scanNumber s = Inr (s, [])" "parseFromNumberSlice fp s = Some v" "ends_number rest"
  shows "parseValue fp u (s @ rest) = Some (Inr (v, rest))"
proof -
  obtain c cs where s: "s = c # cs" using scanNumber_Inr [OF assms(1)] by (cases s) auto
  then have c: "c = 0x2D \<or> digitByte c"
    using assms(1) by (auto simp: scanNumber_def scanUnsigned_def scanDigits_def digitByte_def split: if_splits sum.splits)
  then have "c \<noteq> 0x20" "c \<noteq> 0x09" "c \<noteq> 0x0A" "c \<noteq> 0x0D" "c \<noteq> 0x7B" "c \<noteq> 0x5B" "c \<noteq> 0x22" "c \<noteq> 0x74" "c \<noteq> 0x66" "c \<noteq> 0x6E"
    by (auto simp: digitByte_def)
  then show ?thesis
    using c scanNumber_again [OF assms(1,3)] assms(2) unfolding s
    by (subst parseValue_eq) (auto simp: expectByte_Cons parseScalar_def)
qed

lemma parseValue_literal:
  "parseValue fp u ([0x74, 0x72, 0x75, 0x65] @ rest) = Some (Inr (Json_bool True, rest))"
  "parseValue fp u ([0x66, 0x61, 0x6C, 0x73, 0x65] @ rest) = Some (Inr (Json_bool False, rest))"
  "parseValue fp u ([0x6E, 0x75, 0x6C, 0x6C] @ rest) = Some (Inr (Json_null, rest))"
  by (subst parseValue_eq, simp add: expectByte_Cons parseScalar_def digitByte_def)+

section \<open>What the parser returns\<close>

lemma scanNumber_token: "scanNumber bs = Inr (s, rest) \<Longrightarrow> scanNumber s = Inr (s, [])"
  using scanNumber_again [of bs s rest "[]"] by (simp add: ends_number_def)

text \<open>
  \<open>std.fmt.parseFloat\<close> reads every number of the grammar, and the scanner gives it nothing else.
\<close>

definition reads_numbers :: "float_parser \<Rightarrow> bool" where
  "reads_numbers fp \<longleftrightarrow> (\<forall>s. scanNumber s = Inr (s, []) \<longrightarrow> (\<exists>x. parse_f64 fp s = Inr x) \<and> (\<exists>y. parse_f32 fp s = Inr y))"

lemma parseFromNumberSlice_Some:
  assumes "reads_numbers fp" "scanNumber bs = Inr (s, rest)"
  shows "parseFromNumberSlice fp s \<noteq> None"
  using assms(1) [unfolded reads_numbers_def, rule_format, OF scanNumber_token [OF assms(2)]]
    parseIntText_number [OF assms(2), of True 64]
  by (auto simp: parseFromNumberSlice_def split: sum.splits)

lemma parseFromNumberSlice_ok: "parseFromNumberSlice fp s = Some v \<Longrightarrow> json_ok v"
  by (auto simp: parseFromNumberSlice_def split: sum.splits if_splits)

text \<open>
  \<open>sound fp r\<close>: the call returns, if \<open>std.fmt.parseFloat\<close> reads numbers, and what it returns
  is a value that \<open>std.json\<close> promises.
\<close>

definition sound :: "float_parser \<Rightarrow> JsonValue scan \<Rightarrow> bool" where
  "sound fp r \<longleftrightarrow> (reads_numbers fp \<longrightarrow> r \<noteq> None) \<and> (\<forall>v rest. r = Some (Inr (v, rest)) \<longrightarrow> json_ok v)"

lemma sound_simps [simp]: "sound fp (Some (Inl e))" "sound fp (Some (Inr (v, rest))) \<longleftrightarrow> json_ok v"
  by (simp_all add: sound_def)

lemma sound_expectByte: "(\<And>c cs. length cs < length bs \<Longrightarrow> sound fp (f c cs)) \<Longrightarrow> sound fp (expectByte bs f)"
  using length_skipWhitespace [of bs] by (auto simp: expectByte_def split: list.splits)

lemma sound_trying:
  "(reads_numbers fp \<Longrightarrow> m \<noteq> None) \<Longrightarrow> (\<And>x. m = Some (Inr x) \<Longrightarrow> sound fp (f x)) \<Longrightarrow> sound fp (trying m f)"
  by (cases m; cases "the m") (auto simp: sound_def)

lemma sound_scalar: "sound fp (parseScalar fp c cs)"
proof -
  have number: "sound fp (map_option (\<lambda>v. Inr (v, rest)) (parseFromNumberSlice fp s))" if "scanNumber (c # cs) = Inr (s, rest)" for s rest
    using parseFromNumberSlice_Some [OF _ that] by (auto simp: sound_def dest: parseFromNumberSlice_ok)
  show ?thesis unfolding parseScalar_def
    by (auto intro!: sound_trying number dest: scanString_utf8)
qed

abbreviation entries_ok :: "(bytes \<times> JsonValue) list \<Rightarrow> bool" where
  "entries_ok entries \<equiv> json_ok (Json_object entries)"

lemma putMember_ok:
  assumes "putMember u entries key v = Inr entries'" "entries_ok entries" "utf8ValidateSlice key" "json_ok v"
  shows "entries_ok entries'"
proof -
  have "map fst (map (\<lambda>(k, w). (k, if k = key then v else w)) entries) = map fst entries" by (auto simp: comp_def)
  then show ?thesis using assms by (fastforce simp: putMember_def list_all_iff simp del: map_map split: if_splits)
qed

lemma sound_parse:
  "sound fp (parseValue fp u bs)"
  "entries_ok entries \<Longrightarrow> sound fp (parseMembers fp u entries bs)"
  "list_all json_ok items \<Longrightarrow> sound fp (parseItems fp u items bs)"
proof (induction "length bs" arbitrary: bs entries items rule: less_induct)
  case less
  have scalars: "sound fp (parseValue fp u bs)"
  proof (subst parseValue_eq, intro sound_expectByte)
    fix c :: byte and cs :: bytes
    assume "length cs < length bs"
    then have "sound fp (parseMembers fp u [] cs)" "sound fp (parseItems fp u [] cs)" using less [of cs] by simp_all
    then show "sound fp (if c = 0x7B then expectByte cs (\<lambda>d ds. if d = 0x7D then Some (Inr (Json_object [], ds)) else parseMembers fp u [] cs)
        else if c = 0x5B then expectByte cs (\<lambda>d ds. if d = 0x5D then Some (Inr (Json_array [], ds)) else parseItems fp u [] cs)
        else parseScalar fp c cs)"
      using sound_scalar by (auto intro!: sound_expectByte)
  qed
  then have total: "reads_numbers fp \<Longrightarrow> parseValue fp u bs \<noteq> None" and ok: "parseValue fp u bs = Some (Inr (v, rest)) \<Longrightarrow> json_ok v" for v rest
    by (auto simp: sound_def)
  {
    case 1
    show ?case by (rule scalars)
  next
    case 2
    have member: "sound fp (expectByte rest' (\<lambda>c cs. if c = 0x2C then parseMembers fp u entries' cs
        else if c = 0x7D then Some (Inr (Json_object entries', cs)) else Some (Inl SyntaxError)))"
      if "length rest' < length bs" "entries_ok entries'" for rest' entries'
      using that less(2) [of _ entries'] by (auto intro!: sound_expectByte)
    have colon: "sound fp (expectByte rest (\<lambda>c cs.
          if c \<noteq> 0x3A then Some (Inl SyntaxError)
          else trying (parseValue fp u cs) (\<lambda>(v, rest).
            trying (Some (putMember u entries key v)) (\<lambda>entries. expectByte rest (\<lambda>c cs.
              if c = 0x2C then parseMembers fp u entries cs
              else if c = 0x7D then Some (Inr (Json_object entries, cs))
              else Some (Inl SyntaxError))))))"
      if key: "scanString cs = Inr (key, rest)" and cs: "length cs < length bs" for cs key rest
    proof (rule sound_expectByte)
      fix d :: byte and ds :: bytes
      assume ds: "length ds < length rest"
      have "length ds < length bs" using scanString_shorter [OF key] cs ds by simp
      then have parse: "sound fp (parseValue fp u ds)" using less(1) by blast
      have "entries_ok entries'" "length rest' < length bs"
        if "parseValue fp u ds = Some (Inr (v, rest'))" "putMember u entries key v = Inr entries'" for v rest' entries'
        using putMember_ok [OF that(2) 2 scanString_utf8 [OF key]] parse parse_progress' [OF that(1)] that(1) \<open>length ds < length bs\<close>
        by (auto simp: sound_def)
      then show "sound fp (if d \<noteq> 0x3A then Some (Inl SyntaxError)
          else trying (parseValue fp u ds) (\<lambda>(v, rest).
            trying (Some (putMember u entries key v)) (\<lambda>entries. expectByte rest (\<lambda>c cs.
              if c = 0x2C then parseMembers fp u entries cs
              else if c = 0x7D then Some (Inr (Json_object entries, cs))
              else Some (Inl SyntaxError)))))"
        using parse by (auto intro!: sound_trying member simp: sound_def [of fp "parseValue fp u ds"])
    qed
    show ?case
    proof (subst parseMembers_eq, intro sound_expectByte)
      fix c :: byte and cs :: bytes
      assume cs: "length cs < length bs"
      show "sound fp (if c \<noteq> 0x22 then Some (Inl SyntaxError)
        else trying (Some (scanString cs)) (\<lambda>(key, rest). expectByte rest (\<lambda>c cs.
          if c \<noteq> 0x3A then Some (Inl SyntaxError)
          else trying (parseValue fp u cs) (\<lambda>(v, rest).
            trying (Some (putMember u entries key v)) (\<lambda>entries. expectByte rest (\<lambda>c cs.
              if c = 0x2C then parseMembers fp u entries cs
              else if c = 0x7D then Some (Inr (Json_object entries, cs))
              else Some (Inl SyntaxError)))))))"
        by (auto intro!: sound_trying colon [OF _ cs])
    qed
  next
    case 3
    have item: "sound fp (expectByte rest (\<lambda>c cs. if c = 0x2C then parseItems fp u (items @ [v]) cs
        else if c = 0x5D then Some (Inr (Json_array (items @ [v]), cs)) else Some (Inl SyntaxError)))"
      if "parseValue fp u bs = Some (Inr (v, rest))" for v rest
      using ok [OF that] parse_progress' [OF that] 3 less(3) [of _ "items @ [v]"] by (auto intro!: sound_expectByte)
    show ?case by (subst parseItems_eq, rule sound_trying, erule total) (auto intro: item)
  }
qed

lemma parseFromSlice_ok: "parseFromSlice fp u s = Some (Inr v) \<Longrightarrow> json_ok v"
  using sound_parse(1) [of fp u s] by (auto simp: parseFromSlice_def trying_Some sound_def split: if_splits)

lemma parseFromSlice_returns: "reads_numbers fp \<Longrightarrow> parseFromSlice fp u s \<noteq> None"
  using sound_parse(1) [of fp u s] by (auto simp: parseFromSlice_def trying_None sound_def split: if_splits)

end
