(* ===== verification/Wkt_FromJson.thy ===== *)
theory Wkt_FromJson
  imports Wkt_Json Wkt_Struct Wkt_Wrapper Wkt_Any Base64 Json_Facts
begin

text \<open>
  How \<open>src/wkt.zig\<close> converts a parsed JSON text, a value of \<open>std.json\<close>, to its messages: to
  \<open>Value\<close>, \<open>Struct\<close> and \<open>ListValue\<close>, to \<open>Empty\<close> and the wrappers, to the messages with a text form,
  and to \<open>Any\<close>, which looks up the type its URL names and encodes the value as that message.
  \<open>std.fmt.parseFloat\<close> is a parameter. Copies of strings and trees are never refused
  memory here; the memory of the \<open>Writer\<close>s may be.
\<close>

section \<open>Value, Struct, ListValue\<close>

fun valueFromJsonValue :: "float_parser \<Rightarrow> JsonValue \<Rightarrow> wkt_error + Value"
and structFieldsFromJson :: "float_parser \<Rightarrow> (bytes \<times> JsonValue) list \<Rightarrow> wkt_error + Struct"
and valuesFromJson :: "float_parser \<Rightarrow> JsonValue list \<Rightarrow> wkt_error + ListValue" where
  "valueFromJsonValue fp Json_null = Inr Null_value"
| "valueFromJsonValue fp (Json_bool v) = Inr (Bool_value v)"
| "valueFromJsonValue fp (Json_integer v) = Inr (Number_value (f64_of_int (sint v)))"
| "valueFromJsonValue fp (Json_float v) = (if \<not> isFinite v then Inl InvalidNumber else Inr (Number_value v))"
| "valueFromJsonValue fp (Json_number_string v) = (case parse_f64 fp v of
       Inl e \<Rightarrow> Inl e
     | Inr parsed \<Rightarrow> if \<not> isFinite parsed then Inl InvalidNumber else Inr (Number_value parsed))"
| "valueFromJsonValue fp (Json_string v) = Inr (String_value v)"
| "valueFromJsonValue fp (Json_object entries) = (case structFieldsFromJson fp entries of
       Inl e \<Rightarrow> Inl e
     | Inr fs \<Rightarrow> Inr (Struct_value fs))"
| "valueFromJsonValue fp (Json_array items) = (case valuesFromJson fp items of
       Inl e \<Rightarrow> Inl e
     | Inr vs \<Rightarrow> Inr (List_value vs))"
| "structFieldsFromJson fp [] = Inr []"
| "structFieldsFromJson fp ((key, v) # entries) = (case valueFromJsonValue fp v of
       Inl e \<Rightarrow> Inl e
     | Inr value \<Rightarrow> (case structFieldsFromJson fp entries of Inl e \<Rightarrow> Inl e | Inr fs \<Rightarrow> Inr ((key, value) # fs)))"
| "valuesFromJson fp [] = Inr []"
| "valuesFromJson fp (v # items) = (case valueFromJsonValue fp v of
       Inl e \<Rightarrow> Inl e
     | Inr value \<Rightarrow> (case valuesFromJson fp items of Inl e \<Rightarrow> Inl e | Inr vs \<Rightarrow> Inr (value # vs)))"

fun structFromJsonValue :: "float_parser \<Rightarrow> JsonValue \<Rightarrow> wkt_error + Struct" where
  "structFromJsonValue fp (Json_object entries) = structFieldsFromJson fp entries"
| "structFromJsonValue fp _ = Inl TypeMismatch"

fun listValueFromJsonValue :: "float_parser \<Rightarrow> JsonValue \<Rightarrow> wkt_error + ListValue" where
  "listValueFromJsonValue fp (Json_array items) = valuesFromJson fp items"
| "listValueFromJsonValue fp _ = Inl TypeMismatch"

section \<open>Empty and the wrappers\<close>

fun emptyFromJsonValue :: "JsonValue \<Rightarrow> wkt_error + unit" where
  "emptyFromJsonValue (Json_object entries) = (if length entries \<noteq> 0 then Inl UnknownField else Inr ())"
| "emptyFromJsonValue _ = Inl TypeMismatch"

definition parseWrapperIntText :: "float_parser \<Rightarrow> bool \<Rightarrow> nat \<Rightarrow> bytes \<Rightarrow> (wkt_error + int) option" where
  "parseWrapperIntText fp is_signed bits v = (case parseIntText is_signed bits v of
       Inr n \<Rightarrow> Some (Inr n)
     | Inl e \<Rightarrow>
         if e = InvalidCharacter then
           (case parse_f64 fp v of Inl e \<Rightarrow> Some (Inl e) | Inr parsed \<Rightarrow> wrapperFloatAsInt is_signed bits parsed)
         else Some (Inl e))"

fun parseWrapperInt :: "float_parser \<Rightarrow> bool \<Rightarrow> nat \<Rightarrow> JsonValue \<Rightarrow> (wkt_error + int) option" where
  "parseWrapperInt fp is_signed bits (Json_integer v) =
     (if int_range is_signed bits (sint v) then Some (Inr (sint v)) else Some (Inl Overflow))"
| "parseWrapperInt fp is_signed bits (Json_float v) = wrapperFloatAsInt is_signed bits v"
| "parseWrapperInt fp is_signed bits (Json_number_string v) = parseWrapperIntText fp is_signed bits v"
| "parseWrapperInt fp is_signed bits (Json_string v) = Some (parseIntText is_signed bits v)"
| "parseWrapperInt fp is_signed bits _ = Some (Inl TypeMismatch)"

text \<open>\<open>parseWrapperSpecialFloat\<close> at the two float types: the bits of NaN and of the infinities.\<close>

definition parseWrapperSpecialFloat :: "'a \<Rightarrow> 'a \<Rightarrow> 'a \<Rightarrow> bytes \<Rightarrow> 'a option" where
  "parseWrapperSpecialFloat nan_bits inf_bits minus_inf_bits v =
     (if v = path_bytes ''NaN'' then Some nan_bits
      else if v = path_bytes ''Infinity'' then Some inf_bits
      else if v = path_bytes ''-Infinity'' then Some minus_inf_bits
      else None)"

definition specialDouble :: "bytes \<Rightarrow> u64 option" where
  "specialDouble = parseWrapperSpecialFloat 0x7FF8000000000000 0x7FF0000000000000 0xFFF0000000000000"

definition specialFloat :: "bytes \<Rightarrow> u32 option" where
  "specialFloat = parseWrapperSpecialFloat 0x7FC00000 0x7F800000 0xFF800000"

fun parseWrapperDouble :: "float_parser \<Rightarrow> JsonValue \<Rightarrow> wkt_error + u64" where
  "parseWrapperDouble fp (Json_float v) = Inr v"
| "parseWrapperDouble fp (Json_integer v) = Inr (f64_of_int (sint v))"
| "parseWrapperDouble fp (Json_number_string v) = (case specialDouble v of Some x \<Rightarrow> Inr x | None \<Rightarrow> parse_f64 fp v)"
| "parseWrapperDouble fp (Json_string v) = (case specialDouble v of Some x \<Rightarrow> Inr x | None \<Rightarrow> parse_f64 fp v)"
| "parseWrapperDouble fp _ = Inl TypeMismatch"

fun parseWrapperSingle :: "float_parser \<Rightarrow> JsonValue \<Rightarrow> wkt_error + u32" where
  "parseWrapperSingle fp (Json_float v) = Inr (f32_of_f64 v)"
| "parseWrapperSingle fp (Json_integer v) = Inr (f32_of_int (sint v))"
| "parseWrapperSingle fp (Json_number_string v) = (case specialFloat v of Some x \<Rightarrow> Inr x | None \<Rightarrow> parse_f32 fp v)"
| "parseWrapperSingle fp (Json_string v) = (case specialFloat v of Some x \<Rightarrow> Inr x | None \<Rightarrow> parse_f32 fp v)"
| "parseWrapperSingle fp _ = Inl TypeMismatch"

abbreviation mapping :: "('a \<Rightarrow> 'b) \<Rightarrow> ('e, 'a) outcome \<Rightarrow> ('e, 'b) outcome" where
  "mapping f m \<equiv> trying m (\<lambda>x. Some (Inr (f x)))"

fun parseWrapperJsonValue :: "float_parser \<Rightarrow> WrapperScalar \<Rightarrow> JsonValue \<Rightarrow> (wkt_error, Wrapper) outcome" where
  "parseWrapperJsonValue fp Scalar_double v = mapping Wrap_double (Some (parseWrapperDouble fp v))"
| "parseWrapperJsonValue fp Scalar_float v = mapping Wrap_float (Some (parseWrapperSingle fp v))"
| "parseWrapperJsonValue fp Scalar_int64 v = mapping (\<lambda>n. Wrap_int64 (word_of_int n)) (parseWrapperInt fp True 64 v)"
| "parseWrapperJsonValue fp Scalar_uint64 v = mapping (\<lambda>n. Wrap_uint64 (word_of_int n)) (parseWrapperInt fp False 64 v)"
| "parseWrapperJsonValue fp Scalar_int32 v = mapping (\<lambda>n. Wrap_int32 (word_of_int n)) (parseWrapperInt fp True 32 v)"
| "parseWrapperJsonValue fp Scalar_uint32 v = mapping (\<lambda>n. Wrap_uint32 (word_of_int n)) (parseWrapperInt fp False 32 v)"
| "parseWrapperJsonValue fp Scalar_bool v = (case v of Json_bool b \<Rightarrow> Some (Inr (Wrap_bool b)) | _ \<Rightarrow> Some (Inl TypeMismatch))"
| "parseWrapperJsonValue fp Scalar_string v = (case v of Json_string s \<Rightarrow> Some (Inr (Wrap_string s)) | _ \<Rightarrow> Some (Inl TypeMismatch))"
| "parseWrapperJsonValue fp Scalar_bytes v = (case v of
       Json_string s \<Rightarrow> mapping Wrap_bytes (decodeBase64 s)
     | _ \<Rightarrow> Some (Inl TypeMismatch))"

definition wrapperFromJsonValue :: "float_parser \<Rightarrow> WrapperScalar \<Rightarrow> JsonValue \<Rightarrow> (wkt_error, Wrapper) outcome" where
  "wrapperFromJsonValue fp scalar v =
     (if v = Json_null then Some (Inr (defaultWrapperValue scalar)) else parseWrapperJsonValue fp scalar v)"

section \<open>Messages with a text form\<close>

fun textFromJson :: "JsonValue \<Rightarrow> wkt_error + string" where
  "textFromJson (Json_string text) = Inr (bytes_path text)"
| "textFromJson _ = Inl TypeMismatch"

definition fieldMaskFromJsonValue :: "JsonValue \<Rightarrow> wkt_error + FieldMask" where
  "fieldMaskFromJsonValue v = (case textFromJson v of Inl e \<Rightarrow> Inl e | Inr text \<Rightarrow> FieldMask_jsonParse text)"

text \<open>A call of a function without state.\<close>

definition liftOutcome :: "('e, 'a) outcome \<Rightarrow> ('s, 'e, 'a) op" where
  "liftOutcome m = (\<lambda>s. map_option (\<lambda>r. (r, s)) m)"

definition timestampJsonValueToBytes :: "JsonValue \<Rightarrow> bytes encoding" where
  "timestampJsonValueToBytes v =
     tryIn (liftSum (textFromJson v)) (\<lambda>text. tryIn (liftOutcome (Timestamp_jsonParse text)) Timestamp_encode)"

definition durationJsonValueToBytes :: "JsonValue \<Rightarrow> bytes encoding" where
  "durationJsonValueToBytes v =
     tryIn (liftSum (textFromJson v)) (\<lambda>text. tryIn (liftOutcome (Duration_jsonParse text)) Duration_encode)"

definition wrapperJsonValueToBytes :: "float_parser \<Rightarrow> WrapperScalar \<Rightarrow> JsonValue \<Rightarrow> bytes encoding" where
  "wrapperJsonValueToBytes fp scalar v = tryIn (liftOutcome (wrapperFromJsonValue fp scalar v)) Wrapper_encode"

section \<open>The types that Any knows\<close>

datatype AnyWellKnownKind = Kind_timestamp | Kind_duration | Kind_field_mask | Kind_any | Kind_empty
  | Kind_struct | Kind_value | Kind_list_value | Kind_double_value | Kind_float_value | Kind_int64_value
  | Kind_uint64_value | Kind_int32_value | Kind_uint32_value | Kind_bool_value | Kind_string_value | Kind_bytes_value

definition wellKnownNames :: "(string \<times> AnyWellKnownKind) list" where
  "wellKnownNames =
    [(''google.protobuf.Timestamp'', Kind_timestamp),
     (''google.protobuf.Duration'', Kind_duration),
     (''google.protobuf.FieldMask'', Kind_field_mask),
     (''google.protobuf.Any'', Kind_any),
     (''google.protobuf.Empty'', Kind_empty),
     (''google.protobuf.Struct'', Kind_struct),
     (''google.protobuf.Value'', Kind_value),
     (''google.protobuf.ListValue'', Kind_list_value),
     (''google.protobuf.DoubleValue'', Kind_double_value),
     (''google.protobuf.FloatValue'', Kind_float_value),
     (''google.protobuf.Int64Value'', Kind_int64_value),
     (''google.protobuf.UInt64Value'', Kind_uint64_value),
     (''google.protobuf.Int32Value'', Kind_int32_value),
     (''google.protobuf.UInt32Value'', Kind_uint32_value),
     (''google.protobuf.BoolValue'', Kind_bool_value),
     (''google.protobuf.StringValue'', Kind_string_value),
     (''google.protobuf.BytesValue'', Kind_bytes_value)]"

definition anyWellKnownKind :: "bytes \<Rightarrow> AnyWellKnownKind option" where
  "anyWellKnownKind type_name = map_of wellKnownNames (bytes_path (withoutDot type_name))"

text \<open>
  The message of a JSON value that names the type of its value: \<open>@type\<close> and \<open>value\<close> and no other
  members. A type that is not known takes its bytes in base64, and without a value it is
  empty; a known type needs a value, unless it is \<open>Empty\<close>.
\<close>

function anyWellKnownJsonValueToBytes :: "float_parser \<Rightarrow> bytes \<Rightarrow> JsonValue \<Rightarrow> bytes option encoding"
and anyFromJsonValue :: "float_parser \<Rightarrow> JsonValue \<Rightarrow> Any_message encoding" where
  "anyWellKnownJsonValueToBytes fp type_name v = (case anyWellKnownKind type_name of
       None \<Rightarrow> return None
     | Some kind \<Rightarrow> tryIn (case kind of
           Kind_timestamp \<Rightarrow> timestampJsonValueToBytes v
         | Kind_duration \<Rightarrow> durationJsonValueToBytes v
         | Kind_field_mask \<Rightarrow> tryIn (liftSum (fieldMaskFromJsonValue v)) FieldMask_encode
         | Kind_any \<Rightarrow> tryIn (anyFromJsonValue fp v) Any_encode
         | Kind_empty \<Rightarrow> tryIn (liftSum (emptyFromJsonValue v)) (\<lambda>_. Empty_encode)
         | Kind_struct \<Rightarrow> tryIn (liftSum (structFromJsonValue fp v)) Struct_encode
         | Kind_value \<Rightarrow> tryIn (liftSum (valueFromJsonValue fp v)) Value_encode
         | Kind_list_value \<Rightarrow> tryIn (liftSum (listValueFromJsonValue fp v)) ListValue_encode
         | Kind_double_value \<Rightarrow> wrapperJsonValueToBytes fp Scalar_double v
         | Kind_float_value \<Rightarrow> wrapperJsonValueToBytes fp Scalar_float v
         | Kind_int64_value \<Rightarrow> wrapperJsonValueToBytes fp Scalar_int64 v
         | Kind_uint64_value \<Rightarrow> wrapperJsonValueToBytes fp Scalar_uint64 v
         | Kind_int32_value \<Rightarrow> wrapperJsonValueToBytes fp Scalar_int32 v
         | Kind_uint32_value \<Rightarrow> wrapperJsonValueToBytes fp Scalar_uint32 v
         | Kind_bool_value \<Rightarrow> wrapperJsonValueToBytes fp Scalar_bool v
         | Kind_string_value \<Rightarrow> wrapperJsonValueToBytes fp Scalar_string v
         | Kind_bytes_value \<Rightarrow> wrapperJsonValueToBytes fp Scalar_bytes v) (\<lambda>bs. return (Some bs)))"
| "anyFromJsonValue fp v = (case v of
       Json_object entries \<Rightarrow>
         if \<not> list_all (\<lambda>(key, _). key = path_bytes ''@type'' \<or> key = path_bytes ''value'') entries then throw UnknownField
         else (case map_of entries (path_bytes ''@type'') of
             Some (Json_string type_url) \<Rightarrow>
               if type_url = [] \<or> anyTypeName type_url = [] then throw TypeMismatch
               else (case map_of entries (path_bytes ''value'') of
                   Some value_json \<Rightarrow>
                     tryIn (anyWellKnownJsonValueToBytes fp (anyTypeName type_url) value_json) (\<lambda>known.
                     tryIn (case known of
                         Some bs \<Rightarrow> return bs
                       | None \<Rightarrow> (case value_json of
                             Json_string encoded \<Rightarrow> liftOutcome (decodeBase64 encoded)
                           | _ \<Rightarrow> throw TypeMismatch)) (\<lambda>owned_value.
                     return \<lparr>any_type_url = type_url, any_payload = owned_value\<rparr>))
                 | None \<Rightarrow> (case anyWellKnownKind (anyTypeName type_url) of
                       None \<Rightarrow> return \<lparr>any_type_url = type_url, any_payload = []\<rparr>
                     | Some Kind_empty \<Rightarrow> tryIn Empty_encode (\<lambda>owned_value. return \<lparr>any_type_url = type_url, any_payload = owned_value\<rparr>)
                     | Some _ \<Rightarrow> throw TypeMismatch))
           | _ \<Rightarrow> throw TypeMismatch)
     | _ \<Rightarrow> throw TypeMismatch)"
  by pat_completeness auto
termination
  by (relation "inv_image (less_than <*lex*> less_than)
      (case_sum (\<lambda>(_, _, v). (size v, 1 :: nat)) (\<lambda>(_, v). (size v, 0)))")
    (auto dest: size_member)

declare anyWellKnownJsonValueToBytes.simps [simp del] anyFromJsonValue.simps [simp del]

section \<open>The message a JSON value stands for\<close>

datatype Known_message = Timestamp_message Timestamp | Duration_message Duration | Mask_message FieldMask
  | Any_message Any_message | Empty_message | Struct_message Struct | Value_message Value | List_message ListValue
  | Wrapper_message Wrapper

text \<open>The decoder of each kind, as \<open>writeAnyWellKnownJsonValue\<close> calls them.\<close>

fun wrapper_scalar :: "AnyWellKnownKind \<Rightarrow> WrapperScalar option" where
  "wrapper_scalar Kind_double_value = Some Scalar_double"
| "wrapper_scalar Kind_float_value = Some Scalar_float"
| "wrapper_scalar Kind_int64_value = Some Scalar_int64"
| "wrapper_scalar Kind_uint64_value = Some Scalar_uint64"
| "wrapper_scalar Kind_int32_value = Some Scalar_int32"
| "wrapper_scalar Kind_uint32_value = Some Scalar_uint32"
| "wrapper_scalar Kind_bool_value = Some Scalar_bool"
| "wrapper_scalar Kind_string_value = Some Scalar_string"
| "wrapper_scalar Kind_bytes_value = Some Scalar_bytes"
| "wrapper_scalar _ = None"

fun decodeKnown :: "AnyWellKnownKind \<Rightarrow> bytes \<Rightarrow> (wkt_error, Known_message) outcome" where
  "decodeKnown Kind_timestamp bs = mapping Timestamp_message (Timestamp_decode bs)"
| "decodeKnown Kind_duration bs = mapping Duration_message (Duration_decode bs)"
| "decodeKnown Kind_field_mask bs = mapping Mask_message (FieldMask_decode bs)"
| "decodeKnown Kind_any bs = mapping Any_message (Any_decode bs)"
| "decodeKnown Kind_empty bs = mapping (\<lambda>_. Empty_message) (Empty_decode bs)"
| "decodeKnown Kind_struct bs = mapping Struct_message (Struct_decode bs)"
| "decodeKnown Kind_value bs = mapping Value_message (Value_decode bs)"
| "decodeKnown Kind_list_value bs = mapping List_message (ListValue_decode bs)"
| "decodeKnown kind bs = mapping Wrapper_message (Wrapper_decode (the (wrapper_scalar kind)) bs)"

text \<open>The bytes of a message, without a \<open>Writer\<close>.\<close>

fun known_enc :: "Known_message \<Rightarrow> bytes" where
  "known_enc (Timestamp_message t) = time_enc t"
| "known_enc (Duration_message t) = time_enc t"
| "known_enc (Mask_message m) = concat (map path_enc m)"
| "known_enc (Any_message a) = Any_enc a"
| "known_enc Empty_message = []"
| "known_enc (Struct_message fs) = Struct_enc fs"
| "known_enc (Value_message v) = Value_enc v"
| "known_enc (List_message vs) = ListValue_enc vs"
| "known_enc (Wrapper_message w) = tag_enc 1 (wrapper_wire (scalar_of w)) @ wrapper_enc w"

text \<open>
  The message a JSON value stands for as a message of a kind, without encoding it; inside an
  \<open>Any\<close>, the payload is the encoding of the message its value stands for.
\<close>

function json_message :: "float_parser \<Rightarrow> AnyWellKnownKind \<Rightarrow> JsonValue \<Rightarrow> (wkt_error, Known_message) outcome"
and json_any :: "float_parser \<Rightarrow> JsonValue \<Rightarrow> (wkt_error, Any_message) outcome" where
  "json_message fp kind v = (case kind of
       Kind_timestamp \<Rightarrow> mapping Timestamp_message (trying (Some (textFromJson v)) Timestamp_jsonParse)
     | Kind_duration \<Rightarrow> mapping Duration_message (trying (Some (textFromJson v)) Duration_jsonParse)
     | Kind_field_mask \<Rightarrow> mapping Mask_message (Some (fieldMaskFromJsonValue v))
     | Kind_any \<Rightarrow> mapping Any_message (json_any fp v)
     | Kind_empty \<Rightarrow> mapping (\<lambda>_. Empty_message) (Some (emptyFromJsonValue v))
     | Kind_struct \<Rightarrow> mapping Struct_message (Some (structFromJsonValue fp v))
     | Kind_value \<Rightarrow> mapping Value_message (Some (valueFromJsonValue fp v))
     | Kind_list_value \<Rightarrow> mapping List_message (Some (listValueFromJsonValue fp v))
     | _ \<Rightarrow> mapping Wrapper_message (wrapperFromJsonValue fp (the (wrapper_scalar kind)) v))"
| "json_any fp v = (case v of
       Json_object entries \<Rightarrow>
         if \<not> fst ` set entries \<subseteq> {path_bytes ''@type'', path_bytes ''value''} then Some (Inl UnknownField)
         else (case map_of entries (path_bytes ''@type'') of
             Some (Json_string type_url) \<Rightarrow>
               (if anyTypeName type_url = [] then Some (Inl TypeMismatch)
                else mapping (\<lambda>payload. \<lparr>any_type_url = type_url, any_payload = payload\<rparr>)
                  (case map_of entries (path_bytes ''value'') of
                     Some value_json \<Rightarrow> (case anyWellKnownKind (anyTypeName type_url) of
                         Some kind \<Rightarrow> mapping known_enc (json_message fp kind value_json)
                       | None \<Rightarrow> (case value_json of Json_string encoded \<Rightarrow> decodeBase64 encoded | _ \<Rightarrow> Some (Inl TypeMismatch)))
                   | None \<Rightarrow>
                       if anyWellKnownKind (anyTypeName type_url) \<in> {None, Some Kind_empty} then Some (Inr [])
                       else Some (Inl TypeMismatch)))
           | _ \<Rightarrow> Some (Inl TypeMismatch))
     | _ \<Rightarrow> Some (Inl TypeMismatch))"
  by pat_completeness auto
termination
  by (relation "inv_image (less_than <*lex*> less_than)
      (case_sum (\<lambda>(_, _, v). (size v, 1 :: nat)) (\<lambda>(_, v). (size v, 0)))")
    (auto dest: size_member size_member [OF sym])

declare json_message.simps [simp del] json_any.simps [simp del]

text \<open>The messages whose encoders succeed, memory permitting, and whose encoding they return.\<close>

fun known_ok :: "Known_message \<Rightarrow> bool" where
  "known_ok (Timestamp_message t) = (Timestamp_validate t = Inr ())"
| "known_ok (Duration_message t) = (Duration_validate t = Inr ())"
| "known_ok (Mask_message m) = (FieldMask_validate m = Inr ())"
| "known_ok (Any_message a) = utf8ValidateSlice (any_type_url a)"
| "known_ok Empty_message = True"
| "known_ok (Struct_message fs) = wellformed (Struct_value fs)"
| "known_ok (Value_message v) = wellformed v"
| "known_ok (List_message vs) = wellformed (List_value vs)"
| "known_ok (Wrapper_message w) = wrapper_ok w"

section \<open>The messages are well-formed\<close>

lemma isFinite_i64: "isFinite (f64_of_int (sint (v :: i64)))"
proof (rule f64_of_int_finite)
  show "\<bar>sint v\<bar> < 2 ^ 64" using sint_range_size [of v] by (simp add: word_size abs_less_iff)
qed

lemma valueFromJson_wellformed:
  "valueFromJsonValue fp v = Inr x \<Longrightarrow> json_ok v \<Longrightarrow> wellformed x"
  "structFieldsFromJson fp es = Inr fs \<Longrightarrow> list_all (\<lambda>f. utf8ValidateSlice (fst f) \<and> json_ok (snd f)) es \<Longrightarrow>
     map fst fs = map fst es \<and> list_all (\<lambda>f. utf8ValidateSlice (fst f) \<and> wellformed (snd f)) fs"
  "valuesFromJson fp items = Inr vs \<Longrightarrow> list_all json_ok items \<Longrightarrow> list_all wellformed vs"
  by (induction fp v and fp es and fp items arbitrary: x and fs and vs
      rule: valueFromJsonValue_structFieldsFromJson_valuesFromJson.induct)
    (auto simp: isFinite_i64 split: sum.splits if_splits)

lemma FieldMask_jsonParse_valid: "FieldMask_jsonParse camel = Inr m \<Longrightarrow> FieldMask_validate m = Inr ()"
  by (auto simp: FieldMask_jsonParse_def dest: parsePaths_Inr split: sum.splits if_splits)

lemma mapping_Some:
  "mapping f m = None \<longleftrightarrow> m = None" "mapping f m = Some (Inl e) \<longleftrightarrow> m = Some (Inl e)"
  "mapping f m = Some (Inr y) \<longleftrightarrow> (\<exists>x. m = Some (Inr x) \<and> y = f x)"
  by (auto simp: trying_def split: option.splits sum.splits)

lemma parseWrapperJsonValue_ok:
  assumes "parseWrapperJsonValue fp scalar v = Some (Inr w)" "json_ok v"
  shows "wrapper_ok w \<and> scalar_of w = scalar"
  using assms by (cases scalar; cases v) (auto simp: wrapper_ok_def trying_Some)

lemma wrapperFromJsonValue_ok:
  assumes "wrapperFromJsonValue fp scalar v = Some (Inr w)" "json_ok v"
  shows "wrapper_ok w \<and> scalar_of w = scalar"
proof (cases "v = Json_null")
  case True
  then show ?thesis using assms(1) by (cases scalar) (auto simp: wrapperFromJsonValue_def wrapper_ok_def)
qed (use assms parseWrapperJsonValue_ok in \<open>auto simp: wrapperFromJsonValue_def\<close>)

section \<open>Converting and encoding\<close>

text \<open>
  \<open>yields m small g op\<close>: the operation \<open>op\<close> converts as \<open>m\<close> does, with the same panic and the same
  error, and a message \<open>x\<close> that is small enough is encoded as \<open>g x\<close>.
\<close>

definition yields :: "(wkt_error, 'a) outcome \<Rightarrow> ('a \<Rightarrow> bool) \<Rightarrow> ('a \<Rightarrow> 'b) \<Rightarrow> 'b encoding \<Rightarrow> bool" where
  "yields m small g op \<longleftrightarrow>
     (m = None \<longrightarrow> (\<forall>al. op al = None)) \<and> (\<forall>e. m = Some (Inl e) \<longrightarrow> (\<forall>al. op al = Some (Inl e, al))) \<and>
     (\<forall>x. m = Some (Inr x) \<longrightarrow> small x \<longrightarrow> encodes True op (g x))"

lemma yields_cases:
  "yields None small g op \<longleftrightarrow> (\<forall>al. op al = None)"
  "yields (Some (Inl e)) small g op \<longleftrightarrow> (\<forall>al. op al = Some (Inl e, al))"
  "yields (Some (Inr x)) small g op \<longleftrightarrow> (small x \<longrightarrow> encodes True op (g x))"
  by (auto simp: yields_def)

lemma yields_liftOutcome:
  assumes "\<And>x. m = Some (Inr x) \<Longrightarrow> small x \<Longrightarrow> encodes True (enc x) (g x)"
  shows "yields m small g (tryIn (liftOutcome m) enc)"
  using assms by (auto simp: yields_def liftOutcome_def tryIn_def encodes_def split: option.splits sum.splits)

lemma liftSum_liftOutcome: "liftSum r = liftOutcome (Some r)"
  by (simp add: liftSum_def liftOutcome_def)

lemma yields_mapping: "yields m (\<lambda>x. small (f x)) (\<lambda>x. g (f x)) op \<Longrightarrow> yields (mapping f m) small g op"
  unfolding yields_def mapping_Some by auto

lemma encodes_bind: "encodes True m x \<Longrightarrow> encodes True (k x) y \<Longrightarrow> encodes True (tryIn m k) y"
  unfolding encodes_def [of True "tryIn m k"]
proof
  fix al
  assume m: "encodes True m x" and k: "encodes True (k x) y"
  show "\<exists>r al'. tryIn m k al = Some (r, al') \<and> (case r of Inr z \<Rightarrow> True \<and> z = y | Inl e \<Rightarrow> failed True e)"
    using m
  proof (cases rule: encodesE [where al = al])
    case (ok al')
    then show ?thesis using k by (auto simp: tryIn_def encodes_def)
  qed (auto simp: tryIn_def)
qed

lemma encodes_then: "encodes True m x \<Longrightarrow> k x = return y \<Longrightarrow> encodes True (tryIn m k) y"
  by (rule encodes_bind, assumption) (simp add: encodes_def)

lemma yields_then: "yields m small g op \<Longrightarrow> (\<And>x. k (g x) = return (h x)) \<Longrightarrow> yields m small h (tryIn op k)"
  unfolding yields_def using encodes_then [of op _ k] by (auto simp: tryIn_def)

text \<open>Each kind of message.\<close>

lemma fits_paths: "fits_usize (concat (map path_enc m)) \<Longrightarrow> path \<in> set m \<Longrightarrow> fits_usize (path_bytes path)"
  by (rule fits_delimited_field [of 1], drule fits_concat) (auto simp: path_enc_def delimited_field_def)

lemma fits_wrapper: "fits_usize (known_enc (Wrapper_message w)) \<Longrightarrow> wrapper_fits w"
  by (cases w) (auto simp: wrapper_fits_def dest!: fits_append intro: fits_le simp: delimited_enc_def)

lemma fits_any: "fits_usize (Any_enc a) \<Longrightarrow> any_fits a"
  by (auto simp: any_fits_def Any_enc_def any_fields_of_def delimited_field_def delimited_enc_def fits_usize_def split: if_splits)

lemma encodes_Empty: "encodes True Empty_encode []"
  by (simp add: encodes_def Empty_encode_def)

lemma encodes_Wrapper:
  assumes "fits_usize (known_enc (Wrapper_message w))" "wrapper_ok w"
  shows "encodes True (Wrapper_encode w) (known_enc (Wrapper_message w))"
  using encodes_encodeMessage [OF outputs_writeWrapper [OF fits_wrapper [OF assms(1)]]] assms(2)
  unfolding Wrapper_encode_def by simp

lemma encodes_trees:
  "wellformed v \<Longrightarrow> fits_usize (Value_enc v) \<Longrightarrow> encodes True (Value_encode v) (Value_enc v)"
  "wellformed (Struct_value fs) \<Longrightarrow> fits_usize (Struct_enc fs) \<Longrightarrow> encodes True (Struct_encode fs) (Struct_enc fs)"
  "wellformed (List_value vs) \<Longrightarrow> fits_usize (ListValue_enc vs) \<Longrightarrow> encodes True (ListValue_encode vs) (ListValue_enc vs)"
  using encodes_values(1) [of v] encodes_values(2) [of fs] encodes_values(3) [of vs] wellformed_encodable
  by (metis (full_types))+

lemma yields_encoding:
  assumes "\<And>x. m = Some (Inr x) \<Longrightarrow> fits_usize (known_enc (f x)) \<Longrightarrow> encodes True (enc x) (known_enc (f x))"
  shows "yields (mapping f m) (\<lambda>x. fits_usize (known_enc x)) (\<lambda>x. Some (known_enc x))
    (tryIn (tryIn (liftOutcome m) enc) (\<lambda>bs. return (Some bs)))"
  by (rule yields_mapping, rule yields_then [where g = "\<lambda>x. known_enc (f x)"], rule yields_liftOutcome, rule assms) simp_all

lemma yields_text:
  assumes "\<And>s x. parse s = Some (Inr x) \<Longrightarrow> validate x = Inr ()" "\<And>x. known_enc (f x) = time_enc x"
  shows "yields (mapping f (trying (Some (textFromJson v)) parse)) (\<lambda>x. fits_usize (known_enc x)) (\<lambda>x. Some (known_enc x))
    (tryIn (tryIn (liftSum (textFromJson v)) (\<lambda>s. tryIn (liftOutcome (parse s)) (encodeTime validate))) (\<lambda>bs. return (Some bs)))"
proof (cases "textFromJson v")
  case (Inr s)
  have "tryIn (liftSum (Inr s)) k = k s" for k :: "string \<Rightarrow> bytes encoding" by (simp add: tryIn_def fun_eq_iff)
  then show ?thesis unfolding Inr trying_simps using assms(1) encodes_encodeTime [of validate] assms(2)
    by (simp only:) (intro yields_encoding; simp)
qed (simp add: yields_cases tryIn_def)

lemma yields_wrapper:
  assumes "json_ok v"
  shows "yields (mapping Wrapper_message (wrapperFromJsonValue fp scalar v)) (\<lambda>x. fits_usize (known_enc x)) (\<lambda>x. Some (known_enc x))
    (tryIn (wrapperJsonValueToBytes fp scalar v) (\<lambda>bs. return (Some bs)))"
  unfolding wrapperJsonValueToBytes_def
  by (rule yields_encoding) (use wrapperFromJsonValue_ok [OF _ assms] encodes_Wrapper in blast)

lemma structFromJson_wellformed:
  "structFromJsonValue fp v = Inr fs \<Longrightarrow> json_ok v \<Longrightarrow> wellformed (Struct_value fs)"
  "listValueFromJsonValue fp v = Inr vs \<Longrightarrow> json_ok v \<Longrightarrow> wellformed (List_value vs)"
  using valueFromJson_wellformed(1) [of fp v] by (cases v; force)+

lemma json_url_ok:
  "json_any fp v = Some (Inr a) \<Longrightarrow> json_ok v \<Longrightarrow> utf8ValidateSlice (any_type_url a)"
  by (subst (asm) json_any.simps)
    (auto simp: mapping_Some list_all_iff dest!: map_of_SomeD split: JsonValue.splits if_splits option.splits)

lemma json_message_ok:
  assumes "json_message fp kind v = Some (Inr m)" "json_ok v"
  shows "known_ok m"
proof (cases "wrapper_scalar kind")
  case None
  then show ?thesis
    using assms json_url_ok [of fp v] FieldMask_jsonParse_valid valueFromJson_wellformed(1) [of fp v]
      structFromJson_wellformed [of fp v] Timestamp_jsonParse_valid Duration_jsonParse_valid
    by (subst (asm) json_message.simps, cases kind)
      (auto simp: mapping_Some trying_Some fieldMaskFromJsonValue_def split: sum.splits simp del: wellformed.simps)
next
  case (Some scalar)
  then show ?thesis using assms wrapperFromJsonValue_ok [of fp scalar v]
    by (subst (asm) json_message.simps, cases kind) (auto simp: mapping_Some)
qed

lemma members_checked:
  "list_all (\<lambda>(key, _). key = path_bytes ''@type'' \<or> key = path_bytes ''value'') entries \<longleftrightarrow>
     fst ` set entries \<subseteq> {path_bytes ''@type'', path_bytes ''value''}"
  by (auto simp: list_all_iff)

lemma anyTypeName_Nil: "anyTypeName [] = []"
  by (simp add: anyTypeName_def lastIndexOfScalar_def)

abbreviation yields_any :: "float_parser \<Rightarrow> JsonValue \<Rightarrow> bool" where
  "yields_any fp v \<equiv> yields (json_any fp v) (\<lambda>a. fits_usize (any_payload a)) (\<lambda>a. a) (anyFromJsonValue fp v)"

abbreviation yields_known :: "float_parser \<Rightarrow> AnyWellKnownKind \<Rightarrow> bytes \<Rightarrow> JsonValue \<Rightarrow> bool" where
  "yields_known fp kind name v \<equiv> yields (json_message fp kind v) (\<lambda>m. fits_usize (known_enc m)) (\<lambda>m. Some (known_enc m))
     (anyWellKnownJsonValueToBytes fp name v)"

lemma yields_known_step:
  assumes "json_ok v" "anyWellKnownKind name = Some kind" "kind = Kind_any \<Longrightarrow> yields_any fp v"
  shows "yields_known fp kind name v"
proof (cases kind)
  case Kind_timestamp
  then show ?thesis
    using assms(2) yields_text [of Timestamp_jsonParse Timestamp_validate Timestamp_message v] Timestamp_jsonParse_valid
    by (simp add: json_message.simps anyWellKnownJsonValueToBytes.simps timestampJsonValueToBytes_def Timestamp_encode_def)
next
  case Kind_duration
  then show ?thesis
    using assms(2) yields_text [of Duration_jsonParse Duration_validate Duration_message v] Duration_jsonParse_valid
    by (simp add: json_message.simps anyWellKnownJsonValueToBytes.simps durationJsonValueToBytes_def Duration_encode_def)
next
  case Kind_field_mask
  have "fieldMaskFromJsonValue v = Inr m \<Longrightarrow> FieldMask_validate m = Inr ()" for m
    using FieldMask_jsonParse_valid by (auto simp: fieldMaskFromJsonValue_def split: sum.splits)
  then show ?thesis using assms(2) Kind_field_mask encodes_FieldMask fits_paths
    by (simp add: json_message.simps anyWellKnownJsonValueToBytes.simps liftSum_liftOutcome) (intro yields_encoding; simp)
next
  case Kind_any
  have "yields (mapping Any_message (json_any fp v)) (\<lambda>x. fits_usize (known_enc x)) (\<lambda>x. Some (known_enc x))
      (tryIn (tryIn (anyFromJsonValue fp v) Any_encode) (\<lambda>bs. return (Some bs)))"
  proof (rule yields_mapping, rule yields_then [where g = "\<lambda>x. known_enc (Any_message x)"])
    have enc: "encodes True (tryIn (anyFromJsonValue fp v) Any_encode) (Any_enc a)"
      if a: "json_any fp v = Some (Inr a)" "fits_usize (Any_enc a)" for a
    proof -
      have fits: "any_fits a" using fits_any [OF a(2)] .
      then have "encodes True (anyFromJsonValue fp v) a" using assms(3) [OF Kind_any] a(1) by (auto simp: yields_def any_fits_def)
      moreover have "encodes True (Any_encode a) (Any_enc a)" using encodes_Any [OF fits] json_url_ok [OF a(1) assms(1)] by simp
      ultimately show ?thesis by (rule encodes_bind)
    qed
    show "yields (json_any fp v) (\<lambda>x. fits_usize (known_enc (Any_message x))) (\<lambda>x. known_enc (Any_message x)) (tryIn (anyFromJsonValue fp v) Any_encode)"
      using assms(3) [OF Kind_any] enc by (auto simp: yields_def tryIn_def)
  qed simp
  then show ?thesis using assms(2) Kind_any by (simp add: json_message.simps anyWellKnownJsonValueToBytes.simps)
next
  case Kind_empty
  then show ?thesis using assms(2) encodes_Empty
    by (simp add: json_message.simps anyWellKnownJsonValueToBytes.simps liftSum_liftOutcome) (intro yields_encoding; simp)
next
  case Kind_struct
  then show ?thesis using assms encodes_trees structFromJson_wellformed
    by (simp add: json_message.simps anyWellKnownJsonValueToBytes.simps liftSum_liftOutcome del: wellformed.simps) (intro yields_encoding; simp del: wellformed.simps)
next
  case Kind_value
  then show ?thesis using assms encodes_trees valueFromJson_wellformed(1)
    by (simp add: json_message.simps anyWellKnownJsonValueToBytes.simps liftSum_liftOutcome) (intro yields_encoding; simp)
next
  case Kind_list_value
  then show ?thesis using assms encodes_trees structFromJson_wellformed
    by (simp add: json_message.simps anyWellKnownJsonValueToBytes.simps liftSum_liftOutcome del: wellformed.simps) (intro yields_encoding; simp del: wellformed.simps)
qed (use assms yields_wrapper in \<open>simp_all add: json_message.simps anyWellKnownJsonValueToBytes.simps\<close>)

lemma yields_throw: "yields (Some (Inl e)) small g (throw e)"
  by (simp add: yields_cases)

lemma yields_any_step:
  assumes "\<And>entries j kind name. v = Json_object entries \<Longrightarrow> map_of entries (path_bytes ''value'') = Some j \<Longrightarrow>
      anyWellKnownKind name = Some kind \<Longrightarrow> yields_known fp kind name j"
  shows "yields_any fp v"
proof (cases v)
  case (Json_object entries)
  let ?type = "map_of entries (path_bytes ''@type'')" and ?val = "map_of entries (path_bytes ''value'')"
  let ?members = "fst ` set entries \<subseteq> {path_bytes ''@type'', path_bytes ''value''}"
  show ?thesis
  proof (cases "\<exists>url. ?members \<and> ?type = Some (Json_string url) \<and> anyTypeName url \<noteq> []")
    case False
    then have "json_any fp v = Some (Inl (if ?members then TypeMismatch else UnknownField)) \<and>
        anyFromJsonValue fp v = throw (if ?members then TypeMismatch else UnknownField)"
      unfolding Json_object
      by (subst json_any.simps, subst anyFromJsonValue.simps)
        (auto simp: members_checked anyTypeName_Nil split: option.splits JsonValue.splits)
    then show ?thesis by (simp only: yields_throw)
  next
    case True
    then obtain url where url: ?members "?type = Some (Json_string url)" "anyTypeName url \<noteq> []" by blast
    then have "url \<noteq> []" using anyTypeName_Nil by auto
    let ?msg = "\<lambda>payload. \<lparr>any_type_url = url, any_payload = payload\<rparr>"
    note eqs = json_any.simps [of fp v] anyFromJsonValue.simps [of fp v]
    note run = eqs [unfolded Json_object JsonValue.case members_checked, folded Json_object]
    show ?thesis
    proof (cases ?val)
      case None
      show ?thesis
      proof (cases "anyWellKnownKind (anyTypeName url)")
        case None
        then show ?thesis using url \<open>url \<noteq> []\<close> \<open>?val = None\<close> by (simp add: run yields_cases encodes_def)
      next
        case (Some kind)
        then show ?thesis using url \<open>url \<noteq> []\<close> \<open>?val = None\<close>
          by (cases kind) (simp_all add: run yields_cases encodes_def Empty_encode_def)
      qed
    next
      case (Some j)
      show ?thesis
      proof (cases "anyWellKnownKind (anyTypeName url)")
        case None
        have unknown: "anyWellKnownJsonValueToBytes fp (anyTypeName url) j = return None"
          using None by (simp add: anyWellKnownJsonValueToBytes.simps)
        have "yields (mapping ?msg (decodeBase64 s)) (\<lambda>a. fits_usize (any_payload a)) (\<lambda>a. a)
            (tryIn (liftOutcome (decodeBase64 s)) (\<lambda>p. return (?msg p)))" for s
          by (rule yields_mapping, rule yields_liftOutcome) (simp add: encodes_def)
        then show ?thesis using url \<open>url \<noteq> []\<close> Some None unknown yields_throw
          by (cases j) (simp_all add: run yields_cases, simp_all add: tryIn_def)
      next
        case known: (Some kind)
        have "yields (mapping ?msg (mapping known_enc (json_message fp kind j))) (\<lambda>a. fits_usize (any_payload a)) (\<lambda>a. a)
            (tryIn (anyWellKnownJsonValueToBytes fp (anyTypeName url) j) (\<lambda>known.
              tryIn (case known of Some bs \<Rightarrow> return bs | None \<Rightarrow> (case j of Json_string encoded \<Rightarrow> liftOutcome (decodeBase64 encoded) | _ \<Rightarrow> throw TypeMismatch))
                (\<lambda>p. return (?msg p))))"
          by (intro yields_mapping yields_then [where g = "\<lambda>m. Some (known_enc m)"]) (use assms [OF Json_object Some known] in \<open>simp_all add: fun_eq_iff\<close>)
        then show ?thesis using url \<open>url \<noteq> []\<close> Some known by (simp add: run)
      qed
    qed
  qed
qed (subst json_any.simps, subst anyFromJsonValue.simps, simp add: yields_cases)+

lemma json_converts:
  "json_ok v \<Longrightarrow> yields_any fp v"
  "json_ok v \<Longrightarrow> anyWellKnownKind name = Some kind \<Longrightarrow> yields_known fp kind name v"
proof -
  have any: "yields_any fp v" if "json_ok v" for v
    using that
  proof (induction "size v" arbitrary: v rule: less_induct)
    case less
    show ?case
    proof (rule yields_any_step)
      fix entries j kind name
      assume v: "v = Json_object entries" "map_of entries (path_bytes ''value'') = Some j" and k: "anyWellKnownKind name = Some kind"
      have "json_ok j" using less.prems v by (auto simp: list_all_iff dest: map_of_SomeD)
      moreover have "size j < size v" using size_member [OF v(2)] v(1) by simp
      ultimately show "yields_known fp kind name j" using yields_known_step [OF _ k] less.hyps by blast
    qed
  qed
  then show "json_ok v \<Longrightarrow> yields_any fp v" .
  show "json_ok v \<Longrightarrow> anyWellKnownKind name = Some kind \<Longrightarrow> yields_known fp kind name v"
    by (rule yields_known_step) (use any in blast)+
qed

section \<open>Decoding again\<close>

lemma decodeKnown_enc:
  assumes "json_message fp kind v = Some (Inr m)" "json_ok v" "fits_usize (known_enc m)"
  shows "decodeKnown kind (known_enc m) = Some (Inr m)"
proof (cases "wrapper_scalar kind")
  case None
  then show ?thesis
    using assms(1,3) json_message_ok [OF assms(1,2)] fits_any FieldMask_decode_enc fits_paths
    by (subst (asm) json_message.simps, cases kind)
      (auto simp: mapping_Some Timestamp_decode_def Duration_decode_def time_decode_enc Any_decode_enc Empty_decode_enc
        Value_decode_enc Struct_decode_enc ListValue_decode_enc simp del: wellformed.simps)
next
  case (Some scalar)
  then have m: "mapping Wrapper_message (wrapperFromJsonValue fp scalar v) = Some (Inr m)" "decodeKnown kind bs = mapping Wrapper_message (Wrapper_decode scalar bs)" for bs
    using assms(1) by (cases kind; simp add: json_message.simps)+
  then obtain w where w: "m = Wrapper_message w" "wrapper_ok w" "scalar_of w = scalar"
    using wrapperFromJsonValue_ok [OF _ assms(2)] unfolding mapping_Some by blast
  then show ?thesis using Wrapper_decode_enc [OF fits_wrapper w(2)] assms(3) m(2) by simp
qed

lemma bool_value_name: "anyWellKnownKind (path_bytes ''google.protobuf.BoolValue'') = Some Kind_bool_value"
proof -
  have "withoutDot (path_bytes ''google.protobuf.BoolValue'') = path_bytes ''google.protobuf.BoolValue''"
    by (simp add: withoutDot_def path_bytes_def)
  then show ?thesis by (simp add: anyWellKnownKind_def wellKnownNames_def)
qed

lemma bool_value_message: "json_message fp Kind_bool_value (Json_bool v) = Some (Inr (Wrapper_message (Wrap_bool v)))"
  by (simp add: json_message.simps wrapperFromJsonValue_def)

lemma bool_value_fits: "fits_usize (known_enc (Wrapper_message (Wrap_bool v)))"
  by (simp add: fits_usize_def usize_max_def bool_enc_def tag_enc_def varint_enc_small)

section \<open>Properties\<close>

text \<open>
  C24: a number token that is not written as an integer is accepted for an integer wrapper
  exactly when its value is an integer in the range of the type, which is then the result,
  and with an error that tells fractions, overflow and infinities apart; the conversion of
  the float never panics. Up to \<open>2 ^ 53\<close> it does not matter how an integer is written.
\<close>

theorem json_integers_exact:
  assumes "bits = 32 \<or> bits = 64"
  shows "(isFinite v \<and> f64_units v = n * f64_one \<longrightarrow>
      parseWrapperInt fp is_signed bits (Json_float v) = Some (if int_range is_signed bits n then Inr n else Inl Overflow)) \<and>
    (isFinite v \<and> \<not> f64_one dvd f64_units v \<longrightarrow> parseWrapperInt fp is_signed bits (Json_float v) = Some (Inl TypeMismatch)) \<and>
    (\<not> isFinite v \<longrightarrow> parseWrapperInt fp is_signed bits (Json_float v) = Some (Inl InvalidNumber)) \<and>
    (\<bar>sint k\<bar> \<le> 2 ^ 53 \<longrightarrow>
      parseWrapperInt fp is_signed bits (Json_float (f64_of_int (sint k))) = parseWrapperInt fp is_signed bits (Json_integer k))"
proof (intro conjI impI)
  assume "\<bar>sint k\<bar> \<le> 2 ^ 53"
  from wrapperFloatAsInt_exact [OF f64_of_int_exact [OF this] assms]
  show "parseWrapperInt fp is_signed bits (Json_float (f64_of_int (sint k))) = parseWrapperInt fp is_signed bits (Json_integer k)"
    by simp
qed (use wrapperFloatAsInt_exact [OF _ _ assms, of v n is_signed] in
  \<open>simp_all add: wrapperFloatAsInt_def mod_eq_0_iff_dvd\<close>)

theorem json_integers_exact_witness:
  "\<forall>fp. parseWrapperInt fp True 32 (Json_float (f64_of_int (sint (12345 :: i64)))) = Some (Inr 12345)"
  using json_integers_exact [of 32 0 0 _ True "12345 :: i64", THEN conjunct2, THEN conjunct2, THEN conjunct2]
  by (simp add: int_range_def fits_def)

text \<open>
  C23: the conversion of a JSON value to the bytes of a well-known type is its conversion to
  the message: it panics where that panics, fails with the same error, and otherwise, with
  any allocator, returns bytes that decode to the message, or reports that memory was
  refused. This holds for all seventeen types, with an \<open>Any\<close> inside an \<open>Any\<close> to any depth.
\<close>

theorem known_json_to_wire:
  assumes "json_ok v" "anyWellKnownKind name = Some kind"
  shows "case json_message fp kind v of
      None \<Rightarrow> anyWellKnownJsonValueToBytes fp name v al = None
    | Some (Inl e) \<Rightarrow> anyWellKnownJsonValueToBytes fp name v al = Some (Inl e, al)
    | Some (Inr m) \<Rightarrow> fits_usize (known_enc m) \<longrightarrow>
        (\<exists>r al'. anyWellKnownJsonValueToBytes fp name v al = Some (r, al') \<and>
          (r = Inl (WriteFailed OutOfMemory) \<or> (\<exists>bs. r = Inr (Some bs) \<and> decodeKnown kind bs = Some (Inr m))))"
proof -
  have y: "yields_known fp kind name v" by (rule json_converts(2) [OF assms])
  have "\<exists>r al'. anyWellKnownJsonValueToBytes fp name v al = Some (r, al') \<and>
      (r = Inl (WriteFailed OutOfMemory) \<or> (\<exists>bs. r = Inr (Some bs) \<and> decodeKnown kind bs = Some (Inr m)))"
    if m: "json_message fp kind v = Some (Inr m)" "fits_usize (known_enc m)" for m
  proof -
    have "encodes True (anyWellKnownJsonValueToBytes fp name v) (Some (known_enc m))" using y m by (simp add: yields_def)
    then show ?thesis
      by (cases rule: encodesE [where al = al]) (use decodeKnown_enc [OF m(1) assms(1) m(2)] in \<open>auto simp: failed_def\<close>)
  qed
  then show ?thesis using y by (auto simp: yields_def split: option.splits sum.splits)
qed

theorem known_json_to_wire_witness:
  "\<forall>fp al. \<exists>r al'. anyWellKnownJsonValueToBytes fp (path_bytes ''google.protobuf.BoolValue'') (Json_bool True) al = Some (r, al') \<and>
    (r = Inl (WriteFailed OutOfMemory) \<or>
      (\<exists>bs. r = Inr (Some bs) \<and> decodeKnown Kind_bool_value bs = Some (Inr (Wrapper_message (Wrap_bool True)))))"
  using known_json_to_wire [OF _ bool_value_name, of "Json_bool True"] bool_value_fits by (simp add: bool_value_message)

text \<open>
  C21: what is read from the JSON of an \<open>Any\<close> is unpacked as the message its \<open>value\<close> stands for:
  for a well-known type, under every name that is the one of its URL, decoding the payload
  gives that message; for any other type the payload is the bytes that were written in
  base64, in whichever of its forms.
\<close>

theorem any_json_unpacks:
  assumes "json_ok (Json_object entries)" "fst ` set entries \<subseteq> {path_bytes ''@type'', path_bytes ''value''}"
    and "map_of entries (path_bytes ''@type'') = Some (Json_string url)" "map_of entries (path_bytes ''value'') = Some j"
    and "anyTypeName url = withoutDot full_name" "withoutDot full_name \<noteq> []"
  shows "(anyWellKnownKind (anyTypeName url) = Some kind \<and> json_message fp kind j = Some (Inr m) \<and> fits_usize (known_enc m) \<longrightarrow>
      (\<exists>r al'. anyFromJsonValue fp (Json_object entries) al = Some (r, al') \<and>
        (r = Inl (WriteFailed OutOfMemory) \<or> (\<exists>a. r = Inr a \<and> unpackEncoded (decodeKnown kind) a full_name = Some (Inr m))))) \<and>
    (anyWellKnownKind (anyTypeName url) = None \<and> char \<in> {standardChar, urlSafeChar} \<and> j = Json_string (base64Encode char padded bs) \<longrightarrow>
      (\<exists>a. anyFromJsonValue fp (Json_object entries) al = Some (Inr a, al) \<and> unpackBytes a full_name = Inr bs))"
proof (intro conjI impI; elim conjE)
  let ?a = "\<lambda>p. \<lparr>any_type_url = url, any_payload = p\<rparr>"
  have unpack: "unpackBytes (?a p) full_name = Inr p" for p
    using assms(5,6) by (simp add: unpackBytes_def typeNameIs_def anyTypeMatches_def Let_def)
  {
    assume kind: "anyWellKnownKind (anyTypeName url) = Some kind" and m: "json_message fp kind j = Some (Inr m)" and fits: "fits_usize (known_enc m)"
    have "json_ok j" using assms(1,4) by (auto simp: list_all_iff dest: map_of_SomeD)
    have "json_any fp (Json_object entries) = Some (Inr (?a (known_enc m)))"
      using assms kind m by (simp add: json_any.simps)
    then have "encodes True (anyFromJsonValue fp (Json_object entries)) (?a (known_enc m))"
      using json_converts(1) [OF assms(1), of fp] fits by (simp add: yields_def)
    then show "\<exists>r al'. anyFromJsonValue fp (Json_object entries) al = Some (r, al') \<and>
        (r = Inl (WriteFailed OutOfMemory) \<or> (\<exists>a. r = Inr a \<and> unpackEncoded (decodeKnown kind) a full_name = Some (Inr m)))"
      by (cases rule: encodesE [where al = al])
        (use unpack decodeKnown_enc [OF m \<open>json_ok j\<close> fits] in \<open>auto simp: failed_def unpackEncoded_def\<close>)
  next
    assume kind: "anyWellKnownKind (anyTypeName url) = None" and char: "char \<in> {standardChar, urlSafeChar}"
      and j: "j = Json_string (base64Encode char padded bs)"
    have "decodeBase64 (base64Encode char padded bs) = Some (Inr bs)"
      using char encoders_strict [of padded bs] by (auto simp: decodeBase64_iff(2))
    moreover have "url \<noteq> []" using assms(5,6) anyTypeName_Nil by auto
    ultimately have "anyFromJsonValue fp (Json_object entries) al = Some (Inr (?a bs), al)"
      using assms kind unfolding j
      by (subst anyFromJsonValue.simps) (simp add: members_checked anyWellKnownJsonValueToBytes.simps liftOutcome_def tryIn_def)
    then show "\<exists>a. anyFromJsonValue fp (Json_object entries) al = Some (Inr a, al) \<and> unpackBytes a full_name = Inr bs"
      using unpack by blast
  }
qed

theorem any_json_unpacks_witness:
  "\<forall>fp al. \<exists>r al'. anyFromJsonValue fp (Json_object [(path_bytes ''@type'', Json_string (path_bytes ''x/google.protobuf.BoolValue'')),
      (path_bytes ''value'', Json_bool True)]) al = Some (r, al') \<and>
    (r = Inl (WriteFailed OutOfMemory) \<or> (\<exists>a. r = Inr a \<and>
      unpackEncoded (decodeKnown Kind_bool_value) a (path_bytes ''.google.protobuf.BoolValue'') = Some (Inr (Wrapper_message (Wrap_bool True)))))"
proof (intro allI)
  fix fp al
  let ?name = "path_bytes ''google.protobuf.BoolValue''"
  let ?entries = "[(path_bytes ''@type'', Json_string (path_bytes ''x/google.protobuf.BoolValue'')), (path_bytes ''value'', Json_bool True)]"
  have "anyTypeName (path_bytes ''x/google.protobuf.BoolValue'') = ?name" by code_simp
  moreover have "withoutDot (path_bytes ''.google.protobuf.BoolValue'') = ?name" "?name \<noteq> []" by code_simp+
  moreover have "json_ok (Json_object ?entries)" by (simp add: path_bytes_def utf8ValidateSlice.simps(2))
  moreover have "path_bytes ''@type'' \<noteq> path_bytes ''value''" by (simp add: path_bytes_def)
  ultimately show "\<exists>r al'. anyFromJsonValue fp (Json_object ?entries) al = Some (r, al') \<and>
    (r = Inl (WriteFailed OutOfMemory) \<or> (\<exists>a. r = Inr a \<and>
      unpackEncoded (decodeKnown Kind_bool_value) a (path_bytes ''.google.protobuf.BoolValue'') = Some (Inr (Wrapper_message (Wrap_bool True)))))"
    using any_json_unpacks [of ?entries "path_bytes ''x/google.protobuf.BoolValue''" "Json_bool True"
        "path_bytes ''.google.protobuf.BoolValue''" Kind_bool_value fp "Wrapper_message (Wrap_bool True)" al
        standardChar False "[]", THEN conjunct1] bool_value_name bool_value_message bool_value_fits
    by simp
qed

end
