(* ===== verification/Wkt_ToJson.thy ===== *)
theory Wkt_ToJson
  imports Wkt_FromJson
begin

text \<open>
  JSON texts of the messages of \<open>src/wkt.zig\<close> that go through \<open>std.json\<close>: \<open>Value\<close>, \<open>Struct\<close>, \<open>ListValue\<close>,
  \<open>Empty\<close>, the wrappers and \<open>Any\<close>, printed and parsed. How \<open>std.fmt\<close> prints a float is a parameter.
  A printer returns its whole output or the error that stopped it; the memory of the output
  and of parsed texts is never refused here.
\<close>

definition quoted :: "bytes \<Rightarrow> bytes" where
  "quoted t = [0x22] @ t @ [0x22]"

section \<open>Value, Struct, ListValue\<close>

type_synonym float_printer = "u64 \<Rightarrow> bytes"

fun Value_jsonStringify :: "float_printer \<Rightarrow> Value \<Rightarrow> wkt_error + bytes"
and fieldsToJson :: "float_printer \<Rightarrow> nat \<Rightarrow> Struct \<Rightarrow> wkt_error + bytes"
and valuesToJson :: "float_printer \<Rightarrow> nat \<Rightarrow> ListValue \<Rightarrow> wkt_error + bytes" where
  "Value_jsonStringify pf Null_value = Inr (path_bytes ''null'')"
| "Value_jsonStringify pf (Number_value v) = (if isNan v \<or> isPositiveInf v \<or> isNegativeInf v then Inl InvalidNumber else Inr (pf v))"
| "Value_jsonStringify pf (String_value v) = (case ensureUtf8 v of Inl e \<Rightarrow> Inl e | Inr _ \<Rightarrow> Inr (stringifyString v))"
| "Value_jsonStringify pf (Bool_value v) = Inr (path_bytes (if v then ''true'' else ''false''))"
| "Value_jsonStringify pf (Struct_value fs) = (case fieldsToJson pf 0 fs of Inl e \<Rightarrow> Inl e | Inr t \<Rightarrow> Inr (path_bytes ''{'' @ t @ path_bytes ''}''))"
| "Value_jsonStringify pf (List_value vs) = (case valuesToJson pf 0 vs of Inl e \<Rightarrow> Inl e | Inr t \<Rightarrow> Inr (path_bytes ''['' @ t @ path_bytes '']''))"
| "fieldsToJson pf i [] = Inr []"
| "fieldsToJson pf i ((key, v) # fs) = (case ensureUtf8 key of
       Inl e \<Rightarrow> Inl e
     | Inr _ \<Rightarrow> (case Value_jsonStringify pf v of
           Inl e \<Rightarrow> Inl e
         | Inr t \<Rightarrow> (case fieldsToJson pf (i + 1) fs of
               Inl e \<Rightarrow> Inl e
             | Inr rest \<Rightarrow> Inr ((if i \<noteq> 0 then path_bytes '','' else []) @ stringifyString key @ path_bytes '':'' @ t @ rest))))"
| "valuesToJson pf i [] = Inr []"
| "valuesToJson pf i (v # vs) = (case Value_jsonStringify pf v of
       Inl e \<Rightarrow> Inl e
     | Inr t \<Rightarrow> (case valuesToJson pf (i + 1) vs of
           Inl e \<Rightarrow> Inl e
         | Inr rest \<Rightarrow> Inr ((if i \<noteq> 0 then path_bytes '','' else []) @ t @ rest)))"

definition Struct_jsonStringify :: "float_printer \<Rightarrow> Struct \<Rightarrow> wkt_error + bytes" where
  "Struct_jsonStringify pf fs = (case fieldsToJson pf 0 fs of Inl e \<Rightarrow> Inl e | Inr t \<Rightarrow> Inr (path_bytes ''{'' @ t @ path_bytes ''}''))"

definition ListValue_jsonStringify :: "float_printer \<Rightarrow> ListValue \<Rightarrow> wkt_error + bytes" where
  "ListValue_jsonStringify pf vs = (case valuesToJson pf 0 vs of Inl e \<Rightarrow> Inl e | Inr t \<Rightarrow> Inr (path_bytes ''['' @ t @ path_bytes '']''))"

text \<open>The last of several members with one key counts.\<close>

definition parseJsonValueForStruct :: "float_parser \<Rightarrow> bytes \<Rightarrow> (wkt_error, JsonValue) outcome" where
  "parseJsonValueForStruct fp text = parseFromSlice fp True text"

definition Value_jsonParse :: "float_parser \<Rightarrow> bytes \<Rightarrow> (wkt_error, Value) outcome" where
  "Value_jsonParse fp text = trying (parseJsonValueForStruct fp text) (\<lambda>parsed. Some (valueFromJsonValue fp parsed))"

definition Struct_jsonParse :: "float_parser \<Rightarrow> bytes \<Rightarrow> (wkt_error, Struct) outcome" where
  "Struct_jsonParse fp text = trying (parseJsonValueForStruct fp text) (\<lambda>parsed. Some (structFromJsonValue fp parsed))"

definition ListValue_jsonParse :: "float_parser \<Rightarrow> bytes \<Rightarrow> (wkt_error, ListValue) outcome" where
  "ListValue_jsonParse fp text = trying (parseJsonValueForStruct fp text) (\<lambda>parsed. Some (listValueFromJsonValue fp parsed))"

section \<open>Empty and the wrappers\<close>

definition Empty_jsonStringify :: bytes where
  "Empty_jsonStringify = path_bytes ''{}''"

definition Empty_jsonParse :: "float_parser \<Rightarrow> bytes \<Rightarrow> (wkt_error, unit) outcome" where
  "Empty_jsonParse fp text = trying (parseFromSlice fp False text) (\<lambda>parsed. Some (emptyFromJsonValue parsed))"

definition writeFloatJson :: "float_printer \<Rightarrow> u64 \<Rightarrow> bytes" where
  "writeFloatJson pf v =
     (if isNan v then stringifyString (path_bytes ''NaN'')
      else if isPositiveInf v then stringifyString (path_bytes ''Infinity'')
      else if isNegativeInf v then stringifyString (path_bytes ''-Infinity'')
      else pf v)"

text \<open>\<open>std.json\<close> widens an \<open>f32\<close> before it prints it.\<close>

fun Wrapper_jsonStringify :: "float_printer \<Rightarrow> Wrapper \<Rightarrow> wkt_error + bytes" where
  "Wrapper_jsonStringify pf (Wrap_double v) = Inr (writeFloatJson pf v)"
| "Wrapper_jsonStringify pf (Wrap_float v) = Inr (writeFloatJson pf (f64_of_f32 v))"
| "Wrapper_jsonStringify pf (Wrap_int64 v) = Inr (quoted (printInt (sint v)))"
| "Wrapper_jsonStringify pf (Wrap_uint64 v) = Inr (quoted (printInt (uint v)))"
| "Wrapper_jsonStringify pf (Wrap_bytes v) = Inr (quoted (base64Encode standardChar True v))"
| "Wrapper_jsonStringify pf (Wrap_string v) = (case ensureUtf8 v of Inl e \<Rightarrow> Inl e | Inr _ \<Rightarrow> Inr (stringifyString v))"
| "Wrapper_jsonStringify pf (Wrap_int32 v) = Inr (printInt (sint v))"
| "Wrapper_jsonStringify pf (Wrap_uint32 v) = Inr (printInt (uint v))"
| "Wrapper_jsonStringify pf (Wrap_bool v) = Inr (path_bytes (if v then ''true'' else ''false''))"

definition Wrapper_jsonParse :: "float_parser \<Rightarrow> WrapperScalar \<Rightarrow> bytes \<Rightarrow> (wkt_error, Wrapper) outcome" where
  "Wrapper_jsonParse fp scalar text = trying (parseFromSlice fp False text) (wrapperFromJsonValue fp scalar)"

section \<open>Any\<close>

text \<open>The messages an \<open>Any\<close> may hold, except another \<open>Any\<close>.\<close>

fun messageToJson :: "float_printer \<Rightarrow> Known_message \<Rightarrow> (wkt_error, bytes) outcome" where
  "messageToJson pf (Timestamp_message t) = mapping path_bytes (Timestamp_jsonStringify t)"
| "messageToJson pf (Duration_message t) = mapping path_bytes (Duration_jsonStringify t)"
| "messageToJson pf (Mask_message m) = mapping path_bytes (Some (FieldMask_jsonStringify m))"
| "messageToJson pf Empty_message = Some (Inr Empty_jsonStringify)"
| "messageToJson pf (Struct_message fs) = Some (Struct_jsonStringify pf fs)"
| "messageToJson pf (Value_message v) = Some (Value_jsonStringify pf v)"
| "messageToJson pf (List_message vs) = Some (ListValue_jsonStringify pf vs)"
| "messageToJson pf (Wrapper_message w) = Some (Wrapper_jsonStringify pf w)"
| "messageToJson pf (Any_message a) = None"

lemma trying_fundef_cong [fundef_cong]:
  "m = m' \<Longrightarrow> (\<And>x. m' = Some (Inr x) \<Longrightarrow> f x = g x) \<Longrightarrow> trying m f = trying m' g"
  by (auto intro: trying_cong)

text \<open>The payload of a decoded \<open>Any\<close> is shorter than the message, so that nested ones come to an end.\<close>

lemma decodeFields_keeps_if:
  assumes "reader_ok self" "P out" "decodeFields handle out self = Some (Inr out', s')" "\<And>t out. reads_ok (handle t out)"
    and "\<And>t out s out' s'. reader_ok s \<Longrightarrow> rest_length s < rest_length self \<Longrightarrow> P out \<Longrightarrow> handle t out s = Some (Inr out', s') \<Longrightarrow> P out'"
  shows "P out'"
  using assms
proof (induction "rest_length self" arbitrary: self out rule: less_induct)
  case less
  from less.prems(3) have "decodeTurn (decodeFields handle) handle out self = Some (Inr out', s')"
    by (subst (asm) decodeFields_turn)
  then show ?case
  proof (cases rule: decodeTurn_cases)
    case (more t s out2 s2)
    have s: "reader_ok s" "rest_length s < rest_length self"
      using reads_okD2 [OF reads_ok_nextTag less.prems(1) more(1)] nextTag_progress(1) [OF less.prems(1) more(1)] by simp_all
    moreover have "reader_ok s2" "reader_step s s2" using reads_okD2 [OF less.prems(4) s(1) more(2)] by simp_all
    moreover from this(2) have "rest_length s2 \<le> rest_length s" by (auto simp: reader_step_def rest_length_def)
    ultimately show ?thesis
      using less.hyps [of s2 out2] less.prems(4,5) less.prems(5) [OF s less.prems(2) more(2)] more(3) by (meson order_le_less_trans less_trans)
  qed (use less.prems(2) in simp_all)
qed

lemma Any_decode_shorter:
  assumes "Any_decode bs = Some (Inr a)"
  shows "any_payload a = [] \<or> length (any_payload a) < length bs" "bs = [] \<Longrightarrow> any_type_url a = []"
proof -
  obtain s where run: "decodeFields decodeAnyField \<lparr>any_type_url = [], any_payload = []\<rparr> (reader_init bs) = Some (Inr a, s)"
    using assms by (auto simp: Any_decode_def decodeMessage_def)
  have len: "rest_length (reader_init bs) = length bs" by (simp add: rest_length_def reader_init_def)
  have ok: "reads_ok (decodeAnyField t out)" for t out by (rule any_fields.handle_ok)
  show "any_payload a = [] \<or> length (any_payload a) < length bs"
  proof (rule decodeFields_keeps_if [OF reader_ok_init _ run ok])
    fix t out s out' s'
    assume s: "reader_ok s" "rest_length s < rest_length (reader_init bs)" and p: "any_payload out = [] \<or> length (any_payload out) < length bs"
      and run: "decodeAnyField t out s = Some (Inr out', s')"
    have "length raw < length bs" if "readScalar LengthDelimited readBytes t s = Some (Inr raw, s2)" for raw s2
    proof -
      have "readBytes s = Some (Inr raw, s2)"
        using that by (auto simp: readScalar_def tryIn_apply liftRead_def liftSum_def split: option.splits sum.splits)
      then show ?thesis using readBytes_length [OF s(1)] s(2) len by fastforce
    qed
    then show "any_payload out' = [] \<or> length (any_payload out') < length bs"
      using run p unfolding decodeAnyField_def
      by (auto simp: tryIn_Some split: if_splits)
  qed simp
  show "bs = [] \<Longrightarrow> any_type_url a = []"
    using any_fields.decodeMessage_fields [of "[]" "[]" "\<lparr>any_type_url = [], any_payload = []\<rparr>"] assms by (auto simp: Any_decode_def)
qed

lemma decodeKnown_Any: "decodeKnown kind bs = Some (Inr (Any_message a)) \<Longrightarrow> Any_decode bs = Some (Inr a)"
  by (cases kind) (auto simp: mapping_Some)

lemma nested_shorter:
  assumes "decodeKnown kind bs = Some (Inr (Any_message a))" "any_type_url a \<noteq> []"
  shows "length (any_payload a) < length bs"
  using Any_decode_shorter [OF decodeKnown_Any [OF assms(1)]] assms(2) by (cases bs) auto

function writeAnyWellKnownJsonValue :: "float_printer \<Rightarrow> bytes \<Rightarrow> bytes \<Rightarrow> (wkt_error, bytes option) outcome"
and Any_jsonStringify :: "float_printer \<Rightarrow> Any_message \<Rightarrow> (wkt_error, bytes) outcome" where
  "writeAnyWellKnownJsonValue pf type_name payload = (case anyWellKnownKind type_name of
       None \<Rightarrow> Some (Inr None)
     | Some kind \<Rightarrow> trying (decodeKnown kind payload) (\<lambda>message.
         mapping Some (case message of Any_message inner \<Rightarrow> Any_jsonStringify pf inner | _ \<Rightarrow> messageToJson pf message)))"
| "Any_jsonStringify pf self =
     (if any_type_url self = [] \<or> anyTypeName (any_type_url self) = [] then Some (Inl TypeMismatch)
      else trying (Some (ensureUtf8 (any_type_url self))) (\<lambda>_.
        let type_name = anyTypeName (any_type_url self);
            head = path_bytes ''{'' @ quoted (path_bytes ''@type'') @ path_bytes '':'' @ stringifyString (any_type_url self)
        in if anyWellKnownKind type_name = Some Kind_empty
           then mapping (\<lambda>_. head @ path_bytes ''}'') (Empty_decode (any_payload self))
           else trying (writeAnyWellKnownJsonValue pf type_name (any_payload self)) (\<lambda>written. Some (Inr
             (head @ path_bytes '','' @ quoted (path_bytes ''value'') @ path_bytes '':'' @
              (case written of Some t \<Rightarrow> t | None \<Rightarrow> quoted (base64Encode standardChar True (any_payload self))) @
              path_bytes ''}'')))))"
  by pat_completeness auto
termination
  by (relation "measure (case_sum (\<lambda>(_, _, payload). 2 * length payload + 1)
      (\<lambda>(_, self). if any_type_url self = [] then 0 else 2 * length (any_payload self) + 2))")
    (auto dest: nested_shorter)

declare writeAnyWellKnownJsonValue.simps [simp del] Any_jsonStringify.simps [simp del]

definition Any_jsonParse :: "float_parser \<Rightarrow> bytes \<Rightarrow> Any_message encoding" where
  "Any_jsonParse fp text = tryIn (liftOutcome (parseFromSlice fp False text)) (anyFromJsonValue fp)"

end
