(* ===== verification/Wkt_JsonText.thy ===== *)
theory Wkt_JsonText
  imports Wkt_ToJson
begin

text \<open>
  The JSON texts that the printers of \<open>Wkt_ToJson\<close> write, and what they are read back as. The
  printer and the parser of floats are related by a hypothesis, \<open>prints_floats\<close>.
\<close>

section \<open>What a text denotes\<close>

text \<open>The text is a JSON text of the value, wherever it may end.\<close>

definition denotes :: "float_parser \<Rightarrow> bytes \<Rightarrow> JsonValue \<Rightarrow> bool" where
  "denotes fp t j \<longleftrightarrow> (\<forall>u rest. ends_number rest \<longrightarrow> parseValue fp u (t @ rest) = Some (Inr (j, rest)))"

lemma denotes_top: "denotes fp t j \<Longrightarrow> parseFromSlice fp u t = Some (Inr j)"
  unfolding denotes_def parseFromSlice_def by (drule spec [of _ u], drule spec [of _ "[]"]) (simp add: ends_number_def)

lemma denotes_ok: "denotes fp t j \<Longrightarrow> json_ok j"
  using denotes_top parseFromSlice_ok by blast

lemma denotes_string: "utf8ValidateSlice s \<Longrightarrow> denotes fp (stringifyString s) (Json_string s)"
  by (simp add: denotes_def parseValue_string)

lemma denotes_number: "scanNumber s = Inr (s, []) \<Longrightarrow> parseFromNumberSlice fp s = Some j \<Longrightarrow> denotes fp s j"
  by (simp add: denotes_def parseValue_number)

lemma denotes_int: "fits 64 n \<Longrightarrow> denotes fp (printInt n) (Json_integer (word_of_int n))"
  by (rule denotes_number) (simp_all add: scanNumber_printInt parseFromNumberSlice_printInt)

lemma denotes_literal:
  "denotes fp (path_bytes ''true'') (Json_bool True)" "denotes fp (path_bytes ''false'') (Json_bool False)"
  "denotes fp (path_bytes ''null'') Json_null"
  using parseValue_literal by (simp_all add: denotes_def path_bytes_def)

text \<open>Text that needs no escapes.\<close>

definition plain :: "bytes \<Rightarrow> bool" where
  "plain s \<longleftrightarrow> (\<forall>b \<in> set s. \<not> mustEscape b \<and> b < 0x80)"

lemma plain_simps [simp]: "plain []" "plain (b # s) \<longleftrightarrow> \<not> mustEscape b \<and> b < 0x80 \<and> plain s" "plain (s @ t) \<longleftrightarrow> plain s \<and> plain t"
  by (auto simp: plain_def)

lemma plain_quoted: "plain s \<Longrightarrow> stringifyString s = quoted s"
proof -
  assume "plain s"
  then have "concat (map escapeByte s) = s" by (induction s) (simp_all add: escapeByte_def)
  then show ?thesis by (simp add: stringifyString_def quoted_def)
qed

lemma plain_utf8: "plain s \<Longrightarrow> utf8ValidateSlice s"
  by (induction s) (simp_all add: utf8ValidateSlice.simps(2))

lemma denotes_quoted: "plain s \<Longrightarrow> denotes fp (quoted s) (Json_string s)"
  using denotes_string [OF plain_utf8] by (simp add: plain_quoted)

text \<open>Arrays and objects, with commas between their parts.\<close>

fun commas :: "nat \<Rightarrow> bytes list \<Rightarrow> bytes" where
  "commas i [] = []"
| "commas i (t # ts) = (if i \<noteq> 0 then path_bytes '','' else []) @ t @ commas (i + 1) ts"

lemma commas_behind: "0 < i \<Longrightarrow> commas i ts = concat (map (\<lambda>t. 0x2C # t) ts)"
  by (induction ts arbitrary: i) (simp_all add: path_bytes_def)

lemma commas_Cons: "commas 0 (t # t' # ts) = t @ 0x2C # commas 0 (t' # ts)"
  by (simp add: commas_behind path_bytes_def)

lemma ends_number_punctuation: "ends_number (0x2C # t)" "ends_number (0x5D # t)" "ends_number (0x7D # t)" "ends_number []"
  by (simp_all add: ends_number_def digitByte_def)

lemma parseValue_starts:
  assumes "parseValue fp u bs = Some (Inr r)"
  obtains c cs where "skipWhitespace bs = c # cs" "c \<noteq> 0x5D" "c \<noteq> 0x7D"
proof -
  have "c \<noteq> 0x5D \<and> c \<noteq> 0x7D" if "parseScalar fp c cs = Some (Inr r)" for c cs
    using that by (auto simp: parseScalar_def digitByte_def split: if_splits)
  then show ?thesis using assms that
    by (subst (asm) parseValue_eq) (auto simp: expectByte_def split: list.splits if_splits)
qed

lemma parseItems_commas:
  assumes "denotes fp t j" "list_all2 (denotes fp) ts js"
  shows "parseItems fp u items (commas 0 (t # ts) @ 0x5D # rest) = Some (Inr (Json_array (items @ j # js), rest))"
  using assms
proof (induction ts arbitrary: t j js items)
  case Nil
  then show ?case by (subst parseItems_eq) (simp add: denotes_def ends_number_punctuation expectByte_Cons)
next
  case (Cons t' ts)
  then obtain j' js' where j: "js = j' # js'" "denotes fp t' j'" "list_all2 (denotes fp) ts js'" by (cases js) auto
  show ?case
    using commas_Cons [of t t' ts] Cons.prems(1) Cons.IH [OF j(2,3), of "items @ [j]"] unfolding j(1)
    by (subst parseItems_eq) (simp add: denotes_def ends_number_punctuation expectByte_Cons del: commas.simps)
qed

lemma denotes_array:
  assumes "list_all2 (denotes fp) ts js"
  shows "denotes fp (path_bytes ''['' @ commas 0 ts @ path_bytes '']'') (Json_array js)"
proof (cases ts)
  case Nil
  then show ?thesis using assms unfolding denotes_def
    by (intro allI impI, subst parseValue_eq) (simp add: path_bytes_def expectByte_Cons)
next
  case (Cons t ts')
  then obtain j js' where j: "js = j # js'" "denotes fp t j" "list_all2 (denotes fp) ts' js'" using assms by (cases js) auto
  show ?thesis unfolding denotes_def
  proof (intro allI impI)
    fix u rest
    let ?bs = "commas 0 (t # ts') @ 0x5D # rest"
    have p: "parseItems fp u [] ?bs = Some (Inr (Json_array js, rest))" using parseItems_commas [OF j(2,3), of u "[]"] j(1) by simp
    then obtain r where "parseValue fp u ?bs = Some (Inr r)" by (subst (asm) parseItems_eq) (auto simp: trying_Some)
    then obtain c cs where "skipWhitespace ?bs = c # cs" "c \<noteq> 0x5D" by (rule parseValue_starts)
    then show "parseValue fp u ((path_bytes ''['' @ commas 0 ts @ path_bytes '']'') @ rest) = Some (Inr (Json_array js, rest))"
      using p unfolding Cons by (subst parseValue_eq) (simp add: path_bytes_def expectByte_Cons expectByte_def [of ?bs] del: commas.simps)
  qed
qed

definition member :: "bytes \<Rightarrow> bytes \<Rightarrow> bytes" where
  "member key t = stringifyString key @ path_bytes '':'' @ t"

lemma parseMembers_commas:
  assumes "list_all2 (\<lambda>(key, t) (key', j). key' = key \<and> utf8ValidateSlice key \<and> denotes fp t j) ts es" "ts \<noteq> []"
    "distinct (map fst (entries @ es))"
  shows "parseMembers fp u entries (commas 0 (map (\<lambda>(key, t). member key t) ts) @ 0x7D # rest) = Some (Inr (Json_object (entries @ es), rest))"
  using assms
proof (induction ts arbitrary: es entries)
  case (Cons kt ts)
  obtain key t where kt: "kt = (key, t)" by fastforce
  then obtain j es' where e: "es = (key, j) # es'" "utf8ValidateSlice key" "denotes fp t j"
      "list_all2 (\<lambda>(key, t) (key', j). key' = key \<and> utf8ValidateSlice key \<and> denotes fp t j) ts es'"
    using Cons.prems(1) by (cases es) auto
  have scan: "scanString (concat (map escapeByte key) @ 0x22 # x) = Inr (key, x)" for x
    using scanString_escaped [OF e(2)] by simp
  have put: "putMember u entries key j = Inr (entries @ [(key, j)])"
    using Cons.prems(3) unfolding e(1) by (auto simp: putMember_def)
  have item: "parseValue fp u (t @ x) = Some (Inr (j, x))" if "ends_number x" for x
    using e(3) that by (simp add: denotes_def)
  show ?case
  proof (cases ts)
    case Nil
    then show ?thesis using e(4) unfolding kt e(1)
      by (subst parseMembers_eq)
        (simp add: member_def stringifyString_def path_bytes_def expectByte_Cons scan put item ends_number_punctuation)
  next
    case more: (Cons kt' ts')
    define more_text where "more_text = commas 0 (map (\<lambda>(key, t). member key t) ts)"
    have IH: "parseMembers fp u (entries @ [(key, j)]) (more_text @ 0x7D # rest) = Some (Inr (Json_object (entries @ es), rest))"
      using Cons.IH [OF e(4), of "entries @ [(key, j)]"] Cons.prems(3) more unfolding e(1) more_text_def by simp
    have whole: "commas 0 (map (\<lambda>(key, t). member key t) (kt # ts)) = 0x22 # concat (map escapeByte key) @ 0x22 # 0x3A # t @ 0x2C # more_text"
      unfolding more kt list.map more_text_def by (simp only: commas_Cons prod.case) (simp add: member_def stringifyString_def path_bytes_def)
    show ?thesis using IH unfolding whole
      by (subst parseMembers_eq) (simp add: expectByte_Cons scan put item ends_number_punctuation)
  qed
qed simp

lemma denotes_object:
  assumes "list_all2 (\<lambda>(key, t) (key', j). key' = key \<and> utf8ValidateSlice key \<and> denotes fp t j) ts es" "distinct (map fst es)"
  shows "denotes fp (path_bytes ''{'' @ commas 0 (map (\<lambda>(key, t). member key t) ts) @ path_bytes ''}'') (Json_object es)"
proof (cases "ts = []")
  case True
  then show ?thesis using assms unfolding denotes_def
    by (intro allI impI, subst parseValue_eq) (simp add: path_bytes_def expectByte_Cons)
next
  case False
  show ?thesis unfolding denotes_def
  proof (intro allI impI)
    fix u rest
    let ?bs = "commas 0 (map (\<lambda>(key, t). member key t) ts) @ 0x7D # rest"
    have p: "parseMembers fp u [] ?bs = Some (Inr (Json_object es, rest))"
      using parseMembers_commas [OF assms(1) False, of "[]"] assms(2) by simp
    obtain cs where "?bs = 0x22 # cs" using False
      by (cases ts) (auto simp: member_def stringifyString_def)
    then show "parseValue fp u ((path_bytes ''{'' @ commas 0 (map (\<lambda>(key, t). member key t) ts) @ path_bytes ''}'') @ rest) =
        Some (Inr (Json_object es, rest))"
      using p by (subst parseValue_eq) (simp add: path_bytes_def expectByte_Cons)
  qed
qed

section \<open>Numbers in texts\<close>

text \<open>
  What the printer and the parser of \<open>std.fmt\<close> have in common: a finite float is printed as a
  number of the grammar that reads back as this float, at both widths. If the text has the form
  of an integer of 64 bits, it is the rounding of this integer that is the float.
\<close>

definition reads_back :: "bytes \<Rightarrow> (bytes \<Rightarrow> wkt_error + 'a) \<Rightarrow> (int \<Rightarrow> 'a) \<Rightarrow> 'a \<Rightarrow> bool" where
  "reads_back s parse round x \<longleftrightarrow>
     parse s = Inr x \<and> (\<forall>n. formattedLikeInteger s \<longrightarrow> parseIntText True 64 s = Inr n \<longrightarrow> round n = x)"

definition prints_floats :: "float_parser \<Rightarrow> float_printer \<Rightarrow> bool" where
  "prints_floats fp pf \<longleftrightarrow> reads_numbers fp \<and>
     (\<forall>v. isFinite v \<longrightarrow> scanNumber (pf v) = Inr (pf v, []) \<and> reads_back (pf v) (parse_f64 fp) f64_of_int v) \<and>
     (\<forall>x. isFinite (f64_of_f32 x) \<longrightarrow> reads_back (pf (f64_of_f32 x)) (parse_f32 fp) f32_of_int x)"

lemma parseIntText_range: "parseIntText is_signed bits s = Inr n \<Longrightarrow> int_range is_signed bits n"
  using parseInt_range(1) [of "int_range is_signed bits" "bytes_path s" n]
  by (auto simp: parseIntText_def parseInt_Some int_range_def split: sum.splits int_error.splits)

lemma sint_of_fits: "fits 64 n \<Longrightarrow> sint (word_of_int n :: i64) = n"
  by (simp add: signed_of_int fits_def signed_take_bit_int_eq_self)

text \<open>The values that a number token can stand for.\<close>

lemma number_token:
  assumes "prints_floats fp pf" "isFinite v"
  obtains (float) "parseFromNumberSlice fp (pf v) = Some (Json_float v)"
  | (integer) n where "parseFromNumberSlice fp (pf v) = Some (Json_integer n)" "f64_of_int (sint n) = v"
      "\<And>x. v = f64_of_f32 x \<Longrightarrow> f32_of_int (sint n) = x"
  | (token) "parseFromNumberSlice fp (pf v) = Some (Json_number_string (pf v))"
proof -
  have s: "scanNumber (pf v) = Inr (pf v, [])" "parse_f64 fp (pf v) = Inr v"
    "\<And>n. formattedLikeInteger (pf v) \<Longrightarrow> parseIntText True 64 (pf v) = Inr n \<Longrightarrow> f64_of_int n = v"
    "\<And>n x. v = f64_of_f32 x \<Longrightarrow> formattedLikeInteger (pf v) \<Longrightarrow> parseIntText True 64 (pf v) = Inr n \<Longrightarrow> f32_of_int n = x"
    using assms by (auto simp: prints_floats_def reads_back_def)
  show ?thesis
  proof (cases "formattedLikeInteger (pf v)")
    case False
    then show ?thesis using s(2) assms(2) float by (simp add: parseFromNumberSlice_def)
  next
    case True
    show ?thesis
    proof (cases "parseIntText True 64 (pf v)")
      case (Inl e)
      then have "e = Overflow" using parseIntText_number [OF s(1) True] by blast
      then show ?thesis using True Inl token by (simp add: parseFromNumberSlice_def)
    next
      case (Inr n)
      have n: "sint (word_of_int n :: i64) = n" using parseIntText_range [OF Inr] by (simp add: int_range_def sint_of_fits)
      show ?thesis
        by (rule integer [of "word_of_int n"]) (use True Inr n s(3,4) in \<open>simp_all add: parseFromNumberSlice_def\<close>)
    qed
  qed
qed

lemma denotes_float:
  assumes "prints_floats fp pf" "isFinite v" "parseFromNumberSlice fp (pf v) = Some j"
  shows "denotes fp (pf v) j"
  using assms by (intro denotes_number) (auto simp: prints_floats_def)

lemma parse_f64_back: "prints_floats fp pf \<Longrightarrow> isFinite v \<Longrightarrow> parse_f64 fp (pf v) = Inr v"
  by (simp add: prints_floats_def reads_back_def)

lemma parse_f32_back: "prints_floats fp pf \<Longrightarrow> isFinite (f64_of_f32 x) \<Longrightarrow> parse_f32 fp (pf (f64_of_f32 x)) = Inr x"
  by (simp add: prints_floats_def reads_back_def)

section \<open>Trees\<close>

lemma ensureUtf8_ok: "utf8ValidateSlice s \<Longrightarrow> ensureUtf8 s = Inr ()"
  by (simp add: ensureUtf8_def)

lemma finite_checks: "isFinite v \<Longrightarrow> \<not> (isNan v \<or> isPositiveInf v \<or> isNegativeInf v)"
  by (simp add: isFinite_def)

lemma value_text:
  "prints_floats fp pf \<Longrightarrow> wellformed v \<Longrightarrow> \<exists>t j. Value_jsonStringify pf v = Inr t \<and> denotes fp t j \<and> valueFromJsonValue fp j = Inr v"
  "prints_floats fp pf \<Longrightarrow> list_all (\<lambda>f. utf8ValidateSlice (fst f) \<and> wellformed (snd f)) fs \<Longrightarrow> \<exists>ts es.
      fieldsToJson pf i fs = Inr (commas i (map (\<lambda>(key, t). member key t) ts)) \<and>
      list_all2 (\<lambda>(key, t) (key', j). key' = key \<and> utf8ValidateSlice key \<and> denotes fp t j) ts es \<and>
      map fst es = map fst fs \<and> structFieldsFromJson fp es = Inr fs"
  "prints_floats fp pf \<Longrightarrow> list_all wellformed vs \<Longrightarrow> \<exists>ts js. valuesToJson pf i vs = Inr (commas i ts) \<and> list_all2 (denotes fp) ts js \<and>
      valuesFromJson fp js = Inr vs"
proof (induction pf v and pf i fs and pf i vs rule: Value_jsonStringify_fieldsToJson_valuesToJson.induct)
  case (2 pf v)
  then have v: "isFinite v" by simp
  show ?case
    using 2(1) v
  proof (cases rule: number_token)
    case float
    then show ?thesis using denotes_float [OF 2(1) v float] finite_checks [OF v] v by auto
  next
    case (integer n)
    then show ?thesis using denotes_float [OF 2(1) v integer(1)] finite_checks [OF v] by fastforce
  next
    case token
    then show ?thesis using denotes_float [OF 2(1) v token] finite_checks [OF v] v parse_f64_back [OF 2(1) v] by fastforce
  qed
next
  case (3 pf s)
  then have s: "utf8ValidateSlice s" by simp
  show ?case
    by (intro exI [of _ "stringifyString s"] exI [of _ "Json_string s"]) (use s denotes_string [OF s] in \<open>simp add: ensureUtf8_def\<close>)
next
  case (5 pf fs)
  then obtain ts es where f: "fieldsToJson pf 0 fs = Inr (commas 0 (map (\<lambda>(key, t). member key t) ts))"
    "list_all2 (\<lambda>(key, t) (key', j). key' = key \<and> utf8ValidateSlice key \<and> denotes fp t j) ts es"
    "map fst es = map fst fs" "structFieldsFromJson fp es = Inr fs" by auto
  have "distinct (map fst es)" using 5(3) f(3) by simp
  then show ?case using denotes_object [OF f(2)] f(1,4) by fastforce
next
  case (6 pf vs)
  then obtain ts js where f: "valuesToJson pf 0 vs = Inr (commas 0 ts)" "list_all2 (denotes fp) ts js" "valuesFromJson fp js = Inr vs" by auto
  then show ?case using denotes_array [OF f(2)] by fastforce
next
  case (8 pf i key v fs)
  have key: "utf8ValidateSlice key" and wf: "wellformed v" "list_all (\<lambda>f. utf8ValidateSlice (fst f) \<and> wellformed (snd f)) fs" using 8(4) by simp_all
  have e: "ensureUtf8 key = Inr ()" using key by simp
  obtain t j where t: "Value_jsonStringify pf v = Inr t" "denotes fp t j" "valueFromJsonValue fp j = Inr v"
    using 8(1) [OF e 8(3) wf(1)] by blast
  obtain ts es where f: "fieldsToJson pf (i + 1) fs = Inr (commas (i + 1) (map (\<lambda>(key, t). member key t) ts))"
    "list_all2 (\<lambda>(key, t) (key', j). key' = key \<and> utf8ValidateSlice key \<and> denotes fp t j) ts es"
    "map fst es = map fst fs" "structFieldsFromJson fp es = Inr fs" using 8(2) [OF e t(1) 8(3) wf(2)] by blast
  show ?case
    by (intro exI [of _ "(key, t) # ts"] exI [of _ "(key, j) # es"])
      (use t f key in \<open>simp add: member_def [of key t] ensureUtf8_def\<close>)
next
  case (10 pf i v vs)
  have wf: "wellformed v" "list_all wellformed vs" using 10(4) by simp_all
  obtain t j where t: "Value_jsonStringify pf v = Inr t" "denotes fp t j" "valueFromJsonValue fp j = Inr v"
    using 10(1) [OF 10(3) wf(1)] by blast
  obtain ts js where f: "valuesToJson pf (i + 1) vs = Inr (commas (i + 1) ts)" "list_all2 (denotes fp) ts js" "valuesFromJson fp js = Inr vs"
    using 10(2) [OF t(1) 10(3) wf(2)] by blast
  show ?case
    by (intro exI [of _ "t # ts"] exI [of _ "j # js"]) (use t f in simp)
next
  case (1 pf)
  show ?case by (intro exI [of _ "path_bytes ''null''"] exI [of _ Json_null]) (simp add: denotes_literal)
next
  case (4 pf b)
  show ?case by (intro exI [of _ "path_bytes (if b then ''true'' else ''false'')"] exI [of _ "Json_bool b"]) (simp add: denotes_literal)
next
  case (9 pf i)
  show ?case by (intro exI [of _ "[]"]) simp
qed simp_all

lemma struct_text:
  assumes "prints_floats fp pf" "wellformed (Struct_value fs)"
  shows "\<exists>t j. Struct_jsonStringify pf fs = Inr t \<and> denotes fp t j \<and> structFromJsonValue fp j = Inr fs"
proof -
  obtain ts es where f: "fieldsToJson pf 0 fs = Inr (commas 0 (map (\<lambda>(key, t). member key t) ts))"
    "list_all2 (\<lambda>(key, t) (key', j). key' = key \<and> utf8ValidateSlice key \<and> denotes fp t j) ts es"
    "map fst es = map fst fs" "structFieldsFromJson fp es = Inr fs" using value_text(2) [OF assms(1), of fs 0] assms(2) by auto
  have "distinct (map fst es)" using assms(2) f(3) by simp
  then show ?thesis using denotes_object [OF f(2)] f(1,4) by (fastforce simp: Struct_jsonStringify_def)
qed

lemma list_text:
  assumes "prints_floats fp pf" "wellformed (List_value vs)"
  shows "\<exists>t j. ListValue_jsonStringify pf vs = Inr t \<and> denotes fp t j \<and> listValueFromJsonValue fp j = Inr vs"
proof -
  obtain ts js where f: "valuesToJson pf 0 vs = Inr (commas 0 ts)" "list_all2 (denotes fp) ts js" "valuesFromJson fp js = Inr vs"
    using value_text(3) [OF assms(1), of vs 0] assms(2) by auto
  then show ?thesis using denotes_array [OF f(2)] by (fastforce simp: ListValue_jsonStringify_def)
qed

section \<open>Wrappers\<close>

text \<open>The wrappers whose text says everything about them: JSON has only one NaN.\<close>

fun printable_wrapper :: "Wrapper \<Rightarrow> bool" where
  "printable_wrapper (Wrap_double v) = (isNan v \<longrightarrow> v = 0x7FF8000000000000)"
| "printable_wrapper (Wrap_float v) = (isNan (f64_of_f32 v) \<longrightarrow> v = 0x7FC00000)"
| "printable_wrapper w = True"

lemma special_names:
  "plain (path_bytes ''NaN'')" "plain (path_bytes ''Infinity'')" "plain (path_bytes ''-Infinity'')"
  by (simp_all add: path_bytes_def mustEscape_def)

lemma not_numbers:
  "scanNumber (path_bytes ''NaN'') \<noteq> Inr r" "scanNumber (path_bytes ''Infinity'') \<noteq> Inr r" "scanNumber (path_bytes ''-Infinity'') \<noteq> Inr r"
  by (simp_all add: path_bytes_def scanNumber_def scanUnsigned_def scanDigits_def behind_def digitByte_def)

lemma number_not_special: "scanNumber s = Inr (s, []) \<Longrightarrow> parseWrapperSpecialFloat a b c s = None"
  using not_numbers by (auto simp: parseWrapperSpecialFloat_def)

lemma printed_finite:
  assumes "prints_floats fp pf" "isFinite v"
  shows "writeFloatJson pf v = pf v" "scanNumber (pf v) = Inr (pf v, [])"
  using assms finite_checks [OF assms(2)] by (simp_all add: writeFloatJson_def prints_floats_def)

lemma printed_special:
  "writeFloatJson pf 0x7FF8000000000000 = stringifyString (path_bytes ''NaN'')"
  "writeFloatJson pf 0x7FF0000000000000 = stringifyString (path_bytes ''Infinity'')"
  "writeFloatJson pf 0xFFF0000000000000 = stringifyString (path_bytes ''-Infinity'')"
  by (simp_all add: writeFloatJson_def isNan_def isPositiveInf_def isNegativeInf_def)

lemma read_special:
  "specialDouble (path_bytes ''NaN'') = Some 0x7FF8000000000000" "specialDouble (path_bytes ''Infinity'') = Some 0x7FF0000000000000"
  "specialDouble (path_bytes ''-Infinity'') = Some 0xFFF0000000000000"
  "specialFloat (path_bytes ''NaN'') = Some 0x7FC00000" "specialFloat (path_bytes ''Infinity'') = Some 0x7F800000"
  "specialFloat (path_bytes ''-Infinity'') = Some 0xFF800000"
  by (simp_all add: specialDouble_def specialFloat_def parseWrapperSpecialFloat_def path_bytes_def)

lemma widened_special:
  "f64_of_f32 0x7FC00000 = 0x7FF8000000000000" "f64_of_f32 0x7F800000 = 0x7FF0000000000000" "f64_of_f32 0xFF800000 = 0xFFF0000000000000"
  by (simp_all add: f64_of_f32_def)

abbreviation reads_wrapper :: "float_parser \<Rightarrow> bytes \<Rightarrow> JsonValue \<Rightarrow> Wrapper \<Rightarrow> bool" where
  "reads_wrapper fp t j w \<equiv> denotes fp t j \<and> wrapperFromJsonValue fp (scalar_of w) j = Some (Inr w)"

lemma special_wrappers:
  assumes "s \<in> {''NaN'', ''Infinity'', ''-Infinity''}"
  shows "specialDouble (path_bytes s) = Some v \<Longrightarrow> reads_wrapper fp (stringifyString (path_bytes s)) (Json_string (path_bytes s)) (Wrap_double v)"
    "specialFloat (path_bytes s) = Some x \<Longrightarrow> reads_wrapper fp (stringifyString (path_bytes s)) (Json_string (path_bytes s)) (Wrap_float x)"
proof -
  have "plain (path_bytes s)" using special_names assms by auto
  note d = denotes_string [OF plain_utf8 [OF this], of fp]
  show "specialDouble (path_bytes s) = Some v \<Longrightarrow> reads_wrapper fp (stringifyString (path_bytes s)) (Json_string (path_bytes s)) (Wrap_double v)"
    "specialFloat (path_bytes s) = Some x \<Longrightarrow> reads_wrapper fp (stringifyString (path_bytes s)) (Json_string (path_bytes s)) (Wrap_float x)"
    using d by (simp_all add: wrapperFromJsonValue_def)
qed

lemma double_text:
  assumes "prints_floats fp pf" "printable_wrapper (Wrap_double v)"
  shows "\<exists>j. reads_wrapper fp (writeFloatJson pf v) j (Wrap_double v)"
proof (cases "isFinite v")
  case True
  note p = printed_finite [OF assms(1) True]
  from assms(1) True show ?thesis
  proof (cases rule: number_token)
    case float
    then show ?thesis using denotes_float [OF assms(1) True float] p
      by (intro exI [of _ "Json_float v"]) (simp add: wrapperFromJsonValue_def)
  next
    case (integer n)
    then show ?thesis using denotes_float [OF assms(1) True integer(1)] p
      by (intro exI [of _ "Json_integer n"]) (simp add: wrapperFromJsonValue_def)
  next
    case token
    then show ?thesis using denotes_float [OF assms(1) True token] p parse_f64_back [OF assms(1) True]
      by (intro exI [of _ "Json_number_string (pf v)"]) (simp add: wrapperFromJsonValue_def specialDouble_def number_not_special)
  qed
next
  case False
  then have "v = 0x7FF8000000000000 \<or> v = 0x7FF0000000000000 \<or> v = 0xFFF0000000000000"
    using assms(2) by (auto simp: isFinite_def isPositiveInf_def isNegativeInf_def)
  then have "\<exists>s \<in> {''NaN'', ''Infinity'', ''-Infinity''}. writeFloatJson pf v = stringifyString (path_bytes s) \<and> specialDouble (path_bytes s) = Some v"
    by (elim disjE) (simp_all add: printed_special read_special)
  then show ?thesis using special_wrappers(1) by metis
qed

lemma float_text:
  assumes "prints_floats fp pf" "printable_wrapper (Wrap_float x)"
  shows "\<exists>j. reads_wrapper fp (writeFloatJson pf (f64_of_f32 x)) j (Wrap_float x)"
proof (cases "unat x div 2 ^ 23 mod 2 ^ 8 = 255")
  case False
  note w = f32_of_f64_of_f32 [OF False]
  note p = printed_finite [OF assms(1) w(1)]
  from assms(1) w(1) show ?thesis
  proof (cases rule: number_token)
    case float
    then show ?thesis using denotes_float [OF assms(1) w(1) float] p w(2)
      by (intro exI [of _ "Json_float (f64_of_f32 x)"]) (simp add: wrapperFromJsonValue_def)
  next
    case (integer n)
    then show ?thesis using denotes_float [OF assms(1) w(1) integer(1)] p
      by (intro exI [of _ "Json_integer n"]) (simp add: wrapperFromJsonValue_def)
  next
    case token
    then show ?thesis using denotes_float [OF assms(1) w(1) token] p parse_f32_back [OF assms(1) w(1)]
      by (intro exI [of _ "Json_number_string (pf (f64_of_f32 x))"]) (simp add: wrapperFromJsonValue_def specialFloat_def number_not_special)
  qed
next
  case True
  then have "x = 0x7FC00000 \<or> x = 0x7F800000 \<or> x = 0xFF800000" using f64_of_f32_special assms(2) by auto
  then have "\<exists>s \<in> {''NaN'', ''Infinity'', ''-Infinity''}. writeFloatJson pf (f64_of_f32 x) = stringifyString (path_bytes s) \<and> specialFloat (path_bytes s) = Some x"
    by (elim disjE) (simp_all add: printed_special read_special widened_special)
  then show ?thesis using special_wrappers(2) by metis
qed

lemma plain_printInt: "plain (printInt n)"
proof -
  have digit: "\<not> mustEscape b \<and> b < 0x80" if "digitByte b" for b
    using that by (auto simp: digitByte_def mustEscape_def word_le_nat_alt word_less_nat_alt word_unat_eq_iff)
  have "plain (path_bytes (decimal k))" for k
    using digit set_path_digits [OF digits_decimal] by (auto simp: plain_def)
  then show ?thesis by (simp add: printInt_def path_bytes_def mustEscape_def)
qed

lemma plain_base64: "plain (base64Encode standardChar padded bs)"
proof -
  have char: "\<not> mustEscape (standardChar d) \<and> standardChar d < 0x80" if "d < 64" for d
  proof -
    from that consider "d = 62" | "d = 63" | "d < 62" by linarith
    then show ?thesis
      by cases (auto simp: standardChar_def mustEscape_def word_less_nat_alt word_unat_eq_iff unat_letterChar)
  qed
  then show ?thesis by (auto simp: plain_def base64Encode_def mustEscape_def dest: sextets_range)
qed

lemma denotes_printInt:
  assumes "int_range is_signed bits n" "bits \<in> {32, 64}" "bits = 64 \<Longrightarrow> is_signed"
  shows "denotes fp (printInt n) (Json_integer (word_of_int n))" "sint (word_of_int n :: i64) = n"
proof -
  have "fits 64 n" using assms by (auto simp: int_range_def fits_def fits_unsigned_def split: if_splits)
  then show "denotes fp (printInt n) (Json_integer (word_of_int n))" "sint (word_of_int n :: i64) = n"
    by (simp_all add: denotes_int sint_of_fits)
qed

lemma in_ranges:
  "int_range True 64 (sint (a :: i64))" "int_range False 64 (uint (b :: u64))" "int_range True 32 (sint (c :: i32))" "int_range False 32 (uint (d :: u32))"
  using sint_range_size [of a] sint_range_size [of c] uint_range_size [of b] uint_range_size [of d]
  by (simp_all add: int_range_def fits_def fits_unsigned_def word_size)

lemma decode_printed_base64: "decodeBase64 (base64Encode standardChar padded bs) = Some (Inr bs)"
  using encoders_strict(1) by (simp add: decodeBase64_iff(2))

lemma wrapper_text:
  assumes "prints_floats fp pf" "wrapper_ok w" "printable_wrapper w"
  shows "\<exists>t j. Wrapper_jsonStringify pf w = Inr t \<and> reads_wrapper fp t j w"
proof (cases w)
  case (Wrap_double v)
  then show ?thesis using double_text assms by simp
next
  case (Wrap_float v)
  then show ?thesis using float_text assms by simp
next
  case (Wrap_int64 v)
  then show ?thesis using denotes_quoted [OF plain_printInt] parseIntText_printInt [OF in_ranges(1)]
    by (intro exI [of _ "quoted (printInt (sint v))"] exI [of _ "Json_string (printInt (sint v))"]) (simp add: wrapperFromJsonValue_def)
next
  case (Wrap_uint64 v)
  then show ?thesis using denotes_quoted [OF plain_printInt] parseIntText_printInt [OF in_ranges(2)]
    by (intro exI [of _ "quoted (printInt (uint v))"] exI [of _ "Json_string (printInt (uint v))"]) (simp add: wrapperFromJsonValue_def)
next
  case (Wrap_int32 v)
  then show ?thesis using denotes_printInt [OF in_ranges(3)] in_ranges(3) [of v]
    by (intro exI [of _ "printInt (sint v)"] exI [of _ "Json_integer (word_of_int (sint v))"]) (simp add: wrapperFromJsonValue_def)
next
  case (Wrap_uint32 v)
  then show ?thesis using denotes_printInt [OF in_ranges(4)] in_ranges(4) [of v]
    by (intro exI [of _ "printInt (uint v)"] exI [of _ "Json_integer (word_of_int (uint v))"]) (simp add: wrapperFromJsonValue_def)
next
  case (Wrap_bool v)
  then show ?thesis
    by (intro exI [of _ "path_bytes (if v then ''true'' else ''false'')"] exI [of _ "Json_bool v"]) (simp add: wrapperFromJsonValue_def denotes_literal)
next
  case (Wrap_string v)
  then have s: "utf8ValidateSlice v" using assms(2) by (simp add: wrapper_ok_def)
  then show ?thesis using Wrap_string
    by (intro exI [of _ "stringifyString v"] exI [of _ "Json_string v"])
      (simp add: wrapperFromJsonValue_def denotes_string ensureUtf8_def)
next
  case (Wrap_bytes v)
  then show ?thesis using denotes_quoted [OF plain_base64]
    by (intro exI [of _ "quoted (base64Encode standardChar True v)"] exI [of _ "Json_string (base64Encode standardChar True v)"])
      (simp add: wrapperFromJsonValue_def decode_printed_base64)
qed

end
