(* ===== verification/Wkt_JsonRoundtrip.thy ===== *)
theory Wkt_JsonRoundtrip
  imports Wkt_JsonText
begin

text \<open>
  What the printed text of a message of \<open>src/wkt.zig\<close> is read back as: the messages with a text form, \<open>Any\<close>
  with any of them inside, and the theorems about the JSON texts of all messages. The
  hypothesis on floats is met by a printer that writes their bits.
\<close>

section \<open>Messages with a text form\<close>

definition plain_char :: "char \<Rightarrow> bool" where
  "plain_char c \<longleftrightarrow> (0x20 :: nat) \<le> of_char c \<and> (of_char c :: nat) < 0x80 \<and> c \<noteq> CHR 0x22 \<and> c \<noteq> CHR 0x5C"

lemma char_numbers: "c = CHR 0x22 \<longleftrightarrow> of_char c = (34 :: nat)" "c = CHR 0x5C \<longleftrightarrow> of_char c = (92 :: nat)"
proof -
  have char: "c = char_of n" if "of_char c = n" for n :: nat using that by (simp flip: that)
  show "c = CHR 0x22 \<longleftrightarrow> of_char c = (34 :: nat)" "c = CHR 0x5C \<longleftrightarrow> of_char c = (92 :: nat)"
    using char [of 34] char [of 92] by (auto simp: char_of_def bit_0)
qed

lemma plain_path: "plain (path_bytes s) \<longleftrightarrow> list_all plain_char s"
proof -
  have "\<not> mustEscape (of_nat (of_char c)) \<and> (of_nat (of_char c) :: byte) < 0x80 \<longleftrightarrow> plain_char c" for c
  proof -
    have "unat (of_nat (of_char c) :: byte) = of_char c" by (simp add: unat_of_nat of_char_mod_256)
    then show ?thesis
      by (auto simp: mustEscape_def plain_char_def word_less_nat_alt word_unat_eq_iff char_numbers)
  qed
  then show ?thesis by (simp add: plain_def path_bytes_def list_all_iff)
qed

lemma plain_char_digit: "isDigit c \<Longrightarrow> plain_char c"
  by (auto simp: plain_char_def isDigit_def)

lemma plain_digits: "digits s \<Longrightarrow> list_all plain_char s"
  using plain_char_digit by (simp add: digits_def list_all_iff)

lemma plain_printFraction: "n < 10 ^ 9 \<Longrightarrow> list_all plain_char (printFraction n)"
  using writeCanonicalFraction_parts [of n] plain_digits by (fastforce simp: printFraction_def plain_char_def)

lemma plain_payload:
  assumes "list_all plain_char s"
  shows "jsonStringPayload err (CHR 0x22 # s @ [CHR 0x22]) = Inr s" "jsonStringPayload err s = Inr s"
proof -
  have no: "CHR 0x5C \<notin> set s" "CHR 0x22 \<notin> set s" using assms by (auto simp: list_all_iff plain_char_def)
  from no(1) show "jsonStringPayload err (CHR 0x22 # s @ [CHR 0x22]) = Inr s" by (rule jsonStringPayload_plain)
  show "jsonStringPayload err s = Inr s" using no(2) by (cases s) (auto simp: jsonStringPayload_def)
qed

text \<open>The printed text is a JSON string; its contents are parsed as the text is, with its quotes.\<close>

definition printed_as :: "string \<Rightarrow> string \<Rightarrow> bool" where
  "printed_as printed s \<longleftrightarrow> printed = CHR 0x22 # s @ [CHR 0x22] \<and> list_all plain_char s"

lemma printed_as_text:
  assumes "printed_as printed s"
  shows "path_bytes printed = quoted (path_bytes s)" "denotes fp (path_bytes printed) (Json_string (path_bytes s))"
    "textFromJson (Json_string (path_bytes s)) = Inr s"
    "Timestamp_jsonParse s = Timestamp_jsonParse printed" "Duration_jsonParse s = Duration_jsonParse printed" "FieldMask_jsonParse s = FieldMask_jsonParse printed"
proof -
  show q: "path_bytes printed = quoted (path_bytes s)" using assms by (simp add: printed_as_def quoted_def path_bytes_def)
  show "denotes fp (path_bytes printed) (Json_string (path_bytes s))"
    unfolding q using assms by (intro denotes_quoted) (simp add: printed_as_def plain_path)
  have payload: "jsonStringPayload err s = jsonStringPayload err printed" for err :: wkt_error
    using assms by (simp add: printed_as_def plain_payload)
  show "Timestamp_jsonParse s = Timestamp_jsonParse printed" "Duration_jsonParse s = Duration_jsonParse printed" "FieldMask_jsonParse s = FieldMask_jsonParse printed"
    unfolding Timestamp_jsonParse_def Duration_jsonParse_def FieldMask_jsonParse_def payload by (rule refl)+
qed simp

lemma timestamp_text:
  assumes "Timestamp_validate t = Inr ()"
  shows "\<exists>printed s. Timestamp_jsonStringify t = Some (Inr printed) \<and> printed_as printed s \<and> Timestamp_jsonParse s = Some (Inr t)"
proof (rule Timestamp_jsonStringify_valid [OF assms])
  fix d h m s
  assume p: "nat (sint (nanos t)) < 10 ^ 9"
    "Timestamp_jsonStringify t = Some (Inr (printTimestamp (nat (date_year d)) (nat (date_month d)) (nat (date_day d)) h m s (nat (sint (nanos t)))))"
  let ?s = "printDateTime (nat (date_year d)) (nat (date_month d)) (nat (date_day d)) h m s @ printFraction (nat (sint (nanos t))) @ ''Z''"
  have "list_all plain_char ?s"
    using plain_printFraction [OF p(1)] plain_digits [OF digits_printPadded] by (simp add: printDateTime_def plain_char_def)
  then have q: "printed_as (printTimestamp (nat (date_year d)) (nat (date_month d)) (nat (date_day d)) h m s (nat (sint (nanos t)))) ?s"
    by (simp add: printed_as_def printTimestamp_def)
  then show ?thesis using p(2) Timestamp_json_back [OF assms] printed_as_text(4) [OF q] by auto
qed

lemma duration_text:
  assumes "Duration_validate t = Inr ()"
  shows "\<exists>printed s. Duration_jsonStringify t = Some (Inr printed) \<and> printed_as printed s \<and> Duration_jsonParse s = Some (Inr t)"
proof -
  let ?n = "nat \<bar>sint (nanos t)\<bar>"
  have "?n < 10 ^ 9" using assms by (auto simp: Duration_validate_def split: if_splits)
  then have fraction: "list_all plain_char (if sint (nanos t) \<noteq> 0 then writeCanonicalFraction ?n else [])"
    using plain_printFraction [of ?n] by (auto simp: printFraction_def)
  obtain printed where d: "Duration_jsonStringify t = Some (Inr printed)" "Duration_jsonParse printed = Some (Inr t)" using Duration_json_back [OF assms] by blast
  then obtain s where "printed_as printed s"
    using fraction plain_digits [OF digits_decimal]
    by (fastforce simp: Duration_jsonStringify_def assms printed_as_def plain_char_def)
  then show ?thesis using d printed_as_text(5) by fastforce
qed

lemma plain_camel:
  "validatePathLoop after_dot underscore path \<Longrightarrow> list_all plain_char (writeLowerCamelPath underscore path)"
proof (induction after_dot underscore path rule: validatePathLoop.induct)
  case (2 after_dot underscore d cs)
  have letter: "isLower c \<or> isUpper c \<Longrightarrow> plain_char c" for c by (auto simp: plain_char_def isLower_def isUpper_def)
  then show ?case using 2 plain_char_digit [of d] letters(1) [of d] by (auto split: if_splits simp: plain_char_def)
qed simp

lemma field_mask_text:
  assumes "FieldMask_validate m = Inr ()"
  shows "\<exists>printed s. FieldMask_jsonStringify m = Inr printed \<and> printed_as printed s \<and> FieldMask_jsonParse s = Inr m"
proof -
  have "list_all plain_char (writePathsJson i m)" for i
    using assms plain_camel [of True False] unfolding FieldMask_validate_iff
    by (induction m arbitrary: i) (auto simp: validateFieldMaskPath_def plain_char_def split: if_splits)
  then have p: "printed_as (CHR 0x22 # writePathsJson 0 m @ [CHR 0x22]) (writePathsJson 0 m)" by (simp add: printed_as_def)
  show ?thesis
    using FieldMask_jsonParse_print [OF assms] p printed_as_text(6) [OF p] assms by (auto simp: FieldMask_jsonStringify_def)
qed

section \<open>Messages in an Any\<close>

fun kind_of :: "Known_message \<Rightarrow> AnyWellKnownKind" where
  "kind_of (Timestamp_message _) = Kind_timestamp"
| "kind_of (Duration_message _) = Kind_duration"
| "kind_of (Mask_message _) = Kind_field_mask"
| "kind_of (Any_message _) = Kind_any"
| "kind_of Empty_message = Kind_empty"
| "kind_of (Struct_message _) = Kind_struct"
| "kind_of (Value_message _) = Kind_value"
| "kind_of (List_message _) = Kind_list_value"
| "kind_of (Wrapper_message (Wrap_double _)) = Kind_double_value"
| "kind_of (Wrapper_message (Wrap_float _)) = Kind_float_value"
| "kind_of (Wrapper_message (Wrap_int64 _)) = Kind_int64_value"
| "kind_of (Wrapper_message (Wrap_uint64 _)) = Kind_uint64_value"
| "kind_of (Wrapper_message (Wrap_int32 _)) = Kind_int32_value"
| "kind_of (Wrapper_message (Wrap_uint32 _)) = Kind_uint32_value"
| "kind_of (Wrapper_message (Wrap_bool _)) = Kind_bool_value"
| "kind_of (Wrapper_message (Wrap_string _)) = Kind_string_value"
| "kind_of (Wrapper_message (Wrap_bytes _)) = Kind_bytes_value"

lemma kind_of_empty: "kind_of m = Kind_empty \<longleftrightarrow> m = Empty_message"
  by (cases m rule: kind_of.cases) simp_all

text \<open>
  The messages whose JSON text says everything about them. What an \<open>Any\<close> with a well-known type
  holds is the encoding of such a message; another one may hold any bytes.
\<close>

definition names_type :: "bytes \<Rightarrow> AnyWellKnownKind option \<Rightarrow> bool" where
  "names_type url kind \<longleftrightarrow> utf8ValidateSlice url \<and> anyTypeName url \<noteq> [] \<and> anyWellKnownKind (anyTypeName url) = kind"

inductive printable :: "Known_message \<Rightarrow> bool" where
  plain_message: "known_ok m \<Longrightarrow> kind_of m \<noteq> Kind_any \<Longrightarrow> (\<And>w. m = Wrapper_message w \<Longrightarrow> printable_wrapper w) \<Longrightarrow> printable m"
| any_bytes: "names_type url None \<Longrightarrow> fits_usize p \<Longrightarrow> printable (Any_message \<lparr>any_type_url = url, any_payload = p\<rparr>)"
| any_known: "names_type url (Some (kind_of m)) \<Longrightarrow> printable m \<Longrightarrow> fits_usize (known_enc m) \<Longrightarrow>
    printable (Any_message \<lparr>any_type_url = url, any_payload = known_enc m\<rparr>)"

definition anyMessageToJson :: "float_printer \<Rightarrow> Known_message \<Rightarrow> (wkt_error, bytes) outcome" where
  "anyMessageToJson pf m = (case m of Any_message inner \<Rightarrow> Any_jsonStringify pf inner | _ \<Rightarrow> messageToJson pf m)"

definition known_text :: "float_parser \<Rightarrow> float_printer \<Rightarrow> Known_message \<Rightarrow> bytes \<Rightarrow> JsonValue \<Rightarrow> bool" where
  "known_text fp pf m t j \<longleftrightarrow>
     anyMessageToJson pf m = Some (Inr t) \<and> denotes fp t j \<and> json_message fp (kind_of m) j = Some (Inr m)"

lemma plain_message_text:
  assumes "prints_floats fp pf" "known_ok m" "kind_of m \<noteq> Kind_any" "\<And>w. m = Wrapper_message w \<Longrightarrow> printable_wrapper w"
  shows "\<exists>t j. known_text fp pf m t j"
proof (cases m)
  case (Timestamp_message t)
  then show ?thesis using timestamp_text [of t] assms(2) printed_as_text(2,3)
    by (fastforce simp: known_text_def anyMessageToJson_def json_message.simps)
next
  case (Duration_message t)
  then show ?thesis using duration_text [of t] assms(2) printed_as_text(2,3)
    by (fastforce simp: known_text_def anyMessageToJson_def json_message.simps)
next
  case (Mask_message m)
  then show ?thesis using field_mask_text [of m] assms(2) printed_as_text(2,3)
    by (fastforce simp: known_text_def anyMessageToJson_def json_message.simps fieldMaskFromJsonValue_def)
next
  case (Any_message a)
  then show ?thesis using assms(3) by simp
next
  case Empty_message
  then show ?thesis using denotes_object [of fp "[]" "[]"]
    by (intro exI [of _ Empty_jsonStringify] exI [of _ "Json_object []"])
      (simp add: known_text_def anyMessageToJson_def json_message.simps Empty_jsonStringify_def path_bytes_def)
next
  case (Struct_message fs)
  then show ?thesis using struct_text [OF assms(1), of fs] assms(2)
    by (fastforce simp: known_text_def anyMessageToJson_def json_message.simps simp del: wellformed.simps)
next
  case (Value_message v)
  then show ?thesis using value_text(1) [OF assms(1), of v] assms(2)
    by (fastforce simp: known_text_def anyMessageToJson_def json_message.simps)
next
  case (List_message vs)
  then show ?thesis using list_text [OF assms(1), of vs] assms(2)
    by (fastforce simp: known_text_def anyMessageToJson_def json_message.simps simp del: wellformed.simps)
next
  case (Wrapper_message w)
  then obtain t j where t: "Wrapper_jsonStringify pf w = Inr t" "reads_wrapper fp t j w"
    using wrapper_text [OF assms(1)] assms(2,4) by force
  have "json_message fp (kind_of m) j = mapping Wrapper_message (wrapperFromJsonValue fp (scalar_of w) j)"
    unfolding Wrapper_message by (cases w) (simp_all add: json_message.simps)
  then show ?thesis using t Wrapper_message
    by (intro exI [of _ t] exI [of _ j]) (simp add: known_text_def anyMessageToJson_def)
qed

text \<open>The envelope of an \<open>Any\<close>, with or without a value.\<close>

definition any_members :: "bytes \<Rightarrow> bytes option \<Rightarrow> (bytes \<times> bytes) list" where
  "any_members url v = (path_bytes ''@type'', stringifyString url) # (case v of None \<Rightarrow> [] | Some t \<Rightarrow> [(path_bytes ''value'', t)])"

definition any_text :: "bytes \<Rightarrow> bytes option \<Rightarrow> bytes" where
  "any_text url v = path_bytes ''{'' @ commas 0 (map (\<lambda>(key, t). member key t) (any_members url v)) @ path_bytes ''}''"

lemma any_names: "plain (path_bytes ''@type'')" "plain (path_bytes ''value'')" "path_bytes ''@type'' \<noteq> path_bytes ''value''"
  by (simp_all add: path_bytes_def mustEscape_def)

lemma denotes_any:
  assumes "utf8ValidateSlice url" "denotes fp t j"
  shows "denotes fp (any_text url None) (Json_object [(path_bytes ''@type'', Json_string url)])"
    "denotes fp (any_text url (Some t)) (Json_object [(path_bytes ''@type'', Json_string url), (path_bytes ''value'', j)])"
  unfolding any_text_def
  by (rule denotes_object; use assms denotes_string any_names plain_utf8 in \<open>simp add: any_members_def\<close>)+

lemma Any_jsonStringify_text:
  assumes "names_type url kind"
  shows "kind = Some Kind_empty \<Longrightarrow> Any_jsonStringify pf \<lparr>any_type_url = url, any_payload = []\<rparr> = Some (Inr (any_text url None))"
    "kind \<noteq> Some Kind_empty \<Longrightarrow> writeAnyWellKnownJsonValue pf (anyTypeName url) p = Some (Inr written) \<Longrightarrow>
      Any_jsonStringify pf \<lparr>any_type_url = url, any_payload = p\<rparr> =
        Some (Inr (any_text url (Some (case written of Some t \<Rightarrow> t | None \<Rightarrow> quoted (base64Encode standardChar True p)))))"
proof -
  have url: "url \<noteq> []" "anyTypeName url \<noteq> []" "ensureUtf8 url = Inr ()" "anyWellKnownKind (anyTypeName url) = kind"
    using assms anyTypeName_Nil by (auto simp: names_type_def ensureUtf8_def)
  note keys = plain_quoted [OF any_names(1)] plain_quoted [OF any_names(2)]
  show "kind = Some Kind_empty \<Longrightarrow> Any_jsonStringify pf \<lparr>any_type_url = url, any_payload = []\<rparr> = Some (Inr (any_text url None))"
    using url(1,2,4) unfolding Any_jsonStringify.simps Any_message.simps url(3)
    by (simp add: any_text_def any_members_def member_def keys Empty_decode_enc)
  show "kind \<noteq> Some Kind_empty \<Longrightarrow> writeAnyWellKnownJsonValue pf (anyTypeName url) p = Some (Inr written) \<Longrightarrow>
      Any_jsonStringify pf \<lparr>any_type_url = url, any_payload = p\<rparr> =
        Some (Inr (any_text url (Some (case written of Some t \<Rightarrow> t | None \<Rightarrow> quoted (base64Encode standardChar True p)))))"
    using url(1,2,4) unfolding Any_jsonStringify.simps Any_message.simps url(3)
    by (simp add: any_text_def any_members_def member_def keys)
qed

lemma json_any_text:
  assumes "names_type url kind"
  shows "kind = Some Kind_empty \<Longrightarrow> json_any fp (Json_object [(path_bytes ''@type'', Json_string url)]) = Some (Inr \<lparr>any_type_url = url, any_payload = []\<rparr>)"
    "kind = Some k \<Longrightarrow> json_any fp (Json_object [(path_bytes ''@type'', Json_string url), (path_bytes ''value'', j)]) =
      mapping (\<lambda>m. \<lparr>any_type_url = url, any_payload = known_enc m\<rparr>) (json_message fp k j)"
    "kind = None \<Longrightarrow> json_any fp (Json_object [(path_bytes ''@type'', Json_string url), (path_bytes ''value'', Json_string s)]) =
      mapping (\<lambda>p. \<lparr>any_type_url = url, any_payload = p\<rparr>) (decodeBase64 s)"
  using assms any_names(3) by (auto simp: json_any.simps names_type_def trying_def split: option.splits sum.splits)

lemma known_any_text:
  assumes "Any_jsonStringify pf a = Some (Inr t)" "denotes fp t j" "json_any fp j = Some (Inr a)"
  shows "known_text fp pf (Any_message a) t j"
  using assms by (simp add: known_text_def anyMessageToJson_def json_message.simps)

lemma message_text:
  assumes "prints_floats fp pf" "printable m"
  shows "\<exists>t j. known_text fp pf m t j"
  using assms(2)
proof induction
  case (plain_message m)
  then show ?case using plain_message_text [OF assms(1)] by blast
next
  case (any_bytes url p)
  let ?s = "base64Encode standardChar True p"
  have "writeAnyWellKnownJsonValue pf (anyTypeName url) p = Some (Inr None)"
    using any_bytes(1) by (simp add: names_type_def writeAnyWellKnownJsonValue.simps)
  then have "Any_jsonStringify pf \<lparr>any_type_url = url, any_payload = p\<rparr> = Some (Inr (any_text url (Some (quoted ?s))))"
    using Any_jsonStringify_text(2) [OF any_bytes(1)] by simp
  moreover have "denotes fp (any_text url (Some (quoted ?s))) (Json_object [(path_bytes ''@type'', Json_string url), (path_bytes ''value'', Json_string ?s)])"
    using any_bytes(1) denotes_any(2) [OF _ denotes_quoted [OF plain_base64]] by (simp add: names_type_def)
  moreover have "json_any fp (Json_object [(path_bytes ''@type'', Json_string url), (path_bytes ''value'', Json_string ?s)]) =
      Some (Inr \<lparr>any_type_url = url, any_payload = p\<rparr>)"
    using json_any_text(3) [OF any_bytes(1) refl] by (simp add: decode_printed_base64)
  ultimately show ?case by (intro exI, rule known_any_text)
next
  case (any_known url m)
  then obtain t j where t: "anyMessageToJson pf m = Some (Inr t)" "denotes fp t j" "json_message fp (kind_of m) j = Some (Inr m)"
    by (auto simp: known_text_def)
  have url: "utf8ValidateSlice url" using any_known(1) by (simp add: names_type_def)
  show ?case
  proof (cases "m = Empty_message")
    case True
    then have u: "names_type url (Some Kind_empty)" using any_known(1) by simp
    from known_any_text [OF Any_jsonStringify_text(1) [OF u refl] denotes_any(1) [OF url t(2)] json_any_text(1) [OF u refl]]
    show ?thesis unfolding True known_enc.simps by blast
  next
    case False
    then have kind: "Some (kind_of m) \<noteq> Some Kind_empty" by (simp add: kind_of_empty)
    have "writeAnyWellKnownJsonValue pf (anyTypeName url) (known_enc m) = Some (Inr (Some t))"
      using any_known(1) decodeKnown_enc [OF t(3) denotes_ok [OF t(2)] any_known(3)] t(1)
      by (simp add: names_type_def writeAnyWellKnownJsonValue.simps anyMessageToJson_def)
    from Any_jsonStringify_text(2) [OF any_known(1) kind this]
    have "Any_jsonStringify pf \<lparr>any_type_url = url, any_payload = known_enc m\<rparr> = Some (Inr (any_text url (Some t)))" by simp
    from known_any_text [OF this denotes_any(2) [OF url t(2)]] show ?thesis
      using json_any_text(2) [OF any_known(1) refl] t(3) by fastforce
  qed
qed

section \<open>No text makes the parsers panic\<close>

lemma parseWrapperInt_returns:
  assumes "bits = 32 \<or> bits = 64"
  shows "parseWrapperInt fp is_signed bits v \<noteq> None"
proof -
  have "wrapperFloatAsInt is_signed bits x \<noteq> None" for x
  proof (cases "isFinite x \<and> f64_one dvd f64_units x")
    case True
    then obtain n where "f64_units x = n * f64_one" by (metis dvd_div_mult_self)
    then show ?thesis using True wrapperFloatAsInt_exact [of x n bits is_signed] assms by simp
  qed (auto simp: wrapperFloatAsInt_def mod_eq_0_iff_dvd)
  then show ?thesis by (cases v) (auto simp: parseWrapperIntText_def split: sum.splits)
qed

lemma wrapperFromJsonValue_returns: "wrapperFromJsonValue fp scalar v \<noteq> None"
  using parseWrapperInt_returns [of _ fp _ v] decodeBase64_iff(1)
  by (cases scalar; cases v) (simp_all add: wrapperFromJsonValue_def trying_None del: not_None_eq parseWrapperInt.simps)

section \<open>An instance of the hypothesis\<close>

text \<open>A printer that writes the bits of a float, as a number with an exponent, and its parser.\<close>

definition bits_printer :: float_printer where
  "bits_printer v = path_bytes (decimal (unat v)) @ [0x65, 0x30]"

definition bits_of_text :: "bytes \<Rightarrow> u64" where
  "bits_of_text s = of_nat (undecimal (bytes_path (takeWhile digitByte s)))"

definition bits_parser :: float_parser where
  "bits_parser = \<lparr>parse_f64 = \<lambda>s. Inr (bits_of_text s), parse_f32 = \<lambda>s. Inr (f32_of_f64 (bits_of_text s))\<rparr>"

lemma bits_of_printed: "bits_of_text (bits_printer v) = v"
proof -
  have "takeWhile digitByte (path_bytes (decimal (unat v)) @ [0x65, 0x30]) = path_bytes (decimal (unat v))"
    using set_path_digits [OF digits_decimal] by (subst takeWhile_append2) (auto simp: digitByte_def)
  then show ?thesis by (simp add: bits_of_text_def bits_printer_def undecimal_decimal)
qed

lemma bits_printer_number: "scanNumber (bits_printer v) = Inr (bits_printer v, [])" "\<not> formattedLikeInteger (bits_printer v)"
proof -
  have e0: "scanFraction [0x65, 0x30] = Inr ([0x65, 0x30], [])"
    by (simp add: scanFraction_def scanExponent_def scanDigits_def behind_def digitByte_def)
  obtain c cs where c: "decimal (unat v) = c # cs" using decimal_not_Nil [of "unat v"] by (cases "decimal (unat v)") auto
  have "digitByte (of_nat (of_char c))"
    by (rule set_path_digits [OF digits_decimal, of _ "unat v"]) (simp add: c path_bytes_def)
  then have "of_nat (of_char c) \<noteq> (0x2D :: byte)" by (auto simp: digitByte_def)
  then show "scanNumber (bits_printer v) = Inr (bits_printer v, [])"
    using scanUnsigned_decimal_behind [OF e0, of "unat v"] by (simp add: bits_printer_def scanNumber_def c path_bytes_def digitByte_def)
qed (simp add: bits_printer_def formattedLikeInteger_def)

lemma bits_floats: "prints_floats bits_parser bits_printer"
proof -
  have "f32_of_f64 (f64_of_f32 x) = x" if "isFinite (f64_of_f32 x)" for x
  proof (rule f32_of_f64_of_f32(2), rule)
    assume "unat x div 2 ^ 23 mod 2 ^ 8 = 255"
    then show False using f64_of_f32_special that
      by (fastforce simp: isFinite_def isPositiveInf_def isNegativeInf_def widened_special)
  qed
  then show ?thesis
    by (simp add: prints_floats_def reads_numbers_def reads_back_def bits_parser_def bits_printer_number bits_of_printed)
qed

section \<open>Properties\<close>

text \<open>
  C17: a tree that the encoders accept (finite numbers, UTF-8 strings, no key twice) is printed,
  and its text is parsed to the same tree, as a \<open>Value\<close>, as a \<open>Struct\<close> and as a \<open>ListValue\<close>.
\<close>

theorem value_json_roundtrip:
  assumes "prints_floats fp pf"
  shows "(wellformed v \<longrightarrow> trying (Some (Value_jsonStringify pf v)) (Value_jsonParse fp) = Some (Inr v)) \<and>
    (wellformed (Struct_value fs) \<longrightarrow> trying (Some (Struct_jsonStringify pf fs)) (Struct_jsonParse fp) = Some (Inr fs)) \<and>
    (wellformed (List_value vs) \<longrightarrow> trying (Some (ListValue_jsonStringify pf vs)) (ListValue_jsonParse fp) = Some (Inr vs))"
  using value_text(1) [OF assms, of v] struct_text [OF assms, of fs] list_text [OF assms, of vs] denotes_top
  by (fastforce simp: Value_jsonParse_def Struct_jsonParse_def ListValue_jsonParse_def parseJsonValueForStruct_def simp del: wellformed.simps)

theorem value_json_roundtrip_witness:
  "trying (Some (Struct_jsonStringify bits_printer [([0x22, 0xC3, 0xA4], List_value [Number_value 0x8000000000000000, Null_value])]))
     (Struct_jsonParse bits_parser) = Some (Inr [([0x22, 0xC3, 0xA4], List_value [Number_value 0x8000000000000000, Null_value])])"
proof -
  have "wellformed (Struct_value [([0x22, 0xC3, 0xA4], List_value [Number_value 0x8000000000000000, Null_value])])"
    by (simp add: utf8ValidateSlice.simps(2) utf8Continues_def isFinite_def isNan_def isPositiveInf_def isNegativeInf_def)
  then show ?thesis using value_json_roundtrip [OF bits_floats] by blast
qed

text \<open>
  C29: parsing any text as JSON for a \<open>Value\<close>, \<open>Struct\<close>, \<open>ListValue\<close>, \<open>Empty\<close> or a wrapper returns, with a message or an
  error: no text makes it panic. A message that is returned is one that can be encoded: its
  numbers are finite, its strings are UTF-8 and no object has a key twice.
\<close>

theorem json_texts_parsed:
  assumes "reads_numbers fp"
  shows "Value_jsonParse fp s \<noteq> None \<and> Struct_jsonParse fp s \<noteq> None \<and> ListValue_jsonParse fp s \<noteq> None \<and>
    Empty_jsonParse fp s \<noteq> None \<and> Wrapper_jsonParse fp scalar s \<noteq> None \<and>
    (\<forall>v. Value_jsonParse fp s = Some (Inr v) \<longrightarrow> wellformed v) \<and>
    (\<forall>fs. Struct_jsonParse fp s = Some (Inr fs) \<longrightarrow> wellformed (Struct_value fs)) \<and>
    (\<forall>vs. ListValue_jsonParse fp s = Some (Inr vs) \<longrightarrow> wellformed (List_value vs)) \<and>
    (\<forall>w. Wrapper_jsonParse fp scalar s = Some (Inr w) \<longrightarrow> wrapper_ok w \<and> scalar_of w = scalar)"
  using parseFromSlice_returns [OF assms] parseFromSlice_ok [of fp _ s] valueFromJson_wellformed(1) [of fp] structFromJson_wellformed [of fp]
    wrapperFromJsonValue_returns [of fp scalar] wrapperFromJsonValue_ok [of fp scalar]
  by (auto simp: Value_jsonParse_def Struct_jsonParse_def ListValue_jsonParse_def Empty_jsonParse_def Wrapper_jsonParse_def
      parseJsonValueForStruct_def trying_None trying_Some simp del: wellformed.simps)

theorem json_texts_parsed_witness:
  "\<forall>s. Value_jsonParse bits_parser s \<noteq> None \<and> (\<forall>v. Value_jsonParse bits_parser s = Some (Inr v) \<longrightarrow> wellformed v)"
proof -
  have "reads_numbers bits_parser" using bits_floats by (simp add: prints_floats_def)
  from json_texts_parsed [OF this] show ?thesis by blast
qed

text \<open>
  C28: every wrapper is printed as JSON, and its text is parsed to the same wrapper: integers
  of 64 bits go through strings, an \<open>f32\<close> is widened, printed and narrowed again, bytes go
  through base64. The exception is that JSON has one NaN, so that its bits are lost.
\<close>

theorem wrapper_json_roundtrip:
  assumes "prints_floats fp pf" "wrapper_ok w" "printable_wrapper w"
  shows "trying (Some (Wrapper_jsonStringify pf w)) (Wrapper_jsonParse fp (scalar_of w)) = Some (Inr w)"
proof -
  obtain t j where t: "Wrapper_jsonStringify pf w = Inr t" "reads_wrapper fp t j w" using wrapper_text [OF assms] by blast
  then show ?thesis using denotes_top [of fp t j False] by (simp add: Wrapper_jsonParse_def)
qed

theorem wrapper_json_roundtrip_witness:
  "trying (Some (Wrapper_jsonStringify bits_printer (Wrap_float 0x80000001))) (Wrapper_jsonParse bits_parser Scalar_float) = Some (Inr (Wrap_float 0x80000001)) \<and>
   Wrapper_jsonStringify bits_printer (Wrap_uint64 0xFFFFFFFFFFFFFFFF) = Inr (path_bytes (CHR 0x22 # ''18446744073709551615'' @ [CHR 0x22]))"
proof
  have "isFinite (f64_of_f32 0x80000001)" by (rule f32_of_f64_of_f32(1)) simp
  then have "printable_wrapper (Wrap_float 0x80000001)" by (simp add: isFinite_def)
  from wrapper_json_roundtrip [OF bits_floats _ this]
  show "trying (Some (Wrapper_jsonStringify bits_printer (Wrap_float 0x80000001))) (Wrapper_jsonParse bits_parser Scalar_float) = Some (Inr (Wrap_float 0x80000001))"
    by (simp add: wrapper_ok_def)
qed (simp add: quoted_def printInt_def decimal.simps path_bytes_def char_of_def bit_0)

text \<open>
  C22: an \<open>Any\<close> is printed as JSON and its text is parsed to the same \<open>Any\<close>, with the same type URL
  and the same payload, byte for byte, unless memory is refused. This holds for a payload
  of any bytes under a type that is not known, and for the encoding of a message of each of
  the seventeen well-known types, with one \<open>Any\<close> inside another to any depth.
\<close>

theorem any_json_text_roundtrip:
  assumes "prints_floats fp pf" "printable (Any_message a)"
  shows "\<exists>t. Any_jsonStringify pf a = Some (Inr t) \<and>
    (\<forall>al. \<exists>r al'. Any_jsonParse fp t al = Some (r, al') \<and> (r = Inl (WriteFailed OutOfMemory) \<or> r = Inr a))"
proof -
  obtain t j where t: "Any_jsonStringify pf a = Some (Inr t)" "denotes fp t j" "json_any fp j = Some (Inr a)"
    using message_text [OF assms] by (auto simp: known_text_def anyMessageToJson_def json_message.simps mapping_Some)
  have "fits_usize (any_payload a)" using assms(2) by cases simp_all
  then have enc: "encodes True (anyFromJsonValue fp j) a" using json_converts(1) [OF denotes_ok [OF t(2)], of fp] t(3) by (simp add: yields_def)
  have "\<exists>r al'. Any_jsonParse fp t al = Some (r, al') \<and> (r = Inl (WriteFailed OutOfMemory) \<or> r = Inr a)" for al
    using enc
  proof (cases rule: encodesE [where al = al])
    case (ok al')
    then show ?thesis using denotes_top [OF t(2)] by (simp add: Any_jsonParse_def liftOutcome_def tryIn_def)
  qed (use denotes_top [OF t(2)] in \<open>simp_all add: Any_jsonParse_def liftOutcome_def tryIn_def failed_def\<close>)
  then show ?thesis using t(1) by blast
qed

theorem any_json_text_roundtrip_witness:
  "\<exists>t. Any_jsonStringify bits_printer \<lparr>any_type_url = path_bytes ''x/google.protobuf.BoolValue'', any_payload = [8, 1]\<rparr> = Some (Inr t) \<and>
    (\<forall>al. \<exists>r al'. Any_jsonParse bits_parser t al = Some (r, al') \<and>
      (r = Inl (WriteFailed OutOfMemory) \<or> r = Inr \<lparr>any_type_url = path_bytes ''x/google.protobuf.BoolValue'', any_payload = [8, 1]\<rparr>))"
proof -
  let ?m = "Wrapper_message (Wrap_bool True)" and ?url = "path_bytes ''x/google.protobuf.BoolValue''"
  have enc: "known_enc ?m = [8, 1]" by (simp add: bool_enc_def tag_enc_def varint_enc_small)
  have name: "anyTypeName ?url = path_bytes ''google.protobuf.BoolValue''" by code_simp
  have "names_type ?url (Some (kind_of ?m))"
    unfolding names_type_def name kind_of.simps bool_value_name by (simp add: path_bytes_def utf8ValidateSlice.simps(2))
  moreover have "printable ?m" by (rule plain_message) (simp_all add: wrapper_ok_def)
  ultimately have "printable (Any_message \<lparr>any_type_url = ?url, any_payload = known_enc ?m\<rparr>)"
    by (rule any_known [OF _ _ bool_value_fits])
  from any_json_text_roundtrip [OF bits_floats this [unfolded enc]] show ?thesis .
qed

end
