(* ===== verification/Spec2Isabelle.thy ===== *)
theory Spec2Isabelle
  imports Wire_Views Cpp_Program Wkt_JsonRoundtrip
begin

text \<open>
  A model of pbz, a protobuf toolkit in Zig with a C++ baseline program, and the theorems
  that make the modelled parts correct.

  \<^bold>\<open>The program.\<close> \<open>src/wire.zig\<close> is the bottom layer of the toolkit: tags, varints, the cursor
  \<open>Reader\<close>, the growable \<open>Writer\<close> and the store of unknown fields; generated messages, dynamic
  messages, JSON and text format are built on it. \<open>src/wkt.zig\<close> is the next layer: the
  well-known types, with their wire codecs on \<open>Reader\<close> and \<open>Writer\<close> and their special forms in
  JSON. \<open>bench/cpp_protobuf/main.cc\<close> is the program
  that measures Google's C++ protobuf on the messages of \<open>examples/proto/person.proto\<close>: it
  builds payloads, checks that the library reads back what it wrote, prints the sizes of all
  payloads and then runs and prints 474 benchmarks. The two parts meet in the wire format:
  \<open>AppendVarint\<close> of \<open>main.cc\<close> is proved to write what \<open>readVarintAt\<close> of \<open>wire.zig\<close> reads.

  \<^bold>\<open>The theories.\<close>

  \<^item> \<open>Pbz_Base\<close>: machine types, stores into a buffer (\<open>None\<close> is a panic of the safe build), the
    type of operations on a state (a panic, or an error or a value with the new state), integer
    ranges, decimal digits, and the arithmetic of bit operations.
  \<^item> \<open>Wire_Types\<close> (\<open>wire.zig\<close> 1--103): \<open>Error\<close>, \<open>WireType\<close>, \<open>Tag\<close>, zig-zag, \<open>encodedVarintSize\<close>,
    \<open>bytesLessThan\<close>. Encoding and decoding of tags are inverse to each other, zig-zag is a
    bijection, the word-wise comparison is the lexicographic order.
  \<^item> \<open>Wire_Varint\<close> (620--762, 1565--1780): the unrolled varint writers and readers. \<open>varint_enc\<close>
    and \<open>varint_parse\<close> are the reference definitions; all writers store \<open>varint_enc\<close> and all
    readers refine \<open>varint_parse\<close>, errors and consumed bytes included.
  \<^item> \<open>Wire_Reader\<close> (1362--1562): every method of \<open>Reader\<close>. \<open>reader_ok\<close> is the invariant of the
    cursor, kept by all methods; \<open>value_bytes\<close> is the inductive grammar of values, and
    \<open>skipValue\<close> decides it. Skipping recurses through nested groups, so the definitions
    \<open>skipValueF\<close>, \<open>skipGroupF\<close>, \<open>skipLoopF\<close> take fuel; \<open>skip_fuel\<close> is twice the remaining input plus
    two, since each call between two reads of a byte costs at most two, and
    \<open>skipValue_returns\<close> shows that it is never used up. The equations without fuel are then
    derived, and only these are used.
  \<^item> \<open>Wire_Writer\<close> (1110--1359): every method of \<open>Writer\<close> and its twin without growth. The
    allocator is a function that may refuse any request, so every theorem covers every
    pattern of refusals. \<open>stores bs\<close> and \<open>appends m bs\<close> are the abstract view; the locale
    \<open>field_codec\<close> is the contract of one kind of field (writer, twin, reader), interpreted for
    all sixteen kinds, from which round trip and agreement of the twins follow.
  \<^item> \<open>Wire_Raw\<close> (105--567, 1935--1937): the unknown fields of a message. Four ways to count by
    number agree on validated fields (decoding, the byte-pattern matcher, the list of
    numbers, binary search in runs); appending and removing are all or nothing; the
    deterministic output depends only on the multiset of fields, by the locale \<open>field_order\<close>
    interpreted for the code's comparison on fields with a valid tag.
  \<^item> \<open>Wire_Packed\<close> (569--613, 1046--1108, 1782--1933): packed repeated fields into an
    \<open>ArrayList(T)\<close>. \<open>decode_varints\<close> is what a payload says; the locale \<open>packed_reader\<close> is the
    contract of a reader of one element, interpreted for the general reader, for its
    conversions and for the two-byte hot path. \<open>fills_with\<close> says what appending does to every
    list under every allocator; what the packed writers write, of each of the seven varint
    types and the six fixed-width ones, is read back (\<open>packed_varints\<close>, \<open>packed_words\<close>).
  \<^item> \<open>Wire_Views\<close> (615--618, 764--1044): header slices, lookups of a field, iterators over all
    occurrences of a repeated varint. \<open>field_values\<close> is the inductive meaning of a message for
    one number, \<open>drains\<close> the run of an iterator to its end. The loops are partial functions
    into an option, and it is proved that they always return.
  \<^item> \<open>Wkt_Calendar\<close> (\<open>wkt.zig\<close> 139--168): \<open>civilFromDays\<close> and \<open>daysFromCivil\<close>, equal to the Gregorian
    calendar counted day by day from its rules (\<open>day_number\<close>, \<open>month_days\<close>).
  \<^item> \<open>Wkt_Text\<close>: the text layer of the JSON forms: results of allocating functions (\<open>outcome\<close>: a
    panic, an error or a value), \<open>std.fmt.parseInt\<close>, the decimal printing of \<open>std.fmt\<close>, fractions
    of a second, and taking the payload out of a JSON string.
  \<^item> \<open>Wkt_Decode\<close>, \<open>Wkt_Fields\<close>: the decode loop that every message of \<open>wkt.zig\<close> has
    (\<open>while (reader.nextTag())\<close> with a switch on the field number), its scalars, strings and
    nested messages. The locale \<open>field_decoder\<close> is the contract of the switch: it reads the
    whole field and applies \<open>update\<close> to the message. Then decoding a list of fields is the
    fold of \<open>update\<close> over it. It is interpreted for every message below.
  \<^item> \<open>Wkt_Encode\<close>: writers in writers over one allocator, and \<open>encodes\<close>, what an \<open>encode\<close>
    returns for every behaviour of that allocator.
  \<^item> \<open>Wkt_Time\<close>, \<open>Wkt_Json\<close>: \<open>Timestamp\<close> and \<open>Duration\<close>, their arithmetic, wire codec and JSON text.
    Every valid value survives both round trips, dates are checked against the calendar, and
    three texts are given on which the parsers panic.
  \<^item> \<open>Wkt_FieldMask\<close>: path lists, \<open>snake_case\<close> and \<open>camelCase\<close> (inverse bijections between the
    paths each side accepts), wire codec and JSON text.
  \<^item> \<open>Wkt_Value\<close>, \<open>Wkt_Struct\<close>: \<open>Value\<close>, \<open>Struct\<close> and \<open>ListValue\<close>, the tree of a JSON document. Equality
    of trees is equality of \<open>Document\<close>s, where objects are maps; encoding and decoding invert
    each other. The four decoders call each other for nested messages and take fuel; a
    payload is shorter than the message around it, so the length of the input plus one is
    enough, \<open>decodes_answer\<close> shows it, and \<open>decode_eqs\<close> are the equations without fuel.
  \<^item> \<open>Wkt_Wrapper\<close>, \<open>Wkt_Any\<close>: \<open>Empty\<close>, the nine wrappers, and \<open>Any\<close> with its type URLs; an \<open>Any\<close> carries
    every message whose codec round-trips, under a name that is not empty and has no slash.
  \<^item> \<open>Base64\<close> (\<open>wkt.zig\<close> 2660--2690, \<open>json.zig\<close> 483--538): the decoders of the two files, both as
    functions of the six-bit digits and the padding of the text (\<open>digits_then_pads\<close>), and what
    each accepts; the encoder of \<open>std.base64\<close>.
  \<^item> \<open>Wkt_Number\<close>: the value of an \<open>f64\<close> as an integer in units of its smallest number, rounding of
    integers to floats, widening and narrowing, and \<open>wrapperFloatAsInt\<close>.
  \<^item> \<open>Json_Text\<close>, \<open>Json_Facts\<close>: \<open>std.json\<close> as \<open>wkt.zig\<close> uses it: values, the scanner, the parser, printing of
    strings. The parser recurses through arrays and objects and takes fuel, \<open>2 n + 1\<close> for a
    value of a text of \<open>n\<close> bytes and \<open>2 n + 2\<close> for members and items, since every second call
    reads a byte; \<open>parseValue_eq\<close>, \<open>parseMembers_eq\<close>, \<open>parseItems_eq\<close> are the equations without fuel.
    What is parsed is well-formed (\<open>json_ok\<close>), and the parser returns on every text.
  \<^item> \<open>Wkt_FromJson\<close>, \<open>Wkt_ToJson\<close>: the messages that go through \<open>std.json\<close>, read from a parsed value and
    printed. \<open>json_message\<close> is what a value stands for, without the wire, and \<open>yields\<close> says that the
    conversion to bytes is this followed by encoding, for all seventeen types an \<open>Any\<close> knows
    and with one \<open>Any\<close> inside another; the payload of a nested \<open>Any\<close> is shorter than the
    message around it, so that printing comes to an end.
  \<^item> \<open>Wkt_JsonText\<close>, \<open>Wkt_JsonRoundtrip\<close>: what the printed texts are read back as; \<open>denotes\<close> says that a
    text is a text of a JSON value wherever it stands. \<open>printable\<close> are the messages whose text says
    everything about them; each is read back as itself, \<open>Any\<close> with any of them inside included.
    \<open>bits_printer\<close> and \<open>bits_parser\<close> are an instance of \<open>prints_floats\<close>.
  \<^item> \<open>Cpp_Messages\<close>: the messages of \<open>person.proto\<close> and the well-known types as records, with
    floating-point values as exact rationals or the special values the program uses.
  \<^item> \<open>Cpp_Bench\<close> (\<open>main.cc\<close> 1--124): the library as the record \<open>protobuf\<close> of its functions, the
    state of the program (clock readings still to come, output), \<open>RunTimed\<close>, \<open>Print\<close> and the
    measured lambdas. \<open>settles\<close> is the contract of a lambda that can be repeated.
  \<^item> \<open>Cpp_Payload\<close> (126--388): every \<open>Make\<close> function, \<open>AppendVarint\<close>, the unknown-field payload.
  \<^item> \<open>Cpp_Setup_Demo\<close> (391--670), \<open>Cpp_Setup_Wkt\<close> (671--1352): all locals of \<open>main\<close> and all checks
    that end it, grouped by message; \<open>main_setup\<close> is their composition.
  \<^item> \<open>Cpp_Sizes\<close> (1353--1835): the printed sizes. \<open>Cpp_Main\<close> (1836--3846): the benchmarks in the
    order of the code, in seventeen groups, and \<open>main\<close>.
  \<^item> \<open>Cpp_Facts\<close>, \<open>Cpp_Runs\<close>, \<open>Cpp_Program\<close>: what the setup establishes (\<open>locals_ok\<close> about the inputs
    that the library prints or serialises; the JSON literals of the code, \<open>literal_inputs\<close>, are
    printed by no call of the library and are only the same in every run), why every
    benchmark then runs to its end, and the theorems about the whole \<open>main\<close>: it prints
    nothing when it fails in the setup, and otherwise prints all sizes and all benchmarks in
    order and returns success.

  \<^bold>\<open>Assumptions about code outside.\<close> Google's library is a parameter. \<open>library_ok\<close> is about
  the messages that \<open>main\<close> builds and no others: each is parsed back from its encoding, its JSON and
  its text, in the formats in which \<open>main\<close> does so, and the three that \<open>main\<close> serialises
  deterministically keep their length; nothing is assumed of messages that the library does not read
  back (strings that are not UTF-8, values nested beyond its limit);
  \<open>keeps_unknown_numbers\<close>: unknown fields are kept in order; \<open>literals_accepted\<close>: it accepts the
  JSON literals that \<open>main\<close> spells out itself and that no check of the setup has parsed with the same
  options into a message of the same type. \<open>demo_library\<close> in
  \<open>Cpp_Program\<close> is a table that meets all of them, so the theorems about \<open>main\<close> are not vacuous.
  \<open>std.mem.sort\<close> is modelled as a stable sort (insertion sort), which is faithful where the comparison is
  an order, as it is on valid fields. On others it is none, and what is proved of them speaks of
  the comparison alone. How \<open>std.fmt\<close> parses and prints
  floats is a parameter (\<open>float_parser\<close>, \<open>float_printer\<close>). \<open>reads_numbers\<close>: every number of the JSON
  grammar is parsed; \<open>prints_floats\<close>: a finite float is printed as such a number, which is read
  back as this float at either width.

  \<^bold>\<open>Bounds.\<close> \<open>usize\<close> indices of slices are \<open>nat\<close>; where the code adds lengths with a check, the
  check against \<open>usize_max\<close> is in the model. Integers with a width are words. The depth of
  groups is the recursion limit of the reader, 100 in \<open>Reader.init\<close>.

  \<^bold>\<open>Not modelled.\<close> Freeing memory; the decimal formatting of the two rates in \<open>Print\<close>, which are
  kept as a fraction; the inside of Google's library; the printing and
  parsing of floats in \<open>std.fmt\<close>; in \<open>wkt.zig\<close> the packing of dynamic messages, which needs
  \<open>dynamic.zig\<close>, copies of messages, and the memory of decoded messages and of JSON texts (it is
  never refused in the model; the memory of the wire writers may be). The other modules of
  the toolkit: the schema front end, dynamic messages, JSON and text format but for the
  base64 decoder, the code generator. Each of them rests on the schema front end, the next
  part to model.
\<close>

end
